(* ===== verification/Prelude.thy ===== *)
theory Prelude
  imports Complex_Main "HOL-Library.Char_ord" "HOL-Library.List_Lexorder" "HOL-Library.Word"
begin

text \<open>
  What every component shares: the Go standard-library behaviour the modelled code relies on
  (\<open>strings.TrimSpace\<close>, \<open>ToUpper\<close>, \<open>ToLower\<close>, wrapping 64-bit integers, truncating division,
  \<open>time.Time\<close> and \<open>time.Duration\<close>, IEEE comparisons of \<open>float64\<close>), the interface of a state
  machine that keeps an invariant, and the interface of an idempotency journal.
  A Go \<open>string\<close> is its list of bytes, so \<^typ>\<open>string\<close> (a list of \<^typ>\<open>char\<close>) is exact.
\<close>

section \<open>Collections of facts\<close>

named_theorems go_simps \<open>equations for the Go standard library that evaluate\<close>
named_theorems trim_simps \<open>what trimming leaves unchanged\<close>

section \<open>strings.TrimSpace\<close>

text \<open>
  \<open>unicode.IsSpace\<close> on UTF-8 bytes: the ASCII spaces, U+0085, U+00A0 and the \<open>Zs\<close>/\<open>Zl\<close>/\<open>Zp\<close>
  spaces U+1680, U+2000..U+200A, U+2028, U+2029, U+202F, U+205F, U+3000. The encoding of each is
  decoded as that rune wherever it occurs, so trimming removes exactly these byte patterns.
\<close>

definition ascii_space :: "char \<Rightarrow> bool" where
  "ascii_space c \<longleftrightarrow> c = CHR '' '' \<or> c = CHR 0x09 \<or> c = CHR 0x0A \<or> c = CHR 0x0B \<or> c = CHR 0x0C \<or> c = CHR 0x0D"

definition space2 :: "char \<Rightarrow> char \<Rightarrow> bool" where
  "space2 a b \<longleftrightarrow> a = CHR 0xC2 \<and> (b = CHR 0x85 \<or> b = CHR 0xA0)"

definition space3 :: "char \<Rightarrow> char \<Rightarrow> char \<Rightarrow> bool" where
  "space3 a b c \<longleftrightarrow>
     (a = CHR 0xE1 \<and> b = CHR 0x9A \<and> c = CHR 0x80)
   \<or> (a = CHR 0xE2 \<and> b = CHR 0x80 \<and>
        (of_char c \<ge> (128 :: nat) \<and> of_char c \<le> (138 :: nat) \<or> c = CHR 0xA8 \<or> c = CHR 0xA9 \<or> c = CHR 0xAF))
   \<or> (a = CHR 0xE2 \<and> b = CHR 0x81 \<and> c = CHR 0x9F)
   \<or> (a = CHR 0xE3 \<and> b = CHR 0x80 \<and> c = CHR 0x80)"

definition space_len :: "string \<Rightarrow> nat" where
  "space_len s =
     (case s of
        [] \<Rightarrow> 0
      | a # s1 \<Rightarrow> (if ascii_space a then 1 else
          (case s1 of
             [] \<Rightarrow> 0
           | b # s2 \<Rightarrow> (if space2 a b then 2 else
               (case s2 of
                  [] \<Rightarrow> 0
                | c # _ \<Rightarrow> (if space3 a b c then 3 else 0))))))"

text \<open>The same at the end of a string, read on the reversed bytes.\<close>

definition rspace_len :: "string \<Rightarrow> nat" where
  "rspace_len s =
     (case s of
        [] \<Rightarrow> 0
      | a # s1 \<Rightarrow> (if ascii_space a then 1 else
          (case s1 of
             [] \<Rightarrow> 0
           | b # s2 \<Rightarrow> (if space2 b a then 2 else
               (case s2 of
                  [] \<Rightarrow> 0
                | c # _ \<Rightarrow> (if space3 c b a then 3 else 0))))))"

function strip :: "(string \<Rightarrow> nat) \<Rightarrow> string \<Rightarrow> string" where
  "strip f s = (if f s = 0 \<or> s = [] then s else strip f (drop (f s) s))"
  by pat_completeness auto
termination
  by (relation "measure (\<lambda>(f, s). length s)") auto

declare strip.simps [simp del]

definition trim_left :: "string \<Rightarrow> string" where
  "trim_left s = strip space_len s"

definition trim_right :: "string \<Rightarrow> string" where
  "trim_right s = rev (strip rspace_len (rev s))"

definition trim_space :: "string \<Rightarrow> string" where
  "trim_space s = trim_right (trim_left s)"


lemma space_len_Nil [simp]: "space_len [] = 0"
  by (simp add: space_len_def)

lemma rspace_len_Nil [simp]: "rspace_len [] = 0"
  by (simp add: rspace_len_def)

lemma strip_stop: "f s = 0 \<Longrightarrow> strip f s = s"
  by (simp add: strip.simps)

lemma strip_done: "f [] = 0 \<Longrightarrow> f (strip f s) = 0"
proof (induction f s rule: strip.induct)
  case (1 f s)
  then show ?case by (cases "f s = 0 \<or> s = []") (auto simp: strip.simps [of f s])
qed

lemma strip_suffix: "\<exists>n. strip f s = drop n s"
proof (induction f s rule: strip.induct)
  case (1 f s)
  show ?case
  proof (cases "f s = 0 \<or> s = []")
    case True
    then have "strip f s = drop 0 s" by (simp add: strip.simps [of f s])
    then show ?thesis ..
  next
    case False
    with 1 obtain n where "strip f (drop (f s) s) = drop n (drop (f s) s)" by blast
    with False have "strip f s = drop (n + f s) s" by (simp add: strip.simps [of f s])
    then show ?thesis ..
  qed
qed

lemma space_len_take: "space_len s = 0 \<Longrightarrow> space_len (take n s) = 0"
  by (auto simp: space_len_def take_Cons' split: list.splits if_splits)

lemma trim_right_take: "\<exists>n. trim_right s = take n s"
proof -
  obtain n where "strip rspace_len (rev s) = drop n (rev s)"
    using strip_suffix by blast
  then have "trim_right s = take (length s - n) s"
    by (simp add: trim_right_def drop_rev)
  then show ?thesis ..
qed

lemma trim_space_ends:
  "space_len (trim_space s) = 0" "rspace_len (rev (trim_space s)) = 0"
proof -
  obtain n where n: "trim_space s = take n (trim_left s)"
    using trim_right_take [of "trim_left s"] by (auto simp: trim_space_def)
  have "space_len (trim_left s) = 0"
    by (simp add: trim_left_def strip_done)
  then show "space_len (trim_space s) = 0"
    unfolding n by (rule space_len_take)
  show "rspace_len (rev (trim_space s)) = 0"
    by (simp add: trim_space_def trim_right_def strip_done)
qed

lemma trim_space_id [trim_simps]:
  "space_len s = 0 \<Longrightarrow> rspace_len (rev s) = 0 \<Longrightarrow> trim_space s = s"
  by (simp add: trim_space_def trim_left_def trim_right_def strip_stop)

text \<open>Trimming twice is trimming once.\<close>

lemma trim_space_idem [simp, trim_simps]: "trim_space (trim_space s) = trim_space s"
  by (rule trim_space_id) (rule trim_space_ends)+

lemma trim_space_Nil [simp]: "trim_space [] = []"
  by (simp add: trim_space_id)

lemmas trim_eval = trim_space_id space_len_def rspace_len_def ascii_space_def space2_def space3_def

section \<open>strings.ToUpper and strings.ToLower\<close>

text \<open>
  The code compares the result with ASCII literals only. The ASCII letters are mapped, and so are
  the two runes beyond ASCII whose upper case is ASCII (U+0131, U+017F) and the two whose lower
  case is ASCII (U+212A, the Kelvin sign, and U+0130). Every other rune beyond ASCII is mapped beyond ASCII, which
  no literal of the code contains, and is left as it is.
\<close>

definition up_char :: "char \<Rightarrow> char" where
  "up_char c = (if of_char c \<ge> (97 :: nat) \<and> of_char c \<le> (122 :: nat) then char_of (of_char c - (32 :: nat)) else c)"

definition low_char :: "char \<Rightarrow> char" where
  "low_char c = (if of_char c \<ge> (65 :: nat) \<and> of_char c \<le> (90 :: nat) then char_of (of_char c + (32 :: nat)) else c)"

fun to_upper :: "string \<Rightarrow> string" where
  "to_upper [] = []"
| "to_upper (a # s) =
     (case s of
        b # s' \<Rightarrow> (if a = CHR 0xC4 \<and> b = CHR 0xB1 then CHR ''I'' # to_upper s'
                  else if a = CHR 0xC5 \<and> b = CHR 0xBF then CHR ''S'' # to_upper s'
                  else up_char a # to_upper s)
      | [] \<Rightarrow> [up_char a])"

fun to_lower :: "string \<Rightarrow> string" where
  "to_lower [] = []"
| "to_lower (a # s) =
     (case s of
        b # s' \<Rightarrow>
          (if a = CHR 0xC4 \<and> b = CHR 0xB0 then CHR ''i'' # to_lower s'
           else case s' of
             c # s'' \<Rightarrow> (if a = CHR 0xE2 \<and> b = CHR 0x84 \<and> c = CHR 0xAA then CHR ''k'' # to_lower s''
                        else low_char a # to_lower s)
           | [] \<Rightarrow> low_char a # to_lower s)
      | [] \<Rightarrow> [low_char a])"

lemmas case_eval = to_upper.simps to_lower.simps up_char_def low_char_def

section \<open>Integers, durations and instants\<close>

text \<open>Go's \<open>int64\<close> wraps around; \<open>wrap64\<close> is the value an \<open>int64\<close> result holds.\<close>

definition wrap64 :: "int \<Rightarrow> int" where
  "wrap64 x = (x + 2 ^ 63) mod 2 ^ 64 - 2 ^ 63"

definition in64 :: "int \<Rightarrow> bool" where
  "in64 x \<longleftrightarrow> - (2 ^ 63) \<le> x \<and> x < 2 ^ 63"

lemma wrap64_id [simp]: "in64 x \<Longrightarrow> wrap64 x = x"
  by (simp add: wrap64_def in64_def)

lemma wrap64_in64 [simp]: "in64 (wrap64 x)"
proof -
  have "0 \<le> (x + 2 ^ 63) mod 2 ^ 64" "(x + 2 ^ 63) mod 2 ^ 64 < (2 :: int) ^ 64"
    by (simp_all only: pos_mod_sign pos_mod_bound zero_less_power zero_less_numeral)
  then show ?thesis by (simp add: wrap64_def in64_def)
qed

lemma wrap64_nonneg_iff: "0 \<le> x \<Longrightarrow> x < 2 ^ 64 \<Longrightarrow> 0 \<le> wrap64 x \<longleftrightarrow> x < 2 ^ 63"
proof -
  assume x: "0 \<le> x" "x < 2 ^ 64"
  show ?thesis
  proof (cases "x < 2 ^ 63")
    case True
    with x have "in64 x" by (simp add: in64_def)
    with x True show ?thesis by simp
  next
    case False
    have "(x + 2 ^ 63) mod 2 ^ 64 = (x - 2 ^ 63) mod 2 ^ 64"
      using mod_add_self2 [of "x - 2 ^ 63" "2 ^ 64 :: int"] by (simp add: add.commute)
    also have "\<dots> = x - 2 ^ 63"
      using False x by (intro mod_pos_pos_trivial) auto
    finally show ?thesis using False x by (simp add: wrap64_def)
  qed
qed

text \<open>Go divides towards zero.\<close>

definition quot :: "int \<Rightarrow> int \<Rightarrow> int" where
  "quot a b = sgn a * sgn b * (\<bar>a\<bar> div \<bar>b\<bar>)"

definition rem :: "int \<Rightarrow> int \<Rightarrow> int" where
  "rem a b = a - b * quot a b"

lemma quot_nonneg [simp]: "0 \<le> a \<Longrightarrow> 0 < b \<Longrightarrow> quot a b = a div b"
  by (cases "a = 0") (auto simp: quot_def)

lemma rem_nonneg [simp]: "0 \<le> a \<Longrightarrow> 0 < b \<Longrightarrow> rem a b = a mod b"
  by (simp add: rem_def minus_mult_div_eq_mod)

text \<open>
  A \<open>time.Time\<close> is its nanoseconds since the Unix epoch (an unbounded integer: Go's range of
  years is far wider than 64 bits of nanoseconds); the zero \<open>Time\<close> is 1 January of year 1.
  \<open>Sub\<close> saturates at the ends of \<open>Duration\<close>.
\<close>

type_synonym time = int
type_synonym duration = int

definition zero_time :: time where
  "zero_time = - 62135596800000000000"

definition is_zero :: "time \<Rightarrow> bool" where
  "is_zero t \<longleftrightarrow> t = zero_time"

definition time_sub :: "time \<Rightarrow> time \<Rightarrow> duration" where
  "time_sub a b = max (- (2 ^ 63)) (min (2 ^ 63 - 1) (a - b))"

lemma time_sub_id: "in64 (a - b) \<Longrightarrow> time_sub a b = a - b"
  by (simp add: time_sub_def in64_def)

lemma time_sub_mono: "a \<le> a' \<Longrightarrow> time_sub a b \<le> time_sub a' b"
  by (auto simp: time_sub_def)

lemma time_sub_pos_iff: "0 < time_sub a b \<longleftrightarrow> b < a"
  by (auto simp: time_sub_def)

lemma time_sub_neg_iff: "time_sub a b < 0 \<longleftrightarrow> a < b"
  by (auto simp: time_sub_def)

section \<open>IEEE comparisons\<close>

text \<open>
  A \<open>float64\<close> as far as comparisons see it: NaN, an infinity with its sign (\<open>True\<close> is negative),
  or a finite value. Both zeros are \<open>Fin 0\<close>; they compare equal.
\<close>

datatype f64 = NaN | Inf bool | Fin rat

fun f64_less :: "f64 \<Rightarrow> f64 \<Rightarrow> bool" where
  "f64_less NaN _ = False"
| "f64_less _ NaN = False"
| "f64_less (Fin x) (Fin y) = (x < y)"
| "f64_less (Inf a) (Inf b) = (a \<and> \<not> b)"
| "f64_less (Inf a) (Fin _) = a"
| "f64_less (Fin _) (Inf b) = (\<not> b)"

fun is_nan :: "f64 \<Rightarrow> bool" where
  "is_nan NaN = True"
| "is_nan _ = False"

fun is_inf :: "f64 \<Rightarrow> bool" where
  "is_inf (Inf _) = True"
| "is_inf _ = False"

lemma f64_less_irrefl [simp]: "\<not> f64_less x x"
  by (cases x) auto

lemma f64_less_trans: "f64_less x y \<Longrightarrow> f64_less y z \<Longrightarrow> f64_less x z"
  by (cases x; cases y; cases z) auto

section \<open>The interface of a state machine that keeps an invariant\<close>

locale invariant_machine =
  fixes step :: "'s \<Rightarrow> 'e \<Rightarrow> 's"
    and inv :: "'s \<Rightarrow> bool"
  assumes step_inv: "inv s \<Longrightarrow> inv (step s e)"
begin

lemma run_inv: "inv s \<Longrightarrow> inv (foldl step s es)"
  by (induction es arbitrary: s) (auto simp: step_inv)

text \<open>Every state on the way satisfies it too.\<close>

lemma run_prefix_inv: "inv s \<Longrightarrow> inv (foldl step s (take n es))"
  by (rule run_inv)

end

text \<open>A machine that implements an abstract machine through an abstraction function.\<close>

locale refined_machine = invariant_machine step inv
  for step :: "'s \<Rightarrow> 'e \<Rightarrow> 's" and inv :: "'s \<Rightarrow> bool" +
  fixes abs :: "'s \<Rightarrow> 'a"
    and astep :: "'a \<Rightarrow> 'e \<Rightarrow> 'a"
  assumes abs_step: "inv s \<Longrightarrow> abs (step s e) = astep (abs s) e"
begin

lemma run_abs: "inv s \<Longrightarrow> abs (foldl step s es) = foldl astep (abs s) es"
  by (induction es arbitrary: s) (auto simp: abs_step step_inv)

end

section \<open>The interface of a command journal\<close>

text \<open>
  A journal stores the result of a command under its identity. A bounded journal may forget an
  entry, but it never changes the result of one command when it stores another's.
\<close>

locale command_journal =
  fixes find :: "'j \<Rightarrow> string \<Rightarrow> 'r option"
    and put :: "'j \<Rightarrow> string \<Rightarrow> 'r \<Rightarrow> 'j"
    and jinv :: "'j \<Rightarrow> bool"
  assumes jinv_put: "jinv j \<Longrightarrow> k \<noteq> [] \<Longrightarrow> jinv (put j k r)"
    and find_put: "jinv j \<Longrightarrow> k \<noteq> [] \<Longrightarrow> find (put j k r) k = Some r"
    and find_put_other:
      "jinv j \<Longrightarrow> k \<noteq> [] \<Longrightarrow> k' \<noteq> k \<Longrightarrow> find (put j k r) k' = Some r' \<Longrightarrow> find j k' = Some r'"
begin

lemma jinv_put_all: "jinv j \<Longrightarrow> [] \<notin> fst ` set krs \<Longrightarrow> jinv (foldl (\<lambda>j kr. put j (fst kr) (snd kr)) j krs)"
  by (induction krs arbitrary: j) (auto simp: jinv_put)

text \<open>Whatever a replay finds for a command is what was last stored for that command.\<close>

lemma find_put_all_other:
  "jinv j \<Longrightarrow> [] \<notin> fst ` set krs \<Longrightarrow> k \<notin> fst ` set krs
    \<Longrightarrow> find (foldl (\<lambda>j kr. put j (fst kr) (snd kr)) j krs) k = Some r \<Longrightarrow> find j k = Some r"
proof (induction krs arbitrary: j)
  case Nil
  then show ?case by simp
next
  case (Cons kr krs)
  have ne: "fst kr \<noteq> []" "k \<noteq> fst kr" using Cons.prems(2,3) by (simp_all, metis)
  have "jinv (put j (fst kr) (snd kr))" using Cons.prems(1) ne(1) by (rule jinv_put)
  moreover have "[] \<notin> fst ` set krs" "k \<notin> fst ` set krs"
    using Cons.prems(2,3) by simp_all
  moreover have "find (foldl (\<lambda>j kr. put j (fst kr) (snd kr)) (put j (fst kr) (snd kr)) krs) k = Some r"
    using Cons.prems(4) by simp
  ultimately have "find (put j (fst kr) (snd kr)) k = Some r" by (rule Cons.IH)
  then show ?case by (rule find_put_other [OF Cons.prems(1) ne])
qed

end

end
