(* ===== verification/StageLaser.thy ===== *)
theory StageLaser
  imports Prelude
begin

text \<open>
  The StageLaser device: the contract of \<open>internal/stagelaser/contract.go\<close> (states, limits,
  payload and observation validation) and the deterministic device state machine of
  \<open>internal/stagelaser/state_machine.go\<close> (arming, output pulses, flashing, restart recovery,
  the bounded command journal). The relay is a button simulator: every completed pulse toggles
  the physical laser, and no sensor reports it, so the theorems say when the tracked logical
  state agrees with the physical one.
\<close>

named_theorems laser_step_defs \<open>the operations of the machine that a command can run\<close>
named_theorems laser_parts \<open>the small updates every operation is made of\<close>

section \<open>The contract\<close>

definition CommandArm :: string where "CommandArm = ''LASER_ARM''"
definition CommandDisarm :: string where "CommandDisarm = ''LASER_DISARM''"
definition CommandSetOn :: string where "CommandSetOn = ''LASER_SET_ON''"
definition CommandSetOff :: string where "CommandSetOff = ''LASER_SET_OFF''"
definition CommandFlashStart :: string where "CommandFlashStart = ''LASER_FLASH_START''"
definition CommandFlashStop :: string where "CommandFlashStop = ''LASER_FLASH_STOP''"
definition CommandSafeOff :: string where "CommandSafeOff = ''LASER_SAFE_OFF''"
definition CommandStateRead :: string where "CommandStateRead = ''LASER_STATE_READ''"
definition CommandStateResync :: string where "CommandStateResync = ''LASER_STATE_RESYNC''"

lemmas laser_command_defs =
  CommandArm_def CommandDisarm_def CommandSetOn_def CommandSetOff_def CommandFlashStart_def
  CommandFlashStop_def CommandSafeOff_def CommandStateRead_def CommandStateResync_def

definition CapabilityArm :: string where "CapabilityArm = ''laser.arm''"
definition CapabilityDisarm :: string where "CapabilityDisarm = ''laser.disarm''"
definition CapabilityStateSet :: string where "CapabilityStateSet = ''laser.state.set''"
definition CapabilityFlashStart :: string where "CapabilityFlashStart = ''laser.flash.start''"
definition CapabilityFlashStop :: string where "CapabilityFlashStop = ''laser.flash.stop''"
definition CapabilitySafeOff :: string where "CapabilitySafeOff = ''laser.safe_off''"
definition CapabilityStateRead :: string where "CapabilityStateRead = ''laser.state.read''"
definition CapabilityStateResync :: string where "CapabilityStateResync = ''laser.state.resync''"

lemmas laser_capability_defs =
  CapabilityArm_def CapabilityDisarm_def CapabilityStateSet_def CapabilityFlashStart_def
  CapabilityFlashStop_def CapabilitySafeOff_def CapabilityStateRead_def CapabilityStateResync_def

text \<open>
  Go's string enumerations as datatypes; the last constructor is any other string, which the
  Go type admits and the validators refuse.
\<close>

datatype ArmState = ArmDisarmed | ArmArmed | ArmOther string

datatype LogicalState =
    StateOff | StateTurningOn | StateOn | StateTurningOff | StateFlashOn | StateFlashOff
  | StateUnknown | StateError | StateOther string

datatype StateQuality =
    StateQualityTracked | StateQualityConfirmed | StateQualityUnknown | StateQualityOther string

datatype DriverKind = DriverMechanicalRelay | DriverElectronic | DriverNone

record Limits =
  PulseMS :: int
  MinimumRestMS :: int
  MinimumFlashHz :: f64
  MaximumFlashHz :: f64
  MaximumDurationMS :: int

text \<open>The \<open>float64\<close> nearest to 0.1, exactly.\<close>

definition f64_tenth :: f64 where
  "f64_tenth = Fin (3602879701896397 / 36028797018963968)"

definition DefaultMechanicalLimits :: Limits where
  "DefaultMechanicalLimits =
     \<lparr>PulseMS = 180, MinimumRestMS = 250, MinimumFlashHz = f64_tenth, MaximumFlashHz = Fin 1,
      MaximumDurationMS = 60000\<rparr>"

record FlashStartPayload =
  fsFrequencyHz :: f64
  fsDurationMS :: int

record StateResyncPayload =
  rsState :: LogicalState

record FlashObservation =
  foCommandID :: string
  foFrequencyHz :: f64
  foDurationMS :: int
  foStartedAt :: string
  foEndsAt :: string

text \<open>The errors of the validators; a message of a result is one of them or a fixed text.\<close>

datatype laser_error =
    PulseRange | RestRange | FrequencyLimits | DurationLimit
  | FrequencyOutside f64 f64 | DurationOutside int
  | ResyncStates
  | SchemaUnsupported int | BadArmState ArmState | BadLogicalState LogicalState
  | BadStateQuality StateQuality | ConfirmedResync | PulseState | ResyncQuality | ResyncState
  | BadLimits laser_error
  | NoPulse | FlashInactive | PulseInProgressErr | BadFlashState LogicalState

datatype laser_text = Text string | ErrText laser_error

definition finitePositive :: "f64 \<Rightarrow> bool" where
  "finitePositive v \<longleftrightarrow> \<not> is_nan v \<and> \<not> is_inf v \<and> f64_less (Fin 0) v"

definition CommandCapability :: "string \<Rightarrow> string" where
  "CommandCapability commandType =
     (let t = trim_space commandType in
      if t = CommandArm then CapabilityArm
      else if t = CommandDisarm then CapabilityDisarm
      else if t = CommandSetOn \<or> t = CommandSetOff then CapabilityStateSet
      else if t = CommandFlashStart then CapabilityFlashStart
      else if t = CommandFlashStop then CapabilityFlashStop
      else if t = CommandSafeOff then CapabilitySafeOff
      else if t = CommandStateRead then CapabilityStateRead
      else if t = CommandStateResync then CapabilityStateResync
      else [])"

definition CueSafeCommand :: "string \<Rightarrow> bool" where
  "CueSafeCommand commandType =
     (trim_space commandType \<in> set
        [CommandArm, CommandDisarm, CommandSetOn, CommandSetOff, CommandFlashStart,
         CommandFlashStop, CommandSafeOff])"

definition ValidateLimits :: "Limits \<Rightarrow> laser_error option" where
  "ValidateLimits l =
     (if PulseMS l \<le> 0 \<or> PulseMS l > 10000 then Some PulseRange
      else if MinimumRestMS l < 0 \<or> MinimumRestMS l > 60000 then Some RestRange
      else if \<not> finitePositive (MinimumFlashHz l) \<or> \<not> finitePositive (MaximumFlashHz l)
              \<or> f64_less (MaximumFlashHz l) (MinimumFlashHz l) then Some FrequencyLimits
      else if MaximumDurationMS l \<le> 0 \<or> MaximumDurationMS l > 3600000 then Some DurationLimit
      else None)"

definition ValidateFlashStartPayload :: "FlashStartPayload \<Rightarrow> Limits \<Rightarrow> laser_error option" where
  "ValidateFlashStartPayload p l =
     (case ValidateLimits l of Some e \<Rightarrow> Some e
      | None \<Rightarrow>
        if is_nan (fsFrequencyHz p) \<or> is_inf (fsFrequencyHz p)
           \<or> f64_less (fsFrequencyHz p) (MinimumFlashHz l) \<or> f64_less (MaximumFlashHz l) (fsFrequencyHz p)
        then Some (FrequencyOutside (MinimumFlashHz l) (MaximumFlashHz l))
        else if fsDurationMS p \<le> 0 \<or> fsDurationMS p > MaximumDurationMS l
        then Some (DurationOutside (MaximumDurationMS l))
        else None)"

definition ValidateStateResyncPayload :: "StateResyncPayload \<Rightarrow> laser_error option" where
  "ValidateStateResyncPayload p =
     (case rsState p of StateOff \<Rightarrow> None | StateOn \<Rightarrow> None | _ \<Rightarrow> Some ResyncStates)"

record LaserObservation =
  obSchemaVersion :: int
  obFirmwareVersion :: string
  obControlContractVersion :: string
  obBootID :: string
  obUptimeSeconds :: int
  obResetReason :: string
  obWiFiRSSI :: "int option"
  obIPAddress :: string
  obArmState :: ArmState
  obLogicalState :: LogicalState
  obStateQuality :: StateQuality
  obResyncRequired :: bool
  obPulseInProgress :: bool
  obRelayPulseCount :: "64 word"
  obDriverKind :: DriverKind
  obLimits :: Limits
  obActiveFlash :: "FlashObservation option"
  obLastAcceptedCommandID :: string
  obLastAppliedCommandID :: string
  obLastCommandType :: string
  obLastCommandResult :: string

fun validArmState :: "ArmState \<Rightarrow> bool" where
  "validArmState (ArmOther _) = False"
| "validArmState _ = True"

fun validLogicalState :: "LogicalState \<Rightarrow> bool" where
  "validLogicalState (StateOther _) = False"
| "validLogicalState _ = True"

fun validStateQuality :: "StateQuality \<Rightarrow> bool" where
  "validStateQuality (StateQualityOther _) = False"
| "validStateQuality _ = True"

definition ValidateObservation :: "LaserObservation \<Rightarrow> laser_error option" where
  "ValidateObservation ob =
     (if obSchemaVersion ob \<noteq> 1 then Some (SchemaUnsupported (obSchemaVersion ob))
      else if \<not> validArmState (obArmState ob) then Some (BadArmState (obArmState ob))
      else if \<not> validLogicalState (obLogicalState ob) then Some (BadLogicalState (obLogicalState ob))
      else if \<not> validStateQuality (obStateQuality ob) then Some (BadStateQuality (obStateQuality ob))
      else if obStateQuality ob = StateQualityConfirmed \<and> obResyncRequired ob then Some ConfirmedResync
      else if obPulseInProgress ob \<and> obLogicalState ob \<noteq> StateTurningOn
              \<and> obLogicalState ob \<noteq> StateTurningOff then Some PulseState
      else if obResyncRequired ob \<and> obStateQuality ob \<noteq> StateQualityUnknown then Some ResyncQuality
      else if obResyncRequired ob \<and> obLogicalState ob \<noteq> StateUnknown
              \<and> obLogicalState ob \<noteq> StateError then Some ResyncState
      else (case ValidateLimits (obLimits ob) of Some e \<Rightarrow> Some (BadLimits e) | None \<Rightarrow> None))"

section \<open>The state of the machine\<close>

datatype ResetClass = ResetSoftware | ResetWatchdog | ResetPowerOn | ResetBrownout | ResetUnknown

record LaserCommand =
  cmdID :: string
  cmdType :: string
  cmdFlash :: "FlashStartPayload option"
  cmdResync :: "StateResyncPayload option"

datatype ResultStatus = ResultAccepted | ResultRejected | ResultCompleted | ResultFailed | ResultNone

datatype ErrorCode =
  ErrorNotArmed | ErrorUnsafeState | ErrorStateUnknown | ErrorBusy | ErrorInvalid | ErrorNone

fun status_string :: "ResultStatus \<Rightarrow> string" where
  "status_string ResultAccepted = ''ACCEPTED''"
| "status_string ResultRejected = ''REJECTED''"
| "status_string ResultCompleted = ''COMPLETED''"
| "status_string ResultFailed = ''FAILED''"
| "status_string ResultNone = []"

record LaserResult =
  resCommandID :: string
  resStatus :: ResultStatus
  resErrorCode :: ErrorCode
  resMessage :: laser_text

record PersistentState =
  StableState :: LogicalState
  pStateQuality :: StateQuality
  TransitionInProgress :: bool
  FlashSessionInProgress :: bool

record pendingPulse =
  ppCommandID :: string
  ppCommandType :: string
  ppTarget :: LogicalState
  ppFinalizeFlash :: bool

record Machine =
  armState :: ArmState
  logicalState :: LogicalState
  stateQuality :: StateQuality
  resyncRequired :: bool
  pulseInProgress :: bool
  relayPulseCount :: "64 word"
  limits :: Limits
  activeFlash :: "FlashObservation option"
  lastAcceptedCommandID :: string
  lastAppliedCommandID :: string
  lastCommandType :: string
  lastCommandResult :: string
  persistent :: PersistentState
  pending :: "pendingPulse option"
  journal :: "string \<rightharpoonup> LaserResult"
  journalOrder :: "string list"

definition commandJournalCapacity :: nat where
  "commandJournalCapacity = 32"

definition stable_off :: PersistentState where
  "stable_off = \<lparr>StableState = StateOff, pStateQuality = StateQualityTracked,
     TransitionInProgress = False, FlashSessionInProgress = False\<rparr>"

definition NewColdPowerUpMachine :: Machine where
  "NewColdPowerUpMachine =
     \<lparr>armState = ArmDisarmed, logicalState = StateOff, stateQuality = StateQualityTracked,
      resyncRequired = False, pulseInProgress = False, relayPulseCount = 0,
      limits = DefaultMechanicalLimits, activeFlash = None, lastAcceptedCommandID = [],
      lastAppliedCommandID = [], lastCommandType = [], lastCommandResult = [],
      persistent = stable_off, pending = None, journal = Map.empty, journalOrder = []\<rparr>"

definition stableState :: "LogicalState \<Rightarrow> bool" where
  "stableState s \<longleftrightarrow> s = StateOff \<or> s = StateOn"

section \<open>The updates the operations are made of\<close>

definition enterUnknown :: "Machine \<Rightarrow> Machine" where [laser_parts]:
  "enterUnknown m = m\<lparr>armState := ArmDisarmed, logicalState := StateUnknown,
     stateQuality := StateQualityUnknown, resyncRequired := True, pulseInProgress := False,
     activeFlash := None, pending := None,
     persistent := \<lparr>StableState = StateUnknown, pStateQuality = StateQualityUnknown,
       TransitionInProgress = False, FlashSessionInProgress = False\<rparr>\<rparr>"

definition persistStable :: "LogicalState \<Rightarrow> Machine \<Rightarrow> Machine" where [laser_parts]:
  "persistStable s m = m\<lparr>persistent := (persistent m)\<lparr>StableState := s,
     pStateQuality := StateQualityTracked, TransitionInProgress := False\<rparr>\<rparr>"

definition busy :: "Machine \<Rightarrow> bool" where [laser_parts]:
  "busy m \<longleftrightarrow> pulseInProgress m \<or> logicalState m = StateTurningOn \<or> logicalState m = StateTurningOff"

definition remember :: "LaserResult \<Rightarrow> Machine \<Rightarrow> Machine" where
  "remember r m =
     (if resCommandID r = [] then m
      else
        let m1 = (if resCommandID r \<in> dom (journal m) then m
                  else
                    let m0 = (if length (journalOrder m) = commandJournalCapacity
                              then m\<lparr>journal := (journal m)(hd (journalOrder m) := None),
                                     journalOrder := tl (journalOrder m)\<rparr>
                              else m)
                    in m0\<lparr>journalOrder := journalOrder m0 @ [resCommandID r]\<rparr>)
        in m1\<lparr>journal := (journal m1)(resCommandID r \<mapsto> r)\<rparr>)"

definition complete :: "LaserCommand \<Rightarrow> string \<Rightarrow> Machine \<Rightarrow> Machine \<times> LaserResult" where [laser_parts]:
  "complete c message m =
     (let r = \<lparr>resCommandID = cmdID c, resStatus = ResultCompleted, resErrorCode = ErrorNone,
               resMessage = Text message\<rparr>
      in (remember r (m\<lparr>lastAcceptedCommandID := cmdID c, lastAppliedCommandID := cmdID c,
            lastCommandType := cmdType c, lastCommandResult := status_string ResultCompleted\<rparr>), r))"

definition reject :: "LaserCommand \<Rightarrow> ErrorCode \<Rightarrow> laser_text \<Rightarrow> Machine \<Rightarrow> Machine \<times> LaserResult" where [laser_parts]:
  "reject c code message m =
     (let r = \<lparr>resCommandID = cmdID c, resStatus = ResultRejected, resErrorCode = code,
               resMessage = message\<rparr>
      in (remember r (m\<lparr>lastCommandType := cmdType c,
            lastCommandResult := status_string ResultRejected\<rparr>), r))"

definition fail_cmd :: "LaserCommand \<Rightarrow> ErrorCode \<Rightarrow> laser_text \<Rightarrow> Machine \<Rightarrow> Machine \<times> LaserResult" where [laser_parts]:
  "fail_cmd c code message m =
     (let r = \<lparr>resCommandID = cmdID c, resStatus = ResultFailed, resErrorCode = code,
               resMessage = message\<rparr>
      in (remember r (m\<lparr>lastCommandType := cmdType c,
            lastCommandResult := status_string ResultFailed\<rparr>), r))"

definition beginPulse :: "string \<Rightarrow> string \<Rightarrow> LogicalState \<Rightarrow> bool \<Rightarrow> Machine \<Rightarrow> Machine" where [laser_parts]:
  "beginPulse commandID commandType target finalizeFlash m =
     m\<lparr>pulseInProgress := True,
       persistent := (persistent m)\<lparr>TransitionInProgress := True\<rparr>,
       logicalState := (if target = StateOn \<or> target = StateFlashOn then StateTurningOn else StateTurningOff),
       pending := Some \<lparr>ppCommandID = commandID, ppCommandType = commandType, ppTarget = target,
                        ppFinalizeFlash = finalizeFlash\<rparr>\<rparr>"

definition acceptPulse :: "LaserCommand \<Rightarrow> LogicalState \<Rightarrow> bool \<Rightarrow> Machine \<Rightarrow> Machine \<times> LaserResult" where [laser_parts]:
  "acceptPulse c target finalizeFlash m =
     (let r = \<lparr>resCommandID = cmdID c, resStatus = ResultAccepted, resErrorCode = ErrorNone,
               resMessage = Text ''output pulse started; state commits after release''\<rparr>
      in (remember r ((beginPulse (cmdID c) (cmdType c) target finalizeFlash m)
            \<lparr>lastAcceptedCommandID := cmdID c, lastCommandType := cmdType c,
             lastCommandResult := status_string ResultAccepted\<rparr>), r))"

section \<open>The operations\<close>

definition RestoreMachine :: "PersistentState \<Rightarrow> ResetClass \<Rightarrow> bool \<Rightarrow> Machine" where
  "RestoreMachine p reset sharedPowerQualified =
     (let m = NewColdPowerUpMachine\<lparr>persistent := p, armState := ArmDisarmed\<rparr> in
      if TransitionInProgress p \<or> FlashSessionInProgress p then enterUnknown m
      else if (reset = ResetSoftware \<or> reset = ResetWatchdog)
              \<and> stableState (StableState p) \<and> validStateQuality (pStateQuality p)
              \<and> pStateQuality p \<noteq> StateQualityUnknown
      then m\<lparr>logicalState := StableState p, stateQuality := pStateQuality p, resyncRequired := False\<rparr>
      else if (reset = ResetPowerOn \<or> reset = ResetBrownout) \<and> sharedPowerQualified
      then m\<lparr>logicalState := StateOff, stateQuality := StateQualityTracked, resyncRequired := False,
             persistent := stable_off\<rparr>
      else enterUnknown m)"

definition ControlContractVersion :: string where
  "ControlContractVersion = ''stagecore.stagelaser/1''"

definition Observe_laser :: "Machine \<Rightarrow> LaserObservation" where
  "Observe_laser m =
     \<lparr>obSchemaVersion = 1, obFirmwareVersion = [], obControlContractVersion = ControlContractVersion,
      obBootID = [], obUptimeSeconds = 0, obResetReason = [], obWiFiRSSI = None, obIPAddress = [],
      obArmState = armState m, obLogicalState = logicalState m, obStateQuality = stateQuality m,
      obResyncRequired = resyncRequired m, obPulseInProgress = pulseInProgress m,
      obRelayPulseCount = relayPulseCount m, obDriverKind = DriverMechanicalRelay,
      obLimits = limits m, obActiveFlash = activeFlash m,
      obLastAcceptedCommandID = lastAcceptedCommandID m,
      obLastAppliedCommandID = lastAppliedCommandID m,
      obLastCommandType = lastCommandType m, obLastCommandResult = lastCommandResult m\<rparr>"

definition arm :: "LaserCommand \<Rightarrow> Machine \<Rightarrow> Machine \<times> LaserResult" where [laser_step_defs]:
  "arm c m =
     (if busy m then reject c ErrorBusy (Text ''StageLaser is busy'') m
      else if stateQuality m = StateQualityUnknown \<or> resyncRequired m
              \<or> logicalState m = StateUnknown \<or> logicalState m = StateError
      then reject c ErrorStateUnknown (Text ''StageLaser state requires resync'') m
      else if logicalState m \<noteq> StateOff
      then reject c ErrorUnsafeState (Text ''StageLaser must be OFF before ARM'') m
      else complete c ''StageLaser armed'' (m\<lparr>armState := ArmArmed\<rparr>))"

definition flash_settle_off :: "Machine \<Rightarrow> Machine" where [laser_parts]:
  "flash_settle_off m =
     persistStable StateOff (m\<lparr>activeFlash := None, logicalState := StateOff,
       persistent := (persistent m)\<lparr>FlashSessionInProgress := False\<rparr>\<rparr>)"

definition disarm :: "LaserCommand \<Rightarrow> bool \<Rightarrow> Machine \<Rightarrow> Machine \<times> LaserResult" where [laser_step_defs]:
  "disarm c forceDisarm m0 =
     (let m = (if forceDisarm then m0\<lparr>armState := ArmDisarmed\<rparr> else m0) in
      if pulseInProgress m
      then reject c ErrorBusy (Text ''StageLaser pulse is already in progress'') m
      else if stateQuality m = StateQualityUnknown \<or> logicalState m = StateUnknown
              \<or> logicalState m = StateError
      then fail_cmd c ErrorStateUnknown
             (Text ''StageLaser is disarmed but physical OFF cannot be proven'') (enterUnknown m)
      else if activeFlash m \<noteq> None then
        (if logicalState m = StateFlashOff
         then complete c ''flash stopped and StageLaser is OFF'' (flash_settle_off m)
         else if logicalState m = StateFlashOn then acceptPulse c StateOff True m
         else fail_cmd c ErrorUnsafeState (Text ''active flash state is invalid'') m)
      else (case logicalState m of
              StateOff \<Rightarrow> complete c ''StageLaser is OFF'' m
            | StateOn \<Rightarrow> acceptPulse c StateOff False m
            | _ \<Rightarrow> reject c ErrorBusy (Text ''StageLaser is transitioning'') m))"

definition setOn :: "LaserCommand \<Rightarrow> Machine \<Rightarrow> Machine \<times> LaserResult" where [laser_step_defs]:
  "setOn c m =
     (if armState m \<noteq> ArmArmed then reject c ErrorNotArmed (Text ''ARM is required before ON'') m
      else if busy m then reject c ErrorBusy (Text ''StageLaser is busy'') m
      else if stateQuality m = StateQualityUnknown \<or> resyncRequired m
              \<or> logicalState m = StateUnknown \<or> logicalState m = StateError
      then reject c ErrorStateUnknown (Text ''StageLaser state requires resync'') m
      else (case logicalState m of
              StateOn \<Rightarrow> complete c ''StageLaser is already ON'' m
            | StateOff \<Rightarrow> acceptPulse c StateOn False m
            | _ \<Rightarrow> reject c ErrorBusy (Text ''StageLaser is transitioning'') m))"

definition flashStop :: "LaserCommand \<Rightarrow> Machine \<Rightarrow> Machine \<times> LaserResult" where [laser_step_defs]:
  "flashStop c m =
     (if pulseInProgress m
      then reject c ErrorBusy (Text ''StageLaser pulse is already in progress'') m
      else if stateQuality m = StateQualityUnknown \<or> logicalState m = StateUnknown
              \<or> logicalState m = StateError
      then fail_cmd c ErrorStateUnknown (Text ''flash stop cannot prove OFF without resync'') m
      else if activeFlash m = None then
        (case logicalState m of
           StateOff \<Rightarrow> complete c ''StageLaser is already OFF'' m
         | StateOn \<Rightarrow> acceptPulse c StateOff False m
         | _ \<Rightarrow> reject c ErrorBusy (Text ''StageLaser is transitioning'') m)
      else
        (case logicalState m of
           StateFlashOff \<Rightarrow> complete c ''flash stopped at OFF'' (flash_settle_off m)
         | StateFlashOn \<Rightarrow> acceptPulse c StateOff True m
         | _ \<Rightarrow> reject c ErrorBusy (Text ''StageLaser flash is transitioning'') m))"

definition setOff :: "LaserCommand \<Rightarrow> Machine \<Rightarrow> Machine \<times> LaserResult" where [laser_step_defs]:
  "setOff c m =
     (if pulseInProgress m
      then reject c ErrorBusy (Text ''StageLaser pulse is already in progress'') m
      else if stateQuality m = StateQualityUnknown \<or> logicalState m = StateUnknown
              \<or> logicalState m = StateError
      then fail_cmd c ErrorStateUnknown (Text ''physical OFF cannot be proven without resync'') m
      else if activeFlash m \<noteq> None then flashStop c m
      else (case logicalState m of
              StateOff \<Rightarrow> complete c ''StageLaser is already OFF'' m
            | StateOn \<Rightarrow> acceptPulse c StateOff False m
            | _ \<Rightarrow> reject c ErrorBusy (Text ''StageLaser is transitioning'') m))"

definition flashStart :: "LaserCommand \<Rightarrow> Machine \<Rightarrow> Machine \<times> LaserResult" where [laser_step_defs]:
  "flashStart c m =
     (if armState m \<noteq> ArmArmed then reject c ErrorNotArmed (Text ''ARM is required before Flash'') m
      else if busy m \<or> activeFlash m \<noteq> None then reject c ErrorBusy (Text ''StageLaser is busy'') m
      else if stateQuality m = StateQualityUnknown \<or> resyncRequired m \<or> logicalState m \<noteq> StateOff
      then reject c ErrorUnsafeState (Text ''Flash requires a known OFF state'') m
      else (case cmdFlash c of
              None \<Rightarrow> reject c ErrorInvalid (Text ''flash payload is required'') m
            | Some p \<Rightarrow>
                (case ValidateFlashStartPayload p (limits m) of
                   Some e \<Rightarrow> reject c ErrorInvalid (ErrText e) m
                 | None \<Rightarrow>
                     acceptPulse c StateFlashOn False
                       (m\<lparr>activeFlash := Some \<lparr>foCommandID = cmdID c, foFrequencyHz = fsFrequencyHz p,
                            foDurationMS = fsDurationMS p, foStartedAt = [], foEndsAt = []\<rparr>,
                          persistent := (persistent m)\<lparr>FlashSessionInProgress := True\<rparr>\<rparr>))))"

definition resync :: "LaserCommand \<Rightarrow> Machine \<Rightarrow> Machine \<times> LaserResult" where [laser_step_defs]:
  "resync c m =
     (if armState m \<noteq> ArmDisarmed then reject c ErrorUnsafeState (Text ''resync requires DISARMED'') m
      else if busy m \<or> activeFlash m \<noteq> None
      then reject c ErrorBusy (Text ''resync requires an idle output'') m
      else (case cmdResync c of
              None \<Rightarrow> reject c ErrorInvalid (Text ''resync payload is required'') m
            | Some p \<Rightarrow>
                (case ValidateStateResyncPayload p of
                   Some e \<Rightarrow> reject c ErrorInvalid (ErrText e) m
                 | None \<Rightarrow>
                     complete c ''StageLaser tracked state resynchronized without output pulse''
                       (persistStable (rsState p) (m\<lparr>logicalState := rsState p,
                          stateQuality := StateQualityTracked, resyncRequired := False\<rparr>)))))"

text \<open>
  \<open>Execute\<close> after its trimming and its checks; the last branch of the switch is unreachable,
  because every command with a capability has a case.
\<close>

definition dispatch_cmd :: "LaserCommand \<Rightarrow> Machine \<Rightarrow> Machine \<times> LaserResult" where
  "dispatch_cmd c m =
     (let t = cmdType c in
      if t = CommandArm then arm c m
      else if t = CommandDisarm then disarm c True m
      else if t = CommandSetOn then setOn c m
      else if t = CommandSetOff then setOff c m
      else if t = CommandFlashStart then flashStart c m
      else if t = CommandFlashStop then flashStop c m
      else if t = CommandSafeOff then disarm c True m
      else if t = CommandStateRead then complete c [] m
      else if t = CommandStateResync then resync c m
      else reject c ErrorInvalid (Text ''unsupported StageLaser command'') m)"

definition trim_cmd :: "LaserCommand \<Rightarrow> LaserCommand" where
  "trim_cmd c = c\<lparr>cmdID := trim_space (cmdID c), cmdType := trim_space (cmdType c)\<rparr>"

definition Execute_laser :: "LaserCommand \<Rightarrow> Machine \<Rightarrow> Machine \<times> LaserResult" where
  "Execute_laser c0 m =
     (let c = trim_cmd c0 in
      if cmdID c = [] \<or> CommandCapability (cmdType c) = []
      then (m, \<lparr>resCommandID = cmdID c, resStatus = ResultRejected, resErrorCode = ErrorInvalid,
               resMessage = Text []\<rparr>)
      else (case journal m (cmdID c) of
              Some prior \<Rightarrow> (m, prior)
            | None \<Rightarrow> dispatch_cmd c m))"

definition no_result :: LaserResult where
  "no_result = \<lparr>resCommandID = [], resStatus = ResultNone, resErrorCode = ErrorNone, resMessage = Text []\<rparr>"

definition commit_pulse :: "pendingPulse \<Rightarrow> Machine \<Rightarrow> Machine" where
  "commit_pulse p m0 =
     (let m = m0\<lparr>pending := None, pulseInProgress := False, relayPulseCount := relayPulseCount m0 + 1,
                 logicalState := ppTarget p, stateQuality := StateQualityTracked,
                 resyncRequired := False,
                 persistent := (persistent m0)\<lparr>TransitionInProgress := False\<rparr>\<rparr>
      in if ppFinalizeFlash p
         then persistStable StateOff (m\<lparr>activeFlash := None,
                persistent := (persistent m)\<lparr>FlashSessionInProgress := False\<rparr>,
                logicalState := StateOff\<rparr>)
         else if ppCommandType p \<noteq> [] \<and> ppCommandType p \<noteq> CommandFlashStart
                 \<and> stableState (logicalState m)
         then persistStable (logicalState m) m
         else m)"

definition CompletePulse :: "Machine \<Rightarrow> Machine \<times> (laser_error + LaserResult)" where
  "CompletePulse m =
     (if \<not> pulseInProgress m then (m, Inl NoPulse)
      else (case pending m of
              None \<Rightarrow> (m, Inl NoPulse)
            | Some p \<Rightarrow>
                (let m1 = commit_pulse p m in
                 if ppCommandID p = [] then (m1, Inr no_result)
                 else
                   let r = \<lparr>resCommandID = ppCommandID p, resStatus = ResultCompleted,
                            resErrorCode = ErrorNone,
                            resMessage = Text ''output pulse released and logical state committed''\<rparr>
                   in ((remember r (m1\<lparr>lastAppliedCommandID := ppCommandID p\<rparr>))
                         \<lparr>lastCommandResult := status_string ResultCompleted\<rparr>, Inr r))))"

definition AdvanceFlashPhase :: "Machine \<Rightarrow> Machine \<times> laser_error option" where
  "AdvanceFlashPhase m =
     (if activeFlash m = None then (m, Some FlashInactive)
      else if pulseInProgress m then (m, Some PulseInProgressErr)
      else (case logicalState m of
              StateFlashOn \<Rightarrow> (beginPulse [] [] StateFlashOff False m, None)
            | StateFlashOff \<Rightarrow> (beginPulse [] [] StateFlashOn False m, None)
            | _ \<Rightarrow> (m, Some (BadFlashState (logicalState m)))))"

definition ExpireFlash :: "Machine \<Rightarrow> Machine \<times> (laser_error + LaserResult)" where
  "ExpireFlash m =
     (if activeFlash m = None then (m, Inl FlashInactive)
      else if pulseInProgress m then (m, Inl PulseInProgressErr)
      else if logicalState m = StateFlashOff
      then (flash_settle_off (m\<lparr>stateQuality := StateQualityTracked\<rparr>),
            Inr (no_result\<lparr>resStatus := ResultCompleted, resMessage := Text ''flash duration expired at OFF''\<rparr>))
      else if logicalState m \<noteq> StateFlashOn then (m, Inl (BadFlashState (logicalState m)))
      else (beginPulse [] [] StateOff True m,
            Inr (no_result\<lparr>resStatus := ResultAccepted, resMessage := Text ''flash expiry is settling to OFF''\<rparr>)))"

section \<open>The invariant\<close>

definition known_quality :: "StateQuality \<Rightarrow> bool" where
  "known_quality q \<longleftrightarrow> q = StateQualityTracked \<or> q = StateQualityConfirmed"

definition idle_output :: "Machine \<Rightarrow> bool" where
  "idle_output m \<longleftrightarrow> \<not> pulseInProgress m \<and> pending m = None \<and> \<not> TransitionInProgress (persistent m)"

definition flash_session :: "Machine \<Rightarrow> bool" where
  "flash_session m \<longleftrightarrow> activeFlash m \<noteq> None \<and> FlashSessionInProgress (persistent m)"

definition no_flash :: "Machine \<Rightarrow> bool" where
  "no_flash m \<longleftrightarrow> activeFlash m = None \<and> \<not> FlashSessionInProgress (persistent m)"

lemma known_quality_simps [simp]:
  "known_quality StateQualityTracked" "known_quality StateQualityConfirmed"
  "\<not> known_quality StateQualityUnknown"
  by (simp_all add: known_quality_def)

text \<open>What a pulse in progress is for, and what it will leave behind.\<close>

definition pulse_ok :: "Machine \<Rightarrow> pendingPulse \<Rightarrow> bool" where
  "pulse_ok m p \<longleftrightarrow>
     (case ppTarget p of
        StateOn \<Rightarrow> logicalState m = StateTurningOn \<and> \<not> ppFinalizeFlash p \<and> no_flash m
          \<and> ppCommandType p \<noteq> [] \<and> ppCommandType p \<noteq> CommandFlashStart
      | StateFlashOn \<Rightarrow> logicalState m = StateTurningOn \<and> \<not> ppFinalizeFlash p \<and> flash_session m
      | StateFlashOff \<Rightarrow> logicalState m = StateTurningOff \<and> \<not> ppFinalizeFlash p \<and> flash_session m
      | StateOff \<Rightarrow> logicalState m = StateTurningOff
          \<and> (if ppFinalizeFlash p then flash_session m
             else no_flash m \<and> ppCommandType p \<noteq> [] \<and> ppCommandType p \<noteq> CommandFlashStart)
      | _ \<Rightarrow> False)"

definition mode_ok :: "Machine \<Rightarrow> bool" where
  "mode_ok m \<longleftrightarrow>
     (case logicalState m of
        StateUnknown \<Rightarrow> idle_output m \<and> no_flash m \<and> stateQuality m = StateQualityUnknown
          \<and> resyncRequired m \<and> armState m = ArmDisarmed
          \<and> StableState (persistent m) = StateUnknown
      | StateError \<Rightarrow> False
      | StateOther _ \<Rightarrow> False
      | s \<Rightarrow> known_quality (stateQuality m) \<and> \<not> resyncRequired m
          \<and> (if stableState s
             then idle_output m \<and> no_flash m \<and> StableState (persistent m) = s
                  \<and> pStateQuality (persistent m) = stateQuality m
             else if s = StateFlashOn \<or> s = StateFlashOff
             then idle_output m \<and> flash_session m \<and> stateQuality m = StateQualityTracked
             else pulseInProgress m \<and> TransitionInProgress (persistent m)
                  \<and> (case pending m of None \<Rightarrow> False | Some p \<Rightarrow> pulse_ok m p)))
   \<and> validArmState (armState m) \<and> limits m = DefaultMechanicalLimits"

definition journal_ok :: "Machine \<Rightarrow> bool" where
  "journal_ok m \<longleftrightarrow>
     distinct (journalOrder m) \<and> set (journalOrder m) = dom (journal m)
   \<and> length (journalOrder m) \<le> commandJournalCapacity \<and> [] \<notin> dom (journal m)
   \<and> (\<forall>k r. journal m k = Some r \<longrightarrow> resCommandID r = k)"

definition laser_inv :: "Machine \<Rightarrow> bool" where
  "laser_inv m \<longleftrightarrow> mode_ok m \<and> journal_ok m"

lemmas mode_defs = mode_ok_def idle_output_def flash_session_def no_flash_def pulse_ok_def
  known_quality_def stableState_def

text \<open>
  \<open>remember\<close> writes the journal only.
\<close>

lemma remember_frame [simp]:
  "armState (remember r m) = armState m" "logicalState (remember r m) = logicalState m"
  "stateQuality (remember r m) = stateQuality m" "resyncRequired (remember r m) = resyncRequired m"
  "pulseInProgress (remember r m) = pulseInProgress m" "pending (remember r m) = pending m"
  "relayPulseCount (remember r m) = relayPulseCount m" "limits (remember r m) = limits m"
  "activeFlash (remember r m) = activeFlash m" "persistent (remember r m) = persistent m"
  by (simp_all add: remember_def Let_def)

lemma remember_journal_frame:
  "journal (remember r m) =
     (if resCommandID r = [] then journal m
      else (if resCommandID r \<notin> dom (journal m) \<and> length (journalOrder m) = commandJournalCapacity
            then (journal m)(hd (journalOrder m) := None) else journal m)(resCommandID r \<mapsto> r))"
  by (auto simp: remember_def Let_def)

lemma remember_order_frame:
  "journalOrder (remember r m) =
     (if resCommandID r = [] \<or> resCommandID r \<in> dom (journal m) then journalOrder m
      else (if length (journalOrder m) = commandJournalCapacity then tl (journalOrder m)
            else journalOrder m) @ [resCommandID r])"
  by (auto simp: remember_def Let_def)

lemma pulse_ok_cong:
  assumes "logicalState m = logicalState m'" "activeFlash m = activeFlash m'"
    and "persistent m = persistent m'"
  shows "pulse_ok m = pulse_ok m'"
proof -
  have "no_flash m = no_flash m'" "flash_session m = flash_session m'"
    using assms by (simp_all add: no_flash_def flash_session_def)
  with assms(1) show ?thesis by (simp only: fun_eq_iff pulse_ok_def) simp
qed

lemma mode_ok_cong:
  assumes "armState m = armState m'" "logicalState m = logicalState m'"
    and "stateQuality m = stateQuality m'" "resyncRequired m = resyncRequired m'"
    and "pulseInProgress m = pulseInProgress m'" "pending m = pending m'"
    and "activeFlash m = activeFlash m'" "persistent m = persistent m'" "limits m = limits m'"
  shows "mode_ok m = mode_ok m'"
proof -
  have "pulse_ok m = pulse_ok m'" using assms by (intro pulse_ok_cong)
  with assms show ?thesis
    unfolding mode_ok_def idle_output_def no_flash_def flash_session_def by (simp only:)
qed

lemma mode_ok_remember [simp]: "mode_ok (remember r m) = mode_ok m"
  by (rule mode_ok_cong) simp_all

text \<open>The journal keeps its invariant; the oldest entry makes room when it is full.\<close>

lemma journal_ok_remember:
  assumes "journal_ok m"
  shows "journal_ok (remember r m)"
proof (cases "resCommandID r = [] \<or> resCommandID r \<in> dom (journal m)")
  case True
  with assms show ?thesis
    by (auto simp: journal_ok_def remember_journal_frame remember_order_frame insert_absorb)
next
  case new: False
  show ?thesis
  proof (cases "length (journalOrder m) = commandJournalCapacity")
    case False
    with new assms show ?thesis
      by (auto simp: journal_ok_def remember_journal_frame remember_order_frame)
  next
    case True
    then obtain k ks where ks: "journalOrder m = k # ks"
      by (cases "journalOrder m") (auto simp: commandJournalCapacity_def)
    with assms have "k \<notin> set ks" "dom (journal m) = insert k (set ks)"
      by (auto simp: journal_ok_def)
    then have "dom ((journal m)(k := None)) = set ks" by auto
    with new True ks assms show ?thesis
      by (auto simp: journal_ok_def remember_journal_frame remember_order_frame split: if_splits)
  qed
qed

lemma journal_remember:
  "resCommandID r \<noteq> [] \<Longrightarrow> journal (remember r m) (resCommandID r) = Some r"
  by (simp add: remember_journal_frame)

lemma journal_remember_other:
  "k \<noteq> resCommandID r \<Longrightarrow> journal (remember r m) k = Some r' \<Longrightarrow> journal m k = Some r'"
  by (auto simp: remember_journal_frame split: if_splits)

lemma mode_ok_init: "mode_ok NewColdPowerUpMachine"
  by (simp add: mode_defs NewColdPowerUpMachine_def stable_off_def)

lemma journal_ok_init: "journal_ok NewColdPowerUpMachine"
  by (simp add: journal_ok_def NewColdPowerUpMachine_def)

lemma mode_ok_RestoreMachine: "mode_ok (RestoreMachine p reset q)"
  by (cases "pStateQuality p")
    (auto simp: RestoreMachine_def Let_def mode_defs NewColdPowerUpMachine_def stable_off_def
      enterUnknown_def)

lemma journal_ok_RestoreMachine: "journal_ok (RestoreMachine p reset q)"
  by (simp add: RestoreMachine_def Let_def journal_ok_def NewColdPowerUpMachine_def enterUnknown_def)

section \<open>Every operation keeps the invariant\<close>

lemma journal_ok_cong:
  "journal m = journal m' \<Longrightarrow> journalOrder m = journalOrder m' \<Longrightarrow> journal_ok m \<Longrightarrow> journal_ok m'"
  by (simp add: journal_ok_def)

lemma dispatch_cases [case_names arm disarm on off start stop safe read resync other]:
  assumes "cmdType c = CommandArm \<Longrightarrow> P (arm c m)"
    and "cmdType c = CommandDisarm \<Longrightarrow> P (disarm c True m)"
    and "cmdType c = CommandSetOn \<Longrightarrow> P (setOn c m)"
    and "cmdType c = CommandSetOff \<Longrightarrow> P (setOff c m)"
    and "cmdType c = CommandFlashStart \<Longrightarrow> P (flashStart c m)"
    and "cmdType c = CommandFlashStop \<Longrightarrow> P (flashStop c m)"
    and "cmdType c = CommandSafeOff \<Longrightarrow> P (disarm c True m)"
    and "cmdType c = CommandStateRead \<Longrightarrow> P (complete c [] m)"
    and "cmdType c = CommandStateResync \<Longrightarrow> P (resync c m)"
    and "P (reject c ErrorInvalid (Text ''unsupported StageLaser command'') m)"
  shows "P (dispatch_cmd c m)"
  using assms by (simp add: dispatch_cmd_def Let_def)

text \<open>Every result is journalled under the command's identity.\<close>

lemma step_results:
  "\<exists>m1. fst (complete c t m) = remember (snd (complete c t m)) m1"
  "\<exists>m1. fst (reject c e x m) = remember (snd (reject c e x m)) m1"
  "\<exists>m1. fst (fail_cmd c e x m) = remember (snd (fail_cmd c e x m)) m1"
  "\<exists>m1. fst (acceptPulse c s b m) = remember (snd (acceptPulse c s b m)) m1"
  by (auto simp: complete_def reject_def fail_cmd_def acceptPulse_def Let_def)

lemma journal_ok_parts [simp]:
  assumes "journal_ok m"
  shows "journal_ok (fst (complete c t m))" "journal_ok (fst (reject c e x m))"
    "journal_ok (fst (fail_cmd c e x m))" "journal_ok (fst (acceptPulse c s b m))"
  using assms
  by (auto simp: complete_def reject_def fail_cmd_def acceptPulse_def beginPulse_def Let_def
      intro!: journal_ok_remember elim!: journal_ok_cong [rotated 2])

lemma journal_ok_updates [simp]:
  "journal_ok (m\<lparr>armState := a\<rparr>) = journal_ok m"
  "journal_ok (enterUnknown m) = journal_ok m"
  "journal_ok (flash_settle_off m) = journal_ok m"
  "journal_ok (persistStable s m) = journal_ok m"
  "journal_ok (m\<lparr>activeFlash := f, persistent := p\<rparr>) = journal_ok m"
  "journal_ok (m\<lparr>logicalState := l, stateQuality := q, resyncRequired := b\<rparr>) = journal_ok m"
  "journal_ok (m\<lparr>stateQuality := q\<rparr>) = journal_ok m"
  "journal_ok (beginPulse i t s z m) = journal_ok m"
  "journal_ok (commit_pulse pp m) = journal_ok m"
  by (simp_all add: journal_ok_def enterUnknown_def flash_settle_off_def persistStable_def
      beginPulse_def commit_pulse_def Let_def)

lemma journal_ok_dispatch: "journal_ok m \<Longrightarrow> journal_ok (fst (dispatch_cmd c m))"
  by (rule dispatch_cases)
    (simp_all add: arm_def disarm_def setOn_def setOff_def flashStart_def flashStop_def resync_def
      Let_def split: LogicalState.split option.split)

lemma mode_parts [simp]:
  "mode_ok (fst (complete c t m)) = mode_ok m"
  "mode_ok (fst (reject c e x m)) = mode_ok m"
  "mode_ok (fst (fail_cmd c e x m)) = mode_ok m"
  by (rule mode_ok_cong, simp_all add: complete_def reject_def fail_cmd_def Let_def)+

text \<open>A pulse may start from a stable state of the tracked output, or from a running flash.\<close>

lemma beginPulse_sel [simp]:
  "armState (beginPulse i t s f m) = armState m" "stateQuality (beginPulse i t s f m) = stateQuality m"
  "resyncRequired (beginPulse i t s f m) = resyncRequired m" "limits (beginPulse i t s f m) = limits m"
  "activeFlash (beginPulse i t s f m) = activeFlash m" "pulseInProgress (beginPulse i t s f m)"
  "logicalState (beginPulse i t s f m) =
     (if s = StateOn \<or> s = StateFlashOn then StateTurningOn else StateTurningOff)"
  "persistent (beginPulse i t s f m) = (persistent m)\<lparr>TransitionInProgress := True\<rparr>"
  "pending (beginPulse i t s f m) =
     Some \<lparr>ppCommandID = i, ppCommandType = t, ppTarget = s, ppFinalizeFlash = f\<rparr>"
  "relayPulseCount (beginPulse i t s f m) = relayPulseCount m"
  by (simp_all add: beginPulse_def)

lemma acceptPulse_mode:
  "mode_ok (fst (acceptPulse c s f m)) = mode_ok (beginPulse (cmdID c) (cmdType c) s f m)"
  by (rule mode_ok_cong) (simp_all add: acceptPulse_def Let_def)

lemma mode_beginPulse:
  assumes "mode_ok m" "\<not> pulseInProgress m" "logicalState m \<noteq> StateUnknown"
    and "pulse_ok (beginPulse i t s f m)
           \<lparr>ppCommandID = i, ppCommandType = t, ppTarget = s, ppFinalizeFlash = f\<rparr>"
  shows "mode_ok (beginPulse i t s f m)"
  using assms(1-3) assms(4)
  by (cases "logicalState m") (auto simp: mode_ok_def stableState_def)

lemma mode_at:
  "mode_ok m \<Longrightarrow> \<not> pulseInProgress m \<Longrightarrow> logicalState m \<noteq> StateTurningOn"
  "mode_ok m \<Longrightarrow> \<not> pulseInProgress m \<Longrightarrow> logicalState m \<noteq> StateTurningOff"
  "mode_ok m \<Longrightarrow> logicalState m \<noteq> StateError"
  "mode_ok m \<Longrightarrow> logicalState m \<noteq> StateOther x"
  "mode_ok m \<Longrightarrow> logicalState m = StateOff \<or> logicalState m = StateOn \<Longrightarrow> no_flash m"
  "mode_ok m \<Longrightarrow> logicalState m = StateFlashOn \<or> logicalState m = StateFlashOff \<Longrightarrow> flash_session m"
  "mode_ok m \<Longrightarrow> logicalState m = StateOff \<or> logicalState m = StateOn
     \<or> logicalState m = StateFlashOn \<or> logicalState m = StateFlashOff \<Longrightarrow> idle_output m"
  by (auto simp: mode_ok_def stableState_def split: if_splits)

lemma mode_accept_off:
  assumes "mode_ok m" "\<not> pulseInProgress m"
    and "if f then logicalState m = StateFlashOn
         else logicalState m = StateOn \<and> cmdType c \<noteq> [] \<and> cmdType c \<noteq> CommandFlashStart"
  shows "mode_ok (fst (acceptPulse c StateOff f m))"
  unfolding acceptPulse_mode
proof (rule mode_beginPulse [OF assms(1,2)])
  show "logicalState m \<noteq> StateUnknown" using assms(3) by (auto split: if_splits)
  show "pulse_ok (beginPulse (cmdID c) (cmdType c) StateOff f m)
          \<lparr>ppCommandID = cmdID c, ppCommandType = cmdType c, ppTarget = StateOff, ppFinalizeFlash = f\<rparr>"
    using assms mode_at(5,6) [OF assms(1)]
    by (auto simp: pulse_ok_def flash_session_def no_flash_def split: if_splits)
qed

lemma mode_accept_on:
  assumes "mode_ok m" "logicalState m = StateOff" "cmdType c \<noteq> []" "cmdType c \<noteq> CommandFlashStart"
  shows "mode_ok (fst (acceptPulse c StateOn False m))"
proof -
  have "\<not> pulseInProgress m" using mode_at(7) [OF assms(1)] assms(2) by (simp add: idle_output_def)
  then show ?thesis unfolding acceptPulse_mode using assms mode_at(5) [OF assms(1)]
    by (intro mode_beginPulse) (auto simp: pulse_ok_def no_flash_def)
qed

lemma mode_flash_settle:
  "mode_ok m \<Longrightarrow> logicalState m = StateFlashOff \<Longrightarrow> mode_ok (flash_settle_off m)"
  by (auto simp: mode_defs flash_settle_off_def persistStable_def)

lemma pulse_ok_arm [simp]: "pulse_ok (m\<lparr>armState := a\<rparr>) = pulse_ok m"
  by (rule pulse_ok_cong) simp_all

lemma mode_disarm_state: "mode_ok m \<Longrightarrow> mode_ok (m\<lparr>armState := ArmDisarmed\<rparr>)"
  by (cases "logicalState m")
    (simp_all add: mode_ok_def idle_output_def no_flash_def flash_session_def stableState_def
      split: option.splits)

lemma mode_arm_state:
  "mode_ok m \<Longrightarrow> logicalState m = StateOff \<Longrightarrow> mode_ok (m\<lparr>armState := ArmArmed\<rparr>)"
  by (simp add: mode_ok_def idle_output_def no_flash_def flash_session_def stableState_def)

lemma mode_enterUnknown: "mode_ok m \<Longrightarrow> mode_ok (enterUnknown m)"
  by (simp add: mode_ok_def idle_output_def no_flash_def enterUnknown_def)

lemma mode_flash_start:
  assumes "mode_ok m" "logicalState m = StateOff" "activeFlash m = None"
  shows "mode_ok (fst (acceptPulse c StateFlashOn False
           (m\<lparr>activeFlash := Some fo, persistent := (persistent m)\<lparr>FlashSessionInProgress := True\<rparr>\<rparr>)))"
  unfolding acceptPulse_mode using assms
  by (simp add: mode_ok_def idle_output_def stableState_def pulse_ok_def flash_session_def)

lemma mode_resync:
  assumes "mode_ok m" "\<not> busy m" "activeFlash m = None" "ValidateStateResyncPayload p = None"
  shows "mode_ok (persistStable (rsState p) (m\<lparr>logicalState := rsState p,
           stateQuality := StateQualityTracked, resyncRequired := False\<rparr>))"
  using assms
  by (cases "logicalState m"; cases "rsState p")
    (auto simp: mode_defs persistStable_def busy_def ValidateStateResyncPayload_def)

lemma mode_ok_dispatch:
  assumes "mode_ok m"
  shows "mode_ok (fst (dispatch_cmd c m))"
proof (rule dispatch_cases)
  show "mode_ok (fst (arm c m))"
    using assms by (simp add: arm_def mode_arm_state)
next
  have d: "mode_ok (m\<lparr>armState := ArmDisarmed\<rparr>)" using assms by (rule mode_disarm_state)
  assume c: "cmdType c = CommandDisarm"
  show "mode_ok (fst (disarm c True m))"
    using d mode_at [OF d] c
    by (auto simp: disarm_def Let_def laser_command_defs no_flash_def flash_session_def
        intro!: mode_enterUnknown mode_flash_settle mode_accept_off split: LogicalState.split)
next
  have d: "mode_ok (m\<lparr>armState := ArmDisarmed\<rparr>)" using assms by (rule mode_disarm_state)
  assume c: "cmdType c = CommandSafeOff"
  show "mode_ok (fst (disarm c True m))"
    using d mode_at [OF d] c
    by (auto simp: disarm_def Let_def laser_command_defs no_flash_def flash_session_def
        intro!: mode_enterUnknown mode_flash_settle mode_accept_off split: LogicalState.split)
next
  assume "cmdType c = CommandSetOn"
  then show "mode_ok (fst (setOn c m))" using assms
    by (auto simp: setOn_def laser_command_defs intro!: mode_accept_on split: LogicalState.split)
next
  assume c: "cmdType c = CommandSetOff"
  show "mode_ok (fst (setOff c m))" using assms mode_at [OF assms] c
    by (auto simp: setOff_def flashStop_def laser_command_defs
        intro!: mode_flash_settle mode_accept_off split: LogicalState.split)
next
  assume "cmdType c = CommandFlashStart"
  show "mode_ok (fst (flashStart c m))" using assms
    by (auto simp: flashStart_def intro!: mode_flash_start split: option.split)
next
  assume c: "cmdType c = CommandFlashStop"
  show "mode_ok (fst (flashStop c m))" using assms mode_at [OF assms] c
    by (auto simp: flashStop_def laser_command_defs
        intro!: mode_flash_settle mode_accept_off split: LogicalState.split)
next
  show "mode_ok (fst (resync c m))" using assms
    by (auto simp: resync_def intro!: mode_resync split: option.split)
qed (use assms in simp_all)

lemma laser_inv_Execute: "laser_inv m \<Longrightarrow> laser_inv (fst (Execute_laser c m))"
  by (auto simp: laser_inv_def Execute_laser_def Let_def intro: mode_ok_dispatch journal_ok_dispatch
      split: option.split)

lemma mode_pending:
  "mode_ok m \<Longrightarrow> pulseInProgress m \<Longrightarrow> \<exists>p. pending m = Some p \<and> pulse_ok m p"
  by (auto simp: mode_ok_def idle_output_def split: LogicalState.splits if_splits option.splits)

lemma mode_commit:
  assumes "mode_ok m" "pending m = Some p" "pulse_ok m p"
  shows "mode_ok (commit_pulse p m)"
  using assms(3) mode_ok_def [THEN iffD1, OF assms(1)]
  by (cases "ppTarget p")
    (auto simp: commit_pulse_def Let_def persistStable_def mode_ok_def pulse_ok_def idle_output_def
      flash_session_def no_flash_def stableState_def split: if_splits)

lemma laser_inv_CompletePulse: "laser_inv m \<Longrightarrow> laser_inv (fst (CompletePulse m))"
proof -
  assume inv: "laser_inv m"
  show ?thesis
  proof (cases "pulseInProgress m")
    case True
    with inv obtain p where p: "pending m = Some p" "pulse_ok m p"
      using mode_pending by (auto simp: laser_inv_def)
    from inv p have c: "mode_ok (commit_pulse p m)" "journal_ok (commit_pulse p m)"
      by (simp_all add: laser_inv_def mode_commit)
    have "mode_ok (fst (CompletePulse m))"
      using c(1) True p
      by (auto simp: CompletePulse_def Let_def elim!: mode_ok_cong [THEN iffD1, rotated -1])
    moreover have "journal_ok (fst (CompletePulse m))"
      using c(2) True p
      by (auto simp: CompletePulse_def Let_def
          intro!: journal_ok_cong [OF _ _ journal_ok_remember [OF journal_ok_cong [OF _ _ c(2)]]])
    ultimately show ?thesis by (simp add: laser_inv_def)
  qed (use inv in \<open>simp add: CompletePulse_def\<close>)
qed

lemma laser_inv_AdvanceFlashPhase: "laser_inv m \<Longrightarrow> laser_inv (fst (AdvanceFlashPhase m))"
  using mode_at(6) [of m]
  by (auto simp: laser_inv_def AdvanceFlashPhase_def intro!: mode_beginPulse
      split: LogicalState.splits) (auto simp: pulse_ok_def flash_session_def)

lemma laser_inv_ExpireFlash: "laser_inv m \<Longrightarrow> laser_inv (fst (ExpireFlash m))"
proof -
  assume inv: "laser_inv m"
  have q: "logicalState m = StateFlashOff \<Longrightarrow> m\<lparr>stateQuality := StateQualityTracked\<rparr> = m"
    using inv by (auto simp: laser_inv_def mode_ok_def stableState_def)
  show ?thesis
    using inv q mode_at(6) [of m]
    by (auto simp: laser_inv_def ExpireFlash_def intro!: mode_beginPulse mode_flash_settle)
      (auto simp: pulse_ok_def flash_session_def)
qed

section \<open>Runs of the device\<close>

text \<open>Everything that can happen to a device: a command, the timers of the firmware, a restart.\<close>

datatype laser_event =
    Command LaserCommand
  | PulseReleased
  | FlashPhase
  | FlashExpired
  | Restart ResetClass bool

fun laser_apply :: "Machine \<Rightarrow> laser_event \<Rightarrow> Machine" where
  "laser_apply m (Command c) = fst (Execute_laser c m)"
| "laser_apply m PulseReleased = fst (CompletePulse m)"
| "laser_apply m FlashPhase = fst (AdvanceFlashPhase m)"
| "laser_apply m FlashExpired = fst (ExpireFlash m)"
| "laser_apply m (Restart reset q) = RestoreMachine (persistent m) reset q"

lemma laser_inv_init: "laser_inv NewColdPowerUpMachine"
  by (simp add: laser_inv_def mode_ok_init journal_ok_init)

lemma laser_inv_Restart: "laser_inv (RestoreMachine p reset q)"
  by (simp add: laser_inv_def mode_ok_RestoreMachine journal_ok_RestoreMachine)

interpretation laser: invariant_machine laser_apply laser_inv
proof
  fix m e
  assume "laser_inv m"
  then show "laser_inv (laser_apply m e)"
    by (cases e) (auto intro: laser_inv_Execute laser_inv_CompletePulse laser_inv_AdvanceFlashPhase
        laser_inv_ExpireFlash laser_inv_Restart)
qed

text \<open>The journal keeps, per command identity, the rest of the result.\<close>

definition result_body :: "LaserResult \<Rightarrow> ResultStatus \<times> ErrorCode \<times> laser_text" where
  "result_body r = (resStatus r, resErrorCode r, resMessage r)"

definition journal_body :: "Machine \<Rightarrow> string \<Rightarrow> (ResultStatus \<times> ErrorCode \<times> laser_text) option" where
  "journal_body m k = map_option result_body (journal m k)"

definition journal_put ::
  "Machine \<Rightarrow> string \<Rightarrow> ResultStatus \<times> ErrorCode \<times> laser_text \<Rightarrow> Machine" where
  "journal_put m k b =
     (case b of (st, code, msg) \<Rightarrow>
        remember \<lparr>resCommandID = k, resStatus = st, resErrorCode = code, resMessage = msg\<rparr> m)"

interpretation laser_journal: command_journal journal_body journal_put journal_ok
  by unfold_locales
    (auto simp: journal_body_def journal_put_def result_body_def journal_ok_remember
      remember_journal_frame split: if_splits)

lemma remember_as_put:
  "remember r m = journal_put m (resCommandID r) (result_body r)"
  by (cases r) (simp add: journal_put_def result_body_def)

text \<open>
  A command that is already in the journal is answered from it, and nothing else happens: no
  pulse starts, no state changes.
\<close>

lemma Execute_replay:
  "cmdID (trim_cmd c) \<noteq> [] \<Longrightarrow> CommandCapability (cmdType (trim_cmd c)) \<noteq> []
     \<Longrightarrow> journal m (cmdID (trim_cmd c)) = Some r \<Longrightarrow> Execute_laser c m = (m, r)"
  by (simp add: Execute_laser_def Let_def)

lemma dispatch_journals:
  "cmdID c \<noteq> [] \<Longrightarrow> journal (fst (dispatch_cmd c m)) (cmdID c) = Some (snd (dispatch_cmd c m))"
  by (rule dispatch_cases)
    (simp_all add: arm_def disarm_def setOn_def setOff_def flashStart_def flashStop_def resync_def
      complete_def reject_def fail_cmd_def acceptPulse_def remember_journal_frame Let_def
      split: LogicalState.split option.split)

lemma Execute_journals:
  "cmdID (trim_cmd c) \<noteq> [] \<Longrightarrow> CommandCapability (cmdType (trim_cmd c)) \<noteq> []
     \<Longrightarrow> journal (fst (Execute_laser c m)) (cmdID (trim_cmd c)) = Some (snd (Execute_laser c m))"
  by (auto simp: Execute_laser_def Let_def dispatch_journals split: option.split)

section \<open>The physical laser\<close>

text \<open>
  The physical laser is on or off, and a released pulse toggles it. A restart of the controller
  alone leaves it as it is, unless it interrupts a pulse: then either is possible. A power-on or
  brownout whose power is qualified as shared restarts the laser too, which comes up off; for any
  other restart the laser's state is unknown. A resync is attended: the operator states what the
  laser physically does.
\<close>

definition attested :: "LaserCommand \<Rightarrow> bool \<Rightarrow> bool" where
  "attested c on \<longleftrightarrow>
     (cmdType (trim_cmd c) = CommandStateResync \<longrightarrow>
       (case cmdResync c of None \<Rightarrow> True
        | Some p \<Rightarrow> (rsState p = StateOn \<longrightarrow> on) \<and> (rsState p = StateOff \<longrightarrow> \<not> on)))"

inductive laser_step :: "Machine \<times> bool \<Rightarrow> Machine \<times> bool \<Rightarrow> bool" where
  command: "attested c on \<Longrightarrow> laser_step (m, on) (fst (Execute_laser c m), on)"
| released: "pulseInProgress m \<Longrightarrow> laser_step (m, on) (fst (CompletePulse m), \<not> on)"
| phase: "laser_step (m, on) (fst (AdvanceFlashPhase m), on)"
| expired: "laser_step (m, on) (fst (ExpireFlash m), on)"
| restart: "reset = ResetSoftware \<or> reset = ResetWatchdog \<Longrightarrow> \<not> pulseInProgress m \<Longrightarrow>
    laser_step (m, on) (RestoreMachine (persistent m) reset q, on)"
| restart_pulse: "reset = ResetSoftware \<or> reset = ResetWatchdog \<Longrightarrow> pulseInProgress m \<Longrightarrow>
    laser_step (m, on) (RestoreMachine (persistent m) reset q, on')"
| power_shared: "reset = ResetPowerOn \<or> reset = ResetBrownout \<Longrightarrow>
    laser_step (m, on) (RestoreMachine (persistent m) reset True, False)"
| power_unknown: "reset = ResetPowerOn \<or> reset = ResetBrownout \<Longrightarrow>
    laser_step (m, on) (RestoreMachine (persistent m) reset False, on')"
| reset_unknown: "laser_step (m, on) (RestoreMachine (persistent m) ResetUnknown q, on')"

inductive laser_reachable :: "Machine \<times> bool \<Rightarrow> bool" where
  cold: "laser_reachable (NewColdPowerUpMachine, False)"
| step: "laser_reachable w \<Longrightarrow> laser_step w w' \<Longrightarrow> laser_reachable w'"

inductive_cases laser_stepE: "laser_step (m, on) w'"

text \<open>The tracked state tells the truth, where it claims to know.\<close>

definition tracks :: "Machine \<Rightarrow> bool \<Rightarrow> bool" where
  "tracks m on \<longleftrightarrow>
     (case logicalState m of
        StateOff \<Rightarrow> \<not> on | StateFlashOff \<Rightarrow> \<not> on | StateTurningOn \<Rightarrow> \<not> on
      | StateOn \<Rightarrow> on | StateFlashOn \<Rightarrow> on | StateTurningOff \<Rightarrow> on
      | _ \<Rightarrow> True)"

lemma tracks_cong: "logicalState m = logicalState m' \<Longrightarrow> tracks m on = tracks m' on"
  by (simp add: tracks_def)

lemma logicalState_parts [simp]:
  "logicalState (fst (complete c t m)) = logicalState m"
  "logicalState (fst (reject c e x m)) = logicalState m"
  "logicalState (fst (fail_cmd c e x m)) = logicalState m"
  "logicalState (fst (acceptPulse c s f m)) =
     (if s = StateOn \<or> s = StateFlashOn then StateTurningOn else StateTurningOff)"
  "logicalState (enterUnknown m) = StateUnknown"
  "logicalState (flash_settle_off m) = StateOff"
  "logicalState (persistStable s m) = logicalState m"
  by (simp_all add: complete_def reject_def fail_cmd_def acceptPulse_def enterUnknown_def
      flash_settle_off_def persistStable_def Let_def)

lemma tracks_dispatch:
  assumes "tracks m on"
    and "cmdType c = CommandStateResync \<Longrightarrow> (\<forall>p. cmdResync c = Some p \<longrightarrow>
           (rsState p = StateOn \<longrightarrow> on) \<and> (rsState p = StateOff \<longrightarrow> \<not> on))"
  shows "tracks (fst (dispatch_cmd c m)) on"
proof (rule dispatch_cases)
  assume "cmdType c = CommandStateResync"
  then show "tracks (fst (resync c m)) on"
    using assms
    by (cases "cmdResync c"; auto simp: resync_def ValidateStateResyncPayload_def tracks_def
        split: LogicalState.split LogicalState.split_asm)
next
  show "tracks (fst (arm c m)) on" using assms(1) by (auto simp: arm_def tracks_def)
next
  show "tracks (fst (disarm c True m)) on" using assms(1)
    by (cases "logicalState m") (auto simp: disarm_def Let_def tracks_def)
next
  show "tracks (fst (disarm c True m)) on" using assms(1)
    by (cases "logicalState m") (auto simp: disarm_def Let_def tracks_def)
next
  show "tracks (fst (setOn c m)) on" using assms(1)
    by (cases "logicalState m") (auto simp: setOn_def Let_def tracks_def)
next
  show "tracks (fst (setOff c m)) on" using assms(1)
    by (cases "logicalState m") (auto simp: setOff_def flashStop_def Let_def tracks_def)
next
  show "tracks (fst (flashStart c m)) on" using assms(1)
    by (auto simp: flashStart_def tracks_def split: option.split)
next
  show "tracks (fst (flashStop c m)) on" using assms(1)
    by (cases "logicalState m") (auto simp: flashStop_def Let_def tracks_def)
qed (use assms(1) in \<open>simp_all add: tracks_def\<close>)

lemma tracks_Execute:
  "attested c on \<Longrightarrow> tracks m on \<Longrightarrow> tracks (fst (Execute_laser c m)) on"
  by (auto simp: Execute_laser_def Let_def attested_def trim_cmd_def split: option.split_asm option.split
      intro!: tracks_dispatch)

lemma logicalState_commit:
  "pulse_ok m p \<Longrightarrow> logicalState (commit_pulse p m) = ppTarget p"
  by (cases "ppTarget p")
    (auto simp: commit_pulse_def Let_def persistStable_def pulse_ok_def split: if_splits)

lemma logicalState_CompletePulse:
  "pulseInProgress m \<Longrightarrow> pending m = Some p \<Longrightarrow> pulse_ok m p \<Longrightarrow>
     logicalState (fst (CompletePulse m)) = ppTarget p"
  by (simp add: CompletePulse_def Let_def logicalState_commit)

lemma tracks_CompletePulse:
  assumes "mode_ok m" "pulseInProgress m" "tracks m on"
  shows "tracks (fst (CompletePulse m)) (\<not> on)"
proof -
  obtain p where p: "pending m = Some p" "pulse_ok m p"
    using mode_pending [OF assms(1,2)] by blast
  then have "logicalState (fst (CompletePulse m)) = ppTarget p"
    using assms(2) by (intro logicalState_CompletePulse)
  with p(2) assms(3) show ?thesis
    by (cases "ppTarget p") (auto simp: tracks_def pulse_ok_def split: if_splits)
qed

lemma tracks_phase: "tracks m on \<Longrightarrow> tracks (fst (AdvanceFlashPhase m)) on"
  by (auto simp: AdvanceFlashPhase_def tracks_def split: LogicalState.split LogicalState.split_asm)

lemma tracks_expire: "tracks m on \<Longrightarrow> tracks (fst (ExpireFlash m)) on"
  by (auto simp: ExpireFlash_def tracks_def split: LogicalState.split LogicalState.split_asm)

text \<open>
  A restored record is stable only when the machine was idle in that very state; a pulse or a
  flash in progress is restored as unknown.
\<close>

lemma tracks_restart:
  assumes "mode_ok m" "tracks m on" "\<not> pulseInProgress m"
  shows "tracks (RestoreMachine (persistent m) reset q) on \<or> (reset = ResetPowerOn \<or> reset = ResetBrownout) \<and> q"
  using assms
  by (cases "logicalState m")
    (auto simp: RestoreMachine_def Let_def tracks_def mode_ok_def stableState_def flash_session_def
      enterUnknown_def split: LogicalState.splits)

lemma restart_interrupted:
  "mode_ok m \<Longrightarrow> pulseInProgress m \<Longrightarrow> logicalState (RestoreMachine (persistent m) reset q) = StateUnknown"
  by (auto simp: RestoreMachine_def Let_def mode_ok_def idle_output_def
      split: LogicalState.splits if_splits)

lemma restart_unproven:
  "reset \<noteq> ResetSoftware \<Longrightarrow> reset \<noteq> ResetWatchdog \<Longrightarrow>
    logicalState (RestoreMachine p reset False) = StateUnknown"
  "logicalState (RestoreMachine p ResetUnknown q) = StateUnknown"
  by (simp_all add: RestoreMachine_def Let_def)

lemma restart_power:
  "reset = ResetPowerOn \<or> reset = ResetBrownout \<Longrightarrow> tracks (RestoreMachine p reset True) False"
  by (auto simp: RestoreMachine_def Let_def tracks_def)

lemma tracks_unknown: "logicalState m = StateUnknown \<Longrightarrow> tracks m on"
  by (simp add: tracks_def)

lemma laser_step_safe:
  assumes "laser_step w w'" "laser_inv (fst w)" "tracks (fst w) (snd w)"
  shows "laser_inv (fst w') \<and> tracks (fst w') (snd w')"
  using assms
proof (cases rule: laser_step.cases)
  case (command c on m)
  with assms(2,3) show ?thesis by (simp add: laser_inv_Execute tracks_Execute)
next
  case (released m on)
  with assms(2,3) show ?thesis
    by (simp add: laser_inv_CompletePulse tracks_CompletePulse laser_inv_def [of m])
next
  case (phase m on)
  with assms(2,3) show ?thesis by (simp add: laser_inv_AdvanceFlashPhase tracks_phase)
next
  case (expired m on)
  with assms(2,3) show ?thesis by (simp add: laser_inv_ExpireFlash tracks_expire)
next
  case (restart reset m on q)
  with assms(2,3) show ?thesis
    using tracks_restart [of m on reset q] by (auto simp: laser_inv_Restart laser_inv_def [of m])
next
  case (restart_pulse reset m on q on')
  with assms(2) show ?thesis
    by (simp add: laser_inv_Restart tracks_unknown restart_interrupted laser_inv_def [of m])
next
  case (power_shared reset m on)
  then show ?thesis by (simp add: laser_inv_Restart restart_power)
next
  case (power_unknown reset m on on')
  then show ?thesis by (auto simp: laser_inv_Restart intro!: tracks_unknown restart_unproven)
next
  case (reset_unknown m on q on')
  then show ?thesis by (simp add: laser_inv_Restart tracks_unknown restart_unproven)
qed

lemma laser_reachable_safe:
  "laser_reachable w \<Longrightarrow> laser_inv (fst w) \<and> tracks (fst w) (snd w)"
proof (induction rule: laser_reachable.induct)
  case cold
  show ?case by (simp add: laser_inv_init) (simp add: tracks_def NewColdPowerUpMachine_def)
next
  case (step w w')
  then show ?case by (blast dest: laser_step_safe)
qed

section \<open>Properties of the device\<close>

lemma default_limits_ok: "ValidateLimits DefaultMechanicalLimits = None"
  by (simp add: ValidateLimits_def DefaultMechanicalLimits_def finitePositive_def f64_tenth_def)

lemma mode_observation:
  "mode_ok m \<Longrightarrow> ValidateObservation (Observe_laser m) = None"
  by (cases "logicalState m"; cases "armState m"; cases "stateQuality m")
    (auto simp: ValidateObservation_def Observe_laser_def mode_ok_def default_limits_ok
      idle_output_def stableState_def known_quality_def)

text \<open>A run of commands and timers, for the witnesses.\<close>

definition demo_cmd :: "string \<Rightarrow> string \<Rightarrow> LaserCommand" where
  "demo_cmd i t = \<lparr>cmdID = i, cmdType = t, cmdFlash = None, cmdResync = None\<rparr>"

definition demo_armed :: Machine where
  "demo_armed = fst (Execute_laser (demo_cmd ''c1'' CommandArm) NewColdPowerUpMachine)"

definition demo_pulsing :: Machine where
  "demo_pulsing = fst (Execute_laser (demo_cmd ''c2'' CommandSetOn) demo_armed)"

definition demo_on :: Machine where
  "demo_on = fst (CompletePulse demo_pulsing)"

lemma demo_cmd_sel [simp]:
  "cmdID (demo_cmd i t) = i" "cmdType (demo_cmd i t) = t" "cmdResync (demo_cmd i t) = None"
  "cmdFlash (demo_cmd i t) = None"
  by (simp_all add: demo_cmd_def)

lemmas laser_eval =
  Execute_laser_def dispatch_cmd_def trim_cmd_def CommandCapability_def laser_command_defs
  laser_capability_defs trim_eval Let_def

lemma demo_reachable:
  "laser_reachable (demo_armed, False)" "laser_reachable (demo_pulsing, False)"
  "laser_reachable (demo_on, True)"
proof -
  have a: "attested (demo_cmd i t) on" for i t on
    by (simp add: attested_def)
  show 1: "laser_reachable (demo_armed, False)"
    unfolding demo_armed_def by (rule laser_reachable.step [OF laser_reachable.cold]) (rule laser_step.command [OF a])
  show 2: "laser_reachable (demo_pulsing, False)"
    unfolding demo_pulsing_def by (rule laser_reachable.step [OF 1]) (rule laser_step.command [OF a])
  have "pulseInProgress demo_pulsing" by code_simp
  then have "laser_step (demo_pulsing, False) (demo_on, \<not> False)"
    unfolding demo_on_def by (rule laser_step.released)
  with 2 show "laser_reachable (demo_on, True)"
    by (auto intro: laser_reachable.step)
qed

text \<open>
  C2. In every state the device can reach, by any commands, timers and restarts, a tracked OFF
  means that the physical laser is off, and a tracked ON means that it is on; a running flash
  knows which half of its period it is in.
\<close>

theorem laser_tracked_truth:
  assumes "laser_reachable (m, on)"
  shows "(logicalState m = StateOff \<or> logicalState m = StateFlashOff \<longrightarrow> \<not> on)
       \<and> (logicalState m = StateOn \<or> logicalState m = StateFlashOn \<longrightarrow> on)"
  using laser_reachable_safe [OF assms] by (auto simp: tracks_def)

theorem laser_tracked_truth_witness:
  "logicalState demo_on = StateOn \<and> laser_reachable (demo_on, True)"
proof -
  have "logicalState demo_on = StateOn" by code_simp
  then show ?thesis using laser_tracked_truth [OF demo_reachable(3)] demo_reachable(3) by simp
qed

text \<open>
  C32. Every observation that a reachable device reports passes the contract's own validator, its
  journal never exceeds its capacity, and every journalled result carries its command's identity.
\<close>

theorem laser_observation_valid:
  assumes "laser_reachable (m, on)"
  shows "ValidateObservation (Observe_laser m) = None
       \<and> length (journalOrder m) \<le> commandJournalCapacity
       \<and> (\<forall>k r. journal m k = Some r \<longrightarrow> resCommandID r = k)"
  using laser_reachable_safe [OF assms] by (auto simp: laser_inv_def mode_observation journal_ok_def)

theorem laser_observation_valid_witness:
  "ValidateObservation (Observe_laser demo_on) = None \<and> length (journalOrder demo_on) = 2"
proof -
  have "length (journalOrder demo_on) = 2" by code_simp
  then show ?thesis using laser_observation_valid [OF demo_reachable(3)] by blast
qed

lemma pending_parts [simp]:
  "pending (fst (complete c t m)) = pending m" "pending (fst (reject c e x m)) = pending m"
  "pending (fst (fail_cmd c e x m)) = pending m"
  "pending (fst (acceptPulse c s f m)) =
     Some \<lparr>ppCommandID = cmdID c, ppCommandType = cmdType c, ppTarget = s, ppFinalizeFlash = f\<rparr>"
  "pending (enterUnknown m) = None" "pending (flash_settle_off m) = pending m"
  "pending (persistStable s m) = pending m"
  by (simp_all add: complete_def reject_def fail_cmd_def acceptPulse_def enterUnknown_def
      flash_settle_off_def persistStable_def Let_def)

lemma dispatch_lights:
  assumes "pending m = None" "pending (fst (dispatch_cmd c m)) = Some p"
    and "ppTarget p = StateOn \<or> ppTarget p = StateFlashOn"
  shows "armState m = ArmArmed \<and> logicalState m = StateOff
       \<and> (cmdType c = CommandSetOn \<or> cmdType c = CommandFlashStart)"
proof -
  let ?goal = "armState m = ArmArmed \<and> logicalState m = StateOff
       \<and> (cmdType c = CommandSetOn \<or> cmdType c = CommandFlashStart)"
  have "pending (fst (dispatch_cmd c m)) = Some p \<longrightarrow> ?goal"
  proof (rule dispatch_cases)
    assume "cmdType c = CommandSetOn"
    then show "pending (fst (setOn c m)) = Some p \<longrightarrow> ?goal"
      using assms(1,3) by (auto simp: setOn_def split: LogicalState.split)
  next
    assume "cmdType c = CommandFlashStart"
    then show "pending (fst (flashStart c m)) = Some p \<longrightarrow> ?goal"
      using assms(1,3) by (auto simp: flashStart_def split: option.split)
  next
    show "pending (fst (setOff c m)) = Some p \<longrightarrow> ?goal"
      using assms(1,3) by (cases "logicalState m") (auto simp: setOff_def flashStop_def)
  next
    show "pending (fst (flashStop c m)) = Some p \<longrightarrow> ?goal"
      using assms(1,3) by (cases "logicalState m") (auto simp: flashStop_def)
  next
    show "pending (fst (disarm c True m)) = Some p \<longrightarrow> ?goal"
      using assms(1,3) by (cases "logicalState m") (auto simp: disarm_def Let_def)
  next
    show "pending (fst (disarm c True m)) = Some p \<longrightarrow> ?goal"
      using assms(1,3) by (cases "logicalState m") (auto simp: disarm_def Let_def)
  qed (use assms(1) in \<open>simp_all add: arm_def resync_def split: option.split\<close>)
  with assms(2) show ?thesis by blast
qed

text \<open>
  A command starts a pulse that lights the laser only on a device that is ARMED and tracked
  OFF, and only the commands SET_ON and FLASH_START do.
\<close>

theorem laser_light_needs_arm:
  assumes "pending m = None" "pending (fst (Execute_laser c m)) = Some p"
    and "ppTarget p = StateOn \<or> ppTarget p = StateFlashOn"
  shows "armState m = ArmArmed \<and> logicalState m = StateOff
       \<and> (trim_space (cmdType c) = CommandSetOn \<or> trim_space (cmdType c) = CommandFlashStart)"
proof -
  have "pending (fst (dispatch_cmd (trim_cmd c) m)) = Some p"
    using assms(1,2) by (auto simp: Execute_laser_def Let_def split: if_splits option.splits)
  from dispatch_lights [OF assms(1) this assms(3)] show ?thesis by (simp add: trim_cmd_def)
qed

theorem laser_light_needs_arm_witness:
  "\<exists>p. pending (fst (Execute_laser (demo_cmd '' c2'' ''LASER_SET_ON '') demo_armed)) = Some p
     \<and> armState demo_armed = ArmArmed"
proof -
  let ?p = "\<lparr>ppCommandID = ''c2'', ppCommandType = CommandSetOn, ppTarget = StateOn, ppFinalizeFlash = False\<rparr>"
  have 1: "pending demo_armed = None" by code_simp
  have 2: "pending (fst (Execute_laser (demo_cmd '' c2'' ''LASER_SET_ON '') demo_armed)) = Some ?p"
    by code_simp
  from laser_light_needs_arm [OF 1 2] 2 show ?thesis by simp
qed

text \<open>
  Delivering a command a second time, with nothing in between, returns the first result and
  changes nothing: no second pulse.
\<close>

theorem laser_duplicate_delivery:
  "Execute_laser c (fst (Execute_laser c m)) = (fst (Execute_laser c m), snd (Execute_laser c m))"
proof (cases "cmdID (trim_cmd c) = [] \<or> CommandCapability (cmdType (trim_cmd c)) = []")
  case True
  then show ?thesis by (auto simp: Execute_laser_def Let_def)
next
  case False
  then show ?thesis using Execute_replay Execute_journals by blast
qed

lemma disarm_while_pulsing:
  "pulseInProgress m \<Longrightarrow>
     disarm c True m = reject c ErrorBusy (Text ''StageLaser pulse is already in progress'')
       (m\<lparr>armState := ArmDisarmed\<rparr>)"
  by (simp add: disarm_def)

lemma dispatch_safe_off:
  "cmdType c = CommandDisarm \<or> cmdType c = CommandSafeOff \<Longrightarrow> dispatch_cmd c m = disarm c True m"
  by (auto simp: dispatch_cmd_def laser_command_defs)

lemma armState_CompletePulse [simp]: "armState (fst (CompletePulse m)) = armState m"
  by (auto simp: CompletePulse_def commit_pulse_def persistStable_def Let_def split: option.split)

lemma Execute_fresh:
  "cmdID (trim_cmd c) \<noteq> [] \<Longrightarrow> journal m (cmdID (trim_cmd c)) = None \<Longrightarrow>
   cmdType (trim_cmd c) = CommandDisarm \<or> cmdType (trim_cmd c) = CommandSafeOff \<Longrightarrow>
     Execute_laser c m = disarm (trim_cmd c) True m"
  by (auto simp: Execute_laser_def Let_def dispatch_safe_off)
    (auto simp: CommandCapability_def laser_command_defs laser_capability_defs trim_eval)

lemma disarm_settles:
  assumes "mode_ok m" "tracks m on" "\<not> pulseInProgress m" "logicalState m \<in> {StateOff, StateOn, StateFlashOn, StateFlashOff}"
    and "cmdType c = CommandDisarm \<or> cmdType c = CommandSafeOff"
  defines "m1 \<equiv> fst (disarm c True m)"
  defines "m2 \<equiv> if pulseInProgress m1 then fst (CompletePulse m1) else m1"
  shows "armState m1 = ArmDisarmed \<and> armState m2 = ArmDisarmed \<and> logicalState m2 = StateOff \<and> activeFlash m2 = None
    \<and> \<not> pulseInProgress m2 \<and> (pulseInProgress m1 \<longleftrightarrow> on)"
proof -
  consider "logicalState m = StateOff" | "logicalState m = StateOn"
    | "logicalState m = StateFlashOn" | "logicalState m = StateFlashOff" using assms(4) by auto
  then show ?thesis
    using assms(1-3,5) mode_at(5,6,7) [OF assms(1)] unfolding m2_def m1_def
    by cases
      (auto simp: disarm_def Let_def tracks_def mode_ok_def stableState_def complete_def
        acceptPulse_def flash_settle_off_def persistStable_def CompletePulse_def commit_pulse_def
        laser_command_defs no_flash_def flash_session_def)
qed

text \<open>
  C33. What a SAFE_OFF or DISARM settles, in every reachable state: an identifier that has an answer already gets it
  again and nothing changes; otherwise the device is DISARMED. Between pulses and with a known state it ends tracked
  OFF with no flash, after at most the one pulse the command starts itself, which it starts exactly when the laser
  is on. With an unknown state the command fails, starts no pulse and the state stays unknown. While a pulse is in
  progress it is rejected and the pulse goes on to its target.
\<close>

theorem laser_safe_off_settles:
  assumes "laser_reachable (m, on)" and "cmdID (trim_cmd c) \<noteq> []"
    and "cmdType (trim_cmd c) = CommandDisarm \<or> cmdType (trim_cmd c) = CommandSafeOff"
  shows "case journal m (cmdID (trim_cmd c)) of
      Some prior \<Rightarrow> Execute_laser c m = (m, prior)
    | None \<Rightarrow>
      let m1 = fst (Execute_laser c m); r = snd (Execute_laser c m);
          m2 = (if pulseInProgress m1 then fst (CompletePulse m1) else m1) in
      armState m1 = ArmDisarmed
      \<and> (if pulseInProgress m
         then resStatus r = ResultRejected \<and> pending m1 = pending m \<and> logicalState m1 = logicalState m \<and> activeFlash m1 = activeFlash m
         else if logicalState m = StateUnknown
         then resStatus r = ResultFailed \<and> logicalState m1 = StateUnknown \<and> \<not> pulseInProgress m1
         else armState m2 = ArmDisarmed \<and> logicalState m2 = StateOff \<and> activeFlash m2 = None \<and> \<not> pulseInProgress m2
           \<and> (pulseInProgress m1 \<longleftrightarrow> on))"
proof (cases "journal m (cmdID (trim_cmd c))")
  case (Some prior)
  have "CommandCapability (cmdType (trim_cmd c)) \<noteq> []"
    using assms(3) by (auto simp: CommandCapability_def laser_command_defs laser_capability_defs trim_eval)
  with Some assms(2) show ?thesis by (simp add: Execute_laser_def Let_def)
next
  case None
  let ?c = "trim_cmd c"
  have inv: "mode_ok m" "tracks m on"
    using laser_reachable_safe [OF assms(1)] by (simp_all add: laser_inv_def)
  have ex: "Execute_laser c m = disarm ?c True m" using assms(2) None assms(3) by (rule Execute_fresh)
  consider (pulse) "pulseInProgress m" | (unknown) "\<not> pulseInProgress m" "logicalState m = StateUnknown"
    | (known) "\<not> pulseInProgress m" "logicalState m \<in> {StateOff, StateOn, StateFlashOn, StateFlashOff}"
    using mode_at(1,2) [OF inv(1)] mode_at(3,4) [OF inv(1)] by (cases "logicalState m") auto
  then show ?thesis
  proof cases
    case pulse
    then show ?thesis by (simp add: None ex disarm_def reject_def Let_def)
  next
    case unknown
    then show ?thesis by (simp add: None ex disarm_def fail_cmd_def enterUnknown_def Let_def)
  next
    case known
    let ?m1 = "fst (Execute_laser c m)"
    let ?m2 = "if pulseInProgress ?m1 then fst (CompletePulse ?m1) else ?m1"
    have "armState ?m1 = ArmDisarmed \<and> armState ?m2 = ArmDisarmed \<and> logicalState ?m2 = StateOff \<and> activeFlash ?m2 = None
        \<and> \<not> pulseInProgress ?m2 \<and> (pulseInProgress ?m1 \<longleftrightarrow> on)"
      unfolding ex by (rule disarm_settles [OF inv known assms(3)])
    then show ?thesis using known by (auto simp: None Let_def)
  qed
qed

theorem laser_safe_off_settles_witness:
  "logicalState (fst (CompletePulse (fst (Execute_laser (demo_cmd ''c3'' CommandSafeOff) demo_on)))) = StateOff"
proof -
  let ?c = "demo_cmd ''c3'' CommandSafeOff"
  have 1: "\<not> pulseInProgress demo_on" "logicalState demo_on \<noteq> StateUnknown" by code_simp+
  have 2: "cmdID (trim_cmd ?c) \<noteq> []" "journal demo_on (cmdID (trim_cmd ?c)) = None" by code_simp+
  have 3: "cmdType (trim_cmd ?c) = CommandDisarm \<or> cmdType (trim_cmd ?c) = CommandSafeOff" by code_simp
  have "pulseInProgress (fst (Execute_laser ?c demo_on))" by code_simp
  with laser_safe_off_settles [OF demo_reachable(3) 2(1) 3] 1 2(2) show ?thesis
    by (simp add: Let_def)
qed

text \<open>
  A SAFE_OFF (or DISARM) that arrives while a lighting pulse is in progress is rejected as
  busy, although it disarms: when the pulse is released, the device is DISARMED and tracked ON (or
  flashing). The architecture document says that DISARM stops a running flash and switches a
  tracked ON off.
\<close>

theorem laser_safe_off_lost_in_pulse:
  assumes "laser_reachable (m, on)" "pending m = Some p"
    and "ppTarget p = StateOn \<or> ppTarget p = StateFlashOn"
    and "cmdID (trim_cmd c) \<noteq> []" "journal m (cmdID (trim_cmd c)) = None"
    and "cmdType (trim_cmd c) = CommandDisarm \<or> cmdType (trim_cmd c) = CommandSafeOff"
  shows "resStatus (snd (Execute_laser c m)) = ResultRejected
       \<and> armState (fst (CompletePulse (fst (Execute_laser c m)))) = ArmDisarmed
       \<and> logicalState (fst (CompletePulse (fst (Execute_laser c m)))) = ppTarget p"
proof -
  have inv: "mode_ok m" using laser_reachable_safe [OF assms(1)] by (simp add: laser_inv_def)
  have pul: "pulseInProgress m"
    using inv assms(2) by (auto simp: mode_ok_def idle_output_def split: LogicalState.splits if_splits)
  with inv assms(2) have ok: "pulse_ok m p" using mode_pending by fastforce
  have ex: "Execute_laser c m = reject (trim_cmd c) ErrorBusy
      (Text ''StageLaser pulse is already in progress'') (m\<lparr>armState := ArmDisarmed\<rparr>)"
    using Execute_fresh [OF assms(4-6)] pul by (simp add: disarm_while_pulsing)
  let ?m1 = "fst (Execute_laser c m)"
  have sel: "pulseInProgress ?m1" "pending ?m1 = Some p" "armState ?m1 = ArmDisarmed"
    "resStatus (snd (Execute_laser c m)) = ResultRejected"
    using pul assms(2) by (simp_all add: ex reject_def Let_def)
  have "pulse_ok ?m1 = pulse_ok m" by (rule pulse_ok_cong) (simp_all add: ex reject_def Let_def)
  with ok have "pulse_ok ?m1 p" by simp
  with sel show ?thesis by (simp add: logicalState_CompletePulse)
qed

theorem laser_safe_off_lost_in_pulse_witness:
  "armState (fst (CompletePulse (fst (Execute_laser (demo_cmd ''c3'' CommandSafeOff) demo_pulsing)))) = ArmDisarmed
   \<and> logicalState (fst (CompletePulse (fst (Execute_laser (demo_cmd ''c3'' CommandSafeOff) demo_pulsing)))) = StateOn"
proof -
  let ?c = "demo_cmd ''c3'' CommandSafeOff"
  let ?p = "\<lparr>ppCommandID = ''c2'', ppCommandType = CommandSetOn, ppTarget = StateOn, ppFinalizeFlash = False\<rparr>"
  have 1: "pending demo_pulsing = Some ?p" by code_simp
  have 2: "cmdID (trim_cmd ?c) \<noteq> []" "journal demo_pulsing (cmdID (trim_cmd ?c)) = None" by code_simp+
  have 3: "cmdType (trim_cmd ?c) = CommandDisarm \<or> cmdType (trim_cmd ?c) = CommandSafeOff" by code_simp
  from laser_safe_off_lost_in_pulse [OF demo_reachable(2) 1 _ 2 3] show ?thesis by simp
qed

text \<open>
  Whatever was persisted and whatever the reset, the device restarts DISARMED with no pulse
  and no flash, either in a stable tracked state or UNKNOWN with a resync required; if the record
  says that a transition or a flash was under way, or the reset is of no known class, it is UNKNOWN.
\<close>

theorem laser_restart_safe:
  "armState (RestoreMachine p reset q) = ArmDisarmed
 \<and> pending (RestoreMachine p reset q) = None \<and> activeFlash (RestoreMachine p reset q) = None
 \<and> (stableState (logicalState (RestoreMachine p reset q)) \<and> \<not> resyncRequired (RestoreMachine p reset q)
    \<or> logicalState (RestoreMachine p reset q) = StateUnknown \<and> resyncRequired (RestoreMachine p reset q))
 \<and> (TransitionInProgress p \<or> FlashSessionInProgress p \<or> reset = ResetUnknown \<longrightarrow>
      logicalState (RestoreMachine p reset q) = StateUnknown)"
  by (auto simp: RestoreMachine_def Let_def enterUnknown_def NewColdPowerUpMachine_def stableState_def)

theorem laser_restart_safe_witness:
  "logicalState (RestoreMachine (persistent demo_pulsing) ResetWatchdog True) = StateUnknown"
proof -
  have "TransitionInProgress (persistent demo_pulsing)" by code_simp
  with laser_restart_safe [of "persistent demo_pulsing" ResetWatchdog True] show ?thesis by blast
qed

end
