(* ===== verification/Timecode.thy ===== *)
theory Timecode
  imports Prelude
begin

text \<open>
  Timecode values: \<open>internal/timecode/timecode.go\<close>. Frame rates and their names, the validity of
  an \<open>HH:MM:SS:FF\<close> value (drop-frame counting included), the frame number of a timecode and back,
  printing and parsing, offsets. Errors are values of \<open>tc_error\<close>; \<open>TcPanic\<close> is a Go run-time
  panic (a division by zero that only an absurd frame rate can cause).
\<close>

section \<open>Rates\<close>

datatype SourceKind = SourceInternal | SourceMTC | SourceLTC | SourceOther string

datatype TransportState = TransportStopped | TransportRunning | TransportPaused | TransportNone

record Rate =
  rName :: string
  rNumerator :: int
  rDenominator :: int
  rNominalFPS :: int
  rDropFrame :: bool

definition mk_rate :: "string \<Rightarrow> int \<Rightarrow> int \<Rightarrow> int \<Rightarrow> bool \<Rightarrow> Rate" where
  "mk_rate n a b f d = \<lparr>rName = n, rNumerator = a, rDenominator = b, rNominalFPS = f, rDropFrame = d\<rparr>"

definition Rate23976 :: Rate where "Rate23976 = mk_rate ''23.976'' 24000 1001 24 False"
definition Rate24 :: Rate where "Rate24 = mk_rate ''24'' 24 1 24 False"
definition Rate25 :: Rate where "Rate25 = mk_rate ''25'' 25 1 25 False"
definition Rate2997 :: Rate where "Rate2997 = mk_rate ''29.97'' 30000 1001 30 False"
definition Rate2997Drop :: Rate where "Rate2997Drop = mk_rate ''29.97 DF'' 30000 1001 30 True"
definition Rate30 :: Rate where "Rate30 = mk_rate ''30'' 30 1 30 False"
definition Rate5994 :: Rate where "Rate5994 = mk_rate ''59.94'' 60000 1001 60 False"
definition Rate5994Drop :: Rate where "Rate5994Drop = mk_rate ''59.94 DF'' 60000 1001 60 True"
definition Rate60 :: Rate where "Rate60 = mk_rate ''60'' 60 1 60 False"

lemmas rate_defs =
  Rate23976_def Rate24_def Rate25_def Rate2997_def Rate2997Drop_def Rate30_def Rate5994_def
  Rate5994Drop_def Rate60_def

definition SupportedRates :: "Rate list" where
  "SupportedRates =
     [Rate23976, Rate24, Rate25, Rate2997, Rate2997Drop, Rate30, Rate5994, Rate5994Drop, Rate60]"

datatype tc_error =
    InvalidRate | DropUnsupported | UnsupportedName string
  | ClockRange | FrameRange | DroppedNumber
  | DelimiterMismatch | BadShape | NonNumeric
  | NegativeFrame | NegativeOffset | NegativeStart | NegativeSeek
  | NotMTC | TcPanic

section \<open>Rate names\<close>

text \<open>\<open>strings.ReplaceAll\<close> for a non-empty pattern, \<open>strings.Fields\<close> and \<open>strings.Join\<close> with a space.\<close>

function replace_all :: "string \<Rightarrow> string \<Rightarrow> string \<Rightarrow> string" where
  "replace_all old new s =
     (if s = [] \<or> old = [] then s
      else if take (length old) s = old then new @ replace_all old new (drop (length old) s)
      else hd s # replace_all old new (tl s))"
  by pat_completeness auto
termination
  by (relation "measure (\<lambda>(old, new, s). length s)") auto

declare replace_all.simps [simp del]

function fields_from :: "string \<Rightarrow> string \<Rightarrow> string list" where
  "fields_from acc s =
     (if s = [] then (if acc = [] then [] else [rev acc])
      else if space_len s > 0
      then (if acc = [] then fields_from [] (drop (space_len s) s)
            else rev acc # fields_from [] (drop (space_len s) s))
      else fields_from (hd s # acc) (tl s))"
  by pat_completeness auto
termination
  by (relation "measure (\<lambda>(acc, s). length s)") auto

declare fields_from.simps [simp del]

fun join_spaces :: "string list \<Rightarrow> string" where
  "join_spaces [] = []"
| "join_spaces [w] = w"
| "join_spaces (w # ws) = w @ '' '' @ join_spaces ws"

definition rate_aliases :: "(string \<times> Rate) list" where
  "rate_aliases =
     [(''23.976'', Rate23976), (''24000/1001'', Rate23976),
      (''24'', Rate24), (''24 FPS'', Rate24),
      (''25'', Rate25), (''25 FPS'', Rate25),
      (''29.97'', Rate2997), (''30000/1001'', Rate2997),
      (''29.97 DF'', Rate2997Drop), (''30000/1001 DF'', Rate2997Drop),
      (''30'', Rate30), (''30 FPS'', Rate30),
      (''59.94'', Rate5994), (''60000/1001'', Rate5994),
      (''59.94 DF'', Rate5994Drop), (''60000/1001 DF'', Rate5994Drop),
      (''60'', Rate60), (''60 FPS'', Rate60)]"

definition ParseRate :: "string \<Rightarrow> tc_error + Rate" where
  "ParseRate name =
     (let n1 = to_upper (trim_space name);
          n2 = replace_all ''DROP-FRAME'' ''DF'' n1;
          n3 = replace_all ''DROP FRAME'' ''DF'' n2;
          n4 = join_spaces (fields_from [] n3)
      in case map_of rate_aliases n4 of
           Some r \<Rightarrow> Inr r
         | None \<Rightarrow> Inl (UnsupportedName name))"

section \<open>Validity\<close>

definition ValidateRate :: "Rate \<Rightarrow> tc_error option" where
  "ValidateRate r =
     (if rNumerator r \<le> 0 \<or> rDenominator r \<le> 0 \<or> rNominalFPS r \<le> 0 then Some InvalidRate
      else if \<not> rDropFrame r then None
      else if rDenominator r \<noteq> 1001 \<or> (rNumerator r \<noteq> 30000 \<and> rNumerator r \<noteq> 60000)
      then Some DropUnsupported
      else None)"

definition DropFramesPerMinute :: "Rate \<Rightarrow> int" where
  "DropFramesPerMinute r = (if \<not> rDropFrame r then 0 else quot (rNominalFPS r) 15)"

record Timecode =
  tcHours :: int
  tcMinutes :: int
  tcSeconds :: int
  tcFrames :: int
  tcRate :: Rate

definition ValidateTimecode :: "Timecode \<Rightarrow> tc_error option" where
  "ValidateTimecode tc =
     (case ValidateRate (tcRate tc) of Some e \<Rightarrow> Some e
      | None \<Rightarrow>
        if tcHours tc < 0 \<or> tcHours tc > 23 \<or> tcMinutes tc < 0 \<or> tcMinutes tc > 59
           \<or> tcSeconds tc < 0 \<or> tcSeconds tc > 59 then Some ClockRange
        else if tcFrames tc < 0 \<or> tcFrames tc \<ge> rNominalFPS (tcRate tc) then Some FrameRange
        else if rDropFrame (tcRate tc) \<and> tcSeconds tc = 0 \<and> rem (tcMinutes tc) 10 \<noteq> 0
                \<and> tcFrames tc < DropFramesPerMinute (tcRate tc) then Some DroppedNumber
        else None)"

section \<open>Frame numbers\<close>

definition FrameNumber :: "Timecode \<Rightarrow> tc_error + int" where
  "FrameNumber tc =
     (case ValidateTimecode tc of Some e \<Rightarrow> Inl e
      | None \<Rightarrow>
        (let nominal = rNominalFPS (tcRate tc);
             base = wrap64 ((tcHours tc * 3600 + tcMinutes tc * 60 + tcSeconds tc) * nominal + tcFrames tc)
         in if \<not> rDropFrame (tcRate tc) then Inr base
            else
              let totalMinutes = tcHours tc * 60 + tcMinutes tc;
                  dropped = wrap64 (DropFramesPerMinute (tcRate tc) * (totalMinutes - quot totalMinutes 10))
              in Inr (wrap64 (base - dropped))))"

text \<open>
  The clock part shared by both branches: the displayed frame number split into hours, minutes,
  seconds and frames.
\<close>

definition clock_of :: "int \<Rightarrow> int \<Rightarrow> Rate \<Rightarrow> tc_error + Timecode" where
  "clock_of displayFrame nominal r =
     (let d3600 = wrap64 (nominal * 3600); d60 = wrap64 (nominal * 60) in
      if d3600 = 0 \<or> d60 = 0 \<or> nominal = 0 then Inl TcPanic
      else
        let tc = \<lparr>tcHours = quot displayFrame d3600,
                  tcMinutes = rem (quot displayFrame d60) 60,
                  tcSeconds = rem (quot displayFrame nominal) 60,
                  tcFrames = rem displayFrame nominal,
                  tcRate = r\<rparr>
        in case ValidateTimecode tc of Some e \<Rightarrow> Inl e | None \<Rightarrow> Inr tc)"

definition FromFrameNumber :: "int \<Rightarrow> Rate \<Rightarrow> tc_error + Timecode" where
  "FromFrameNumber frame0 r =
     (case ValidateRate r of Some e \<Rightarrow> Inl e
      | None \<Rightarrow>
        if frame0 < 0 then Inl NegativeFrame
        else
          let nominal = rNominalFPS r in
          if rDropFrame r then
            (let drop = DropFramesPerMinute r;
                 framesPer10Minutes = wrap64 (nominal * 60 * 10 - drop * 9);
                 framesPer24Hours = wrap64 (framesPer10Minutes * 6 * 24);
                 framesPerMinute = wrap64 (nominal * 60 - drop)
             in if framesPer24Hours = 0 \<or> framesPer10Minutes = 0 then Inl TcPanic
                else
                  let frame = rem frame0 framesPer24Hours;
                      tenMinuteBlocks = quot frame framesPer10Minutes;
                      remainder = rem frame framesPer10Minutes;
                      display0 = wrap64 (frame + drop * 9 * tenMinuteBlocks)
                  in if remainder \<ge> drop
                     then (if framesPerMinute = 0 then Inl TcPanic
                           else clock_of (wrap64 (display0 + drop * quot (remainder - drop) framesPerMinute))
                                  nominal r)
                     else clock_of display0 nominal r)
          else
            (let framesPer24Hours = wrap64 (nominal * 60 * 60 * 24)
             in if framesPer24Hours = 0 then Inl TcPanic
                else clock_of (rem frame0 framesPer24Hours) nominal r))"

definition ApplyOffset :: "int \<Rightarrow> int \<Rightarrow> tc_error + int" where
  "ApplyOffset frame offsetFrames =
     (let result = wrap64 (frame + offsetFrames)
      in if result < 0 then Inl NegativeOffset else Inr result)"

section \<open>Printing and parsing\<close>

fun digits_of :: "nat \<Rightarrow> string" where
  "digits_of n = (if n < 10 then [char_of (48 + n)] else digits_of (n div 10) @ [char_of (48 + n mod 10)])"

declare digits_of.simps [simp del]

text \<open>\<open>%02d\<close>: at least two characters, the sign counted, zeros after the sign.\<close>

definition fmt02 :: "int \<Rightarrow> string" where
  "fmt02 n =
     (let ds = digits_of (nat \<bar>n\<bar>)
      in if n < 0 then ''-'' @ ds
         else if length ds < 2 then CHR ''0'' # ds else ds)"

definition TimecodeString :: "Timecode \<Rightarrow> string" where
  "TimecodeString tc =
     fmt02 (tcHours tc) @ '':'' @ fmt02 (tcMinutes tc) @ '':'' @ fmt02 (tcSeconds tc)
     @ (if rDropFrame (tcRate tc) then '';'' else '':'') @ fmt02 (tcFrames tc)"

fun split_on :: "char \<Rightarrow> string \<Rightarrow> string list" where
  "split_on c [] = [[]]"
| "split_on c (x # xs) =
     (if x = c then [] # split_on c xs
      else (case split_on c xs of [] \<Rightarrow> [[x]] | w # ws \<Rightarrow> (x # w) # ws))"

definition is_digit :: "char \<Rightarrow> bool" where
  "is_digit c \<longleftrightarrow> (of_char c :: nat) \<ge> 48 \<and> (of_char c :: nat) \<le> 57"

definition digits_value :: "string \<Rightarrow> int" where
  "digits_value s = foldl (\<lambda>acc c. acc * 10 + (of_char c - 48)) 0 s"

text \<open>\<open>strconv.Atoi\<close>: an optional sign, decimal digits, a 64-bit result.\<close>

definition Atoi :: "string \<Rightarrow> int option" where
  "Atoi s =
     (let neg = (s \<noteq> [] \<and> hd s = CHR ''-'');
          body = (if s \<noteq> [] \<and> (hd s = CHR ''-'' \<or> hd s = CHR ''+'') then tl s else s)
      in if body = [] \<or> \<not> list_all is_digit body then None
         else
           let v = (if neg then - digits_value body else digits_value body)
           in if in64 v then Some v else None)"

definition ParseTimecode :: "string \<Rightarrow> Rate \<Rightarrow> tc_error + Timecode" where
  "ParseTimecode v rate =
     (let normalized = trim_space v in
      if (CHR '';'' \<in> set normalized) \<noteq> rDropFrame rate then Inl DelimiterMismatch
      else
        let parts = split_on (CHR '':'') (map (\<lambda>c. if c = CHR '';'' then CHR '':'' else c) normalized)
        in if length parts \<noteq> 4 then Inl BadShape
           else (case map Atoi parts of
                   [Some h, Some m, Some s, Some f] \<Rightarrow>
                     (let tc = \<lparr>tcHours = h, tcMinutes = m, tcSeconds = s, tcFrames = f, tcRate = rate\<rparr>
                      in case ValidateTimecode tc of Some e \<Rightarrow> Inl e | None \<Rightarrow> Inr tc)
                 | _ \<Rightarrow> Inl NonNumeric))"

section \<open>Frame-number arithmetic\<close>

lemma sexagesimal:
  fixes h m s :: int
  assumes "0 \<le> m" "m < 60" "0 \<le> s" "s < 60"
  shows "(h * 3600 + m * 60 + s) div 3600 = h" "(h * 3600 + m * 60 + s) div 60 mod 60 = m"
    "(h * 3600 + m * 60 + s) mod 60 = s"
proof -
  have e: "h * 3600 + m * 60 + s = (h * 60 + m) * 60 + s" by simp
  have d: "(h * 3600 + m * 60 + s) div 60 = h * 60 + m" unfolding e using assms by simp
  show "(h * 3600 + m * 60 + s) div 60 mod 60 = m" unfolding d using assms by simp
  show "(h * 3600 + m * 60 + s) mod 60 = s"
    unfolding e mod_mult_self3 using assms by simp
  have "(h * 3600 + m * 60 + s) div 3600 = (h * 3600 + m * 60 + s) div 60 div 60"
    using zdiv_zmult2_eq [of 60 "h * 3600 + m * 60 + s" 60] by simp
  then show "(h * 3600 + m * 60 + s) div 3600 = h" unfolding d using assms by simp
qed

text \<open>The displayed frame number of a valid clock splits back into that clock.\<close>

lemma clock_split:
  assumes n: "0 < (n :: int)" and m: "0 \<le> m" "m < 60" and s: "0 \<le> s" "s < 60"
    and f: "0 \<le> f" "f < n" and h: "0 \<le> h"
    and d: "d = (h * 3600 + m * 60 + s) * n + f"
  shows "0 \<le> d" "d div (n * 3600) = h" "(d div (n * 60)) mod 60 = m" "(d div n) mod 60 = s" "d mod n = f"
proof -
  show "0 \<le> d" using d m s h n f by simp
  have q: "d div n = h * 3600 + m * 60 + s" using d f n by simp
  show "d div (n * 3600) = h" "(d div (n * 60)) mod 60 = m" "(d div n) mod 60 = s"
    using n q sexagesimal [OF m s] by (simp_all add: zdiv_zmult2_eq)
  show "d mod n = f" using d f by simp
qed

lemma valid_bounds:
  assumes "ValidateTimecode tc = None"
  shows "ValidateRate (tcRate tc) = None" "0 < rNominalFPS (tcRate tc)"
    "0 \<le> tcHours tc" "tcHours tc < 24" "0 \<le> tcMinutes tc" "tcMinutes tc < 60"
    "0 \<le> tcSeconds tc" "tcSeconds tc < 60" "0 \<le> tcFrames tc" "tcFrames tc < rNominalFPS (tcRate tc)"
  using assms by (auto simp: ValidateTimecode_def ValidateRate_def split: option.splits if_splits)

lemma clock_of_clock:
  assumes v: "ValidateTimecode tc = None" and n: "rNominalFPS (tcRate tc) = n" "n \<le> 1000"
    and d: "d = (tcHours tc * 3600 + tcMinutes tc * 60 + tcSeconds tc) * n + tcFrames tc"
  shows "clock_of d n (tcRate tc) = Inr tc"
proof -
  note b = valid_bounds [OF v]
  have n0: "0 < n" "tcFrames tc < n" using b n by simp_all
  have w: "wrap64 (n * 3600) = n * 3600" "wrap64 (n * 60) = n * 60"
    using n n0 by (auto intro!: wrap64_id simp: in64_def)
  note c = clock_split [OF n0(1) b(5,6,7,8,9) n0(2) b(3) d]
  have e: "\<lparr>tcHours = tcHours tc, tcMinutes = tcMinutes tc, tcSeconds = tcSeconds tc, tcFrames = tcFrames tc,
      tcRate = tcRate tc\<rparr> = tc" by simp
  have "quot d (n * 3600) = tcHours tc" "rem (quot d (n * 60)) 60 = tcMinutes tc"
    "rem (quot d n) 60 = tcSeconds tc" "rem d n = tcFrames tc"
    using c n0 by (simp_all add: pos_imp_zdiv_nonneg_iff)
  then show ?thesis
    unfolding clock_of_def w Let_def using n0 v by (simp add: e)
qed

text \<open>Counting frames without dropping.\<close>

lemma FrameNumber_plain:
  assumes v: "ValidateTimecode tc = None" and n: "rNominalFPS (tcRate tc) = n" "n \<le> 1000"
    and d: "\<not> rDropFrame (tcRate tc)"
  shows "FrameNumber tc = Inr ((tcHours tc * 3600 + tcMinutes tc * 60 + tcSeconds tc) * n + tcFrames tc)"
    and "0 \<le> (tcHours tc * 3600 + tcMinutes tc * 60 + tcSeconds tc) * n + tcFrames tc"
    and "(tcHours tc * 3600 + tcMinutes tc * 60 + tcSeconds tc) * n + tcFrames tc < n * 86400"
proof -
  note b = valid_bounds [OF v]
  define t where "t = tcHours tc * 3600 + tcMinutes tc * 60 + tcSeconds tc"
  have t: "0 \<le> t" "t \<le> 86399" using b by (simp_all add: t_def)
  have n0: "0 < n" "tcFrames tc < n" using b n by simp_all
  have "t * n \<le> 86399 * n" using t n0 by (intro mult_right_mono) auto
  moreover have "0 \<le> t * n" using t n0 by simp
  ultimately have r: "0 \<le> t * n + tcFrames tc" "t * n + tcFrames tc < n * 86400" using b n0 by linarith+
  then have "in64 (t * n + tcFrames tc)" using n by (simp add: in64_def)
  then show "FrameNumber tc = Inr ((tcHours tc * 3600 + tcMinutes tc * 60 + tcSeconds tc) * n + tcFrames tc)"
    using v d n by (simp add: FrameNumber_def t_def)
  show "0 \<le> (tcHours tc * 3600 + tcMinutes tc * 60 + tcSeconds tc) * n + tcFrames tc"
    "(tcHours tc * 3600 + tcMinutes tc * 60 + tcSeconds tc) * n + tcFrames tc < n * 86400"
    using r by (simp_all add: t_def)
qed

lemma FromFrameNumber_plain:
  assumes r: "ValidateRate r = None" "\<not> rDropFrame r" and n: "rNominalFPS r = n" "n \<le> 1000"
    and F: "0 \<le> F"
  shows "FromFrameNumber F r = clock_of (F mod (n * 86400)) n r"
proof -
  have n0: "0 < n" using r n by (auto simp: ValidateRate_def split: if_splits)
  have w: "wrap64 (86400 * n) = n * 86400" using n n0 by (auto intro!: wrap64_id simp: in64_def)
  show ?thesis using r n F n0 w by (simp add: FromFrameNumber_def Let_def)
qed

text \<open>
  Drop-frame counting: at 29.97 and 59.94 a minute has \<open>1800 e\<close> displayed numbers, of which
  \<open>2 e\<close> are skipped unless the minute is a multiple of ten (\<open>e\<close> is 1 or 2).
\<close>

definition is_drop :: "Rate \<Rightarrow> int \<Rightarrow> bool" where
  "is_drop r e \<longleftrightarrow> (e = 1 \<or> e = 2) \<and> rDropFrame r \<and> ValidateRate r = None \<and> rNominalFPS r = 30 * e"

lemma drop_per_minute: "is_drop r e \<Longrightarrow> DropFramesPerMinute r = 2 * e"
  by (auto simp: is_drop_def DropFramesPerMinute_def)

lemma FrameNumber_drop:
  assumes v: "ValidateTimecode tc = None" and r: "is_drop (tcRate tc) e"
    and M: "M = tcHours tc * 60 + tcMinutes tc" and j: "j = tcSeconds tc * (30 * e) + tcFrames tc"
  shows "FrameNumber tc = Inr (17982 * e * (M div 10) + 1798 * e * (M mod 10) + j)"
    and "0 \<le> M" "M < 1440" "0 \<le> j" "j < 1800 * e" "M mod 10 = 0 \<or> 2 * e \<le> j"
proof -
  note b = valid_bounds [OF v]
  have e: "e = 1 \<or> e = 2" using r by (simp add: is_drop_def)
  show M0: "0 \<le> M" "M < 1440" using b M by simp_all
  show j0: "0 \<le> j" "j < 1800 * e" using b j e r by (auto simp: is_drop_def)
  have "tcSeconds tc \<noteq> 0 \<or> rem (tcMinutes tc) 10 = 0 \<or> 2 * e \<le> tcFrames tc"
    using v r drop_per_minute [OF r] unfolding ValidateTimecode_def is_drop_def
    by (cases "ValidateRate (tcRate tc)"; simp split: if_splits; linarith)
  moreover have "M mod 10 = tcMinutes tc mod 10" 
  proof -
    have "M = tcMinutes tc + 10 * (6 * tcHours tc)" using M by simp
    then show ?thesis by (simp only: mod_mult_self2)
  qed
  ultimately show "M mod 10 = 0 \<or> 2 * e \<le> j" using b j e by auto
  have base: "(tcHours tc * 3600 + tcMinutes tc * 60 + tcSeconds tc) * (30 * e) + tcFrames tc = M * (1800 * e) + j"
    by (simp add: M j algebra_simps)
  have "FrameNumber tc = Inr (wrap64 (wrap64 (M * (1800 * e) + j) - wrap64 (2 * e * (M - M div 10))))"
    using v r drop_per_minute [OF r] base M0 b
    by (simp add: FrameNumber_def is_drop_def Let_def M [symmetric])
  also have "wrap64 (M * (1800 * e) + j) = M * (1800 * e) + j"
    by (rule wrap64_id) (use e M0 j0 in \<open>auto simp: in64_def\<close>)
  also have "wrap64 (2 * e * (M - M div 10)) = 2 * e * (M - M div 10)"
    by (rule wrap64_id) (use e M0 in \<open>auto simp: in64_def\<close>)
  also have "wrap64 (M * (1800 * e) + j - 2 * e * (M - M div 10)) = M * (1800 * e) + j - 2 * e * (M - M div 10)"
    by (rule wrap64_id) (use e M0 j0 in \<open>auto simp: in64_def\<close>)
  also have "\<dots> = 17982 * e * (M div 10) + 1798 * e * (M mod 10) + j"
  proof -
    define a c where "a = M div 10" and "c = M mod 10"
    have "M = 10 * a + c" unfolding a_def c_def by (rule mult_div_mod_eq [symmetric])
    with e show ?thesis unfolding a_def [symmetric] c_def [symmetric] by (elim disjE; simp)
  qed
  finally show "FrameNumber tc = Inr (17982 * e * (M div 10) + 1798 * e * (M mod 10) + j)" .
qed

lemma FromFrameNumber_drop:
  assumes r: "is_drop r e" and k: "0 \<le> b" "b < 144" "0 \<le> k" "k < 10" and j: "0 \<le> j" "j < 1800 * e" "k = 0 \<or> 2 * e \<le> j"
    and F: "0 \<le> F" "F mod (2589408 * e) = 17982 * e * b + 1798 * e * k + j"
  shows "FromFrameNumber F r = clock_of ((10 * b + k) * (1800 * e) + j) (30 * e) r"
proof -
  have e: "e = 1 \<or> e = 2" using r by (simp add: is_drop_def)
  define q where "q = 1798 * e * k + j"
  define f where "f = F mod (2589408 * e)"
  have q: "0 \<le> q" "q < 17982 * e" using k j e by (auto simp: q_def)
  have f: "f = 17982 * e * b + q" "0 \<le> f" "f < 2589408 * e" using F q k e by (auto simp: q_def f_def)
  have fd: "f div (17982 * e) = b" "f mod (17982 * e) = q" using f q by simp_all
  have w: "wrap64 (30 * e * 600 - 18 * e) = 17982 * e" "wrap64 (17982 * e * 144) = 2589408 * e"
    "wrap64 (30 * e * 60 - 2 * e) = 1798 * e"
    "wrap64 (f + 18 * e * b) = f + 18 * e * b"
    using e f k by (auto intro!: wrap64_id simp: in64_def)
  have q2: "(if q \<ge> 2 * e then (q - 2 * e) div (1798 * e) else 0) = k"
    using e j k unfolding q_def by (elim disjE; simp)
  have w2: "wrap64 (f + 18 * e * b + 2 * e * k) = f + 18 * e * b + 2 * e * k"
    using e f k by (auto intro!: wrap64_id simp: in64_def)
  have d: "f + 18 * e * b + 2 * e * k = (10 * b + k) * (1800 * e) + j"
    using f by (simp add: q_def algebra_simps)
  have n: "rNominalFPS r = 30 * e" "rDropFrame r" "ValidateRate r = None" using r by (simp_all add: is_drop_def)
  have pos: "0 < e" "0 < 2589408 * e" using e by auto
  have rf: "rem F (2589408 * e) = f" using F pos by (simp add: f_def)
  have qf: "quot f (17982 * e) = b" "rem f (17982 * e) = q" using f fd pos by simp_all
  show ?thesis
  proof (cases "q \<ge> 2 * e")
    case True
    with q2 pos have "quot (q - 2 * e) (1798 * e) = k" by simp
    with True n w w2 d pos F rf qf drop_per_minute [OF r] show ?thesis
      by (simp add: FromFrameNumber_def Let_def)
  next
    case False
    with q2 have "k = 0" by simp
    have "f + 18 * e * b = (10 * b + k) * (1800 * e) + j" using d \<open>k = 0\<close> by simp
    with False n w pos F(1) rf qf drop_per_minute [OF r] show ?thesis
      by (simp add: FromFrameNumber_def Let_def)
  qed
qed

section \<open>The frame number and the clock determine each other\<close>

text \<open>How many frames a day has at a rate.\<close>

definition frames_per_day :: "Rate \<Rightarrow> int" where
  "frames_per_day r =
     (if rDropFrame r then 144 * (rNominalFPS r * 600 - 9 * DropFramesPerMinute r) else rNominalFPS r * 86400)"

lemma supported_valid: "r \<in> set SupportedRates \<Longrightarrow> ValidateRate r = None"
  by (auto simp: SupportedRates_def rate_defs mk_rate_def ValidateRate_def)

lemma supported_nominal: "r \<in> set SupportedRates \<Longrightarrow> 0 < rNominalFPS r \<and> rNominalFPS r \<le> 60"
  by (auto simp: SupportedRates_def rate_defs mk_rate_def)

lemma supported_drop:
  "r \<in> set SupportedRates \<Longrightarrow> rDropFrame r \<Longrightarrow> is_drop r (if rNominalFPS r = 30 then 1 else 2)"
  by (auto simp: SupportedRates_def rate_defs mk_rate_def is_drop_def ValidateRate_def)

lemma frames_per_day_drop: "is_drop r e \<Longrightarrow> frames_per_day r = 2589408 * e"
  by (simp add: frames_per_day_def drop_per_minute) (simp add: is_drop_def)

text \<open>
  C34. At every supported rate a valid timecode has a frame number within its day, and that frame
  number reads back as the same timecode: the drop-frame numbers skipped by 29.97 DF and 59.94 DF
  are accounted for exactly.
\<close>

theorem timecode_frame_roundtrip:
  assumes r: "tcRate tc \<in> set SupportedRates" and v: "ValidateTimecode tc = None"
  shows "\<exists>F. FrameNumber tc = Inr F \<and> 0 \<le> F \<and> F < frames_per_day (tcRate tc)
           \<and> FromFrameNumber F (tcRate tc) = Inr tc"
proof (cases "rDropFrame (tcRate tc)")
  case False
  have n: "rNominalFPS (tcRate tc) = rNominalFPS (tcRate tc)" "rNominalFPS (tcRate tc) \<le> 1000"
    using supported_nominal [OF r] by simp_all
  note F = FrameNumber_plain [OF v n False]
  show ?thesis
    using F FromFrameNumber_plain [OF supported_valid [OF r] False n F(2)] clock_of_clock [OF v n refl] False
    by (intro exI conjI) (auto simp: frames_per_day_def)
next
  case True
  obtain e where d: "is_drop (tcRate tc) e" using supported_drop [OF r True] by blast
  then have e: "e = 1 \<or> e = 2" by (simp add: is_drop_def)
  define M where "M = tcHours tc * 60 + tcMinutes tc"
  define j where "j = tcSeconds tc * (30 * e) + tcFrames tc"
  note F = FrameNumber_drop [OF v d M_def j_def]
  define b k where "b = M div 10" and "k = M mod 10"
  have M: "M = 10 * b + k" unfolding b_def k_def by (rule mult_div_mod_eq [symmetric])
  have bk: "0 \<le> b" "b < 144" "0 \<le> k" "k < 10" using F(2,3) by (simp_all add: b_def k_def)
  let ?F = "17982 * e * b + 1798 * e * k + j"
  have F0: "0 \<le> ?F" "?F < 2589408 * e" using bk F(4,5) e by auto
  have j: "k = 0 \<or> 2 * e \<le> j" using F(6) by (simp add: k_def)
  have "FromFrameNumber ?F (tcRate tc) = clock_of ((10 * b + k) * (1800 * e) + j) (30 * e) (tcRate tc)"
    by (rule FromFrameNumber_drop [OF d bk F(4,5) j F0(1)]) (use F0 in simp)
  also have "\<dots> = Inr tc"
  proof (rule clock_of_clock [OF v])
    show "rNominalFPS (tcRate tc) = 30 * e" "30 * e \<le> 1000" using d e by (auto simp: is_drop_def)
    show "(10 * b + k) * (1800 * e) + j
        = (tcHours tc * 3600 + tcMinutes tc * 60 + tcSeconds tc) * (30 * e) + tcFrames tc"
      unfolding M [symmetric] by (simp add: M_def j_def algebra_simps)
  qed
  finally show ?thesis
    using F(1) F0 frames_per_day_drop [OF d] unfolding b_def k_def by (intro exI conjI) auto
qed

lemma timecode_frame_roundtrip_witness:
  "FrameNumber \<lparr>tcHours = 1, tcMinutes = 1, tcSeconds = 0, tcFrames = 2, tcRate = Rate2997Drop\<rparr> = Inr 109692
   \<and> FromFrameNumber 109692 Rate2997Drop
       = Inr \<lparr>tcHours = 1, tcMinutes = 1, tcSeconds = 0, tcFrames = 2, tcRate = Rate2997Drop\<rparr>"
proof -
  let ?tc = "\<lparr>tcHours = 1, tcMinutes = 1, tcSeconds = 0, tcFrames = 2, tcRate = Rate2997Drop\<rparr>"
  have "tcRate ?tc \<in> set SupportedRates" "ValidateTimecode ?tc = None" "FrameNumber ?tc = Inr 109692"
    by code_simp+
  with timecode_frame_roundtrip [of ?tc] show ?thesis by auto
qed

text \<open>The converse: a frame number reads as a valid timecode with that frame number, modulo a day.\<close>

lemma valid_clock:
  assumes "ValidateRate r = None" "rNominalFPS r = n" "0 \<le> h" "h < 24" "0 \<le> m" "m < 60" "0 \<le> s" "s < 60"
    "0 \<le> f" "f < n" "rDropFrame r \<Longrightarrow> s = 0 \<Longrightarrow> m mod 10 \<noteq> 0 \<Longrightarrow> DropFramesPerMinute r \<le> f"
  shows "ValidateTimecode \<lparr>tcHours = h, tcMinutes = m, tcSeconds = s, tcFrames = f, tcRate = r\<rparr> = None"
  using assms by (auto simp: ValidateTimecode_def)

lemma divide_below:
  fixes x c d :: int
  assumes "0 \<le> x" "x < c * d" "0 < d"
  shows "0 \<le> x div d" "x div d < c" "0 \<le> x mod d" "x mod d < d" "x = (x div d) * d + x mod d"
proof -
  have "x = (x div d) * d + x mod d" by simp
  moreover from this have "(x div d) * d < c * d"
    using assms pos_mod_sign [of d x] by linarith
  then have "x div d < c" using assms(3) by simp
  ultimately show "0 \<le> x div d" "x div d < c" "0 \<le> x mod d" "x mod d < d" "x = (x div d) * d + x mod d"
    using assms by (simp_all add: pos_imp_zdiv_nonneg_iff)
qed

text \<open>A drop-frame minute: the frame within ten minutes as a minute and a position in it.\<close>

lemma drop_minute:
  assumes e: "e = 1 \<or> e = 2" and q: "0 \<le> q" "q < 17982 * (e :: int)"
  shows "\<exists>k j. 0 \<le> k \<and> k < 10 \<and> 0 \<le> j \<and> j < 1800 * e \<and> (k = 0 \<or> 2 * e \<le> j) \<and> q = 1798 * e * k + j"
proof (cases "q < 2 * e")
  case True
  with e q show ?thesis by (intro exI [of _ 0] exI [of _ q]) auto
next
  case False
  have "0 \<le> q - 2 * e" "q - 2 * e < 10 * (1798 * e)" "0 < 1798 * e" using False q e by auto
  note d = divide_below [OF this]
  show ?thesis
    using d e by (intro exI [of _ "(q - 2 * e) div (1798 * e)"] exI [of _ "2 * e + (q - 2 * e) mod (1798 * e)"]) auto
qed

text \<open>
  At every supported rate \<open>FromFrameNumber\<close> accepts every non-negative frame number and returns
  a valid timecode of that rate (never one of the numbers drop-frame counting skips), whose frame
  number is the given one modulo the frames of a day.
\<close>

theorem frame_timecode_roundtrip:
  assumes r: "r \<in> set SupportedRates" and F: "0 \<le> F"
  shows "\<exists>tc. FromFrameNumber F r = Inr tc \<and> ValidateTimecode tc = None \<and> tcRate tc = r
           \<and> FrameNumber tc = Inr (F mod frames_per_day r)"
proof (cases "rDropFrame r")
  case False
  define n where "n = rNominalFPS r"
  have n: "rNominalFPS r = n" "0 < n" "n \<le> 1000" using supported_nominal [OF r] by (simp_all add: n_def)
  define G where "G = F mod (n * 86400)"
  have G: "0 \<le> G" "G < 86400 * n" using n by (simp_all add: G_def mult.commute)
  define t f where "t = G div n" and "f = G mod n"
  have t: "0 \<le> t" "t < 24 * 3600" "0 \<le> f" "f < n" "G = t * n + f"
    using divide_below [OF G n(2)] by (simp_all add: t_def f_def)
  define h u where "h = t div 3600" and "u = t mod 3600"
  have h: "0 \<le> h" "h < 24" "0 \<le> u" "u < 60 * 60" "t = h * 3600 + u"
    using divide_below [OF t(1,2)] by (simp_all add: h_def u_def)
  define m s where "m = u div 60" and "s = u mod 60"
  have m: "0 \<le> m" "m < 60" "0 \<le> s" "s < 60" "u = m * 60 + s"
    using divide_below [OF h(3,4)] by (simp_all add: m_def s_def)
  let ?tc = "\<lparr>tcHours = h, tcMinutes = m, tcSeconds = s, tcFrames = f, tcRate = r\<rparr>"
  have v: "ValidateTimecode ?tc = None"
    using False by (intro valid_clock [OF supported_valid [OF r] n(1) h(1,2) m(1,2,3,4) t(3,4)]) auto
  have "FromFrameNumber F r = clock_of G n (tcRate ?tc)"
    using FromFrameNumber_plain [OF supported_valid [OF r] False n(1,3) F] by (simp add: G_def)
  also have "\<dots> = Inr ?tc"
    by (rule clock_of_clock [OF v]) (use n t h m in \<open>simp_all\<close>)
  finally have "FromFrameNumber F r = Inr ?tc" .
  moreover have "FrameNumber ?tc = Inr G"
    using FrameNumber_plain(1) [OF v, of n] n False t h m by simp
  ultimately show ?thesis using v False n by (intro exI [of _ ?tc]) (simp add: frames_per_day_def G_def)
next
  case True
  obtain e where d: "is_drop r e" using supported_drop [OF r True] by blast
  then have e: "e = 1 \<or> e = 2" by (simp add: is_drop_def)
  define G where "G = F mod (2589408 * e)"
  have G: "0 \<le> G" "G < 2589408 * e" using e by (auto simp: G_def)
  define b q where "b = G div (17982 * e)" and "q = G mod (17982 * e)"
  have b: "0 \<le> b" "b < 144" "0 \<le> q" "q < 17982 * e" "G = b * (17982 * e) + q"
    using divide_below [of G 144 "17982 * e"] G e unfolding b_def q_def by auto
  obtain k j where k: "0 \<le> k" "k < 10" and j: "0 \<le> j" "j < 1800 * e" "k = 0 \<or> 2 * e \<le> j"
    and q: "q = 1798 * e * k + j"
    using drop_minute [OF e b(3,4)] by blast
  define M where "M = 10 * b + k"
  define h m where "h = M div 60" and "m = M mod 60"
  have h: "0 \<le> h" "h < 24" "0 \<le> m" "m < 60" "M = h * 60 + m"
    using divide_below [of M 24 60] b k by (simp_all add: M_def h_def m_def)
  define s f where "s = j div (30 * e)" and "f = j mod (30 * e)"
  have s: "0 \<le> s" "s < 60" "0 \<le> f" "f < 30 * e" "j = s * (30 * e) + f"
    using divide_below [of j 60 "30 * e"] j e by (auto simp: s_def f_def)
  have n: "rNominalFPS r = 30 * e" using d by (simp add: is_drop_def)
  have mk: "m mod 10 = k"
  proof -
    have "m mod 10 = M mod 10" unfolding m_def by (rule mod_mod_cancel) simp
    also have "\<dots> = k" using k by (simp add: M_def)
    finally show ?thesis .
  qed
  let ?tc = "\<lparr>tcHours = h, tcMinutes = m, tcSeconds = s, tcFrames = f, tcRate = r\<rparr>"
  have v: "ValidateTimecode ?tc = None"
    by (rule valid_clock [OF supported_valid [OF r] n h(1,2,3,4) s(1,2,3,4)])
      (use mk j s drop_per_minute [OF d] in auto)
  have dM: "M div 10 = b" "M mod 10 = k" using k by (simp_all add: M_def)
  have "FromFrameNumber F r = clock_of (M * (1800 * e) + j) (30 * e) (tcRate ?tc)"
    unfolding M_def using FromFrameNumber_drop [OF d b(1,2) k j F] b q by (simp add: G_def [symmetric])
  also have "\<dots> = Inr ?tc"
    by (rule clock_of_clock [OF v]) (use n e h s in \<open>auto simp: algebra_simps\<close>)
  finally have 1: "FromFrameNumber F r = Inr ?tc" .
  have "FrameNumber ?tc = Inr (17982 * e * (M div 10) + 1798 * e * (M mod 10) + j)"
    by (rule FrameNumber_drop(1) [OF v]) (use d h s in simp_all)
  also have "\<dots> = Inr G" using b q by (simp add: dM)
  finally show ?thesis
    using 1 v frames_per_day_drop [OF d] by (intro exI [of _ ?tc]) (simp add: G_def)
qed

lemma frame_timecode_roundtrip_witness:
  "\<exists>tc. FromFrameNumber 5000000 Rate5994Drop = Inr tc \<and> ValidateTimecode tc = None \<and> tcRate tc = Rate5994Drop
     \<and> FrameNumber tc = Inr 5000000"
proof -
  have "Rate5994Drop \<in> set SupportedRates" "5000000 mod frames_per_day Rate5994Drop = 5000000" by code_simp+
  with frame_timecode_roundtrip [of Rate5994Drop 5000000] show ?thesis by simp
qed

section \<open>Printing and parsing are inverse\<close>

definition dig :: "int \<Rightarrow> char" where
  "dig d = char_of (48 + nat d)"

lemma dig_code: "0 \<le> d \<Longrightarrow> d < 10 \<Longrightarrow> of_char (dig d) = (48 + nat d :: nat)"
  by (simp add: dig_def)

lemma fmt02_two:
  assumes "0 \<le> n" "n < 100"
  shows "fmt02 n = [dig (n div 10), dig (n mod 10)]"
proof -
  have z: "CHR ''0'' = (char_of (48 :: nat) :: char)" by code_simp
  show ?thesis
  proof (cases "n < 10")
    case True
    then have "digits_of (nat n) = [dig n]" using assms by (simp add: digits_of.simps dig_def)
    then show ?thesis using True assms z by (simp add: fmt02_def dig_def)
  next
    case False
    have q: "\<not> nat n < 10" "nat n div 10 = nat (n div 10)" "nat n mod 10 = nat (n mod 10)" "nat (n div 10) < 10"
      using assms False by (simp_all add: nat_div_distrib nat_mod_distrib)
    have "digits_of (nat n) = [dig (n div 10), dig (n mod 10)]"
      using False assms q by (simp add: digits_of.simps [of "nat n"] digits_of.simps [of "nat (n div 10)"] dig_def)
    then show ?thesis using assms by (simp add: fmt02_def)
  qed
qed

lemma dig_digit: "0 \<le> d \<Longrightarrow> d < 10 \<Longrightarrow> is_digit (dig d)"
  by (simp add: is_digit_def dig_code)

lemma digit_not:
  "is_digit c \<Longrightarrow> c \<noteq> CHR ''-''" "is_digit c \<Longrightarrow> c \<noteq> CHR ''+''" "is_digit c \<Longrightarrow> c \<noteq> CHR '':''"
  "is_digit c \<Longrightarrow> c \<noteq> CHR '';''" "is_digit c \<Longrightarrow> \<not> ascii_space c"
  "is_digit c \<Longrightarrow> \<not> space2 c x" "is_digit c \<Longrightarrow> \<not> space3 c x y"
  "is_digit c \<Longrightarrow> \<not> space2 x c" "is_digit c \<Longrightarrow> \<not> space3 x y c"
  by (auto simp: is_digit_def ascii_space_def space2_def space3_def)

lemma Atoi_two:
  assumes "0 \<le> n" "n < 100"
  shows "Atoi [dig (n div 10), dig (n mod 10)] = Some n"
proof -
  have d: "0 \<le> n div 10" "n div 10 < 10" "0 \<le> n mod 10" "n mod 10 < 10" using assms by simp_all
  have v: "digits_value [dig (n div 10), dig (n mod 10)] = n"
  proof -
    have "(of_char (dig k) :: int) = 48 + k" if "0 \<le> k" "k < 10" for k
      using arg_cong [OF dig_code [OF that], of int] that by (simp only: of_nat_of_char)
    with d show ?thesis by (simp add: digits_value_def)
  qed
  have "in64 n" using assms by (simp add: in64_def)
  then show ?thesis
    using v digit_not(1,2) [OF dig_digit [OF d(1,2)]] dig_digit [OF d(1,2)] dig_digit [OF d(3,4)]
    by (simp add: Atoi_def)
qed

text \<open>
  Printing a valid timecode of a supported rate and parsing the text with that rate returns it;
  parsing it with a rate of the other counting mode is refused for its delimiter.
\<close>

theorem timecode_print_parse:
  assumes r: "tcRate tc \<in> set SupportedRates" and v: "ValidateTimecode tc = None"
  shows "ParseTimecode (TimecodeString tc) (tcRate tc) = Inr tc
    \<and> (rDropFrame r' \<noteq> rDropFrame (tcRate tc)
          \<longrightarrow> ParseTimecode (TimecodeString tc) r' = Inl DelimiterMismatch)"
proof -
  note b = valid_bounds [OF v]
  have n: "tcFrames tc < 100" using b supported_nominal [OF r] by simp
  define h m s f where "h = tcHours tc" and "m = tcMinutes tc" and "s = tcSeconds tc" and "f = tcFrames tc"
  have bb: "0 \<le> h" "h < 100" "0 \<le> m" "m < 100" "0 \<le> s" "s < 100" "0 \<le> f" "f < 100"
    using b n by (simp_all add: h_def m_def s_def f_def)
  have e: "\<lparr>tcHours = h, tcMinutes = m, tcSeconds = s, tcFrames = f, tcRate = tcRate tc\<rparr> = tc"
    by (simp add: h_def m_def s_def f_def)
  define sep where "sep = (if rDropFrame (tcRate tc) then CHR '';'' else CHR '':'')"
  define D where "D = (\<lambda>n. dig (n div 10))"
  define U where "U = (\<lambda>n. dig (n mod 10))"
  have du: "is_digit (D n)" "is_digit (U n)" if "0 \<le> n" "n < 100" for n
    using that by (simp_all add: D_def U_def dig_digit)
  have at: "Atoi [D n, U n] = Some n" if "0 \<le> n" "n < 100" for n
    using Atoi_two [OF that] by (simp add: D_def U_def)
  have str: "TimecodeString tc = [D h, U h, CHR '':'', D m, U m, CHR '':'', D s, U s, sep, D f, U f]"
    using bb by (simp add: TimecodeString_def fmt02_two sep_def D_def U_def h_def m_def s_def f_def)
  note dd = du [OF bb(1,2)] du [OF bb(3,4)] du [OF bb(5,6)] du [OF bb(7,8)]
  note no = digit_not(3) [OF dd(1)] digit_not(3) [OF dd(2)] digit_not(3) [OF dd(3)] digit_not(3) [OF dd(4)]
    digit_not(3) [OF dd(5)] digit_not(3) [OF dd(6)] digit_not(3) [OF dd(7)] digit_not(3) [OF dd(8)]
    digit_not(4) [OF dd(1)] digit_not(4) [OF dd(2)] digit_not(4) [OF dd(3)] digit_not(4) [OF dd(4)]
    digit_not(4) [OF dd(5)] digit_not(4) [OF dd(6)] digit_not(4) [OF dd(7)] digit_not(4) [OF dd(8)]
  have tr: "trim_space (TimecodeString tc) = TimecodeString tc"
    by (rule trim_space_id)
      (simp_all add: str space_len_def rspace_len_def digit_not(5,6,7) [OF dd(1)] digit_not(5,8,9) [OF dd(8)])
  have semi: "CHR '';'' \<in> set (TimecodeString tc) \<longleftrightarrow> rDropFrame (tcRate tc)"
    using no [symmetric] by (simp add: str sep_def)
  have sp: "split_on (CHR '':'') (map (\<lambda>c. if c = CHR '';'' then CHR '':'' else c) (TimecodeString tc))
      = [[D h, U h], [D m, U m], [D s, U s], [D f, U f]]"
    using no by (simp add: str sep_def)
  have "ParseTimecode (TimecodeString tc) (tcRate tc) = Inr tc"
    unfolding ParseTimecode_def tr Let_def sp semi using v bb by (simp add: at e)
  moreover have "ParseTimecode (TimecodeString tc) r' = Inl DelimiterMismatch"
    if "rDropFrame r' \<noteq> rDropFrame (tcRate tc)"
    unfolding ParseTimecode_def tr Let_def semi using that by simp
  ultimately show ?thesis by blast
qed

lemma timecode_print_parse_witness:
  "ParseTimecode ''10:10:00;00'' Rate2997Drop
     = Inr \<lparr>tcHours = 10, tcMinutes = 10, tcSeconds = 0, tcFrames = 0, tcRate = Rate2997Drop\<rparr>
   \<and> ParseTimecode ''10:10:00;00'' Rate30 = Inl DelimiterMismatch"
proof -
  let ?tc = "\<lparr>tcHours = 10, tcMinutes = 10, tcSeconds = 0, tcFrames = 0, tcRate = Rate2997Drop\<rparr>"
  have "tcRate ?tc \<in> set SupportedRates" "ValidateTimecode ?tc = None" "TimecodeString ?tc = ''10:10:00;00''"
    "rDropFrame Rate30 \<noteq> rDropFrame (tcRate ?tc)"
    by code_simp+
  with timecode_print_parse [of ?tc Rate30] show ?thesis by simp
qed

text \<open>A rate that parses is one of the supported rates, so the round trips apply to it.\<close>

lemma ParseRate_supported: "ParseRate s = Inr r \<Longrightarrow> r \<in> set SupportedRates"
  by (auto simp: ParseRate_def Let_def rate_aliases_def SupportedRates_def split: option.splits if_splits)

lemma ParseRate_drop_name: "ParseRate ''29.97 drop-frame'' = Inr Rate2997Drop"
  by code_simp

end
