(* ===== verification/MTC.thy ===== *)
theory MTC
  imports Timecode
begin

unbundle bit_operations_syntax

text \<open>
  MIDI Time Code: \<open>internal/timecode/mtc.go\<close>, the MTC codes of \<open>timecode.go\<close>, and the byte-stream
  side of \<open>mtc_input.go\<close> (the quarter-frame parser and the reminder for an unavailable device).
  A byte is an \<open>8 word\<close>; the decoder's \<open>int\<close> fields are integers.
\<close>

section \<open>MTC codes and quarter frames\<close>

type_synonym byte = "8 word"

definition MTCCode :: "Rate \<Rightarrow> byte option" where
  "MTCCode r =
     (if r = Rate24 then Some 0
      else if r = Rate25 then Some 1
      else if r = Rate2997Drop then Some 2
      else if r = Rate30 then Some 3
      else None)"

definition RateFromMTCCode :: "byte \<Rightarrow> Rate" where
  "RateFromMTCCode code =
     (let c = code AND 3 in
      if c = 0 then Rate24 else if c = 1 then Rate25 else if c = 2 then Rate2997Drop else Rate30)"

definition EncodeMTCQuarterFrame :: "Timecode \<Rightarrow> tc_error + byte list" where
  "EncodeMTCQuarterFrame tc =
     (case ValidateTimecode tc of Some e \<Rightarrow> Inl e
      | None \<Rightarrow>
        (case MTCCode (tcRate tc) of None \<Rightarrow> Inl NotMTC
         | Some rateCode \<Rightarrow>
           (let fr = word_of_int (tcFrames tc); se = word_of_int (tcSeconds tc);
                mi = word_of_int (tcMinutes tc); ho = word_of_int (tcHours tc);
                nibbles =
                  [fr AND 0x0F, drop_bit 4 fr AND 0x01,
                   se AND 0x0F, drop_bit 4 se AND 0x03,
                   mi AND 0x0F, drop_bit 4 mi AND 0x03,
                   ho AND 0x0F, (drop_bit 4 ho AND 0x01) OR push_bit 1 (rateCode AND 0x03)]
            in Inr (map (\<lambda>i. word_of_nat (i * 16) OR nibbles ! i) [0..<8]))))"

section \<open>The decoder\<close>

record MTCDecoder =
  dNibbles :: "byte list"
  dSeen :: byte
  dLastPiece :: int
  dDirection :: int

definition newMTCDecoder :: MTCDecoder where
  "newMTCDecoder = \<lparr>dNibbles = replicate 8 0, dSeen = 0, dLastPiece = 0, dDirection = 0\<rparr>"

definition mtc_Reset :: "MTCDecoder \<Rightarrow> MTCDecoder" where
  "mtc_Reset d = d\<lparr>dSeen := 0, dLastPiece := - 1, dDirection := 0\<rparr>"

text \<open>What a quarter frame yields: nothing yet, a timecode, or an error.\<close>

datatype mtc_out = MtcPending | MtcTimecode Timecode | MtcError tc_error

definition piece_of :: "byte \<Rightarrow> nat" where
  "piece_of data = unat (drop_bit 4 data AND 7)"

definition nibble_of :: "byte \<Rightarrow> byte" where
  "nibble_of data = data AND 0x0F"

text \<open>The sequence check at the start of \<open>Push\<close>.\<close>

definition mtc_sequence :: "int \<Rightarrow> MTCDecoder \<Rightarrow> MTCDecoder" where
  "mtc_sequence piece d =
     (if dSeen d = 0 then d\<lparr>dLastPiece := piece, dDirection := 0\<rparr>
      else
        let forward = (dLastPiece d + 1) AND 7; reverse = (dLastPiece d + 7) AND 7
        in if piece = forward \<and> (dDirection d = 0 \<or> dDirection d = 1) then d\<lparr>dDirection := 1\<rparr>
           else if piece = reverse \<and> (dDirection d = 0 \<or> dDirection d = - 1) then d\<lparr>dDirection := - 1\<rparr>
           else (mtc_Reset d)\<lparr>dLastPiece := piece\<rparr>)"

text \<open>The timecode eight nibbles spell.\<close>

definition assemble :: "byte list \<Rightarrow> Timecode" where
  "assemble ns =
     \<lparr>tcHours = uint (ns ! 6 OR push_bit 4 (ns ! 7 AND 0x01)),
      tcMinutes = uint (ns ! 4 OR push_bit 4 (ns ! 5 AND 0x03)),
      tcSeconds = uint (ns ! 2 OR push_bit 4 (ns ! 3 AND 0x03)),
      tcFrames = uint (ns ! 0 OR push_bit 4 (ns ! 1 AND 0x01)),
      tcRate = RateFromMTCCode (drop_bit 1 (ns ! 7) AND 0x03)\<rparr>"

definition mtc_Push :: "MTCDecoder \<Rightarrow> byte \<Rightarrow> MTCDecoder \<times> mtc_out" where
  "mtc_Push d0 data =
     (let piece = piece_of data;
          nibble = nibble_of data;
          d1 = mtc_sequence (int piece) d0;
          d = d1\<lparr>dNibbles := (dNibbles d1)[piece := nibble],
                 dSeen := dSeen d1 OR push_bit piece 1,
                 dLastPiece := int piece\<rparr>
      in if dSeen d \<noteq> 0xFF then (d, MtcPending)
         else
           let tc = assemble (dNibbles d)
           in case ValidateTimecode tc of
                Some e \<Rightarrow> (mtc_Reset d, MtcError e)
              | None \<Rightarrow> (d\<lparr>dSeen := 0\<rparr>, MtcTimecode tc))"

fun mtc_run :: "MTCDecoder \<Rightarrow> byte list \<Rightarrow> MTCDecoder \<times> mtc_out list" where
  "mtc_run d [] = (d, [])"
| "mtc_run d (b # bs) =
     (let (d', r) = mtc_Push d b; (d'', rs) = mtc_run d' bs in (d'', r # rs))"

section \<open>The MIDI byte stream\<close>

definition mtcQuarterFrameStatus :: byte where
  "mtcQuarterFrameStatus = 0xF1"

text \<open>The parser's state is \<open>awaitingData\<close>; a data byte of a quarter frame is passed on.\<close>

definition midi_Push :: "bool \<Rightarrow> byte \<Rightarrow> bool \<times> byte option" where
  "midi_Push awaitingData b =
     (if b \<ge> 0xF8 then (awaitingData, None)
      else if b = mtcQuarterFrameStatus then (True, None)
      else if b AND 0x80 \<noteq> 0 then (False, None)
      else if \<not> awaitingData then (awaitingData, None)
      else (False, Some (b AND 0x7F)))"

fun midi_run :: "bool \<Rightarrow> byte list \<Rightarrow> byte list" where
  "midi_run a [] = []"
| "midi_run a (b # bs) =
     (let (a', r) = midi_Push a b
      in (case r of None \<Rightarrow> midi_run a' bs | Some x \<Rightarrow> x # midi_run a' bs))"

section \<open>The reminder for an unavailable device\<close>

record MTCWarning =
  warningReminder :: duration
  lastUnavailableWarn :: time

definition defaultMTCWarningReminder :: duration where
  "defaultMTCWarningReminder = 30 * 1000000000"

definition shouldWarnUnavailable :: "time \<Rightarrow> MTCWarning \<Rightarrow> MTCWarning \<times> bool" where
  "shouldWarnUnavailable now i =
     (let reminder = (if warningReminder i \<le> 0 then defaultMTCWarningReminder else warningReminder i)
      in if is_zero (lastUnavailableWarn i) \<or> time_sub now (lastUnavailableWarn i) \<ge> reminder
         then (i\<lparr>lastUnavailableWarn := now\<rparr>, True)
         else (i, False))"

definition resetUnavailableWarning :: "MTCWarning \<Rightarrow> MTCWarning" where
  "resetUnavailableWarning i = i\<lparr>lastUnavailableWarn := zero_time\<rparr>"

section \<open>Runs of consecutive pieces\<close>

lemma piece_of_less [simp]: "piece_of b < 8"
proof -
  have "drop_bit 4 b AND 7 \<le> (7 :: byte)" by (rule word_and_le1)
  then have "unat (drop_bit 4 b AND 7) \<le> unat (7 :: byte)" by (simp only: word_le_nat_alt)
  then show ?thesis by (simp add: piece_of_def)
qed

lemma byte_zero_iff: "(b :: byte) = 0 \<longleftrightarrow> (\<forall>q<8. \<not> bit b q)"
  by (auto simp: bit_eq_iff dest: bit_imp_le_length)

lemma byte_full_iff: "(b :: byte) = 0xFF \<longleftrightarrow> (\<forall>q<8. bit b q)"
proof -
  have ff: "(0xFF :: byte) = - 1" by simp
  show ?thesis by (auto simp: ff bit_eq_iff dest: bit_imp_le_length)
qed

lemma and7_mod8: "(x :: int) AND 7 = x mod 8"
proof -
  have "x AND 7 = take_bit 3 x" by (simp add: take_bit_eq_mask mask_eq_exp_minus_1)
  then show ?thesis by (simp add: take_bit_eq_mod)
qed

text \<open>Eight steps forward (\<open>\<delta> = 1\<close>) or backward (\<open>\<delta> = 7\<close>, that is \<open>-1\<close> modulo 8).\<close>

definition pos :: "nat \<Rightarrow> nat \<Rightarrow> nat \<Rightarrow> nat" where
  "pos p \<delta> i = (p + \<delta> * i) mod 8"

definition dir :: "nat \<Rightarrow> bool" where
  "dir \<delta> \<longleftrightarrow> \<delta> = 1 \<or> \<delta> = 7"

lemma pos_less [simp]: "pos p \<delta> i < 8"
  by (simp add: pos_def)

lemma pos_inj_le:
  assumes d: "dir \<delta>" and ij: "i \<le> j" "j < 8" and e: "pos p \<delta> i = pos p \<delta> j"
  shows "i = j"
proof -
  have "p + \<delta> * i \<le> p + \<delta> * j" using ij by simp
  then have "8 dvd (p + \<delta> * j) - (p + \<delta> * i)" using e unfolding pos_def by (metis mod_eq_dvd_iff_nat)
  also have "(p + \<delta> * j) - (p + \<delta> * i) = \<delta> * (j - i)" by (simp add: diff_mult_distrib2)
  finally have "8 dvd \<delta> * (j - i)" .
  moreover have "coprime 8 (7 :: nat)" using coprime_Suc_left_nat [of 7] by simp
  ultimately have "8 dvd j - i" using d by (auto simp: dir_def coprime_dvd_mult_right_iff)
  then show ?thesis using ij dvd_imp_le [of 8 "j - i"] by linarith
qed

lemma pos_inj: "dir \<delta> \<Longrightarrow> i < 8 \<Longrightarrow> j < 8 \<Longrightarrow> pos p \<delta> i = pos p \<delta> j \<longleftrightarrow> i = j"
  by (metis linear pos_inj_le)

lemma pos_onto: "dir \<delta> \<Longrightarrow> q < 8 \<Longrightarrow> \<exists>i<8. pos p \<delta> i = q"
proof -
  assume d: "dir \<delta>" and q: "q < 8"
  have "inj_on (pos p \<delta>) {..<8}" by (rule inj_onI) (use pos_inj [OF d] in auto)
  moreover have "pos p \<delta> ` {..<8} \<subseteq> {..<8}" by auto
  ultimately have "pos p \<delta> ` {..<8} = {..<8}" by (simp add: endo_inj_surj)
  with q show ?thesis by (metis image_iff lessThan_iff)
qed

lemma pos_Suc: "dir \<delta> \<Longrightarrow> pos p \<delta> (Suc i) = (if \<delta> = 1 then (pos p \<delta> i + 1) mod 8 else (pos p \<delta> i + 7) mod 8)"
  by (auto simp: dir_def pos_def mod_simps ac_simps)

text \<open>The decoder has read the run \<open>w\<close> from piece \<open>p\<close> in direction \<open>\<delta>\<close> since it last started.\<close>

definition run_state :: "nat \<Rightarrow> nat \<Rightarrow> byte list \<Rightarrow> MTCDecoder \<Rightarrow> bool" where
  "run_state p \<delta> w d \<longleftrightarrow>
     dir \<delta> \<and> length (dNibbles d) = 8 \<and> length w \<le> 7
   \<and> (\<forall>i<length w. piece_of (w ! i) = pos p \<delta> i \<and> dNibbles d ! pos p \<delta> i = nibble_of (w ! i))
   \<and> (\<forall>q<8. bit (dSeen d) q \<longleftrightarrow> (\<exists>i<length w. q = pos p \<delta> i))
   \<and> (w \<noteq> [] \<longrightarrow> dLastPiece d = int (pos p \<delta> (length w - 1)))
   \<and> (length w = 1 \<longrightarrow> dDirection d = 0)
   \<and> (length w \<ge> 2 \<longrightarrow> dDirection d = (if \<delta> = 1 then 1 else - 1))"

lemma run_state_idle: "dir \<delta> \<Longrightarrow> length (dNibbles d) = 8 \<Longrightarrow> dSeen d = 0 \<Longrightarrow> run_state p \<delta> [] d"
  by (simp add: run_state_def)

lemma run_state_seen: "run_state p \<delta> w d \<Longrightarrow> dSeen d = 0 \<longleftrightarrow> w = []"
proof
  assume s: "run_state p \<delta> w d" and z: "dSeen d = 0"
  show "w = []"
  proof (rule ccontr)
    assume "w \<noteq> []"
    with s have "bit (dSeen d) (pos p \<delta> 0)" by (auto simp: run_state_def)
    with z show False by simp
  qed
qed (auto simp: run_state_def byte_zero_iff)

lemma run_state_turn: "run_state p \<delta> [a] d \<Longrightarrow> dir \<epsilon> \<Longrightarrow> run_state p \<epsilon> [a] d"
  by (auto simp: run_state_def pos_def)

lemma sequence_continue:
  assumes s: "run_state p \<delta> w d" and b: "k = pos p \<delta> (length w)"
  shows "mtc_sequence (int k) d
    = (if w = [] then d\<lparr>dLastPiece := int k, dDirection := 0\<rparr> else d\<lparr>dDirection := (if \<delta> = 1 then 1 else - 1)\<rparr>)"
proof (cases "w = []")
  case True
  with run_state_seen [OF s] show ?thesis by (simp add: mtc_sequence_def)
next
  case False
  then obtain m where m: "length w = Suc m" by (cases "length w") auto
  have d: "dir \<delta>" and l: "dLastPiece d = int (pos p \<delta> m)" using s m False by (auto simp: run_state_def)
  have dr: "dDirection d = 0 \<or> dDirection d = (if \<delta> = 1 then 1 else - 1)"
    using s m by (cases m) (auto simp: run_state_def)
  define x where "x = pos p \<delta> m"
  have x: "x < 8" by (simp add: x_def)
  have fw: "(int x + 1) AND 7 = int ((x + 1) mod 8)" "(int x + 7) AND 7 = int ((x + 7) mod 8)"
    by (simp_all add: and7_mod8 zmod_int add.commute)
  have "x \<in> {0, 1, 2, 3, 4, 5, 6, 7}" using x by auto
  then have ne: "(x + 1) mod 8 \<noteq> (x + 7) mod 8" by auto
  have k: "k = (if \<delta> = 1 then (x + 1) mod 8 else (x + 7) mod 8)"
    using b pos_Suc [OF d] m by (simp add: x_def)
  show ?thesis
    using False run_state_seen [OF s] d dr ne k l
    by (auto simp: mtc_sequence_def Let_def fw dir_def x_def [symmetric])
qed

lemma byte_bit_insert: "k < 8 \<Longrightarrow> bit (s OR 2 ^ k :: byte) q \<longleftrightarrow> bit s q \<or> q = k"
  by (auto simp: bit_simps)

definition advance :: "nat \<Rightarrow> nat \<Rightarrow> byte list \<Rightarrow> MTCDecoder \<Rightarrow> byte \<Rightarrow> MTCDecoder" where
  "advance p \<delta> w d b =
     (mtc_sequence (int (piece_of b)) d)
       \<lparr>dNibbles := (dNibbles d)[piece_of b := nibble_of b],
        dSeen := dSeen d OR push_bit (piece_of b) 1,
        dLastPiece := int (piece_of b)\<rparr>"

lemma advance_facts:
  assumes s: "run_state p \<delta> w d" and b: "piece_of b = pos p \<delta> (length w)"
  defines "d' \<equiv> advance p \<delta> w d b"
  shows "length (dNibbles d') = 8"
    and "i < length (w @ [b]) \<Longrightarrow>
          piece_of ((w @ [b]) ! i) = pos p \<delta> i \<and> dNibbles d' ! pos p \<delta> i = nibble_of ((w @ [b]) ! i)"
    and "q < 8 \<Longrightarrow> bit (dSeen d') q \<longleftrightarrow> (\<exists>i<length (w @ [b]). q = pos p \<delta> i)"
    and "dLastPiece d' = int (pos p \<delta> (length w))"
    and "dDirection d' = (if w = [] then 0 else if \<delta> = 1 then 1 else - 1)"
proof -
  have d: "dir \<delta>" and n: "length (dNibbles d) = 8" and w: "length w \<le> 7"
    and r: "\<forall>i<length w. piece_of (w ! i) = pos p \<delta> i \<and> dNibbles d ! pos p \<delta> i = nibble_of (w ! i)"
    and q: "\<forall>q<8. bit (dSeen d) q \<longleftrightarrow> (\<exists>i<length w. q = pos p \<delta> i)"
    using s by (simp_all add: run_state_def)
  show "length (dNibbles d') = 8" using n by (simp add: d'_def advance_def)
  show "dLastPiece d' = int (pos p \<delta> (length w))" using b by (simp add: d'_def advance_def)
  show "dDirection d' = (if w = [] then 0 else if \<delta> = 1 then 1 else - 1)"
    using sequence_continue [OF s b] by (simp add: d'_def advance_def)
  show "bit (dSeen d') q \<longleftrightarrow> (\<exists>i<length (w @ [b]). q = pos p \<delta> i)" if "q < 8" for q
  proof -
    have "bit (dSeen d') q \<longleftrightarrow> bit (dSeen d) q \<or> q = pos p \<delta> (length w)"
      using b by (simp add: d'_def advance_def byte_bit_insert sequence_continue [OF s b])
    with q that show ?thesis by (auto simp: less_Suc_eq)
  qed
  show "piece_of ((w @ [b]) ! i) = pos p \<delta> i \<and> dNibbles d' ! pos p \<delta> i = nibble_of ((w @ [b]) ! i)"
    if i: "i < length (w @ [b])" for i
  proof (cases "i = length w")
    case True
    then show ?thesis using b n by (simp add: d'_def advance_def)
  next
    case False
    then have "i < length w" using i by simp
    moreover from this have "pos p \<delta> i \<noteq> pos p \<delta> (length w)" using pos_inj [OF d] w by simp
    ultimately show ?thesis using r b n by (simp add: d'_def advance_def nth_append)
  qed
qed

text \<open>A run of fewer than eight pieces is pending; the eighth yields the timecode its nibbles spell.\<close>

lemma push_advance:
  assumes s: "run_state p \<delta> w d" and b: "piece_of b = pos p \<delta> (length w)"
  shows "mtc_Push d b =
    (let d' = advance p \<delta> w d b
     in if length w < 7 then (d', MtcPending)
        else case ValidateTimecode (assemble (dNibbles d')) of
               Some e \<Rightarrow> (mtc_Reset d', MtcError e)
             | None \<Rightarrow> (d'\<lparr>dSeen := 0\<rparr>, MtcTimecode (assemble (dNibbles d'))))"
proof -
  have d: "dir \<delta>" and w: "length w \<le> 7" using s by (simp_all add: run_state_def)
  let ?s = "mtc_sequence (int (piece_of b)) d"
  have e: "dNibbles ?s = dNibbles d" "dSeen ?s = dSeen d"
    unfolding sequence_continue [OF s b] by simp_all
  have full: "dSeen (advance p \<delta> w d b) = 0xFF \<longleftrightarrow> length w = 7"
  proof
    assume "dSeen (advance p \<delta> w d b) = 0xFF"
    then have all: "\<forall>q<8. \<exists>i<length (w @ [b]). q = pos p \<delta> i"
      using advance_facts(3) [OF s b] byte_full_iff by blast
    show "length w = 7"
    proof (rule ccontr)
      assume "length w \<noteq> 7"
      with w have "length w < 7" by simp
      moreover obtain i where "i < length (w @ [b])" "pos p \<delta> 7 = pos p \<delta> i" using all pos_less by metis
      ultimately show False using pos_inj [OF d, of 7 i p] by simp
    qed
  next
    assume "length w = 7"
    then have "length (w @ [b]) = 8" by simp
    then have "\<forall>q<8. \<exists>i<length (w @ [b]). q = pos p \<delta> i" using pos_onto [OF d, of _ p] by metis
    then show "dSeen (advance p \<delta> w d b) = 0xFF"
      using advance_facts(3) [OF s b] byte_full_iff by blast
  qed
  have "length w < 7 \<longleftrightarrow> length w \<noteq> 7" using w by auto
  then show ?thesis
    using full unfolding mtc_Push_def advance_def Let_def e by simp
qed

lemma push_pending:
  assumes s: "run_state p \<delta> w d" and b: "piece_of b = pos p \<delta> (length w)" and w: "length w < 7"
  shows "\<exists>d'. mtc_Push d b = (d', MtcPending) \<and> run_state p \<delta> (w @ [b]) d'"
proof -
  have "dir \<delta>" using s by (simp add: run_state_def)
  then have "run_state p \<delta> (w @ [b]) (advance p \<delta> w d b)"
    using advance_facts [OF s b] w by (simp add: run_state_def Suc_le_eq) auto
  with push_advance [OF s b] w show ?thesis by (simp add: Let_def)
qed

text \<open>Eight nibbles by piece, as a run of eight quarter frames spells them.\<close>

definition spells :: "byte list \<Rightarrow> byte list \<Rightarrow> bool" where
  "spells ws ns \<longleftrightarrow> length ns = 8 \<and> (\<forall>b\<in>set ws. ns ! piece_of b = nibble_of b)"

lemma push_complete:
  assumes s: "run_state p \<delta> w d" and b: "piece_of b = pos p \<delta> (length w)" and w: "length w = 7"
  shows "\<exists>d' ns. spells (w @ [b]) ns \<and> length (dNibbles d') = 8 \<and> dSeen d' = 0
    \<and> mtc_Push d b = (d', case ValidateTimecode (assemble ns) of Some e \<Rightarrow> MtcError e
                                                              | None \<Rightarrow> MtcTimecode (assemble ns))"
proof -
  let ?d = "advance p \<delta> w d b"
  have "spells (w @ [b]) (dNibbles ?d)"
    unfolding spells_def using advance_facts(1,2) [OF s b] by (metis in_set_conv_nth)
  moreover have "length (dNibbles (mtc_Reset ?d)) = 8 \<and> dSeen (mtc_Reset ?d) = 0"
    "length (dNibbles (?d\<lparr>dSeen := 0\<rparr>)) = 8"
    using advance_facts(1) [OF s b] by (simp_all add: mtc_Reset_def)
  ultimately show ?thesis
    using push_advance [OF s b] w
    by (cases "ValidateTimecode (assemble (dNibbles ?d))") (force simp: Let_def)+
qed

text \<open>A quarter frame out of sequence starts a new run.\<close>

lemma push_restart:
  assumes s: "run_state p \<delta> w d" and w: "w \<noteq> []" and b: "piece_of b \<noteq> pos p \<delta> (length w)"
    and turn: "length w = 1 \<Longrightarrow> piece_of b \<noteq> pos p (if \<delta> = 1 then 7 else 1) 1"
  shows "\<exists>d'. mtc_Push d b = (d', MtcPending) \<and> run_state (piece_of b) 1 [b] d'"
proof -
  obtain m where m: "length w = Suc m" using w by (cases "length w") auto
  have d: "dir \<delta>" and n: "length (dNibbles d) = 8" and l: "dLastPiece d = int (pos p \<delta> m)"
    using s m w by (auto simp: run_state_def)
  define x where "x = pos p \<delta> m"
  have fw: "(int x + 1) AND 7 = int ((x + 1) mod 8)" "(int x + 7) AND 7 = int ((x + 7) mod 8)"
    by (simp_all add: and7_mod8 zmod_int add.commute)
  have ne: "piece_of b \<noteq> (if \<delta> = 1 then (x + 1) mod 8 else (x + 7) mod 8)"
    using b unfolding m pos_Suc [OF d] x_def .
  have ne': "piece_of b \<noteq> (if \<delta> = 1 then (x + 7) mod 8 else (x + 1) mod 8)" if "m = 0"
    using turn m that d pos_Suc [of "if \<delta> = 1 then 7 else 1" p 0] by (auto simp: dir_def x_def pos_def)
  have dr: "dDirection d = (if m = 0 then 0 else if \<delta> = 1 then 1 else - 1)"
    using s m by (cases m) (auto simp: run_state_def)
  have sq: "mtc_sequence (int (piece_of b)) d = (mtc_Reset d)\<lparr>dLastPiece := int (piece_of b)\<rparr>"
    using run_state_seen [OF s] w d ne ne' dr l
    by (auto simp: mtc_sequence_def Let_def fw dir_def x_def [symmetric])
  have one: "(push_bit (piece_of b) 1 :: byte) \<noteq> 0xFF"
  proof
    assume f: "(push_bit (piece_of b) 1 :: byte) = 0xFF"
    then have "bit (push_bit (piece_of b) 1 :: byte) ((piece_of b + 1) mod 8)"
      using byte_full_iff [of "push_bit (piece_of b) 1"] by simp
    then have "(piece_of b + 1) mod 8 = piece_of b"
      using byte_bit_insert [of "piece_of b" 0] by simp
    then show False using piece_of_less [of b] by presburger
  qed
  let ?d = "(mtc_Reset d)\<lparr>dLastPiece := int (piece_of b), dNibbles := (dNibbles d)[piece_of b := nibble_of b],
      dSeen := push_bit (piece_of b) 1\<rparr>"
  have "mtc_Push d b = (?d, MtcPending)"
    using one by (simp add: mtc_Push_def Let_def sq mtc_Reset_def)
  moreover have "run_state (piece_of b) 1 [b] ?d"
    using n byte_bit_insert [of "piece_of b" 0]
    by (auto simp: run_state_def dir_def mtc_Reset_def pos_def)
  ultimately show ?thesis by blast
qed

text \<open>So the decoder always holds a run that ends its input.\<close>

definition holds_run :: "byte list \<Rightarrow> MTCDecoder \<Rightarrow> bool" where
  "holds_run bs d \<longleftrightarrow> (\<exists>u w p \<delta>. bs = u @ w \<and> run_state p \<delta> w d)"

lemma push_holds_run:
  assumes h: "holds_run bs d"
  shows "holds_run (bs @ [b]) (fst (mtc_Push d b))
    \<and> (\<forall>tc. snd (mtc_Push d b) = MtcTimecode tc \<longrightarrow>
        (\<exists>u w p \<delta> ns. bs @ [b] = u @ w \<and> length w = 8 \<and> dir \<delta>
           \<and> (\<forall>i<8. piece_of (w ! i) = pos p \<delta> i) \<and> spells w ns \<and> tc = assemble ns
           \<and> ValidateTimecode tc = None))"
proof -
  obtain u w p \<delta> where bs: "bs = u @ w" and s: "run_state p \<delta> w d" using h by (auto simp: holds_run_def)
  have key: ?thesis if s: "run_state p \<delta> w d" and b: "piece_of b = pos p \<delta> (length w)" for p \<delta>
  proof (cases "length w < 7")
    case True
    then obtain d' where d': "mtc_Push d b = (d', MtcPending)" "run_state p \<delta> (w @ [b]) d'"
      using push_pending [OF s b] by blast
    then have "holds_run (bs @ [b]) d'" unfolding holds_run_def bs by (metis append.assoc)
    with d' show ?thesis by simp
  next
    case False
    moreover have d: "dir \<delta>" and "length w \<le> 7" using s by (simp_all add: run_state_def)
    ultimately have w: "length w = 7" by simp
    obtain d' ns where c: "spells (w @ [b]) ns" "length (dNibbles d') = 8" "dSeen d' = 0"
      "mtc_Push d b = (d', case ValidateTimecode (assemble ns) of Some e \<Rightarrow> MtcError e
                                                              | None \<Rightarrow> MtcTimecode (assemble ns))"
      using push_complete [OF s b w] by blast
    have "holds_run (bs @ [b]) d'"
      unfolding holds_run_def using run_state_idle [OF d c(2,3)] by (metis append_Nil2)
    moreover have "\<forall>i<8. piece_of ((w @ [b]) ! i) = pos p \<delta> i"
      using advance_facts(2) [OF s b] w by simp
    moreover have "bs @ [b] = u @ (w @ [b])" "length (w @ [b]) = 8" using bs w by simp_all
    moreover have "snd (mtc_Push d b) = MtcTimecode tc \<Longrightarrow> tc = assemble ns \<and> ValidateTimecode tc = None" for tc
      using c(4) by (auto split: option.splits)
    ultimately show ?thesis using c(1,4) d by (metis fst_conv)
  qed
  show ?thesis
  proof (cases "w = []")
    case True
    then show ?thesis
      using key [of "piece_of b" \<delta>] s by (simp add: run_state_def pos_def)
  next
    case False
    show ?thesis
    proof (cases "piece_of b = pos p \<delta> (length w)")
      case True
      then show ?thesis using key s by blast
    next
      case nb: False
      show ?thesis
      proof (cases "length w = 1 \<and> piece_of b = pos p (if \<delta> = 1 then 7 else 1) 1")
        case True
        then obtain a where a: "w = [a]" by (auto simp: length_Suc_conv)
        show ?thesis
          by (rule key [OF run_state_turn [of p \<delta> a d "if \<delta> = 1 then 7 else 1", folded a]])
            (use s True a in \<open>auto simp: dir_def\<close>)
      next
        case r: False
        then obtain d' where d': "mtc_Push d b = (d', MtcPending)" "run_state (piece_of b) 1 [b] d'"
          using push_restart [OF s False nb] by blast
        then have "holds_run (bs @ [b]) d'" unfolding holds_run_def by blast
        with d' show ?thesis by simp
      qed
    qed
  qed
qed

lemma run_holds_run:
  "holds_run bs0 d \<Longrightarrow> mtc_run d bs = (d', outs) \<Longrightarrow> holds_run (bs0 @ bs) d'"
proof (induction bs arbitrary: bs0 d outs)
  case Nil
  then show ?case by simp
next
  case (Cons b bs)
  obtain d1 r where p: "mtc_Push d b = (d1, r)" by fastforce
  obtain outs1 where q: "mtc_run d1 bs = (d', outs1)"
    using Cons.prems(2) p by (auto simp: Let_def split: prod.splits)
  have "holds_run (bs0 @ [b]) d1" using push_holds_run [OF Cons.prems(1), of b] p by simp
  from Cons.IH [OF this q] show ?case by simp
qed

lemma new_holds_run: "holds_run [] newMTCDecoder"
  using run_state_idle [of 1 newMTCDecoder] by (auto simp: holds_run_def newMTCDecoder_def dir_def)

section \<open>What the decoder emits\<close>

text \<open>
  Whatever bytes arrive, the decoder emits a timecode only when the last eight quarter frames
  are eight consecutive pieces in one direction, and the timecode is valid and is spelled by the
  nibbles of exactly those eight.
\<close>

theorem mtc_emits_runs:
  assumes run: "mtc_run newMTCDecoder bs = (d, outs)" and e: "mtc_Push d b = (d', MtcTimecode tc)"
  shows "\<exists>u w p \<delta> ns. bs @ [b] = u @ w \<and> length w = 8 \<and> (\<delta> = 1 \<or> \<delta> = 7)
           \<and> (\<forall>i<8. piece_of (w ! i) = (p + \<delta> * i) mod 8)
           \<and> length ns = 8 \<and> (\<forall>x\<in>set w. ns ! piece_of x = nibble_of x)
           \<and> tc = assemble ns \<and> ValidateTimecode tc = None"
proof -
  have "holds_run bs d" using run_holds_run [OF new_holds_run run] by simp
  from push_holds_run [OF this, of b] e show ?thesis
    by (simp add: spells_def dir_def pos_def)
qed

lemma mtc_emits_runs_witness:
  "\<exists>u w p \<delta> ns. [0x00, 0x10, 0x21, 0x30, 0x42, 0x50, 0x63, 0x76] = u @ w \<and> length w = 8 \<and> (\<delta> = 1 \<or> \<delta> = 7)
     \<and> (\<forall>i<8. piece_of (w ! i) = (p + \<delta> * i) mod 8)
     \<and> length ns = 8 \<and> (\<forall>x\<in>set w. ns ! piece_of x = nibble_of x)
     \<and> \<lparr>tcHours = 3, tcMinutes = 2, tcSeconds = 1, tcFrames = 0, tcRate = Rate30\<rparr> = assemble ns
     \<and> ValidateTimecode \<lparr>tcHours = 3, tcMinutes = 2, tcSeconds = 1, tcFrames = 0, tcRate = Rate30\<rparr> = None"
proof -
  let ?bs = "[0x00, 0x10, 0x21, 0x30, 0x42, 0x50, 0x63] :: byte list"
  let ?r = "mtc_run newMTCDecoder ?bs"
  have "snd (mtc_Push (fst ?r) 0x76)
      = MtcTimecode \<lparr>tcHours = 3, tcMinutes = 2, tcSeconds = 1, tcFrames = 0, tcRate = Rate30\<rparr>"
    by code_simp
  then have "mtc_Push (fst ?r) 0x76
      = (fst (mtc_Push (fst ?r) 0x76), MtcTimecode \<lparr>tcHours = 3, tcMinutes = 2, tcSeconds = 1, tcFrames = 0, tcRate = Rate30\<rparr>)"
    by (metis prod.collapse)
  from mtc_emits_runs [OF prod.collapse [symmetric] this] show ?thesis by simp
qed

section \<open>Quarter frames of a timecode\<close>

lemma mtc_run_append:
  "mtc_run d (xs @ ys) = (let (d', r) = mtc_run d xs; (d'', r') = mtc_run d' ys in (d'', r @ r'))"
  by (induction xs arbitrary: d) (auto simp: Let_def split: prod.splits)

lemma run_pending:
  assumes "run_state p \<delta> w d" "length (w @ vs) \<le> 7"
    and "\<forall>i<length vs. piece_of (vs ! i) = pos p \<delta> (length w + i)"
  shows "\<exists>d'. mtc_run d vs = (d', replicate (length vs) MtcPending) \<and> run_state p \<delta> (w @ vs) d'"
  using assms
proof (induction vs arbitrary: w d)
  case Nil
  then show ?case by simp
next
  case (Cons v vs)
  obtain d1 where d1: "mtc_Push d v = (d1, MtcPending)" "run_state p \<delta> (w @ [v]) d1"
    using push_pending [OF Cons.prems(1), of v] Cons.prems(2,3) by fastforce
  have "\<forall>i<length vs. piece_of (vs ! i) = pos p \<delta> (length (w @ [v]) + i)"
    using Cons.prems(3) by (metis (no_types, lifting) Suc_less_eq add_Suc_right add_Suc length_append_singleton
        length_Cons nth_Cons_Suc)
  with Cons.IH [OF d1(2)] Cons.prems(2) d1 show ?case by fastforce
qed

lemma run_of_eight:
  assumes d: "dSeen d = 0" "length (dNibbles d) = 8" and w: "length w = 8" and \<delta>: "dir \<delta>"
    and p: "\<forall>i<8. piece_of (w ! i) = pos p \<delta> i"
  shows "\<exists>d' ns. mtc_run d w = (d', replicate 7 MtcPending @
           [case ValidateTimecode (assemble ns) of Some e \<Rightarrow> MtcError e | None \<Rightarrow> MtcTimecode (assemble ns)])
         \<and> spells w ns \<and> dSeen d' = 0 \<and> length (dNibbles d') = 8"
proof -
  obtain vs b where v: "w = vs @ [b]" "length vs = 7" using w by (cases w rule: rev_cases) auto
  have vp: "\<forall>i<length vs. piece_of (vs ! i) = pos p \<delta> (length [] + i)"
  proof (intro allI impI)
    fix i assume "i < length vs"
    then show "piece_of (vs ! i) = pos p \<delta> (length [] + i)"
      using p [rule_format, of i] v by (simp add: nth_append)
  qed
  have vb: "piece_of b = pos p \<delta> (length vs)"
    using p [rule_format, of 7] v by (simp add: nth_append)
  obtain d7 where d7: "mtc_run d vs = (d7, replicate 7 MtcPending)" "run_state p \<delta> vs d7"
    using run_pending [OF run_state_idle [OF \<delta> d(2,1)] _ vp] v by auto
  from push_complete [OF d7(2) vb v(2)] d7(1) v show ?thesis
    by (auto simp: mtc_run_append)
qed

text \<open>The eight nibbles of a timecode whose rate has the MTC code \<open>rc\<close>.\<close>

definition tc_nibbles :: "Timecode \<Rightarrow> byte \<Rightarrow> byte list" where
  "tc_nibbles tc rc =
     (let fr = word_of_int (tcFrames tc); se = word_of_int (tcSeconds tc);
          mi = word_of_int (tcMinutes tc); ho = word_of_int (tcHours tc)
      in [fr AND 0x0F, drop_bit 4 fr AND 0x01, se AND 0x0F, drop_bit 4 se AND 0x03,
          mi AND 0x0F, drop_bit 4 mi AND 0x03, ho AND 0x0F, (drop_bit 4 ho AND 0x01) OR push_bit 1 (rc AND 0x03)])"

text \<open>Checked for every value a field of a valid timecode can have.\<close>

lemma field_nibbles_all:
  "list_all (\<lambda>x. let a = word_of_int x :: byte; l = a AND 0x0F; h = drop_bit 4 a AND 0x03; h1 = drop_bit 4 a AND 0x01
      in l < 16 \<and> h < 16 \<and> h1 < 16 \<and> uint (l OR push_bit 4 (h AND 0x03)) = x
         \<and> (x < 30 \<longrightarrow> uint (l OR push_bit 4 (h1 AND 0x01)) = x)) [0..59]"
  by code_simp

lemma hour_nibbles_all:
  "list_all (\<lambda>x. list_all (\<lambda>rc. let a = word_of_int x :: byte; n7 = (drop_bit 4 a AND 0x01) OR push_bit 1 (rc AND 0x03)
      in a AND 0x0F < 16 \<and> n7 < 16 \<and> uint ((a AND 0x0F) OR push_bit 4 (n7 AND 0x01)) = x \<and> drop_bit 1 n7 AND 0x03 = rc)
      [0, 1, 2, 3]) [0..23]"
  by code_simp

lemma quarter_frame_parts_all:
  "list_all (\<lambda>i. list_all (\<lambda>n. piece_of (word_of_nat (i * 16) OR word_of_nat n) = i
     \<and> nibble_of (word_of_nat (i * 16) OR word_of_nat n) = word_of_nat n) [0..<16]) [0..<8]"
  by code_simp

lemma quarter_frame_parts:
  assumes "i < 8" "n < (16 :: byte)"
  shows "piece_of (word_of_nat (i * 16) OR n) = i" "nibble_of (word_of_nat (i * 16) OR n) = n"
proof -
  have "unat n < 16" using assms(2) by (simp add: word_less_nat_alt)
  then have "unat n \<in> set [0..<16]" "i \<in> set [0..<8]" using assms(1) by simp_all
  with quarter_frame_parts_all
  have "piece_of (word_of_nat (i * 16) OR word_of_nat (unat n)) = i
     \<and> nibble_of (word_of_nat (i * 16) OR word_of_nat (unat n)) = (word_of_nat (unat n) :: byte)"
    unfolding list_all_iff by blast
  then show "piece_of (word_of_nat (i * 16) OR n) = i" "nibble_of (word_of_nat (i * 16) OR n) = n" by simp_all
qed

lemma encode_facts:
  assumes e: "EncodeMTCQuarterFrame tc = Inr out"
  obtains rc where "ValidateTimecode tc = None" "length out = 8" "MTCCode (tcRate tc) = Some rc"
    "\<forall>i<8. piece_of (out ! i) = i \<and> nibble_of (out ! i) = tc_nibbles tc rc ! i"
    "length (tc_nibbles tc rc) = 8" "assemble (tc_nibbles tc rc) = tc"
proof -
  have v: "ValidateTimecode tc = None" using e by (simp add: EncodeMTCQuarterFrame_def split: option.splits)
  obtain rc where rc: "MTCCode (tcRate tc) = Some rc"
    using e v by (auto simp: EncodeMTCQuarterFrame_def split: option.splits)
  have out: "out = map (\<lambda>i. word_of_nat (i * 16) OR tc_nibbles tc rc ! i) [0..<8]"
    using e v rc by (simp add: EncodeMTCQuarterFrame_def tc_nibbles_def Let_def)
  have rcs: "rc \<in> set [0, 1, 2, 3]" "RateFromMTCCode rc = tcRate tc" "rNominalFPS (tcRate tc) \<le> 30"
    using rc by (auto simp: MTCCode_def RateFromMTCCode_def rate_defs mk_rate_def split: if_splits)
  note b = valid_bounds [OF v]
  have in': "tcFrames tc \<in> set [0..59]" "tcSeconds tc \<in> set [0..59]" "tcMinutes tc \<in> set [0..59]" "tcHours tc \<in> set [0..23]"
    "tcFrames tc < 30"
    using b rcs(3) by simp_all
  note f = field_nibbles_all [unfolded list_all_iff Let_def, rule_format]
  note h = hour_nibbles_all [unfolded list_all_iff Let_def, rule_format, OF in'(4) rcs(1)]
  note ff = f [OF in'(1)] f [OF in'(2)] f [OF in'(3)]
  have l: "length (tc_nibbles tc rc) = 8" by (simp add: tc_nibbles_def Let_def)
  have "list_all (\<lambda>n. n < 16) (tc_nibbles tc rc)"
    unfolding tc_nibbles_def Let_def list.pred_inject(2) using ff h by (intro conjI list.pred_inject(1) TrueI) blast+
  then have small: "\<forall>i<8. tc_nibbles tc rc ! i < 16" using l by (simp add: list_all_length)
  have p: "\<forall>i<8. piece_of (out ! i) = i \<and> nibble_of (out ! i) = tc_nibbles tc rc ! i"
  proof (intro allI impI)
    fix i :: nat assume i: "i < 8"
    have "out ! i = word_of_nat (i * 16) OR tc_nibbles tc rc ! i" using i by (simp add: out)
    then show "piece_of (out ! i) = i \<and> nibble_of (out ! i) = tc_nibbles tc rc ! i"
      using quarter_frame_parts [OF i small [rule_format, OF i]] by (simp only: simp_thms)
  qed
  have "assemble (tc_nibbles tc rc) = tc"
  proof -
    have n: "tc_nibbles tc rc ! 0 = word_of_int (tcFrames tc) AND 0x0F"
      "tc_nibbles tc rc ! 1 = drop_bit 4 (word_of_int (tcFrames tc)) AND 0x01"
      "tc_nibbles tc rc ! 2 = word_of_int (tcSeconds tc) AND 0x0F"
      "tc_nibbles tc rc ! 3 = drop_bit 4 (word_of_int (tcSeconds tc)) AND 0x03"
      "tc_nibbles tc rc ! 4 = word_of_int (tcMinutes tc) AND 0x0F"
      "tc_nibbles tc rc ! 5 = drop_bit 4 (word_of_int (tcMinutes tc)) AND 0x03"
      "tc_nibbles tc rc ! 6 = word_of_int (tcHours tc) AND 0x0F"
      "tc_nibbles tc rc ! 7 = (drop_bit 4 (word_of_int (tcHours tc)) AND 0x01) OR push_bit 1 (rc AND 0x03)"
      unfolding tc_nibbles_def Let_def by (simp_all only: nth_Cons_0 nth_Cons_numeral nth_Cons' One_nat_def numeral_eq_Suc
          pred_numeral_simps BitM.simps) simp_all
    have "tcHours (assemble (tc_nibbles tc rc)) = tcHours tc" "tcMinutes (assemble (tc_nibbles tc rc)) = tcMinutes tc"
      "tcSeconds (assemble (tc_nibbles tc rc)) = tcSeconds tc" "tcFrames (assemble (tc_nibbles tc rc)) = tcFrames tc"
      "tcRate (assemble (tc_nibbles tc rc)) = tcRate tc"
      unfolding assemble_def Timecode.select_convs n using ff h in'(5) rcs(2) by (simp_all only:)
    then show ?thesis by simp
  qed
  with v l rc p out show ?thesis by (intro that [of rc]) simp_all
qed


lemma spells_unique:
  assumes "spells w ns" "length ms = 8" "length w = 8" "\<forall>q<8. \<exists>b\<in>set w. piece_of b = q \<and> nibble_of b = ms ! q"
  shows "ns = ms"
  using assms by (intro nth_equalityI) (auto simp: spells_def)

text \<open>
  The eight quarter frames of a timecode, sent from the first to the last or in reverse to a
  decoder between timecodes, are decoded to that timecode with the last of them, and leave the
  decoder between timecodes again.
\<close>

theorem mtc_roundtrip:
  assumes e: "EncodeMTCQuarterFrame tc = Inr out"
    and d: "dSeen d = 0" "length (dNibbles d) = 8"
    and w: "w = out \<or> w = rev out"
  shows "\<exists>d'. mtc_run d w = (d', replicate 7 MtcPending @ [MtcTimecode tc])
           \<and> dSeen d' = 0 \<and> length (dNibbles d') = 8"
proof -
  obtain rc where f: "ValidateTimecode tc = None" "length out = 8"
    "\<forall>i<8. piece_of (out ! i) = i \<and> nibble_of (out ! i) = tc_nibbles tc rc ! i"
    "length (tc_nibbles tc rc) = 8" "assemble (tc_nibbles tc rc) = tc"
    using encode_facts [OF e] by metis
  have w8: "length w = 8" "set w = set out" using w f(2) by auto
  have "\<exists>p \<delta>. dir \<delta> \<and> (\<forall>i<8. piece_of (w ! i) = pos p \<delta> i)"
    using w
  proof
    assume "w = out"
    then show ?thesis using f(3) by (intro exI [of _ 0] exI [of _ 1]) (simp add: dir_def pos_def)
  next
    assume r: "w = rev out"
    have "(7 + 7 * i) mod 8 = 7 - i" if "i < 8" for i :: nat
    proof -
      have "7 + 7 * i = (7 - i) + 8 * i" using that by simp
      then show ?thesis by (simp only: mod_mult_self2) simp
    qed
    then show ?thesis using r f(2,3) by (intro exI [of _ 7] exI [of _ 7]) (simp add: dir_def pos_def rev_nth)
  qed
  then obtain p \<delta> where pd: "dir \<delta>" "\<forall>i<8. piece_of (w ! i) = pos p \<delta> i" by blast
  obtain d' ns where r: "mtc_run d w = (d', replicate 7 MtcPending @
           [case ValidateTimecode (assemble ns) of Some e \<Rightarrow> MtcError e | None \<Rightarrow> MtcTimecode (assemble ns)])"
    "spells w ns" "dSeen d' = 0" "length (dNibbles d') = 8"
    using run_of_eight [OF d w8(1) pd] by blast
  have "ns = tc_nibbles tc rc"
    by (rule spells_unique [OF r(2) f(4) w8(1)]) (use f(2,3) w8(2) nth_mem in metis)
  then show ?thesis using r f by simp
qed

lemma mtc_roundtrip_witness:
  "\<exists>d'. mtc_run newMTCDecoder (rev [0x0C, 0x11, 0x2B, 0x33, 0x49, 0x53, 0x67, 0x75])
      = (d', replicate 7 MtcPending
           @ [MtcTimecode \<lparr>tcHours = 23, tcMinutes = 57, tcSeconds = 59, tcFrames = 28, tcRate = Rate2997Drop\<rparr>])
    \<and> dSeen d' = 0 \<and> length (dNibbles d') = 8"
proof -
  let ?tc = "\<lparr>tcHours = 23, tcMinutes = 57, tcSeconds = 59, tcFrames = 28, tcRate = Rate2997Drop\<rparr>"
  have e: "EncodeMTCQuarterFrame ?tc = Inr [0x0C, 0x11, 0x2B, 0x33, 0x49, 0x53, 0x67, 0x75]"
    and d: "dSeen newMTCDecoder = 0" "length (dNibbles newMTCDecoder) = 8"
    by code_simp+
  show ?thesis by (rule mtc_roundtrip [OF e d disjI2]) (rule refl)
qed

text \<open>
  A receiver that joins a stream in the middle of a timecode does not wait for its first
  quarter frame: after pieces 4 to 7 of one timecode and 0 to 3 of the next it emits the hours and
  minutes of the first with the seconds and frames of the second, and stands in the middle of the
  next timecode again, so every later timecode is torn the same way.
\<close>

theorem mtc_torn:
  assumes e: "EncodeMTCQuarterFrame tc1 = Inr out1" "EncodeMTCQuarterFrame tc2 = Inr out2"
    and same: "tcRate tc1 = tcRate tc2"
    and d: "dSeen d = 0" "length (dNibbles d) = 8"
    and torn: "torn = tc2\<lparr>tcHours := tcHours tc1, tcMinutes := tcMinutes tc1\<rparr>"
    and v: "ValidateTimecode torn = None"
  shows "\<exists>d'. mtc_run d (drop 4 out1 @ take 4 out2) = (d', replicate 7 MtcPending @ [MtcTimecode torn])
           \<and> dSeen d' = 0 \<and> length (dNibbles d') = 8"
proof -
  obtain rc where f: "length out1 = 8" "MTCCode (tcRate tc1) = Some rc"
    "\<forall>i<8. piece_of (out1 ! i) = i \<and> nibble_of (out1 ! i) = tc_nibbles tc1 rc ! i"
    using encode_facts [OF e(1)] by metis
  have "\<exists>rc'. length out2 = 8 \<and> MTCCode (tcRate tc2) = Some rc'
    \<and> (\<forall>i<8. piece_of (out2 ! i) = i \<and> nibble_of (out2 ! i) = tc_nibbles tc2 rc' ! i)"
    using encode_facts [OF e(2)] by metis
  then have g: "length out2 = 8" "\<forall>i<8. piece_of (out2 ! i) = i \<and> nibble_of (out2 ! i) = tc_nibbles tc2 rc ! i"
    using same f(2) by auto
  have "tcRate torn = tcRate tc1" using same torn by simp
  then obtain outt where "EncodeMTCQuarterFrame torn = Inr outt"
    using v f(2) by (simp add: EncodeMTCQuarterFrame_def Let_def)
  then obtain rct where "MTCCode (tcRate torn) = Some rct" "length (tc_nibbles torn rct) = 8"
      "assemble (tc_nibbles torn rct) = torn"
    using encode_facts by metis
  with f(2) \<open>tcRate torn = tcRate tc1\<close> have t: "length (tc_nibbles torn rc) = 8" "assemble (tc_nibbles torn rc) = torn" by auto
  have tn: "tc_nibbles torn rc = take 4 (tc_nibbles tc2 rc) @ drop 4 (tc_nibbles tc1 rc)"
    unfolding tc_nibbles_def Let_def torn by (simp add: numeral_eq_Suc)
  have ln: "length (tc_nibbles x rc) = 8" for x by (simp add: tc_nibbles_def Let_def)
  let ?w = "drop 4 out1 @ take 4 out2"
  have w8: "length ?w = 8" using f(1) g(1) by simp
  have wi: "?w ! i = (if i < 4 then out1 ! (i + 4) else out2 ! (i - 4))" if "i < 8" for i
    using that f(1) g(1) by (simp add: nth_append add.commute)
  have pd: "dir 1" "\<forall>i<8. piece_of (?w ! i) = pos 4 1 i"
  proof -
    show "\<forall>i<8. piece_of (?w ! i) = pos 4 1 i"
    proof (intro allI impI)
      fix i :: nat assume i: "i < 8"
      have "(if i < 4 then i + 4 else i - 4) = (4 + i) mod 8" using i by presburger
      then show "piece_of (?w ! i) = pos 4 1 i"
        using wi [OF i] f(3) g(2) i by (simp add: pos_def split: if_splits)
    qed
  qed (simp add: dir_def)
  obtain d' ns where r: "mtc_run d ?w = (d', replicate 7 MtcPending @
           [case ValidateTimecode (assemble ns) of Some e \<Rightarrow> MtcError e | None \<Rightarrow> MtcTimecode (assemble ns)])"
    "spells ?w ns" "dSeen d' = 0" "length (dNibbles d') = 8"
    using run_of_eight [OF d w8 pd] by blast
  have "ns = tc_nibbles torn rc"
  proof (rule spells_unique [OF r(2) t(1) w8], intro allI impI)
    fix q :: nat assume q: "q < 8"
    show "\<exists>b\<in>set ?w. piece_of b = q \<and> nibble_of b = tc_nibbles torn rc ! q"
    proof (cases "q < 4")
      case True
      then have "out2 ! q \<in> set (take 4 out2)" using g(1) by (auto simp: in_set_conv_nth intro!: exI [of _ q])
      then have "out2 ! q \<in> set ?w" by simp
      then show ?thesis using g True by (intro bexI [of _ "out2 ! q"]) (auto simp: tn nth_append ln)
    next
      case False
      then have "out1 ! q \<in> set (drop 4 out1)" using f(1) q by (auto simp: in_set_conv_nth intro!: exI [of _ "q - 4"])
      then have "out1 ! q \<in> set ?w" by simp
      then show ?thesis using f q False by (intro bexI [of _ "out1 ! q"]) (auto simp: tn nth_append ln)
    qed
  qed
  then show ?thesis using r t v by simp
qed


text \<open>At the turn of a minute the torn timecode is a minute away from both.\<close>

lemma mtc_torn_witness:
  "\<exists>d'. mtc_run newMTCDecoder ([0x40, 0x50, 0x60, 0x76] @ [0x00, 0x10, 0x20, 0x30])
      = (d', replicate 7 MtcPending
           @ [MtcTimecode \<lparr>tcHours = 0, tcMinutes = 0, tcSeconds = 0, tcFrames = 0, tcRate = Rate30\<rparr>])
    \<and> dSeen d' = 0 \<and> length (dNibbles d') = 8"
proof -
  let ?a = "\<lparr>tcHours = 0, tcMinutes = 0, tcSeconds = 59, tcFrames = 28, tcRate = Rate30\<rparr>"
  let ?b = "\<lparr>tcHours = 0, tcMinutes = 1, tcSeconds = 0, tcFrames = 0, tcRate = Rate30\<rparr>"
  let ?t = "\<lparr>tcHours = 0, tcMinutes = 0, tcSeconds = 0, tcFrames = 0, tcRate = Rate30\<rparr>"
  let ?x = "[0x0C, 0x11, 0x2B, 0x33, 0x40, 0x50, 0x60, 0x76] :: byte list"
  let ?y = "[0x00, 0x10, 0x20, 0x30, 0x41, 0x50, 0x60, 0x76] :: byte list"
  have e: "EncodeMTCQuarterFrame ?a = Inr ?x" "EncodeMTCQuarterFrame ?b = Inr ?y"
    and d: "dSeen newMTCDecoder = 0" "length (dNibbles newMTCDecoder) = 8"
    and v: "ValidateTimecode ?t = None"
    by code_simp+
  have s: "tcRate ?a = tcRate ?b" "?t = ?b\<lparr>tcHours := tcHours ?a, tcMinutes := tcMinutes ?a\<rparr>"
    "drop 4 ?x = [0x40, 0x50, 0x60, 0x76]" "take 4 ?y = [0x00, 0x10, 0x20, 0x30]" by simp_all
  show ?thesis using mtc_torn [OF e s(1) d s(2) v] unfolding s(3,4) .
qed

section \<open>The byte stream and the reminder\<close>

text \<open>
  System real-time bytes interleaved anywhere in the MIDI stream, even between a quarter-frame
  status and its data byte, do not change what the parser passes on.
\<close>

theorem midi_realtime_ignored:
  "midi_run a bs = midi_run a (filter (\<lambda>b. b < 0xF8) bs)"
proof (induction bs arbitrary: a)
  case Nil
  then show ?case by simp
next
  case (Cons b bs)
  show ?case
  proof (cases "b < 0xF8")
    case True
    then have "filter (\<lambda>b. b < 0xF8) (b # bs) = b # filter (\<lambda>b. b < 0xF8) bs" by simp
    moreover have "midi_run a (b # bs) = midi_run a (b # filter (\<lambda>b. b < 0xF8) bs)"
      using Cons.IH [of "fst (midi_Push a b)"]
      by (simp add: Let_def case_prod_unfold del: not_less split: option.split)
    ultimately show ?thesis by metis
  next
    case False
    then have "midi_Push a b = (a, None)" unfolding midi_Push_def not_less by (rule if_P)
    then have "midi_run a (b # bs) = midi_run a bs" by simp
    moreover have "filter (\<lambda>b. b < 0xF8) (b # bs) = filter (\<lambda>b. b < 0xF8) bs" using False by simp
    ultimately show ?thesis using Cons.IH by metis
  qed
qed

text \<open>An instant at or after the last warning plus the reminder is the earliest next warning.\<close>

lemma warn_spacing:
  assumes "shouldWarnUnavailable t1 i = (i1, True)" "\<not> is_zero t1" "shouldWarnUnavailable t2 i1 = (i2, True)"
  shows "time_sub t2 t1 \<ge> (if warningReminder i \<le> 0 then defaultMTCWarningReminder else warningReminder i)"
  using assms by (auto simp: shouldWarnUnavailable_def Let_def split: if_splits)

end
