(* ===== verification/CueGroup.thy ===== *)
theory CueGroup
  imports Prelude
begin

text \<open>
  Cues and cue groups: the manifest types of \<open>internal/snapshot/snapshot.go\<close>,
  \<open>internal/cuegroup/policy.go\<close> (the linked-cue policy, validation of a revision's links) and the
  group functions of \<open>internal/cueengine/group.go\<close> (\<open>resolveCueGroup\<close>, \<open>nestedCueIDs\<close>,
  \<open>linkedCueIDs\<close>, \<open>worseCueGroupResult\<close>). The execution policy of a cue is its JSON text; what
  \<open>json.Unmarshal\<close> makes of it is the parameter \<open>um\<close> (\<open>None\<close> is a decoding error).
\<close>

section \<open>Cues and policies\<close>

text \<open>\<open>CueHead\<close> holds the fields \<open>domain.Cue\<close> and \<open>snapshot.Cue\<close> share and the group code reads.\<close>

record CueHead =
  cueID :: string
  cueName :: string
  cueEnabled :: bool
  cueExecutionPolicy :: string

record Action =
  actID :: string
  actOrderIndex :: int
  actExecutionMode :: string
  actTargetRef :: string
  actCapabilityKey :: string
  actParameters :: string
  actTimeoutPolicy :: string
  actErrorPolicy :: string
  actPriorityClass :: string
  actEnabled :: bool

record Cue = CueHead +
  cueDisplayLabel :: string
  cueOrderIndex :: int
  cueType :: string
  cueCriticality :: string
  cueActions :: "Action list"

record Policy =
  LinkedCueIDs :: "string list"
  LinkedCueMode :: string
  StartDelayMS :: int

definition ModeTogether :: string where
  "ModeTogether = ''TOGETHER''"

definition MaxStartDelayMS :: int where
  "MaxStartDelayMS = 600000"

type_synonym policy_decoder = "string \<Rightarrow> Policy option"

datatype group_error =
    PolicyDecode | ListedTwice string | UnsupportedMode string | DelayRange
  | InCue string group_error
  | DisabledOwner string | SelfLink string | LinkUnknown string string | LinkDisabled string string
  | TwoParents string | CycleAt string
  | OutOfFuel

definition zero_policy :: Policy where
  "zero_policy = \<lparr>LinkedCueIDs = [], LinkedCueMode = [], StartDelayMS = 0\<rparr>"

text \<open>The loop of \<open>Parse\<close> over the linked ids: trimmed, blanks dropped, no id twice.\<close>

fun normalize_ids :: "string list \<Rightarrow> string list \<Rightarrow> group_error + string list" where
  "normalize_ids seen [] = Inr seen"
| "normalize_ids seen (x # xs) =
     (let i = trim_space x in
      if i = [] then normalize_ids seen xs
      else if i \<in> set seen then Inl (ListedTwice i)
      else normalize_ids (seen @ [i]) xs)"

definition ParsePolicy :: "policy_decoder \<Rightarrow> string \<Rightarrow> group_error + Policy" where
  "ParsePolicy um raw =
     (if raw = [] \<or> trim_space raw = [] then Inr zero_policy
      else case um raw of None \<Rightarrow> Inl PolicyDecode
      | Some policy \<Rightarrow>
        (case normalize_ids [] (LinkedCueIDs policy) of Inl e \<Rightarrow> Inl e
         | Inr ids \<Rightarrow>
           (let m0 = to_upper (trim_space (LinkedCueMode policy));
                mode = (if ids \<noteq> [] \<and> m0 = [] then ModeTogether else m0)
            in if mode \<noteq> [] \<and> mode \<noteq> ModeTogether then Inl (UnsupportedMode mode)
               else if StartDelayMS policy < 0 \<or> StartDelayMS policy > MaxStartDelayMS then Inl DelayRange
               else Inr (policy\<lparr>LinkedCueIDs := ids, LinkedCueMode := mode\<rparr>))))"

text \<open>A later cue with the same id replaces an earlier one.\<close>

definition by_id :: "('a CueHead_scheme) list \<Rightarrow> string \<Rightarrow> ('a CueHead_scheme) option" where
  "by_id cues = foldl (\<lambda>m c. m(cueID c \<mapsto> c)) Map.empty cues"

section \<open>Resolving a group\<close>

text \<open>
  The depth-first walk: \<open>state\<close> is 1 on the path to the current cue, 2 when a cue is done, 0
  otherwise; \<open>added\<close> is the set of cues in \<open>out\<close>. The recursion is bounded by fuel; one more than the
  number of cues is enough (\<open>walk_fuel\<close> below).
\<close>

record 'c walk =
  wState :: "string \<Rightarrow> nat"
  wAdded :: "string list"
  wOut :: "'c list"

definition walk_init :: "'c walk" where
  "walk_init = \<lparr>wState = (\<lambda>_. 0), wAdded = [], wOut = []\<rparr>"

definition enter_cue :: "('a CueHead_scheme) \<Rightarrow> ('a CueHead_scheme) walk \<Rightarrow> ('a CueHead_scheme) walk" where
  "enter_cue cue w =
     (let w1 = w\<lparr>wState := (wState w)(cueID cue := 1)\<rparr>
      in if cueID cue \<in> set (wAdded w1) then w1
         else w1\<lparr>wOut := wOut w1 @ [cue], wAdded := cueID cue # wAdded w1\<rparr>)"

definition leave_cue :: "('a CueHead_scheme) \<Rightarrow> ('a CueHead_scheme) walk \<Rightarrow> ('a CueHead_scheme) walk" where
  "leave_cue cue w = w\<lparr>wState := (wState w)(cueID cue := 2)\<rparr>"

fun visit_cue :: "policy_decoder \<Rightarrow> ('a CueHead_scheme) list \<Rightarrow> nat \<Rightarrow> 'a CueHead_scheme
    \<Rightarrow> ('a CueHead_scheme) walk \<Rightarrow> group_error + ('a CueHead_scheme) walk"
  and visit_children :: "policy_decoder \<Rightarrow> ('a CueHead_scheme) list \<Rightarrow> nat \<Rightarrow> 'a CueHead_scheme \<Rightarrow> string list
    \<Rightarrow> ('a CueHead_scheme) walk \<Rightarrow> group_error + ('a CueHead_scheme) walk" where
  "visit_cue um cues 0 cue w = Inl OutOfFuel"
| "visit_cue um cues (Suc n) cue w =
     (if wState w (cueID cue) = 1 then Inl (CycleAt (cueID cue))
      else if wState w (cueID cue) = 2 then Inr w
      else
        let w1 = enter_cue cue w
        in case ParsePolicy um (cueExecutionPolicy cue) of Inl e \<Rightarrow> Inl (InCue (cueName cue) e)
           | Inr policy \<Rightarrow>
             (case visit_children um cues n cue (LinkedCueIDs policy) w1 of Inl e \<Rightarrow> Inl e
              | Inr w2 \<Rightarrow> Inr (leave_cue cue w2)))"
| "visit_children um cues n cue [] w = Inr w"
| "visit_children um cues n cue (childID # ids) w =
     (case by_id cues childID of None \<Rightarrow> Inl (LinkUnknown (cueName cue) childID)
      | Some child \<Rightarrow>
        if \<not> cueEnabled child then Inl (LinkDisabled (cueName cue) (cueName child))
        else (case visit_cue um cues n child w of Inl e \<Rightarrow> Inl e
              | Inr w1 \<Rightarrow> visit_children um cues n cue ids w1))"

definition resolveCueGroup ::
  "policy_decoder \<Rightarrow> ('a CueHead_scheme) list \<Rightarrow> 'a CueHead_scheme \<Rightarrow> group_error + ('a CueHead_scheme) list" where
  "resolveCueGroup um cues rootCue =
     (case visit_cue um cues (Suc (length cues)) rootCue walk_init of Inl e \<Rightarrow> Inl e
      | Inr w \<Rightarrow> Inr (wOut w))"

definition linkedCueIDs :: "('a CueHead_scheme) list \<Rightarrow> string list" where
  "linkedCueIDs cs = (if length cs \<le> 1 then [] else map cueID (tl cs))"

section \<open>Nested cues\<close>

text \<open>The first loop of \<open>nestedCueIDs\<close>: the parent of every linked id, in the order of the links.\<close>

fun link_children :: "string \<Rightarrow> string list \<Rightarrow> (string \<Rightarrow> string option) \<Rightarrow> group_error + (string \<Rightarrow> string option)" where
  "link_children owner [] parent = Inr parent"
| "link_children owner (childID # ids) parent =
     (case parent childID of
        Some existing \<Rightarrow>
          (if existing \<noteq> owner then Inl (TwoParents childID)
           else link_children owner ids (parent(childID \<mapsto> owner)))
      | None \<Rightarrow> link_children owner ids (parent(childID \<mapsto> owner)))"

fun nested_links :: "policy_decoder \<Rightarrow> ('a CueHead_scheme) list \<Rightarrow> (string \<Rightarrow> string option)
    \<Rightarrow> group_error + (string \<Rightarrow> string option)" where
  "nested_links um [] parent = Inr parent"
| "nested_links um (cue # cues) parent =
     (case ParsePolicy um (cueExecutionPolicy cue) of Inl e \<Rightarrow> Inl (InCue (cueName cue) e)
      | Inr policy \<Rightarrow>
        (case link_children (cueID cue) (LinkedCueIDs policy) parent of Inl e \<Rightarrow> Inl e
         | Inr parent' \<Rightarrow> nested_links um cues parent'))"

fun resolve_all :: "policy_decoder \<Rightarrow> ('a CueHead_scheme) list \<Rightarrow> ('a CueHead_scheme) list \<Rightarrow> group_error option" where
  "resolve_all um cues [] = None"
| "resolve_all um cues (c # cs) =
     (case resolveCueGroup um cues c of Inl e \<Rightarrow> Some e | Inr _ \<Rightarrow> resolve_all um cues cs)"

text \<open>The result is the set of nested ids, as the predicate the Go map is used as.\<close>

definition nestedCueIDs :: "policy_decoder \<Rightarrow> ('a CueHead_scheme) list \<Rightarrow> group_error + (string \<Rightarrow> bool)" where
  "nestedCueIDs um cues =
     (case nested_links um cues Map.empty of Inl e \<Rightarrow> Inl e
      | Inr parent \<Rightarrow>
        (case resolve_all um cues cues of Some e \<Rightarrow> Inl e
         | None \<Rightarrow> Inr (\<lambda>i. parent i \<noteq> None)))"

section \<open>Validation of a revision\<close>

fun check_children :: "('a CueHead_scheme) list \<Rightarrow> 'a CueHead_scheme \<Rightarrow> string list
    \<Rightarrow> (string \<Rightarrow> string option) \<Rightarrow> group_error + (string \<Rightarrow> string option)" where
  "check_children cues cue [] parentOf = Inr parentOf"
| "check_children cues cue (childID # ids) parentOf =
     (if childID = cueID cue then Inl (SelfLink (cueName cue))
      else case by_id cues childID of None \<Rightarrow> Inl (LinkUnknown (cueName cue) childID)
      | Some child \<Rightarrow>
        if \<not> cueEnabled child then Inl (LinkDisabled (cueName cue) (cueName child))
        else if (case parentOf childID of Some p \<Rightarrow> p \<noteq> cueID cue | None \<Rightarrow> False)
        then Inl (TwoParents (cueName child))
        else check_children cues cue ids (parentOf(childID \<mapsto> cueID cue)))"

text \<open>The accumulator holds \<open>parentOf\<close> and the edges in the order they were appended.\<close>

fun check_links :: "policy_decoder \<Rightarrow> ('a CueHead_scheme) list \<Rightarrow> ('a CueHead_scheme) list
    \<Rightarrow> (string \<Rightarrow> string option) \<times> (string \<Rightarrow> string list)
    \<Rightarrow> group_error + (string \<Rightarrow> string option) \<times> (string \<Rightarrow> string list)" where
  "check_links um cues [] acc = Inr acc"
| "check_links um cues (cue # cs) acc =
     (case ParsePolicy um (cueExecutionPolicy cue) of Inl e \<Rightarrow> Inl (InCue (cueName cue) e)
      | Inr policy \<Rightarrow>
        if LinkedCueIDs policy \<noteq> [] \<and> \<not> cueEnabled cue then Inl (DisabledOwner (cueName cue))
        else (case check_children cues cue (LinkedCueIDs policy) (fst acc) of Inl e \<Rightarrow> Inl e
              | Inr parentOf \<Rightarrow>
                check_links um cues cs
                  (parentOf, (snd acc)(cueID cue := snd acc (cueID cue) @ LinkedCueIDs policy))))"

text \<open>The colouring walk over the edges; the same fuel bounds it.\<close>

fun visit_id :: "(string \<Rightarrow> string list) \<Rightarrow> nat \<Rightarrow> string \<Rightarrow> (string \<Rightarrow> nat) \<Rightarrow> group_error + (string \<Rightarrow> nat)"
  and visit_ids :: "(string \<Rightarrow> string list) \<Rightarrow> nat \<Rightarrow> string list \<Rightarrow> (string \<Rightarrow> nat) \<Rightarrow> group_error + (string \<Rightarrow> nat)" where
  "visit_id edges 0 i st = Inl OutOfFuel"
| "visit_id edges (Suc n) i st =
     (if st i = 1 then Inl (CycleAt i)
      else if st i = 2 then Inr st
      else (case visit_ids edges n (edges i) (st(i := 1)) of Inl e \<Rightarrow> Inl e
            | Inr st' \<Rightarrow> Inr (st'(i := 2))))"
| "visit_ids edges n [] st = Inr st"
| "visit_ids edges n (i # is) st =
     (case visit_id edges n i st of Inl e \<Rightarrow> Inl e | Inr st' \<Rightarrow> visit_ids edges n is st')"

text \<open>
  Go ranges over the map \<open>byID\<close> in an unspecified order; the model takes the ids in the order of the
  cues. The order decides only which cycle an error names.
\<close>

definition ValidateGroups :: "policy_decoder \<Rightarrow> ('a CueHead_scheme) list \<Rightarrow> group_error option" where
  "ValidateGroups um cues =
     (case check_links um cues cues (Map.empty, \<lambda>_. []) of Inl e \<Rightarrow> Some e
      | Inr acc \<Rightarrow>
        (case visit_ids (snd acc) (Suc (length cues)) (remdups (map cueID cues)) (\<lambda>_. 0) of
           Inl e \<Rightarrow> Some e
         | Inr _ \<Rightarrow> None))"

definition ParentMap :: "policy_decoder \<Rightarrow> ('a CueHead_scheme) list \<Rightarrow> group_error + (string \<Rightarrow> string option)" where
  "ParentMap um cues =
     (case ValidateGroups um cues of Some e \<Rightarrow> Inl e
      | None \<Rightarrow>
        Inr (foldl (\<lambda>out cue.
               (case ParsePolicy um (cueExecutionPolicy cue) of
                  Inl _ \<Rightarrow> out
                | Inr policy \<Rightarrow> foldl (\<lambda>o' childID. o'(childID \<mapsto> cueID cue)) out (LinkedCueIDs policy)))
             Map.empty cues))"

section \<open>Results of a group\<close>

datatype ExecutionResult =
    ExecutionRunning | ExecutionCompleted | ExecutionCancelled | ExecutionTimedOut | ExecutionFailed
  | ExecutionOther string

definition result_rank :: "ExecutionResult \<Rightarrow> nat" where
  "result_rank r =
     (case r of ExecutionCompleted \<Rightarrow> 0 | ExecutionCancelled \<Rightarrow> 1 | ExecutionTimedOut \<Rightarrow> 2
      | ExecutionFailed \<Rightarrow> 3 | _ \<Rightarrow> 4)"

definition worseCueGroupResult :: "ExecutionResult \<Rightarrow> ExecutionResult \<Rightarrow> ExecutionResult" where
  "worseCueGroupResult current candidate =
     (if result_rank candidate > result_rank current then candidate else current)"

section \<open>The walk finds exactly what the links reach\<close>

definition links :: "policy_decoder \<Rightarrow> ('a CueHead_scheme) list \<Rightarrow> (string \<times> string) set" where
  "links um cues = {(x, y). \<exists>c p. by_id cues x = Some c \<and> ParsePolicy um (cueExecutionPolicy c) = Inr p
                                   \<and> y \<in> set (LinkedCueIDs p)}"

definition black :: "(string \<Rightarrow> nat) \<Rightarrow> string set" where "black st = {x. st x = 2}"
definition grey :: "(string \<Rightarrow> nat) \<Rightarrow> string set" where "grey st = {x. st x = 1}"

text \<open>What is done is closed under the links and has no cycle.\<close>

definition closed_acyclic :: "(string \<times> string) set \<Rightarrow> (string \<Rightarrow> nat) \<Rightarrow> bool" where
  "closed_acyclic L st \<longleftrightarrow> L `` black st \<subseteq> black st \<and> (\<forall>x\<in>black st. (x, x) \<notin> L\<^sup>+)"

lemma closed_rtrancl: "L `` B \<subseteq> B \<Longrightarrow> (x, y) \<in> L\<^sup>* \<Longrightarrow> x \<in> B \<Longrightarrow> y \<in> B"
  by (erule rtrancl_induct) auto

lemma colour_simps [simp]:
  "black (st(x := Suc 0)) = black st - {x}" "grey (st(x := Suc 0)) = insert x (grey st)"
  "black (st(x := 2)) = insert x (black st)" "grey (st(x := 2)) = grey st - {x}"
  by (auto simp: black_def grey_def)

lemma black_grey_disjoint: "x \<in> grey st \<Longrightarrow> x \<notin> black st"
  by (simp add: black_def grey_def)

text \<open>Finishing a cue whose links all lead to finished cues keeps that.\<close>

lemma closed_acyclic_leave:
  assumes c: "closed_acyclic L st" and x: "x \<in> grey st" and out: "L `` {x} \<subseteq> black st"
  shows "closed_acyclic L (st(x := 2))"
proof -
  have cl: "L `` black st \<subseteq> black st" and ac: "\<forall>y\<in>black st. (y, y) \<notin> L\<^sup>+"
    using c by (simp_all add: closed_acyclic_def)
  have "(x, x) \<notin> L\<^sup>+"
  proof
    assume "(x, x) \<in> L\<^sup>+"
    then obtain y where "(x, y) \<in> L" "(y, x) \<in> L\<^sup>*" by (meson tranclD)
    then have "x \<in> black st" using out closed_rtrancl [OF cl] by blast
    with x show False by (simp add: black_grey_disjoint)
  qed
  with cl ac out show ?thesis by (auto simp: closed_acyclic_def)
qed

text \<open>How a successful visit extends the walk: from \<open>R\<close> everything reachable is finished, in order, once.\<close>

definition walk_ok :: "(string \<times> string) set \<Rightarrow> ('a CueHead_scheme) walk \<Rightarrow> bool" where
  "walk_ok L w \<longleftrightarrow> closed_acyclic L (wState w) \<and> set (wAdded w) = black (wState w) \<union> grey (wState w)"

definition walk_ext :: "('a CueHead_scheme) list \<Rightarrow> (string \<times> string) set \<Rightarrow> string set
    \<Rightarrow> ('a CueHead_scheme) walk \<Rightarrow> ('a CueHead_scheme) walk \<Rightarrow> bool" where
  "walk_ext cues L R w w' \<longleftrightarrow>
     grey (wState w') = grey (wState w) \<and> black (wState w) \<subseteq> black (wState w') \<and> R \<subseteq> black (wState w')
   \<and> black (wState w') - black (wState w) \<subseteq> L\<^sup>* `` R
   \<and> (\<exists>new. wOut w' = wOut w @ new \<and> distinct (map cueID new)
          \<and> cueID ` set new = black (wState w') - black (wState w)
          \<and> (\<forall>c\<in>set new. by_id cues (cueID c) = Some c))"

lemma walk_ext_refl: "walk_ext cues L {} w w"
  by (simp add: walk_ext_def)

lemma walk_ext_trans:
  assumes a: "walk_ext cues L R w w1" and b: "walk_ext cues L S w1 w2"
  shows "walk_ext cues L (R \<union> S) w w2"
proof -
  obtain n1 where n1: "wOut w1 = wOut w @ n1" "distinct (map cueID n1)"
    "cueID ` set n1 = black (wState w1) - black (wState w)" "\<forall>c\<in>set n1. by_id cues (cueID c) = Some c"
    using a by (auto simp: walk_ext_def)
  obtain n2 where n2: "wOut w2 = wOut w1 @ n2" "distinct (map cueID n2)"
    "cueID ` set n2 = black (wState w2) - black (wState w1)" "\<forall>c\<in>set n2. by_id cues (cueID c) = Some c"
    using b by (auto simp: walk_ext_def)
  have sub: "black (wState w) \<subseteq> black (wState w1)" "black (wState w1) \<subseteq> black (wState w2)"
    using a b by (simp_all add: walk_ext_def)
  have "distinct (map cueID (n1 @ n2))" using n1 n2 by auto
  moreover have "cueID ` set (n1 @ n2) = black (wState w2) - black (wState w)"
    unfolding set_append image_Un n1(3) n2(3) using sub by blast
  ultimately have "\<exists>new. wOut w2 = wOut w @ new \<and> distinct (map cueID new)
      \<and> cueID ` set new = black (wState w2) - black (wState w) \<and> (\<forall>c\<in>set new. by_id cues (cueID c) = Some c)"
    using n1 n2 by (intro exI [of _ "n1 @ n2"]) auto
  moreover have "black (wState w2) - black (wState w) \<subseteq> L\<^sup>* `` (R \<union> S)"
  proof -
    have "black (wState w1) - black (wState w) \<subseteq> L\<^sup>* `` R" "black (wState w2) - black (wState w1) \<subseteq> L\<^sup>* `` S"
      using a b by (simp_all add: walk_ext_def)
    then show ?thesis by (simp add: Image_Un) blast
  qed
  moreover have "grey (wState w2) = grey (wState w)" "R \<union> S \<subseteq> black (wState w2)"
    using a b sub by (auto simp: walk_ext_def)
  ultimately show ?thesis using sub unfolding walk_ext_def by (intro conjI) auto
qed

lemma by_id_cueID_aux:
  "foldl (\<lambda>m c. m(cueID c \<mapsto> c)) m cues i = Some c \<Longrightarrow> (m i = Some c \<or> c \<in> set cues \<and> cueID c = i)"
  by (induction cues arbitrary: m) (fastforce split: if_splits)+

lemma by_id_cueID: "by_id cues i = Some c \<Longrightarrow> cueID c = i \<and> c \<in> set cues"
  unfolding by_id_def using by_id_cueID_aux [of Map.empty cues i c] by auto

lemma visit_sound:
  "visit_cue um cues n cue w = Inr w' \<Longrightarrow> by_id cues (cueID cue) = Some cue \<Longrightarrow> walk_ok (links um cues) w
    \<Longrightarrow> walk_ok (links um cues) w' \<and> walk_ext cues (links um cues) {cueID cue} w w'
        \<and> (wState w (cueID cue) = 0 \<longrightarrow> (\<exists>new. wOut w' = wOut w @ cue # new))"
  "visit_children um cues n owner ids w = Inr w' \<Longrightarrow> walk_ok (links um cues) w
    \<Longrightarrow> walk_ok (links um cues) w' \<and> walk_ext cues (links um cues) (set ids) w w'"
proof (induction um cues n cue w and um cues n owner ids w arbitrary: w' and w'
    rule: visit_cue_visit_children.induct)
  case (1 um cues cue w)
  then show ?case by simp
next
  case (2 um cues n cue w)
  let ?L = "links um cues" and ?x = "cueID cue"
  show ?case
  proof (cases "wState w ?x = 2")
    case True
    with 2(2) have "w' = w" by simp
    with True 2(4) show ?thesis by (auto simp: walk_ext_def black_def)
  next
    case False
    with 2(2) have st: "wState w ?x \<noteq> 1" "wState w ?x \<noteq> 2" by (auto split: if_splits)
    obtain p where p: "ParsePolicy um (cueExecutionPolicy cue) = Inr p"
      using 2(2) st by (auto simp: Let_def split: sum.splits)
    let ?w1 = "enter_cue cue w"
    obtain w2 where w2: "visit_children um cues n cue (LinkedCueIDs p) ?w1 = Inr w2" "w' = leave_cue cue w2"
      using 2(2) st p by (auto simp: Let_def split: sum.splits)
    have white: "?x \<notin> black (wState w)" "?x \<notin> grey (wState w)" using st by (simp_all add: black_def grey_def)
    have add: "?x \<notin> set (wAdded w)" using white 2(4) by (simp add: walk_ok_def)
    have w1: "wState ?w1 = (wState w)(?x := 1)" "wOut ?w1 = wOut w @ [cue]" "wAdded ?w1 = ?x # wAdded w"
      using add by (simp_all add: enter_cue_def)
    have ok1: "walk_ok ?L ?w1" using 2(4) white by (auto simp: walk_ok_def w1 closed_acyclic_def)
    have IH: "walk_ok ?L w2" "walk_ext cues ?L (set (LinkedCueIDs p)) ?w1 w2"
      using 2(1) [OF st(1) st(2) refl p w2(1) ok1] by simp_all
    obtain new where new: "wOut w2 = wOut ?w1 @ new" "distinct (map cueID new)"
      "cueID ` set new = black (wState w2) - black (wState ?w1)" "\<forall>c\<in>set new. by_id cues (cueID c) = Some c"
      using IH(2) by (auto simp: walk_ext_def)
    have gr: "grey (wState w2) = insert ?x (grey (wState w))" and xb: "?x \<notin> black (wState w2)"
      and bl: "black (wState w) \<subseteq> black (wState w2)" and kids: "set (LinkedCueIDs p) \<subseteq> black (wState w2)"
      and reach: "black (wState w2) - black (wState w) \<subseteq> ?L\<^sup>* `` set (LinkedCueIDs p)"
      using IH(2) white black_grey_disjoint [of ?x "wState w2"] by (auto simp: walk_ext_def w1)
    have edges: "?L `` {?x} = set (LinkedCueIDs p)" using 2(3) p by (auto simp: links_def)
    have s': "wState w' = (wState w2)(?x := 2)" "wOut w' = wOut w @ cue # new" "wAdded w' = wAdded w2"
      by (simp_all add: w2(2) leave_cue_def new(1) w1)
    have "closed_acyclic ?L (wState w')"
      unfolding s' using IH(1) gr kids edges by (intro closed_acyclic_leave) (auto simp: walk_ok_def)
    moreover have "set (wAdded w') = black (wState w') \<union> grey (wState w')"
      using IH(1) gr by (auto simp: walk_ok_def s')
    moreover have "walk_ext cues ?L {?x} w w'"
    proof -
      have "grey (wState w') = grey (wState w)" using gr white by (simp add: s')
      moreover have "black (wState w') - black (wState w) \<subseteq> ?L\<^sup>* `` {?x}"
      proof -
        have "?L\<^sup>* `` set (LinkedCueIDs p) \<subseteq> ?L\<^sup>* `` {?x}" using edges by (auto intro: converse_rtrancl_into_rtrancl)
        with reach show ?thesis by (auto simp: s')
      qed
      moreover have "distinct (map cueID (cue # new))" using new(2,3) xb by auto
      moreover have "cueID ` set (cue # new) = black (wState w') - black (wState w)"
        using new(3) white xb bl by (auto simp: s' w1)
      moreover have "\<forall>c\<in>set (cue # new). by_id cues (cueID c) = Some c" using new(4) 2(3) by simp
      ultimately show ?thesis
        using bl unfolding walk_ext_def by (intro conjI exI [of _ "cue # new"]) (auto simp: s')
    qed
    ultimately show ?thesis by (auto simp: walk_ok_def s')
  qed
next
  case (3 um cues n owner w)
  then show ?case by (auto simp: walk_ext_refl)
next
  case (4 um cues n owner i ids w)
  obtain child where ch: "by_id cues i = Some child" "cueEnabled child"
    using 4(3) by (auto split: option.splits if_splits)
  obtain w1 where w1: "visit_cue um cues n child w = Inr w1" "visit_children um cues n owner ids w1 = Inr w'"
    using 4(3) ch by (auto split: sum.splits)
  have i: "cueID child = i" using by_id_cueID [OF ch(1)] by simp
  have a: "walk_ok (links um cues) w1" "walk_ext cues (links um cues) {i} w w1"
    using 4(1) [OF ch(1) _ w1(1)] ch 4(4) i by auto
  have b: "walk_ok (links um cues) w'" "walk_ext cues (links um cues) (set ids) w1 w'"
    using 4(2) [OF ch(1) _ w1(1) w1(2) a(1)] ch by auto
  show ?case using b(1) walk_ext_trans [OF a(2) b(2)] by simp
qed

text \<open>When the links from a cue are sound, the walk from it cannot fail, and its fuel suffices.\<close>

definition sound_links :: "policy_decoder \<Rightarrow> ('a CueHead_scheme) list \<Rightarrow> string \<Rightarrow> bool" where
  "sound_links um cues x \<longleftrightarrow>
     (\<forall>y. (x, y) \<in> (links um cues)\<^sup>* \<longrightarrow>
        (\<exists>c p. by_id cues y = Some c \<and> ParsePolicy um (cueExecutionPolicy c) = Inr p
             \<and> (\<forall>z\<in>set (LinkedCueIDs p). \<exists>d. by_id cues z = Some d \<and> cueEnabled d))
        \<and> (y, y) \<notin> (links um cues)\<^sup>+)"

lemma sound_links_step: "sound_links um cues x \<Longrightarrow> (x, y) \<in> links um cues \<Longrightarrow> sound_links um cues y"
  unfolding sound_links_def by (meson converse_rtrancl_into_rtrancl)

definition white :: "('a CueHead_scheme) list \<Rightarrow> (string \<Rightarrow> nat) \<Rightarrow> string set" where
  "white cues st = cueID ` set cues - black st - grey st"

lemma white_finite [simp]: "finite (white cues st)"
  by (simp add: white_def)

lemma visit_complete:
  "by_id cues (cueID cue) = Some cue \<Longrightarrow> walk_ok (links um cues) w \<Longrightarrow> sound_links um cues (cueID cue)
    \<Longrightarrow> (\<forall>g\<in>grey (wState w). (g, cueID cue) \<in> (links um cues)\<^sup>+) \<Longrightarrow> card (white cues (wState w)) < n
    \<Longrightarrow> \<exists>w'. visit_cue um cues n cue w = Inr w'"
  "walk_ok (links um cues) w \<Longrightarrow> set ids \<subseteq> links um cues `` {cueID owner} \<Longrightarrow> sound_links um cues (cueID owner)
    \<Longrightarrow> (\<forall>g\<in>grey (wState w). (g, cueID owner) \<in> (links um cues)\<^sup>*) \<Longrightarrow> card (white cues (wState w)) < n
    \<Longrightarrow> \<exists>w'. visit_children um cues n owner ids w = Inr w'"
proof (induction um cues n cue w and um cues n owner ids w rule: visit_cue_visit_children.induct)
  case (1 um cues cue w)
  then show ?case by simp
next
  case (2 um cues n cue w)
  let ?L = "links um cues" and ?x = "cueID cue"
  have nc: "(?x, ?x) \<notin> ?L\<^sup>+" using 2(4) by (auto simp: sound_links_def)
  then have s1: "wState w ?x \<noteq> 1" using 2(5) by (auto simp: grey_def)
  show ?case
  proof (cases "wState w ?x = 2")
    case True
    with s1 show ?thesis by simp
  next
    case False
    obtain p where p: "ParsePolicy um (cueExecutionPolicy cue) = Inr p"
      using 2(2,4) by (auto simp: sound_links_def)
    have edges: "?L `` {?x} = set (LinkedCueIDs p)" using 2(2) p by (auto simp: links_def)
    let ?w1 = "enter_cue cue w"
    have wh: "?x \<notin> black (wState w)" "?x \<notin> grey (wState w)" using s1 False by (simp_all add: black_def grey_def)
    then have "?x \<notin> set (wAdded w)" using 2(3) by (simp add: walk_ok_def)
    then have w1: "wState ?w1 = (wState w)(?x := 1)" "wAdded ?w1 = ?x # wAdded w" by (simp_all add: enter_cue_def)
    have ok1: "walk_ok ?L ?w1" using 2(3) wh by (auto simp: walk_ok_def w1 closed_acyclic_def)
    have "?x \<in> white cues (wState w)" using wh by_id_cueID [OF 2(2)] by (auto simp: white_def)
    moreover have "white cues (wState ?w1) = white cues (wState w) - {?x}" by (auto simp: white_def w1)
    ultimately have "card (white cues (wState ?w1)) < card (white cues (wState w))"
      by (metis card_Diff1_less white_finite)
    then have fuel: "card (white cues (wState ?w1)) < n" using 2(6) by simp
    have gr: "\<forall>g\<in>grey (wState ?w1). (g, ?x) \<in> ?L\<^sup>*" using 2(5) by (auto simp: w1)
    have "\<exists>w'. visit_children um cues n cue (LinkedCueIDs p) ?w1 = Inr w'"
      by (rule 2(1) [OF s1 False refl p ok1 _ 2(4) gr fuel]) (simp add: edges)
    then show ?thesis using s1 False p by (auto simp: Let_def)
  qed
next
  case (3 um cues n owner w)
  then show ?case by simp
next
  case (4 um cues n owner i ids w)
  let ?L = "links um cues"
  have e: "(cueID owner, i) \<in> ?L" using 4(4) by auto
  obtain c p where op: "by_id cues (cueID owner) = Some c" "ParsePolicy um (cueExecutionPolicy c) = Inr p"
    "\<forall>z\<in>set (LinkedCueIDs p). \<exists>d. by_id cues z = Some d \<and> cueEnabled d"
    using 4(5) by (auto simp: sound_links_def)
  with e obtain child where ch: "by_id cues i = Some child" "cueEnabled child" by (auto simp: links_def)
  have i: "cueID child = i" using by_id_cueID [OF ch(1)] by simp
  have g1: "\<forall>g\<in>grey (wState w). (g, cueID child) \<in> ?L\<^sup>+" using 4(6) e i by (auto intro: rtrancl_into_trancl1)
  have "\<exists>w1. visit_cue um cues n child w = Inr w1"
    by (rule 4(1) [OF ch(1) _ _ 4(3) _ g1 4(7)]) (use ch i sound_links_step [OF 4(5) e] in auto)
  then obtain w1 where w1: "visit_cue um cues n child w = Inr w1" by blast
  have s: "walk_ok ?L w1" "walk_ext cues ?L {i} w w1"
    using visit_sound(1) [OF w1 _ 4(3)] ch i by auto
  have g2: "\<forall>g\<in>grey (wState w1). (g, cueID owner) \<in> ?L\<^sup>*" using s(2) 4(6) by (simp add: walk_ext_def)
  have "white cues (wState w1) \<subseteq> white cues (wState w)" using s(2) by (auto simp: walk_ext_def white_def)
  then have fuel: "card (white cues (wState w1)) < n"
    using card_mono [OF white_finite] 4(7) order.strict_trans1 by blast
  have "\<exists>w'. visit_children um cues n owner ids w1 = Inr w'"
    by (rule 4(2) [OF ch(1) _ w1 s(1) _ 4(5) g2 fuel]) (use ch 4(4) in auto)
  then show ?case using ch w1 by simp
qed

lemma walk_init_ok [simp]: "walk_ok L walk_init"
  by (simp add: walk_ok_def walk_init_def closed_acyclic_def black_def grey_def)

lemma resolve_sound:
  assumes r: "by_id cues (cueID rootCue) = Some rootCue" and g: "resolveCueGroup um cues rootCue = Inr g"
  shows "\<exists>rest. g = rootCue # rest" "distinct (map cueID g)"
    "cueID ` set g = (links um cues)\<^sup>* `` {cueID rootCue}" "\<forall>c\<in>set g. by_id cues (cueID c) = Some c"
    "\<forall>x\<in>(links um cues)\<^sup>* `` {cueID rootCue}. (x, x) \<notin> (links um cues)\<^sup>+"
proof -
  let ?L = "links um cues"
  obtain w where w: "visit_cue um cues (Suc (length cues)) rootCue walk_init = Inr w" "g = wOut w"
    using g by (auto simp: resolveCueGroup_def split: sum.splits)
  note v = visit_sound(1) [OF w(1) r walk_init_ok]
  have z: "black (wState (walk_init :: 'a CueHead_scheme walk)) = {}" "wOut (walk_init :: 'a CueHead_scheme walk) = []"
    by (simp_all add: black_def walk_init_def)
  show "\<exists>rest. g = rootCue # rest" using v w(2) by (auto simp: walk_init_def)
  show "distinct (map cueID g)" "\<forall>c\<in>set g. by_id cues (cueID c) = Some c"
    using v w(2) z by (auto simp: walk_ext_def)
  have cl: "?L `` black (wState w) \<subseteq> black (wState w)" "\<forall>x\<in>black (wState w). (x, x) \<notin> ?L\<^sup>+"
    using v by (simp_all add: walk_ok_def closed_acyclic_def)
  have b: "cueID ` set g = black (wState w)" "cueID rootCue \<in> black (wState w)"
    "black (wState w) \<subseteq> ?L\<^sup>* `` {cueID rootCue}"
    using v w(2) z by (auto simp: walk_ext_def)
  have "?L\<^sup>* `` {cueID rootCue} \<subseteq> black (wState w)"
    using closed_rtrancl [OF cl(1)] b(2) by blast
  with b show e: "cueID ` set g = ?L\<^sup>* `` {cueID rootCue}" by blast
  show "\<forall>x\<in>?L\<^sup>* `` {cueID rootCue}. (x, x) \<notin> ?L\<^sup>+" using cl(2) b(1) e by simp
qed

lemma resolve_complete:
  assumes r: "by_id cues (cueID rootCue) = Some rootCue" and s: "sound_links um cues (cueID rootCue)"
  shows "\<exists>g. resolveCueGroup um cues rootCue = Inr g"
proof -
  have "card (white cues (wState (walk_init :: 'a CueHead_scheme walk))) \<le> card (cueID ` set cues)"
    by (rule card_mono) (auto simp: white_def)
  also have "\<dots> \<le> card (set cues)" by (rule card_image_le) simp
  also have "\<dots> \<le> length cues" by (rule card_length)
  finally have "card (white cues (wState (walk_init :: 'a CueHead_scheme walk))) < Suc (length cues)" by simp
  then have "\<exists>w. visit_cue um cues (Suc (length cues)) rootCue walk_init = Inr w"
    by (intro visit_complete(1) [OF r walk_init_ok s]) (auto simp: walk_init_def grey_def)
  then show ?thesis by (auto simp: resolveCueGroup_def)
qed

lemma by_id_distinct: "distinct (map cueID cues) \<Longrightarrow> c \<in> set cues \<Longrightarrow> by_id cues (cueID c) = Some c"
proof -
  have keep: "i \<notin> cueID ` set cs \<Longrightarrow> foldl (\<lambda>m c. m(cueID c \<mapsto> c)) m cs i = m i" for m i and cs :: "'a CueHead_scheme list"
    by (induction cs arbitrary: m) auto
  have "distinct (map cueID cs) \<Longrightarrow> c \<in> set cs \<Longrightarrow> foldl (\<lambda>m c. m(cueID c \<mapsto> c)) m cs (cueID c) = Some c" for m cs
    by (induction cs arbitrary: m) (auto simp: keep)
  then show "distinct (map cueID cues) \<Longrightarrow> c \<in> set cues \<Longrightarrow> by_id cues (cueID c) = Some c"
    by (simp add: by_id_def)
qed

section \<open>A validated revision resolves\<close>

definition edge_rel :: "(string \<Rightarrow> string list) \<Rightarrow> (string \<times> string) set" where
  "edge_rel edges = {(x, y). y \<in> set (edges x)}"

lemma visit_id_sound:
  "visit_id edges n i st = Inr st' \<Longrightarrow> closed_acyclic (edge_rel edges) st
    \<Longrightarrow> closed_acyclic (edge_rel edges) st' \<and> grey st' = grey st \<and> black st \<subseteq> black st' \<and> i \<in> black st'"
  "visit_ids edges n is st = Inr st' \<Longrightarrow> closed_acyclic (edge_rel edges) st
    \<Longrightarrow> closed_acyclic (edge_rel edges) st' \<and> grey st' = grey st \<and> black st \<subseteq> black st' \<and> set is \<subseteq> black st'"
proof (induction edges n i st and edges n "is" st arbitrary: st' and st' rule: visit_id_visit_ids.induct)
  case (1 edges i st)
  then show ?case by simp
next
  case (2 edges n i st)
  show ?case
  proof (cases "st i = 2")
    case True
    with 2(2,3) show ?thesis by (auto simp: black_def)
  next
    case False
    with 2(2) have s1: "st i \<noteq> 1" by (auto split: if_splits)
    then obtain st2 where s2: "visit_ids edges n (edges i) (st(i := 1)) = Inr st2" "st' = st2(i := 2)"
      using 2(2) False by (auto split: sum.splits)
    have wh: "i \<notin> black st" "i \<notin> grey st" using s1 False by (simp_all add: black_def grey_def)
    have "closed_acyclic (edge_rel edges) (st(i := 1))" using 2(3) wh by (auto simp: closed_acyclic_def)
    note ih = 2(1) [OF s1 False s2(1) this]
    have IH: "closed_acyclic (edge_rel edges) st2" "grey st2 = insert i (grey st)" "black st \<subseteq> black st2"
      "set (edges i) \<subseteq> black st2"
      using ih wh unfolding One_nat_def colour_simps by auto
    have "closed_acyclic (edge_rel edges) st'"
      unfolding s2(2) using IH by (intro closed_acyclic_leave) (auto simp: edge_rel_def)
    then show ?thesis using IH wh unfolding s2(2) colour_simps by blast
  qed
next
  case (3 edges n st)
  then show ?case by simp
next
  case (4 edges n i "is" st)
  obtain st1 where s1: "visit_id edges n i st = Inr st1" "visit_ids edges n is st1 = Inr st'"
    using 4(3) by (auto split: sum.splits)
  show ?case using 4(1) [OF s1(1) 4(4)] 4(2) [OF s1(1) s1(2)] by auto
qed

lemma check_children_ok:
  "check_children cues cue ids par = Inr par' \<Longrightarrow> y \<in> set ids
    \<Longrightarrow> y \<noteq> cueID cue \<and> (\<exists>d. by_id cues y = Some d \<and> cueEnabled d)"
  by (induction cues cue ids par rule: check_children.induct) (auto split: if_splits option.splits)

lemma check_links_mono:
  "check_links um cues cs acc = Inr acc' \<Longrightarrow> y \<in> set (snd acc x) \<Longrightarrow> y \<in> set (snd acc' x)"
  by (induction um cues cs acc rule: check_links.induct) (fastforce split: sum.splits if_splits)+

lemma check_links_ok:
  assumes "check_links um cues cs acc = Inr acc'" "c \<in> set cs"
  shows "\<exists>p. ParsePolicy um (cueExecutionPolicy c) = Inr p
    \<and> (\<forall>y\<in>set (LinkedCueIDs p). y \<in> set (snd acc' (cueID c)) \<and> (\<exists>d. by_id cues y = Some d \<and> cueEnabled d))"
  using assms
proof (induction um cues cs acc rule: check_links.induct)
  case (1 um cues acc)
  then show ?case by simp
next
  case (2 um cues cue cs acc)
  obtain p par where p: "ParsePolicy um (cueExecutionPolicy cue) = Inr p"
    "check_children cues cue (LinkedCueIDs p) (fst acc) = Inr par"
    "check_links um cues cs (par, (snd acc)(cueID cue := snd acc (cueID cue) @ LinkedCueIDs p)) = Inr acc'"
    and ne: "\<not> (LinkedCueIDs p \<noteq> [] \<and> \<not> cueEnabled cue)"
    using 2(2) by (auto split: sum.splits if_splits)
  show ?case
  proof (cases "c = cue")
    case True
    have "y \<in> set (snd acc' (cueID cue)) \<and> (\<exists>d. by_id cues y = Some d \<and> cueEnabled d)" if "y \<in> set (LinkedCueIDs p)" for y
      using check_links_mono [OF p(3), of y "cueID cue"] check_children_ok [OF p(2) that] that by simp
    with True p(1) show ?thesis by blast
  next
    case False
    with 2(3) have "c \<in> set cs" by simp
    from 2(1) [OF p(1) ne p(2) p(3) this] show ?thesis .
  qed
qed

lemma validated_sound_links:
  assumes v: "ValidateGroups um cues = None" and x: "by_id cues x = Some c"
  shows "sound_links um cues x"
proof -
  let ?L = "links um cues"
  obtain par edges where cl: "check_links um cues cues (Map.empty, \<lambda>_. []) = Inr (par, edges)"
    using v by (auto simp: ValidateGroups_def split: sum.splits)
  then obtain st where vs: "visit_ids edges (Suc (length cues)) (remdups (map cueID cues)) (\<lambda>_. 0) = Inr st"
    using v by (auto simp: ValidateGroups_def split: sum.splits)
  have "closed_acyclic (edge_rel edges) (\<lambda>_. 0)" by (simp add: closed_acyclic_def black_def)
  from visit_id_sound(2) [OF vs this]
  have ca: "closed_acyclic (edge_rel edges) st" and all: "cueID ` set cues \<subseteq> black st" by auto
  have sub: "?L \<subseteq> edge_rel edges"
    using check_links_ok [OF cl] by_id_cueID by (fastforce simp: links_def edge_rel_def)
  have step: "\<exists>d. by_id cues b = Some d" if "(a, b) \<in> ?L" for a b
    using that check_links_ok [OF cl] by_id_cueID by (fastforce simp: links_def)
  show ?thesis
    unfolding sound_links_def
  proof (intro allI impI conjI)
    fix y assume "(x, y) \<in> ?L\<^sup>*"
    then have "\<exists>d. by_id cues y = Some d" using x step by (cases rule: rtranclE) auto
    then obtain d where d: "by_id cues y = Some d" by blast
    then have dc: "d \<in> set cues" "cueID d = y" using by_id_cueID by auto
    obtain p where p: "ParsePolicy um (cueExecutionPolicy d) = Inr p"
      "\<forall>z\<in>set (LinkedCueIDs p). \<exists>d. by_id cues z = Some d \<and> cueEnabled d"
      using check_links_ok [OF cl dc(1)] by blast
    with d show "\<exists>c p. by_id cues y = Some c \<and> ParsePolicy um (cueExecutionPolicy c) = Inr p
         \<and> (\<forall>z\<in>set (LinkedCueIDs p). \<exists>d. by_id cues z = Some d \<and> cueEnabled d)" by blast
    have "y \<in> black st" using all dc by auto
    then have "(y, y) \<notin> (edge_rel edges)\<^sup>+" using ca by (simp add: closed_acyclic_def)
    then show "(y, y) \<notin> ?L\<^sup>+" using trancl_mono [OF _ sub] by blast
  qed
qed

text \<open>One more than the number of cues is enough fuel for any manifest, sound or not.\<close>

lemma walk_fuel_visit:
  "by_id cues (cueID cue) = Some cue \<Longrightarrow> walk_ok (links um cues) w \<Longrightarrow> card (white cues (wState w)) < n
    \<Longrightarrow> visit_cue um cues n cue w \<noteq> Inl OutOfFuel"
  "walk_ok (links um cues) w \<Longrightarrow> card (white cues (wState w)) < n
    \<Longrightarrow> visit_children um cues n owner ids w \<noteq> Inl OutOfFuel"
proof (induction um cues n cue w and um cues n owner ids w rule: visit_cue_visit_children.induct)
  case (1 um cues cue w)
  then show ?case by simp
next
  case (2 um cues n cue w)
  show ?case
  proof (cases "wState w (cueID cue) = 1 \<or> wState w (cueID cue) = 2 \<or> (\<exists>e. ParsePolicy um (cueExecutionPolicy cue) = Inl e)")
    case True
    then show ?thesis by (auto simp: Let_def)
  next
    case False
    then obtain p where p: "ParsePolicy um (cueExecutionPolicy cue) = Inr p"
      by (cases "ParsePolicy um (cueExecutionPolicy cue)") auto
    let ?x = "cueID cue" and ?w1 = "enter_cue cue w"
    have wh: "?x \<notin> black (wState w)" "?x \<notin> grey (wState w)" using False by (simp_all add: black_def grey_def)
    then have "?x \<notin> set (wAdded w)" using 2(3) by (simp add: walk_ok_def)
    then have w1: "wState ?w1 = (wState w)(?x := 1)" "wAdded ?w1 = ?x # wAdded w" by (simp_all add: enter_cue_def)
    have ok1: "walk_ok (links um cues) ?w1" using 2(3) wh by (auto simp: walk_ok_def w1 closed_acyclic_def)
    have "?x \<in> white cues (wState w)" using wh by_id_cueID [OF 2(2)] by (auto simp: white_def)
    moreover have "white cues (wState ?w1) = white cues (wState w) - {?x}" by (auto simp: white_def w1)
    ultimately have "card (white cues (wState ?w1)) < card (white cues (wState w))"
      by (metis card_Diff1_less white_finite)
    then have "card (white cues (wState ?w1)) < n" using 2(4) by simp
    then have "visit_children um cues n cue (LinkedCueIDs p) ?w1 \<noteq> Inl OutOfFuel"
      using 2(1) [OF _ _ refl p ok1] False by simp
    then show ?thesis using False p by (auto simp: Let_def split: sum.splits)
  qed
next
  case (3 um cues n owner w)
  then show ?case by simp
next
  case (4 um cues n owner i ids w)
  show ?case
  proof (cases "by_id cues i")
    case None
    then show ?thesis by simp
  next
    case (Some child)
    have i: "by_id cues (cueID child) = Some child" using Some by_id_cueID [OF Some] by simp
    show ?thesis
    proof (cases "cueEnabled child")
      case False
      with Some show ?thesis by simp
    next
      case True
      then have nn: "\<not> \<not> cueEnabled child" by simp
      note v = 4(1) [OF Some nn i 4(3,4)]
      show ?thesis
      proof (cases "visit_cue um cues n child w")
        case (Inl e)
        with v Some True show ?thesis by simp
      next
        case (Inr w1)
        have s: "walk_ok (links um cues) w1" "walk_ext cues (links um cues) {cueID child} w w1"
          using visit_sound(1) [OF Inr i 4(3)] by auto
        have "white cues (wState w1) \<subseteq> white cues (wState w)" using s(2) by (auto simp: walk_ext_def white_def)
        then have "card (white cues (wState w1)) < n"
          using card_mono [OF white_finite] 4(4) order.strict_trans1 by blast
        from 4(2) [OF Some nn Inr s(1) this] show ?thesis using Some True Inr by simp
      qed
    qed
  qed
qed

lemma walk_fuel:
  assumes "by_id cues (cueID rootCue) = Some rootCue"
  shows "resolveCueGroup um cues rootCue \<noteq> Inl OutOfFuel"
proof -
  have "card (white cues (wState (walk_init :: 'a CueHead_scheme walk))) \<le> card (cueID ` set cues)"
    by (rule card_mono) (auto simp: white_def)
  also have "\<dots> \<le> card (set cues)" by (rule card_image_le) simp
  also have "\<dots> \<le> length cues" by (rule card_length)
  finally have "card (white cues (wState (walk_init :: 'a CueHead_scheme walk))) < Suc (length cues)" by simp
  from walk_fuel_visit(1) [OF assms walk_init_ok this, of um]
  have "visit_cue um cues (Suc (length cues)) rootCue walk_init \<noteq> Inl OutOfFuel" .
  then show ?thesis
    unfolding resolveCueGroup_def by (cases "visit_cue um cues (Suc (length cues)) rootCue walk_init") simp_all
qed

text \<open>A manifest for the witnesses: A links B, B links C, D stands alone.\<close>

definition demo_um :: policy_decoder where
  "demo_um raw =
     (if raw = ''B'' \<or> raw = ''C'' \<or> raw = ''A''
      then Some \<lparr>LinkedCueIDs = [raw], LinkedCueMode = [], StartDelayMS = 0\<rparr> else None)"

definition demo_cue :: "string \<Rightarrow> string \<Rightarrow> Cue" where
  "demo_cue i raw =
     \<lparr>cueID = i, cueName = i, cueEnabled = True, cueExecutionPolicy = raw, cueDisplayLabel = i,
      cueOrderIndex = 0, cueType = ''CUE'', cueCriticality = ''NORMAL'', cueActions = []\<rparr>"

definition demo_cues :: "Cue list" where
  "demo_cues = [demo_cue ''A'' ''B'', demo_cue ''B'' ''C'', demo_cue ''C'' [], demo_cue ''D'' []]"

text \<open>
  C17. The group of a cue is that cue followed by every cue its links reach, directly or through
  other linked cues, each exactly once, each the cue the manifest has under that id; and no cue of
  the group links back to itself.
\<close>

theorem resolve_group_exact:
  assumes d: "distinct (map cueID cues)" and c: "c \<in> set cues" and g: "resolveCueGroup um cues c = Inr g"
  shows "(\<exists>rest. g = c # rest) \<and> distinct (map cueID g) \<and> set g \<subseteq> set cues
    \<and> cueID ` set g = (links um cues)\<^sup>* `` {cueID c}
    \<and> (\<forall>x\<in>cueID ` set g. (x, x) \<notin> (links um cues)\<^sup>+)"
proof -
  note s = resolve_sound [OF by_id_distinct [OF d c] g]
  have "set g \<subseteq> set cues" using s(4) by_id_cueID by fastforce
  with s show ?thesis by simp
qed

lemma resolve_group_exact_witness:
  "resolveCueGroup demo_um demo_cues (demo_cue ''A'' ''B'')
     = Inr [demo_cue ''A'' ''B'', demo_cue ''B'' ''C'', demo_cue ''C'' []]
   \<and> {''A'', ''B'', ''C''} = (links demo_um demo_cues)\<^sup>* `` {''A''}"
proof -
  have r: "resolveCueGroup demo_um demo_cues (demo_cue ''A'' ''B'')
     = Inr [demo_cue ''A'' ''B'', demo_cue ''B'' ''C'', demo_cue ''C'' []]"
    by code_simp
  have d: "distinct (map cueID demo_cues)" by code_simp
  have c: "demo_cue ''A'' ''B'' \<in> set demo_cues" by (simp add: demo_cues_def)
  from resolve_group_exact [OF d c r] r show ?thesis by (simp add: demo_cue_def)
qed

text \<open>
  C18. A revision that passes \<open>Validate\<close> can never fail a GO for its links: every cue resolves to its
  group and the nested ids are found. So \<open>Validate\<close> at publication covers the checks made at run
  time, cycles and the fuel of the model included.
\<close>

theorem validated_groups_resolve:
  assumes v: "ValidateGroups um cues = None" and d: "distinct (map cueID cues)" and c: "c \<in> set cues"
  shows "\<exists>g. resolveCueGroup um cues c = Inr g \<and> (\<forall>x\<in>set g. x = c \<or> cueEnabled x)"
proof -
  note b = by_id_distinct [OF d c]
  note sl = validated_sound_links [OF v b]
  obtain g where g: "resolveCueGroup um cues c = Inr g" using resolve_complete [OF b sl] by blast
  note s = resolve_sound [OF b g]
  have "x = c \<or> cueEnabled x" if x: "x \<in> set g" for x
  proof -
    have "(cueID c, cueID x) \<in> (links um cues)\<^sup>*" using s(3) x by blast
    then consider "cueID c = cueID x" | y where "(cueID c, y) \<in> (links um cues)\<^sup>*" "(y, cueID x) \<in> links um cues"
      by (cases rule: rtranclE) auto
    then show ?thesis
    proof cases
      case 1
      with s(4) x b show ?thesis by auto
    next
      case 2
      then obtain d p where "by_id cues y = Some d" "ParsePolicy um (cueExecutionPolicy d) = Inr p"
        "\<forall>z\<in>set (LinkedCueIDs p). \<exists>d. by_id cues z = Some d \<and> cueEnabled d"
        using sl by (auto simp: sound_links_def)
      with 2(2) have "\<exists>d. by_id cues (cueID x) = Some d \<and> cueEnabled d" by (auto simp: links_def)
      with s(4) x show ?thesis by auto
    qed
  qed
  with g show ?thesis by blast
qed

lemma validated_groups_resolve_witness:
  "\<exists>g. resolveCueGroup demo_um demo_cues (demo_cue ''B'' ''C'') = Inr g
     \<and> (\<forall>x\<in>set g. x = demo_cue ''B'' ''C'' \<or> cueEnabled x)"
proof -
  have v: "ValidateGroups demo_um demo_cues = None" and d: "distinct (map cueID demo_cues)" by code_simp+
  have c: "demo_cue ''B'' ''C'' \<in> set demo_cues" by (simp add: demo_cues_def)
  from validated_groups_resolve [OF v d c] show ?thesis .
qed

end
