(* ===== verification/Contracts.thy ===== *)
theory Contracts
  imports Prelude
begin

text \<open>
  The contract types commands and sessions are exchanged in: \<open>internal/contracts/contracts.go\<close>, the
  session of \<open>internal/domain/runtime.go\<close> (the fields the modelled code reads) and the payload of a
  \<open>cue.go\<close> command. A JSON payload is its text.
\<close>

datatype CommandStatus =
    CommandAccepted | CommandRejected | CommandCompleted | CommandFailed | CommandTimedOut | CommandCancelled

record CommandEnvelope =
  ceCommandID :: string
  ceCommandType :: string
  ceSchemaVersion :: int
  ceIssuedAt :: time
  ceDeadlineAt :: "time option"
  ceProjectID :: string
  ceRuntimeSnapshotID :: string
  ceIssuer :: string
  ceCorrelationID :: string
  ceCausationID :: string
  cePriority :: string
  ceIdempotencyKey :: string
  cePayload :: string

record ContractError =
  errCode :: string
  errCategory :: string
  errMessage :: string
  errRetryable :: bool
  errAffectedEntityID :: string

record CommandResult =
  resCommandID :: string
  resStatus :: CommandStatus
  resPayload :: string
  resError :: "ContractError option"

definition SchemaVersion1 :: int where
  "SchemaVersion1 = 1"

datatype SessionType = SessionRehearsal | SessionShow | SessionSimulation | SessionTypeOther string

datatype SessionStatus = SessionActive | SessionCompleted | SessionAborted | SessionStatusOther string

record Session =
  sesID :: string
  sesProjectID :: string
  sesRuntimeSnapshotID :: string
  sesType :: SessionType
  sesStatus :: SessionStatus
  sesCurrentCueID :: "string option"

record CueGoPayload =
  ExpectedCurrentCueID :: "string option"
  RequestedNextCueID :: "string option"
  OperatorNote :: "string option"

definition CueGoCommandType :: string where
  "CueGoCommandType = ''cue.go''"

end
