(* ===== verification/TimecodeRuntime.thy ===== *)
theory TimecodeRuntime
  imports MTC CueGroup Contracts "HOL-Library.Product_Lexorder"
begin

text \<open>
  The timecode runtime: the internal generator (\<open>internal/timecode/generator.go\<close>), the health
  monitor, the source coordinator and the cue scheduler (\<open>runtime.go\<close>), the configuration a
  manifest seals (\<open>configuration.go\<close>) and the observation pipeline of \<open>service.go\<close>. The mutexes
  make each operation atomic, so an operation is a function on the state it guards. What is
  reached through interfaces (the event store, the session store, the cue executor, JSON
  decoding, SHA-256) is a parameter. Human-readable detail texts that carry formatted numbers are
  constructors of a datatype.
\<close>

section \<open>The generator\<close>

text \<open>\<open>big.Int.Quo\<close> truncates; \<open>Int64\<close> of a value out of range keeps its low 64 bits.\<close>

definition framesForDuration :: "duration \<Rightarrow> Rate \<Rightarrow> int" where
  "framesForDuration d r =
     (if d \<le> 0 then 0 else wrap64 (quot (d * rNumerator r) (1000000000 * rDenominator r)))"

record Generator =
  gRate :: Rate
  gOffset :: int
  gTransport :: TransportState
  gAnchorAt :: time
  gAnchor :: int
  gPaused :: int
  gSequence :: "64 word"

record Sample =
  sSourceID :: string
  sKind :: SourceKind
  sRate :: Rate
  sTimecode :: Timecode
  sFrameNumber :: int
  sRawFrame :: int
  sOffsetFrames :: int
  sObservedAt :: time
  sSequence :: "64 word"
  sTransport :: TransportState
  sDiscontinuity :: bool
  sDriftFrames :: int

definition NewGenerator :: "Rate \<Rightarrow> int \<Rightarrow> int \<Rightarrow> tc_error + Generator" where
  "NewGenerator r startFrame offsetFrames =
     (case ValidateRate r of Some e \<Rightarrow> Inl e
      | None \<Rightarrow>
        if startFrame < 0 then Inl NegativeStart
        else Inr \<lparr>gRate = r, gOffset = offsetFrames, gTransport = TransportStopped, gAnchorAt = zero_time,
                  gAnchor = startFrame, gPaused = startFrame, gSequence = 0\<rparr>)"

definition frameAtLocked :: "Generator \<Rightarrow> time \<Rightarrow> int" where
  "frameAtLocked g now =
     (if is_zero (gAnchorAt g) \<or> \<not> now > gAnchorAt g then gAnchor g
      else wrap64 (gAnchor g + framesForDuration (time_sub now (gAnchorAt g)) (gRate g)))"

definition gen_Start :: "time \<Rightarrow> Generator \<Rightarrow> Generator" where
  "gen_Start now g =
     (if gTransport g = TransportRunning then g
      else g\<lparr>gAnchor := gPaused g, gAnchorAt := now, gTransport := TransportRunning\<rparr>)"

definition gen_Pause :: "time \<Rightarrow> Generator \<Rightarrow> Generator" where
  "gen_Pause now g =
     (if gTransport g \<noteq> TransportRunning then g
      else g\<lparr>gPaused := frameAtLocked g now, gTransport := TransportPaused\<rparr>)"

definition gen_Stop :: "Generator \<Rightarrow> Generator" where
  "gen_Stop g = g\<lparr>gTransport := TransportStopped, gAnchorAt := zero_time\<rparr>"

definition gen_SeekFrame :: "int \<Rightarrow> time \<Rightarrow> Generator \<Rightarrow> tc_error + Generator" where
  "gen_SeekFrame frame now g =
     (if frame < 0 then Inl NegativeSeek
      else
        let g1 = g\<lparr>gPaused := frame, gAnchor := frame\<rparr>
        in Inr (if gTransport g1 = TransportRunning then g1\<lparr>gAnchorAt := now\<rparr> else g1))"

definition gen_SetOffset :: "int \<Rightarrow> Generator \<Rightarrow> Generator" where
  "gen_SetOffset off g = g\<lparr>gOffset := off\<rparr>"

definition gen_Sample :: "time \<Rightarrow> Generator \<Rightarrow> tc_error + (Generator \<times> Sample)" where
  "gen_Sample now g =
     (let raw = (if gTransport g = TransportRunning then frameAtLocked g now else gPaused g)
      in case ApplyOffset raw (gOffset g) of Inl e \<Rightarrow> Inl e
         | Inr frame \<Rightarrow>
           (case FromFrameNumber frame (gRate g) of Inl e \<Rightarrow> Inl e
            | Inr tc \<Rightarrow>
              let g1 = g\<lparr>gSequence := gSequence g + 1\<rparr>
              in Inr (g1,
                   \<lparr>sSourceID = ''stagecore.internal'', sKind = SourceInternal, sRate = gRate g,
                    sTimecode = tc, sFrameNumber = frame, sRawFrame = raw, sOffsetFrames = gOffset g,
                    sObservedAt = now, sSequence = gSequence g1, sTransport = gTransport g,
                    sDiscontinuity = False, sDriftFrames = 0\<rparr>)))"

section \<open>The health monitor\<close>

datatype HealthState =
    HealthNone | HealthHealthy | HealthMissing | HealthStale | HealthJump | HealthDiscontinuity
  | HealthDrift | HealthUnstable

datatype detail =
    NoDetail | SourceStable | MarkedDiscontinuity | DriftIs int | IdentityChanged | MovedBackwards
  | FrameJump int int | RepeatedUnhealthy | NoSample | SourceStale

record HealthConfig =
  StaleAfter :: duration
  JumpToleranceFrames :: int
  DriftToleranceFrames :: int
  UnstableAfter :: int

record HealthSnapshot =
  hState :: HealthState
  hSourceID :: string
  hLastFrame :: int
  hLastObservedAt :: time
  hAge :: duration
  hConsecutiveBad :: int
  hDetail :: detail

record Monitor =
  mCfg :: HealthConfig
  mLast :: "Sample option"
  mBad :: int
  mState :: HealthState
  mDetail :: detail

definition NewMonitor :: "HealthConfig \<Rightarrow> Monitor" where
  "NewMonitor cfg =
     \<lparr>mCfg = \<lparr>StaleAfter = (if StaleAfter cfg \<le> 0 then 500 * 1000000 else StaleAfter cfg),
              JumpToleranceFrames = (if JumpToleranceFrames cfg \<le> 0 then 3 else JumpToleranceFrames cfg),
              DriftToleranceFrames = (if DriftToleranceFrames cfg \<le> 0 then 2 else DriftToleranceFrames cfg),
              UnstableAfter = (if UnstableAfter cfg \<le> 0 then 3 else UnstableAfter cfg)\<rparr>,
      mLast = None, mBad = 0, mState = HealthMissing, mDetail = NoDetail\<rparr>"

text \<open>\<open>-v\<close> of the least \<open>int64\<close> is that number again.\<close>

definition abs64 :: "int \<Rightarrow> int" where
  "abs64 v = (if v < 0 then wrap64 (- v) else v)"

definition missing_snapshot :: HealthSnapshot where
  "missing_snapshot =
     \<lparr>hState = HealthMissing, hSourceID = [], hLastFrame = 0, hLastObservedAt = zero_time, hAge = 0,
      hConsecutiveBad = 0, hDetail = NoSample\<rparr>"

definition snapshotAt :: "Monitor \<Rightarrow> time \<Rightarrow> HealthSnapshot" where
  "snapshotAt m now =
     (case mLast m of None \<Rightarrow> missing_snapshot
      | Some l \<Rightarrow>
        \<lparr>hState = mState m, hSourceID = sSourceID l, hLastFrame = sFrameNumber l,
         hLastObservedAt = sObservedAt l, hAge = time_sub now (sObservedAt l),
         hConsecutiveBad = mBad m, hDetail = mDetail m\<rparr>)"

text \<open>The verdict on one sample, before repeated failures are counted.\<close>

definition judge :: "Monitor \<Rightarrow> Sample \<Rightarrow> HealthState \<times> detail" where
  "judge m s =
     (if sDiscontinuity s then (HealthDiscontinuity, MarkedDiscontinuity)
      else if abs64 (sDriftFrames s) > DriftToleranceFrames (mCfg m) then (HealthDrift, DriftIs (sDriftFrames s))
      else case mLast m of None \<Rightarrow> (HealthHealthy, SourceStable)
      | Some l \<Rightarrow>
        if sSourceID s \<noteq> sSourceID l \<or> sRate s \<noteq> sRate l then (HealthDiscontinuity, IdentityChanged)
        else if sFrameNumber s < sFrameNumber l then (HealthDiscontinuity, MovedBackwards)
        else
          let elapsed = time_sub (sObservedAt s) (sObservedAt l);
              expected = framesForDuration elapsed (sRate s);
              actual = wrap64 (sFrameNumber s - sFrameNumber l)
          in if abs64 (wrap64 (actual - expected)) > JumpToleranceFrames (mCfg m)
             then (HealthJump, FrameJump expected actual)
             else (HealthHealthy, SourceStable))"

definition mon_Observe :: "Monitor \<Rightarrow> Sample \<Rightarrow> Monitor \<times> HealthSnapshot" where
  "mon_Observe m s =
     (let (st, dt) = judge m s;
          (bad, st', dt') =
            (if st = HealthHealthy then (0, st, dt)
             else
               let bad = wrap64 (mBad m + 1)
               in if bad \<ge> UnstableAfter (mCfg m) then (bad, HealthUnstable, RepeatedUnhealthy)
                  else (bad, st, dt));
          m' = m\<lparr>mLast := Some s, mBad := bad, mState := st', mDetail := dt'\<rparr>
      in (m', snapshotAt m' (sObservedAt s)))"

definition mon_Assess :: "Monitor \<Rightarrow> time \<Rightarrow> HealthSnapshot" where
  "mon_Assess m now =
     (case mLast m of None \<Rightarrow> missing_snapshot
      | Some l \<Rightarrow>
        let age = time_sub now (sObservedAt l)
        in if age > StaleAfter (mCfg m)
           then \<lparr>hState = HealthStale, hSourceID = sSourceID l, hLastFrame = sFrameNumber l,
                 hLastObservedAt = sObservedAt l, hAge = age, hConsecutiveBad = mBad m, hDetail = SourceStale\<rparr>
           else snapshotAt m now)"

section \<open>The source coordinator\<close>

record SourceSelection =
  selSourceID :: string
  selKind :: SourceKind
  selRate :: Rate
  selOffsetFrames :: int

record Coordinator =
  cSelected :: "SourceSelection option"
  cShowLocked :: bool

datatype coord_error = SourceIDRequired | SelectRate tc_error | ErrShowSourceLocked | NoSourceToLock

definition newCoordinator :: Coordinator where
  "newCoordinator = \<lparr>cSelected = None, cShowLocked = False\<rparr>"

definition coord_Select :: "SourceSelection \<Rightarrow> Coordinator \<Rightarrow> Coordinator \<times> coord_error option" where
  "coord_Select source c =
     (if trim_space (selSourceID source) = [] then (c, Some SourceIDRequired)
      else case ValidateRate (selRate source) of Some e \<Rightarrow> (c, Some (SelectRate e))
      | None \<Rightarrow>
        if cShowLocked c \<and> cSelected c \<noteq> None \<and> cSelected c \<noteq> Some source then (c, Some ErrShowSourceLocked)
        else (c\<lparr>cSelected := Some source\<rparr>, None))"

definition coord_LockForShow :: "Coordinator \<Rightarrow> Coordinator \<times> coord_error option" where
  "coord_LockForShow c =
     (if cSelected c = None then (c, Some NoSourceToLock) else (c\<lparr>cShowLocked := True\<rparr>, None))"

definition coord_UnlockAfterShow :: "Coordinator \<Rightarrow> Coordinator" where
  "coord_UnlockAfterShow c = c\<lparr>cShowLocked := False\<rparr>"

definition AllowsAutomaticBinding :: "Coordinator \<Rightarrow> Sample \<Rightarrow> HealthSnapshot \<Rightarrow> bool" where
  "AllowsAutomaticBinding c s h \<longleftrightarrow>
     (case cSelected c of None \<Rightarrow> False
      | Some sel \<Rightarrow> sSourceID s = selSourceID sel \<and> sKind s = selKind sel \<and> sRate s = selRate sel
                    \<and> hState h = HealthHealthy)"

section \<open>The cue scheduler\<close>

record Binding =
  bBindingID :: string
  bCueID :: string
  bTargetFrame :: int
  bExpiryFrames :: int
  bEnabled :: bool

record CommandContext =
  xProjectID :: string
  xRuntimeSnapshotID :: string
  xSessionID :: string
  xSourceID :: string
  xEpoch :: string

record CueCommand =
  cmdCommandID :: string
  cmdBindingID :: string
  cmdCueID :: string
  cmdTriggerFrame :: int
  cmdExpiresAtFrame :: int

datatype DecisionState = DecisionFire | DecisionDuplicate | DecisionExpired | DecisionInhibited

datatype reason = NoReason | SourceNotSafe | WindowExpired | AlreadyFired | SourceNotHealthy | NotNextCue

record Decision =
  decState :: DecisionState
  decBindingID :: string
  decCommand :: "CueCommand option"
  decReason :: reason

text \<open>
  SHA-256 is the parameter \<open>sha\<close> from a text to its 32 digest bytes. \<open>uuid_of\<close> stamps the version
  and variant bits and writes the first 16 bytes in UUID form.
\<close>

definition decimal :: "int \<Rightarrow> string" where
  "decimal n = (if n < 0 then ''-'' @ digits_of (nat (- n)) else digits_of (nat n))"

fun join_with :: "string \<Rightarrow> string list \<Rightarrow> string" where
  "join_with sep [] = []"
| "join_with sep [w] = w"
| "join_with sep (w # ws) = w @ sep @ join_with sep ws"

definition hex_digit :: "byte \<Rightarrow> char" where
  "hex_digit n = ''0123456789abcdef'' ! unat (n AND 0x0F)"

definition hex_encode :: "byte list \<Rightarrow> string" where
  "hex_encode bs = concat (map (\<lambda>b. [hex_digit (drop_bit 4 b), hex_digit b]) bs)"

definition slice :: "'a list \<Rightarrow> nat \<Rightarrow> nat \<Rightarrow> 'a list" where
  "slice xs a b = take (b - a) (drop a xs)"

definition uuid_of :: "byte list \<Rightarrow> string" where
  "uuid_of digest0 =
     (let digest1 = digest0[6 := (digest0 ! 6 AND 0x0F) OR 0x50];
          digest = digest1[8 := (digest1 ! 8 AND 0x3F) OR 0x80];
          raw = hex_encode (take 16 digest)
      in slice raw 0 8 @ ''-'' @ slice raw 8 12 @ ''-'' @ slice raw 12 16 @ ''-'' @ slice raw 16 20
         @ ''-'' @ slice raw 20 32)"

definition commandID :: "(string \<Rightarrow> byte list) \<Rightarrow> CommandContext \<Rightarrow> Binding \<Rightarrow> string" where
  "commandID sha x b =
     uuid_of (sha (join_with ''|''
       [''timecode.cue.v1'', xProjectID x, xRuntimeSnapshotID x, xSessionID x, xSourceID x, xEpoch x,
        bBindingID b, decimal (bTargetFrame b)]))"

text \<open>Bindings by target frame, then by id. Ids are distinct in a configuration, so no two are tied.\<close>

definition binding_order :: "Binding list \<Rightarrow> Binding list" where
  "binding_order bs = sort_key (\<lambda>b. (bTargetFrame b, bBindingID b)) bs"

definition unsafe_source :: "Sample \<Rightarrow> Sample \<Rightarrow> HealthSnapshot \<Rightarrow> bool" where
  "unsafe_source prev cur h \<longleftrightarrow>
     hState h \<noteq> HealthHealthy \<or> sSourceID prev \<noteq> sSourceID cur \<or> sRate prev \<noteq> sRate cur
   \<or> sFrameNumber cur < sFrameNumber prev \<or> sDiscontinuity cur"

definition inhibitedDecisions :: "Binding list \<Rightarrow> reason \<Rightarrow> Decision list" where
  "inhibitedDecisions bs why =
     map (\<lambda>b. \<lparr>decState = DecisionInhibited, decBindingID = bBindingID b, decCommand = None, decReason = why\<rparr>)
       (filter bEnabled bs)"

text \<open>One binding of the loop: the ids fired so far and the decisions made.\<close>

definition schedule_one :: "(Binding \<Rightarrow> string) \<Rightarrow> int \<Rightarrow> int \<Rightarrow> Binding
    \<Rightarrow> string set \<times> Decision list \<Rightarrow> string set \<times> Decision list" where
  "schedule_one cid prevFrame curFrame b st =
     (let (fired, out) = st in
      if \<not> bEnabled b \<or> trim_space (bBindingID b) = [] \<or> trim_space (bCueID b) = [] \<or> bTargetFrame b < 0
      then (fired, out)
      else if \<not> (prevFrame < bTargetFrame b \<and> curFrame \<ge> bTargetFrame b) then (fired, out)
      else
        let expiry = (if bExpiryFrames b < 0 then 0 else bExpiryFrames b)
        in if curFrame > wrap64 (bTargetFrame b + expiry)
           then (fired, out @ [\<lparr>decState = DecisionExpired, decBindingID = bBindingID b, decCommand = None,
                               decReason = WindowExpired\<rparr>])
           else if cid b \<in> fired
           then (fired, out @ [\<lparr>decState = DecisionDuplicate, decBindingID = bBindingID b, decCommand = None,
                               decReason = AlreadyFired\<rparr>])
           else (insert (cid b) fired,
                 out @ [\<lparr>decState = DecisionFire, decBindingID = bBindingID b,
                         decCommand = Some \<lparr>cmdCommandID = cid b, cmdBindingID = bBindingID b,
                                           cmdCueID = bCueID b, cmdTriggerFrame = bTargetFrame b,
                                           cmdExpiresAtFrame = wrap64 (bTargetFrame b + expiry)\<rparr>,
                         decReason = NoReason\<rparr>]))"

text \<open>The state of the scheduler is the set of command ids it has fired.\<close>

definition sched_Evaluate :: "(string \<Rightarrow> byte list) \<Rightarrow> string set \<Rightarrow> Sample \<Rightarrow> Sample \<Rightarrow> HealthSnapshot
    \<Rightarrow> Binding list \<Rightarrow> CommandContext \<Rightarrow> string set \<times> Decision list" where
  "sched_Evaluate sha fired prev cur h bindings x =
     (if unsafe_source prev cur h then (fired, inhibitedDecisions (binding_order bindings) SourceNotSafe)
      else foldl (\<lambda>st b. schedule_one (commandID sha x) (sFrameNumber prev) (sFrameNumber cur) b st)
             (fired, []) (binding_order bindings))"

section \<open>The configuration a manifest seals\<close>

record ManifestConfiguration =
  mcEnabled :: bool
  mcTargetRef :: string
  mcSource :: SourceSelection
  mcStartFrame :: int
  mcBindings :: "Binding list"

record Target =
  tAliasID :: string
  tTargetRef :: string
  tLogicalType :: string
  tConfiguration :: string

record sourceTargetConfiguration =
  stcSourceID :: string
  stcKind :: string
  stcRate :: string
  stcOffsetFrames :: int
  stcStart :: string

text \<open>The \<open>timecode\<close> object of a cue's execution policy, where it has one.\<close>

record TimecodePolicy =
  tpBindingID :: string
  tpAt :: string
  tpExpiryFrames :: int
  tpEnabled :: "bool option"

text \<open>
  \<open>strings.EqualFold\<close> with \<open>TIMECODE_SOURCE\<close>: ASCII letters fold, and so do the two runes beyond
  ASCII that fold to an ASCII letter (U+017F to S, U+212A to K).
\<close>

fun fold_key :: "string \<Rightarrow> string" where
  "fold_key [] = []"
| "fold_key (a # s) =
     (case s of [] \<Rightarrow> [up_char a]
      | b # s' \<Rightarrow>
        (if a = CHR 0xC5 \<and> b = CHR 0xBF then CHR ''S'' # fold_key s'
         else case s' of [] \<Rightarrow> up_char a # fold_key s
         | c # s'' \<Rightarrow> (if a = CHR 0xE2 \<and> b = CHR 0x84 \<and> c = CHR 0xAA then CHR ''K'' # fold_key s''
                      else up_char a # fold_key s)))"

definition SourceTargetLogicalType :: string where
  "SourceTargetLogicalType = ''TIMECODE_SOURCE''"

datatype config_error =
    MultipleTargets | PolicyUndecodable string | BindingsNeedTarget | SourceUndecodable string
  | SourceIDMissing | UnsupportedKind string | RateError tc_error | MTCRateUnsupported string
  | StartError tc_error | DuplicateBinding string | BindingNeedsAt string | BindingTimecode string tc_error
  | BindingFrame tc_error | NegativeExpiry string

text \<open>Two decoders stand for \<open>json.Unmarshal\<close>: of the target's configuration and of a cue's policy.\<close>

definition decodeCueTimecodePolicy ::
  "(string \<Rightarrow> TimecodePolicy option option) \<Rightarrow> ('a CueHead_scheme) \<Rightarrow> config_error + TimecodePolicy option" where
  "decodeCueTimecodePolicy um cue =
     (let raw = cueExecutionPolicy cue in
      if raw = [] \<or> raw = ''{}'' \<or> raw = ''null'' then Inr None
      else case um raw of None \<Rightarrow> Inl (PolicyUndecodable (cueID cue)) | Some p \<Rightarrow> Inr p)"

fun find_target :: "Target option \<Rightarrow> Target list \<Rightarrow> config_error + Target option" where
  "find_target t [] = Inr t"
| "find_target t (c # cs) =
     (if fold_key (trim_space (tLogicalType c)) \<noteq> fold_key SourceTargetLogicalType then find_target t cs
      else if t \<noteq> None then Inl MultipleTargets
      else find_target (Some c) cs)"

fun bindings_present :: "(string \<Rightarrow> TimecodePolicy option option) \<Rightarrow> ('a CueHead_scheme) list \<Rightarrow> config_error + bool" where
  "bindings_present um [] = Inr False"
| "bindings_present um (c # cs) =
     (case decodeCueTimecodePolicy um c of Inl e \<Rightarrow> Inl e
      | Inr (Some _) \<Rightarrow> Inr True
      | Inr None \<Rightarrow> bindings_present um cs)"

fun collect_bindings :: "(string \<Rightarrow> TimecodePolicy option option) \<Rightarrow> Rate \<Rightarrow> ('a CueHead_scheme) list
    \<Rightarrow> Binding list \<Rightarrow> config_error + Binding list" where
  "collect_bindings um rate [] acc = Inr acc"
| "collect_bindings um rate (cue # cs) acc =
     (case decodeCueTimecodePolicy um cue of Inl e \<Rightarrow> Inl e
      | Inr None \<Rightarrow> collect_bindings um rate cs acc
      | Inr (Some p) \<Rightarrow>
        let bindingEnabled = (case tpEnabled p of Some e \<Rightarrow> e | None \<Rightarrow> True);
            id0 = trim_space (tpBindingID p);
            bid = (if id0 = [] then ''cue:'' @ cueID cue else id0)
        in if bid \<in> set (map bBindingID acc) then Inl (DuplicateBinding bid)
           else
             let atText = trim_space (tpAt p)
             in if atText = [] then Inl (BindingNeedsAt bid)
                else case ParseTimecode atText rate of Inl e \<Rightarrow> Inl (BindingTimecode bid e)
                | Inr tc \<Rightarrow>
                  (case FrameNumber tc of Inl e \<Rightarrow> Inl (BindingFrame e)
                   | Inr targetFrame \<Rightarrow>
                     if tpExpiryFrames p < 0 then Inl (NegativeExpiry bid)
                     else collect_bindings um rate cs
                            (acc @ [\<lparr>bBindingID = bid, bCueID = cueID cue, bTargetFrame = targetFrame,
                                     bExpiryFrames = tpExpiryFrames p, bEnabled = bindingEnabled \<and> cueEnabled cue\<rparr>])))"

definition zero_rate :: Rate where
  "zero_rate = mk_rate [] 0 0 0 False"

definition disabled_configuration :: ManifestConfiguration where
  "disabled_configuration =
     \<lparr>mcEnabled = False, mcTargetRef = [],
      mcSource = \<lparr>selSourceID = [], selKind = SourceOther [], selRate = zero_rate, selOffsetFrames = 0\<rparr>,
      mcStartFrame = 0, mcBindings = []\<rparr>"

definition kind_of :: "string \<Rightarrow> SourceKind" where
  "kind_of k =
     (if k = ''INTERNAL'' then SourceInternal else if k = ''MTC'' then SourceMTC
      else if k = ''LTC'' then SourceLTC else SourceOther k)"

text \<open>The start frame of the configuration; a blank text starts at frame 0.\<close>

definition start_frame :: "string \<Rightarrow> Rate \<Rightarrow> config_error + int" where
  "start_frame start rate =
     (if trim_space start = [] then Inr 0
      else case ParseTimecode start rate of Inl e \<Rightarrow> Inl (StartError e)
      | Inr tc \<Rightarrow> (case FrameNumber tc of Inl e \<Rightarrow> Inl (BindingFrame e) | Inr f \<Rightarrow> Inr f))"

definition ResolveManifestConfiguration ::
  "(string \<Rightarrow> sourceTargetConfiguration option) \<Rightarrow> (string \<Rightarrow> TimecodePolicy option option)
    \<Rightarrow> Target list \<Rightarrow> ('a CueHead_scheme) list \<Rightarrow> config_error + ManifestConfiguration" where
  "ResolveManifestConfiguration ut um targets cues =
     (case find_target None targets of Inl e \<Rightarrow> Inl e
      | Inr tgt \<Rightarrow>
        (case bindings_present um cues of Inl e \<Rightarrow> Inl e
         | Inr present \<Rightarrow>
           (case tgt of
              None \<Rightarrow> (if present then Inl BindingsNeedTarget else Inr disabled_configuration)
            | Some target \<Rightarrow>
              (case ut (tConfiguration target) of None \<Rightarrow> Inl (SourceUndecodable (tTargetRef target))
               | Some raw \<Rightarrow>
                 let sid0 = trim_space (stcSourceID raw);
                     sid = (if sid0 = [] then trim_space (tTargetRef target) else sid0);
                     kind = kind_of (to_upper (trim_space (stcKind raw)))
                 in if sid = [] then Inl SourceIDMissing
                    else if (case kind of SourceOther _ \<Rightarrow> True | _ \<Rightarrow> False)
                    then Inl (UnsupportedKind (to_upper (trim_space (stcKind raw))))
                    else
                      (case ParseRate (stcRate raw) of Inl e \<Rightarrow> Inl (RateError e)
                       | Inr rate \<Rightarrow>
                         if kind = SourceMTC \<and> MTCCode rate = None then Inl (MTCRateUnsupported (rName rate))
                         else
                           (case start_frame (stcStart raw) rate of Inl e \<Rightarrow> Inl e
                            | Inr startFrame \<Rightarrow>
                              (case collect_bindings um rate cues [] of Inl e \<Rightarrow> Inl e
                               | Inr bs \<Rightarrow>
                                 Inr \<lparr>mcEnabled = True, mcTargetRef = tTargetRef target,
                                      mcSource = \<lparr>selSourceID = sid, selKind = kind, selRate = rate,
                                                  selOffsetFrames = stcOffsetFrames raw\<rparr>,
                                      mcStartFrame = startFrame, mcBindings = binding_order bs\<rparr>)))))))"

definition NormalizeRawFrame :: "ManifestConfiguration \<Rightarrow> int \<Rightarrow> int \<Rightarrow> int \<Rightarrow> bool \<Rightarrow> (unit + tc_error) + Sample" where
  "NormalizeRawFrame c rawFrame observedAtUnixNano driftFrames discontinuity =
     (if \<not> mcEnabled c then Inl (Inl ())
      else case ApplyOffset rawFrame (selOffsetFrames (mcSource c)) of Inl e \<Rightarrow> Inl (Inr e)
      | Inr frame \<Rightarrow>
        (case FromFrameNumber frame (selRate (mcSource c)) of Inl e \<Rightarrow> Inl (Inr e)
         | Inr tc \<Rightarrow>
           Inr \<lparr>sSourceID = selSourceID (mcSource c), sKind = selKind (mcSource c), sRate = selRate (mcSource c),
                sTimecode = tc, sFrameNumber = frame, sRawFrame = rawFrame,
                sOffsetFrames = selOffsetFrames (mcSource c), sObservedAt = observedAtUnixNano, sSequence = 0,
                sTransport = TransportRunning, sDiscontinuity = discontinuity, sDriftFrames = driftFrames\<rparr>))"

section \<open>The observation pipeline\<close>

datatype tc_event =
    HealthChanged string HealthState detail int Timecode
  | BindingInhibited string string string
  | BindingTriggered string string string int Timecode
  | BindingResult string string string CommandStatus
  | TransportStarted string string

text \<open>
  What the pipeline reaches outside: \<open>teRecord\<close> appends an event (false is a storage error),
  \<open>teExecuteGo\<close> is the cue executor (absent when none is configured), \<open>teGetSession\<close> reads a session
  back, \<open>teMarshalGo\<close> is the JSON text of a GO payload, \<open>teFramesToDuration\<close> the floating-point
  conversion of the deadline, \<open>teNow\<close> the clock.
\<close>

record 'w tc_env =
  teRecord :: "'w \<Rightarrow> tc_event \<Rightarrow> 'w \<times> bool"
  teExecuteGo :: "('w \<Rightarrow> string \<Rightarrow> CommandEnvelope \<Rightarrow> 'w \<times> CommandResult) option"
  teGetSession :: "'w \<Rightarrow> string \<Rightarrow> Session option"
  teMarshalGo :: "CueGoPayload \<Rightarrow> string"
  teFramesToDuration :: "int \<Rightarrow> Rate \<Rightarrow> duration"
  teNow :: "'w \<Rightarrow> time"

record RuntimeState =
  rsConfiguration :: ManifestConfiguration
  rsMonitor :: Monitor
  rsCoordinator :: Coordinator
  rsFired :: "string set"
  rsPrevious :: "Sample option"
  rsLastHealth :: HealthState
  rsGenerator :: "Generator option"
  rsMtc :: MTCDecoder

record ObservationResult =
  orHealth :: HealthSnapshot
  orDecisions :: "Decision list"
  orCommands :: "CommandResult list"

datatype obs_error =
    SourceMismatch | RecordFailed | NoExecutor | SessionLost | ObsTimecode tc_error | WrongKind
  | RateMismatch | NotStarted

text \<open>The next enabled cue after the current one, the first enabled cue when there is none.\<close>

definition cues_after :: "string \<Rightarrow> ('a CueHead_scheme) list \<Rightarrow> ('a CueHead_scheme) list option" where
  "cues_after cur cues =
     (if cur = [] then Some cues
      else case dropWhile (\<lambda>c. cueID c \<noteq> cur) cues of [] \<Rightarrow> None | _ # rest \<Rightarrow> Some rest)"

definition nextEnabledCueID :: "('a CueHead_scheme) list \<Rightarrow> string option \<Rightarrow> string" where
  "nextEnabledCueID cues current =
     (case cues_after (case current of Some c \<Rightarrow> c | None \<Rightarrow> []) cues of
        None \<Rightarrow> []
      | Some rest \<Rightarrow> (case find cueEnabled rest of Some c \<Rightarrow> cueID c | None \<Rightarrow> []))"

definition go_envelope :: "'w tc_env \<Rightarrow> Session \<Rightarrow> Sample \<Rightarrow> Decision \<Rightarrow> CueCommand \<Rightarrow> CommandEnvelope" where
  "go_envelope env session sample d cmd =
     \<lparr>ceCommandID = cmdCommandID cmd, ceCommandType = CueGoCommandType, ceSchemaVersion = SchemaVersion1,
      ceIssuedAt = sObservedAt sample,
      ceDeadlineAt = Some (sObservedAt sample
        + teFramesToDuration env (wrap64 (cmdExpiresAtFrame cmd - sFrameNumber sample)) (sRate sample)),
      ceProjectID = sesProjectID session, ceRuntimeSnapshotID = sesRuntimeSnapshotID session,
      ceIssuer = ''timecode:'' @ sSourceID sample, ceCorrelationID = ''timecode:'' @ decBindingID d,
      ceCausationID = [], cePriority = ''P1'', ceIdempotencyKey = cmdCommandID cmd,
      cePayload = teMarshalGo env
        \<lparr>ExpectedCurrentCueID = sesCurrentCueID session, RequestedNextCueID = Some (cmdCueID cmd),
         OperatorNote = None\<rparr>\<rparr>"

text \<open>
  The loop over the decisions: \<open>pre\<close> holds the decisions already settled, so that an early return
  yields the settled and the remaining ones, as the copied slice of the code does.
\<close>

fun fire_loop :: "'w tc_env \<Rightarrow> ('a CueHead_scheme) list \<Rightarrow> Sample \<Rightarrow> Decision list \<Rightarrow> Decision list
    \<Rightarrow> CommandResult list \<Rightarrow> Session \<Rightarrow> 'w \<Rightarrow> 'w \<times> Decision list \<times> CommandResult list \<times> obs_error option" where
  "fire_loop env cues sample [] pre cmds session w = (w, pre, cmds, None)"
| "fire_loop env cues sample (d # ds) pre cmds session w =
     (if decState d \<noteq> DecisionFire \<or> decCommand d = None
      then fire_loop env cues sample ds (pre @ [d]) cmds session w
      else
        let cmd = the (decCommand d);
            nextCue = nextEnabledCueID cues (sesCurrentCueID session)
        in if nextCue = [] \<or> nextCue \<noteq> cmdCueID cmd
           then
             let d' = \<lparr>decState = DecisionInhibited, decBindingID = decBindingID d, decCommand = None, decReason = NotNextCue\<rparr>;
                 (w1, ok) = teRecord env w (BindingInhibited (decBindingID d) (cmdCueID cmd) nextCue)
             in if \<not> ok then (w1, pre @ d' # ds, cmds, Some RecordFailed)
                else fire_loop env cues sample ds (pre @ [d']) cmds session w1
           else if sFrameNumber sample > cmdExpiresAtFrame cmd
           then fire_loop env cues sample ds (pre @ [d]) cmds session w
           else
             let envelope = go_envelope env session sample d cmd;
                 (w1, ok1) = teRecord env w (BindingTriggered (decBindingID d) (cmdCueID cmd) (cmdCommandID cmd)
                                               (sFrameNumber sample) (sTimecode sample))
             in if \<not> ok1 then (w1, pre @ d # ds, cmds, Some RecordFailed)
                else case teExecuteGo env of
                  None \<Rightarrow> (w1, pre @ d # ds, cmds, Some NoExecutor)
                | Some exec \<Rightarrow>
                  let (w2, r) = exec w1 (sesID session) envelope;
                      cmds' = cmds @ [r];
                      (w3, ok3) = teRecord env w2 (BindingResult (decBindingID d) (cmdCueID cmd) (cmdCommandID cmd) (resStatus r))
                  in if \<not> ok3 then (w3, pre @ d # ds, cmds', Some RecordFailed)
                     else case teGetSession env w3 (sesID session) of
                       None \<Rightarrow> (w3, pre @ d # ds, cmds', Some SessionLost)
                     | Some updated \<Rightarrow> fire_loop env cues sample ds (pre @ [d]) cmds' updated w3)"

definition command_context :: "Session \<Rightarrow> Sample \<Rightarrow> CommandContext" where
  "command_context session sample =
     \<lparr>xProjectID = sesProjectID session, xRuntimeSnapshotID = sesRuntimeSnapshotID session,
      xSessionID = sesID session, xSourceID = sSourceID sample, xEpoch = sesID session\<rparr>"

text \<open>\<open>observeNormalized\<close> once \<open>stateForSession\<close> has found the state, the session and the manifest.\<close>

definition observeNormalized :: "'w tc_env \<Rightarrow> (string \<Rightarrow> byte list) \<Rightarrow> ('a CueHead_scheme) list \<Rightarrow> Session
    \<Rightarrow> RuntimeState \<Rightarrow> Sample \<Rightarrow> 'w \<Rightarrow> 'w \<times> RuntimeState \<times> (obs_error + ObservationResult) \<times> obs_error option" where
  "observeNormalized env sha cues session st sample0 w =
     (let src = mcSource (rsConfiguration st) in
      if sSourceID sample0 \<noteq> selSourceID src \<or> sKind sample0 \<noteq> selKind src \<or> sRate sample0 \<noteq> selRate src
      then (w, st, Inl SourceMismatch, Some SourceMismatch)
      else
        let sample = (if is_zero (sObservedAt sample0) then sample0\<lparr>sObservedAt := teNow env w\<rparr> else sample0);
            (mon, health) = mon_Observe (rsMonitor st) sample;
            previousHealth = rsLastHealth st;
            previous = rsPrevious st;
            st1 = st\<lparr>rsMonitor := mon, rsLastHealth := hState health, rsPrevious := Some sample,
                     rsCoordinator := (if sesType session = SessionShow then fst (coord_LockForShow (rsCoordinator st))
                                       else rsCoordinator st)\<rparr>;
            (w1, ok) = (if previousHealth \<noteq> hState health
                        then teRecord env w (HealthChanged (sSourceID sample) (hState health) (hDetail health)
                                               (sFrameNumber sample) (sTimecode sample))
                        else (w, True))
        in if \<not> ok then (w1, st1, Inl RecordFailed, Some RecordFailed)
           else case previous of
             None \<Rightarrow> (w1, st1, Inr \<lparr>orHealth = health, orDecisions = [], orCommands = []\<rparr>, None)
           | Some prev \<Rightarrow>
             if \<not> AllowsAutomaticBinding (rsCoordinator st1) sample health
             then (w1, st1,
                   Inr \<lparr>orHealth = health,
                        orDecisions = inhibitedDecisions (mcBindings (rsConfiguration st)) SourceNotHealthy,
                        orCommands = []\<rparr>, None)
             else
               let (fired, decisions) = sched_Evaluate sha (rsFired st1) prev sample health
                                          (mcBindings (rsConfiguration st)) (command_context session sample);
                   (w2, ds, cmds, e) = fire_loop env cues sample decisions [] [] session w1
               in (w2, st1\<lparr>rsFired := fired\<rparr>,
                   Inr \<lparr>orHealth = health, orDecisions = ds, orCommands = cmds\<rparr>, e))"

section \<open>Ingesting frames\<close>

text \<open>A fresh runtime state, as \<open>stateForSession\<close> makes it.\<close>

definition default_health_config :: HealthConfig where
  "default_health_config = \<lparr>StaleAfter = 0, JumpToleranceFrames = 0, DriftToleranceFrames = 0, UnstableAfter = 0\<rparr>"

definition newRuntimeState :: "ManifestConfiguration \<Rightarrow> SessionType \<Rightarrow> coord_error + RuntimeState" where
  "newRuntimeState cfg ty =
     (let mk = (\<lambda>c. Inr \<lparr>rsConfiguration = cfg, rsMonitor = NewMonitor default_health_config,
                        rsCoordinator = c, rsFired = {}, rsPrevious = None, rsLastHealth = HealthMissing,
                        rsGenerator = None, rsMtc = mtc_Reset newMTCDecoder\<rparr>)
      in if \<not> mcEnabled cfg then mk newCoordinator
         else case coord_Select (mcSource cfg) newCoordinator of
           (_, Some e) \<Rightarrow> Inl e
         | (c, None) \<Rightarrow>
           if ty \<noteq> SessionShow then mk c
           else case coord_LockForShow c of (_, Some e) \<Rightarrow> Inl e | (c', None) \<Rightarrow> mk c')"

definition IngestFrame :: "'w tc_env \<Rightarrow> (string \<Rightarrow> byte list) \<Rightarrow> ('a CueHead_scheme) list \<Rightarrow> Session
    \<Rightarrow> string \<Rightarrow> SourceKind \<Rightarrow> Rate \<Rightarrow> int \<Rightarrow> time \<Rightarrow> int \<Rightarrow> bool \<Rightarrow> RuntimeState \<Rightarrow> 'w
    \<Rightarrow> 'w \<times> RuntimeState \<times> (obs_error + ObservationResult) \<times> obs_error option" where
  "IngestFrame env sha cues session sourceID kind rate rawFrame observedAt driftFrames discontinuity st w =
     (let src = mcSource (rsConfiguration st) in
      if sourceID \<noteq> selSourceID src \<or> kind \<noteq> selKind src \<or> rate \<noteq> selRate src
      then (w, st, Inl SourceMismatch, Some SourceMismatch)
      else case ApplyOffset rawFrame (selOffsetFrames src) of
        Inl e \<Rightarrow> (w, st, Inl (ObsTimecode e), Some (ObsTimecode e))
      | Inr frame \<Rightarrow>
        (case FromFrameNumber frame rate of
           Inl e \<Rightarrow> (w, st, Inl (ObsTimecode e), Some (ObsTimecode e))
         | Inr tc \<Rightarrow>
           observeNormalized env sha cues session st
             \<lparr>sSourceID = sourceID, sKind = kind, sRate = rate, sTimecode = tc, sFrameNumber = frame,
              sRawFrame = rawFrame, sOffsetFrames = selOffsetFrames src, sObservedAt = observedAt, sSequence = 0,
              sTransport = TransportRunning, sDiscontinuity = discontinuity, sDriftFrames = driftFrames\<rparr> w))"

text \<open>The extra component says whether a complete timecode was decoded.\<close>

definition IngestMTCQuarterFrame :: "'w tc_env \<Rightarrow> (string \<Rightarrow> byte list) \<Rightarrow> ('a CueHead_scheme) list \<Rightarrow> Session
    \<Rightarrow> byte \<Rightarrow> time \<Rightarrow> RuntimeState \<Rightarrow> 'w
    \<Rightarrow> 'w \<times> RuntimeState \<times> (obs_error + ObservationResult) option \<times> bool \<times> obs_error option" where
  "IngestMTCQuarterFrame env sha cues session data observedAt st w =
     (if selKind (mcSource (rsConfiguration st)) \<noteq> SourceMTC then (w, st, None, False, Some WrongKind)
      else
        let (d, out) = mtc_Push (rsMtc st) data; st1 = st\<lparr>rsMtc := d\<rparr>
        in case out of
             MtcPending \<Rightarrow> (w, st1, None, False, None)
           | MtcError e \<Rightarrow> (w, st1, None, False, Some (ObsTimecode e))
           | MtcTimecode tc \<Rightarrow>
             if tcRate tc \<noteq> selRate (mcSource (rsConfiguration st1)) then (w, st1, None, True, Some RateMismatch)
             else case FrameNumber tc of Inl e \<Rightarrow> (w, st1, None, True, Some (ObsTimecode e))
             | Inr rawFrame \<Rightarrow>
               let (w', st', r, e) = IngestFrame env sha cues session (selSourceID (mcSource (rsConfiguration st1)))
                     SourceMTC (tcRate tc) rawFrame observedAt 0 False st1 w
               in (w', st', Some r, True, e))"

definition StartInternal :: "'w tc_env \<Rightarrow> time \<Rightarrow> RuntimeState \<Rightarrow> 'w \<Rightarrow> 'w \<times> RuntimeState \<times> obs_error option" where
  "StartInternal env now st w =
     (let src = mcSource (rsConfiguration st) in
      if \<not> mcEnabled (rsConfiguration st) \<or> selKind src \<noteq> SourceInternal then (w, st, Some WrongKind)
      else case NewGenerator (selRate src) (mcStartFrame (rsConfiguration st)) (selOffsetFrames src) of
        Inl e \<Rightarrow> (w, st, Some (ObsTimecode e))
      | Inr g \<Rightarrow>
        (let st' = st\<lparr>rsGenerator := Some (gen_Start now g)\<rparr>;
             (w', ok) = teRecord env w (TransportStarted (selSourceID src) (rName (selRate src)))
         in (w', st', if ok then None else Some RecordFailed)))"

definition PollInternal :: "'w tc_env \<Rightarrow> (string \<Rightarrow> byte list) \<Rightarrow> ('a CueHead_scheme) list \<Rightarrow> Session
    \<Rightarrow> time \<Rightarrow> RuntimeState \<Rightarrow> 'w \<Rightarrow> 'w \<times> RuntimeState \<times> (obs_error + ObservationResult) \<times> obs_error option" where
  "PollInternal env sha cues session now st w =
     (case rsGenerator st of None \<Rightarrow> (w, st, Inl NotStarted, Some NotStarted)
      | Some g \<Rightarrow>
        (case gen_Sample now g of Inl e \<Rightarrow> (w, st, Inl (ObsTimecode e), Some (ObsTimecode e))
         | Inr (g', sample) \<Rightarrow>
           observeNormalized env sha cues session (st\<lparr>rsGenerator := Some g'\<rparr>)
             (sample\<lparr>sSourceID := selSourceID (mcSource (rsConfiguration st))\<rparr>) w))"

end
