(* ===== verification/TimecodeSafety.thy ===== *)
theory TimecodeSafety
  imports TimecodeRuntime "HOL-Library.Sublist"
begin

text \<open>
  What the timecode runtime guarantees: a command identity fires at most once, exactly the due
  bindings of a healthy, forward-moving source fire, a GO is sent only for the next enabled cue,
  a jump never fires, a locked SHOW source stays selected, and the generator does not drift.
\<close>

section \<open>Firing once\<close>

definition fired_ids :: "Decision list \<Rightarrow> string list" where
  "fired_ids ds = map (\<lambda>d. cmdCommandID (the (decCommand d)))
     (filter (\<lambda>d. decState d = DecisionFire \<and> decCommand d \<noteq> None) ds)"

lemma fired_ids_append [simp]: "fired_ids (xs @ ys) = fired_ids xs @ fired_ids ys"
  by (simp add: fired_ids_def)

lemma fired_ids_Nil [simp]: "fired_ids [] = []"
  by (simp add: fired_ids_def)

definition due :: "int \<Rightarrow> int \<Rightarrow> Binding \<Rightarrow> bool" where
  "due prev cur b \<longleftrightarrow>
     bEnabled b \<and> trim_space (bBindingID b) \<noteq> [] \<and> trim_space (bCueID b) \<noteq> [] \<and> 0 \<le> bTargetFrame b
   \<and> prev < bTargetFrame b \<and> bTargetFrame b \<le> cur \<and> cur \<le> wrap64 (bTargetFrame b + max 0 (bExpiryFrames b))"

lemma schedule_one_ids:
  assumes "schedule_one cid p c b (fired, out) = (fired', out')"
  shows "\<exists>new. out' = out @ new \<and> fired' = fired \<union> set (fired_ids new)
    \<and> fired_ids new = (if due p c b \<and> cid b \<notin> fired then [cid b] else [])
    \<and> (\<forall>d\<in>set new. decState d = DecisionFire \<longrightarrow> (\<exists>cmd. decCommand d = Some cmd \<and> c \<le> cmdExpiresAtFrame cmd))"
proof -
  have e: "(if bExpiryFrames b < 0 then 0 else bExpiryFrames b) = max 0 (bExpiryFrames b)" by simp
  show ?thesis
    using assms unfolding schedule_one_def e
    by (simp add: Let_def due_def fired_ids_def split: if_splits; fastforce)
qed

lemma schedule_ids:
  assumes "foldl (\<lambda>st b. schedule_one cid p c b st) (fired, out) bs = (fired', out')"
  shows "\<exists>new. out' = out @ new \<and> fired' = fired \<union> set (fired_ids new)
    \<and> distinct (fired_ids new) \<and> set (fired_ids new) = cid ` {b \<in> set bs. due p c b} - fired
    \<and> (\<forall>d\<in>set new. decState d = DecisionFire \<longrightarrow> (\<exists>cmd. decCommand d = Some cmd \<and> c \<le> cmdExpiresAtFrame cmd))"
  using assms
proof (induction bs arbitrary: fired out)
  case Nil
  then show ?case by simp
next
  case (Cons b bs)
  obtain f1 o1 where 1: "schedule_one cid p c b (fired, out) = (f1, o1)" by fastforce
  obtain n1 where n1: "o1 = out @ n1" "f1 = fired \<union> set (fired_ids n1)"
    "fired_ids n1 = (if due p c b \<and> cid b \<notin> fired then [cid b] else [])"
    "\<forall>d\<in>set n1. decState d = DecisionFire \<longrightarrow> (\<exists>cmd. decCommand d = Some cmd \<and> c \<le> cmdExpiresAtFrame cmd)"
    using schedule_one_ids [OF 1] by blast
  have "foldl (\<lambda>st b. schedule_one cid p c b st) (f1, o1) bs = (fired', out')" using Cons.prems 1 by simp
  from Cons.IH [OF this] obtain n2 where n2: "out' = o1 @ n2" "fired' = f1 \<union> set (fired_ids n2)"
    "distinct (fired_ids n2)" "set (fired_ids n2) = cid ` {b \<in> set bs. due p c b} - f1"
    "\<forall>d\<in>set n2. decState d = DecisionFire \<longrightarrow> (\<exists>cmd. decCommand d = Some cmd \<and> c \<le> cmdExpiresAtFrame cmd)"
    by blast
  show ?case
  proof (intro exI [of _ "n1 @ n2"] conjI)
    show "out' = out @ n1 @ n2" "fired' = fired \<union> set (fired_ids (n1 @ n2))" using n1 n2 by auto
    show "distinct (fired_ids (n1 @ n2))" using n1(2,3) n2(3,4) by auto
    show "set (fired_ids (n1 @ n2)) = cid ` {x \<in> set (b # bs). due p c x} - fired"
      using n1(2,3) n2(4) by auto
    show "\<forall>d\<in>set (n1 @ n2). decState d = DecisionFire \<longrightarrow> (\<exists>cmd. decCommand d = Some cmd \<and> c \<le> cmdExpiresAtFrame cmd)"
      using n1(4) n2(5) by auto
  qed
qed

lemma inhibited_fires_nothing [simp]: "fired_ids (inhibitedDecisions bs why) = []"
  by (simp add: fired_ids_def inhibitedDecisions_def filter_empty_conv)

lemma evaluate_ids:
  assumes "sched_Evaluate sha fired prev cur h bs x = (fired', ds)"
  shows "fired' = fired \<union> set (fired_ids ds) \<and> distinct (fired_ids ds)
    \<and> set (fired_ids ds) = (if unsafe_source prev cur h then {}
        else commandID sha x ` {b \<in> set bs. due (sFrameNumber prev) (sFrameNumber cur) b} - fired)
    \<and> (\<forall>d\<in>set ds. decState d = DecisionFire \<longrightarrow> (\<exists>cmd. decCommand d = Some cmd \<and> sFrameNumber cur \<le> cmdExpiresAtFrame cmd))"
proof (cases "unsafe_source prev cur h")
  case True
  with assms have "fired' = fired" "ds = inhibitedDecisions (binding_order bs) SourceNotSafe"
    by (auto simp: sched_Evaluate_def)
  moreover have "\<forall>d\<in>set ds. decState d \<noteq> DecisionFire"
    using calculation(2) by (auto simp: inhibitedDecisions_def)
  ultimately show ?thesis using True by simp
next
  case False
  with assms have "foldl (\<lambda>st b. schedule_one (commandID sha x) (sFrameNumber prev) (sFrameNumber cur) b st)
             (fired, []) (binding_order bs) = (fired', ds)"
    by (simp add: sched_Evaluate_def)
  from schedule_ids [OF this] False show ?thesis by (auto simp: binding_order_def)
qed

text \<open>A sequence of evaluations on one scheduler; the ids fired by all of them, in order.\<close>

type_synonym evaluation = "Sample \<times> Sample \<times> HealthSnapshot \<times> Binding list \<times> CommandContext"

fun evaluate_all :: "(string \<Rightarrow> byte list) \<Rightarrow> string set \<Rightarrow> evaluation list \<Rightarrow> string list" where
  "evaluate_all sha fired [] = []"
| "evaluate_all sha fired ((prev, cur, h, bs, x) # es) =
     (let (fired', ds) = sched_Evaluate sha fired prev cur h bs x in fired_ids ds @ evaluate_all sha fired' es)"

lemma evaluate_all_fresh:
  "distinct (evaluate_all sha fired es) \<and> set (evaluate_all sha fired es) \<inter> fired = {}"
proof (induction es arbitrary: fired)
  case Nil
  then show ?case by simp
next
  case (Cons e es)
  obtain prev cur h bs x where e: "e = (prev, cur, h, bs, x)" by (cases e)
  obtain fired' ds where d: "sched_Evaluate sha fired prev cur h bs x = (fired', ds)" by fastforce
  have f: "fired' = fired \<union> set (fired_ids ds)" "distinct (fired_ids ds)" "set (fired_ids ds) \<inter> fired = {}"
    using evaluate_ids [OF d] by (auto split: if_splits)
  show ?case using Cons.IH [of fired'] f by (auto simp: e d)
qed

text \<open>
  Over any sequence of evaluations, with any samples, health, bindings and contexts, a
  scheduler never fires the same command identity twice.
\<close>

theorem scheduler_fires_at_most_once: "distinct (evaluate_all sha {} es)"
  using evaluate_all_fresh [of sha "{}" es] by simp

text \<open>
  C24. An evaluation fires exactly the due bindings whose identity has not fired: enabled, crossed
  by this step (previous frame before the target, current frame at or past it) and still in their
  window; and it fires nothing at all when the source is unhealthy, changed identity or rate,
  moved backwards or is discontinuous.
\<close>

theorem scheduler_fires_exactly:
  "set (fired_ids (snd (sched_Evaluate sha fired prev cur h bs x)))
   = (if unsafe_source prev cur h then {}
      else commandID sha x ` {b \<in> set bs. due (sFrameNumber prev) (sFrameNumber cur) b} - fired)"
  using evaluate_ids [of sha fired prev cur h bs x] by (simp add: prod_eq_iff)

section \<open>Sending GO\<close>

text \<open>The same environment with a log of the commands its executor was given.\<close>

definition logged :: "'w tc_env \<Rightarrow> ('w \<times> CommandEnvelope list) tc_env" where
  "logged env =
     \<lparr>teRecord = (\<lambda>(w, l) e. let (w', ok) = teRecord env w e in ((w', l), ok)),
      teExecuteGo = (case teExecuteGo env of None \<Rightarrow> None
        | Some exec \<Rightarrow> Some (\<lambda>(w, l) s c. let (w', r) = exec w s c in ((w', l @ [c]), r))),
      teGetSession = (\<lambda>(w, l) s. teGetSession env w s),
      teMarshalGo = teMarshalGo env,
      teFramesToDuration = teFramesToDuration env,
      teNow = (\<lambda>(w, l). teNow env w)\<rparr>"

lemma logged_record: "teRecord (logged env) wl e = (wl', ok) \<Longrightarrow> snd wl' = snd wl"
  by (auto simp: logged_def split: prod.splits)

lemma logged_exec: "teExecuteGo (logged env) = Some exec \<Longrightarrow> exec wl s c = (wl', r) \<Longrightarrow> snd wl' = snd wl @ [c]"
  by (auto simp: logged_def split: prod.splits option.splits)

text \<open>A GO is proper when it asks for the next enabled cue after the current cue it expects.\<close>

definition proper_go :: "'w tc_env \<Rightarrow> ('a CueHead_scheme) list \<Rightarrow> CommandEnvelope \<Rightarrow> bool" where
  "proper_go env cues c \<longleftrightarrow>
     (\<exists>cur. nextEnabledCueID cues cur \<noteq> []
       \<and> cePayload c = teMarshalGo env \<lparr>ExpectedCurrentCueID = cur,
           RequestedNextCueID = Some (nextEnabledCueID cues cur), OperatorNote = None\<rparr>)"

lemma fired_ids_Cons:
  "fired_ids (d # ds) =
     (if decState d = DecisionFire \<and> decCommand d \<noteq> None then cmdCommandID (the (decCommand d)) # fired_ids ds
      else fired_ids ds)"
  by (simp add: fired_ids_def)

lemma go_envelope_proper:
  assumes "nextEnabledCueID cues (sesCurrentCueID session) = cmdCueID cmd" "cmdCueID cmd \<noteq> []"
  shows "proper_go env cues (go_envelope (logged env) session sample d cmd)"
  using assms unfolding proper_go_def go_envelope_def
  by (intro exI [of _ "sesCurrentCueID session"]) (simp add: logged_def)

text \<open>What one run of the loop adds to the log.\<close>

definition log_ok :: "'w tc_env \<Rightarrow> ('a CueHead_scheme) list \<Rightarrow> string list \<Rightarrow> CommandEnvelope list \<Rightarrow> bool" where
  "log_ok env cues ids new \<longleftrightarrow> (\<forall>c\<in>set new. proper_go env cues c) \<and> subseq (map ceCommandID new) ids"

lemma log_ok_Nil [simp]: "log_ok env cues ids []"
  by (simp add: log_ok_def)

lemma log_ok_skip: "log_ok env cues (fired_ids ds) new \<Longrightarrow> log_ok env cues (fired_ids (d # ds)) new"
  by (auto simp: log_ok_def fired_ids_Cons)

lemma log_ok_take:
  "log_ok env cues (fired_ids ds) new \<Longrightarrow> decState d = DecisionFire \<Longrightarrow> decCommand d = Some cmd
    \<Longrightarrow> proper_go env cues c \<Longrightarrow> ceCommandID c = cmdCommandID cmd \<Longrightarrow> log_ok env cues (fired_ids (d # ds)) (c # new)"
  by (auto simp: log_ok_def fired_ids_Cons)

lemma fire_loop_log:
  assumes "fire_loop (logged env) cues sample ds pre cmds session wl = (wl', ds', cmds', e)"
  shows "\<exists>new. snd wl' = snd wl @ new \<and> log_ok env cues (fired_ids ds) new"
  using assms
proof (induction ds arbitrary: pre cmds session wl)
  case Nil
  then show ?case by (intro exI [of _ "[]"]) simp
next
  case (Cons d ds)
  let ?env = "logged env"
  show ?case
  proof (cases "decState d \<noteq> DecisionFire \<or> decCommand d = None")
    case True
    with Cons.prems have "fire_loop ?env cues sample ds (pre @ [d]) cmds session wl = (wl', ds', cmds', e)"
      by (simp del: fire_loop.simps add: fire_loop.simps(2))
    from Cons.IH [OF this] show ?thesis using log_ok_skip by metis
  next
    case False
    then obtain cmd where d: "decState d = DecisionFire" "decCommand d = Some cmd" by auto
    let ?next = "nextEnabledCueID cues (sesCurrentCueID session)"
    show ?thesis
    proof (cases "?next = [] \<or> ?next \<noteq> cmdCueID cmd")
      case True
      obtain wl1 ok where r: "teRecord ?env wl (BindingInhibited (decBindingID d) (cmdCueID cmd) ?next) = (wl1, ok)"
        by fastforce
      note l = logged_record [OF r]
      show ?thesis
      proof (cases ok)
        case False
        with Cons.prems d True r l show ?thesis by (intro exI [of _ "[]"]) (auto simp: Let_def)
      next
        case ok: True
        obtain pre' where "fire_loop ?env cues sample ds pre' cmds session wl1 = (wl', ds', cmds', e)"
          using Cons.prems d True r ok by (auto simp: Let_def)
        from Cons.IH [OF this] l show ?thesis using log_ok_skip by metis
      qed
    next
      case next': False
      show ?thesis
      proof (cases "sFrameNumber sample > cmdExpiresAtFrame cmd")
        case True
        then have "fire_loop ?env cues sample ds (pre @ [d]) cmds session wl = (wl', ds', cmds', e)"
          using Cons.prems d next' by (simp add: Let_def)
        from Cons.IH [OF this] show ?thesis using log_ok_skip by metis
      next
        case exp: False
        obtain wl1 ok1 where r1: "teRecord ?env wl (BindingTriggered (decBindingID d) (cmdCueID cmd) (cmdCommandID cmd)
              (sFrameNumber sample) (sTimecode sample)) = (wl1, ok1)" by fastforce
        note l1 = logged_record [OF r1]
        show ?thesis
        proof (cases "ok1 \<and> teExecuteGo ?env \<noteq> None")
          case False
          with Cons.prems d next' exp r1 l1 show ?thesis
            by (intro exI [of _ "[]"]) (auto simp: Let_def split: if_splits option.splits)
        next
          case True
          then obtain exec where x: "teExecuteGo ?env = Some exec" and ok1: ok1 by auto
          let ?c = "go_envelope ?env session sample d cmd"
          obtain wl2 res where x2: "exec wl1 (sesID session) ?c = (wl2, res)" by fastforce
          note l2 = logged_exec [OF x x2]
          obtain wl3 ok3 where r3: "teRecord ?env wl2 (BindingResult (decBindingID d) (cmdCueID cmd) (cmdCommandID cmd)
              (resStatus res)) = (wl3, ok3)" by fastforce
          note l3 = logged_record [OF r3]
          have c: "proper_go env cues ?c" "ceCommandID ?c = cmdCommandID cmd"
            using go_envelope_proper next' by (auto simp: go_envelope_def)
          show ?thesis
          proof (cases "ok3 \<and> teGetSession ?env wl3 (sesID session) \<noteq> None")
            case False
            have "snd wl' = snd wl @ [?c]"
              using Cons.prems d next' exp r1 ok1 x x2 r3 False l1 l2 l3
              by (auto simp: Let_def split: if_splits option.splits)
            then show ?thesis using log_ok_take [OF log_ok_Nil d c] by blast
          next
            case True
            then obtain updated where u: "teGetSession ?env wl3 (sesID session) = Some updated" and ok3: ok3 by auto
            have "fire_loop ?env cues sample ds (pre @ [d]) (cmds @ [res]) updated wl3 = (wl', ds', cmds', e)"
              using Cons.prems d next' exp r1 ok1 x x2 r3 ok3 u by (simp add: Let_def)
            from Cons.IH [OF this] obtain new where
              n: "snd wl' = snd wl3 @ new" "log_ok env cues (fired_ids ds) new" by blast
            show ?thesis
              using n(1) l1 l2 l3 log_ok_take [OF n(2) d c] by (intro exI [of _ "?c # new"]) simp
          qed
        qed
      qed
    qed
  qed
qed

lemma observe_log:
  assumes "observeNormalized (logged env) sha cues session st sample wl = (wl', st', res, e)"
  shows "\<exists>new. snd wl' = snd wl @ new \<and> (\<forall>c\<in>set new. proper_go env cues c)
    \<and> distinct (map ceCommandID new) \<and> set (map ceCommandID new) \<subseteq> rsFired st' - rsFired st \<and> rsFired st \<subseteq> rsFired st'"
proof -
  let ?src = "mcSource (rsConfiguration st)"
  show ?thesis
  proof (cases "sSourceID sample \<noteq> selSourceID ?src \<or> sKind sample \<noteq> selKind ?src \<or> sRate sample \<noteq> selRate ?src")
    case True
    with assms show ?thesis by (intro exI [of _ "[]"]) (auto simp: observeNormalized_def)
  next
    case same: False
    define s where "s = (if is_zero (sObservedAt sample) then sample\<lparr>sObservedAt := teNow (logged env) wl\<rparr> else sample)"
    obtain mon health where m: "mon_Observe (rsMonitor st) s = (mon, health)" by fastforce
    define c' where "c' = (if sesType session = SessionShow then fst (coord_LockForShow (rsCoordinator st)) else rsCoordinator st)"
    define st1 where "st1 = st\<lparr>rsMonitor := mon, rsLastHealth := hState health, rsPrevious := Some s, rsCoordinator := c'\<rparr>"
    obtain wl1 ok where r: "(if rsLastHealth st \<noteq> hState health
        then teRecord (logged env) wl (HealthChanged (sSourceID s) (hState health) (hDetail health) (sFrameNumber s) (sTimecode s))
        else (wl, True)) = (wl1, ok)" by fastforce
    have l1: "snd wl1 = snd wl"
      using r logged_record [of env wl _ wl1 ok] by (cases "rsLastHealth st \<noteq> hState health") auto
    note obs = assms [unfolded observeNormalized_def Let_def, folded s_def, unfolded m prod.case, folded c'_def,
        folded st1_def, unfolded r prod.case]
    show ?thesis
    proof (cases "ok \<and> rsPrevious st \<noteq> None \<and> AllowsAutomaticBinding c' s health")
      case False
      have "snd wl' = snd wl \<and> rsFired st' = rsFired st"
        using obs same False l1 by (auto simp: st1_def split: if_splits option.splits)
      then show ?thesis by (intro exI [of _ "[]"]) simp
    next
      case True
      then obtain prev where p: "rsPrevious st = Some prev" by auto
      obtain fired ds where e: "sched_Evaluate sha (rsFired st1) prev s health (mcBindings (rsConfiguration st))
          (command_context session s) = (fired, ds)" by fastforce
      obtain wl2 ds' cmds e' where f: "fire_loop (logged env) cues s ds [] [] session wl1 = (wl2, ds', cmds, e')"
        by (metis prod_cases4)
      have wl': "wl' = wl2" "st' = st1\<lparr>rsFired := fired\<rparr>"
        using obs same True p e f by (auto simp: st1_def)
      obtain new where n: "snd wl2 = snd wl1 @ new" "log_ok env cues (fired_ids ds) new"
        using fire_loop_log [OF f] by blast
      have st1: "rsFired st1 = rsFired st" by (simp add: st1_def)
      have ids: "fired = rsFired st \<union> set (fired_ids ds)" "distinct (fired_ids ds)" "set (fired_ids ds) \<inter> rsFired st = {}"
        using evaluate_ids [OF e] by (auto simp: st1 split: if_splits)
      have sub: "subseq (map ceCommandID new) (fired_ids ds)" and pr: "\<forall>c\<in>set new. proper_go env cues c"
        using n(2) by (simp_all add: log_ok_def)
      have "distinct (map ceCommandID new)" using sub ids(2) by (auto simp: subseq_conv_nths distinct_nthsI)
      moreover have "set (map ceCommandID new) \<subseteq> set (fired_ids ds)" using sub set_nths_subset unfolding subseq_conv_nths by metis
      ultimately show ?thesis using n(1) l1 wl' ids pr by (intro exI [of _ new]) auto
    qed
  qed
qed

text \<open>Every observation of a session, each with the session as the store has it then.\<close>

fun observe_all :: "'w tc_env \<Rightarrow> (string \<Rightarrow> byte list) \<Rightarrow> ('a CueHead_scheme) list \<Rightarrow> (Session \<times> Sample) list
    \<Rightarrow> RuntimeState \<Rightarrow> 'w \<Rightarrow> 'w" where
  "observe_all env sha cues [] st w = w"
| "observe_all env sha cues ((session, sample) # os) st w =
     (let (w', st', r) = observeNormalized env sha cues session st sample w
      in observe_all env sha cues os st' w')"

lemma observe_all_log:
  "\<exists>new. snd (observe_all (logged env) sha cues os st wl) = snd wl @ new \<and> (\<forall>c\<in>set new. proper_go env cues c)
    \<and> distinct (map ceCommandID new) \<and> set (map ceCommandID new) \<inter> rsFired st = {}"
proof (induction os arbitrary: st wl)
  case Nil
  then show ?case by (intro exI [of _ "[]"]) simp
next
  case (Cons o' os)
  obtain session sample where o': "o' = (session, sample)" by (cases o')
  obtain wl' st' r where b: "observeNormalized (logged env) sha cues session st sample wl = (wl', st', r)"
    by (metis prod_cases3)
  obtain res e where r: "r = (res, e)" by (cases r)
  obtain n1 where n1: "snd wl' = snd wl @ n1" "\<forall>c\<in>set n1. proper_go env cues c" "distinct (map ceCommandID n1)"
    "set (map ceCommandID n1) \<subseteq> rsFired st' - rsFired st" "rsFired st \<subseteq> rsFired st'"
    using observe_log [OF b [unfolded r]] by blast
  obtain n2 where n2: "snd (observe_all (logged env) sha cues os st' wl') = snd wl' @ n2"
    "\<forall>c\<in>set n2. proper_go env cues c" "distinct (map ceCommandID n2)" "set (map ceCommandID n2) \<inter> rsFired st' = {}"
    using Cons.IH [of st' wl'] by blast
  have "set (map ceCommandID n1) \<inter> set (map ceCommandID n2) = {}"
    "set (map ceCommandID (n1 @ n2)) \<inter> rsFired st = {}"
    using n1(4,5) n2(4) by (auto simp only: set_map set_append map_append; blast)+
  then show ?case
    using n1 n2 by (intro exI [of _ "n1 @ n2"]) (simp add: o' b ball_Un)
qed

text \<open>
  C23. Over the life of a runtime state, whatever samples arrive and whatever the store and the
  executor answer, no command identity is sent to the cue executor twice.
\<close>

theorem timecode_go_at_most_once:
  "distinct (map ceCommandID (snd (observe_all (logged env) sha cues os st (w, []))))"
  using observe_all_log [of env sha cues os st "(w, [])"] by auto

text \<open>
  Every GO the pipeline sends expects a current cue and asks for the next enabled cue after
  exactly that one: a binding never skips or repeats a cue.
\<close>

theorem timecode_go_next_cue:
  assumes "c \<in> set (snd (observe_all (logged env) sha cues os st (w, [])))"
  shows "\<exists>cur. nextEnabledCueID cues cur \<noteq> []
    \<and> cePayload c = teMarshalGo env \<lparr>ExpectedCurrentCueID = cur,
        RequestedNextCueID = Some (nextEnabledCueID cues cur), OperatorNote = None\<rparr>"
  using assms observe_all_log [of env sha cues os st "(w, [])"] by (auto simp: proper_go_def)

text \<open>A concrete session: two cues, one binding on each, 25 fps, three samples.\<close>

definition demo_sha :: "string \<Rightarrow> byte list" where
  "demo_sha s = take 32 (map (\<lambda>c. word_of_nat (of_char c)) (rev s)) @ replicate (32 - length s) 0"

definition demo_marshal :: "CueGoPayload \<Rightarrow> string" where
  "demo_marshal p = (case RequestedNextCueID p of Some c \<Rightarrow> ''go '' @ c | None \<Rightarrow> ''go'')"

text \<open>The world of the example is the current cue; GO sets it to the cue the id of the binding names.\<close>

definition demo_session :: "string option \<Rightarrow> Session" where
  "demo_session cur =
     \<lparr>sesID = ''s1'', sesProjectID = ''p1'', sesRuntimeSnapshotID = ''r1'', sesType = SessionShow,
      sesStatus = SessionActive, sesCurrentCueID = cur\<rparr>"

definition demo_env :: "string option tc_env" where
  "demo_env =
     \<lparr>teRecord = (\<lambda>w e. (w, True)),
      teExecuteGo = Some (\<lambda>w s c. (Some (drop 3 (cePayload c)),
        \<lparr>resCommandID = ceCommandID c, resStatus = CommandCompleted, resPayload = [], resError = None\<rparr>)),
      teGetSession = (\<lambda>w s. Some (demo_session w)),
      teMarshalGo = demo_marshal,
      teFramesToDuration = (\<lambda>n r. n * 40000000),
      teNow = (\<lambda>w. 0)\<rparr>"

definition demo_config :: ManifestConfiguration where
  "demo_config =
     \<lparr>mcEnabled = True, mcTargetRef = ''tc'',
      mcSource = \<lparr>selSourceID = ''ltc'', selKind = SourceLTC, selRate = Rate25, selOffsetFrames = 0\<rparr>,
      mcStartFrame = 0,
      mcBindings = [\<lparr>bBindingID = ''b1'', bCueID = ''C1'', bTargetFrame = 10, bExpiryFrames = 5, bEnabled = True\<rparr>,
                    \<lparr>bBindingID = ''b2'', bCueID = ''C2'', bTargetFrame = 12, bExpiryFrames = 5, bEnabled = True\<rparr>]\<rparr>"

definition demo_sample :: "int \<Rightarrow> Sample" where
  "demo_sample f =
     \<lparr>sSourceID = ''ltc'', sKind = SourceLTC, sRate = Rate25,
      sTimecode = \<lparr>tcHours = 0, tcMinutes = 0, tcSeconds = 0, tcFrames = f, tcRate = Rate25\<rparr>,
      sFrameNumber = f, sRawFrame = f, sOffsetFrames = 0, sObservedAt = f * 40000000, sSequence = 0,
      sTransport = TransportRunning, sDiscontinuity = False, sDriftFrames = 0\<rparr>"

definition demo_tc_cues :: "CueHead list" where
  "demo_tc_cues = map (\<lambda>i. \<lparr>cueID = i, cueName = i, cueEnabled = True, cueExecutionPolicy = []\<rparr>) [''C1'', ''C2'']"

definition demo_state :: RuntimeState where
  "demo_state = (case newRuntimeState demo_config SessionShow of Inr st \<Rightarrow> st)"

lemma demo_log:
  "map cePayload (snd (observe_all (logged demo_env) demo_sha demo_tc_cues
      [(demo_session None, demo_sample 9), (demo_session None, demo_sample 11),
       (demo_session (Some ''C1''), demo_sample 13)] demo_state (None, [])))
   = [''go C1'', ''go C2'']"
  by code_simp

lemma timecode_go_next_cue_witness:
  "\<exists>c :: CommandEnvelope. cePayload c = ''go C2''
     \<and> (\<exists>cur. nextEnabledCueID demo_tc_cues cur \<noteq> []
         \<and> cePayload c = teMarshalGo demo_env \<lparr>ExpectedCurrentCueID = cur,
             RequestedNextCueID = Some (nextEnabledCueID demo_tc_cues cur), OperatorNote = None\<rparr>)"
proof -
  let ?log = "snd (observe_all (logged demo_env) demo_sha demo_tc_cues
      [(demo_session None, demo_sample 9), (demo_session None, demo_sample 11),
       (demo_session (Some ''C1''), demo_sample 13)] demo_state (None, []))"
  have "''go C2'' \<in> set (map cePayload ?log)" unfolding demo_log by simp
  then obtain c where "c \<in> set ?log" "cePayload c = ''go C2''" by auto
  with timecode_go_next_cue [OF this(1)] show ?thesis by blast
qed

section \<open>Jumps, locks and drift\<close>

text \<open>
  When the monitor calls a sample healthy the source is continuous: no marked discontinuity,
  drift within tolerance, and against the last sample the same source at the same rate, not
  backwards, and as far along as the elapsed time says, within the jump tolerance. Conversely any
  such sample is healthy.
\<close>

theorem monitor_healthy_iff:
  "hState (snd (mon_Observe m s)) = HealthHealthy \<longleftrightarrow>
     \<not> sDiscontinuity s \<and> abs64 (sDriftFrames s) \<le> DriftToleranceFrames (mCfg m)
   \<and> (case mLast m of None \<Rightarrow> True
      | Some l \<Rightarrow> sSourceID s = sSourceID l \<and> sRate s = sRate l \<and> sFrameNumber l \<le> sFrameNumber s
          \<and> abs64 (wrap64 (wrap64 (sFrameNumber s - sFrameNumber l)
               - framesForDuration (time_sub (sObservedAt s) (sObservedAt l)) (sRate s)))
             \<le> JumpToleranceFrames (mCfg m))"
proof -
  have h: "hState (snd (mon_Observe m s)) = HealthHealthy \<longleftrightarrow> fst (judge m s) = HealthHealthy"
    by (auto simp: mon_Observe_def snapshotAt_def Let_def split: prod.splits if_splits)
  show ?thesis
    unfolding h by (auto simp: judge_def Let_def not_less split: option.splits)
qed

text \<open>A SHOW lock: once a source is selected and locked, no selection changes it.\<close>

definition show_locked :: "SourceSelection \<Rightarrow> Coordinator \<Rightarrow> bool" where
  "show_locked sel c \<longleftrightarrow> cShowLocked c \<and> cSelected c = Some sel"

definition select_step :: "Coordinator \<Rightarrow> SourceSelection \<Rightarrow> Coordinator" where
  "select_step c s = fst (coord_Select s c)"

interpretation show_lock: invariant_machine select_step "show_locked sel"
  by unfold_locales (auto simp: show_locked_def select_step_def coord_Select_def split: option.splits)

text \<open>
  After a source is selected and SHOW is locked, any sequence of selections leaves that source
  selected and the lock in place, and a sample of any other source, kind or rate is refused for
  automatic firing.
\<close>

theorem show_source_locked:
  assumes "cSelected c = Some sel"
  shows "show_locked sel (foldl select_step (fst (coord_LockForShow c)) ss)
    \<and> (sSourceID s \<noteq> selSourceID sel \<or> sKind s \<noteq> selKind sel \<or> sRate s \<noteq> selRate sel
        \<longrightarrow> \<not> AllowsAutomaticBinding (foldl select_step (fst (coord_LockForShow c)) ss) s h)"
proof -
  have "show_locked sel (fst (coord_LockForShow c))"
    using assms by (simp add: show_locked_def coord_LockForShow_def)
  from show_lock.run_inv [OF this, of ss] show ?thesis
    by (auto simp: show_locked_def AllowsAutomaticBinding_def)
qed

lemma show_source_locked_witness:
  "show_locked (mcSource demo_config)
     (foldl select_step (fst (coord_LockForShow (fst (coord_Select (mcSource demo_config) newCoordinator))))
        [mcSource demo_config\<lparr>selSourceID := ''other''\<rparr>])"
proof -
  have "cSelected (fst (coord_Select (mcSource demo_config) newCoordinator)) = Some (mcSource demo_config)"
    by code_simp
  from show_source_locked [OF this] show ?thesis by blast
qed

lemma framesForDuration_floor:
  assumes r: "ValidateRate r = None" "rNumerator r \<le> 1000000000 * rDenominator r" and d: "0 \<le> d" "d < 2 ^ 63"
  shows "framesForDuration d r = d * rNumerator r div (1000000000 * rDenominator r)"
    and "0 \<le> framesForDuration d r" "framesForDuration d r \<le> d"
proof -
  have p: "0 < rNumerator r" "0 < 1000000000 * rDenominator r"
    using r by (auto simp: ValidateRate_def split: if_splits)
  let ?q = "d * rNumerator r div (1000000000 * rDenominator r)"
  have q0: "0 \<le> ?q" using p d by (intro div_int_pos_iff [THEN iffD2]) auto
  have "d * rNumerator r \<le> d * (1000000000 * rDenominator r)" using r(2) d(1) by (intro mult_left_mono) auto
  then have "?q \<le> d * (1000000000 * rDenominator r) div (1000000000 * rDenominator r)"
    using p by (intro zdiv_mono1) auto
  also have "\<dots> = d" using p by simp
  finally have q1: "?q \<le> d" .
  have "in64 ?q" using q0 q1 d by (simp add: in64_def)
  moreover have "quot (d * rNumerator r) (1000000000 * rDenominator r) = ?q"
    using p d by (intro quot_nonneg) auto
  ultimately show f: "framesForDuration d r = ?q"
    using d by (cases "d = 0") (simp_all add: framesForDuration_def)
  show "0 \<le> framesForDuration d r" "framesForDuration d r \<le> d" using f q0 q1 by simp_all
qed

text \<open>
  A running generator does not drift: at any later instant its frame is the anchor plus the
  exact rational number of frames elapsed, rounded down, however long it has run (up to the 292
  years of a \<open>Duration\<close>); so frames never go back as time goes on, and pausing holds the frame that
  a later start continues from.
\<close>

theorem generator_exact:
  assumes r: "ValidateRate (gRate g) = None" "rNumerator (gRate g) \<le> 1000000000 * rDenominator (gRate g)"
    and run: "gTransport g = TransportRunning" "\<not> is_zero (gAnchorAt g)"
    and a: "0 \<le> gAnchor g" "gAnchor g < 2 ^ 62"
    and t: "gAnchorAt g \<le> t1" "t1 \<le> t2" "t2 < gAnchorAt g + 2 ^ 62"
  shows "frameAtLocked g t1
      = gAnchor g + (t1 - gAnchorAt g) * rNumerator (gRate g) div (1000000000 * rDenominator (gRate g))
    \<and> frameAtLocked g t1 \<le> frameAtLocked g t2
    \<and> frameAtLocked (gen_Start t2 (gen_Pause t1 g)) t2 = frameAtLocked g t1"
proof -
  have val: "frameAtLocked g t
      = gAnchor g + (t - gAnchorAt g) * rNumerator (gRate g) div (1000000000 * rDenominator (gRate g))"
    if t': "gAnchorAt g \<le> t" "t < gAnchorAt g + 2 ^ 62" for t
  proof (cases "t = gAnchorAt g")
    case True
    then show ?thesis by (simp add: frameAtLocked_def)
  next
    case False
    have s: "time_sub t (gAnchorAt g) = t - gAnchorAt g" using t' by (intro time_sub_id) (simp add: in64_def)
    have d: "0 \<le> t - gAnchorAt g" "t - gAnchorAt g < 2 ^ 63" using t' by simp_all
    note f = framesForDuration_floor [OF r d]
    have "in64 (gAnchor g + framesForDuration (t - gAnchorAt g) (gRate g))"
      using a t' f(2,3) by (simp add: in64_def)
    then show ?thesis using run False t' s f(1) by (simp add: frameAtLocked_def)
  qed
  have p: "0 < rNumerator (gRate g)" "0 < 1000000000 * rDenominator (gRate g)"
    using r by (auto simp: ValidateRate_def split: if_splits)
  have "(t1 - gAnchorAt g) * rNumerator (gRate g) div (1000000000 * rDenominator (gRate g))
      \<le> (t2 - gAnchorAt g) * rNumerator (gRate g) div (1000000000 * rDenominator (gRate g))"
    using p t by (intro zdiv_mono1 mult_right_mono) auto
  then have "frameAtLocked g t1 \<le> frameAtLocked g t2" using val t by simp
  moreover have "frameAtLocked (gen_Start t2 (gen_Pause t1 g)) t2 = frameAtLocked g t1"
    using run by (simp add: gen_Start_def gen_Pause_def frameAtLocked_def)
  ultimately show ?thesis using val [of t1] t by simp
qed

lemma generator_exact_witness:
  "\<exists>g. frameAtLocked g 3600000000000 = 107892 \<and> frameAtLocked g 3600000000000 \<le> frameAtLocked g 7200000000000
     \<and> frameAtLocked (gen_Start 7200000000000 (gen_Pause 3600000000000 g)) 7200000000000 = frameAtLocked g 3600000000000"
proof -
  let ?g = "\<lparr>gRate = Rate2997, gOffset = 0, gTransport = TransportRunning, gAnchorAt = 0, gAnchor = 0,
             gPaused = 0, gSequence = 0\<rparr>"
  have "ValidateRate (gRate ?g) = None" "rNumerator (gRate ?g) \<le> 1000000000 * rDenominator (gRate ?g)"
    "gTransport ?g = TransportRunning" "\<not> is_zero (gAnchorAt ?g)" "0 \<le> gAnchor ?g" "gAnchor ?g < 2 ^ 62"
    "gAnchorAt ?g \<le> 3600000000000" "(3600000000000 :: int) \<le> 7200000000000" "7200000000000 < gAnchorAt ?g + 2 ^ 62"
    by (simp_all add: rate_defs mk_rate_def ValidateRate_def is_zero_def zero_time_def)
  from generator_exact [OF this] show ?thesis
    by (intro exI [of _ ?g]) (simp add: rate_defs mk_rate_def)
qed

end
