(* ===== verification/HALease.thy ===== *)
theory HALease
  imports Prelude
begin

text \<open>
  The witness's lease authority: \<open>internal/halease/service.go\<close>. The durable state is the one row of
  \<open>ha_lease_authority\<close>; every operation is one transaction under the service's mutex at the instant
  \<open>now\<close> of the witness clock (nanoseconds since the epoch). \<open>sql\<close> says how the database answers: it
  works, it fails and the transaction is rolled back, or the commit takes effect but its reply is
  lost. Epochs are 64-bit; the row keeps them as a signed integer.
\<close>

section \<open>State and constants\<close>

definition DefaultLeaseDuration :: duration where "DefaultLeaseDuration = 5 * 1000000000"
definition MinLeaseDuration :: duration where "MinLeaseDuration = 1 * 1000000000"
definition MaxLeaseDuration :: duration where "MaxLeaseDuration = 30 * 1000000000"

definition MaxInt64 :: int where "MaxInt64 = 2 ^ 63 - 1"

type_synonym epoch = "64 word"

datatype lease_error =
    ErrInvalidHolder | ErrLeaseHeld | ErrLeaseNotHeld | ErrLeaseExpired | ErrEpochExhausted
  | ErrDatabase | ErrInvalidState | ErrBadConfig

record Lease =
  lHolderID :: string
  lEpoch :: epoch
  lExpiresAt :: time

definition ActiveAt :: "Lease \<Rightarrow> time \<Rightarrow> bool" where
  "ActiveAt l now \<longleftrightarrow> trim_space (lHolderID l) \<noteq> [] \<and> lEpoch l > 0 \<and> lExpiresAt l > now"

record persistedState =
  psHolderID :: string
  psEpoch :: int
  psExpiresAtUS :: int

definition initialState :: persistedState where
  "initialState = \<lparr>psHolderID = [], psEpoch = 0, psExpiresAtUS = 0\<rparr>"

text \<open>\<open>time.UnixMicro\<close>, which rounds down, and its inverse on whole microseconds.\<close>

definition unix_micro :: "time \<Rightarrow> int" where
  "unix_micro t = wrap64 (t div 1000)"

definition from_micro :: "int \<Rightarrow> time" where
  "from_micro us = us * 1000"

definition lease_of :: "persistedState \<Rightarrow> Lease" where
  "lease_of s =
     \<lparr>lHolderID = trim_space (psHolderID s), lEpoch = word_of_int (psEpoch s),
      lExpiresAt = (if psExpiresAtUS s > 0 then from_micro (psExpiresAtUS s) else zero_time)\<rparr>"

datatype sql = SqlOk | SqlFail | SqlReplyLost

text \<open>The lease duration the service is opened with; 0 selects the default.\<close>

definition open_duration :: "duration \<Rightarrow> lease_error + duration" where
  "open_duration d =
     (let d' = (if d = 0 then DefaultLeaseDuration else d)
      in if d' < MinLeaseDuration \<or> d' > MaxLeaseDuration then Inl ErrBadConfig else Inr d')"

section \<open>Operations\<close>

text \<open>Reading the row; a negative number there is refused.\<close>

definition readState :: "sql \<Rightarrow> persistedState \<Rightarrow> lease_error + persistedState" where
  "readState q s =
     (if q = SqlFail then Inl ErrDatabase
      else if psEpoch s < 0 \<or> psExpiresAtUS s < 0 then Inl ErrInvalidState
      else Inr s)"

definition lease_Current :: "sql \<Rightarrow> time \<Rightarrow> persistedState \<Rightarrow> lease_error + (Lease \<times> bool)" where
  "lease_Current q now s =
     (case readState q s of Inl e \<Rightarrow> Inl e
      | Inr st \<Rightarrow> Inr (lease_of st, ActiveAt (lease_of st) now))"

text \<open>
  Writing the row: its \<open>CHECK\<close> constraints refuse a negative expiry. A lost reply is an error to the
  caller after the write has taken effect.
\<close>

definition write_row :: "sql \<Rightarrow> persistedState \<Rightarrow> 'a \<Rightarrow> persistedState \<Rightarrow> persistedState \<times> (lease_error + 'a)" where
  "write_row q s' r s =
     (if psExpiresAtUS s' < 0 \<or> psEpoch s' < 0 then (s, Inl ErrDatabase)
      else if q = SqlReplyLost then (s', Inl ErrDatabase)
      else (s', Inr r))"

definition lease_Acquire :: "duration \<Rightarrow> sql \<Rightarrow> time \<Rightarrow> string \<Rightarrow> persistedState
    \<Rightarrow> persistedState \<times> (lease_error + Lease)" where
  "lease_Acquire dur q now holder0 s =
     (let holder = trim_space holder0 in
      if holder = [] then (s, Inl ErrInvalidHolder)
      else case readState q s of Inl e \<Rightarrow> (s, Inl e)
      | Inr st \<Rightarrow>
        let current = lease_of st
        in if ActiveAt current now
           then (if lHolderID current = holder
                 then (s, if q = SqlReplyLost then Inl ErrDatabase else Inr current)
                 else (s, Inl ErrLeaseHeld))
           else if psEpoch st \<ge> MaxInt64 then (s, Inl ErrEpochExhausted)
           else
             let nextEpoch = psEpoch st + 1; expires = now + dur
             in write_row q (st\<lparr>psHolderID := holder, psEpoch := nextEpoch, psExpiresAtUS := unix_micro expires\<rparr>)
                  \<lparr>lHolderID = holder, lEpoch = word_of_int nextEpoch, lExpiresAt = expires\<rparr> s)"

definition bad_epoch :: "epoch \<Rightarrow> bool" where
  "bad_epoch e \<longleftrightarrow> e = 0 \<or> uint e > MaxInt64"

definition lease_Renew :: "duration \<Rightarrow> sql \<Rightarrow> time \<Rightarrow> string \<Rightarrow> epoch \<Rightarrow> persistedState
    \<Rightarrow> persistedState \<times> (lease_error + Lease)" where
  "lease_Renew dur q now holder0 e s =
     (let holder = trim_space holder0 in
      if holder = [] then (s, Inl ErrInvalidHolder)
      else if bad_epoch e then (s, Inl ErrLeaseNotHeld)
      else case readState q s of Inl err \<Rightarrow> (s, Inl err)
      | Inr st \<Rightarrow>
        if psHolderID st \<noteq> holder \<or> psEpoch st \<noteq> uint e then (s, Inl ErrLeaseNotHeld)
        else if \<not> ActiveAt (lease_of st) now then (s, Inl ErrLeaseExpired)
        else
          let expires = now + dur
          in write_row q (st\<lparr>psExpiresAtUS := unix_micro expires\<rparr>)
               \<lparr>lHolderID = holder, lEpoch = e, lExpiresAt = expires\<rparr> s)"

definition lease_Release :: "sql \<Rightarrow> string \<Rightarrow> epoch \<Rightarrow> persistedState \<Rightarrow> persistedState \<times> (lease_error + unit)" where
  "lease_Release q holder0 e s =
     (let holder = trim_space holder0 in
      if holder = [] then (s, Inl ErrInvalidHolder)
      else if bad_epoch e then (s, Inl ErrLeaseNotHeld)
      else case readState q s of Inl err \<Rightarrow> (s, Inl err)
      | Inr st \<Rightarrow>
        if psHolderID st \<noteq> holder \<or> psEpoch st \<noteq> uint e then (s, Inl ErrLeaseNotHeld)
        else write_row q (st\<lparr>psHolderID := [], psExpiresAtUS := 0\<rparr>) () s)"

section \<open>Runs\<close>

datatype lease_request = ReqAcquire string | ReqRenew string epoch | ReqRelease string epoch

type_synonym lease_event = "sql \<times> time \<times> lease_request"

text \<open>What the witness granted: the lease it replied with and the instant it did.\<close>

record grant =
  gLease :: Lease
  gAt :: time

definition lease_apply :: "duration \<Rightarrow> lease_event \<Rightarrow> persistedState \<Rightarrow> persistedState \<times> grant option" where
  "lease_apply dur ev s =
     (case ev of (q, now, req) \<Rightarrow>
       (case req of
          ReqAcquire h \<Rightarrow>
            (case lease_Acquire dur q now h s of
               (s', Inr l) \<Rightarrow> (s', Some \<lparr>gLease = l, gAt = now\<rparr>) | (s', Inl _) \<Rightarrow> (s', None))
        | ReqRenew h e \<Rightarrow>
            (case lease_Renew dur q now h e s of
               (s', Inr l) \<Rightarrow> (s', Some \<lparr>gLease = l, gAt = now\<rparr>) | (s', Inl _) \<Rightarrow> (s', None))
        | ReqRelease h e \<Rightarrow> (fst (lease_Release q h e s), None)))"

definition lease_step :: "duration \<Rightarrow> persistedState \<Rightarrow> lease_event \<Rightarrow> persistedState" where
  "lease_step dur s ev = fst (lease_apply dur ev s)"

section \<open>The invariant of the row, and the lease it means\<close>

definition lease_inv :: "persistedState \<Rightarrow> bool" where
  "lease_inv s \<longleftrightarrow>
     0 \<le> psEpoch s \<and> psEpoch s \<le> MaxInt64 \<and> 0 \<le> psExpiresAtUS s \<and> in64 (psExpiresAtUS s)
   \<and> trim_space (psHolderID s) = psHolderID s
   \<and> (psHolderID s \<noteq> [] \<longrightarrow> 0 < psEpoch s) \<and> (psHolderID s = [] \<longrightarrow> psExpiresAtUS s = 0)"

named_theorems lease_ops \<open>the operations of the lease authority\<close>

lemmas [lease_ops] =
  lease_Acquire_def lease_Renew_def lease_Release_def readState_def write_row_def lease_of_def Let_def

lemma unix_micro_in64 [simp]: "in64 (unix_micro t)"
  by (simp add: unix_micro_def)

lemma in64_0 [simp]: "in64 0"
  by (simp add: in64_def)

lemma lease_inv_initial: "lease_inv initialState"
  by (simp add: lease_inv_def initialState_def MaxInt64_def)

lemma lease_inv_Acquire: "lease_inv s \<Longrightarrow> lease_inv (fst (lease_Acquire dur q now h s))"
  by (auto simp: lease_inv_def lease_ops MaxInt64_def)

lemma lease_inv_Renew: "lease_inv s \<Longrightarrow> lease_inv (fst (lease_Renew dur q now h e s))"
  by (auto simp: lease_inv_def lease_ops)

lemma lease_inv_Release: "lease_inv s \<Longrightarrow> lease_inv (fst (lease_Release q h e s))"
  by (auto simp: lease_inv_def lease_ops)

lemma fst_case_grant:
  "fst (case r of (s', Inl _) \<Rightarrow> (s', None) | (s', Inr l) \<Rightarrow> (s', Some (f l))) = fst r"
  by (auto split: prod.splits sum.splits)

lemma lease_step_simps:
  "lease_step dur s (q, now, ReqAcquire h) = fst (lease_Acquire dur q now h s)"
  "lease_step dur s (q, now, ReqRenew h e) = fst (lease_Renew dur q now h e s)"
  "lease_step dur s (q, now, ReqRelease h e) = fst (lease_Release q h e s)"
  by (simp_all add: lease_step_def lease_apply_def fst_case_grant split: prod.splits sum.splits)

lemma lease_inv_step: "lease_inv s \<Longrightarrow> lease_inv (lease_step dur s ev)"
proof -
  obtain q now req where ev: "ev = (q, now, req)" by (cases ev)
  show "lease_inv s \<Longrightarrow> lease_inv (lease_step dur s ev)"
    by (cases req) (simp_all add: ev lease_step_simps lease_inv_Acquire lease_inv_Renew lease_inv_Release)
qed

text \<open>What the authority promises: a highest epoch ever granted, and at most one holder with an expiry.\<close>

record alease =
  aEpoch :: int
  aHeld :: "(string \<times> int) option"

definition expiry_time :: "int \<Rightarrow> time" where
  "expiry_time us = (if us > 0 then from_micro us else zero_time)"

definition held_at :: "time \<Rightarrow> alease \<Rightarrow> bool" where
  "held_at now a \<longleftrightarrow> (\<exists>h x. aHeld a = Some (h, x) \<and> expiry_time x > now)"

definition lease_spec :: "duration \<Rightarrow> alease \<Rightarrow> lease_event \<Rightarrow> alease" where
  "lease_spec dur a ev =
     (case ev of (q, now, req) \<Rightarrow>
        let x = unix_micro (now + dur) in
        if q = SqlFail then a
        else case req of
          ReqAcquire h \<Rightarrow>
            (if trim_space h = [] \<or> held_at now a \<or> aEpoch a \<ge> MaxInt64 \<or> x < 0 then a
             else \<lparr>aEpoch = aEpoch a + 1, aHeld = Some (trim_space h, x)\<rparr>)
        | ReqRenew h e \<Rightarrow>
            (if held_at now a \<and> map_option fst (aHeld a) = Some (trim_space h) \<and> aEpoch a = uint e \<and> x \<ge> 0
             then a\<lparr>aHeld := Some (trim_space h, x)\<rparr> else a)
        | ReqRelease h e \<Rightarrow>
            (if map_option fst (aHeld a) = Some (trim_space h) \<and> aEpoch a = uint e then a\<lparr>aHeld := None\<rparr> else a))"

definition lease_abs :: "persistedState \<Rightarrow> alease" where
  "lease_abs s =
     \<lparr>aEpoch = psEpoch s, aHeld = (if psHolderID s = [] then None else Some (psHolderID s, psExpiresAtUS s))\<rparr>"

lemma epoch_word_pos: "0 \<le> n \<Longrightarrow> n \<le> MaxInt64 \<Longrightarrow> (0 :: epoch) < word_of_int n \<longleftrightarrow> 0 < n"
  by (simp add: word_less_def uint_word_of_int MaxInt64_def)

lemma active_held:
  "lease_inv s \<Longrightarrow> ActiveAt (lease_of s) now \<longleftrightarrow> held_at now (lease_abs s)"
  using epoch_word_pos [of "psEpoch s"]
  by (auto simp: lease_inv_def ActiveAt_def lease_of_def held_at_def lease_abs_def expiry_time_def)

lemma uint_le_max: "uint (e :: epoch) = n \<Longrightarrow> n \<le> MaxInt64 \<Longrightarrow> 0 < n \<Longrightarrow> \<not> bad_epoch e"
  by (auto simp: bad_epoch_def)

lemma acquire_refines:
  assumes inv: "lease_inv s"
  shows "lease_abs (fst (lease_Acquire dur q now h s)) = lease_spec dur (lease_abs s) (q, now, ReqAcquire h)"
proof (cases "q = SqlFail \<or> trim_space h = []")
  case True
  then show ?thesis by (auto simp: lease_Acquire_def readState_def lease_spec_def Let_def)
next
  case False
  have rd: "readState q s = Inr s" using inv False by (simp add: readState_def lease_inv_def)
  show ?thesis
  proof (cases "held_at now (lease_abs s)")
    case True
    then show ?thesis using False rd active_held [OF inv, of now]
      by (simp add: lease_Acquire_def lease_spec_def Let_def)
  next
    case nh: False
    have e: "aEpoch (lease_abs s) = psEpoch s" "0 \<le> psEpoch s" using inv by (simp_all add: lease_abs_def lease_inv_def)
    show ?thesis using False rd active_held [OF inv, of now] nh e
      by (simp add: lease_Acquire_def lease_spec_def write_row_def Let_def) (simp add: lease_abs_def)
  qed
qed

lemma epoch_matches:
  "lease_inv s \<Longrightarrow> bad_epoch e \<Longrightarrow> psHolderID s \<noteq> [] \<Longrightarrow> psEpoch s \<noteq> uint e"
  using uint_le_max [of e "psEpoch s"] by (auto simp: lease_inv_def)

lemma lease_abs_sel:
  "aEpoch (lease_abs s) = psEpoch s"
  "aHeld (lease_abs s) = Some (k, x) \<longleftrightarrow> psHolderID s \<noteq> [] \<and> psHolderID s = k \<and> psExpiresAtUS s = x"
  by (auto simp: lease_abs_def)

lemma lease_abs_held: "map_option fst (aHeld (lease_abs s)) = Some h \<longleftrightarrow> psHolderID s \<noteq> [] \<and> psHolderID s = h"
  by (simp add: lease_abs_def)

lemma renew_refines:
  assumes inv: "lease_inv s"
  shows "lease_abs (fst (lease_Renew dur q now h e s)) = lease_spec dur (lease_abs s) (q, now, ReqRenew h e)"
proof (cases "q = SqlFail \<or> psHolderID s = [] \<or> psHolderID s \<noteq> trim_space h \<or> psEpoch s \<noteq> uint e
    \<or> \<not> held_at now (lease_abs s)")
  case True
  have "lease_spec dur (lease_abs s) (q, now, ReqRenew h e) = lease_abs s"
    using True by (auto simp: lease_spec_def Let_def lease_abs_sel)
  moreover have "fst (lease_Renew dur q now h e s) = s"
    using True active_held [OF inv, of now] by (auto simp: lease_Renew_def readState_def Let_def)
  ultimately show ?thesis by simp
next
  case False
  have rd: "readState q s = Inr s" using inv False by (simp add: readState_def lease_inv_def)
  have b: "\<not> bad_epoch e" using epoch_matches [OF inv] False by blast
  have "0 \<le> psEpoch s" using inv by (simp add: lease_inv_def)
  then show ?thesis using False rd b active_held [OF inv, of now]
    by (simp add: lease_Renew_def lease_spec_def write_row_def Let_def lease_abs_held) (simp add: lease_abs_def)
qed

lemma release_refines:
  assumes inv: "lease_inv s"
  shows "lease_abs (fst (lease_Release q h e s)) = lease_spec dur (lease_abs s) (q, now, ReqRelease h e)"
proof (cases "q = SqlFail \<or> psHolderID s = [] \<or> psHolderID s \<noteq> trim_space h \<or> psEpoch s \<noteq> uint e")
  case True
  have "lease_spec dur (lease_abs s) (q, now, ReqRelease h e) = lease_abs s"
    using True by (auto simp: lease_spec_def Let_def lease_abs_sel)
  moreover have "fst (lease_Release q h e s) = s"
    using True by (auto simp: lease_Release_def readState_def Let_def)
  ultimately show ?thesis by simp
next
  case False
  have rd: "readState q s = Inr s" using inv False by (simp add: readState_def lease_inv_def)
  have b: "\<not> bad_epoch e" using epoch_matches [OF inv] False by blast
  have "0 \<le> psEpoch s" using inv by (simp add: lease_inv_def)
  then show ?thesis using False rd b
    by (simp add: lease_Release_def lease_spec_def write_row_def Let_def lease_abs_held) (simp add: lease_abs_def)
qed

lemma lease_refines: "lease_inv s \<Longrightarrow> lease_abs (lease_step dur s ev) = lease_spec dur (lease_abs s) ev"
proof -
  obtain q now req where ev: "ev = (q, now, req)" by (cases ev)
  show "lease_inv s \<Longrightarrow> lease_abs (lease_step dur s ev) = lease_spec dur (lease_abs s) ev"
    by (cases req) (simp_all add: ev lease_step_simps acquire_refines renew_refines release_refines)
qed

interpretation lease: refined_machine "lease_step dur" lease_inv lease_abs "lease_spec dur" for dur
  by unfold_locales (simp_all add: lease_inv_step lease_refines)

section \<open>Exclusion\<close>

definition event_time :: "lease_event \<Rightarrow> time" where
  "event_time ev = fst (snd ev)"

fun releases :: "epoch \<Rightarrow> lease_event \<Rightarrow> bool" where
  "releases e (_, _, ReqRelease _ e') = (e' = e)"
| "releases _ _ = False"

text \<open>A clock whose deadlines fit the row: from the epoch to the last microsecond of 63 bits.\<close>

definition sane_time :: "duration \<Rightarrow> time \<Rightarrow> bool" where
  "sane_time dur t \<longleftrightarrow> 0 \<le> t \<and> t + dur < 1000 * 2 ^ 63"

lemma unix_micro_sane: "0 \<le> dur \<Longrightarrow> sane_time dur t \<Longrightarrow> unix_micro (t + dur) = (t + dur) div 1000"
proof -
  assume d: "0 \<le> dur" "sane_time dur t"
  then have "0 \<le> (t + dur) div 1000" "(t + dur) div 1000 < 2 ^ 63"
    unfolding sane_time_def by (simp add: pos_imp_zdiv_nonneg_iff, simp) linarith
  then show ?thesis by (simp add: unix_micro_def in64_def)
qed

lemma unix_micro_mono:
  "0 \<le> dur \<Longrightarrow> sane_time dur t \<Longrightarrow> sane_time dur t' \<Longrightarrow> t \<le> t' \<Longrightarrow> unix_micro (t + dur) \<le> unix_micro (t' + dur)"
  by (simp add: unix_micro_sane zdiv_mono1)

lemma unix_micro_nonneg: "0 \<le> dur \<Longrightarrow> sane_time dur t \<Longrightarrow> 0 \<le> unix_micro (t + dur)"
  by (simp add: unix_micro_sane) (simp add: sane_time_def pos_imp_zdiv_nonneg_iff)

lemma grant_held:
  assumes inv: "lease_inv s" and ap: "lease_apply dur (q, now, req) s = (s1, Some g)" and now: "0 \<le> now"
  shows "aEpoch (lease_abs s1) = uint (lEpoch (gLease g))"
    and "aHeld (lease_abs s1) = Some (lHolderID (gLease g), unix_micro (lExpiresAt (gLease g)))"
    and "gAt g = now" and "lease_step dur s (q, now, req) = s1"
proof -
  have cur: "aHeld (lease_abs s) = Some (psHolderID s, unix_micro (lExpiresAt (lease_of s)))"
    "uint (lEpoch (lease_of s)) = psEpoch s" "lHolderID (lease_of s) = psHolderID s"
    if "ActiveAt (lease_of s) now"
    using that inv now unfolding lease_inv_def
    by (auto simp: ActiveAt_def lease_of_def lease_abs_def unix_micro_def from_micro_def zero_time_def
        uint_word_of_int MaxInt64_def split: if_splits)
  have new: "uint (word_of_int (psEpoch s + 1) :: epoch) = psEpoch s + 1" if "psEpoch s < MaxInt64"
    using that inv by (subst uint_word_of_int) (simp add: lease_inv_def MaxInt64_def)
  have "aEpoch (lease_abs s1) = uint (lEpoch (gLease g)) \<and>
    aHeld (lease_abs s1) = Some (lHolderID (gLease g), unix_micro (lExpiresAt (gLease g))) \<and> gAt g = now"
  proof (cases req)
    case (ReqAcquire h)
    with ap obtain l where l: "lease_Acquire dur q now h s = (s1, Inr l)" "g = \<lparr>gLease = l, gAt = now\<rparr>"
      by (auto simp: lease_apply_def split: prod.splits sum.splits)
    show ?thesis
    proof (cases "ActiveAt (lease_of s) now")
      case True
      with l(1) have "s1 = s" "l = lease_of s"
        by (auto simp: lease_Acquire_def readState_def Let_def split: if_splits)
      with cur [OF True] l(2) show ?thesis by (simp add: lease_abs_sel)
    next
      case False
      with l show ?thesis using new
        by (auto simp: lease_Acquire_def readState_def write_row_def Let_def lease_abs_def split: if_splits)
    qed
  next
    case (ReqRenew h e)
    with ap obtain l where l: "lease_Renew dur q now h e s = (s1, Inr l)" "g = \<lparr>gLease = l, gAt = now\<rparr>"
      by (auto simp: lease_apply_def split: prod.splits sum.splits)
    then show ?thesis
      by (auto simp: lease_Renew_def readState_def write_row_def Let_def lease_abs_def split: if_splits)
  next
    case (ReqRelease h e)
    with ap show ?thesis by (simp add: lease_apply_def)
  qed
  then show "aEpoch (lease_abs s1) = uint (lEpoch (gLease g))"
    and "aHeld (lease_abs s1) = Some (lHolderID (gLease g), unix_micro (lExpiresAt (gLease g)))"
    and "gAt g = now" by blast+
  show "lease_step dur s (q, now, req) = s1" by (simp add: lease_step_def ap)
qed

text \<open>No expiry in the row is later than the latest instant plus the duration.\<close>

definition horizon :: "duration \<Rightarrow> time \<Rightarrow> alease \<Rightarrow> bool" where
  "horizon dur t a \<longleftrightarrow> sane_time dur t \<and> (\<forall>h x. aHeld a = Some (h, x) \<longrightarrow> 0 \<le> x \<and> x \<le> unix_micro (t + dur))"

text \<open>Epoch \<open>e\<close> is held by \<open>h\<close> until \<open>x\<close> at least, or a later epoch was granted when \<open>x\<close> was over.\<close>

definition kept :: "int \<Rightarrow> string \<Rightarrow> int \<Rightarrow> time \<Rightarrow> alease \<Rightarrow> bool" where
  "kept e h x t a \<longleftrightarrow>
     (aEpoch a = e \<and> (\<exists>x'. aHeld a = Some (h, x') \<and> x \<le> x')) \<or> (e < aEpoch a \<and> from_micro x \<le> t)"

lemma horizon_step:
  assumes "0 \<le> dur" "horizon dur t a" "sane_time dur (event_time ev)" "t \<le> event_time ev"
  shows "horizon dur (event_time ev) (lease_spec dur a ev)"
proof -
  obtain q now req where ev: "ev = (q, now, req)" by (cases ev)
  have "unix_micro (t + dur) \<le> unix_micro (now + dur)" "0 \<le> unix_micro (now + dur)"
    using assms by (auto simp: horizon_def ev event_time_def intro: unix_micro_mono unix_micro_nonneg)
  with assms show ?thesis
    by (cases req) (fastforce simp: horizon_def ev event_time_def lease_spec_def Let_def)+
qed

lemma not_held_over: "\<not> held_at now a \<Longrightarrow> aHeld a = Some (h, x') \<Longrightarrow> x \<le> x' \<Longrightarrow> 0 \<le> now \<Longrightarrow> from_micro x \<le> now"
  by (auto simp: held_at_def expiry_time_def from_micro_def split: if_splits)

lemma kept_step:
  assumes "0 \<le> dur" "horizon dur t a" "sane_time dur (event_time ev)" "t \<le> event_time ev"
    and k: "kept (uint e) h x t a" and r: "\<not> releases e ev"
  shows "kept (uint e) h x (event_time ev) (lease_spec dur a ev)"
proof -
  obtain q now req where ev: "ev = (q, now, req)" by (cases ev)
  have mono: "unix_micro (t + dur) \<le> unix_micro (now + dur)"
    using assms by (auto simp: horizon_def ev event_time_def intro: unix_micro_mono)
  have now: "0 \<le> now" "t \<le> now" using assms by (simp_all add: ev event_time_def sane_time_def)
  from k consider (cur) x' where "aEpoch a = uint e" "aHeld a = Some (h, x')" "x \<le> x'"
    | (old) "uint e < aEpoch a" "from_micro x \<le> t" by (auto simp: kept_def)
  then show ?thesis
  proof cases
    case cur
    have "x' \<le> unix_micro (now + dur)" using cur assms(2) mono by (auto simp: horizon_def)
    with cur not_held_over [OF _ cur(2,3) now(1)] r show ?thesis
      by (cases req) (auto simp: kept_def ev event_time_def lease_spec_def Let_def word_uint_eq_iff)
  next
    case old
    with now show ?thesis
      by (cases req) (auto simp: kept_def ev event_time_def lease_spec_def Let_def)
  qed
qed


lemma horizon_run:
  assumes "0 \<le> dur"
  shows "horizon dur t a \<Longrightarrow> sorted (t # map event_time evs) \<Longrightarrow> (\<And>ev. ev \<in> set evs \<Longrightarrow> sane_time dur (event_time ev))
    \<Longrightarrow> horizon dur (last (t # map event_time evs)) (foldl (lease_spec dur) a evs)"
proof (induction evs arbitrary: a t)
  case (Cons ev evs)
  have "horizon dur (event_time ev) (lease_spec dur a ev)"
    using Cons.prems by (intro horizon_step [OF assms Cons.prems(1)]) auto
  then show ?case using Cons.IH [of "event_time ev" "lease_spec dur a ev"] Cons.prems by simp
qed simp

lemma kept_run:
  assumes "0 \<le> dur"
  shows "horizon dur t a \<Longrightarrow> kept (uint e) h x t a \<Longrightarrow> sorted (t # map event_time evs)
    \<Longrightarrow> (\<And>ev. ev \<in> set evs \<Longrightarrow> sane_time dur (event_time ev) \<and> \<not> releases e ev)
    \<Longrightarrow> kept (uint e) h x (last (t # map event_time evs)) (foldl (lease_spec dur) a evs)"
proof (induction evs arbitrary: a t)
  case (Cons ev evs)
  have s: "sane_time dur (event_time ev)" "t \<le> event_time ev" "\<not> releases e ev" using Cons.prems by auto
  have "horizon dur (event_time ev) (lease_spec dur a ev)"
    by (rule horizon_step [OF assms Cons.prems(1) s(1,2)])
  moreover have "kept (uint e) h x (event_time ev) (lease_spec dur a ev)"
    by (rule kept_step [OF assms Cons.prems(1) s(1,2) Cons.prems(2) s(3)])
  ultimately show ?case using Cons.IH [of "event_time ev" "lease_spec dur a ev"] Cons.prems by simp
qed simp


lemma lease_grants_exclusive:
  assumes dur: "0 \<le> dur"
    and s: "s = foldl (lease_step dur) initialState evs0"
    and g1: "lease_apply dur ev s = (s1, Some a)"
    and g2: "lease_apply dur ev' (foldl (lease_step dur) s1 evs) = (s2, Some b)"
    and order: "sorted (map event_time (evs0 @ ev # evs @ [ev']))"
    and sane: "\<forall>v \<in> set (evs0 @ ev # evs @ [ev']). sane_time dur (event_time v)"
    and held: "\<forall>v \<in> set evs. \<not> releases (lEpoch (gLease a)) v"
  shows "lEpoch (gLease a) = lEpoch (gLease b) \<and> lHolderID (gLease a) = lHolderID (gLease b)
       \<or> lEpoch (gLease a) < lEpoch (gLease b) \<and> from_micro (unix_micro (lExpiresAt (gLease a))) \<le> gAt b"
proof -
  obtain q now req where ev: "ev = (q, now, req)" by (cases ev)
  obtain q' now' req' where ev': "ev' = (q', now', req')" by (cases ev')
  let ?e = "lEpoch (gLease a)" and ?A = "foldl (lease_spec dur)"
  have nn: "0 \<le> now" "0 \<le> now'" "sane_time dur 0"
    using sane dur by (auto simp: sane_time_def ev ev' event_time_def)
  have inv: "lease_inv s" "lease_inv s1" "lease_inv (foldl (lease_step dur) s1 evs)"
    using lease.run_inv [OF lease_inv_initial] lease_inv_step [of s dur ev] lease.run_inv [of s1] g1
    by (simp_all add: s lease_step_def)
  note A = grant_held [OF inv(1) g1 [unfolded ev] nn(1)]
  note B = grant_held [OF inv(3) g2 [unfolded ev'] nn(2)]
  have abs1: "lease_abs s1 = ?A (lease_abs initialState) (evs0 @ [ev])"
    using lease.run_abs [OF lease_inv_initial, of dur "evs0 @ [ev]"] A(4) by (simp add: s ev)
  have "horizon dur 0 (lease_abs initialState)"
    using nn by (simp add: horizon_def lease_abs_def initialState_def)
  from horizon_run [OF dur this, of "evs0 @ [ev]"] have h1: "horizon dur now (lease_abs s1)"
    using order sane unfolding abs1 by (force simp: ev event_time_def sorted_append sane_time_def)
  have k1: "kept (uint ?e) (lHolderID (gLease a)) (unix_micro (lExpiresAt (gLease a))) now (lease_abs s1)"
    using A by (simp add: kept_def)
  let ?evs = "evs @ [ev']"
  have req_not_release: "\<not> releases ?e ev'"
    using g2 by (cases req') (simp_all add: ev' lease_apply_def)
  have "kept (uint ?e) (lHolderID (gLease a)) (unix_micro (lExpiresAt (gLease a)))
      (last (now # map event_time ?evs)) (?A (lease_abs s1) ?evs)"
    using order sane held req_not_release
    by (intro kept_run [OF dur h1 k1]) (auto simp: ev event_time_def sorted_append)
  moreover have "?A (lease_abs s1) ?evs = lease_abs s2"
    using lease.run_abs [OF inv(2), of dur ?evs] B(4) by (simp add: ev')
  ultimately show ?thesis
    using B(1-3) by (auto simp: kept_def word_uint_eq_iff word_less_def ev' event_time_def)
qed

lemma expiry_rounds:
  assumes "lease_inv s" and "lease_apply dur ev s = (s1, Some g)" and "0 \<le> dur" and "sane_time dur (event_time ev)"
  shows "lExpiresAt (gLease g) < from_micro (unix_micro (lExpiresAt (gLease g))) + 1000"
proof -
  obtain q now req where ev: "ev = (q, now, req)" by (cases ev)
  have fresh: "now + dur < from_micro (unix_micro (now + dur)) + 1000"
    using assms(3,4) by (simp add: ev event_time_def unix_micro_sane from_micro_def)
  have cur: "lExpiresAt (lease_of s) < from_micro (unix_micro (lExpiresAt (lease_of s))) + 1000"
    if "ActiveAt (lease_of s) now"
    using that assms unfolding lease_inv_def
    by (auto simp: ActiveAt_def lease_of_def unix_micro_def from_micro_def zero_time_def ev event_time_def
        sane_time_def split: if_splits)
  show ?thesis
    using assms(2) fresh cur
    by (cases req)
      (auto simp: ev lease_apply_def lease_Acquire_def lease_Renew_def readState_def write_row_def Let_def
        split: if_splits prod.splits sum.splits)
qed

text \<open>Whatever is released in between, a later epoch was granted or the epoch is still held by \<open>h\<close> if by anybody.\<close>

definition epoch_of :: "int \<Rightarrow> string \<Rightarrow> alease \<Rightarrow> bool" where
  "epoch_of e h a \<longleftrightarrow> aEpoch a = e \<and> (\<forall>h' x. aHeld a = Some (h', x) \<longrightarrow> h' = h) \<or> e < aEpoch a"

lemma epoch_of_step: "epoch_of e h a \<Longrightarrow> epoch_of e h (lease_spec dur a ev)"
  by (auto simp: epoch_of_def lease_spec_def Let_def split: prod.split lease_request.split)

lemma epoch_of_run: "epoch_of e h a \<Longrightarrow> epoch_of e h (foldl (lease_spec dur) a evs)"
  by (induction evs arbitrary: a) (simp_all add: epoch_of_step)

lemma lease_grants_ordered:
  assumes s: "s = foldl (lease_step dur) initialState evs0"
    and g1: "lease_apply dur ev s = (s1, Some a)"
    and g2: "lease_apply dur ev' (foldl (lease_step dur) s1 evs) = (s2, Some b)"
    and "0 \<le> event_time ev" and "0 \<le> event_time ev'"
  shows "lEpoch (gLease a) = lEpoch (gLease b) \<and> lHolderID (gLease a) = lHolderID (gLease b) \<or> lEpoch (gLease a) < lEpoch (gLease b)"
proof -
  obtain q now req where ev: "ev = (q, now, req)" by (cases ev)
  obtain q' now' req' where ev': "ev' = (q', now', req')" by (cases ev')
  have inv: "lease_inv s" "lease_inv s1" "lease_inv (foldl (lease_step dur) s1 evs)"
    using lease.run_inv [OF lease_inv_initial] lease_inv_step [of s dur ev] lease.run_inv [of s1] g1
    by (simp_all add: s lease_step_def)
  note A = grant_held [OF inv(1) g1 [unfolded ev] assms(4) [unfolded ev event_time_def, simplified]]
  note B = grant_held [OF inv(3) g2 [unfolded ev'] assms(5) [unfolded ev' event_time_def, simplified]]
  have "epoch_of (uint (lEpoch (gLease a))) (lHolderID (gLease a)) (lease_abs s1)" using A by (simp add: epoch_of_def)
  from epoch_of_run [OF this, of dur "evs @ [ev']"]
  have "epoch_of (uint (lEpoch (gLease a))) (lHolderID (gLease a)) (lease_abs s2)"
    using lease.run_abs [OF inv(2), of dur "evs @ [ev']"] B(4) by (simp add: ev')
  then show ?thesis using B(1,2) by (auto simp: epoch_of_def word_uint_eq_iff word_less_def)
qed

lemma grant_time: "lease_apply dur ev s = (s', Some g) \<Longrightarrow> event_time ev = gAt g"
  by (cases ev; cases "snd (snd ev)") (auto simp: lease_apply_def event_time_def split: prod.splits sum.splits)

lemma lease_exclusion:
  assumes dur: "0 \<le> dur"
    and s: "s = foldl (lease_step dur) initialState evs0"
    and g1: "lease_apply dur ev s = (s1, Some a)"
    and g2: "lease_apply dur ev' (foldl (lease_step dur) s1 evs) = (s2, Some b)"
    and order: "sorted (map event_time (evs0 @ ev # evs @ [ev']))"
    and sane: "\<forall>v \<in> set (evs0 @ ev # evs @ [ev']). sane_time dur (event_time v)"
  shows "lEpoch (gLease a) = lEpoch (gLease b) \<and> lHolderID (gLease a) = lHolderID (gLease b)
       \<or> lEpoch (gLease a) < lEpoch (gLease b)
         \<and> (from_micro (unix_micro (lExpiresAt (gLease a))) \<le> gAt b \<and> lExpiresAt (gLease a) < gAt b + 1000
            \<or> (\<exists>v \<in> set evs. releases (lEpoch (gLease a)) v))"
proof (cases "\<exists>v \<in> set evs. releases (lEpoch (gLease a)) v")
  case True
  have "0 \<le> event_time ev" "0 \<le> event_time ev'" using sane by (simp_all add: sane_time_def)
  with lease_grants_ordered [OF s g1 g2] True show ?thesis by blast
next
  case False
  have "lease_inv s" using lease.run_inv [OF lease_inv_initial] by (simp add: s)
  from expiry_rounds [OF this g1 dur] have "lExpiresAt (gLease a) < from_micro (unix_micro (lExpiresAt (gLease a))) + 1000"
    using sane by simp
  with lease_grants_exclusive [OF assms] False show ?thesis by force
qed

text \<open>
  C3. Grants of the witness are exclusive. Take any two grants of a run of the witness, whatever requests it serves
  before and between them, with transactions that fail or lose their reply, as long as its clock does not go back
  (and the instants are in the range of the stored microseconds). Either both have the same epoch and the same
  holder, or the later one has a strictly larger epoch, and then it is given no earlier than the stored (microsecond)
  expiry of the first, which is less than a microsecond before the expiry that the first reply carries, unless the
  witness served a release of the first epoch in between.
\<close>

theorem lease_exclusive:
  assumes dur: "0 \<le> dur"
    and s: "s = foldl (lease_step dur) initialState evs0"
    and g1: "lease_apply dur ev s = (s1, Some a)"
    and g2: "lease_apply dur ev' (foldl (lease_step dur) s1 evs) = (s2, Some b)"
    and order: "sorted (map event_time (evs0 @ ev # evs @ [ev']))"
    and sane: "\<forall>v \<in> set (evs0 @ ev # evs @ [ev']). sane_time dur (event_time v)"
  shows "lEpoch (gLease a) = lEpoch (gLease b) \<and> lHolderID (gLease a) = lHolderID (gLease b)
       \<or> lEpoch (gLease a) < lEpoch (gLease b)
         \<and> (from_micro (unix_micro (lExpiresAt (gLease a))) \<le> gAt b \<and> lExpiresAt (gLease a) < gAt b + 1000
            \<or> (\<exists>v \<in> set evs. releases (lEpoch (gLease a)) v))"
  by (rule lease_exclusion [OF assms])

definition demo_start :: time where "demo_start = 1700000000000000000"

definition demo_lease_run :: "lease_event list" where
  "demo_lease_run =
     [(SqlOk, demo_start + 2000000000, ReqAcquire ''b''), (SqlReplyLost, demo_start + 4000000000, ReqRenew ''a'' 1),
      (SqlFail, demo_start + 4500000000, ReqAcquire ''b''), (SqlReplyLost, demo_start + 9000000000, ReqAcquire ''b'')]"

lemma demo_trim: "trim_space '' b '' = ''b''"
  by code_simp

lemmas lease_eval = demo_trim lease_apply_def lease_step_def lease_ops bad_epoch_def ActiveAt_def initialState_def
  demo_start_def demo_lease_run_def zero_time_def from_micro_def unix_micro_def wrap64_def MaxInt64_def
  DefaultLeaseDuration_def event_time_def sane_time_def trim_eval

theorem lease_exclusive_witness:
  "gAt (the (snd (lease_apply DefaultLeaseDuration (SqlOk, demo_start + 9000000001, ReqAcquire '' b '')
      (foldl (lease_step DefaultLeaseDuration) initialState
        ((SqlOk, demo_start, ReqAcquire ''a'') # demo_lease_run)))))
    \<ge> demo_start + 5000000000"
proof -
  let ?ev = "(SqlOk, demo_start, ReqAcquire ''a'')" and ?ev' = "(SqlOk, demo_start + 9000000001, ReqAcquire '' b '')"
  let ?D = DefaultLeaseDuration
  obtain s1 where s1: "lease_apply ?D ?ev initialState
      = (s1, Some \<lparr>gLease = \<lparr>lHolderID = ''a'', lEpoch = 1, lExpiresAt = demo_start + 5000000000\<rparr>, gAt = demo_start\<rparr>)"
      "s1 = \<lparr>psHolderID = ''a'', psEpoch = 1, psExpiresAtUS = 1700000005000000\<rparr>"
    by (simp add: lease_eval)
  have mid: "foldl (lease_step ?D) s1 demo_lease_run
      = \<lparr>psHolderID = ''b'', psEpoch = 2, psExpiresAtUS = 1700000014000000\<rparr>"
    by (simp add: s1(2) lease_eval)
  obtain s2 where s2: "lease_apply ?D ?ev' (foldl (lease_step ?D) s1 demo_lease_run)
      = (s2, Some \<lparr>gLease = \<lparr>lHolderID = ''b'', lEpoch = 2, lExpiresAt = demo_start + 14000000000\<rparr>,
            gAt = demo_start + 9000000001\<rparr>)"
    unfolding mid by (simp add: lease_eval)
  have "foldl (lease_step ?D) initialState [] = initialState" by simp
  note r = lease_exclusive [OF _ this [symmetric] s1(1) s2]
  have fm: "from_micro (unix_micro (demo_start + 5000000000)) \<le> demo_start + 9000000001"
    using r by (simp add: DefaultLeaseDuration_def event_time_def demo_lease_run_def demo_start_def sane_time_def)
  have "lease_step ?D initialState ?ev = s1" by (simp add: lease_step_def s1(1))
  then have "foldl (lease_step ?D) initialState (?ev # demo_lease_run) = foldl (lease_step ?D) s1 demo_lease_run"
    by simp
  note st = this
  show ?thesis unfolding st s2
    using fm
    by (simp add: from_micro_def unix_micro_def wrap64_def demo_start_def)
qed

text \<open>
  C29. The stored row implements the lease authority: an epoch that counts the grants and at most one
  holder with an expiry, changed only by the rules of \<open>lease_spec\<close>, for every sequence of requests, clock
  readings and database failures.
\<close>

theorem lease_run_refines:
  "lease_abs (foldl (lease_step dur) initialState evs) = foldl (lease_spec dur) \<lparr>aEpoch = 0, aHeld = None\<rparr> evs"
  using lease.run_abs [OF lease_inv_initial, of dur evs] by (simp add: lease_abs_def initialState_def)

text \<open>
  The reply carries nanoseconds, the row microseconds: a holder may be granted the lease while the reply
  to the previous one still says it is active.
\<close>

lemma lease_reply_outlives_row:
  "\<exists>s1 s2 a b. lease_apply DefaultLeaseDuration (SqlOk, 1999, ReqAcquire ''a'') initialState = (s1, Some a)
    \<and> lease_apply DefaultLeaseDuration (SqlOk, 5000001000, ReqAcquire ''b'') s1 = (s2, Some b)
    \<and> ActiveAt (gLease a) (gAt b) \<and> lHolderID (gLease b) \<noteq> lHolderID (gLease a)"
  by (simp add: lease_eval)

end
