(* ===== verification/HAAuthority.thy ===== *)
theory HAAuthority
  imports HALease
begin

text \<open>
  The Hub's side of high availability. \<open>internal/hawitness/server.go\<close> answers lease requests over HTTP,
  \<open>internal/hawitness/client.go\<close> turns an answer into an observation, and the controller of
  \<open>internal/haauthority/controller.go\<close> turns observations into the local dispatch authority. The
  controller's operations run on several goroutines: each goroutine has a program counter that stands
  between two critical sections of \<open>mu\<close> or at the wait for \<open>opMu\<close>, and one event moves one goroutine.
  TLS, JSON and the network are not modelled; what arrives is an argument of the event.
\<close>

section \<open>The witness server\<close>

record LeaseResponse =
  lrHolderID :: string
  lrEpoch :: epoch
  lrExpiresAt :: time
  lrActive :: bool
  lrWitnessTime :: time

datatype http_reply =
    ReplyLease LeaseResponse
  | ReplyNoContent
  | ReplyError nat string string

definition writeAuthorityError :: "lease_error \<Rightarrow> http_reply" where
  "writeAuthorityError e =
     (case e of
        ErrLeaseHeld \<Rightarrow> ReplyError 409 ''LEASE_HELD'' ''HA lease is already held''
      | ErrLeaseNotHeld \<Rightarrow> ReplyError 409 ''LEASE_NOT_HELD'' ''HA lease holder or epoch does not match''
      | ErrLeaseExpired \<Rightarrow> ReplyError 409 ''LEASE_EXPIRED'' ''HA lease has expired''
      | ErrInvalidHolder \<Rightarrow> ReplyError 400 ''INVALID_HOLDER'' ''HA lease holder is invalid''
      | ErrEpochExhausted \<Rightarrow> ReplyError 503 ''EPOCH_EXHAUSTED'' ''HA fencing epoch is exhausted''
      | _ \<Rightarrow> ReplyError 500 ''WITNESS_INTERNAL'' ''HA witness could not complete the request'')"

definition writeLease :: "time \<Rightarrow> Lease \<Rightarrow> bool \<Rightarrow> http_reply" where
  "writeLease now l active =
     ReplyLease \<lparr>lrHolderID = lHolderID l, lrEpoch = lEpoch l, lrExpiresAt = lExpiresAt l, lrActive = active,
       lrWitnessTime = now\<rparr>"

text \<open>\<open>now\<close> is the lease service's reading of the clock, \<open>now'\<close> the later one of the server.\<close>

definition handleCurrent :: "sql \<Rightarrow> time \<Rightarrow> time \<Rightarrow> persistedState \<Rightarrow> http_reply" where
  "handleCurrent q now now' s =
     (case lease_Current q now s of
        Inl e \<Rightarrow> writeAuthorityError e | Inr (l, active) \<Rightarrow> writeLease now' l active)"

definition handleAcquire :: "duration \<Rightarrow> sql \<Rightarrow> time \<Rightarrow> time \<Rightarrow> string \<Rightarrow> persistedState
    \<Rightarrow> persistedState \<times> http_reply" where
  "handleAcquire dur q now now' hubID s =
     (case lease_Acquire dur q now hubID s of
        (s', Inl e) \<Rightarrow> (s', writeAuthorityError e) | (s', Inr l) \<Rightarrow> (s', writeLease now' l True))"

definition handleRenew :: "duration \<Rightarrow> sql \<Rightarrow> time \<Rightarrow> time \<Rightarrow> string \<Rightarrow> epoch \<Rightarrow> persistedState
    \<Rightarrow> persistedState \<times> http_reply" where
  "handleRenew dur q now now' hubID e s =
     (case lease_Renew dur q now hubID e s of
        (s', Inl err) \<Rightarrow> (s', writeAuthorityError err) | (s', Inr l) \<Rightarrow> (s', writeLease now' l True))"

definition handleRelease :: "sql \<Rightarrow> string \<Rightarrow> epoch \<Rightarrow> persistedState \<Rightarrow> persistedState \<times> http_reply" where
  "handleRelease q hubID e s =
     (case lease_Release q hubID e s of
        (s', Inl err) \<Rightarrow> (s', writeAuthorityError err) | (s', Inr _) \<Rightarrow> (s', ReplyNoContent))"

text \<open>
  A request as it reaches the handler: the Hub identity and key fingerprint of the client certificate
  (the fingerprint may fail to be computed), the method, the path and the body.
\<close>

record witness_request =
  wrPeer :: "(string \<times> string option) option"
  wrMethod :: string
  wrPath :: string
  wrBody :: string

definition method_not_allowed :: http_reply where
  "method_not_allowed = ReplyError 405 ''METHOD_NOT_ALLOWED'' ''HTTP method is not allowed''"

definition invalid_request :: "string \<Rightarrow> http_reply" where
  "invalid_request msg = ReplyError 400 ''INVALID_REQUEST'' msg"

text \<open>
  Decoding a body and comparing fingerprints are library code: \<open>emptyBody\<close> gives the error of
  \<open>requireEmptyJSONBody\<close>, \<open>epochBody\<close> the number the body carries or the error.
\<close>

definition decodeEpochRequest :: "(string \<Rightarrow> string + epoch) \<Rightarrow> string \<Rightarrow> string + epoch" where
  "decodeEpochRequest epochBody body =
     (case epochBody body of
        Inl msg \<Rightarrow> Inl msg
      | Inr e \<Rightarrow> if e = 0 then Inl ''fencing epoch must be greater than zero'' else Inr e)"

definition authorized :: "(string \<Rightarrow> string option) \<Rightarrow> (string \<Rightarrow> string \<Rightarrow> bool) \<Rightarrow> string \<Rightarrow> string option \<Rightarrow> bool" where
  "authorized allowed matches hubID fingerprint =
     (case (allowed hubID, fingerprint) of (Some want, Some fp) \<Rightarrow> matches fp want | _ \<Rightarrow> False)"

definition serveHTTP :: "(string \<Rightarrow> string option) \<Rightarrow> (string \<Rightarrow> string \<Rightarrow> bool) \<Rightarrow> (string \<Rightarrow> string option)
    \<Rightarrow> (string \<Rightarrow> string + epoch) \<Rightarrow> duration \<Rightarrow> sql \<Rightarrow> time \<Rightarrow> time \<Rightarrow> witness_request \<Rightarrow> persistedState
    \<Rightarrow> persistedState \<times> http_reply" where
  "serveHTTP allowed matches emptyBody epochBody dur q now now' r s =
     (case wrPeer r of
        None \<Rightarrow> (s, ReplyError 401 ''HUB_AUTHENTICATION_REQUIRED'' ''authenticated HA Hub identity is required'')
      | Some (hubID, fp) \<Rightarrow>
        if \<not> authorized allowed matches hubID fp
        then (s, ReplyError 403 ''HUB_NOT_AUTHORIZED'' ''HA Hub is not authorized'')
        else if wrPath r = ''/v1/lease'' then
          (if wrMethod r \<noteq> ''GET'' then (s, method_not_allowed) else (s, handleCurrent q now now' s))
        else if wrPath r = ''/v1/lease/acquire'' then
          (if wrMethod r \<noteq> ''POST'' then (s, method_not_allowed)
           else case emptyBody (wrBody r) of
             Some msg \<Rightarrow> (s, invalid_request msg) | None \<Rightarrow> handleAcquire dur q now now' hubID s)
        else if wrPath r = ''/v1/lease/renew'' then
          (if wrMethod r \<noteq> ''POST'' then (s, method_not_allowed)
           else case decodeEpochRequest epochBody (wrBody r) of
             Inl msg \<Rightarrow> (s, invalid_request msg) | Inr e \<Rightarrow> handleRenew dur q now now' hubID e s)
        else if wrPath r = ''/v1/lease/release'' then
          (if wrMethod r \<noteq> ''POST'' then (s, method_not_allowed)
           else case decodeEpochRequest epochBody (wrBody r) of
             Inl msg \<Rightarrow> (s, invalid_request msg) | Inr e \<Rightarrow> handleRelease q hubID e s)
        else (s, ReplyError 404 ''NOT_FOUND'' ''HA witness endpoint was not found''))"

section \<open>The Hub's client\<close>

text \<open>A local \<open>time.Time\<close>: its monotonic and its wall reading.\<close>

record Instant =
  iMono :: time
  iWall :: time

definition zero_instant :: Instant where
  "zero_instant = \<lparr>iMono = zero_time, iWall = zero_time\<rparr>"

record LeaseObservation = LeaseResponse +
  loRequestStartedAt :: Instant
  loReceivedAt :: Instant

datatype client_error =
    ClUnavailable | ClTransport | ClRemote nat string string | ClBadEpoch | ClUnexpectedEpoch
  | ClNotOwned | ClIncomplete | ClExpired

text \<open>
  \<open>ConservativeDeadline\<close> adds the remaining witness time to the start of the request; both parts of the
  local instant advance.
\<close>

definition ConservativeDeadline :: "LeaseObservation \<Rightarrow> client_error + Instant" where
  "ConservativeDeadline o1 =
     (if is_zero (iWall (loRequestStartedAt o1)) \<or> is_zero (lrWitnessTime o1) \<or> is_zero (lrExpiresAt o1)
      then Inl ClIncomplete
      else
        let remaining = time_sub (lrExpiresAt o1) (lrWitnessTime o1)
        in if remaining \<le> 0 then Inl ClExpired
           else Inr \<lparr>iMono = iMono (loRequestStartedAt o1) + remaining, iWall = iWall (loRequestStartedAt o1) + remaining\<rparr>)"

definition validateOwnedLease :: "string \<Rightarrow> LeaseObservation \<Rightarrow> client_error + unit" where
  "validateOwnedLease hubID o1 =
     (if lrHolderID o1 \<noteq> hubID \<or> lrEpoch o1 = 0 \<or> \<not> lrActive o1 then Inl ClNotOwned
      else case ConservativeDeadline o1 of Inl e \<Rightarrow> Inl e | Inr _ \<Rightarrow> Inr ())"

definition status_text :: "nat \<Rightarrow> string" where
  "status_text st =
     (if st = 200 then ''OK'' else if st = 204 then ''No Content'' else if st = 400 then ''Bad Request''
      else if st = 401 then ''Unauthorized'' else if st = 403 then ''Forbidden'' else if st = 404 then ''Not Found''
      else if st = 405 then ''Method Not Allowed'' else if st = 409 then ''Conflict''
      else if st = 500 then ''Internal Server Error'' else if st = 503 then ''Service Unavailable'' else [])"

definition decodeRemoteError :: "nat \<Rightarrow> string \<Rightarrow> string \<Rightarrow> client_error" where
  "decodeRemoteError st code msg =
     ClRemote st (trim_space code) (if trim_space msg \<noteq> [] then trim_space msg else status_text st)"

text \<open>The reply to a lease request, if one arrived; anything but a lease is an error.\<close>

definition doLease :: "Instant \<Rightarrow> Instant \<Rightarrow> http_reply option \<Rightarrow> client_error + LeaseObservation" where
  "doLease started received reply =
     (case reply of
        None \<Rightarrow> Inl ClTransport
      | Some (ReplyError st code msg) \<Rightarrow> Inl (decodeRemoteError st code msg)
      | Some ReplyNoContent \<Rightarrow> Inl (decodeRemoteError 204 [] [])
      | Some (ReplyLease l) \<Rightarrow>
          Inr \<lparr>lrHolderID = lrHolderID l, lrEpoch = lrEpoch l, lrExpiresAt = lrExpiresAt l, lrActive = lrActive l,
               lrWitnessTime = lrWitnessTime l, loRequestStartedAt = started, loReceivedAt = received\<rparr>)"

definition client_Acquire :: "string \<Rightarrow> Instant \<Rightarrow> Instant \<Rightarrow> http_reply option \<Rightarrow> client_error + LeaseObservation" where
  "client_Acquire hubID started received reply =
     (case doLease started received reply of
        Inl e \<Rightarrow> Inl e
      | Inr o1 \<Rightarrow> (case validateOwnedLease hubID o1 of Inl e \<Rightarrow> Inl e | Inr _ \<Rightarrow> Inr o1))"

definition client_Renew :: "string \<Rightarrow> epoch \<Rightarrow> Instant \<Rightarrow> Instant \<Rightarrow> http_reply option
    \<Rightarrow> client_error + LeaseObservation" where
  "client_Renew hubID e started received reply =
     (if e = 0 then Inl ClBadEpoch
      else case doLease started received reply of
        Inl err \<Rightarrow> Inl err
      | Inr o1 \<Rightarrow>
          if lrEpoch o1 \<noteq> e then Inl ClUnexpectedEpoch
          else (case validateOwnedLease hubID o1 of Inl err \<Rightarrow> Inl err | Inr _ \<Rightarrow> Inr o1))"

definition client_Release :: "epoch \<Rightarrow> http_reply option \<Rightarrow> client_error + unit" where
  "client_Release e reply =
     (if e = 0 then Inl ClBadEpoch
      else case reply of
        None \<Rightarrow> Inl ClTransport
      | Some ReplyNoContent \<Rightarrow> Inr ()
      | Some (ReplyError st code msg) \<Rightarrow> Inl (decodeRemoteError st code msg)
      | Some (ReplyLease _) \<Rightarrow> Inl (decodeRemoteError 200 [] []))"

section \<open>The controller\<close>

definition wallRollbackTolerance :: duration where "wallRollbackTolerance = 100 * 1000000"

definition wallTime :: "Instant \<Rightarrow> time" where
  "wallTime i = wrap64 (iWall i)"

record localGrant =
  glHolderID :: string
  glEpoch :: epoch
  glRequestStarted :: Instant
  glWallStarted :: time
  glRemaining :: duration

definition noGrant :: localGrant where
  "noGrant = \<lparr>glHolderID = [], glEpoch = 0, glRequestStarted = zero_instant, glWallStarted = zero_time, glRemaining = 0\<rparr>"

datatype DispatchMode = ModeStandalone | ModeLeader | ModeStandby | ModeOther string

record DispatchSnapshot =
  dsMode :: DispatchMode
  dsHolderID :: string
  dsEpoch :: epoch

definition standby :: DispatchSnapshot where
  "standby = \<lparr>dsMode = ModeStandby, dsHolderID = [], dsEpoch = 0\<rparr>"

definition leader_of :: "localGrant \<Rightarrow> DispatchSnapshot" where
  "leader_of g = \<lparr>dsMode = ModeLeader, dsHolderID = glHolderID g, dsEpoch = glEpoch g\<rparr>"

text \<open>The clocks at one check: \<open>time.Since\<close> reads the monotonic clock, \<open>time.Now\<close> the wall clock.\<close>

definition mono_elapsed :: "Instant \<Rightarrow> localGrant \<Rightarrow> duration" where
  "mono_elapsed now g = time_sub (iMono now) (iMono (glRequestStarted g))"

definition wall_elapsed :: "Instant \<Rightarrow> localGrant \<Rightarrow> duration" where
  "wall_elapsed now g = time_sub (wallTime now) (glWallStarted g)"

definition grantStillSafe :: "Instant \<Rightarrow> localGrant \<Rightarrow> bool" where
  "grantStillSafe now g =
     (let monotonicElapsed = mono_elapsed now g; wallElapsed = wall_elapsed now g in
      if monotonicElapsed < 0 \<or> wallElapsed < 0 then False
      else if monotonicElapsed \<ge> glRemaining g \<or> wallElapsed \<ge> glRemaining g then False
      else if wrap64 (wallElapsed + wallRollbackTolerance) < monotonicElapsed then False
      else True)"

definition grant_current :: "Instant \<Rightarrow> localGrant \<Rightarrow> DispatchSnapshot" where
  "grant_current now g =
     (if glEpoch g = 0 \<or> trim_space (glHolderID g) = [] \<or> glRemaining g \<le> 0 \<or> is_zero (iWall (glRequestStarted g))
      then standby
      else if \<not> grantStillSafe now g then standby
      else leader_of g)"

datatype auth_error =
    ErrNoActiveLease | ErrAuthoritySuperseded | ErrWitnessCall | ErrDifferentHub | ErrNotActive
  | ErrIncomplete | ErrObservationExpired | ErrNotLocallySafe | ErrExpiredBeforeInstall | ErrEpochChanged

text \<open>The part of \<open>install\<close> before it takes \<open>mu\<close>.\<close>

definition grant_of :: "LeaseObservation \<Rightarrow> localGrant" where
  "grant_of o1 =
     \<lparr>glHolderID = trim_space (lrHolderID o1), glEpoch = lrEpoch o1, glRequestStarted = loRequestStartedAt o1,
      glWallStarted = wallTime (loRequestStartedAt o1), glRemaining = time_sub (lrExpiresAt o1) (lrWitnessTime o1)\<rparr>"

definition check_observation :: "string \<Rightarrow> Instant \<Rightarrow> LeaseObservation \<Rightarrow> auth_error + localGrant" where
  "check_observation hubID now o1 =
     (if trim_space (lrHolderID o1) \<noteq> trim_space hubID then Inl ErrDifferentHub
      else if lrEpoch o1 = 0 \<or> \<not> lrActive o1 then Inl ErrNotActive
      else if is_zero (iWall (loRequestStartedAt o1)) \<or> is_zero (lrWitnessTime o1) \<or> is_zero (lrExpiresAt o1)
      then Inl ErrIncomplete
      else if time_sub (lrExpiresAt o1) (lrWitnessTime o1) \<le> 0 then Inl ErrObservationExpired
      else case ConservativeDeadline o1 of Inl _ \<Rightarrow> Inl ErrObservationExpired
      | Inr _ \<Rightarrow> if \<not> grantStillSafe now (grant_of o1) then Inl ErrNotLocallySafe else Inr (grant_of o1))"

type_synonym generation = "64 word"
type_synonym tid = nat

text \<open>
  Where a goroutine stands. \<open>AcqWait\<close>, \<open>RenWait\<close> and \<open>RelWait\<close> wait for \<open>opMu\<close>; \<open>AcqCall\<close>, \<open>RenCall\<close> and
  \<open>RelCall\<close> are inside the witness call; the others are between two critical sections of \<open>mu\<close>.
\<close>

datatype pc =
    Idle
  | AcqWait generation
  | AcqCall generation
  | RenWait generation
  | RenSnap generation
  | RenCall generation epoch
  | Installing generation localGrant
  | Invalidating generation auth_error
  | RelWait epoch
  | RelCall epoch
  | Returned "auth_error + unit"

record Controller =
  cHubID :: string
  cGrant :: localGrant
  cGeneration :: generation
  cOpMu :: "tid option"
  cPc :: "tid \<Rightarrow> pc"

definition newController :: "string \<Rightarrow> Controller" where
  "newController hubID =
     \<lparr>cHubID = hubID, cGrant = noGrant, cGeneration = 0, cOpMu = None, cPc = (\<lambda>_. Idle)\<rparr>"

definition ctl_Current :: "Instant \<Rightarrow> Controller \<Rightarrow> DispatchSnapshot" where
  "ctl_Current now c = grant_current now (cGrant c)"

definition set_pc :: "tid \<Rightarrow> pc \<Rightarrow> Controller \<Rightarrow> Controller" where
  "set_pc t p c = c\<lparr>cPc := (cPc c)(t := p)\<rparr>"

text \<open>Returning from an operation releases \<open>opMu\<close>.\<close>

definition return_op :: "tid \<Rightarrow> auth_error + unit \<Rightarrow> Controller \<Rightarrow> Controller" where
  "return_op t r c = (set_pc t (Returned r) c)\<lparr>cOpMu := None\<rparr>"

definition demoteAndEpoch :: "Controller \<Rightarrow> Controller \<times> epoch" where
  "demoteAndEpoch c = (c\<lparr>cGeneration := cGeneration c + 1, cGrant := noGrant\<rparr>, glEpoch (cGrant c))"

definition invalidateIfGeneration :: "generation \<Rightarrow> Controller \<Rightarrow> Controller" where
  "invalidateIfGeneration expected c =
     (if cGeneration c \<noteq> expected then c else c\<lparr>cGeneration := cGeneration c + 1, cGrant := noGrant\<rparr>)"

definition leaderSnapshot :: "generation \<Rightarrow> Instant \<Rightarrow> Controller \<Rightarrow> DispatchSnapshot option" where
  "leaderSnapshot expected now c =
     (if cGeneration c \<noteq> expected then None
      else if glEpoch (cGrant c) = 0 \<or> trim_space (glHolderID (cGrant c)) = [] \<or> \<not> grantStillSafe now (cGrant c) then None
      else Some (leader_of (cGrant c)))"

definition idle_pc :: "pc \<Rightarrow> bool" where
  "idle_pc p = (case p of Idle \<Rightarrow> True | Returned _ \<Rightarrow> True | _ \<Rightarrow> False)"

datatype ctl_event =
    EvAcquire tid
  | EvRenew tid
  | EvRelease tid
  | EvDemote
  | EvLock tid
  | EvSnapshot tid Instant
  | EvReply tid "LeaseObservation option" Instant
  | EvCommit tid Instant
  | EvInvalidate tid
  | EvReleaseReply tid bool

definition on_reply :: "tid \<Rightarrow> generation \<Rightarrow> LeaseObservation option \<Rightarrow> Instant \<Rightarrow> Controller \<Rightarrow> Controller" where
  "on_reply t g reply now c =
     set_pc t
       (case reply of
          None \<Rightarrow> Invalidating g ErrWitnessCall
        | Some o1 \<Rightarrow> (case check_observation (cHubID c) now o1 of
            Inl e \<Rightarrow> Invalidating g e | Inr gr \<Rightarrow> Installing g gr)) c"

text \<open>
  One step of one goroutine. An event that does not fit where the goroutine stands changes nothing.
\<close>

fun ctl_step :: "Controller \<Rightarrow> ctl_event \<Rightarrow> Controller" where
  "ctl_step c (EvAcquire t) = (if idle_pc (cPc c t) then set_pc t (AcqWait (cGeneration c)) c else c)"
| "ctl_step c (EvRenew t) = (if idle_pc (cPc c t) then set_pc t (RenWait (cGeneration c)) c else c)"
| "ctl_step c (EvRelease t) =
     (if idle_pc (cPc c t)
      then (case demoteAndEpoch c of (c', e) \<Rightarrow>
             if e = 0 then set_pc t (Returned (Inl ErrNoActiveLease)) c' else set_pc t (RelWait e) c')
      else c)"
| "ctl_step c EvDemote = fst (demoteAndEpoch c)"
| "ctl_step c (EvLock t) =
     (if cOpMu c \<noteq> None then c
      else case cPc c t of
        AcqWait g \<Rightarrow>
          (if cGeneration c \<noteq> g then return_op t (Inl ErrAuthoritySuperseded) c
           else (set_pc t (AcqCall g) c)\<lparr>cOpMu := Some t\<rparr>)
      | RenWait g \<Rightarrow>
          (if cGeneration c \<noteq> g then return_op t (Inl ErrAuthoritySuperseded) c
           else (set_pc t (RenSnap g) c)\<lparr>cOpMu := Some t\<rparr>)
      | RelWait e \<Rightarrow> (set_pc t (RelCall e) c)\<lparr>cOpMu := Some t\<rparr>
      | _ \<Rightarrow> c)"
| "ctl_step c (EvSnapshot t now) =
     (case cPc c t of
        RenSnap g \<Rightarrow>
          (case leaderSnapshot g now c of
             None \<Rightarrow> return_op t (Inl ErrNoActiveLease) c
           | Some s \<Rightarrow> set_pc t (RenCall g (dsEpoch s)) c)
      | _ \<Rightarrow> c)"
| "ctl_step c (EvReply t reply now) =
     (case cPc c t of
        AcqCall g \<Rightarrow> on_reply t g reply now c
      | RenCall g e \<Rightarrow>
          (case reply of
             Some o1 \<Rightarrow>
               if lrEpoch o1 \<noteq> e then set_pc t (Invalidating g ErrEpochChanged) c else on_reply t g reply now c
           | None \<Rightarrow> on_reply t g reply now c)
      | _ \<Rightarrow> c)"
| "ctl_step c (EvCommit t now) =
     (case cPc c t of
        Installing g gr \<Rightarrow>
          (if cGeneration c \<noteq> g then set_pc t (Invalidating g ErrAuthoritySuperseded) c
           else if \<not> grantStillSafe now gr then set_pc t (Invalidating g ErrExpiredBeforeInstall) c
           else return_op t (Inr ()) (c\<lparr>cGrant := gr\<rparr>))
      | _ \<Rightarrow> c)"
| "ctl_step c (EvInvalidate t) =
     (case cPc c t of
        Invalidating g e \<Rightarrow> return_op t (Inl e) (invalidateIfGeneration g c)
      | _ \<Rightarrow> c)"
| "ctl_step c (EvReleaseReply t ok) =
     (case cPc c t of
        RelCall e \<Rightarrow> return_op t (if ok then Inr () else Inl ErrWitnessCall) c
      | _ \<Rightarrow> c)"

section \<open>Fencing\<close>

text \<open>The generation under which a goroutine could still install a lease.\<close>

fun armed :: "pc \<Rightarrow> generation option" where
  "armed (AcqWait g) = Some g"
| "armed (AcqCall g) = Some g"
| "armed (RenCall g _) = Some g"
| "armed (Installing g _) = Some g"
| "armed _ = None"

fun captured :: "pc \<Rightarrow> generation option" where
  "captured (RenWait g) = Some g"
| "captured (RenSnap g) = Some g"
| "captured (Invalidating g _) = Some g"
| "captured p = armed p"

named_theorems ctl_defs \<open>the pieces of the controller's steps\<close>

lemmas [ctl_defs] = set_pc_def return_op_def demoteAndEpoch_def invalidateIfGeneration_def on_reply_def
  leaderSnapshot_def Let_def

lemma gen_inject: "k < 2 ^ 64 \<Longrightarrow> m < 2 ^ 64 \<Longrightarrow> (of_nat k :: generation) = of_nat m \<longleftrightarrow> k = m"
  by (simp add: word_of_nat_eq_iff take_bit_nat_eq_self)

text \<open>After \<open>n\<close> steps the generation and every captured one were reached by counting.\<close>

definition counted :: "nat \<Rightarrow> Controller \<Rightarrow> bool" where
  "counted n c \<longleftrightarrow> (\<exists>m\<le>n. cGeneration c = of_nat m \<and> (\<forall>t g. captured (cPc c t) = Some g \<longrightarrow> (\<exists>k\<le>m. g = of_nat k)))"

lemma counted_mono: "counted n c \<Longrightarrow> n \<le> n' \<Longrightarrow> counted n' c"
  unfolding counted_def by (meson order_trans)

lemma countedI:
  "m \<le> n \<Longrightarrow> cGeneration c = of_nat m \<Longrightarrow> (\<And>t g. captured (cPc c t) = Some g \<Longrightarrow> \<exists>k\<le>m. g = of_nat k) \<Longrightarrow> counted n c"
  unfolding counted_def by blast

lemma captured_check [simp]:
  "captured (case r of Inl e \<Rightarrow> Invalidating g e | Inr gr \<Rightarrow> Installing g gr) = Some g"
  by (simp split: sum.splits)

text \<open>One step keeps the generation or adds one, and a goroutine's captured generation is its old one or the present one.\<close>

lemma step_generation:
  "cGeneration (ctl_step c ev) = cGeneration c \<or> cGeneration (ctl_step c ev) = cGeneration c + 1"
  by (cases ev) (auto simp: ctl_defs split: pc.splits option.splits)

lemma step_captured:
  "captured (cPc (ctl_step c ev) t) = Some g \<Longrightarrow> captured (cPc c t) = Some g \<or> g = cGeneration c"
  by (cases ev) (auto simp: ctl_defs captured_check split: pc.splits option.splits if_splits)

lemma counted_step: "counted n c \<Longrightarrow> counted (Suc n) (ctl_step c ev)"
proof -
  assume "counted n c"
  then obtain m where m: "m \<le> n" "cGeneration c = of_nat m"
    "\<And>t g. captured (cPc c t) = Some g \<Longrightarrow> \<exists>k\<le>m. g = of_nat k" by (auto simp: counted_def)
  have cap: "\<exists>k\<le>m. g = of_nat k" if "captured (cPc (ctl_step c ev) t) = Some g" for t g
    using step_captured [OF that] m(2,3) by blast
  from step_generation [of c ev] show ?thesis
  proof
    assume "cGeneration (ctl_step c ev) = cGeneration c"
    with m cap show ?thesis by (intro countedI [of m]) auto
  next
    assume "cGeneration (ctl_step c ev) = cGeneration c + 1"
    then have "cGeneration (ctl_step c ev) = of_nat (Suc m)" using m(2) by simp
    then show ?thesis
    proof (rule countedI [rotated])
      show "Suc m \<le> Suc n" using m(1) by simp
      show "\<exists>k\<le>Suc m. g = of_nat k" if "captured (cPc (ctl_step c ev) t) = Some g" for t g
        using cap [OF that] le_SucI by blast
    qed
  qed
qed

lemma counted_run: "counted n c \<Longrightarrow> counted (n + length evs) (foldl ctl_step c evs)"
proof (induction evs arbitrary: c n)
  case (Cons ev evs)
  from Cons.IH [OF counted_step [OF Cons.prems]] show ?case by simp
qed simp

lemma counted_initial: "counted 0 (newController hubID)"
  by (simp add: counted_def newController_def)

text \<open>Once fenced at generation \<open>m\<close>, no armed goroutine has the present generation.\<close>

definition fenced :: "nat \<Rightarrow> nat \<Rightarrow> Controller \<Rightarrow> bool" where
  "fenced m n c \<longleftrightarrow> cGrant c = noGrant \<and> (\<exists>j. m \<le> j \<and> j \<le> n \<and> cGeneration c = of_nat j)
     \<and> (\<forall>t g. armed (cPc c t) = Some g \<longrightarrow> (\<exists>k<m. g = of_nat k))"

lemma fenced_stale: "fenced m n c \<Longrightarrow> n < 2 ^ 64 \<Longrightarrow> armed (cPc c t) \<noteq> Some (cGeneration c)"
proof
  assume f: "fenced m n c" "n < 2 ^ 64" "armed (cPc c t) = Some (cGeneration c)"
  then obtain j k where "m \<le> j" "j \<le> n" "k < m" "cGeneration c = of_nat j" "cGeneration c = of_nat k"
    unfolding fenced_def by meson
  with f(2) gen_inject [of k j] show False by simp
qed

definition is_acquire :: "ctl_event \<Rightarrow> bool" where
  "is_acquire ev = (case ev of EvAcquire _ \<Rightarrow> True | _ \<Rightarrow> False)"

lemma armed_check:
  "armed (case r of Inl e \<Rightarrow> Invalidating g e | Inr gr \<Rightarrow> Installing g gr) = Some g' \<Longrightarrow> g' = g"
  by (simp split: sum.splits)

lemma noGrant_epoch [simp]: "glEpoch noGrant = 0"
  by (simp add: noGrant_def)

lemma step_armed:
  assumes "cGrant c = noGrant" "\<not> is_acquire ev" "armed (cPc (ctl_step c ev) t) = Some g"
  shows "armed (cPc c t) = Some g"
  using assms
  by (cases ev)
    (auto simp: ctl_defs is_acquire_def split: pc.splits option.splits if_splits dest!: armed_check)

lemma step_grant:
  "cGrant (ctl_step c ev) \<noteq> cGrant c \<Longrightarrow> cGrant (ctl_step c ev) \<noteq> noGrant
    \<Longrightarrow> \<exists>t now. ev = EvCommit t now \<and> cPc c t = Installing (cGeneration c) (cGrant (ctl_step c ev))
          \<and> grantStillSafe now (cGrant (ctl_step c ev))"
  by (cases ev) (auto simp: ctl_defs split: pc.splits option.splits if_splits)

lemma fenced_step:
  assumes f: "fenced m n c" and n: "n < 2 ^ 64" and a: "\<not> is_acquire ev"
  shows "fenced m (Suc n) (ctl_step c ev)"
proof -
  from f have ng: "cGrant c = noGrant" by (simp add: fenced_def)
  have "cGrant (ctl_step c ev) = noGrant"
    using step_grant [of c ev] fenced_stale [OF f n] ng by (metis armed.simps(4))
  moreover have "\<exists>j. m \<le> j \<and> j \<le> Suc n \<and> cGeneration (ctl_step c ev) = of_nat j"
  proof -
    from f obtain j where "m \<le> j" "j \<le> n" "cGeneration c = of_nat j" by (auto simp: fenced_def)
    with step_generation [of c ev] show ?thesis by (metis Suc_le_mono le_SucI of_nat_Suc add.commute)
  qed
  moreover have "\<exists>k<m. g = of_nat k" if "armed (cPc (ctl_step c ev) t) = Some g" for t g
    using step_armed [OF ng a that] f by (simp add: fenced_def)
  ultimately show ?thesis unfolding fenced_def by blast
qed

lemma fenced_run:
  "fenced m n c \<Longrightarrow> n + length evs < 2 ^ 64 \<Longrightarrow> \<not> list_ex is_acquire evs \<Longrightarrow> fenced m (n + length evs) (foldl ctl_step c evs)"
proof (induction evs arbitrary: c n)
  case (Cons ev evs)
  have "fenced m (Suc n) (ctl_step c ev)" using Cons.prems by (intro fenced_step) auto
  from Cons.IH [OF this] Cons.prems show ?case by simp
qed simp

lemma captured_armed: "armed p = Some g \<Longrightarrow> captured p = Some g"
  by (cases p) auto

lemma demote_fenced:
  assumes "counted n c"
  shows "\<exists>m\<le>Suc n. fenced m (Suc n) (fst (demoteAndEpoch c))"
proof -
  from assms obtain m where m: "m \<le> n" "cGeneration c = of_nat m"
    "\<And>t g. captured (cPc c t) = Some g \<Longrightarrow> \<exists>k\<le>m. g = of_nat k" by (auto simp: counted_def)
  have "\<exists>k<Suc m. g = of_nat k" if "armed (cPc c t) = Some g" for t g
    using m(3) [OF captured_armed [OF that]] by (auto simp: less_Suc_eq_le)
  then have "fenced (Suc m) (Suc n) (fst (demoteAndEpoch c))"
    using m(1,2) unfolding fenced_def demoteAndEpoch_def
    by (auto intro: exI [of _ "Suc m"])
  with m(1) show ?thesis by (meson Suc_le_mono)
qed

lemma fenced_set_pc: "fenced m n c \<Longrightarrow> armed p = None \<Longrightarrow> fenced m n (set_pc t p c)"
  by (auto simp: fenced_def set_pc_def)


lemma fenced_standby: "fenced m n c \<Longrightarrow> ctl_Current now c = standby"
  by (simp add: fenced_def ctl_Current_def grant_current_def)

text \<open>What stops the Hub: a demotion, or a release that some goroutine begins.\<close>

definition stops :: "Controller \<Rightarrow> ctl_event \<Rightarrow> bool" where
  "stops c ev = (case ev of EvDemote \<Rightarrow> True | EvRelease t \<Rightarrow> idle_pc (cPc c t) | _ \<Rightarrow> False)"

lemma stop_fenced: "counted n c \<Longrightarrow> stops c ev \<Longrightarrow> \<exists>m. fenced m (Suc n) (ctl_step c ev)"
proof -
  assume c: "counted n c" and s: "stops c ev"
  from demote_fenced [OF c] obtain m where m: "fenced m (Suc n) (fst (demoteAndEpoch c))" by blast
  have "fenced m (Suc n) (ctl_step c ev)"
    using s m fenced_set_pc [OF m] by (cases ev) (auto simp: stops_def demoteAndEpoch_def)
  then show ?thesis ..
qed

text \<open>
  C5. Demotion and release fence: from the moment a Hub demotes or begins to release, and until it starts
  a new acquisition, it is STANDBY at every instant, whatever the operations that were in flight do, in
  whatever order they are scheduled and whatever the witness answers them (for runs shorter than the
  \<open>2 ^ 64\<close> generations of the counter).
\<close>

theorem demote_fences:
  assumes "c = foldl ctl_step (newController hubID) evs0" and "stops c stop"
    and "\<not> list_ex is_acquire evs" and "length evs0 + 1 + length evs < 2 ^ 64"
  shows "ctl_Current now (foldl ctl_step (ctl_step c stop) evs) = standby"
proof -
  have "counted (length evs0) c"
    using counted_run [OF counted_initial [of hubID], of evs0] assms(1) by simp
  from stop_fenced [OF this assms(2)] obtain m where "fenced m (Suc (length evs0)) (ctl_step c stop)" by blast
  from fenced_run [OF this _ assms(3)] assms(4) show ?thesis by (auto intro: fenced_standby)
qed

section \<open>Where a grant comes from\<close>

definition replies :: "ctl_event list \<Rightarrow> (LeaseObservation \<times> Instant) set" where
  "replies evs = {(o1, now). \<exists>t. EvReply t (Some o1) now \<in> set evs}"

definition sourced :: "(LeaseObservation \<times> Instant) set \<Rightarrow> string \<Rightarrow> localGrant \<Rightarrow> bool" where
  "sourced R hubID g \<longleftrightarrow> (\<exists>(o1, now) \<in> R. check_observation hubID now o1 = Inr g)"

definition grants_sourced :: "(LeaseObservation \<times> Instant) set \<Rightarrow> Controller \<Rightarrow> bool" where
  "grants_sourced R c \<longleftrightarrow>
     (cGrant c = noGrant \<or> sourced R (cHubID c) (cGrant c))
   \<and> (\<forall>t g gr. cPc c t = Installing g gr \<longrightarrow> sourced R (cHubID c) gr)"

lemma sourced_mono: "sourced R h g \<Longrightarrow> R \<subseteq> R' \<Longrightarrow> sourced R' h g"
  by (auto simp: sourced_def)

lemma step_hub [simp]: "cHubID (ctl_step c ev) = cHubID c"
  by (cases ev) (auto simp: ctl_defs split: pc.splits option.splits)

lemma run_hub [simp]: "cHubID (foldl ctl_step c evs) = cHubID c"
  by (induction evs arbitrary: c) simp_all

lemma installing_check:
  "(case r of Inl e \<Rightarrow> Invalidating g e | Inr gr \<Rightarrow> Installing g gr) = Installing g' gr' \<longleftrightarrow> g' = g \<and> r = Inr gr'"
  by (auto split: sum.splits)

lemma step_installing:
  "cPc (ctl_step c ev) t = Installing g gr \<Longrightarrow> cPc c t = Installing g gr
    \<or> (\<exists>o1 now. ev = EvReply t (Some o1) now \<and> check_observation (cHubID c) now o1 = Inr gr)"
  by (cases ev) (auto simp: ctl_defs installing_check split: pc.splits option.splits if_splits)

lemma sourced_step:
  assumes "grants_sourced R c"
  shows "grants_sourced (R \<union> replies [ev]) (ctl_step c ev)"
proof -
  have "sourced (R \<union> replies [ev]) (cHubID c) gr" if i: "cPc (ctl_step c ev) t = Installing g gr" for t g gr
    using step_installing [OF i]
  proof
    assume "cPc c t = Installing g gr"
    with assms show ?thesis by (auto simp: grants_sourced_def intro: sourced_mono)
  next
    assume "\<exists>o1 now. ev = EvReply t (Some o1) now \<and> check_observation (cHubID c) now o1 = Inr gr"
    then show ?thesis by (auto simp: sourced_def replies_def)
  qed
  moreover have "cGrant (ctl_step c ev) = noGrant \<or> sourced (R \<union> replies [ev]) (cHubID c) (cGrant (ctl_step c ev))"
    using step_grant [of c ev] assms unfolding grants_sourced_def by (metis sourced_mono sup_ge1)
  ultimately show ?thesis by (simp add: grants_sourced_def)
qed

lemma replies_Cons: "replies (ev # evs) = replies [ev] \<union> replies evs"
  by (auto simp: replies_def)

lemma sourced_run: "grants_sourced R c \<Longrightarrow> grants_sourced (R \<union> replies evs) (foldl ctl_step c evs)"
proof (induction evs arbitrary: c R)
  case Nil
  then show ?case by (simp add: replies_def)
next
  case (Cons ev evs)
  from Cons.IH [OF sourced_step [OF Cons.prems]] show ?case
    by (simp add: replies_Cons [of ev evs] Un_assoc)
qed

lemma sourced_reachable: "grants_sourced (replies evs) (foldl ctl_step (newController hubID) evs)"
  using sourced_run [of "{}" "newController hubID" evs] by (simp add: grants_sourced_def newController_def)

lemma check_observation_Inr:
  "check_observation h now o1 = Inr g \<longleftrightarrow>
     trim_space (lrHolderID o1) = trim_space h \<and> lrEpoch o1 \<noteq> 0 \<and> lrActive o1
   \<and> \<not> is_zero (iWall (loRequestStartedAt o1)) \<and> \<not> is_zero (lrWitnessTime o1) \<and> \<not> is_zero (lrExpiresAt o1)
   \<and> 0 < time_sub (lrExpiresAt o1) (lrWitnessTime o1) \<and> g = grant_of o1 \<and> grantStillSafe now g"
  by (auto simp: check_observation_def ConservativeDeadline_def Let_def split: sum.splits if_splits)

lemma leader_elapsed:
  "grant_current now g \<noteq> standby \<Longrightarrow> 0 \<le> mono_elapsed now g \<and> mono_elapsed now g < glRemaining g"
  by (auto simp: grant_current_def grantStillSafe_def Let_def split: if_splits)

lemma time_sub_between: "0 \<le> time_sub a b \<Longrightarrow> time_sub a b < time_sub c d \<Longrightarrow> b \<le> a \<and> a - b < c - d"
  by (auto simp: time_sub_def min_def max_def split: if_splits)

lemma standby_ne_leader [simp]: "leader_of g \<noteq> standby"
  by (simp add: leader_of_def standby_def)

lemma leader_facts:
  assumes "c = foldl ctl_step (newController hubID) evs" and "ctl_Current now c \<noteq> standby"
  shows "\<exists>t o1 now1. EvReply t (Some o1) now1 \<in> set evs
    \<and> ctl_Current now c = \<lparr>dsMode = ModeLeader, dsHolderID = trim_space hubID, dsEpoch = lrEpoch o1\<rparr>
    \<and> trim_space (lrHolderID o1) = trim_space hubID \<and> lrActive o1 \<and> lrEpoch o1 \<noteq> 0
    \<and> iMono (loRequestStartedAt o1) \<le> iMono now
    \<and> iMono now - iMono (loRequestStartedAt o1) < lrExpiresAt o1 - lrWitnessTime o1"
proof -
  have hub: "cHubID c = hubID" using assms(1) by (simp add: newController_def)
  have "cGrant c \<noteq> noGrant" using assms(2) by (auto simp: ctl_Current_def grant_current_def)
  then obtain o1 now1 where r: "(o1, now1) \<in> replies evs" "check_observation hubID now1 o1 = Inr (cGrant c)"
    using sourced_reachable [of evs hubID] assms(1) hub by (auto simp: grants_sourced_def sourced_def)
  from leader_elapsed [of now "cGrant c"] assms(2) r(2)
  have "0 \<le> time_sub (iMono now) (iMono (loRequestStartedAt o1))"
    "time_sub (iMono now) (iMono (loRequestStartedAt o1)) < time_sub (lrExpiresAt o1) (lrWitnessTime o1)"
    by (simp_all add: ctl_Current_def mono_elapsed_def check_observation_Inr grant_of_def)
  note t = time_sub_between [OF this]
  have "ctl_Current now c = leader_of (cGrant c)"
    using assms(2) by (simp add: ctl_Current_def grant_current_def split: if_splits)
  with r t show ?thesis
    by (auto simp: replies_def check_observation_Inr leader_of_def grant_of_def)
qed

text \<open>
  C6. Authority is proven and bounded: whenever a Hub is LEADER, some reply of the witness to this run of
  the controller granted it the lease under that epoch, and less local monotonic time has passed since
  that request started than the witness's lease had left when it answered.
\<close>

theorem leader_bounded:
  assumes "c = foldl ctl_step (newController hubID) evs" and "ctl_Current now c \<noteq> standby"
  shows "\<exists>t o1 now1. EvReply t (Some o1) now1 \<in> set evs
    \<and> ctl_Current now c = \<lparr>dsMode = ModeLeader, dsHolderID = trim_space hubID, dsEpoch = lrEpoch o1\<rparr>
    \<and> trim_space (lrHolderID o1) = trim_space hubID \<and> lrActive o1 \<and> lrEpoch o1 \<noteq> 0
    \<and> iMono (loRequestStartedAt o1) \<le> iMono now
    \<and> iMono now - iMono (loRequestStartedAt o1) < lrExpiresAt o1 - lrWitnessTime o1"
  by (rule leader_facts [OF assms])

section \<open>Concrete runs\<close>

definition demo_hub :: string where "demo_hub = ''hub-a''"

definition demo_obs :: LeaseObservation where
  "demo_obs =
     \<lparr>lrHolderID = demo_hub, lrEpoch = 7, lrExpiresAt = demo_start + 5000000000, lrActive = True,
      lrWitnessTime = demo_start, loRequestStartedAt = \<lparr>iMono = 1000, iWall = demo_start + 3000\<rparr>,
      loReceivedAt = \<lparr>iMono = 900000, iWall = demo_start + 900000\<rparr>\<rparr>"

definition demo_now :: Instant where
  "demo_now = \<lparr>iMono = 1000000, iWall = demo_start + 1000000\<rparr>"

definition demo_acquiring :: "ctl_event list" where
  "demo_acquiring = [EvAcquire 0, EvLock 0]"

definition demo_installing :: "ctl_event list" where
  "demo_installing = [EvReply 0 (Some demo_obs) demo_now, EvCommit 0 demo_now]"

lemmas demo_ctl_defs = demo_acquiring_def demo_installing_def demo_now_def demo_obs_def demo_hub_def demo_start_def

lemma demo_trim_hub: "trim_space ''hub-a'' = ''hub-a''"
  by (simp add: trim_eval)

lemmas ctl_eval = ctl_defs demo_ctl_defs demo_trim_hub newController_def idle_pc_def check_observation_def
  ConservativeDeadline_def grant_of_def wallTime_def grantStillSafe_def mono_elapsed_def wall_elapsed_def
  ctl_Current_def grant_current_def zero_time_def is_zero_def time_sub_def wrap64_def wallRollbackTolerance_def
  leader_of_def standby_def noGrant_def

text \<open>Left alone, the acquisition makes the Hub LEADER.\<close>

lemma demo_leader:
  "ctl_Current demo_now (foldl ctl_step (newController demo_hub) (demo_acquiring @ demo_installing))
     = \<lparr>dsMode = ModeLeader, dsHolderID = ''hub-a'', dsEpoch = 7\<rparr>"
  by (simp add: ctl_eval)

theorem demote_fences_witness:
  "ctl_Current demo_now
     (foldl ctl_step (ctl_step (foldl ctl_step (newController demo_hub) demo_acquiring) EvDemote)
       (demo_installing @ [EvInvalidate 0, EvRenew 1, EvLock 1, EvSnapshot 1 demo_now])) = standby"
  by (rule demote_fences [OF refl])
    (simp_all add: stops_def is_acquire_def demo_acquiring_def demo_installing_def)

theorem leader_bounded_witness:
  "\<exists>t o1 now1. EvReply t (Some o1) now1 \<in> set (demo_acquiring @ demo_installing)
    \<and> iMono demo_now - iMono (loRequestStartedAt o1) < lrExpiresAt o1 - lrWitnessTime o1"
proof -
  have "ctl_Current demo_now (foldl ctl_step (newController demo_hub) (demo_acquiring @ demo_installing)) \<noteq> standby"
    unfolding demo_leader by (simp add: standby_def)
  from leader_bounded [OF refl this] show ?thesis by blast
qed

section \<open>Operations return\<close>

definition holding :: "pc \<Rightarrow> bool" where
  "holding p =
     (case p of AcqCall _ \<Rightarrow> True | RenSnap _ \<Rightarrow> True | RenCall _ _ \<Rightarrow> True | Installing _ _ \<Rightarrow> True
      | Invalidating _ _ \<Rightarrow> True | RelCall _ \<Rightarrow> True | _ \<Rightarrow> False)"

text \<open>\<open>opMu\<close> is held by exactly the goroutine that is inside the operation it protects.\<close>

definition mutex_inv :: "Controller \<Rightarrow> bool" where
  "mutex_inv c \<longleftrightarrow> (\<forall>t. holding (cPc c t) \<longleftrightarrow> cOpMu c = Some t)"

lemma holding_check [simp]:
  "holding (case r of Inl e \<Rightarrow> Invalidating g e | Inr gr \<Rightarrow> Installing g gr)"
  by (simp add: holding_def split: sum.splits)

lemma holding_simps [simp]:
  "\<not> holding Idle" "\<not> holding (AcqWait g)" "\<not> holding (RenWait g)" "\<not> holding (RelWait e)" "\<not> holding (Returned r)"
  "holding (AcqCall g)" "holding (RenSnap g)" "holding (RenCall g e)" "holding (Installing g gr)"
  "holding (Invalidating g err)" "holding (RelCall e)"
  by (simp_all add: holding_def)

lemma idle_not_holding: "idle_pc p \<Longrightarrow> \<not> holding p"
  by (cases p) (simp_all add: idle_pc_def)

lemma mutex_other [simp]:
  "mutex_inv (c\<lparr>cGrant := g\<rparr>) = mutex_inv c" "mutex_inv (c\<lparr>cGeneration := n\<rparr>) = mutex_inv c"
  by (simp_all add: mutex_inv_def)

lemma mutex_set: "mutex_inv c \<Longrightarrow> holding p = holding (cPc c t) \<Longrightarrow> mutex_inv (set_pc t p c)"
  by (simp add: mutex_inv_def set_pc_def)

lemma mutex_take: "mutex_inv c \<Longrightarrow> cOpMu c = None \<Longrightarrow> holding p \<Longrightarrow> mutex_inv ((set_pc t p c)\<lparr>cOpMu := Some t\<rparr>)"
  by (simp add: mutex_inv_def set_pc_def)

lemma mutex_return: "mutex_inv c \<Longrightarrow> holding (cPc c t) \<or> cOpMu c = None \<Longrightarrow> mutex_inv (return_op t r c)"
  by (auto simp: mutex_inv_def return_op_def set_pc_def)

lemma mutex_demote [simp]: "mutex_inv (fst (demoteAndEpoch c)) = mutex_inv c"
  by (simp add: demoteAndEpoch_def)

lemma mutex_invalidate [simp]: "mutex_inv (invalidateIfGeneration g c) = mutex_inv c"
  by (simp add: invalidateIfGeneration_def)

lemma other_pc [simp]:
  "cPc (fst (demoteAndEpoch c)) = cPc c" "cPc (invalidateIfGeneration g c) = cPc c"
  by (simp_all add: demoteAndEpoch_def invalidateIfGeneration_def)

lemma mutex_step: "mutex_inv c \<Longrightarrow> mutex_inv (ctl_step c ev)"
proof (cases ev)
  case (EvRelease t)
  assume "mutex_inv c"
  with EvRelease show ?thesis
    by (auto simp: demoteAndEpoch_def idle_not_holding intro!: mutex_set)
next
  case (EvReply t reply now)
  assume "mutex_inv c"
  with EvReply show ?thesis
    by (auto simp: on_reply_def intro!: mutex_set split: pc.split option.split)
qed (auto simp: idle_not_holding intro!: mutex_set mutex_take mutex_return split: pc.split option.split)

interpretation controller: invariant_machine ctl_step mutex_inv
  by unfold_locales (rule mutex_step)

lemma mutex_initial: "mutex_inv (newController hubID)"
  by (simp add: mutex_inv_def newController_def)

text \<open>
  The goroutine's own next event; the environment answers it with a reply (or none), the clocks and the
  outcome of a release call.
\<close>

type_synonym answer = "LeaseObservation option \<times> Instant \<times> bool"

definition own_event :: "tid \<Rightarrow> answer \<Rightarrow> pc \<Rightarrow> ctl_event" where
  "own_event t a p =
     (case a of (reply, now, ok) \<Rightarrow>
       (case p of
          RenSnap _ \<Rightarrow> EvSnapshot t now
        | AcqCall _ \<Rightarrow> EvReply t reply now
        | RenCall _ _ \<Rightarrow> EvReply t reply now
        | Installing _ _ \<Rightarrow> EvCommit t now
        | Invalidating _ _ \<Rightarrow> EvInvalidate t
        | _ \<Rightarrow> EvReleaseReply t ok))"

definition drive :: "tid \<Rightarrow> Controller \<Rightarrow> answer \<Rightarrow> Controller" where
  "drive t c a = ctl_step c (own_event t a (cPc c t))"

definition returned :: "tid \<Rightarrow> Controller \<Rightarrow> bool" where
  "returned t c \<longleftrightarrow> (\<exists>r. cPc c t = Returned r) \<and> cOpMu c = None"

definition steps_left :: "pc \<Rightarrow> nat" where
  "steps_left p =
     (case p of RenSnap _ \<Rightarrow> 4 | AcqCall _ \<Rightarrow> 3 | RenCall _ _ \<Rightarrow> 3 | Installing _ _ \<Rightarrow> 2
      | Invalidating _ _ \<Rightarrow> 1 | RelCall _ \<Rightarrow> 1 | _ \<Rightarrow> 0)"

lemma steps_left_check [simp]:
  "steps_left (case r of Inl e \<Rightarrow> Invalidating g e | Inr gr \<Rightarrow> Installing g gr) \<le> 2"
  by (simp add: steps_left_def split: sum.splits)

lemma steps_left_reply: "steps_left (cPc (on_reply t g reply now c) t) \<le> 2"
  by (simp add: on_reply_def set_pc_def split: option.split) (simp add: steps_left_def)

lemma drive_step:
  "holding (cPc c t) \<Longrightarrow> returned t (drive t c a)
     \<or> holding (cPc (drive t c a) t) \<and> steps_left (cPc (drive t c a) t) < steps_left (cPc c t)"
proof -
  assume h: "holding (cPc c t)"
  obtain reply now ok where a: "a = (reply, now, ok)" by (cases a)
  note d = drive_def own_event_def a
  show ?thesis
  proof (cases "cPc c t")
    case (AcqCall g)
    moreover have "holding (cPc (on_reply t g reply now c) t)"
      by (simp add: on_reply_def set_pc_def split: option.split)
    ultimately show ?thesis using steps_left_reply [of t g reply now c]
      by (simp add: d) (simp add: steps_left_def)
  next
    case (RenCall g e)
    moreover have "holding (cPc (on_reply t g reply now c) t)"
      by (simp add: on_reply_def set_pc_def split: option.split)
    ultimately show ?thesis using steps_left_reply [of t g reply now c]
      by (auto simp: d set_pc_def steps_left_def split: option.split)
  qed (use h in \<open>auto simp: d returned_def ctl_defs steps_left_def split: option.split\<close>)
qed

lemma returned_stays: "returned t c \<Longrightarrow> returned t (foldl (drive t) c as)"
  by (induction as arbitrary: c) (auto simp: returned_def drive_def own_event_def)

lemma drive_returns:
  "holding (cPc c t) \<Longrightarrow> steps_left (cPc c t) \<le> length as \<Longrightarrow> returned t (foldl (drive t) c as)"
proof (induction as arbitrary: c)
  case Nil
  then show ?case by (cases "cPc c t") (simp_all add: steps_left_def)
next
  case (Cons a as)
  from drive_step [OF Cons.prems(1), of a] show ?case
    using Cons.prems(2) by (auto intro: Cons.IH returned_stays)
qed

text \<open>
  C35. No operation of the controller is stuck: a goroutine that holds the operation lock returns and frees
  the lock within four steps of its own, whatever the witness call ends with and whatever the clocks read.
\<close>

theorem operation_returns:
  assumes "c = foldl ctl_step (newController hubID) evs" and "cOpMu c = Some t" and "length answers \<ge> 4"
  shows "returned t (foldl (drive t) c answers)"
proof -
  have "mutex_inv c" using controller.run_inv [OF mutex_initial] assms(1) by simp
  with assms(2) have "holding (cPc c t)" by (simp add: mutex_inv_def)
  moreover have "steps_left (cPc c t) \<le> 4" by (simp add: steps_left_def split: pc.split)
  ultimately show ?thesis using assms(3) by (intro drive_returns) auto
qed

theorem operation_returns_witness:
  "returned 0 (foldl (drive 0) (foldl ctl_step (newController demo_hub) demo_acquiring)
     [(Some demo_obs, demo_now, True), (None, demo_now, False), (None, demo_now, False), (None, demo_now, False)])"
  by (rule operation_returns [OF refl]) (simp_all add: ctl_eval)

section \<open>Acquiring\<close>

text \<open>
  A successful acquisition installs exactly the lease it was granted: left alone, with the witness's
  answer valid and still safe at the two clock readings, the operation returns without error and the Hub is
  LEADER under that epoch.
\<close>

theorem acquire_installs:
  assumes "idle_pc (cPc c t)" and "cOpMu c = None"
    and "check_observation (cHubID c) now1 o1 = Inr g" and "grantStillSafe now2 g"
  shows "foldl ctl_step c [EvAcquire t, EvLock t, EvReply t (Some o1) now1, EvCommit t now2]
       = c\<lparr>cGrant := grant_of o1, cOpMu := None, cPc := (cPc c)(t := Returned (Inr ()))\<rparr>"
proof -
  have "g = grant_of o1" using assms(3) by (simp add: check_observation_Inr)
  with assms show ?thesis by (simp add: ctl_defs)
qed

theorem acquire_installs_witness:
  "ctl_Current demo_now (foldl ctl_step (newController demo_hub)
     [EvAcquire 0, EvLock 0, EvReply 0 (Some demo_obs) demo_now, EvCommit 0 demo_now])
     = \<lparr>dsMode = ModeLeader, dsHolderID = ''hub-a'', dsEpoch = 7\<rparr>"
proof -
  let ?c = "newController demo_hub"
  have *: "idle_pc (cPc ?c 0)" "cOpMu ?c = None"
    "check_observation (cHubID ?c) demo_now demo_obs = Inr (grant_of demo_obs)"
    "grantStillSafe demo_now (grant_of demo_obs)"
    by (simp_all add: ctl_eval)
  show ?thesis unfolding acquire_installs [OF *] by (simp add: ctl_eval)
qed

end
