(* ===== verification/HASupervisor.thy ===== *)
theory HASupervisor
  imports HAAuthority Contracts
begin

text \<open>
  The supervisor of \<open>internal/haauthority/supervisor.go\<close>: explicit activation by an operator, renewal of
  the epoch it was granted by one background loop, release, demotion and shutdown. It drives the controller
  of \<open>HAAuthority\<close>; while an operation of the supervisor is inside the controller, the controller's events
  of that goroutine move it. \<open>opMu\<close> of the supervisor serializes its operations, \<open>mu\<close> makes each access to
  its fields one step.
\<close>

section \<open>State\<close>

datatype sup_error =
    ErrOperationalSessionActive SessionType | ErrSupervisorClosed | ErrReadSession | ErrAlreadyActive
  | ErrNoSafeAuthority | ErrExpiredBeforeRenewal | ErrController auth_error

datatype sup_op = OpActivate | OpRelease | OpDemote | OpClose

text \<open>
  Where a goroutine stands. \<open>S\<dots>\<close> run an operation, all but \<open>SWait\<close> holding \<open>opMu\<close>; \<open>L\<dots>\<close> are renewal
  loops, with the renewal generation they were started under.
\<close>

datatype sup_pc =
    SIdle
  | SWait sup_op
  | SReadSession
  | SReadCurrent
  | SAcquiring
  | SStatus
  | SStarting
  | SReleasing
  | SRelease2
  | SDemoting
  | SClosing
  | SReturned "sup_error + unit"
  | LTop generation
  | LWaiting generation
  | LAwake generation
  | LRenewing generation
  | LFail generation sup_error
  | LDemoting generation sup_error
  | LDone

record Supervisor =
  sController :: Controller
  sOpMu :: "tid option"
  sClosed :: bool
  sRenewRunning :: bool
  sRenewGeneration :: generation
  sRenewCancel :: "generation option"
  sCancelled :: "generation set"
  sLastError :: "sup_error option"
  sPc :: "tid \<Rightarrow> sup_pc"

definition newSupervisor :: "string \<Rightarrow> Supervisor" where
  "newSupervisor hubID =
     \<lparr>sController = newController hubID, sOpMu = None, sClosed = False, sRenewRunning = False, sRenewGeneration = 0,
      sRenewCancel = None, sCancelled = {}, sLastError = None, sPc = (\<lambda>_. SIdle)\<rparr>"

section \<open>Local operations\<close>

definition safe_remaining :: "Instant \<Rightarrow> localGrant \<Rightarrow> duration" where
  "safe_remaining now g =
     (if glEpoch g = 0 \<or> glRemaining g \<le> 0 \<or> is_zero (iWall (glRequestStarted g)) then 0
      else
        let monotonicElapsed = mono_elapsed now g; wallElapsed = wall_elapsed now g in
        if monotonicElapsed < 0 \<or> wallElapsed < 0 \<or> wrap64 (wallElapsed + wallRollbackTolerance) < monotonicElapsed then 0
        else
          let monotonicRemaining = glRemaining g - monotonicElapsed; wallRemaining = glRemaining g - wallElapsed in
          if monotonicRemaining \<le> 0 \<or> wallRemaining \<le> 0 then 0
          else if wallRemaining < monotonicRemaining then wallRemaining
          else monotonicRemaining)"

definition safeRemaining :: "Instant \<Rightarrow> Controller \<Rightarrow> duration" where
  "safeRemaining now c = safe_remaining now (cGrant c)"

text \<open>\<open>controllerStatus\<close> reads the clocks twice.\<close>

definition controllerStatus :: "Instant \<Rightarrow> Instant \<Rightarrow> Controller \<Rightarrow> DispatchSnapshot \<times> duration" where
  "controllerStatus now now' c =
     (let snapshot = ctl_Current now c in
      if dsMode snapshot = ModeLeader
      then (let remaining = safeRemaining now' c in if remaining \<le> 0 then (standby, 0) else (snapshot, remaining))
      else (snapshot, 0))"

definition with_controller :: "ctl_event \<Rightarrow> Supervisor \<Rightarrow> Supervisor" where
  "with_controller ev s = s\<lparr>sController := ctl_step (sController s) ev\<rparr>"

definition set_spc :: "tid \<Rightarrow> sup_pc \<Rightarrow> Supervisor \<Rightarrow> Supervisor" where
  "set_spc t p s = s\<lparr>sPc := (sPc s)(t := p)\<rparr>"

definition sreturn :: "tid \<Rightarrow> sup_error + unit \<Rightarrow> Supervisor \<Rightarrow> Supervisor" where
  "sreturn t r s = (set_spc t (SReturned r) s)\<lparr>sOpMu := None\<rparr>"

text \<open>Calling a cancel function ends the wait of the loop it belongs to.\<close>

definition cancel_renewal :: "Supervisor \<Rightarrow> Supervisor" where
  "cancel_renewal s =
     s\<lparr>sCancelled := (case sRenewCancel s of None \<Rightarrow> sCancelled s | Some g \<Rightarrow> insert g (sCancelled s)),
       sRenewCancel := None\<rparr>"

definition stopRenewalLocked :: "Supervisor \<Rightarrow> Supervisor" where
  "stopRenewalLocked s =
     (cancel_renewal s)\<lparr>sRenewGeneration := sRenewGeneration s + 1, sRenewRunning := False\<rparr>"

text \<open>\<open>startRenewalLocked\<close> starts the loop as goroutine \<open>l\<close>.\<close>

definition startRenewalLocked :: "tid \<Rightarrow> Supervisor \<Rightarrow> Supervisor" where
  "startRenewalLocked l s0 =
     (let s = stopRenewalLocked s0; generation = sRenewGeneration s + 1 in
      set_spc l (LTop generation)
        (s\<lparr>sRenewGeneration := generation, sRenewCancel := Some generation, sRenewRunning := True, sLastError := None\<rparr>))"

definition renewGenerationMatches :: "generation \<Rightarrow> Supervisor \<Rightarrow> bool" where
  "renewGenerationMatches g s \<longleftrightarrow> sRenewGeneration s = g \<and> \<not> sClosed s"

definition setLastErrorForGeneration :: "generation \<Rightarrow> sup_error option \<Rightarrow> Supervisor \<Rightarrow> Supervisor" where
  "setLastErrorForGeneration g e s =
     (if sRenewGeneration s \<noteq> g \<or> sClosed s then s else s\<lparr>sLastError := e\<rparr>)"

definition finishRenewalGeneration :: "generation \<Rightarrow> Supervisor \<Rightarrow> Supervisor" where
  "finishRenewalGeneration g s =
     (if sRenewGeneration s \<noteq> g then s else s\<lparr>sRenewRunning := False, sRenewCancel := None\<rparr>)"

definition loop_exit :: "tid \<Rightarrow> generation \<Rightarrow> Supervisor \<Rightarrow> Supervisor" where
  "loop_exit l g s = set_spc l LDone (finishRenewalGeneration g s)"

record SupervisorStatus =
  stSnapshot :: DispatchSnapshot
  stRemaining :: duration
  stRemainingMS :: int
  stRenewalActive :: bool
  stLastError :: "sup_error option"

definition sup_Status :: "Instant \<Rightarrow> Instant \<Rightarrow> Supervisor \<Rightarrow> SupervisorStatus" where
  "sup_Status now now' s =
     (case controllerStatus now now' (sController s) of (snapshot, remaining) \<Rightarrow>
        \<lparr>stSnapshot = snapshot, stRemaining = remaining, stRemainingMS = quot remaining 1000000,
         stRenewalActive = sRenewRunning s, stLastError = sLastError s\<rparr>)"

text \<open>How long the loop sleeps before a renewal, and how long it lets the renewal take.\<close>

definition renew_delay :: "duration \<Rightarrow> duration" where
  "renew_delay remaining = (if quot remaining 3 \<le> 0 then 1000000 else quot remaining 3)"

section \<open>Steps\<close>

text \<open>
  \<open>SvWake\<close> ends the loop's wait: the timer fired, or the wait was cancelled; when both are ready the
  \<open>select\<close> takes either. The goroutine of \<open>Close\<close> waits at last for the loops to end, which changes nothing.
\<close>

datatype sup_event =
    SvStart tid sup_op
  | SvLock tid
  | SvSession tid "SessionType option"
  | SvCurrent tid Instant
  | SvController ctl_event
  | SvAcquired tid
  | SvStatus tid Instant Instant
  | SvSpawn tid tid
  | SvReleased tid
  | SvDemote tid
  | SvLoop tid Instant
  | SvWake tid bool
  | SvRenewed tid
  | SvLoopLock tid
  | SvLoopDemote tid

definition idle_spc :: "sup_pc \<Rightarrow> bool" where
  "idle_spc p = (case p of SIdle \<Rightarrow> True | SReturned _ \<Rightarrow> True | LDone \<Rightarrow> True | _ \<Rightarrow> False)"

text \<open>The controller's own steps between the call and the return of one of its operations.\<close>

definition inner :: "ctl_event \<Rightarrow> bool" where
  "inner ev =
     (case ev of EvAcquire _ \<Rightarrow> False | EvRenew _ \<Rightarrow> False | EvRelease _ \<Rightarrow> False | EvDemote \<Rightarrow> False | _ \<Rightarrow> True)"

definition ctl_result :: "tid \<Rightarrow> Supervisor \<Rightarrow> (auth_error + unit) option" where
  "ctl_result t s = (case cPc (sController s) t of Returned r \<Rightarrow> Some r | _ \<Rightarrow> None)"

definition begin_op :: "tid \<Rightarrow> sup_op \<Rightarrow> Supervisor \<Rightarrow> Supervisor" where
  "begin_op t opn s =
     (let held = s\<lparr>sOpMu := Some t\<rparr> in
      case opn of
        OpActivate \<Rightarrow> if sClosed s then sreturn t (Inl ErrSupervisorClosed) s else set_spc t SReadSession held
      | OpRelease \<Rightarrow>
          if sClosed s then sreturn t (Inl ErrSupervisorClosed) s else set_spc t SRelease2 (stopRenewalLocked held)
      | OpDemote \<Rightarrow> set_spc t SDemoting (stopRenewalLocked held)
      | OpClose \<Rightarrow>
          if sClosed s then sreturn t (Inr ()) s
          else set_spc t SClosing ((stopRenewalLocked held)\<lparr>sClosed := True\<rparr>))"

text \<open>One turn of \<open>renewLoop\<close>: before the wait and, once awake, up to the renewal.\<close>

definition renewLoop :: "tid \<Rightarrow> Instant \<Rightarrow> Supervisor \<Rightarrow> Supervisor" where
  [simp]: "renewLoop l now s =
     (case sPc s l of
        LTop g \<Rightarrow>
          if \<not> renewGenerationMatches g s then loop_exit l g s
          else if safeRemaining now (sController s) \<le> 0 then set_spc l (LFail g ErrExpiredBeforeRenewal) s
          else set_spc l (LWaiting g) s
      | LAwake g \<Rightarrow>
          if \<not> renewGenerationMatches g s then loop_exit l g s
          else if safeRemaining now (sController s) \<le> 0 then set_spc l (LFail g ErrExpiredBeforeRenewal) s
          else set_spc l (LRenewing g) (with_controller (EvRenew l) s)
      | _ \<Rightarrow> s)"

text \<open>\<open>failClosedGeneration\<close> up to its demotion: it takes the lock, and gives up if it is stale.\<close>

definition failClosedGeneration :: "tid \<Rightarrow> Supervisor \<Rightarrow> Supervisor" where
  [simp]: "failClosedGeneration l s =
     (case sPc s l of
        LFail g e \<Rightarrow>
          if sOpMu s \<noteq> None then s
          else if \<not> renewGenerationMatches g s then loop_exit l g s
          else set_spc l (LDemoting g e) (s\<lparr>sOpMu := Some l\<rparr>)
      | _ \<Rightarrow> s)"

fun sup_step :: "Supervisor \<Rightarrow> sup_event \<Rightarrow> Supervisor" where
  "sup_step s (SvStart t opn) = (if idle_spc (sPc s t) then set_spc t (SWait opn) s else s)"
| "sup_step s (SvLock t) =
     (case sPc s t of SWait opn \<Rightarrow> if sOpMu s = None then begin_op t opn s else s | _ \<Rightarrow> s)"
| "sup_step s (SvSession t answer) =
     (case sPc s t of
        SReadSession \<Rightarrow>
          (case answer of
             None \<Rightarrow> sreturn t (Inl ErrReadSession) s
           | Some ty \<Rightarrow>
               if ty = SessionShow \<or> ty = SessionRehearsal then sreturn t (Inl (ErrOperationalSessionActive ty)) s
               else set_spc t SReadCurrent s)
      | _ \<Rightarrow> s)"
| "sup_step s (SvCurrent t now) =
     (case sPc s t of
        SReadCurrent \<Rightarrow>
          if dsMode (ctl_Current now (sController s)) = ModeLeader then sreturn t (Inl ErrAlreadyActive) s
          else set_spc t SAcquiring (with_controller (EvAcquire t) s)
      | _ \<Rightarrow> s)"
| "sup_step s (SvController ev) = (if inner ev then with_controller ev s else s)"
| "sup_step s (SvAcquired t) =
     (case (sPc s t, ctl_result t s) of
        (SAcquiring, Some (Inl e)) \<Rightarrow> sreturn t (Inl (ErrController e)) (s\<lparr>sLastError := Some (ErrController e)\<rparr>)
      | (SAcquiring, Some (Inr _)) \<Rightarrow> set_spc t SStatus s
      | _ \<Rightarrow> s)"
| "sup_step s (SvStatus t now now') =
     (case sPc s t of
        SStatus \<Rightarrow>
          (case controllerStatus now now' (sController s) of (snapshot, remaining) \<Rightarrow>
             if dsMode snapshot \<noteq> ModeLeader \<or> remaining \<le> 0
             then sreturn t (Inl ErrNoSafeAuthority) ((with_controller EvDemote s)\<lparr>sLastError := Some ErrNoSafeAuthority\<rparr>)
             else set_spc t SStarting s)
      | _ \<Rightarrow> s)"
| "sup_step s (SvSpawn t l) =
     (case (sPc s t, sPc s l) of
        (SStarting, SIdle) \<Rightarrow> sreturn t (Inr ()) (startRenewalLocked l s)
      | _ \<Rightarrow> s)"
| "sup_step s (SvReleased t) =
     (case sPc s t of
        SRelease2 \<Rightarrow> set_spc t SReleasing (with_controller (EvRelease t) s)
      | SReleasing \<Rightarrow>
          (case ctl_result t s of
             Some (Inl e) \<Rightarrow> sreturn t (Inl (ErrController e)) (s\<lparr>sLastError := Some (ErrController e)\<rparr>)
           | Some (Inr _) \<Rightarrow> sreturn t (Inr ()) (s\<lparr>sLastError := None\<rparr>)
           | None \<Rightarrow> s)
      | _ \<Rightarrow> s)"
| "sup_step s (SvDemote t) =
     (case sPc s t of
        SDemoting \<Rightarrow> sreturn t (Inr ()) (with_controller EvDemote s)
      | SClosing \<Rightarrow> sreturn t (Inr ()) (with_controller EvDemote s)
      | _ \<Rightarrow> s)"
| "sup_step s (SvLoop l now) = renewLoop l now s"
| "sup_step s (SvWake l timer) =
     (case sPc s l of
        LWaiting g \<Rightarrow>
          if timer then set_spc l (LAwake g) s else if g \<in> sCancelled s then loop_exit l g s else s
      | _ \<Rightarrow> s)"
| "sup_step s (SvRenewed l) =
     (case (sPc s l, ctl_result l s) of
        (LRenewing g, Some (Inl e)) \<Rightarrow> set_spc l (LFail g (ErrController e)) s
      | (LRenewing g, Some (Inr _)) \<Rightarrow> set_spc l (LTop g) (setLastErrorForGeneration g None s)
      | _ \<Rightarrow> s)"
| "sup_step s (SvLoopLock l) = failClosedGeneration l s"
| "sup_step s (SvLoopDemote l) =
     (case sPc s l of
        LDemoting g e \<Rightarrow>
          (loop_exit l g (setLastErrorForGeneration g (Some e) (with_controller EvDemote s)))\<lparr>sOpMu := None\<rparr>
      | _ \<Rightarrow> s)"

section \<open>The operation lock\<close>

definition sholding :: "sup_pc \<Rightarrow> bool" where
  "sholding p =
     (case p of SReadSession \<Rightarrow> True | SReadCurrent \<Rightarrow> True | SAcquiring \<Rightarrow> True | SStatus \<Rightarrow> True | SStarting \<Rightarrow> True
      | SReleasing \<Rightarrow> True | SRelease2 \<Rightarrow> True | SDemoting \<Rightarrow> True | SClosing \<Rightarrow> True | LDemoting _ _ \<Rightarrow> True | _ \<Rightarrow> False)"

lemma sholding_simps [simp]:
  "sholding SReadSession" "sholding SReadCurrent" "sholding SAcquiring" "sholding SStatus" "sholding SStarting"
  "sholding SReleasing" "sholding SRelease2" "sholding SDemoting" "sholding SClosing" "sholding (LDemoting g e)"
  "\<not> sholding SIdle" "\<not> sholding (SWait opn)" "\<not> sholding (SReturned r)" "\<not> sholding (LTop g)" "\<not> sholding (LWaiting g)"
  "\<not> sholding (LAwake g)" "\<not> sholding (LRenewing g)" "\<not> sholding (LFail g e)" "\<not> sholding LDone"
  by (simp_all add: sholding_def)

definition smutex :: "Supervisor \<Rightarrow> bool" where
  "smutex s \<longleftrightarrow> (\<forall>t. sholding (sPc s t) \<longleftrightarrow> sOpMu s = Some t)"

text \<open>What the local operations leave alone.\<close>

lemma sup_frame [simp]:
  "sPc (with_controller ev s) = sPc s" "sOpMu (with_controller ev s) = sOpMu s"
  "sClosed (with_controller ev s) = sClosed s" "sRenewGeneration (with_controller ev s) = sRenewGeneration s"
  "sController (with_controller ev s) = ctl_step (sController s) ev"
  "sPc (set_spc t p s) = (sPc s)(t := p)" "sOpMu (set_spc t p s) = sOpMu s" "sClosed (set_spc t p s) = sClosed s"
  "sRenewGeneration (set_spc t p s) = sRenewGeneration s" "sController (set_spc t p s) = sController s"
  "sPc (stopRenewalLocked s) = sPc s" "sOpMu (stopRenewalLocked s) = sOpMu s" "sClosed (stopRenewalLocked s) = sClosed s"
  "sRenewGeneration (stopRenewalLocked s) = sRenewGeneration s + 1" "sController (stopRenewalLocked s) = sController s"
  "sPc (setLastErrorForGeneration g e s) = sPc s" "sOpMu (setLastErrorForGeneration g e s) = sOpMu s"
  "sClosed (setLastErrorForGeneration g e s) = sClosed s" "sController (setLastErrorForGeneration g e s) = sController s"
  "sRenewGeneration (setLastErrorForGeneration g e s) = sRenewGeneration s"
  "sPc (finishRenewalGeneration g s) = sPc s" "sOpMu (finishRenewalGeneration g s) = sOpMu s"
  "sClosed (finishRenewalGeneration g s) = sClosed s" "sController (finishRenewalGeneration g s) = sController s"
  "sRenewGeneration (finishRenewalGeneration g s) = sRenewGeneration s"
  by (simp_all add: with_controller_def set_spc_def stopRenewalLocked_def cancel_renewal_def
      setLastErrorForGeneration_def finishRenewalGeneration_def)

lemma sup_frame2 [simp]:
  "sPc (sreturn t r s) = (sPc s)(t := SReturned r)" "sOpMu (sreturn t r s) = None" "sClosed (sreturn t r s) = sClosed s"
  "sController (sreturn t r s) = sController s" "sRenewGeneration (sreturn t r s) = sRenewGeneration s"
  "sPc (loop_exit l g s) = (sPc s)(l := LDone)" "sOpMu (loop_exit l g s) = sOpMu s" "sClosed (loop_exit l g s) = sClosed s"
  "sController (loop_exit l g s) = sController s" "sRenewGeneration (loop_exit l g s) = sRenewGeneration s"
  "sPc (startRenewalLocked l s) = (sPc s)(l := LTop (sRenewGeneration s + 2))" "sOpMu (startRenewalLocked l s) = sOpMu s"
  "sClosed (startRenewalLocked l s) = sClosed s" "sController (startRenewalLocked l s) = sController s"
  "sRenewGeneration (startRenewalLocked l s) = sRenewGeneration s + 2"
  by (simp_all add: sreturn_def loop_exit_def startRenewalLocked_def Let_def add.commute)

text \<open>The lock is right if each step changes one goroutine and the lock together.\<close>

lemma smutexI:
  assumes "smutex s" "sPc s' = (sPc s)(t := p)"
    and "sOpMu s' = (if sholding p then Some t else if sholding (sPc s t) then None else sOpMu s)"
    and "sholding p \<Longrightarrow> sOpMu s = None \<or> sOpMu s = Some t"
  shows "smutex s'"
  unfolding smutex_def
proof
  fix u
  have old: "sholding (sPc s u) \<longleftrightarrow> sOpMu s = Some u" "sholding (sPc s t) \<longleftrightarrow> sOpMu s = Some t"
    using assms(1) by (simp_all add: smutex_def)
  show "sholding (sPc s' u) \<longleftrightarrow> sOpMu s' = Some u"
  proof (cases "u = t")
    case True
    with assms(2,3) old(2) show ?thesis by simp
  next
    case False
    with assms(2-4) old show ?thesis by (cases "sholding p") fastforce+
  qed
qed

lemma smutex_same: "smutex s \<Longrightarrow> sPc s' = sPc s \<Longrightarrow> sOpMu s' = sOpMu s \<Longrightarrow> smutex s'"
  by (simp add: smutex_def)

lemma smutex_held: "smutex s \<Longrightarrow> sholding (sPc s t) \<Longrightarrow> sOpMu s = Some t"
  by (simp add: smutex_def)

lemma smutex_free: "smutex s \<Longrightarrow> \<not> sholding (sPc s t) \<Longrightarrow> sOpMu s \<noteq> Some t"
  by (simp add: smutex_def)

lemma idle_sholding: "idle_spc p \<Longrightarrow> \<not> sholding p"
  by (cases p) (simp_all add: idle_spc_def)

lemma smutex_begin: "smutex s \<Longrightarrow> \<not> sholding (sPc s t) \<Longrightarrow> sOpMu s = None \<Longrightarrow> smutex (begin_op t opn s)"
  by (cases opn) (auto simp: begin_op_def Let_def intro!: smutexI [of s _ t])


lemma smutex_move:
  "smutex s \<Longrightarrow> \<not> sholding p \<Longrightarrow> \<not> sholding (sPc s l) \<Longrightarrow> sPc s' = sPc s \<Longrightarrow> sOpMu s' = sOpMu s
    \<Longrightarrow> smutex (set_spc l p s')"
  by (auto intro!: smutexI [where s = s and t = l])

lemma smutex_step: "smutex s \<Longrightarrow> smutex (sup_step s ev)"
proof (cases ev)
  case (SvStart t opn)
  assume m: "smutex s"
  with SvStart show ?thesis
    by (cases "idle_spc (sPc s t)") (auto simp: idle_sholding intro!: smutexI [OF m, where t = t])
next
  case (SvLock t)
  assume m: "smutex s"
  with SvLock show ?thesis by (cases "sPc s t") (auto simp: smutex_begin)
next
  case (SvSession t answer)
  assume m: "smutex s"
  show ?thesis
  proof (cases "sPc s t")
    case SReadSession
    with m SvSession smutex_held [OF m, of t] show ?thesis
      by (cases answer) (auto intro!: smutexI [OF m, where t = t])
  qed (simp_all add: SvSession m)
next
  case (SvCurrent t now)
  assume m: "smutex s"
  show ?thesis
  proof (cases "sPc s t")
    case SReadCurrent
    with m SvCurrent smutex_held [OF m, of t] show ?thesis
      by (auto intro!: smutexI [OF m, where t = t])
  qed (simp_all add: SvCurrent m)
next
  case (SvController ev)
  assume m: "smutex s"
  then show ?thesis by (simp add: SvController smutex_same [OF m])
next
  case (SvAcquired t)
  assume m: "smutex s"
  show ?thesis
  proof (cases "sPc s t")
    case SAcquiring
    with m SvAcquired smutex_held [OF m, of t] show ?thesis
      by (auto intro!: smutexI [OF m, where t = t] split: option.split sum.split)
  qed (simp_all add: SvAcquired m)
next
  case (SvStatus t now now')
  assume m: "smutex s"
  show ?thesis
  proof (cases "sPc s t")
    case SStatus
    with m SvStatus smutex_held [OF m, of t] show ?thesis
      by (auto intro!: smutexI [OF m, where t = t] split: prod.split)
  qed (simp_all add: SvStatus m)
next
  case (SvSpawn t l)
  assume m: "smutex s"
  show ?thesis
  proof (cases "sPc s t = SStarting \<and> sPc s l = SIdle")
    case True
    then have tl: "t \<noteq> l" by auto
    have m1: "smutex (startRenewalLocked l s)"
      using True smutex_free [OF m, of l] by (auto intro!: smutexI [OF m, where t = l])
    have "sOpMu s = Some t" using smutex_held [OF m, of t] True by simp
    with True tl SvSpawn show ?thesis by (auto intro!: smutexI [OF m1, where t = t])
  next
    case False
    then have "sup_step s ev = s" by (auto simp: SvSpawn split: sup_pc.split)
    with m show ?thesis by simp
  qed
next
  case (SvReleased t)
  assume m: "smutex s"
  show ?thesis
  proof (cases "sPc s t")
    case SRelease2
    with m SvReleased smutex_held [OF m, of t] show ?thesis
      by (auto intro!: smutexI [OF m, where t = t])
  next
    case SReleasing
    with m SvReleased smutex_held [OF m, of t] show ?thesis
      by (auto intro!: smutexI [OF m, where t = t] split: option.split sum.split)
  qed (simp_all add: SvReleased m)
next
  case (SvDemote t)
  assume m: "smutex s"
  have "sPc s t = SDemoting \<or> sPc s t = SClosing \<Longrightarrow> smutex (sreturn t (Inr ()) (with_controller EvDemote s))"
    using smutex_held [OF m, of t] by (auto intro!: smutexI [OF m, where t = t])
  with m SvDemote show ?thesis by (cases "sPc s t") simp_all
next
  case (SvLoop l now)
  assume m: "smutex s"
  with m SvLoop show ?thesis by (cases "sPc s l") (simp_all add: loop_exit_def smutex_move)
next
  case (SvWake l timer)
  assume m: "smutex s"
  with m SvWake show ?thesis by (cases "sPc s l") (simp_all add: loop_exit_def smutex_move)
next
  case (SvRenewed l)
  assume m: "smutex s"
  with m SvRenewed show ?thesis by (cases "sPc s l") (simp_all add: smutex_move split: option.split sum.split)
next
  case (SvLoopLock l)
  assume m: "smutex s"
  show ?thesis
  proof (cases "sPc s l")
    case (LFail g e)
    with m SvLoopLock show ?thesis by (auto intro!: smutexI [OF m, where t = l])
  qed (simp_all add: SvLoopLock m)
next
  case (SvLoopDemote l)
  assume m: "smutex s"
  show ?thesis
  proof (cases "sPc s l")
    case (LDemoting g e)
    with m SvLoopDemote smutex_held [OF m, of l] show ?thesis by (auto intro!: smutexI [OF m, where t = l])
  qed (simp_all add: SvLoopDemote m)
qed

interpretation supervisor: invariant_machine sup_step smutex
  by unfold_locales (rule smutex_step)

lemma smutex_initial: "smutex (newSupervisor hubID)"
  by (simp add: smutex_def newSupervisor_def)


section \<open>What a step does to the controller\<close>

text \<open>Only an activation past its checks asks the controller to acquire.\<close>

definition to_controller :: "Supervisor \<Rightarrow> sup_event \<Rightarrow> ctl_event list" where
  "to_controller s ev =
     (case ev of
        SvCurrent t now \<Rightarrow> if sPc s t = SReadCurrent then [EvAcquire t] else []
      | SvController e \<Rightarrow> if inner e then [e] else []
      | SvStatus t _ _ \<Rightarrow> [EvDemote]
      | SvReleased t \<Rightarrow> if sPc s t = SRelease2 then [EvRelease t] else []
      | SvDemote t \<Rightarrow> [EvDemote]
      | SvLoop l _ \<Rightarrow> [EvRenew l]
      | SvLoopDemote l \<Rightarrow> [EvDemote]
      | _ \<Rightarrow> [])"

lemma begin_controller [simp]: "sController (begin_op t opn s) = sController s"
  by (cases opn) (simp_all add: begin_op_def Let_def)

lemma controller_step:
  "sController (sup_step s ev) = sController s
   \<or> (\<exists>e. to_controller s ev = [e] \<and> sController (sup_step s ev) = ctl_step (sController s) e)"
  by (cases ev) (auto simp: to_controller_def split: sup_pc.splits option.splits sum.splits prod.splits)

lemma to_controller_acquire:
  "to_controller s ev = [e] \<Longrightarrow> is_acquire e \<Longrightarrow> \<exists>t now. ev = SvCurrent t now \<and> sPc s t = SReadCurrent"
  by (cases ev; cases e) (auto simp: to_controller_def is_acquire_def inner_def split: if_splits)

lemma counted_sup_step: "counted n (sController s) \<Longrightarrow> counted (Suc n) (sController (sup_step s ev))"
  using controller_step [of s ev] counted_step [of n "sController s"] counted_mono [of n "sController s" "Suc n"] by auto

lemma counted_sup_run: "counted n (sController s) \<Longrightarrow> counted (n + length evs) (sController (foldl sup_step s evs))"
proof (induction evs arbitrary: s n)
  case (Cons ev evs)
  from Cons.IH [OF counted_sup_step [OF Cons.prems]] show ?case by simp
qed simp

lemma fenced_mono: "fenced m n c \<Longrightarrow> n \<le> n' \<Longrightarrow> fenced m n' c"
  unfolding fenced_def by (meson order_trans)

lemma fenced_sup_step:
  assumes f: "fenced m n (sController s)" and n: "n < 2 ^ 64" and "\<And>t. sPc s t \<noteq> SReadCurrent"
  shows "fenced m (Suc n) (sController (sup_step s ev))"
  using controller_step [of s ev]
proof
  assume "sController (sup_step s ev) = sController s"
  then show ?thesis using fenced_mono [OF f, of "Suc n"] by simp
next
  assume "\<exists>e. to_controller s ev = [e] \<and> sController (sup_step s ev) = ctl_step (sController s) e"
  then obtain e where e: "to_controller s ev = [e]" "sController (sup_step s ev) = ctl_step (sController s) e" by blast
  have "\<not> is_acquire e" using to_controller_acquire [OF e(1)] assms(3) by blast
  from fenced_step [OF f n this] e(2) show ?thesis by simp
qed

section \<open>Activation is explicit\<close>

definition admits :: "sup_event \<Rightarrow> bool" where
  "admits ev =
     (case ev of SvSession _ (Some ty) \<Rightarrow> ty \<noteq> SessionShow \<and> ty \<noteq> SessionRehearsal | _ \<Rightarrow> False)"

text \<open>How one goroutine moves, as far as the admission check and the loops' demotions are concerned.\<close>

definition moves :: "Supervisor \<Rightarrow> sup_event \<Rightarrow> sup_pc \<Rightarrow> sup_pc \<Rightarrow> bool" where
  "moves s ev p p' \<longleftrightarrow>
     (case p' of
        SReadSession \<Rightarrow> p = p' \<or> \<not> sClosed s
      | SReadCurrent \<Rightarrow> p = p' \<or> p = SReadSession \<and> admits ev
      | LDemoting g e \<Rightarrow> p = p' \<or> renewGenerationMatches g s
      | _ \<Rightarrow> True)"

lemma moves_refl [simp]: "moves s ev p p"
  by (simp add: moves_def split: sup_pc.split)

lemma moves_simps [simp]:
  "moves s ev p SReadSession \<longleftrightarrow> p = SReadSession \<or> \<not> sClosed s"
  "moves s ev p SReadCurrent \<longleftrightarrow> p = SReadCurrent \<or> p = SReadSession \<and> admits ev"
  "moves s ev p (LDemoting g e) \<longleftrightarrow> p = LDemoting g e \<or> renewGenerationMatches g s"
  "moves s ev p (SWait opn)" "moves s ev p SAcquiring" "moves s ev p SStatus" "moves s ev p SStarting"
  "moves s ev p SReleasing" "moves s ev p SRelease2" "moves s ev p SDemoting" "moves s ev p SClosing"
  "moves s ev p (SReturned r)" "moves s ev p (LTop g)" "moves s ev p (LWaiting g)" "moves s ev p (LAwake g)"
  "moves s ev p (LRenewing g)" "moves s ev p (LFail g e)" "moves s ev p LDone"
  by (simp_all add: moves_def)

lemma moves_begin [simp]: "moves s ev (sPc s u) (sPc (begin_op t opn s) u)"
  by (cases opn) (simp_all add: begin_op_def Let_def)

lemma step_moves: "moves s ev (sPc s u) (sPc (sup_step s ev) u)"
proof (cases ev)
  case (SvStart t' opn)
  then show ?thesis
    by (cases "sPc s t'") (simp_all add: admits_def split: option.split sum.split prod.split)
next
  case (SvLock t')
  then show ?thesis
    by (cases "sPc s t'") (simp_all add: admits_def split: option.split sum.split prod.split)
next
  case (SvSession t' answer)
  then show ?thesis
    by (cases "sPc s t'") (simp_all add: admits_def split: option.split sum.split prod.split)
next
  case (SvCurrent t' now)
  then show ?thesis
    by (cases "sPc s t'") (simp_all add: admits_def split: option.split sum.split prod.split)
next
  case (SvController e)
  then show ?thesis by simp
next
  case (SvAcquired t')
  then show ?thesis
    by (cases "sPc s t'") (simp_all add: admits_def split: option.split sum.split prod.split)
next
  case (SvStatus t' now now')
  then show ?thesis
    by (cases "sPc s t'") (simp_all add: admits_def split: option.split sum.split prod.split)
next
  case (SvSpawn t' l)
  then show ?thesis
    by (cases "sPc s t'"; cases "sPc s l") (simp_all add: admits_def split: option.split sum.split prod.split)
next
  case (SvReleased t')
  then show ?thesis
    by (cases "sPc s t'") (simp_all add: admits_def split: option.split sum.split prod.split)
next
  case (SvDemote t')
  then show ?thesis
    by (cases "sPc s t'") (simp_all add: admits_def split: option.split sum.split prod.split)
next
  case (SvLoop l now)
  then show ?thesis
    by (cases "sPc s l") (simp_all add: admits_def split: option.split sum.split prod.split)
next
  case (SvWake l timer)
  then show ?thesis
    by (cases "sPc s l") (simp_all add: admits_def split: option.split sum.split prod.split)
next
  case (SvRenewed l)
  then show ?thesis
    by (cases "sPc s l") (simp_all add: admits_def split: option.split sum.split prod.split)
next
  case (SvLoopLock l)
  then show ?thesis
    by (cases "sPc s l") (simp_all add: admits_def split: option.split sum.split prod.split)
next
  case (SvLoopDemote l)
  then show ?thesis
    by (cases "sPc s l") (simp_all add: admits_def split: option.split sum.split prod.split)
qed

lemma step_read_current: "sPc (sup_step s ev) t = SReadCurrent \<Longrightarrow> \<not> admits ev \<Longrightarrow> sPc s t = SReadCurrent"
  using step_moves [of s ev t] by auto

lemma no_admission_run:
  "fenced m n (sController s) \<Longrightarrow> n + length evs < 2 ^ 64 \<Longrightarrow> (\<And>t. sPc s t \<noteq> SReadCurrent) \<Longrightarrow> \<not> list_ex admits evs
    \<Longrightarrow> fenced m (n + length evs) (sController (foldl sup_step s evs))"
proof (induction evs arbitrary: s n)
  case (Cons ev evs)
  have "fenced m (Suc n) (sController (sup_step s ev))"
    using Cons.prems by (intro fenced_sup_step) auto
  moreover have "sPc (sup_step s ev) t \<noteq> SReadCurrent" for t
    using step_read_current [of s ev t] Cons.prems(3,4) by auto
  ultimately show ?case using Cons.IH [of "Suc n" "sup_step s ev"] Cons.prems by simp
qed simp

text \<open>The steps that take authority away.\<close>

definition takes_away :: "Supervisor \<Rightarrow> sup_event \<Rightarrow> bool" where
  "takes_away s ev =
     (case ev of
        SvDemote t \<Rightarrow> sPc s t = SDemoting \<or> sPc s t = SClosing
      | SvLoopDemote l \<Rightarrow> (\<exists>g e. sPc s l = LDemoting g e)
      | _ \<Rightarrow> False)"

lemma takes_away_fenced:
  assumes "takes_away s ev" "counted n (sController s)"
  shows "\<exists>m. fenced m (Suc n) (sController (sup_step s ev))"
proof -
  have "sController (sup_step s ev) = fst (demoteAndEpoch (sController s))"
    using assms(1) by (cases ev) (auto simp: takes_away_def)
  with demote_fenced [OF assms(2)] show ?thesis by auto
qed

lemma takes_away_alone:
  assumes "smutex s" "takes_away s ev"
  shows "sPc (sup_step s ev) t \<noteq> SReadCurrent"
proof -
  obtain u where u: "sholding (sPc s u)" "sPc s u \<noteq> SReadCurrent" "sPc (sup_step s ev) u \<noteq> SReadCurrent"
    "\<And>t. t \<noteq> u \<Longrightarrow> sPc (sup_step s ev) t = sPc s t"
  proof (cases ev)
    case (SvDemote u)
    with assms(2) show ?thesis by (intro that [of u]) (auto simp: takes_away_def)
  next
    case (SvLoopDemote u)
    with assms(2) show ?thesis by (intro that [of u]) (auto simp: takes_away_def)
  qed (use assms(2) in \<open>simp_all add: takes_away_def\<close>)
  show ?thesis
  proof (cases "t = u")
    case False
    have "\<not> sholding (sPc s t)" using smutex_held [OF assms(1) u(1)] assms(1) False by (simp add: smutex_def)
    with u(4) [OF False] show ?thesis by auto
  qed (use u in simp)
qed


text \<open>
  C22. Authority never comes by itself: after a demotion, a shutdown or a failed renewal has dropped the
  lease, the Hub stays STANDBY at every instant until an operator's activation passes the session check,
  that is, until one finds no active SHOW and no active REHEARSAL.
\<close>

theorem activation_is_explicit:
  assumes "s = foldl sup_step (newSupervisor hubID) evs0" and "takes_away s ev" and "\<not> list_ex admits evs"
    and "length evs0 + 1 + length evs < 2 ^ 64"
  shows "ctl_Current now (sController (foldl sup_step (sup_step s ev) evs)) = standby"
proof -
  have "counted (length evs0) (sController s)"
    using counted_sup_run [of 0 "newSupervisor hubID" evs0] assms(1) counted_initial by (simp add: newSupervisor_def)
  from takes_away_fenced [OF assms(2) this] obtain m
    where m: "fenced m (Suc (length evs0)) (sController (sup_step s ev))" by blast
  have "smutex s" using supervisor.run_inv [OF smutex_initial] assms(1) by simp
  from no_admission_run [OF m _ takes_away_alone [OF this assms(2)] assms(3)] assms(4)
  show ?thesis by (auto intro: fenced_standby)
qed

section \<open>Shutdown\<close>

lemma begin_closed [simp]: "sClosed s \<Longrightarrow> sClosed (begin_op t opn s)"
  by (cases opn) (auto simp: begin_op_def Let_def)

lemma step_closed: "sClosed s \<Longrightarrow> sClosed (sup_step s ev)"
proof -
  assume c: "sClosed s"
  show ?thesis
  proof (cases ev)
  case (SvStart t' opn)
  then show ?thesis
    by (cases "sPc s t'") (simp_all add: c split: option.split sum.split prod.split)
next
  case (SvLock t')
  then show ?thesis
    by (cases "sPc s t'") (simp_all add: c split: option.split sum.split prod.split)
next
  case (SvSession t' answer)
  then show ?thesis
    by (cases "sPc s t'") (simp_all add: c split: option.split sum.split prod.split)
next
  case (SvCurrent t' now)
  then show ?thesis
    by (cases "sPc s t'") (simp_all add: c split: option.split sum.split prod.split)
next
  case (SvController e)
  then show ?thesis by (simp add: c)
next
  case (SvAcquired t')
  then show ?thesis
    by (cases "sPc s t'") (simp_all add: c split: option.split sum.split prod.split)
next
  case (SvStatus t' now now')
  then show ?thesis
    by (cases "sPc s t'") (simp_all add: c split: option.split sum.split prod.split)
next
  case (SvSpawn t' l)
  then show ?thesis
    by (cases "sPc s t'"; cases "sPc s l") (simp_all add: c split: option.split sum.split prod.split)
next
  case (SvReleased t')
  then show ?thesis
    by (cases "sPc s t'") (simp_all add: c split: option.split sum.split prod.split)
next
  case (SvDemote t')
  then show ?thesis
    by (cases "sPc s t'") (simp_all add: c split: option.split sum.split prod.split)
next
  case (SvLoop l now)
  then show ?thesis
    by (cases "sPc s l") (simp_all add: c split: option.split sum.split prod.split)
next
  case (SvWake l timer)
  then show ?thesis
    by (cases "sPc s l") (simp_all add: c split: option.split sum.split prod.split)
next
  case (SvRenewed l)
  then show ?thesis
    by (cases "sPc s l") (simp_all add: c split: option.split sum.split prod.split)
next
  case (SvLoopLock l)
  then show ?thesis
    by (cases "sPc s l") (simp_all add: c split: option.split sum.split prod.split)
next
  case (SvLoopDemote l)
  then show ?thesis
    by (cases "sPc s l") (simp_all add: c split: option.split sum.split prod.split)
qed

qed

lemma step_past_session:
  "sPc (sup_step s ev) t = SReadCurrent \<Longrightarrow> sPc s t = SReadCurrent \<or> sPc s t = SReadSession"
  "sPc (sup_step s ev) t = SReadSession \<Longrightarrow> sClosed s \<Longrightarrow> sPc s t = SReadSession"
  using step_moves [of s ev t] by auto

lemma closed_run:
  "fenced m n (sController s) \<Longrightarrow> n + length evs < 2 ^ 64 \<Longrightarrow> sClosed s
    \<Longrightarrow> (\<And>t. sPc s t \<noteq> SReadCurrent \<and> sPc s t \<noteq> SReadSession)
    \<Longrightarrow> fenced m (n + length evs) (sController (foldl sup_step s evs))"
proof (induction evs arbitrary: s n)
  case (Cons ev evs)
  have "fenced m (Suc n) (sController (sup_step s ev))"
    using Cons.prems by (intro fenced_sup_step) auto
  moreover have "sPc (sup_step s ev) t \<noteq> SReadCurrent \<and> sPc (sup_step s ev) t \<noteq> SReadSession" for t
    using step_past_session [of s ev t] Cons.prems(3,4) by auto
  ultimately show ?case using Cons.IH [of "Suc n" "sup_step s ev"] Cons.prems step_closed [of s ev] by simp
qed simp


text \<open>
  A closed supervisor never leads again: from the demotion of its shutdown on the Hub is STANDBY at every
  instant, whatever operators ask, whatever loops and witness calls are still under way.
\<close>

theorem closed_is_standby:
  assumes "s = foldl sup_step (newSupervisor hubID) evs0" and "sPc s t = SClosing" and "sClosed s"
    and "length evs0 + 1 + length evs < 2 ^ 64"
  shows "ctl_Current now (sController (foldl sup_step (sup_step s (SvDemote t)) evs)) = standby"
proof -
  have c: "counted (length evs0) (sController s)"
    using counted_sup_run [of 0 "newSupervisor hubID" evs0] assms(1) counted_initial by (simp add: newSupervisor_def)
  have ta: "takes_away s (SvDemote t)" using assms(2) by (simp add: takes_away_def)
  from takes_away_fenced [OF ta c] obtain m
    where m: "fenced m (Suc (length evs0)) (sController (sup_step s (SvDemote t)))" by blast
  have sm: "smutex s" using supervisor.run_inv [OF smutex_initial] assms(1) by simp
  have "sOpMu s = Some t" using smutex_held [OF sm, of t] assms(2) by simp
  then have "\<not> sholding (sPc s u)" if "u \<noteq> t" for u
    using sm that by (simp add: smutex_def)
  then have "sPc (sup_step s (SvDemote t)) u \<noteq> SReadCurrent \<and> sPc (sup_step s (SvDemote t)) u \<noteq> SReadSession" for u
    using assms(2) sholding_simps(1,2) by (cases "u = t") (simp, fastforce)
  from closed_run [OF m _ step_closed [OF assms(3)] this] assms(4)
  show ?thesis by (auto intro: fenced_standby)
qed

section \<open>Stale loops\<close>

definition loops_fresh :: "Supervisor \<Rightarrow> bool" where
  "loops_fresh s \<longleftrightarrow> smutex s \<and> (\<forall>l g e. sPc s l = LDemoting g e \<longrightarrow> renewGenerationMatches g s)"

lemma generation_frame:
  "(\<And>t. ev \<noteq> SvLock t) \<Longrightarrow> (\<And>t l. ev \<noteq> SvSpawn t l)
    \<Longrightarrow> sRenewGeneration (sup_step s ev) = sRenewGeneration s \<and> sClosed (sup_step s ev) = sClosed s"
  by (cases ev) (auto split: sup_pc.split option.split sum.split prod.split)

lemma begin_demoting: "sPc (begin_op t opn s) l = LDemoting g e \<Longrightarrow> sPc s l = LDemoting g e"
  by (cases opn) (auto simp: begin_op_def Let_def split: if_splits)

lemma loops_fresh_step: "loops_fresh s \<Longrightarrow> loops_fresh (sup_step s ev)"
  unfolding loops_fresh_def
proof (intro conjI allI impI; elim conjE)
  fix l g e
  assume m: "smutex s" and f: "\<forall>l g e. sPc s l = LDemoting g e \<longrightarrow> renewGenerationMatches g s"
    and d: "sPc (sup_step s ev) l = LDemoting g e"
  have r: "renewGenerationMatches g s" using step_moves [of s ev l] d f by auto
  have held: "sPc s l = LDemoting g e \<Longrightarrow> sOpMu s = Some l" using smutex_held [OF m, of l] by simp
  show "renewGenerationMatches g (sup_step s ev)"
  proof (cases ev)
    case (SvLock t)
    with r d held m show ?thesis
      by (cases "sPc s t") (auto dest: begin_demoting split: if_splits)
  next
    case (SvSpawn t k)
    have "sOpMu s = Some t" if "sPc s t = SStarting" using smutex_held [OF m, of t] that by simp
    with SvSpawn r d held show ?thesis
      by (cases "sPc s t"; cases "sPc s k") (auto split: if_splits)
  qed (use r generation_frame [of ev s] in \<open>simp_all add: renewGenerationMatches_def\<close>)
qed (rule smutex_step)

interpretation loops: invariant_machine sup_step loops_fresh
  by unfold_locales (rule loops_fresh_step)

text \<open>
  A stale renewal loop is harmless: whenever a loop demotes the controller, its generation is the
  current one and the supervisor is open, so it can only end the activation it was started for, never a
  later one.
\<close>

theorem stale_loop_harmless:
  assumes "s = foldl sup_step (newSupervisor hubID) evs"
    and "sController (sup_step s (SvLoopDemote l)) \<noteq> sController s"
  shows "\<exists>g e. sPc s l = LDemoting g e \<and> sRenewGeneration s = g \<and> \<not> sClosed s \<and> sOpMu s = Some l"
proof -
  have "loops_fresh (newSupervisor hubID)"
    using smutex_initial [of hubID] by (simp add: loops_fresh_def newSupervisor_def)
  from loops.run_inv [OF this] assms(1) have f: "loops_fresh s" by simp
  from assms(2) obtain g e where d: "sPc s l = LDemoting g e" by (cases "sPc s l") simp_all
  then have "renewGenerationMatches g s" "smutex s" using f unfolding loops_fresh_def by blast+
  with d smutex_held [of s l] show ?thesis by (simp add: renewGenerationMatches_def)
qed

section \<open>Concrete runs\<close>

definition demo_activation :: "sup_event list" where
  "demo_activation =
     [SvStart 0 OpActivate, SvLock 0, SvSession 0 (Some SessionSimulation), SvCurrent 0 demo_now,
      SvController (EvLock 0), SvController (EvReply 0 (Some demo_obs) demo_now), SvController (EvCommit 0 demo_now),
      SvAcquired 0, SvStatus 0 demo_now demo_now, SvSpawn 0 9]"

definition demo_late :: Instant where
  "demo_late = \<lparr>iMono = 6000000000, iWall = demo_start + 6000000000\<rparr>"

lemmas sup_eval = demo_activation_def newSupervisor_def set_spc_def begin_op_def with_controller_def sreturn_def
  ctl_result_def controllerStatus_def safeRemaining_def safe_remaining_def startRenewalLocked_def stopRenewalLocked_def
  cancel_renewal_def idle_spc_def inner_def renewGenerationMatches_def

definition demo_active :: Supervisor where
  "demo_active = foldl sup_step (newSupervisor demo_hub) demo_activation"

lemma demo_active_facts:
  "sPc demo_active 0 = SReturned (Inr ())" "sPc demo_active 4 = SIdle" "sPc demo_active 9 = LTop 2"
  "sOpMu demo_active = None" "sClosed demo_active = False" "sRenewGeneration demo_active = 2"
  "sController demo_active = foldl ctl_step (newController demo_hub) (demo_acquiring @ demo_installing)"
  by (simp_all add: demo_active_def sup_eval ctl_eval)

theorem activation_is_explicit_witness:
  "ctl_Current demo_now (sController
     (foldl sup_step (sup_step (foldl sup_step (newSupervisor demo_hub) (demo_activation @ [SvStart 4 OpDemote, SvLock 4])) (SvDemote 4))
        [SvLoop 9 demo_now, SvStart 2 OpActivate, SvLock 2, SvSession 2 (Some SessionShow)])) = standby"
proof -
  have "takes_away (foldl sup_step demo_active [SvStart 4 OpDemote, SvLock 4]) (SvDemote 4)"
    by (simp add: demo_active_facts takes_away_def begin_op_def idle_spc_def)
  then have "takes_away (foldl sup_step (newSupervisor demo_hub) (demo_activation @ [SvStart 4 OpDemote, SvLock 4])) (SvDemote 4)"
    by (simp add: demo_active_def)
  then show ?thesis
    by (rule activation_is_explicit [OF refl]) (simp_all add: admits_def demo_activation_def)
qed

theorem closed_is_standby_witness:
  "ctl_Current demo_now (sController
     (foldl sup_step (sup_step (foldl sup_step (newSupervisor demo_hub) (demo_activation @ [SvStart 4 OpClose, SvLock 4])) (SvDemote 4))
        [SvStart 2 OpActivate, SvLock 2, SvSession 2 (Some SessionSimulation)])) = standby"
proof -
  let ?s = "foldl sup_step (newSupervisor demo_hub) (demo_activation @ [SvStart 4 OpClose, SvLock 4])"
  have "?s = foldl sup_step demo_active [SvStart 4 OpClose, SvLock 4]" by (simp add: demo_active_def)
  then have "sPc ?s 4 = SClosing" "sClosed ?s"
    by (simp_all add: demo_active_facts begin_op_def idle_spc_def)
  then show ?thesis by (rule closed_is_standby [OF refl]) (simp add: demo_activation_def)
qed

theorem stale_loop_harmless_witness:
  "sRenewGeneration (foldl sup_step (newSupervisor demo_hub) (demo_activation @ [SvLoop 9 demo_late, SvLoopLock 9])) = 2"
proof -
  let ?s = "foldl sup_step (newSupervisor demo_hub) (demo_activation @ [SvLoop 9 demo_late, SvLoopLock 9])"
  have s: "?s = foldl sup_step demo_active [SvLoop 9 demo_late, SvLoopLock 9]" by (simp add: demo_active_def)
  have rem: "safeRemaining demo_late (sController demo_active) \<le> 0"
    by (simp add: demo_active_facts safeRemaining_def safe_remaining_def demo_late_def ctl_eval)
  have pc: "sPc ?s 9 = LDemoting 2 ErrExpiredBeforeRenewal" "sController ?s = sController demo_active"
    unfolding s using rem by (simp_all add: demo_active_facts renewGenerationMatches_def)
  have "cGeneration (sController demo_active) = 0"
    by (simp add: demo_active_facts ctl_eval)
  then have "sController (sup_step ?s (SvLoopDemote 9)) \<noteq> sController ?s"
    using pc by (auto simp: demoteAndEpoch_def dest: arg_cong [where f = cGeneration])
  from stale_loop_harmless [OF refl this] pc show ?thesis by auto
qed

text \<open>
  Shutdown waits for the witness: \<open>Close\<close> takes \<open>opMu\<close>, which an activation holds during its witness call,
  so the goroutine that closes does not advance until that call ends.
\<close>

lemma close_waits_for_witness:
  "\<exists>evs. let s = foldl sup_step (newSupervisor demo_hub) evs in
     sPc s 4 = SWait OpClose \<and> (\<exists>g. cPc (sController s) 0 = AcqCall g) \<and> sup_step s (SvLock 4) = s"
  by (rule exI [of _ "take 5 demo_activation @ [SvStart 4 OpClose]"])
    (simp add: Let_def sup_eval ctl_eval)

end
