(* ===== verification/HAExclusion.thy ===== *)
theory HAExclusion
  imports HAAuthority
begin

text \<open>
  Two Hubs and one witness: the witness's lease row (\<open>HALease\<close>), the Hubs' controllers (\<open>HAAuthority\<close>) and
  the gate in front of every physical output (\<open>Capability\<close>) together keep the Hubs from emitting at the
  same time. Instants are compared on the witness's clock, which every Hub's monotonic clock is off by a
  constant.
\<close>

section \<open>Grants of a run of the witness\<close>

definition granted :: "duration \<Rightarrow> lease_event list \<Rightarrow> nat \<Rightarrow> grant \<Rightarrow> bool" where
  "granted dur W i g \<longleftrightarrow>
     i < length W \<and> snd (lease_apply dur (W ! i) (foldl (lease_step dur) initialState (take i W))) = Some g"

lemma take_split: "i < j \<Longrightarrow> j < length xs \<Longrightarrow> take j xs = take i xs @ xs ! i # take (j - Suc i) (drop (Suc i) xs)"
proof -
  assume "i < j" "j < length xs"
  then have "take j xs = take i xs @ take (j - i) (drop i xs)"
    by (metis le_add_diff_inverse less_imp_le take_add)
  moreover have "drop i xs = xs ! i # drop (Suc i) xs" using \<open>i < j\<close> \<open>j < length xs\<close> by (simp add: Cons_nth_drop_Suc)
  moreover have "j - i = Suc (j - Suc i)" using \<open>i < j\<close> by simp
  ultimately show ?thesis by simp
qed

lemma granted_exclusive:
  assumes dur: "0 \<le> dur" and order: "sorted (map event_time W)" and sane: "\<forall>v \<in> set W. sane_time dur (event_time v)"
    and ij: "i < j" and a: "granted dur W i a" and b: "granted dur W j b"
  shows "lHolderID (gLease a) = lHolderID (gLease b) \<or> lExpiresAt (gLease a) < gAt b + 1000
    \<or> (\<exists>v \<in> set W. releases (lEpoch (gLease a)) v \<and> event_time v \<le> gAt b)"
proof -
  let ?run = "foldl (lease_step dur)" and ?evs = "take (j - Suc i) (drop (Suc i) W)"
  have j: "j < length W" using b by (simp add: granted_def)
  define s where "s = ?run initialState (take i W)"
  obtain s1 where s1: "lease_apply dur (W ! i) s = (s1, Some a)"
    using a by (cases "lease_apply dur (W ! i) s") (simp add: granted_def s_def)
  have "?run initialState (take j W) = ?run s1 ?evs"
    using take_split [OF ij j] s1 by (simp add: s_def lease_step_def)
  then obtain s2 where s2: "lease_apply dur (W ! j) (?run s1 ?evs) = (s2, Some b)"
    using b by (cases "lease_apply dur (W ! j) (?run s1 ?evs)") (simp add: granted_def)
  have W: "take (Suc j) W = take i W @ W ! i # ?evs @ [W ! j]"
    using take_split [OF ij j] j by (simp add: take_Suc_conv_app_nth)
  have "sorted (map event_time (take (Suc j) W))"
    using order by (simp add: take_map [symmetric] sorted_wrt_take)
  moreover have "\<forall>v \<in> set (take (Suc j) W). sane_time dur (event_time v)"
    using sane set_take_subset [of "Suc j" W] by blast
  ultimately have or: "lHolderID (gLease a) = lHolderID (gLease b) \<or> lExpiresAt (gLease a) < gAt b + 1000
      \<or> (\<exists>v \<in> set ?evs. releases (lEpoch (gLease a)) v)"
    using lease_exclusion [OF dur s_def s1 s2] unfolding W [symmetric] by blast
  have "event_time v \<le> event_time (W ! j)" if "v \<in> set ?evs" for v
  proof -
    have "sorted (map event_time (take j W @ [W ! j]))"
      using order j by (simp add: take_Suc_conv_app_nth [symmetric] take_map [symmetric] sorted_wrt_take)
    moreover have "v \<in> set (take j W)" using take_split [OF ij j] that by simp
    ultimately show ?thesis by (simp add: sorted_append)
  qed
  moreover have "event_time (W ! j) = gAt b" using grant_time [OF s2] .
  moreover have "set ?evs \<subseteq> set W" by (meson order_trans set_drop_subset set_take_subset)
  ultimately show ?thesis using or by (metis subsetD)
qed

section \<open>Two Hubs\<close>

text \<open>An observation that reports grant \<open>g\<close> to a Hub whose monotonic clock is ahead by \<open>off\<close>.\<close>

definition witnessed :: "time \<Rightarrow> grant \<Rightarrow> LeaseObservation \<Rightarrow> Instant \<Rightarrow> bool" where
  "witnessed off g o1 now1 \<longleftrightarrow>
     lrHolderID o1 = lHolderID (gLease g) \<and> lrEpoch o1 = lEpoch (gLease g) \<and> lrExpiresAt o1 = lExpiresAt (gLease g)
   \<and> iMono (loRequestStartedAt o1) - off \<le> gAt g \<and> gAt g \<le> lrWitnessTime o1 \<and> gAt g \<le> iMono now1 - off"

text \<open>
  The Hub is LEADER at the instant \<open>t\<close> after the events \<open>evs\<close>, all of its replies are the witness's
  grants of the run \<open>W\<close>, and none lies in its future.
\<close>

definition leads :: "duration \<Rightarrow> lease_event list \<Rightarrow> string \<Rightarrow> time \<Rightarrow> ctl_event list \<Rightarrow> Instant \<Rightarrow> time \<Rightarrow> bool" where
  "leads dur W hubID off evs now t \<longleftrightarrow>
     ctl_Current now (foldl ctl_step (newController hubID) evs) \<noteq> standby \<and> iMono now = t + off
   \<and> (\<forall>(o1, now1) \<in> replies evs. iMono now1 \<le> iMono now \<and> (\<exists>i g. granted dur W i g \<and> witnessed off g o1 now1))"

definition lead_epoch :: "string \<Rightarrow> ctl_event list \<Rightarrow> Instant \<Rightarrow> epoch" where
  "lead_epoch hubID evs now = dsEpoch (ctl_Current now (foldl ctl_step (newController hubID) evs))"

lemma leads_grant:
  assumes "leads dur W hubID off evs now t"
  obtains i g where "granted dur W i g" "trim_space (lHolderID (gLease g)) = trim_space hubID"
    "lEpoch (gLease g) = lead_epoch hubID evs now" "gAt g \<le> t" "t < lExpiresAt (gLease g)"
proof -
  let ?c = "foldl ctl_step (newController hubID) evs"
  obtain t1 o1 now1 where o1: "EvReply t1 (Some o1) now1 \<in> set evs"
      "ctl_Current now ?c = \<lparr>dsMode = ModeLeader, dsHolderID = trim_space hubID, dsEpoch = lrEpoch o1\<rparr>"
      "trim_space (lrHolderID o1) = trim_space hubID"
      "iMono now - iMono (loRequestStartedAt o1) < lrExpiresAt o1 - lrWitnessTime o1"
    using leader_facts [OF refl] assms unfolding leads_def by blast
  have "(o1, now1) \<in> replies evs" using o1(1) by (auto simp: replies_def)
  then obtain i g where g: "granted dur W i g" "witnessed off g o1 now1" "iMono now1 \<le> iMono now"
    using assms unfolding leads_def by blast
  have now: "iMono now = t + off" using assms by (simp add: leads_def)
  show ?thesis
  proof
    show "granted dur W i g" by (rule g(1))
    show "trim_space (lHolderID (gLease g)) = trim_space hubID" using g(2) o1(3) by (simp add: witnessed_def)
    show "lEpoch (gLease g) = lead_epoch hubID evs now" using g(2) o1(2) by (simp add: witnessed_def lead_epoch_def)
    show "gAt g \<le> t" using g(2,3) now by (simp add: witnessed_def)
    show "t < lExpiresAt (gLease g)" using g(2) o1(4) now by (simp add: witnessed_def)
  qed
qed

text \<open>
  C4. Two Hubs never emit together: if two Hubs with different identities are both LEADER at one instant, then that
  instant is less than a microsecond after a new grant by the witness, or the witness has served a release of the
  epoch of one of them by then. This takes the witness's clock not to go back and to stay in the range of the
  stored microseconds, the monotonic clocks of the Hubs to run at its rate and the replies to be what the
  witness answered. The second case is real: see \<open>late_release_two_leaders\<close> below.
\<close>

theorem hubs_exclusive:
  assumes "0 \<le> dur" and "sorted (map event_time W)" and "\<forall>v \<in> set W. sane_time dur (event_time v)"
    and "trim_space hubA \<noteq> trim_space hubB"
    and "leads dur W hubA offA evsA nowA t" and "leads dur W hubB offB evsB nowB t"
  shows "(\<exists>i g. granted dur W i g \<and> gAt g \<le> t \<and> t < gAt g + 1000)
    \<or> (\<exists>v \<in> set W. (releases (lead_epoch hubA evsA nowA) v \<or> releases (lead_epoch hubB evsB nowB) v) \<and> event_time v \<le> t)"
proof -
  obtain i a where a: "granted dur W i a" "trim_space (lHolderID (gLease a)) = trim_space hubA"
    "lEpoch (gLease a) = lead_epoch hubA evsA nowA" "gAt a \<le> t" "t < lExpiresAt (gLease a)"
    using leads_grant [OF assms(5)] .
  obtain j b where b: "granted dur W j b" "trim_space (lHolderID (gLease b)) = trim_space hubB"
    "lEpoch (gLease b) = lead_epoch hubB evsB nowB" "gAt b \<le> t" "t < lExpiresAt (gLease b)"
    using leads_grant [OF assms(6)] .
  have ne: "lHolderID (gLease a) \<noteq> lHolderID (gLease b)" using a(2) b(2) assms(4) by metis
  then have "i \<noteq> j" using a(1) b(1) by (auto simp: granted_def)
  then consider "i < j" | "j < i" by linarith
  then show ?thesis
  proof cases
    case 1
    from granted_exclusive [OF assms(1-3) this a(1) b(1)] ne a(3,5) b(1,4) show ?thesis by force
  next
    case 2
    from granted_exclusive [OF assms(1-3) this b(1) a(1)] ne b(3,5) a(1,4) show ?thesis by force
  qed
qed

text \<open>
  The microsecond is real: the reply carries nanoseconds and the row whole microseconds, so the next
  Hub can be granted the lease while the previous one still trusts its reply.
\<close>

definition instant_of :: "time \<Rightarrow> Instant" where
  "instant_of t = \<lparr>iMono = t, iWall = t\<rparr>"

definition demo_witness_run :: "lease_event list" where
  "demo_witness_run = [(SqlOk, 1999, ReqAcquire ''hub-a''), (SqlOk, 5000001000, ReqAcquire ''hub-b'')]"

definition demo_reply :: "string \<Rightarrow> epoch \<Rightarrow> time \<Rightarrow> time \<Rightarrow> LeaseObservation" where
  "demo_reply hubID e t x =
     \<lparr>lrHolderID = hubID, lrEpoch = e, lrExpiresAt = x, lrActive = True, lrWitnessTime = t,
      loRequestStartedAt = instant_of t, loReceivedAt = instant_of t\<rparr>"

definition demo_hub_run :: "LeaseObservation \<Rightarrow> time \<Rightarrow> ctl_event list" where
  "demo_hub_run o1 t =
     [EvAcquire 0, EvLock 0, EvReply 0 (Some o1) (instant_of t), EvCommit 0 (instant_of t)]"

definition demo_runA :: "ctl_event list" where
  "demo_runA = demo_hub_run (demo_reply ''hub-a'' 1 1999 5000001999) 1999"

definition demo_runB :: "ctl_event list" where
  "demo_runB = demo_hub_run (demo_reply ''hub-b'' 2 5000001000 10000001000) 5000001000"

lemmas hubs_eval = ctl_eval lease_eval instant_of_def demo_witness_run_def demo_reply_def demo_hub_run_def
  demo_runA_def demo_runB_def

lemma demo_granted:
  "granted DefaultLeaseDuration demo_witness_run 0
     \<lparr>gLease = \<lparr>lHolderID = ''hub-a'', lEpoch = 1, lExpiresAt = 5000001999\<rparr>, gAt = 1999\<rparr>"
  "granted DefaultLeaseDuration demo_witness_run 1
     \<lparr>gLease = \<lparr>lHolderID = ''hub-b'', lEpoch = 2, lExpiresAt = 10000001000\<rparr>, gAt = 5000001000\<rparr>"
  by (simp_all add: granted_def hubs_eval)

lemma demo_leads:
  "leads DefaultLeaseDuration demo_witness_run ''hub-a'' 0 demo_runA (instant_of 5000001500) 5000001500"
  "leads DefaultLeaseDuration demo_witness_run ''hub-b'' 0 demo_runB (instant_of 5000001500) 5000001500"
proof -
  have rA: "replies demo_runA = {(demo_reply ''hub-a'' 1 1999 5000001999, instant_of 1999)}"
    by (auto simp: replies_def demo_runA_def demo_hub_run_def)
  have rB: "replies demo_runB = {(demo_reply ''hub-b'' 2 5000001000 10000001000, instant_of 5000001000)}"
    by (auto simp: replies_def demo_runB_def demo_hub_run_def)
  have curA: "ctl_Current (instant_of 5000001500) (foldl ctl_step (newController ''hub-a'') demo_runA) \<noteq> standby"
    by (simp add: hubs_eval)
  have curB: "ctl_Current (instant_of 5000001500) (foldl ctl_step (newController ''hub-b'') demo_runB) \<noteq> standby"
    by (simp add: hubs_eval)
  show "leads DefaultLeaseDuration demo_witness_run ''hub-a'' 0 demo_runA (instant_of 5000001500) 5000001500"
    unfolding leads_def rA using curA demo_granted(1)
    by (force simp: witnessed_def demo_reply_def instant_of_def)
  show "leads DefaultLeaseDuration demo_witness_run ''hub-b'' 0 demo_runB (instant_of 5000001500) 5000001500"
    unfolding leads_def rB using curB demo_granted(2)
    by (force simp: witnessed_def demo_reply_def instant_of_def)
qed

theorem hubs_exclusive_witness:
  "\<exists>i g. granted DefaultLeaseDuration demo_witness_run i g \<and> gAt g \<le> 5000001500 \<and> 5000001500 < gAt g + 1000"
proof -
  have "\<not> (\<exists>v \<in> set demo_witness_run. releases e v)" for e by (simp add: demo_witness_run_def)
  moreover have "(\<exists>i g. granted DefaultLeaseDuration demo_witness_run i g \<and> gAt g \<le> 5000001500 \<and> 5000001500 < gAt g + 1000)
    \<or> (\<exists>v \<in> set demo_witness_run. (releases (lead_epoch ''hub-a'' demo_runA (instant_of 5000001500)) v
        \<or> releases (lead_epoch ''hub-b'' demo_runB (instant_of 5000001500)) v) \<and> event_time v \<le> 5000001500)"
    by (rule hubs_exclusive [OF _ _ _ _ demo_leads])
      (simp_all add: trim_eval demo_witness_run_def DefaultLeaseDuration_def event_time_def sane_time_def)
  ultimately show ?thesis by blast
qed

section \<open>A release that arrives late\<close>

text \<open>
  A Hub whose release fails on the way (its context ends) has dropped its grant, but it can acquire again: the witness
  answers with the lease that is still active, under the same epoch. When the release then arrives, the witness
  frees the row although the Hub leads again, and the other Hub is granted the lease: both are LEADER until the first
  renewal fails, here for more than half a second.
\<close>

definition late_witness_run :: "lease_event list" where
  "late_witness_run = [(SqlOk, 1000000000, ReqAcquire ''hub-a''), (SqlOk, 2000000000, ReqAcquire ''hub-a''),
     (SqlOk, 3000000000, ReqRelease ''hub-a'' 1), (SqlOk, 3500000000, ReqAcquire ''hub-b'')]"

definition late_runA :: "ctl_event list" where
  "late_runA = demo_hub_run (demo_reply ''hub-a'' 1 1000000000 6000000000) 1000000000
     @ [EvRelease 0, EvLock 0, EvReleaseReply 0 False]
     @ demo_hub_run (demo_reply ''hub-a'' 1 2000000000 6000000000) 2000000000"

definition late_runB :: "ctl_event list" where
  "late_runB = demo_hub_run (demo_reply ''hub-b'' 2 3500000000 8500000000) 3500000000"

lemma late_granted:
  "granted DefaultLeaseDuration late_witness_run 0
     \<lparr>gLease = \<lparr>lHolderID = ''hub-a'', lEpoch = 1, lExpiresAt = 6000000000\<rparr>, gAt = 1000000000\<rparr>"
  "granted DefaultLeaseDuration late_witness_run 1
     \<lparr>gLease = \<lparr>lHolderID = ''hub-a'', lEpoch = 1, lExpiresAt = 6000000000\<rparr>, gAt = 2000000000\<rparr>"
  "granted DefaultLeaseDuration late_witness_run 3
     \<lparr>gLease = \<lparr>lHolderID = ''hub-b'', lEpoch = 2, lExpiresAt = 8500000000\<rparr>, gAt = 3500000000\<rparr>"
  by (simp_all add: granted_def late_witness_run_def eval_nat_numeral hubs_eval)

lemma late_release_two_leaders:
  "leads DefaultLeaseDuration late_witness_run ''hub-a'' 0 late_runA (instant_of 4000000000) 4000000000
 \<and> leads DefaultLeaseDuration late_witness_run ''hub-b'' 0 late_runB (instant_of 4000000000) 4000000000"
proof -
  have rA: "replies late_runA = {(demo_reply ''hub-a'' 1 1000000000 6000000000, instant_of 1000000000),
      (demo_reply ''hub-a'' 1 2000000000 6000000000, instant_of 2000000000)}"
    by (auto simp: replies_def late_runA_def demo_hub_run_def)
  have rB: "replies late_runB = {(demo_reply ''hub-b'' 2 3500000000 8500000000, instant_of 3500000000)}"
    by (auto simp: replies_def late_runB_def demo_hub_run_def)
  have curA: "ctl_Current (instant_of 4000000000) (foldl ctl_step (newController ''hub-a'') late_runA) \<noteq> standby"
    by (simp add: hubs_eval late_runA_def)
  have curB: "ctl_Current (instant_of 4000000000) (foldl ctl_step (newController ''hub-b'') late_runB) \<noteq> standby"
    by (simp add: hubs_eval late_runB_def)
  show ?thesis
    unfolding leads_def rA rB using curA curB late_granted
    by (force simp: witnessed_def demo_reply_def instant_of_def)
qed

end
