(* ===== verification/Capability.thy ===== *)
theory Capability
  imports HAExclusion CueGroup
begin

text \<open>
  Capability execution: the registry of executors of \<open>internal/capability/capability.go\<close> and the
  dispatch gate of \<open>internal/dispatchauthority/authority.go\<close> in front of every physical output. An
  executor changes a world \<open>'w\<close> (the devices) and answers; it is a parameter.
\<close>

section \<open>Requests and results\<close>

datatype AckLevel = AckNone | AckTransportOnly | AckAccepted | AckDevice | AckVerifiedState

record CapTarget =
  ctAliasID :: string
  ctRef :: string
  ctLogicalType :: string
  ctConfiguration :: string

record CapRequest =
  crExecutionID :: string
  crProjectID :: string
  crSessionID :: string
  crRuntimeSnapshotID :: string
  crIssuer :: string
  crCausationID :: string
  crCapability :: string
  crTarget :: "CapTarget option"
  crParameters :: string
  crPriority :: string
  crTimeoutMS :: int
  crCorrelationID :: string

record CapResult =
  cpResult :: ExecutionResult
  cpAckLevel :: AckLevel
  cpResponseSummary :: string
  cpErrorCode :: string

type_synonym 'w executor = "CapRequest \<Rightarrow> 'w \<Rightarrow> CapResult \<times> 'w"

definition failed_result :: "string \<Rightarrow> string \<Rightarrow> CapResult" where
  "failed_result code summary =
     \<lparr>cpResult = ExecutionFailed, cpAckLevel = AckNone, cpResponseSummary = summary, cpErrorCode = code\<rparr>"

section \<open>The registry\<close>

record 'w Registry =
  regExecutors :: "string \<Rightarrow> 'w executor option"
  regTargets :: "string \<Rightarrow> 'w executor option"

datatype registry_error = ErrKeyRequired | ErrAlreadyRegistered

definition NewRegistry :: "'w Registry" where
  "NewRegistry = \<lparr>regExecutors = (\<lambda>_. None), regTargets = (\<lambda>_. None)\<rparr>"

definition normalizeLogicalType :: "string \<Rightarrow> string" where
  "normalizeLogicalType v = to_lower (trim_space v)"

text \<open>A nil executor is \<open>None\<close>.\<close>

definition reg_Register :: "string \<Rightarrow> 'w executor option \<Rightarrow> 'w Registry \<Rightarrow> registry_error + 'w Registry" where
  "reg_Register capabilityKey x r =
     (let key = trim_space capabilityKey in
      case x of
        None \<Rightarrow> Inl ErrKeyRequired
      | Some f \<Rightarrow>
        if key = [] then Inl ErrKeyRequired
        else if regExecutors r key \<noteq> None then Inl ErrAlreadyRegistered
        else Inr (r\<lparr>regExecutors := (regExecutors r)(key := Some f)\<rparr>))"

definition reg_RegisterTargetType :: "string \<Rightarrow> 'w executor option \<Rightarrow> 'w Registry \<Rightarrow> registry_error + 'w Registry" where
  "reg_RegisterTargetType logicalType x r =
     (let key = normalizeLogicalType logicalType in
      case x of
        None \<Rightarrow> Inl ErrKeyRequired
      | Some f \<Rightarrow>
        if key = [] then Inl ErrKeyRequired
        else if regTargets r key \<noteq> None then Inl ErrAlreadyRegistered
        else Inr (r\<lparr>regTargets := (regTargets r)(key := Some f)\<rparr>))"

definition reg_HasTargetTypeExecutor :: "string \<Rightarrow> 'w Registry \<Rightarrow> bool" where
  "reg_HasTargetTypeExecutor logicalType r \<longleftrightarrow> regTargets r (normalizeLogicalType logicalType) \<noteq> None"

definition reg_Supports :: "string \<Rightarrow> string \<Rightarrow> 'w Registry \<Rightarrow> bool" where
  "reg_Supports capabilityKey logicalType r \<longleftrightarrow>
     (let key = trim_space capabilityKey in
      if key = [] then False
      else if regTargets r (normalizeLogicalType logicalType) \<noteq> None then True
      else regExecutors r key \<noteq> None)"

definition unavailable :: CapResult where
  "unavailable = failed_result ''CAPABILITY_UNAVAILABLE'' ''no executor registered for capability or logical target type''"

definition reg_lookup :: "CapRequest \<Rightarrow> 'w Registry \<Rightarrow> 'w executor option" where
  "reg_lookup req r =
     (let x = (case crTarget req of None \<Rightarrow> None | Some t \<Rightarrow> regTargets r (normalizeLogicalType (ctLogicalType t)))
      in case x of Some f \<Rightarrow> Some f | None \<Rightarrow> regExecutors r (crCapability req))"

definition reg_Execute :: "'w Registry \<Rightarrow> 'w executor" where
  "reg_Execute r req w = (case reg_lookup req r of None \<Rightarrow> (unavailable, w) | Some f \<Rightarrow> f req w)"

section \<open>The dispatch gate\<close>

definition gate_failure :: "DispatchSnapshot \<Rightarrow> CapResult option" where
  "gate_failure a =
     (case dsMode a of
        ModeStandalone \<Rightarrow> None
      | ModeLeader \<Rightarrow>
          if trim_space (dsHolderID a) = [] \<or> dsEpoch a = 0
          then Some (failed_result ''PHYSICAL_DISPATCH_AUTHORITY_INVALID'' ''leader dispatch authority is incomplete'')
          else None
      | ModeStandby \<Rightarrow>
          Some (failed_result ''PHYSICAL_DISPATCH_NOT_LEADER'' ''standby Hub is not allowed to emit physical dispatches'')
      | ModeOther _ \<Rightarrow>
          Some (failed_result ''PHYSICAL_DISPATCH_AUTHORITY_INVALID'' ''physical dispatch authority mode is invalid''))"

text \<open>The authority source answers with a snapshot or an error (\<open>None\<close>); so does a gate without its parts.\<close>

definition gate_Execute :: "DispatchSnapshot option \<Rightarrow> 'w executor \<Rightarrow> 'w executor" where
  "gate_Execute source next req w =
     (case source of
        None \<Rightarrow> (failed_result ''PHYSICAL_DISPATCH_AUTHORITY_UNAVAILABLE'' ''physical dispatch authority could not be resolved'', w)
      | Some a \<Rightarrow> (case gate_failure a of Some r \<Rightarrow> (r, w) | None \<Rightarrow> next req w))"

section \<open>Properties\<close>

text \<open>Registration: no executor stands under the empty key, and a key once taken keeps its executor.\<close>

definition reg_wf :: "'w Registry \<Rightarrow> bool" where
  "reg_wf r \<longleftrightarrow> regExecutors r [] = None \<and> regTargets r [] = None"

datatype 'w registration = RegCapability string "'w executor option" | RegTarget string "'w executor option"

definition reg_step :: "'w Registry \<Rightarrow> 'w registration \<Rightarrow> 'w Registry" where
  "reg_step r x =
     (case (case x of RegCapability k f \<Rightarrow> reg_Register k f r | RegTarget k f \<Rightarrow> reg_RegisterTargetType k f r) of
        Inl _ \<Rightarrow> r | Inr r' \<Rightarrow> r')"

lemma reg_step_wf: "reg_wf r \<Longrightarrow> reg_wf (reg_step r x)"
  by (cases x)
    (auto simp: reg_wf_def reg_step_def reg_Register_def reg_RegisterTargetType_def Let_def split: option.splits)

interpretation registry: invariant_machine "reg_step :: 'w Registry \<Rightarrow> _" reg_wf
  by unfold_locales (rule reg_step_wf)

lemma reg_step_keeps:
  "regExecutors r k = Some f \<Longrightarrow> regExecutors (reg_step r x) k = Some f"
  "regTargets r k = Some f \<Longrightarrow> regTargets (reg_step r x) k = Some f"
  by (cases x; auto simp: reg_step_def reg_Register_def reg_RegisterTargetType_def Let_def split: option.splits)+

lemma reg_run_keeps:
  "regExecutors r k = Some f \<Longrightarrow> regExecutors (foldl reg_step r xs) k = Some f"
  "regTargets r k = Some f \<Longrightarrow> regTargets (foldl reg_step r xs) k = Some f"
  by (induction xs arbitrary: r) (simp_all add: reg_step_keeps)

definition target_type :: "CapRequest \<Rightarrow> string" where
  "target_type req = (case crTarget req of None \<Rightarrow> [] | Some t \<Rightarrow> ctLogicalType t)"

text \<open>
  What the registry says it supports it can execute: for every registry built by registrations and
  every request whose capability key is trimmed and not empty, \<open>Supports\<close> holds exactly when \<open>Execute\<close>
  finds an executor to run, and further registrations never change which executor that is.
\<close>

theorem supports_iff_executes:
  assumes "r = foldl reg_step NewRegistry xs"
    and "trim_space (crCapability req) = crCapability req" and "crCapability req \<noteq> []"
  shows "(reg_Supports (crCapability req) (target_type req) r \<longleftrightarrow> reg_lookup req r \<noteq> None)
    \<and> (\<forall>f. regTargets (foldl reg_step r ys) (normalizeLogicalType (target_type req)) = None
         \<longrightarrow> reg_lookup req r = Some f \<longrightarrow> reg_lookup req (foldl reg_step r ys) = Some f)"
proof -
  have "reg_wf r"
    unfolding assms(1) by (rule registry.run_inv) (simp add: reg_wf_def NewRegistry_def)
  then have empty: "regTargets r (normalizeLogicalType []) = None"
    by (simp add: reg_wf_def normalizeLogicalType_def)
  have "reg_Supports (crCapability req) (target_type req) r \<longleftrightarrow> reg_lookup req r \<noteq> None"
    using assms(2,3) empty
    by (auto simp: reg_Supports_def reg_lookup_def target_type_def Let_def split: option.split)
  moreover have "reg_lookup req (foldl reg_step r ys) = Some f"
    if "regTargets (foldl reg_step r ys) (normalizeLogicalType (target_type req)) = None" "reg_lookup req r = Some f" for f
    using that reg_run_keeps [of r _ f ys] reg_run_keeps(2) [of r _ _ ys]
    by (fastforce simp: reg_lookup_def target_type_def Let_def split: option.splits)
  ultimately show ?thesis by blast
qed

text \<open>A key that carries spaces is supported but not executable, since only \<open>Supports\<close> trims it.\<close>

lemma supports_untrimmed:
  "\<exists>f r. reg_Register ''osc.send'' (Some f) NewRegistry = Inr r \<and> reg_Supports '' osc.send'' [] r
     \<and> (\<forall>req. crCapability req = '' osc.send'' \<longrightarrow> crTarget req = None \<longrightarrow> reg_lookup req r = None)"
proof -
  have t: "trim_space ''osc.send'' = ''osc.send''" "trim_space '' osc.send'' = ''osc.send''" by code_simp+
  let ?r = "NewRegistry\<lparr>regExecutors := (regExecutors NewRegistry)(''osc.send'' \<mapsto> undefined)\<rparr>"
  have "reg_Register ''osc.send'' (Some undefined) NewRegistry = Inr ?r"
    by (simp add: reg_Register_def t NewRegistry_def Let_def)
  moreover have "reg_Supports '' osc.send'' [] ?r"
    by (simp add: reg_Supports_def t NewRegistry_def Let_def)
  moreover have "reg_lookup req ?r = None" if "crCapability req = '' osc.send''" "crTarget req = None" for req
    using that by (simp add: reg_lookup_def NewRegistry_def)
  ultimately show ?thesis by blast
qed

text \<open>The gate runs the executor exactly under complete authority.\<close>

lemma gate_blocks: "gate_Execute source next req w = (r, w') \<Longrightarrow> w' \<noteq> w \<Longrightarrow> \<exists>a. source = Some a \<and> gate_failure a = None"
  by (auto simp: gate_Execute_def split: option.splits)

lemma gate_standby [simp]: "gate_failure standby \<noteq> None"
  by (simp add: gate_failure_def standby_def)

text \<open>
  No physical output without a proven lease: if a dispatch through the gate of a Hub changes the
  devices, then at that instant the controller holds a lease that some reply of the witness granted to this
  Hub, whose remaining time is not over on the local monotonic clock.
\<close>

theorem output_needs_lease:
  assumes "c = foldl ctl_step (newController hubID) evs"
    and "gate_Execute (Some (ctl_Current now c)) next req w = (r, w')" and "w' \<noteq> w"
  shows "\<exists>t o1 now1. EvReply t (Some o1) now1 \<in> set evs
    \<and> trim_space (lrHolderID o1) = trim_space hubID \<and> lrActive o1 \<and> lrEpoch o1 = dsEpoch (ctl_Current now c)
    \<and> iMono now - iMono (loRequestStartedAt o1) < lrExpiresAt o1 - lrWitnessTime o1"
proof -
  have "ctl_Current now c \<noteq> standby" using gate_blocks [OF assms(2,3)] by auto
  from leader_facts [OF assms(1) this] show ?thesis by fastforce
qed


section \<open>Concrete uses\<close>

definition demo_request :: CapRequest where
  "demo_request =
     \<lparr>crExecutionID = ''x1'', crProjectID = ''p'', crSessionID = ''s'', crRuntimeSnapshotID = ''snap'', crIssuer = ''op'',
      crCausationID = [], crCapability = ''osc.send'', crTarget = None, crParameters = ''{}'', crPriority = ''P1'',
      crTimeoutMS = 0, crCorrelationID = ''c''\<rparr>"

definition demo_executor :: "nat executor" where
  "demo_executor req w = (failed_result ''X'' ''x'', w + 1)"

theorem supports_iff_executes_witness:
  "reg_lookup demo_request (foldl reg_step NewRegistry [RegCapability ''osc.send'' (Some demo_executor)]) \<noteq> None"
proof -
  have t: "trim_space (crCapability demo_request) = crCapability demo_request" "crCapability demo_request \<noteq> []"
    by (simp_all add: demo_request_def trim_eval)
  have "reg_Supports (crCapability demo_request) (target_type demo_request)
      (foldl reg_step NewRegistry [RegCapability ''osc.send'' (Some demo_executor)])"
    using t by (simp add: reg_step_def reg_Register_def NewRegistry_def reg_Supports_def Let_def demo_request_def)
  with supports_iff_executes [OF refl t, of "[RegCapability ''osc.send'' (Some demo_executor)]" "[]"] show ?thesis
    by blast
qed

theorem output_needs_lease_witness:
  "\<exists>t o1 now1. EvReply t (Some o1) now1 \<in> set (demo_acquiring @ demo_installing)
    \<and> iMono demo_now - iMono (loRequestStartedAt o1) < lrExpiresAt o1 - lrWitnessTime o1"
proof -
  let ?c = "foldl ctl_step (newController demo_hub) (demo_acquiring @ demo_installing)"
  have "gate_Execute (Some (ctl_Current demo_now ?c)) demo_executor demo_request 0 = (failed_result ''X'' ''x'', 1)"
    unfolding demo_leader by (simp add: gate_Execute_def gate_failure_def demo_trim_hub demo_executor_def)
  from output_needs_lease [OF refl this] show ?thesis by fastforce
qed

end
