(* ===== verification/CommandStore.thy ===== *)
theory CommandStore
  imports Contracts HALease
begin

text \<open>
  The durable command records of \<open>internal/store/runtime.go\<close> (table \<open>command_records\<close> of migration
  \<open>00002_runtime_m1.sql\<close>) and the life of a \<open>cue.go\<close> command in \<open>Engine.ExecuteCueGo\<close> of
  \<open>internal/cueengine/engine.go\<close>. Every SQL statement works, fails without an effect, or takes effect and
  loses its reply (\<open>sql\<close> of \<open>HALease\<close>). Concurrent calls are goroutines that interleave at the statements.
\<close>

section \<open>Records\<close>

text \<open>\<open>result_json\<close> is \<open>None\<close> while it is \<open>{}\<close>, and the stored result otherwise.\<close>

record CommandRecord =
  rcCommandID :: string
  rcCommandType :: string
  rcSchemaVersion :: int
  rcIssuedAtUS :: int
  rcProjectID :: string
  rcSnapshotID :: string
  rcIdempotencyKey :: string
  rcCorrelationID :: string
  rcStatus :: CommandStatus
  rcResult :: "CommandResult option"
  rcCreatedAtUS :: int
  rcUpdatedAtUS :: int

type_synonym command_table = "CommandRecord list"

datatype store_error = StoreFailure | StoreConflict

text \<open>\<open>getCommandRecord\<close> with the two queries of \<open>FindCommandRecord\<close>.\<close>

definition record_by_id :: "string \<Rightarrow> command_table \<Rightarrow> CommandRecord option" where
  "record_by_id cid db = find (\<lambda>r. rcCommandID r = cid) db"

definition record_by_key :: "string \<Rightarrow> string \<Rightarrow> string \<Rightarrow> command_table \<Rightarrow> CommandRecord option" where
  "record_by_key project ty key db =
     find (\<lambda>r. rcProjectID r = project \<and> rcCommandType r = ty \<and> rcIdempotencyKey r = key) db"

definition FindCommandRecord :: "sql \<Rightarrow> sql \<Rightarrow> CommandEnvelope \<Rightarrow> command_table \<Rightarrow> store_error + CommandRecord option" where
  "FindCommandRecord q1 q2 cmd db =
     (if q1 \<noteq> SqlOk then Inl StoreFailure
      else case record_by_id (ceCommandID cmd) db of
        Some r \<Rightarrow> Inr (Some r)
      | None \<Rightarrow>
        if ceIdempotencyKey cmd = [] then Inr None
        else if q2 \<noteq> SqlOk then Inl StoreFailure
        else Inr (record_by_key (ceProjectID cmd) (ceCommandType cmd) (ceIdempotencyKey cmd) db))"

definition new_record :: "time \<Rightarrow> CommandEnvelope \<Rightarrow> CommandRecord" where
  "new_record now cmd =
     (let issuedAt = (if is_zero (ceIssuedAt cmd) then now else ceIssuedAt cmd);
          correlationID = (if ceCorrelationID cmd = [] then ceCommandID cmd else ceCorrelationID cmd)
      in \<lparr>rcCommandID = ceCommandID cmd, rcCommandType = ceCommandType cmd, rcSchemaVersion = ceSchemaVersion cmd,
          rcIssuedAtUS = unix_micro issuedAt, rcProjectID = ceProjectID cmd, rcSnapshotID = ceRuntimeSnapshotID cmd,
          rcIdempotencyKey = ceIdempotencyKey cmd, rcCorrelationID = correlationID, rcStatus = CommandAccepted,
          rcResult = None, rcCreatedAtUS = unix_micro now, rcUpdatedAtUS = unix_micro now\<rparr>)"

text \<open>
  The constraints of the table: the primary key with its length, the version check, and the unique index over
  non-empty idempotency keys. \<open>SqlFail\<close> also stands for a violated foreign key.
\<close>

definition may_insert :: "CommandRecord \<Rightarrow> command_table \<Rightarrow> bool" where
  "may_insert r db \<longleftrightarrow>
     length (rcCommandID r) = 36 \<and> rcSchemaVersion r > 0 \<and> record_by_id (rcCommandID r) db = None
   \<and> (rcIdempotencyKey r = [] \<or> record_by_key (rcProjectID r) (rcCommandType r) (rcIdempotencyKey r) db = None)"

definition insert_record :: "sql \<Rightarrow> CommandRecord \<Rightarrow> command_table \<Rightarrow> command_table \<times> bool" where
  "insert_record q r db =
     (if q = SqlFail \<or> \<not> may_insert r db then (db, False) else (db @ [r], q = SqlOk))"

definition terminalCommandStatus :: "CommandStatus \<Rightarrow> bool" where
  "terminalCommandStatus st \<longleftrightarrow> st \<noteq> CommandAccepted"

text \<open>\<open>StoredCommandResult\<close>: the result of a terminal record.\<close>

definition StoredCommandResult :: "CommandRecord \<Rightarrow> CommandResult option" where
  "StoredCommandResult r = (if terminalCommandStatus (rcStatus r) then rcResult r else None)"

text \<open>\<open>FinishCommand\<close> updates the row only while it is \<open>ACCEPTED\<close>, and requires that it was one row.\<close>

definition finish_row :: "time \<Rightarrow> string \<Rightarrow> CommandResult \<Rightarrow> CommandRecord \<Rightarrow> CommandRecord" where
  "finish_row now cid res r =
     (if rcCommandID r = cid \<and> rcStatus r = CommandAccepted
      then r\<lparr>rcStatus := resStatus res, rcResult := Some res, rcUpdatedAtUS := unix_micro now\<rparr> else r)"

definition FinishCommand :: "sql \<Rightarrow> time \<Rightarrow> string \<Rightarrow> CommandResult \<Rightarrow> command_table
    \<Rightarrow> command_table \<times> (store_error + unit)" where
  "FinishCommand q now cid res db =
     (if q = SqlFail then (db, Inl StoreFailure)
      else if q = SqlReplyLost then (map (finish_row now cid res) db, Inl StoreFailure)
      else if length (filter (\<lambda>r. rcCommandID r = cid \<and> rcStatus r = CommandAccepted) db) \<noteq> 1
      then (map (finish_row now cid res) db, Inl StoreConflict)
      else (map (finish_row now cid res) db, Inr ()))"

section \<open>Results of the engine\<close>

definition rejection :: "string \<Rightarrow> string \<Rightarrow> string \<Rightarrow> string \<Rightarrow> bool \<Rightarrow> string \<Rightarrow> CommandResult" where
  "rejection cid code category message retryable entityID =
     \<lparr>resCommandID = cid, resStatus = CommandRejected, resPayload = [],
      resError = Some \<lparr>errCode = code, errCategory = category, errMessage = message, errRetryable = retryable,
        errAffectedEntityID = entityID\<rparr>\<rparr>"

text \<open>The message tells a cancelled context from other failures.\<close>

definition internalFailure :: "string \<Rightarrow> string \<Rightarrow> bool \<Rightarrow> CommandResult" where
  "internalFailure cid code cancelled =
     \<lparr>resCommandID = cid, resStatus = CommandFailed, resPayload = [],
      resError = Some \<lparr>errCode = code, errCategory = ''INTERNAL'', 
        errMessage = (if cancelled then ''runtime operation cancelled'' else ''internal runtime failure''),
        errRetryable = False, errAffectedEntityID = []\<rparr>\<rparr>"

definition duplicateResult :: "CommandRecord \<Rightarrow> CommandResult" where
  "duplicateResult r =
     (case StoredCommandResult r of
        Some res \<Rightarrow> res
      | None \<Rightarrow>
          rejection (rcCommandID r) ''DUPLICATE_UNRESOLVED'' ''VALIDATION''
            ''matching command is already accepted and will not be replayed'' False (rcCommandID r))"

definition validateEnvelope :: "(string \<Rightarrow> bool) \<Rightarrow> CommandEnvelope \<Rightarrow> CommandResult option" where
  "validateEnvelope jsonValid cmd =
     (if trim_space (ceCommandID cmd) = []
      then Some (rejection (ceCommandID cmd) ''COMMAND_ID_REQUIRED'' ''VALIDATION'' ''command_id is required'' False [])
      else if ceCommandType cmd \<noteq> CueGoCommandType
      then Some (rejection (ceCommandID cmd) ''UNSUPPORTED_COMMAND'' ''VALIDATION''
             ''only cue.go is supported by the cue engine'' False (ceCommandType cmd))
      else if ceSchemaVersion cmd \<noteq> SchemaVersion1
      then Some (rejection (ceCommandID cmd) ''UNSUPPORTED_SCHEMA_VERSION'' ''VALIDATION''
             ''unsupported command schema version'' False [])
      else if trim_space (ceProjectID cmd) = [] \<or> trim_space (ceRuntimeSnapshotID cmd) = [] \<or> trim_space (ceIssuer cmd) = []
      then Some (rejection (ceCommandID cmd) ''COMMAND_CONTEXT_REQUIRED'' ''VALIDATION''
             ''project_id, runtime_snapshot_id and issuer are required'' False [])
      else if cePriority cmd \<noteq> ''P1''
      then Some (rejection (ceCommandID cmd) ''INVALID_PRIORITY'' ''VALIDATION'' ''cue.go must use P1 priority'' False (cePriority cmd))
      else if \<not> jsonValid (cePayload cmd)
      then Some (rejection (ceCommandID cmd) ''INVALID_PAYLOAD_JSON'' ''VALIDATION'' ''payload must be valid JSON'' False [])
      else None)"

section \<open>The life of a command\<close>

text \<open>
  \<open>GReserve\<close>, \<open>GInsert\<close> and \<open>GRecheck\<close> are the statements of \<open>ReserveCommand\<close>; \<open>GExecute\<close> is inside
  \<open>executeReserved\<close>, whose result is what the environment makes it.
\<close>

datatype go_pc =
    GFind
  | GReserve
  | GInsert
  | GRecheck
  | GExecute
  | GFinish CommandResult
  | GDone CommandResult

record go_state =
  gsTable :: command_table
  gsPc :: "nat \<Rightarrow> go_pc"
  gsExecuted :: "nat list"

definition go_start :: "(string \<Rightarrow> bool) \<Rightarrow> (nat \<Rightarrow> CommandEnvelope) \<Rightarrow> command_table \<Rightarrow> go_state" where
  "go_start jsonValid cmds db =
     \<lparr>gsTable = db,
      gsPc = (\<lambda>t. case validateEnvelope jsonValid (cmds t) of Some res \<Rightarrow> GDone res | None \<Rightarrow> GFind),
      gsExecuted = []\<rparr>"

definition go_to :: "nat \<Rightarrow> go_pc \<Rightarrow> go_state \<Rightarrow> go_state" where
  "go_to t p s = s\<lparr>gsPc := (gsPc s)(t := p)\<rparr>"

text \<open>Where a lookup sends the goroutine: a failure and a found record end the call.\<close>

definition on_lookup :: "bool \<Rightarrow> string \<Rightarrow> string \<Rightarrow> go_pc \<Rightarrow> store_error + CommandRecord option \<Rightarrow> go_pc" where
  "on_lookup c cid code nxt res =
     (case res of
        Inl _ \<Rightarrow> GDone (internalFailure cid code c)
      | Inr (Some r) \<Rightarrow> GDone (duplicateResult r)
      | Inr None \<Rightarrow> nxt)"

inductive go_step :: "(nat \<Rightarrow> CommandEnvelope) \<Rightarrow> go_state \<Rightarrow> go_state \<Rightarrow> bool" for cmds where
  find: "gsPc s t = GFind
    \<Longrightarrow> go_step cmds s (go_to t (on_lookup c (ceCommandID (cmds t)) ''COMMAND_LOOKUP_FAILED'' GReserve
          (FindCommandRecord q1 q2 (cmds t) (gsTable s))) s)"
| reserve: "gsPc s t = GReserve
    \<Longrightarrow> go_step cmds s (go_to t (on_lookup c (ceCommandID (cmds t)) ''COMMAND_RESERVE_FAILED'' GInsert
          (FindCommandRecord q1 q2 (cmds t) (gsTable s))) s)"
| insert_ok: "gsPc s t = GInsert \<Longrightarrow> insert_record q (new_record now (cmds t)) (gsTable s) = (db, True)
    \<Longrightarrow> go_step cmds s ((go_to t GExecute s)\<lparr>gsTable := db, gsExecuted := gsExecuted s @ [t]\<rparr>)"
| insert_failed: "gsPc s t = GInsert \<Longrightarrow> insert_record q (new_record now (cmds t)) (gsTable s) = (db, False)
    \<Longrightarrow> go_step cmds s ((go_to t GRecheck s)\<lparr>gsTable := db\<rparr>)"
| recheck: "gsPc s t = GRecheck
    \<Longrightarrow> go_step cmds s (go_to t (on_lookup c (ceCommandID (cmds t)) ''COMMAND_RESERVE_FAILED''
          (GDone (internalFailure (ceCommandID (cmds t)) ''COMMAND_RESERVE_FAILED'' c))
          (FindCommandRecord q1 q2 (cmds t) (gsTable s))) s)"
| execute: "gsPc s t = GExecute \<Longrightarrow> go_step cmds s (go_to t (GFinish res) s)"
| finish: "gsPc s t = GFinish res \<Longrightarrow> FinishCommand q now (ceCommandID (cmds t)) res (gsTable s) = (db, r)
    \<Longrightarrow> go_step cmds s ((go_to t (GDone (case r of
          Inl _ \<Rightarrow> internalFailure (ceCommandID (cmds t)) ''COMMAND_FINISH_FAILED'' c | Inr _ \<Rightarrow> res)) s)\<lparr>gsTable := db\<rparr>)"

inductive_cases go_stepE: "go_step cmds s s'"

inductive_simps go_step_done: "go_step cmds \<lparr>gsTable = db, gsPc = (\<lambda>_. GDone res), gsExecuted = ex\<rparr> s'"

section \<open>The table\<close>

type_synonym idem_key = "string \<times> string \<times> string"

definition record_key :: "CommandRecord \<Rightarrow> idem_key" where
  "record_key r = (rcProjectID r, rcCommandType r, rcIdempotencyKey r)"

definition command_key :: "CommandEnvelope \<Rightarrow> idem_key" where
  "command_key c = (ceProjectID c, ceCommandType c, ceIdempotencyKey c)"

abbreviation keyed :: "idem_key \<Rightarrow> bool" where "keyed k \<equiv> snd (snd k) \<noteq> []"

definition table_wf :: "command_table \<Rightarrow> bool" where
  "table_wf db \<longleftrightarrow> distinct (map rcCommandID db) \<and> distinct (filter keyed (map record_key db))"

lemma record_by_id_None: "record_by_id cid db = None \<longleftrightarrow> cid \<notin> rcCommandID ` set db"
  by (auto simp: record_by_id_def find_None_iff)

lemma record_by_key_None: "record_by_key p ty k db = None \<longleftrightarrow> (p, ty, k) \<notin> record_key ` set db"
  by (auto simp: record_by_key_def find_None_iff record_key_def)

lemma record_by_id_Some: "distinct (map rcCommandID db) \<Longrightarrow> r \<in> set db \<Longrightarrow> record_by_id (rcCommandID r) db = Some r"
  by (induction db) (auto simp: record_by_id_def)

lemma finish_row_keys [simp]:
  "rcCommandID (finish_row now cid res r) = rcCommandID r" "record_key (finish_row now cid res r) = record_key r"
  by (simp_all add: finish_row_def record_key_def)

lemma finish_rows_keys [simp]:
  "map rcCommandID (map (finish_row now cid res) db) = map rcCommandID db"
  "map record_key (map (finish_row now cid res) db) = map record_key db"
  by simp_all

lemma new_record_keys [simp]:
  "rcCommandID (new_record now cmd) = ceCommandID cmd" "record_key (new_record now cmd) = command_key cmd"
  by (simp_all add: new_record_def record_key_def command_key_def Let_def)

lemma FinishCommand_table:
  "fst (FinishCommand q now cid res db) = db \<or> fst (FinishCommand q now cid res db) = map (finish_row now cid res) db"
  by (simp add: FinishCommand_def)

lemma insert_record_cases:
  assumes "insert_record q r db = (db', ok)"
  obtains "db' = db" "\<not> ok" | "db' = db @ [r]" "may_insert r db"
  using assms by (auto simp: insert_record_def split: if_splits)

lemma may_insert_fresh:
  "may_insert r db \<Longrightarrow> rcCommandID r \<notin> rcCommandID ` set db"
  "may_insert r db \<Longrightarrow> keyed (record_key r) \<Longrightarrow> record_key r \<notin> record_key ` set db"
  by (simp_all add: may_insert_def record_by_id_None record_by_key_None) (simp add: record_key_def)

lemma table_wf_insert: "table_wf db \<Longrightarrow> may_insert r db \<Longrightarrow> table_wf (db @ [r])"
  using may_insert_fresh [of r db] by (auto simp: table_wf_def)

section \<open>Interleavings\<close>

text \<open>What is executed is in the table, no identifier and no idempotency key twice.\<close>

definition go_inv :: "(nat \<Rightarrow> CommandEnvelope) \<Rightarrow> go_state \<Rightarrow> bool" where
  "go_inv cmds s \<longleftrightarrow>
     table_wf (gsTable s)
   \<and> distinct (map (ceCommandID \<circ> cmds) (gsExecuted s))
   \<and> distinct (filter keyed (map (command_key \<circ> cmds) (gsExecuted s)))
   \<and> (\<forall>t \<in> set (gsExecuted s). ceCommandID (cmds t) \<in> rcCommandID ` set (gsTable s)
         \<and> command_key (cmds t) \<in> record_key ` set (gsTable s))"

lemma go_inv_table:
  "go_inv cmds s \<Longrightarrow> map rcCommandID (gsTable s') = map rcCommandID (gsTable s)
    \<Longrightarrow> map record_key (gsTable s') = map record_key (gsTable s) \<Longrightarrow> gsExecuted s' = gsExecuted s \<Longrightarrow> go_inv cmds s'"
  unfolding go_inv_def table_wf_def by (simp flip: set_map)

lemma go_inv_insert:
  assumes inv: "go_inv cmds s" and new: "may_insert (new_record now (cmds t)) (gsTable s)"
    and db: "gsTable s' = gsTable s @ [new_record now (cmds t)]"
    and ex: "gsExecuted s' = gsExecuted s \<or> gsExecuted s' = gsExecuted s @ [t]"
  shows "go_inv cmds s'"
proof -
  note fresh = may_insert_fresh [OF new, simplified]
  have id: "ceCommandID (cmds t) \<notin> (ceCommandID \<circ> cmds) ` set (gsExecuted s)"
    using inv fresh(1) by (auto simp: go_inv_def)
  have key: "command_key (cmds t) \<notin> (command_key \<circ> cmds) ` set (gsExecuted s)" if "keyed (command_key (cmds t))"
    using inv fresh(2) that by (auto simp: go_inv_def)
  have "table_wf (gsTable s')" using inv table_wf_insert [OF _ new] db by (simp add: go_inv_def)
  with inv db ex id key show ?thesis by (auto simp: go_inv_def)
qed

lemma go_inv_go_to [simp]: "go_inv cmds (go_to t p s) = go_inv cmds s"
  by (simp add: go_inv_def go_to_def)

lemma go_step_inv: "go_step cmds s s' \<Longrightarrow> go_inv cmds s \<Longrightarrow> go_inv cmds s'"
proof (induction rule: go_step.induct)
  case (insert_ok s t q now db)
  from insert_ok(2) show ?case
  proof (rule insert_record_cases)
    assume db: "db = gsTable s @ [new_record now (cmds t)]" and m: "may_insert (new_record now (cmds t)) (gsTable s)"
    show ?thesis by (rule go_inv_insert [OF insert_ok.prems m]) (simp_all add: db go_to_def)
  qed simp
next
  case (insert_failed s t q now db)
  from insert_failed(2) show ?case
  proof (rule insert_record_cases)
    assume db: "db = gsTable s"
    show ?thesis by (rule go_inv_table [OF insert_failed.prems]) (simp_all add: db go_to_def)
  next
    assume db: "db = gsTable s @ [new_record now (cmds t)]" and m: "may_insert (new_record now (cmds t)) (gsTable s)"
    show ?thesis by (rule go_inv_insert [OF insert_failed.prems m]) (simp_all add: db go_to_def)
  qed
next
  case (finish s t res q now db r c)
  then have "db = gsTable s \<or> db = map (finish_row now (ceCommandID (cmds t)) res) (gsTable s)"
    using FinishCommand_table [of q now "ceCommandID (cmds t)" res "gsTable s"] by simp
  then have "map rcCommandID db = map rcCommandID (gsTable s)" "map record_key db = map record_key (gsTable s)"
    by (metis finish_rows_keys(1), metis finish_rows_keys(2))
  then show ?case by (intro go_inv_table [OF finish.prems]) (simp_all add: go_to_def)
qed (simp_all add: go_inv_go_to)

lemma go_run_inv: "(go_step cmds)\<^sup>*\<^sup>* s s' \<Longrightarrow> go_inv cmds s \<Longrightarrow> go_inv cmds s'"
  by (induction rule: rtranclp_induct) (auto intro: go_step_inv)

lemma go_inv_start: "table_wf db \<Longrightarrow> go_inv cmds (go_start jsonValid cmds db)"
  by (simp add: go_inv_def go_start_def)

text \<open>
  C7. A command runs at most once: however concurrent calls interleave at the database, and whichever
  statements fail or lose their reply, no two calls execute the same command identifier, nor the same
  non-empty idempotency key of one project and command type.
\<close>

theorem command_executes_at_most_once:
  assumes "table_wf db" and "(go_step cmds)\<^sup>*\<^sup>* (go_start jsonValid cmds db) s"
  shows "distinct (map (ceCommandID \<circ> cmds) (gsExecuted s))
    \<and> distinct (filter keyed (map (command_key \<circ> cmds) (gsExecuted s)))"
  using go_run_inv [OF assms(2) go_inv_start [OF assms(1)]] by (simp add: go_inv_def)

section \<open>Replay\<close>

lemma finish_row_terminal: "terminalCommandStatus (rcStatus r) \<Longrightarrow> finish_row now cid res r = r"
  by (simp add: finish_row_def terminalCommandStatus_def)

lemma terminal_step:
  assumes "go_step cmds s s'" "r \<in> set (gsTable s)" "terminalCommandStatus (rcStatus r)"
  shows "r \<in> set (gsTable s')"
  using assms
proof (induction rule: go_step.induct)
  case (insert_ok s t q now db)
  then show ?case by (auto elim!: insert_record_cases)
next
  case (insert_failed s t q now db)
  then show ?case by (auto elim!: insert_record_cases)
next
  case (finish s t res q now db x c)
  have "db = gsTable s \<or> db = map (finish_row now (ceCommandID (cmds t)) res) (gsTable s)"
    using FinishCommand_table [of q now "ceCommandID (cmds t)" res "gsTable s"] finish(2) by simp
  moreover have "r \<in> set (map (finish_row now (ceCommandID (cmds t)) res) (gsTable s))"
    using finish.prems finish_row_terminal [of r] unfolding set_map image_iff by metis
  ultimately show ?case using finish.prems(1) by auto
qed (simp_all add: go_to_def)

lemma terminal_run:
  "(go_step cmds)\<^sup>*\<^sup>* s s' \<Longrightarrow> r \<in> set (gsTable s) \<Longrightarrow> terminalCommandStatus (rcStatus r) \<Longrightarrow> r \<in> set (gsTable s')"
  by (induction rule: rtranclp_induct) (auto intro: terminal_step)

text \<open>
  A replay answers with the first result: once a command's record is terminal with result \<open>res\<close>, every
  later call with its identifier whose lookup reads the table ends with \<open>res\<close> and does not execute,
  whatever happened in between.
\<close>

theorem replay_returns_stored:
  assumes "table_wf db" and "(go_step cmds)\<^sup>*\<^sup>* (go_start jsonValid cmds db) s" and "(go_step cmds)\<^sup>*\<^sup>* s s'"
    and "r \<in> set (gsTable s)" and "terminalCommandStatus (rcStatus r)" and "rcResult r = Some res"
    and "ceCommandID cmd = rcCommandID r"
  shows "on_lookup c cid code nxt (FindCommandRecord SqlOk q cmd (gsTable s')) = GDone res"
proof -
  have "r \<in> set (gsTable s')" by (rule terminal_run [OF assms(3-5)])
  moreover have "go_inv cmds s'"
    by (rule go_run_inv [OF rtranclp_trans [OF assms(2,3)] go_inv_start [OF assms(1)]])
  ultimately have "record_by_id (rcCommandID r) (gsTable s') = Some r"
    by (intro record_by_id_Some) (simp_all add: go_inv_def table_wf_def)
  then show ?thesis
    using assms(5-7) by (simp add: FindCommandRecord_def on_lookup_def duplicateResult_def StoredCommandResult_def)
qed

section \<open>Concrete runs\<close>

definition demo_cmd_id :: string where
  "demo_cmd_id = replicate 36 CHR ''7''"

definition demo_command :: CommandEnvelope where
  "demo_command =
     \<lparr>ceCommandID = demo_cmd_id, ceCommandType = ''cue.go'', ceSchemaVersion = 1, ceIssuedAt = demo_start,
      ceDeadlineAt = None, ceProjectID = ''p'', ceRuntimeSnapshotID = ''snap'', ceIssuer = ''op'', ceCorrelationID = [],
      ceCausationID = [], cePriority = ''P1'', ceIdempotencyKey = ''k'', cePayload = ''{}''\<rparr>"

definition demo_result :: CommandResult where
  "demo_result = \<lparr>resCommandID = demo_cmd_id, resStatus = CommandCompleted, resPayload = ''{}'', resError = None\<rparr>"

definition demo_go :: "go_pc \<Rightarrow> command_table \<Rightarrow> nat list \<Rightarrow> go_state" where
  "demo_go p db ex = \<lparr>gsTable = db, gsPc = (\<lambda>_. GFind)(0 := p), gsExecuted = ex\<rparr>"

definition demo_row :: CommandRecord where
  "demo_row = new_record demo_start demo_command"

definition demo_done :: CommandRecord where
  "demo_done = finish_row demo_start demo_cmd_id demo_result demo_row"

lemmas demo_go_defs = demo_go_def demo_row_def demo_done_def demo_command_def demo_result_def

lemma demo_go_start: "go_start (\<lambda>_. True) (\<lambda>_. demo_command) [] = demo_go GFind [] []"
proof -
  have "trim_space demo_cmd_id \<noteq> []"
    by (simp add: demo_cmd_id_def numeral_eq_Suc trim_eval)
  then have "validateEnvelope (\<lambda>_. True) demo_command = None"
    by (simp add: validateEnvelope_def demo_command_def CueGoCommandType_def SchemaVersion1_def trim_eval)
  then show ?thesis by (auto simp: go_start_def demo_go_def)
qed

lemma demo_go_run:
  "(go_step (\<lambda>_. demo_command))\<^sup>*\<^sup>* (demo_go GFind [] []) (demo_go (GDone demo_result) [demo_done] [0])"
proof -
  let ?S = "go_step (\<lambda>_. demo_command)"
  have lookup: "FindCommandRecord SqlOk SqlOk demo_command [] = Inr None"
    by (simp add: FindCommandRecord_def record_by_id_def record_by_key_def)
  have 1: "?S (demo_go GFind [] []) (demo_go GReserve [] [])"
    using go_step.find [of "demo_go GFind [] []" 0 "\<lambda>_. demo_command" False SqlOk SqlOk]
    by (simp add: demo_go_def lookup on_lookup_def go_to_def)
  have 2: "?S (demo_go GReserve [] []) (demo_go GInsert [] [])"
    using go_step.reserve [of "demo_go GReserve [] []" 0 "\<lambda>_. demo_command" False SqlOk SqlOk]
    by (simp add: demo_go_def lookup on_lookup_def go_to_def)
  have ins: "insert_record SqlOk demo_row [] = ([demo_row], True)"
    by (simp add: insert_record_def may_insert_def demo_row_def new_record_def demo_command_def demo_cmd_id_def
        record_by_id_def record_by_key_def Let_def)
  have 3: "?S (demo_go GInsert [] []) (demo_go GExecute [demo_row] [0])"
    using go_step.insert_ok [of "demo_go GInsert [] []" 0 SqlOk demo_start "\<lambda>_. demo_command" "[demo_row]"] ins
    by (simp add: demo_go_def go_to_def demo_row_def)
  have 4: "?S (demo_go GExecute [demo_row] [0]) (demo_go (GFinish demo_result) [demo_row] [0])"
    using go_step.execute [of "demo_go GExecute [demo_row] [0]" 0 "\<lambda>_. demo_command" demo_result]
    by (simp add: demo_go_def go_to_def)
  have fin: "FinishCommand SqlOk demo_start demo_cmd_id demo_result [demo_row] = ([demo_done], Inr ())"
    by (simp add: FinishCommand_def demo_done_def demo_row_def new_record_def demo_command_def Let_def)
  have 5: "?S (demo_go (GFinish demo_result) [demo_row] [0]) (demo_go (GDone demo_result) [demo_done] [0])"
    using go_step.finish [of "demo_go (GFinish demo_result) [demo_row] [0]" 0 demo_result SqlOk demo_start
        "\<lambda>_. demo_command" "[demo_done]" "Inr ()" False] fin
    by (simp add: demo_go_def go_to_def demo_command_def)
  from 1 2 3 4 5 show ?thesis by (meson rtranclp.rtrancl_into_rtrancl rtranclp.rtrancl_refl)
qed

theorem command_executes_at_most_once_witness:
  "distinct (map (ceCommandID \<circ> (\<lambda>_. demo_command)) (gsExecuted (demo_go (GDone demo_result) [demo_done] [0])))"
proof -
  have "table_wf []" by (simp add: table_wf_def)
  from command_executes_at_most_once [OF this demo_go_run [folded demo_go_start]] show ?thesis by blast
qed

theorem replay_returns_stored_witness:
  "on_lookup False demo_cmd_id ''COMMAND_LOOKUP_FAILED'' GReserve
     (FindCommandRecord SqlOk SqlOk demo_command (gsTable (demo_go (GDone demo_result) [demo_done] [0]))) = GDone demo_result"
proof -
  have wf: "table_wf []" by (simp add: table_wf_def)
  show ?thesis
    by (rule replay_returns_stored [OF wf demo_go_run [folded demo_go_start] rtranclp.rtrancl_refl, of demo_done])
      (simp_all add: demo_go_def demo_done_def demo_row_def finish_row_def new_record_def demo_command_def
        demo_result_def terminalCommandStatus_def Let_def)
qed

end
