(* ===== verification/CueEngine.thy ===== *)
theory CueEngine
  imports Capability CommandStore "HOL-Library.Sublist"
begin

text \<open>
  The cue engine of \<open>internal/cueengine/engine.go\<close> and \<open>group.go\<close>: which cue a \<open>cue.go\<close> command selects,
  how the actions of a cue run (in sequence, in parallel, up to a barrier), how the branches of a cue
  group are combined, and the whole of \<open>executeReserved\<close> with the rows it writes. JSON decoding, fresh
  identifiers and what the executors answer are parameters; a database statement behaves as its \<open>sql\<close> says.
\<close>

section \<open>Selecting a cue\<close>

definition cues_from :: "string \<Rightarrow> ('a CueHead_scheme) list \<Rightarrow> ('a CueHead_scheme) list option" where
  "cues_from current cues =
     (if current = [] then Some cues
      else case dropWhile (\<lambda>c. cueID c \<noteq> current) cues of [] \<Rightarrow> None | _ # rest \<Rightarrow> Some rest)"

text \<open>\<open>msg\<close> is the text of a group error. Rejections carry no command identifier yet.\<close>

definition selectCue :: "policy_decoder \<Rightarrow> (group_error \<Rightarrow> string) \<Rightarrow> ('a CueHead_scheme) list \<Rightarrow> string option
    \<Rightarrow> CueGoPayload \<Rightarrow> CommandResult + 'a CueHead_scheme" where
  "selectCue um msg cues currentCueID payload =
     (let current = (case currentCueID of None \<Rightarrow> [] | Some c \<Rightarrow> c) in
      if (case ExpectedCurrentCueID payload of None \<Rightarrow> False | Some e \<Rightarrow> e \<noteq> current)
      then Inl (rejection [] ''CURRENT_CUE_MISMATCH'' ''VALIDATION''
             ''expected current cue does not match session state'' False current)
      else case RequestedNextCueID payload of
        Some requested \<Rightarrow>
          (case find (\<lambda>c. cueID c = requested) cues of
             Some cue \<Rightarrow>
               if \<not> cueEnabled cue
               then Inl (rejection [] ''CUE_DISABLED'' ''SAFETY_BLOCK'' ''requested cue is disabled'' False (cueID cue))
               else Inr cue
           | None \<Rightarrow>
               Inl (rejection [] ''CUE_NOT_IN_SNAPSHOT'' ''SNAPSHOT_MISMATCH''
                 ''requested cue is not present in runtime snapshot'' False requested))
      | None \<Rightarrow>
          (case nestedCueIDs um cues of
             Inl e \<Rightarrow> Inl (rejection [] ''CUE_GROUP_INVALID'' ''VALIDATION'' (msg e) False [])
           | Inr nested \<Rightarrow>
             (case cues_from current cues of
                None \<Rightarrow>
                  Inl (rejection [] ''CURRENT_CUE_NOT_IN_SNAPSHOT'' ''SNAPSHOT_MISMATCH''
                    ''session current cue is not present in runtime snapshot'' False current)
              | Some rest \<Rightarrow>
                (case find (\<lambda>c. cueEnabled c \<and> \<not> nested (cueID c)) rest of
                   Some cue \<Rightarrow> Inr cue
                 | None \<Rightarrow>
                     Inl (rejection [] ''NO_NEXT_CUE'' ''VALIDATION''
                       ''no enabled top-level next Cue is available'' False [])))))"

section \<open>Actions\<close>

record actionOutcome =
  aoResult :: ExecutionResult
  aoFatal :: bool
  aoEventID :: string
  aoErr :: bool

text \<open>\<open>actionContext\<close>: the timeout a policy asks for (0 is none); a policy that does not decode or is negative fails.\<close>

definition actionContext :: "(string \<Rightarrow> int option) \<Rightarrow> string \<Rightarrow> int option" where
  "actionContext umTimeout raw =
     (if raw = [] \<or> raw = ''{}'' then Some 0
      else case umTimeout raw of
        None \<Rightarrow> None
      | Some ms \<Rightarrow> if ms < 0 then None else if ms = 0 then Some 0 else Some ms)"

text \<open>\<open>umError\<close> decodes an error policy to its \<open>on_error\<close> text. The second component says that the policy is bad.\<close>

definition actionFailureIsFatal :: "(string \<Rightarrow> string option) \<Rightarrow> string \<Rightarrow> ExecutionResult \<Rightarrow> bool \<times> bool" where
  "actionFailureIsFatal umError raw result =
     (if result = ExecutionCompleted then (False, False)
      else if result = ExecutionCancelled then (True, False)
      else case (if raw = [] then Some [] else umError raw) of
        None \<Rightarrow> (True, True)
      | Some text \<Rightarrow>
        (let onError = to_upper (trim_space text)
         in if onError = [] \<or> onError = ''CONTINUE'' then (False, False)
            else if onError = ''FAIL_CUE'' then (True, False)
            else (True, True)))"

text \<open>
  \<open>runAction\<close>: the executor's answer (not asked when the timeout policy is bad), whether the result could be
  stored, and the event that was emitted, if it could be.
\<close>

definition runAction :: "(string \<Rightarrow> int option) \<Rightarrow> (string \<Rightarrow> string option) \<Rightarrow> (Action \<Rightarrow> int \<Rightarrow> CapResult)
    \<Rightarrow> (Action \<Rightarrow> bool) \<Rightarrow> (Action \<Rightarrow> string option) \<Rightarrow> Action \<Rightarrow> actionOutcome" where
  "runAction umTimeout umError execute finished emitted action =
     (let result = (case actionContext umTimeout (actTimeoutPolicy action) of
            None \<Rightarrow> ExecutionFailed
          | Some timeoutMS \<Rightarrow> cpResult (execute action timeoutMS))
      in if \<not> finished action then \<lparr>aoResult = ExecutionFailed, aoFatal = True, aoEventID = [], aoErr = True\<rparr>
         else case emitted action of
           None \<Rightarrow> \<lparr>aoResult = ExecutionFailed, aoFatal = True, aoEventID = [], aoErr = True\<rparr>
         | Some eventID \<Rightarrow>
           (case actionFailureIsFatal umError (actErrorPolicy action) result of
              (_, True) \<Rightarrow> \<lparr>aoResult = ExecutionFailed, aoFatal = True, aoEventID = eventID, aoErr = True\<rparr>
            | (fatal, False) \<Rightarrow> \<lparr>aoResult = result, aoFatal = fatal, aoEventID = eventID, aoErr = False\<rparr>))"

section \<open>Running the actions of a cue\<close>

text \<open>The answer: the result, the last event, and whether the run broke off with an error.\<close>

type_synonym run_result = "ExecutionResult \<times> string \<times> bool"

fun wait_loop :: "ExecutionResult \<Rightarrow> string \<Rightarrow> actionOutcome list \<Rightarrow> run_result" where
  "wait_loop final lst [] = (final, lst, False)"
| "wait_loop final lst (item # pending) =
     (if aoErr item then (ExecutionFailed, lst, True)
      else wait_loop (if aoFatal item \<and> final = ExecutionCompleted then aoResult item else final) (aoEventID item) pending)"

definition waitPending :: "string \<Rightarrow> actionOutcome list \<Rightarrow> run_result" where
  "waitPending lastEventID pending = wait_loop ExecutionCompleted lastEventID pending"

text \<open>
  \<open>start\<close> stores an action's execution and emits \<open>action.started\<close> (\<open>None\<close> when either fails); \<open>outcome\<close> is
  what \<open>runAction\<close> yields. The last component lists the actions that were started, in order.
\<close>

fun exec_actions :: "(Action \<Rightarrow> string option) \<Rightarrow> (Action \<Rightarrow> actionOutcome) \<Rightarrow> Action list \<Rightarrow> actionOutcome list
    \<Rightarrow> string \<Rightarrow> Action list \<Rightarrow> run_result \<times> Action list" where
  "exec_actions start outcome [] pending lastEventID started =
     (case waitPending lastEventID pending of
        (res, lst, err) \<Rightarrow>
          if err then ((ExecutionFailed, lst, True), started)
          else ((res, if lst \<noteq> [] then lst else lastEventID, False), started))"
| "exec_actions start outcome (action # actions) pending lastEventID started =
     (if \<not> actEnabled action then exec_actions start outcome actions pending lastEventID started
      else
        let mode = to_upper (actExecutionMode action) in
        if mode = ''PARALLEL'' then
          (case start action of
             None \<Rightarrow> ((ExecutionFailed, lastEventID, True), started)
           | Some ev \<Rightarrow> exec_actions start outcome actions (pending @ [outcome action]) ev (started @ [action]))
        else if mode = ''PARALLEL_BARRIER'' then
          (case start action of
             None \<Rightarrow> ((ExecutionFailed, lastEventID, True), started)
           | Some ev \<Rightarrow>
             (case waitPending ev (pending @ [outcome action]) of
                (res, lst, err) \<Rightarrow>
                  if err then ((ExecutionFailed, lst, True), started @ [action])
                  else if res \<noteq> ExecutionCompleted then ((res, lst, False), started @ [action])
                  else exec_actions start outcome actions [] lst (started @ [action])))
        else if mode = ''SEQUENTIAL'' \<or> mode = [] then
          (case start action of
             None \<Rightarrow> ((ExecutionFailed, lastEventID, True), started)
           | Some ev \<Rightarrow>
             (let o1 = outcome action in
              if aoErr o1 then ((ExecutionFailed, lastEventID, True), started @ [action])
              else if aoFatal o1 then
                (case waitPending (aoEventID o1) pending of
                   (res, lst, err) \<Rightarrow>
                     if err then ((ExecutionFailed, lst, True), started @ [action])
                     else
                       let lastEventID' = (if lst \<noteq> [] then lst else aoEventID o1) in
                       if res \<noteq> ExecutionCompleted \<and> aoResult o1 = ExecutionCompleted
                       then ((res, lastEventID', False), started @ [action])
                       else ((aoResult o1, lastEventID', False), started @ [action]))
              else exec_actions start outcome actions pending (aoEventID o1) (started @ [action])))
        else ((ExecutionFailed, lastEventID, True), started))"

definition executeActions :: "(Action \<Rightarrow> string option) \<Rightarrow> (Action \<Rightarrow> actionOutcome) \<Rightarrow> string \<Rightarrow> Action list
    \<Rightarrow> run_result \<times> Action list" where
  "executeActions start outcome cueStartedEventID actions =
     exec_actions start outcome actions [] cueStartedEventID []"

section \<open>Cue groups\<close>

text \<open>
  One branch of \<open>executeCueGroup\<close>: the cue waits for its start delay, unless the context or STOP ends the
  wait, then runs its actions. \<open>delayed\<close> says how the wait ended, \<open>stopped\<close> and \<open>cancelled\<close> what holds
  after it.
\<close>

datatype delay_end = DelayElapsed | DelayCancelled | DelayStopped

record branch_env =
  beDelay :: delay_end
  beStopped :: bool
  beCancelled :: bool
  beStart :: "Action \<Rightarrow> string option"
  beOutcome :: "Action \<Rightarrow> actionOutcome"

definition run_branch :: "branch_env \<Rightarrow> Policy \<Rightarrow> string \<Rightarrow> Action list \<Rightarrow> run_result" where
  "run_branch env policy cueStartedEventID actions =
     (if StartDelayMS policy > 0 \<and> beDelay env \<noteq> DelayElapsed then (ExecutionCancelled, cueStartedEventID, False)
      else if beStopped env then (ExecutionCancelled, cueStartedEventID, False)
      else if beCancelled env then (ExecutionCancelled, cueStartedEventID, False)
      else fst (executeActions (beStart env) (beOutcome env) cueStartedEventID actions))"

text \<open>The results in the order they arrive; an error ends the collection.\<close>

fun collect_branches :: "ExecutionResult \<Rightarrow> string \<Rightarrow> run_result list \<Rightarrow> run_result" where
  "collect_branches final lst [] = (final, lst, False)"
| "collect_branches final lst ((result, eventID, err) # branches) =
     (if err then (ExecutionFailed, lst, True)
      else collect_branches (worseCueGroupResult final result) (if eventID \<noteq> [] then eventID else lst) branches)"

text \<open>
  \<open>executeCueGroup\<close>: a policy that does not parse ends it before its branch and the later ones start;
  otherwise the branches run and \<open>arrive\<close> is the order in which their results come in.
\<close>

definition executeCueGroup :: "policy_decoder \<Rightarrow> (nat \<Rightarrow> branch_env) \<Rightarrow> (run_result list \<Rightarrow> run_result list)
    \<Rightarrow> string \<Rightarrow> Cue list \<Rightarrow> run_result" where
  "executeCueGroup um env arrive cueStartedEventID cues =
     (if cues = [] then (ExecutionCompleted, cueStartedEventID, False)
      else if list_ex (\<lambda>c. case ParsePolicy um (cueExecutionPolicy c) of Inl _ \<Rightarrow> True | Inr _ \<Rightarrow> False) cues
      then (ExecutionFailed, cueStartedEventID, True)
      else
        collect_branches ExecutionCompleted cueStartedEventID
          (arrive (map (\<lambda>(i, c). case ParsePolicy um (cueExecutionPolicy c) of
               Inr policy \<Rightarrow> run_branch (env i) policy cueStartedEventID (cueActions c)
             | Inl _ \<Rightarrow> (ExecutionFailed, cueStartedEventID, True)) (enumerate 0 cues))))"

section \<open>The rows the engine writes\<close>

record SnapshotRow =
  rsID :: string
  rsPublished :: bool
  rsManifest :: string

record CueExecutionRow =
  cxID :: string
  cxSessionID :: string
  cxCueID :: string
  cxResult :: ExecutionResult

record EventRow =
  evID :: string
  evType :: string
  evCausationID :: string

record engine_db =
  edSessions :: "Session list"
  edSnapshots :: "SnapshotRow list"
  edCueExecutions :: "CueExecutionRow list"
  edEvents :: "EventRow list"

definition GetSession :: "sql \<Rightarrow> string \<Rightarrow> engine_db \<Rightarrow> Session option" where
  "GetSession q sid db = (if q \<noteq> SqlOk then None else find (\<lambda>s. sesID s = sid) (edSessions db))"

definition HasRunningCueExecution :: "sql \<Rightarrow> string \<Rightarrow> engine_db \<Rightarrow> bool option" where
  "HasRunningCueExecution q sid db =
     (if q \<noteq> SqlOk then None
      else Some (list_ex (\<lambda>x. cxSessionID x = sid \<and> cxResult x = ExecutionRunning) (edCueExecutions db)))"

definition GetRuntimeSnapshot :: "sql \<Rightarrow> string \<Rightarrow> engine_db \<Rightarrow> SnapshotRow option" where
  "GetRuntimeSnapshot q sid db = (if q \<noteq> SqlOk then None else find (\<lambda>r. rsID r = sid) (edSnapshots db))"

definition CreateCueExecution :: "sql \<Rightarrow> string \<Rightarrow> string \<Rightarrow> string \<Rightarrow> engine_db \<Rightarrow> engine_db \<times> string option" where
  "CreateCueExecution q newID sid cid db =
     (let row = \<lparr>cxID = newID, cxSessionID = sid, cxCueID = cid, cxResult = ExecutionRunning\<rparr> in
      if q = SqlFail \<or> list_ex (\<lambda>x. cxID x = newID) (edCueExecutions db) then (db, None)
      else (db\<lparr>edCueExecutions := edCueExecutions db @ [row]\<rparr>, if q = SqlReplyLost then None else Some newID))"

definition AppendEvent :: "sql \<Rightarrow> string \<Rightarrow> string \<Rightarrow> string \<Rightarrow> engine_db \<Rightarrow> engine_db \<times> string option" where
  "AppendEvent q newID ty causation db =
     (if q = SqlFail then (db, None)
      else (db\<lparr>edEvents := edEvents db @ [\<lparr>evID = newID, evType = ty, evCausationID = causation\<rparr>]\<rparr>,
            if q = SqlReplyLost then None else Some newID))"

text \<open>\<open>inRevision\<close> is the \<open>EXISTS\<close> clause: the cue belongs to the revision of the session's snapshot.\<close>

definition SetSessionCurrentCue :: "(Session \<Rightarrow> string \<Rightarrow> bool) \<Rightarrow> sql \<Rightarrow> string \<Rightarrow> string \<Rightarrow> engine_db \<Rightarrow> engine_db \<times> bool" where
  "SetSessionCurrentCue inRevision q sid cid db =
     (let hit = (\<lambda>s. sesID s = sid \<and> sesStatus s = SessionActive \<and> inRevision s cid) in
      if q = SqlFail then (db, False)
      else (db\<lparr>edSessions := map (\<lambda>s. if hit s then s\<lparr>sesCurrentCueID := Some cid\<rparr> else s) (edSessions db)\<rparr>,
            q = SqlOk \<and> length (filter hit (edSessions db)) = 1))"

definition finish_execution_row :: "string \<Rightarrow> ExecutionResult \<Rightarrow> CueExecutionRow \<Rightarrow> CueExecutionRow" where
  "finish_execution_row xid res x =
     (if cxID x = xid \<and> cxResult x = ExecutionRunning then x\<lparr>cxResult := res\<rparr> else x)"

definition FinishCueExecution :: "sql \<Rightarrow> string \<Rightarrow> ExecutionResult \<Rightarrow> engine_db \<Rightarrow> engine_db \<times> bool" where
  "FinishCueExecution q xid res db =
     (if res = ExecutionRunning \<or> q = SqlFail then (db, False)
      else (db\<lparr>edCueExecutions := map (finish_execution_row xid res) (edCueExecutions db)\<rparr>,
            q = SqlOk
            \<and> length (filter (\<lambda>x. cxID x = xid \<and> cxResult x = ExecutionRunning) (edCueExecutions db)) = 1))"

section \<open>Executing a reserved command\<close>

text \<open>The statements in the order \<open>executeReserved\<close> issues them; \<open>QAbandon\<close> marks the execution failed on an error path.\<close>

datatype statement = QSession | QRunning | QSnapshot | QCreate | QStarted | QCurrent | QAbandon | QFinish | QResult

text \<open>A row of \<open>ListActionExecutions\<close>, as far as the report of the failed action reads it.\<close>

record ActionReport =
  arID :: string
  arActionID :: string
  arResult :: ExecutionResult
  arSummary :: string
  arErrorCode :: "string option"

record engine_env =
  eeUm :: policy_decoder
  eeMsg :: "group_error \<Rightarrow> string"
  eeManifest :: "string \<Rightarrow> Cue list option"
  eePayload :: "string \<Rightarrow> CueGoPayload option"
  eeConcurrent :: bool
  eeInRevision :: "Session \<Rightarrow> string \<Rightarrow> bool"
  eeFault :: "statement \<Rightarrow> sql"
  eeCancelled :: bool
  eeExecutionID :: string
  eeStartedID :: string
  eeResultID :: string
  eeGroup :: "string \<Rightarrow> Cue list \<Rightarrow> run_result"
  eeOthers :: "engine_db \<Rightarrow> engine_db"
  eeReports :: "ActionReport list option"
  eeEncode :: "string \<Rightarrow> string \<Rightarrow> string list \<Rightarrow> ExecutionResult \<Rightarrow> (ActionReport \<times> string \<times> string) option \<Rightarrow> string"

definition failed_action :: "ActionReport list \<Rightarrow> (ActionReport \<times> string \<times> string) option" where
  "failed_action reports =
     (case find (\<lambda>r. arResult r \<noteq> ExecutionCompleted) (rev reports) of
        None \<Rightarrow> None
      | Some r \<Rightarrow>
        (let code = (case arErrorCode r of
               Some c \<Rightarrow> (if trim_space c \<noteq> [] then trim_space c else ''CUE_ACTION_FAILED'')
             | None \<Rightarrow> ''CUE_ACTION_FAILED'');
             message = (if trim_space (arSummary r) = [] then ''Cue action failed'' else trim_space (arSummary r))
         in Some (r, code, message)))"

definition command_status :: "ExecutionResult \<Rightarrow> CommandStatus" where
  "command_status r =
     (if r = ExecutionCompleted then CommandCompleted
      else if r = ExecutionTimedOut then CommandTimedOut
      else if r = ExecutionCancelled then CommandCancelled
      else CommandFailed)"

definition cue_event_type :: "ExecutionResult \<Rightarrow> string" where
  "cue_event_type r = (if r = ExecutionCompleted then ''cue.completed'' else ''cue.failed'')"

text \<open>The last part: the group ran with \<open>cueResult\<close>; store it, emit the event and build the result.\<close>

definition finish_reserved :: "engine_env \<Rightarrow> string \<Rightarrow> string \<Rightarrow> string list \<Rightarrow> string \<Rightarrow> run_result \<Rightarrow> engine_db
    \<Rightarrow> engine_db \<times> CommandResult" where
  "finish_reserved env cmdID selectedID linkedIDs startedID res db =
     (case res of (cueResult, lastEventID, err) \<Rightarrow>
        let fail = (\<lambda>code. internalFailure cmdID code (eeCancelled env)) in
        if err then (fst (FinishCueExecution (eeFault env QAbandon) (eeExecutionID env) ExecutionFailed db),
                     fail ''ACTION_EXECUTION_PERSISTENCE_FAILED'')
        else case FinishCueExecution (eeFault env QFinish) (eeExecutionID env) cueResult db of
          (db1, False) \<Rightarrow> (db1, fail ''CUE_EXECUTION_FINISH_FAILED'')
        | (db1, True) \<Rightarrow>
          (case AppendEvent (eeFault env QResult) (eeResultID env) (cue_event_type cueResult)
                  (if lastEventID = [] then startedID else lastEventID) db1 of
             (db2, None) \<Rightarrow> (db2, fail ''CUE_RESULT_EVENT_FAILED'')
           | (db2, Some _) \<Rightarrow>
             (let failed = (if cueResult \<noteq> ExecutionCompleted
                            then (case eeReports env of None \<Rightarrow> None | Some rs \<Rightarrow> failed_action rs) else None)
              in (db2, \<lparr>resCommandID = cmdID, resStatus = command_status cueResult,
                        resPayload = eeEncode env (eeExecutionID env) selectedID linkedIDs cueResult failed,
                        resError = map_option (\<lambda>(r, code, message).
                          \<lparr>errCode = code, errCategory = ''EXECUTION'', errMessage = message, errRetryable = False,
                           errAffectedEntityID = arActionID r\<rparr>) failed\<rparr>))))"

text \<open>
  The middle part, under \<open>advanceMu\<close>: store the execution, emit \<open>cue.started\<close> and advance the session. Then
  the lock is freed, other calls may write (\<open>eeOthers\<close>) while the group runs.
\<close>

definition launch_reserved :: "engine_env \<Rightarrow> string \<Rightarrow> string \<Rightarrow> Cue \<Rightarrow> Cue list \<Rightarrow> engine_db \<Rightarrow> engine_db \<times> CommandResult" where
  "launch_reserved env cmdID sid selected cues db =
     (let fail = (\<lambda>code. internalFailure cmdID code (eeCancelled env));
          abandon = (\<lambda>d. fst (FinishCueExecution (eeFault env QAbandon) (eeExecutionID env) ExecutionFailed d))
      in case CreateCueExecution (eeFault env QCreate) (eeExecutionID env) sid (cueID selected) db of
        (db1, None) \<Rightarrow> (db1, fail ''CUE_EXECUTION_CREATE_FAILED'')
      | (db1, Some _) \<Rightarrow>
        (case AppendEvent (eeFault env QStarted) (eeStartedID env) ''cue.started'' cmdID db1 of
           (db2, None) \<Rightarrow> (abandon db2, fail ''CUE_STARTED_EVENT_FAILED'')
         | (db2, Some startedID) \<Rightarrow>
           (case SetSessionCurrentCue (eeInRevision env) (eeFault env QCurrent) sid (cueID selected) db2 of
              (db3, False) \<Rightarrow> (abandon db3, fail ''CURRENT_CUE_UPDATE_FAILED'')
            | (db3, True) \<Rightarrow>
                finish_reserved env cmdID (cueID selected) (linkedCueIDs cues) startedID (eeGroup env startedID cues)
                  (eeOthers env db3))))"

definition executeReserved :: "engine_env \<Rightarrow> string \<Rightarrow> CommandEnvelope \<Rightarrow> engine_db \<Rightarrow> engine_db \<times> CommandResult" where
  "executeReserved env sid cmd db =
     (let cmdID = ceCommandID cmd;
          reject = (\<lambda>code cat msg ent. (db, rejection cmdID code cat msg False ent));
          fail = (\<lambda>code. (db, internalFailure cmdID code (eeCancelled env)))
      in case GetSession (eeFault env QSession) sid db of
        None \<Rightarrow> reject ''SESSION_NOT_FOUND'' ''VALIDATION'' ''session not found'' sid
      | Some session \<Rightarrow>
        if sesStatus session \<noteq> SessionActive
        then reject ''SESSION_NOT_ACTIVE'' ''VALIDATION'' ''session is not active'' sid
        else if sesProjectID session \<noteq> ceProjectID cmd
        then reject ''PROJECT_MISMATCH'' ''VALIDATION'' ''command project does not match session'' (ceProjectID cmd)
        else if sesRuntimeSnapshotID session \<noteq> ceRuntimeSnapshotID cmd
        then reject ''SNAPSHOT_MISMATCH'' ''SNAPSHOT_MISMATCH'' ''command snapshot does not match session''
               (ceRuntimeSnapshotID cmd)
        else if \<not> eeConcurrent env \<and> HasRunningCueExecution (eeFault env QRunning) sid db = None
        then fail ''RUNNING_EXECUTION_CHECK_FAILED''
        else if \<not> eeConcurrent env \<and> HasRunningCueExecution (eeFault env QRunning) sid db = Some True
        then reject ''UNRESOLVED_EXECUTION'' ''VALIDATION''
               ''session has an unresolved cue execution from an earlier runtime'' sid
        else case GetRuntimeSnapshot (eeFault env QSnapshot) (ceRuntimeSnapshotID cmd) db of
          None \<Rightarrow> reject ''SNAPSHOT_NOT_FOUND'' ''SNAPSHOT_MISMATCH'' ''runtime snapshot not found'' (ceRuntimeSnapshotID cmd)
        | Some snap \<Rightarrow>
          if \<not> rsPublished snap
          then reject ''SNAPSHOT_NOT_PUBLISHED'' ''SNAPSHOT_MISMATCH'' ''runtime snapshot is not published'' (rsID snap)
          else case eeManifest env (rsManifest snap) of
            None \<Rightarrow> fail ''SNAPSHOT_DECODE_FAILED''
          | Some cues \<Rightarrow>
            (case eePayload env (cePayload cmd) of
               None \<Rightarrow> reject ''INVALID_CUE_GO_PAYLOAD'' ''VALIDATION'' ''cue.go payload is invalid'' []
             | Some payload \<Rightarrow>
               (case selectCue (eeUm env) (eeMsg env) cues (sesCurrentCueID session) payload of
                  Inl res \<Rightarrow> (db, res\<lparr>resCommandID := cmdID\<rparr>)
                | Inr selected \<Rightarrow>
                  (case resolveCueGroup (eeUm env) cues selected of
                     Inl e \<Rightarrow> reject ''CUE_GROUP_INVALID'' ''VALIDATION'' (eeMsg env e) (cueID selected)
                   | Inr members \<Rightarrow> launch_reserved env cmdID sid selected members db))))"

section \<open>Actions: what runs, and when a cue completes\<close>

definition sound_outcome :: "actionOutcome \<Rightarrow> bool" where
  "sound_outcome o1 \<longleftrightarrow> (aoFatal o1 \<and> \<not> aoErr o1 \<longrightarrow> aoResult o1 \<noteq> ExecutionCompleted)"

definition good_outcome :: "actionOutcome \<Rightarrow> bool" where
  "good_outcome o1 \<longleftrightarrow> \<not> aoErr o1 \<and> \<not> aoFatal o1"

lemma fatal_not_completed: "actionFailureIsFatal umError raw r = (True, e) \<Longrightarrow> r \<noteq> ExecutionCompleted"
  by (auto simp: actionFailureIsFatal_def)

lemma runAction_sound: "sound_outcome (runAction umTimeout umError execute finished emitted a)"
proof -
  let ?r = "case actionContext umTimeout (actTimeoutPolicy a) of None \<Rightarrow> ExecutionFailed
     | Some timeoutMS \<Rightarrow> cpResult (execute a timeoutMS)"
  show ?thesis
    using fatal_not_completed [of umError "actErrorPolicy a" ?r]
    by (auto simp: runAction_def sound_outcome_def Let_def split: option.split bool.split prod.split)
qed

lemma wait_loop_completed:
  "list_all sound_outcome pending \<Longrightarrow> wait_loop final lst pending = (res, lst', err)
    \<Longrightarrow> (res = ExecutionCompleted \<and> \<not> err) \<longleftrightarrow> final = ExecutionCompleted \<and> list_all good_outcome pending"
proof (induction pending arbitrary: final lst)
  case (Cons item pending)
  show ?case
  proof (cases "aoErr item")
    case True
    with Cons.prems show ?thesis by (auto simp: good_outcome_def)
  next
    case False
    let ?final = "if aoFatal item \<and> final = ExecutionCompleted then aoResult item else final"
    have "(res = ExecutionCompleted \<and> \<not> err) \<longleftrightarrow> ?final = ExecutionCompleted \<and> list_all good_outcome pending"
      using Cons.prems False by (intro Cons.IH [of ?final "aoEventID item"]) simp_all
    moreover have "good_outcome item \<longleftrightarrow> \<not> aoFatal item" using False by (simp add: good_outcome_def)
    moreover have "aoFatal item \<Longrightarrow> aoResult item \<noteq> ExecutionCompleted"
      using Cons.prems(1) False by (simp add: sound_outcome_def)
    ultimately show ?thesis by auto
  qed
qed auto

definition supported_mode :: "Action \<Rightarrow> bool" where
  "supported_mode a \<longleftrightarrow> to_upper (actExecutionMode a) \<in> {''PARALLEL'', ''PARALLEL_BARRIER'', ''SEQUENTIAL'', []}"

definition good_action :: "(Action \<Rightarrow> string option) \<Rightarrow> (Action \<Rightarrow> actionOutcome) \<Rightarrow> Action \<Rightarrow> bool" where
  "good_action start outcome a \<longleftrightarrow> supported_mode a \<and> start a \<noteq> None \<and> good_outcome (outcome a)"

abbreviation enabled_actions :: "Action list \<Rightarrow> Action list" where
  "enabled_actions actions \<equiv> filter actEnabled actions"

lemma waitPending_completed:
  "list_all sound_outcome pending \<Longrightarrow> waitPending lst pending = (res, lst', err)
    \<Longrightarrow> (res = ExecutionCompleted \<and> \<not> err) \<longleftrightarrow> list_all good_outcome pending"
  using wait_loop_completed [of pending ExecutionCompleted lst res lst' err] by (simp add: waitPending_def)

definition exec_spec :: "(Action \<Rightarrow> string option) \<Rightarrow> (Action \<Rightarrow> actionOutcome) \<Rightarrow> Action list \<Rightarrow> actionOutcome list
    \<Rightarrow> Action list \<Rightarrow> run_result \<times> Action list \<Rightarrow> bool" where
  "exec_spec start outcome actions pending started r \<longleftrightarrow>
     (case r of ((res, _, err), executed) \<Rightarrow>
        ((res = ExecutionCompleted \<and> \<not> err) \<longleftrightarrow>
           list_all good_outcome pending \<and> list_all (good_action start outcome) (enabled_actions actions))
      \<and> (\<exists>now. executed = started @ now \<and> prefix now (enabled_actions actions)
           \<and> (res = ExecutionCompleted \<and> \<not> err \<longrightarrow> now = enabled_actions actions)))"

lemma exec_spec_skip:
  "\<not> actEnabled a \<Longrightarrow> exec_spec start outcome (a # actions) pending started r = exec_spec start outcome actions pending started r"
  by (simp add: exec_spec_def)

text \<open>A run that ends badly at an enabled action: it did not start, it was bad, or something pending was.\<close>

lemma exec_spec_stop:
  assumes "actEnabled a" "res \<noteq> ExecutionCompleted \<or> err"
    and "\<not> good_action start outcome a \<or> \<not> list_all good_outcome pending"
    and "executed = started \<or> executed = started @ [a]"
  shows "exec_spec start outcome (a # actions) pending started ((res, lst, err), executed)"
  using assms by (auto simp: exec_spec_def)

text \<open>A run that goes on after an enabled action.\<close>

lemma exec_spec_go_on:
  assumes "exec_spec start outcome actions pending' (started @ [a]) r" "actEnabled a"
    and "list_all good_outcome pending' \<longleftrightarrow> list_all good_outcome pending \<and> good_action start outcome a"
  shows "exec_spec start outcome (a # actions) pending started r"
proof -
  obtain res lst err executed where r: "r = ((res, lst, err), executed)" by (metis prod.collapse)
  from assms(1) obtain now where n: "executed = started @ a # now" "prefix now (enabled_actions actions)"
    "res = ExecutionCompleted \<and> \<not> err \<longrightarrow> now = enabled_actions actions"
    by (auto simp: exec_spec_def r)
  with assms show ?thesis by (auto simp: exec_spec_def r)
qed

lemma exec_actions_spec:
  assumes sound: "\<And>a. sound_outcome (outcome a)"
  shows "list_all sound_outcome pending
    \<Longrightarrow> exec_spec start outcome actions pending started (exec_actions start outcome actions pending lst started)"
proof (induction actions arbitrary: pending lst started)
  case Nil
  obtain res l err where w: "waitPending lst pending = (res, l, err)" by (metis prod.collapse)
  from waitPending_completed [OF Nil w] w show ?case by (simp add: exec_spec_def) auto
next
  case (Cons a actions)
  let ?o = "outcome a" and ?mode = "to_upper (actExecutionMode a)"
  show ?case
  proof (cases "actEnabled a")
    case False
    with Cons show ?thesis by (simp add: exec_spec_skip)
  next
    case en: True
    show ?thesis
    proof (cases "supported_mode a \<and> start a \<noteq> None")
      case False
      then have "exec_actions start outcome (a # actions) pending lst started = ((ExecutionFailed, lst, True), started)"
        using en by (auto simp: supported_mode_def Let_def split: option.split)
      with False show ?thesis by (auto intro!: exec_spec_stop [OF en] simp: good_action_def)
    next
      case True
      then obtain ev where ev: "start a = Some ev" by auto
      have ga: "good_action start outcome a \<longleftrightarrow> good_outcome ?o" using True by (simp add: good_action_def)
      consider (par) "?mode = ''PARALLEL''" | (bar) "?mode = ''PARALLEL_BARRIER''" | (seq) "?mode = ''SEQUENTIAL'' \<or> ?mode = []"
        using True by (auto simp: supported_mode_def)
      then show ?thesis
      proof cases
        case par
        have "exec_spec start outcome actions (pending @ [?o]) (started @ [a])
            (exec_actions start outcome actions (pending @ [?o]) ev (started @ [a]))"
          using Cons.prems sound by (intro Cons.IH) simp
        from exec_spec_go_on [OF this en, of pending] par en ev ga show ?thesis by simp
      next
        case bar
        have so: "list_all sound_outcome (pending @ [?o])" using Cons.prems sound by simp
        obtain res l err where w: "waitPending ev (pending @ [?o]) = (res, l, err)" by (metis prod.collapse)
        note wc = waitPending_completed [OF so w]
        show ?thesis
        proof (cases "err \<or> res \<noteq> ExecutionCompleted")
          case True
          with wc bar en ev w ga show ?thesis by (auto intro!: exec_spec_stop [OF en])
        next
          case False
          have "exec_spec start outcome actions [] (started @ [a]) (exec_actions start outcome actions [] l (started @ [a]))"
            by (intro Cons.IH) simp
          from exec_spec_go_on [OF this en, of pending] False wc bar en ev w ga show ?thesis by simp
        qed
      next
        case seq
        obtain res l err where w: "waitPending (aoEventID ?o) pending = (res, l, err)" by (metis prod.collapse)
        show ?thesis
        proof (cases "good_outcome ?o")
          case True
          have "exec_spec start outcome actions pending (started @ [a])
              (exec_actions start outcome actions pending (aoEventID ?o) (started @ [a]))"
            using Cons.prems by (rule Cons.IH)
          from exec_spec_go_on [OF this en, of pending] True seq en ev ga show ?thesis
            by (auto simp: good_outcome_def Let_def)
        next
          case False
          with sound [of a] have "aoErr ?o \<or> aoFatal ?o \<and> aoResult ?o \<noteq> ExecutionCompleted"
            by (auto simp: good_outcome_def sound_outcome_def)
          with seq en ev w False ga show ?thesis by (auto simp: Let_def intro!: exec_spec_stop [OF en])
        qed
      qed
    qed
  qed
qed

text \<open>
  C16. A cue completes exactly when each of its enabled actions has a supported mode, could be started and
  ended well (an error is well when its policy lets the cue continue); then all of them were started, in
  order. Otherwise the actions that were started are the first ones of the enabled actions.
\<close>

theorem actions_complete_iff:
  assumes "outcome = runAction umTimeout umError execute finished emitted"
    and "executeActions start outcome ev actions = ((res, lst, err), executed)"
  shows "((res = ExecutionCompleted \<and> \<not> err) \<longleftrightarrow>
           (\<forall>a \<in> set actions. actEnabled a \<longrightarrow>
              supported_mode a \<and> start a \<noteq> None \<and> \<not> aoErr (outcome a) \<and> \<not> aoFatal (outcome a)))
    \<and> prefix executed (enabled_actions actions)
    \<and> (res = ExecutionCompleted \<and> \<not> err \<longrightarrow> executed = enabled_actions actions)"
proof -
  have "exec_spec start outcome actions [] [] ((res, lst, err), executed)"
    using exec_actions_spec [of outcome "[]" start actions "[]" ev] runAction_sound assms
    by (simp add: executeActions_def)
  then show ?thesis
    by (auto simp: exec_spec_def list_all_iff good_action_def good_outcome_def)
qed

text \<open>Fail-soft: without an error policy a failed or timed-out action never ends its cue, a cancelled one does.\<close>

lemma default_policy_continues:
  "r \<noteq> ExecutionCancelled \<Longrightarrow> actionFailureIsFatal umError [] r = (False, False)"
  "actionFailureIsFatal umError raw ExecutionCancelled = (True, False)"
  by (simp_all add: actionFailureIsFatal_def)

definition demo_action :: "string \<Rightarrow> string \<Rightarrow> string \<Rightarrow> Action" where
  "demo_action i mode policy =
     \<lparr>actID = i, actOrderIndex = 0, actExecutionMode = mode, actTargetRef = [], actCapabilityKey = ''osc.send'',
      actParameters = ''{}'', actTimeoutPolicy = [], actErrorPolicy = policy, actPriorityClass = [], actEnabled = True\<rparr>"

definition demo_outcome :: "Action \<Rightarrow> actionOutcome" where
  "demo_outcome =
     runAction (\<lambda>_. Some 0) Some
       (\<lambda>a _. if actID a = ''bad'' then failed_result ''X'' [] else (failed_result [] [])\<lparr>cpResult := ExecutionCompleted\<rparr>)
       (\<lambda>_. True) (\<lambda>a. Some (actID a))"

definition demo_actions :: "Action list" where
  "demo_actions = [demo_action ''par'' ''PARALLEL'' [], demo_action ''bad'' [] [], demo_action ''last'' [] []]"

lemmas action_eval = demo_actions_def demo_action_def demo_outcome_def runAction_def actionContext_def
  actionFailureIsFatal_def failed_result_def trim_eval case_eval

theorem actions_complete_iff_witness:
  "snd (executeActions (\<lambda>_. Some ''e'') demo_outcome ''s'' demo_actions) = demo_actions"
proof -
  have "executeActions (\<lambda>_. Some ''e'') demo_outcome ''s'' demo_actions
      = ((ExecutionCompleted, ''par'', False), demo_actions)"
    by (simp add: executeActions_def waitPending_def action_eval)
  from actions_complete_iff [OF demo_outcome_def this] this show ?thesis
    by (simp add: demo_actions_def demo_action_def)
qed

section \<open>The selected cue\<close>

definition links_to :: "policy_decoder \<Rightarrow> 'a CueHead_scheme \<Rightarrow> string \<Rightarrow> bool" where
  "links_to um c i \<longleftrightarrow> (\<exists>p. ParsePolicy um (cueExecutionPolicy c) = Inr p \<and> i \<in> set (LinkedCueIDs p))"

lemma link_children_dom:
  "link_children owner ids parent = Inr parent' \<Longrightarrow> dom parent' = dom parent \<union> set ids"
proof (induction ids arbitrary: parent)
  case (Cons i ids)
  then have "link_children owner ids (parent(i \<mapsto> owner)) = Inr parent'"
    by (auto split: option.splits if_splits)
  from Cons.IH [OF this] show ?case by auto
qed simp

lemma nested_links_dom:
  "nested_links um cs parent = Inr parent' \<Longrightarrow> dom parent' = dom parent \<union> {i. \<exists>c \<in> set cs. links_to um c i}"
proof (induction cs arbitrary: parent)
  case (Cons c cs)
  then obtain p q where p: "ParsePolicy um (cueExecutionPolicy c) = Inr p"
    "link_children (cueID c) (LinkedCueIDs p) parent = Inr q" "nested_links um cs q = Inr parent'"
    by (auto split: sum.splits)
  from Cons.IH [OF p(3)] link_children_dom [OF p(2)] p(1) show ?case by (auto simp: links_to_def)
qed simp

lemma resolve_all_None: "resolve_all um cues cs = None \<Longrightarrow> c \<in> set cs \<Longrightarrow> \<exists>g. resolveCueGroup um cues c = Inr g"
  by (induction cs) (auto split: sum.splits)

lemma nestedCueIDs_Inr:
  assumes "nestedCueIDs um cues = Inr nested"
  shows "nested i \<longleftrightarrow> (\<exists>c \<in> set cues. links_to um c i)"
    and "c \<in> set cues \<Longrightarrow> \<exists>g. resolveCueGroup um cues c = Inr g"
proof -
  from assms obtain parent where p: "nested_links um cues Map.empty = Inr parent" "resolve_all um cues cues = None"
    "nested = (\<lambda>i. parent i \<noteq> None)"
    by (auto simp: nestedCueIDs_def split: sum.splits option.splits)
  have "dom parent = {i. \<exists>c \<in> set cues. links_to um c i}" using nested_links_dom [OF p(1)] by simp
  then show "nested i \<longleftrightarrow> (\<exists>c \<in> set cues. links_to um c i)" unfolding p(3) by blast
  show "c \<in> set cues \<Longrightarrow> \<exists>g. resolveCueGroup um cues c = Inr g" by (rule resolve_all_None [OF p(2)])
qed

lemma cues_from_set: "cues_from cur cues = Some rest \<Longrightarrow> set rest \<subseteq> set cues"
proof -
  assume a: "cues_from cur cues = Some rest"
  show ?thesis
  proof (cases "cur = []")
    case False
    with a obtain c where "dropWhile (\<lambda>c. cueID c \<noteq> cur) cues = c # rest"
      by (auto simp: cues_from_def split: list.splits)
    then show ?thesis by (metis set_dropWhileD set_subset_Cons subset_iff)
  qed (use a in \<open>simp add: cues_from_def\<close>)
qed

text \<open>
  A GO without a requested cue always launches a whole top-level group: the selected cue is an enabled
  cue of the snapshot, no cue of the snapshot links to it, and its group resolves, so the command is not
  rejected after the selection.
\<close>

theorem select_cue_top_level:
  assumes "selectCue um msg cues currentCueID payload = Inr c" and "RequestedNextCueID payload = None"
  shows "c \<in> set cues \<and> cueEnabled c \<and> \<not> (\<exists>d \<in> set cues. links_to um d (cueID c))
    \<and> (\<exists>members. resolveCueGroup um cues c = Inr members)"
proof -
  let ?cur = "case currentCueID of None \<Rightarrow> [] | Some c \<Rightarrow> c"
  from assms obtain nested rest where n: "nestedCueIDs um cues = Inr nested" "cues_from ?cur cues = Some rest"
    "find (\<lambda>c. cueEnabled c \<and> \<not> nested (cueID c)) rest = Some c"
    by (auto simp: selectCue_def Let_def split: sum.splits option.splits if_splits)
  have c: "c \<in> set rest" "cueEnabled c" "\<not> nested (cueID c)"
    using n(3) by (auto simp: find_Some_iff in_set_conv_nth)
  with cues_from_set [OF n(2)] have "c \<in> set cues" by blast
  with c nestedCueIDs_Inr [OF n(1)] show ?thesis by blast
qed

definition demo_payload :: CueGoPayload where
  "demo_payload = \<lparr>ExpectedCurrentCueID = Some ''A'', RequestedNextCueID = None, OperatorNote = None\<rparr>"

lemma demo_select: "selectCue demo_um (\<lambda>_. []) demo_cues (Some ''A'') demo_payload = Inr (demo_cue ''D'' [])"
  by code_simp

theorem select_cue_top_level_witness:
  "\<not> (\<exists>d \<in> set demo_cues. links_to demo_um d ''D'')"
proof -
  have "RequestedNextCueID demo_payload = None" by (simp add: demo_payload_def)
  from select_cue_top_level [OF demo_select this] show ?thesis by (simp add: demo_cue_def)
qed

section \<open>The rows of an execution\<close>

text \<open>No row of execution \<open>x\<close> is left running.\<close>

definition closed :: "string \<Rightarrow> engine_db \<Rightarrow> bool" where
  "closed x db \<longleftrightarrow> (\<forall>row \<in> set (edCueExecutions db). cxID row = x \<longrightarrow> cxResult row \<noteq> ExecutionRunning)"

definition has_result :: "string \<Rightarrow> ExecutionResult \<Rightarrow> engine_db \<Rightarrow> bool" where
  "has_result x res db \<longleftrightarrow> (\<exists>row \<in> set (edCueExecutions db). cxID row = x \<and> cxResult row = res)"

lemma finish_execution_row_id [simp]: "cxID (finish_execution_row x res row) = cxID row"
  by (simp add: finish_execution_row_def)

lemma finish_execution_row_result:
  "cxID row = x \<Longrightarrow> cxResult (finish_execution_row x res row) = (if cxResult row = ExecutionRunning then res else cxResult row)"
  by (simp add: finish_execution_row_def)

lemma finish_closes:
  assumes "q \<noteq> SqlFail" "res \<noteq> ExecutionRunning"
  shows "closed x (fst (FinishCueExecution q x res db))"
  using assms by (simp add: FinishCueExecution_def closed_def finish_execution_row_result)

lemma finish_stores:
  assumes "FinishCueExecution q x res db = (db', True)"
  shows "has_result x res db'"
proof -
  let ?hit = "\<lambda>r. cxID r = x \<and> cxResult r = ExecutionRunning"
  have l: "length (filter ?hit (edCueExecutions db)) = 1"
    and db': "edCueExecutions db' = map (finish_execution_row x res) (edCueExecutions db)"
    using assms unfolding FinishCueExecution_def by (simp_all split: if_splits) (metis engine_db.select_convs(3) engine_db.surjective engine_db.update_convs(3))
  from l obtain row where "row \<in> set (filter ?hit (edCueExecutions db))"
    by (cases "filter ?hit (edCueExecutions db)") simp_all
  then have "finish_execution_row x res row \<in> set (edCueExecutions db')"
    "cxResult (finish_execution_row x res row) = res" "cxID (finish_execution_row x res row) = x"
    by (simp_all add: db' finish_execution_row_result)
  then show ?thesis unfolding has_result_def by blast
qed

lemma event_rows [simp]: "edCueExecutions (fst (AppendEvent q n ty c db)) = edCueExecutions db"
  by (simp add: AppendEvent_def)

lemma current_rows [simp]: "edCueExecutions (fst (SetSessionCurrentCue r q s c db)) = edCueExecutions db"
  by (simp add: SetSessionCurrentCue_def Let_def)

lemma closed_rows: "edCueExecutions d' = edCueExecutions d \<Longrightarrow> closed x d' = closed x d"
  "edCueExecutions d' = edCueExecutions d \<Longrightarrow> has_result x res d' = has_result x res d"
  by (simp_all add: closed_def has_result_def)

text \<open>The ways \<open>finish_reserved\<close> can end.\<close>

lemma finish_reserved_cases:
  assumes "finish_reserved env cmdID sel ids started (res, lst, err) db = (db', r)"
  obtains "err" "db' = fst (FinishCueExecution (eeFault env QAbandon) (eeExecutionID env) ExecutionFailed db)"
      "resStatus r = CommandFailed"
  | "\<not> err" "db' = fst (FinishCueExecution (eeFault env QFinish) (eeExecutionID env) res db)" "resStatus r = CommandFailed"
  | d1 where "\<not> err" "FinishCueExecution (eeFault env QFinish) (eeExecutionID env) res db = (d1, True)"
      "edCueExecutions db' = edCueExecutions d1" "resStatus r = CommandFailed \<or> resStatus r = command_status res"
proof (cases err)
  case True
  with assms show thesis by (intro that(1)) (auto simp: finish_reserved_def internalFailure_def Let_def)
next
  case False
  obtain d1 ok where f: "FinishCueExecution (eeFault env QFinish) (eeExecutionID env) res db = (d1, ok)" by (metis prod.collapse)
  show thesis
  proof (cases ok)
    case False
    with assms \<open>\<not> err\<close> f show thesis by (intro that(2)) (auto simp: finish_reserved_def internalFailure_def Let_def)
  next
    case True
    let ?ev = "AppendEvent (eeFault env QResult) (eeResultID env) (cue_event_type res) (if lst = [] then started else lst) d1"
    obtain d2 e where e: "?ev = (d2, e)" by (metis prod.collapse)
    have "edCueExecutions d2 = edCueExecutions d1"
      using event_rows [of "eeFault env QResult" "eeResultID env" "cue_event_type res" "if lst = [] then started else lst" d1]
      unfolding e by simp
    with assms \<open>\<not> err\<close> f e True show thesis
      by (intro that(3) [of d1]) (auto simp: finish_reserved_def internalFailure_def Let_def split: option.splits)
  qed
qed

lemma finish_reserved_closes:
  assumes "finish_reserved env cmdID sel ids started (res, lst, err) db = (db', r)"
    and "eeFault env QAbandon \<noteq> SqlFail" "eeFault env QFinish \<noteq> SqlFail" "res \<noteq> ExecutionRunning"
  shows "closed (eeExecutionID env) db' \<and> (resStatus r = CommandCompleted \<longrightarrow> has_result (eeExecutionID env) ExecutionCompleted db')"
  using assms(1)
proof (cases rule: finish_reserved_cases)
  case 1
  then show ?thesis using finish_closes [OF assms(2)] by simp
next
  case 2
  then show ?thesis using finish_closes [OF assms(3,4)] by simp
next
  case (3 d1)
  have "closed (eeExecutionID env) d1"
    using finish_closes [OF assms(3,4), of "eeExecutionID env" db] unfolding 3(2) by simp
  then have "closed (eeExecutionID env) db'" by (rule closed_rows(1) [OF 3(3), THEN iffD2])
  moreover have "has_result (eeExecutionID env) res db'"
    using finish_stores [OF 3(2)] by (rule closed_rows(2) [OF 3(3), THEN iffD2])
  moreover have "res = ExecutionCompleted" if "resStatus r = CommandCompleted"
    using 3(4) that by (auto simp: command_status_def split: if_splits)
  ultimately show ?thesis by blast
qed

lemma launch_reserved_closes:
  assumes "launch_reserved env cmdID sid selected cues db = (db', r)"
    and "eeFault env QCreate \<noteq> SqlReplyLost" "eeFault env QAbandon \<noteq> SqlFail" "eeFault env QFinish \<noteq> SqlFail"
    and "\<And>ev. fst (eeGroup env ev cues) \<noteq> ExecutionRunning"
    and "closed (eeExecutionID env) db"
  shows "closed (eeExecutionID env) db' \<and> (resStatus r = CommandCompleted \<longrightarrow> has_result (eeExecutionID env) ExecutionCompleted db')"
proof -
  let ?x = "eeExecutionID env"
  obtain d1 c where c: "CreateCueExecution (eeFault env QCreate) ?x sid (cueID selected) db = (d1, c)" by (metis prod.collapse)
  obtain d2 s where s: "AppendEvent (eeFault env QStarted) (eeStartedID env) ''cue.started'' cmdID d1 = (d2, s)" by (metis prod.collapse)
  obtain d3 ok where ok: "SetSessionCurrentCue (eeInRevision env) (eeFault env QCurrent) sid (cueID selected) d2 = (d3, ok)"
    by (metis prod.collapse)
  note ab = finish_closes [OF assms(3), of ExecutionFailed ?x, simplified]
  show ?thesis
  proof (cases c)
    case None
    then have "db' = db" "resStatus r = CommandFailed"
      using assms(1,2) c by (auto simp: launch_reserved_def internalFailure_def CreateCueExecution_def Let_def split: if_splits)
    with assms(6) show ?thesis by simp
  next
    case (Some i)
    show ?thesis
    proof (cases "s \<noteq> None \<and> ok")
      case False
      then have "(\<exists>d. db' = fst (FinishCueExecution (eeFault env QAbandon) ?x ExecutionFailed d)) \<and> resStatus r = CommandFailed"
        using assms(1) c s ok Some by (auto simp: launch_reserved_def internalFailure_def Let_def split: option.splits)
      with ab show ?thesis by auto
    next
      case True
      then obtain ev where "s = Some ev" by auto
      then have "finish_reserved env cmdID (cueID selected) (linkedCueIDs cues) ev (eeGroup env ev cues) (eeOthers env d3) = (db', r)"
        using assms(1) c s ok Some True by (simp add: launch_reserved_def Let_def)
      then show ?thesis using assms(5) [of ev] finish_reserved_closes [OF _ assms(3,4)]
        by (cases "eeGroup env ev cues") auto
    qed
  qed
qed


lemma rejection_status [simp]: "resStatus (rejection cid code cat msg b ent) = CommandRejected"
  by (simp add: rejection_def)

lemma internalFailure_status [simp]: "resStatus (internalFailure cid code c) = CommandFailed"
  by (simp add: internalFailure_def)

lemma selectCue_rejects: "selectCue um msg cues cur payload = Inl res \<Longrightarrow> resStatus res = CommandRejected"
  by (auto simp: selectCue_def Let_def split: option.splits sum.splits if_splits)

lemma executeReserved_cases:
  assumes "executeReserved env sid cmd db = (db', r)"
  obtains "db' = db" "resStatus r = CommandRejected \<or> resStatus r = CommandFailed"
  | selected members where "launch_reserved env (ceCommandID cmd) sid selected members db = (db', r)"
proof (cases "\<exists>selected members. launch_reserved env (ceCommandID cmd) sid selected members db = (db', r)")
  case True
  then show thesis using that(2) by blast
next
  case False
  with assms show thesis
    by (intro that(1))
      (auto simp: executeReserved_def Let_def dest: selectCue_rejects split: option.splits sum.splits if_splits)
qed

lemma launch_not_rejected:
  assumes "launch_reserved env cmdID sid selected cues db = (db', r)"
  shows "resStatus r \<noteq> CommandRejected"
proof -
  have fin: "resStatus (snd (finish_reserved env cmdID s l e g d)) \<noteq> CommandRejected" for s l e g d
  proof -
    obtain res lst err where g: "g = (res, lst, err)" by (metis prod.collapse)
    obtain d' r' where f: "finish_reserved env cmdID s l e (res, lst, err) d = (d', r')" by (metis prod.collapse)
    from f have "resStatus r' \<noteq> CommandRejected"
      by (cases rule: finish_reserved_cases) (auto simp: command_status_def split: if_splits)
    then show ?thesis unfolding g f by simp
  qed
  obtain d1 c where c: "CreateCueExecution (eeFault env QCreate) (eeExecutionID env) sid (cueID selected) db = (d1, c)"
    by (metis prod.collapse)
  obtain d2 s where s: "AppendEvent (eeFault env QStarted) (eeStartedID env) ''cue.started'' cmdID d1 = (d2, s)"
    by (metis prod.collapse)
  obtain d3 ok where ok: "SetSessionCurrentCue (eeInRevision env) (eeFault env QCurrent) sid (cueID selected) d2 = (d3, ok)"
    by (metis prod.collapse)
  have "r = snd (launch_reserved env cmdID sid selected cues db)" using assms by simp
  then show ?thesis
    using fin by (cases c; cases s; cases ok) (simp_all add: launch_reserved_def Let_def c s ok)
qed

lemma finish_reserved_completed:
  assumes "finish_reserved env cmdID sel ids started (res, lst, err) db = (db', r)" and "resStatus r = CommandCompleted"
  shows "closed (eeExecutionID env) db' \<and> has_result (eeExecutionID env) ExecutionCompleted db'"
  using assms(1)
proof (cases rule: finish_reserved_cases)
  case (3 d1)
  then have res: "res = ExecutionCompleted" using assms(2) by (auto simp: command_status_def split: if_splits)
  from 3(2) have "eeFault env QFinish \<noteq> SqlFail" by (auto simp: FinishCueExecution_def split: if_splits)
  then have "closed (eeExecutionID env) d1"
    using finish_closes [of "eeFault env QFinish" res "eeExecutionID env" db] 3(2) res by simp
  then show ?thesis using finish_stores [OF 3(2)] closed_rows [OF 3(3)] res by simp
qed (use assms(2) in simp_all)

lemma launch_reserved_completed:
  assumes "launch_reserved env cmdID sid selected cues db = (db', r)" and "resStatus r = CommandCompleted"
  shows "closed (eeExecutionID env) db' \<and> has_result (eeExecutionID env) ExecutionCompleted db'"
proof -
  have "\<exists>ev d. finish_reserved env cmdID (cueID selected) (linkedCueIDs cues) ev (eeGroup env ev cues) d = (db', r)"
    using assms by (auto simp: launch_reserved_def internalFailure_def Let_def split: option.splits prod.splits bool.splits)
  then show ?thesis using finish_reserved_completed [OF _ assms(2)] by (metis prod.collapse)
qed

text \<open>
  C15. Executions end with their command. A rejected command wrote nothing. A command that returns COMPLETED has a
  COMPLETED row for its cue execution and leaves none RUNNING. And whatever a command returns, a row of its execution
  is left RUNNING only if the insert of the row took effect and lost its reply, a statement that closes the row failed,
  or the group itself reported RUNNING.
\<close>

theorem reserved_closes_execution:
  assumes "executeReserved env sid cmd db = (db', r)"
  shows "(resStatus r = CommandRejected \<longrightarrow> db' = db)
    \<and> (resStatus r = CommandCompleted \<longrightarrow> closed (eeExecutionID env) db' \<and> has_result (eeExecutionID env) ExecutionCompleted db')
    \<and> (closed (eeExecutionID env) db \<longrightarrow> closed (eeExecutionID env) db'
        \<or> eeFault env QCreate = SqlReplyLost \<or> eeFault env QAbandon = SqlFail \<or> eeFault env QFinish = SqlFail
        \<or> (\<exists>ev cues. fst (eeGroup env ev cues) = ExecutionRunning))"
  using assms(1)
proof (cases rule: executeReserved_cases)
  case 1
  then show ?thesis by auto
next
  case (2 selected members)
  from launch_reserved_closes [OF 2] launch_reserved_completed [OF 2] launch_not_rejected [OF 2] show ?thesis by blast
qed

definition demo_session :: Session where
  "demo_session =
     \<lparr>sesID = ''s'', sesProjectID = ''p'', sesRuntimeSnapshotID = ''snap'', sesType = SessionShow, sesStatus = SessionActive,
      sesCurrentCueID = Some ''A''\<rparr>"

definition demo_db :: engine_db where
  "demo_db =
     \<lparr>edSessions = [demo_session], edSnapshots = [\<lparr>rsID = ''snap'', rsPublished = True, rsManifest = ''m''\<rparr>],
      edCueExecutions = [], edEvents = []\<rparr>"

definition demo_env :: engine_env where
  "demo_env =
     \<lparr>eeUm = demo_um, eeMsg = (\<lambda>_. []), eeManifest = (\<lambda>_. Some demo_cues), eePayload = (\<lambda>_. Some demo_payload),
      eeConcurrent = False, eeInRevision = (\<lambda>_ _. True), eeFault = (\<lambda>_. SqlOk), eeCancelled = False,
      eeExecutionID = ''x'', eeStartedID = ''e1'', eeResultID = ''e2'',
      eeGroup = (\<lambda>ev _. (ExecutionCompleted, ev, False)), eeOthers = (\<lambda>d. d), eeReports = None,
      eeEncode = (\<lambda>_ _ _ _ _. ''{}'')\<rparr>"

lemma demo_reserved:
  "executeReserved demo_env ''s'' demo_command demo_db
   = (\<lparr>edSessions = [demo_session\<lparr>sesCurrentCueID := Some ''D''\<rparr>], edSnapshots = edSnapshots demo_db,
       edCueExecutions = [\<lparr>cxID = ''x'', cxSessionID = ''s'', cxCueID = ''D'', cxResult = ExecutionCompleted\<rparr>],
       edEvents = [\<lparr>evID = ''e1'', evType = ''cue.started'', evCausationID = ceCommandID demo_command\<rparr>,
                   \<lparr>evID = ''e2'', evType = ''cue.completed'', evCausationID = ''e1''\<rparr>]\<rparr>,
      \<lparr>resCommandID = ceCommandID demo_command, resStatus = CommandCompleted, resPayload = ''{}'', resError = None\<rparr>)"
proof -
  have r: "resolveCueGroup demo_um demo_cues (demo_cue ''D'' []) = Inr [demo_cue ''D'' []]" by code_simp
  note facts = demo_env_def demo_db_def demo_session_def demo_command_def
  show ?thesis
    using demo_select r
    by (simp add: executeReserved_def launch_reserved_def finish_reserved_def facts GetSession_def
        HasRunningCueExecution_def GetRuntimeSnapshot_def CreateCueExecution_def AppendEvent_def
        SetSessionCurrentCue_def FinishCueExecution_def finish_execution_row_def cue_event_type_def
        command_status_def Let_def)
      (simp add: demo_cue_def)
qed

theorem reserved_closes_execution_witness:
  "closed ''x'' (fst (executeReserved demo_env ''s'' demo_command demo_db))
   \<and> has_result ''x'' ExecutionCompleted (fst (executeReserved demo_env ''s'' demo_command demo_db))"
  using reserved_closes_execution [OF demo_reserved] unfolding demo_reserved by (simp add: demo_env_def)

end
