(* ===== verification/Semver.thy ===== *)
theory Semver
  imports Prelude "HOL-Library.Product_Lexorder"
begin

text \<open>
  Versions of extensions (\<open>src/internal/extension/semver.go\<close> and the version pattern of
  \<open>manifest.go\<close>): parsing, comparison and ranges. Versions are compared as strings of digits of
  any length. The reference is the precedence of semantic versioning as a linear order on keys of
  natural numbers: the types of the keys are instances of \<open>linorder\<close>.
\<close>

section \<open>Versions\<close>

definition is_digit :: "char \<Rightarrow> bool" where
  "is_digit c \<longleftrightarrow> CHR ''0'' \<le> c \<and> c \<le> CHR ''9''"

definition is_letter :: "char \<Rightarrow> bool" where
  "is_letter c \<longleftrightarrow> CHR ''A'' \<le> c \<and> c \<le> CHR ''Z'' \<or> CHR ''a'' \<le> c \<and> c \<le> CHR ''z''"

text \<open>
  The pattern \<open>^[0-9]+\.[0-9]+\.[0-9]+(?:-[0-9A-Za-z.-]+)?$\<close>. What follows each run of digits is
  not a digit, so the greedy match is the only one.
\<close>

definition match_number :: "string \<Rightarrow> string option" where
  "match_number s = (if s = [] \<or> \<not> is_digit (hd s) then None else Some (dropWhile is_digit s))"

definition match_dot :: "string \<Rightarrow> string option" where
  "match_dot s = (case s of c # r \<Rightarrow> (if c = CHR ''.'' then Some r else None) | [] \<Rightarrow> None)"

definition match_suffix :: "string \<Rightarrow> bool" where
  "match_suffix s =
     (case s of [] \<Rightarrow> True
      | c # r \<Rightarrow> c = CHR ''-'' \<and> r \<noteq> []
          \<and> list_all (\<lambda>x. is_digit x \<or> is_letter x \<or> x = CHR ''.'' \<or> x = CHR ''-'') r)"

definition versionPattern :: "string \<Rightarrow> bool" where
  "versionPattern s =
     (case match_number s of None \<Rightarrow> False | Some s1 \<Rightarrow>
      case match_dot s1 of None \<Rightarrow> False | Some s2 \<Rightarrow>
      case match_number s2 of None \<Rightarrow> False | Some s3 \<Rightarrow>
      case match_dot s3 of None \<Rightarrow> False | Some s4 \<Rightarrow>
      case match_number s4 of None \<Rightarrow> False | Some s5 \<Rightarrow> match_suffix s5)"

text \<open>\<open>strings.Split\<close> at one character.\<close>

fun split_char :: "char \<Rightarrow> string \<Rightarrow> string list" where
  "split_char c [] = [[]]"
| "split_char c (x # xs) =
     (if x = c then [] # split_char c xs
      else case split_char c xs of [] \<Rightarrow> [[x]] | p # ps \<Rightarrow> (x # p) # ps)"

record semanticVersion =
  svMajor :: string
  svMinor :: string
  svPatch :: string
  svPre :: "string list"

definition decimalDigits :: "string \<Rightarrow> bool" where
  "decimalDigits s \<longleftrightarrow> s \<noteq> [] \<and> list_all is_digit s"

text \<open>The first \<open>-\<close> separates the core from the prerelease.\<close>

definition parseSemanticVersion :: "string \<Rightarrow> semanticVersion option" where
  "parseSemanticVersion s0 =
     (let s = trim_space s0 in
      if \<not> versionPattern s then None
      else
        let core = takeWhile (\<lambda>c. c \<noteq> CHR ''-'') s;
            pr = drop 1 (dropWhile (\<lambda>c. c \<noteq> CHR ''-'') s)
        in case split_char (CHR ''.'') core of
             [a, b, c] \<Rightarrow>
               (if decimalDigits a \<and> decimalDigits b \<and> decimalDigits c
                then Some \<lparr>svMajor = a, svMinor = b, svPatch = c,
                           svPre = (if pr = [] then [] else split_char (CHR ''.'') pr)\<rparr>
                else None)
           | _ \<Rightarrow> None)"

section \<open>Comparison\<close>

text \<open>\<open>strings.Compare\<close>, and the sign of a comparison in any linear order.\<close>

definition cmp :: "'a::linorder \<Rightarrow> 'a \<Rightarrow> int" where
  "cmp x y = (if x < y then -1 else if y < x then 1 else 0)"

definition normalizeDecimal :: "string \<Rightarrow> string" where
  "normalizeDecimal s =
     (let t = dropWhile (\<lambda>c. c = CHR ''0'') s in if t = [] then ''0'' else t)"

definition compareDecimalStrings :: "string \<Rightarrow> string \<Rightarrow> int" where
  "compareDecimalStrings left0 right0 =
     (let l = normalizeDecimal left0; r = normalizeDecimal right0 in
      if length l < length r then -1 else if length l > length r then 1 else cmp l r)"

definition comparePrereleaseIdentifier :: "string \<Rightarrow> string \<Rightarrow> int" where
  "comparePrereleaseIdentifier l r =
     (if decimalDigits l \<and> decimalDigits r then compareDecimalStrings l r
      else if decimalDigits l then -1
      else if decimalDigits r then 1
      else cmp l r)"

text \<open>The loop over the common prefix, and then the lengths.\<close>

fun comparePrerelease :: "string list \<Rightarrow> string list \<Rightarrow> int" where
  "comparePrerelease (l # ls) (r # rs) =
     (let c = comparePrereleaseIdentifier l r in if c \<noteq> 0 then c else comparePrerelease ls rs)"
| "comparePrerelease [] (r # rs) = -1"
| "comparePrerelease (l # ls) [] = 1"
| "comparePrerelease [] [] = 0"

definition compareSemanticVersions :: "string \<Rightarrow> string \<Rightarrow> int" where
  "compareSemanticVersions left0 right0 =
     (case (parseSemanticVersion left0, parseSemanticVersion right0) of
        (Some l, Some r) \<Rightarrow>
          (let c1 = compareDecimalStrings (svMajor l) (svMajor r) in if c1 \<noteq> 0 then c1 else
           let c2 = compareDecimalStrings (svMinor l) (svMinor r) in if c2 \<noteq> 0 then c2 else
           let c3 = compareDecimalStrings (svPatch l) (svPatch r) in if c3 \<noteq> 0 then c3 else
           if svPre l = [] \<and> svPre r = [] then 0
           else if svPre l = [] then 1
           else if svPre r = [] then -1
           else comparePrerelease (svPre l) (svPre r))
      | _ \<Rightarrow> cmp left0 right0)"

definition versionInRange :: "string \<Rightarrow> string \<Rightarrow> string \<Rightarrow> bool" where
  "versionInRange version minVersion maxVersion =
     (if minVersion \<noteq> [] \<and> compareSemanticVersions version minVersion < 0 then False
      else if maxVersion \<noteq> [] \<and> compareSemanticVersions version maxVersion > 0 then False
      else True)"

section \<open>The order of semantic versioning\<close>

text \<open>
  A prerelease identifier is a number or a word; numbers come first. A prerelease comes before its
  release, and prereleases are ordered by their identifiers.
\<close>

datatype pr_ident = Numeric nat | Alnum string

instantiation pr_ident :: linorder
begin

fun less_eq_pr_ident :: "pr_ident \<Rightarrow> pr_ident \<Rightarrow> bool" where
  "less_eq_pr_ident (Numeric m) (Numeric n) = (m \<le> n)"
| "less_eq_pr_ident (Numeric _) (Alnum _) = True"
| "less_eq_pr_ident (Alnum _) (Numeric _) = False"
| "less_eq_pr_ident (Alnum s) (Alnum t) = (s \<le> t)"

definition less_pr_ident :: "pr_ident \<Rightarrow> pr_ident \<Rightarrow> bool" where
  "less_pr_ident x y \<longleftrightarrow> \<not> y \<le> x"

instance
proof
  fix x y z :: pr_ident
  show "x \<le> x" by (cases x) auto
  show "x \<le> y \<Longrightarrow> y \<le> z \<Longrightarrow> x \<le> z" by (cases x; cases y; cases z) auto
  show "x \<le> y \<Longrightarrow> y \<le> x \<Longrightarrow> x = y" by (cases x; cases y) auto
  show total: "x \<le> y \<or> y \<le> x" by (cases x; cases y) auto
  show "(x < y) = (x \<le> y \<and> \<not> y \<le> x)" using total by (auto simp: less_pr_ident_def)
qed

end

datatype stage = Prerelease "pr_ident list" | Release

instantiation stage :: linorder
begin

fun less_eq_stage :: "stage \<Rightarrow> stage \<Rightarrow> bool" where
  "less_eq_stage (Prerelease xs) (Prerelease ys) = (xs \<le> ys)"
| "less_eq_stage _ Release = True"
| "less_eq_stage Release (Prerelease _) = False"

definition less_stage :: "stage \<Rightarrow> stage \<Rightarrow> bool" where
  "less_stage x y \<longleftrightarrow> \<not> y \<le> x"

instance
proof
  fix x y z :: stage
  show "x \<le> x" by (cases x) auto
  show "x \<le> y \<Longrightarrow> y \<le> z \<Longrightarrow> x \<le> z" by (cases x; cases y; cases z) auto
  show "x \<le> y \<Longrightarrow> y \<le> x \<Longrightarrow> x = y" by (cases x; cases y) auto
  show total: "x \<le> y \<or> y \<le> x" by (cases x; cases y) auto
  show "(x < y) = (x \<le> y \<and> \<not> y \<le> x)" using total by (auto simp: less_stage_def)
qed

end

definition dec :: "string \<Rightarrow> nat" where
  "dec s = foldl (\<lambda>n c. 10 * n + (of_char c - 48)) 0 s"

definition ident_key :: "string \<Rightarrow> pr_ident" where
  "ident_key s = (if decimalDigits s then Numeric (dec s) else Alnum s)"

type_synonym version_key = "nat \<times> nat \<times> nat \<times> stage"

definition key_of :: "semanticVersion \<Rightarrow> version_key" where
  "key_of v = (dec (svMajor v), dec (svMinor v), dec (svPatch v),
     if svPre v = [] then Release else Prerelease (map ident_key (svPre v)))"

text \<open>A version that parses, and its precedence.\<close>

definition valid_version :: "string \<Rightarrow> bool" where
  "valid_version s \<longleftrightarrow> parseSemanticVersion s \<noteq> None"

definition precedence :: "string \<Rightarrow> version_key" where
  "precedence s = key_of (the (parseSemanticVersion s))"

section \<open>Comparing digits is comparing numbers\<close>

lemma cmp_simps [simp]:
  "cmp x x = 0" "(cmp x y = 0) = (x = y)" "(cmp x y < 0) = (x < y)" "(0 < cmp x y) = (y < x)"
  by (auto simp: cmp_def)

lemma cmp_lex:
  "cmp (x, y) (x', y') = (let c = cmp x x' in if c \<noteq> 0 then c else cmp y y')"
  by (auto simp: cmp_def)

lemma dec_Nil [simp]: "dec [] = 0"
  by (simp add: dec_def)

lemma dec_snoc [simp]: "dec (s @ [c]) = 10 * dec s + (of_char c - 48)"
  by (simp add: dec_def)

lemma char_le_nat: "(c \<le> d) = (of_char c \<le> (of_char d :: nat))"
  by (simp add: less_eq_char_def)

lemma char_less_nat: "(c < d) = (of_char c < (of_char d :: nat))"
  by (simp add: less_char_def)

lemma digit_bounds: "is_digit c \<longleftrightarrow> 48 \<le> (of_char c :: nat) \<and> of_char c \<le> (57 :: nat)"
  by (simp add: is_digit_def char_le_nat)

lemma dec_bound: "list_all is_digit s \<Longrightarrow> dec s < 10 ^ length s"
proof (induction s rule: rev_induct)
  case (snoc c s)
  then have "dec s < 10 ^ length s" "of_char c \<le> (57 :: nat)" by (simp_all add: digit_bounds)
  then show ?case by simp
qed simp

lemma dec_Cons: "dec (c # s) = (of_char c - 48) * 10 ^ length s + dec s"
proof (induction s rule: rev_induct)
  case (snoc x xs)
  have "dec (c # xs @ [x]) = 10 * dec (c # xs) + (of_char x - 48)"
    using dec_snoc [of "c # xs" x] by simp
  also have "\<dots> = (of_char c - 48) * 10 ^ length (xs @ [x]) + dec (xs @ [x])"
    using snoc by (simp add: algebra_simps)
  finally show ?case .
qed (simp add: dec_def)

lemma dec_strip: "dec (dropWhile (\<lambda>c. c = CHR ''0'') s) = dec s"
  by (induction s) (auto simp: dec_Cons)

lemma dec_lower: "is_digit c \<Longrightarrow> c \<noteq> CHR ''0'' \<Longrightarrow> 10 ^ length s \<le> dec (c # s)"
proof -
  assume "is_digit c" "c \<noteq> CHR ''0''"
  then have "48 \<le> (of_char c :: nat)" "of_char c \<noteq> (48 :: nat)"
    using of_char_eq_iff [of c "CHR ''0''", where 'a = nat] by (auto simp: digit_bounds)
  then have "1 \<le> of_char c - (48 :: nat)" by simp
  then have "1 * 10 ^ length s \<le> (of_char c - (48 :: nat)) * 10 ^ length s" by (rule mult_right_mono) simp
  then show ?thesis unfolding dec_Cons by linarith
qed

lemma cmp_same_length:
  "length s = length t \<Longrightarrow> list_all is_digit s \<Longrightarrow> list_all is_digit t \<Longrightarrow> cmp s t = cmp (dec s) (dec t)"
proof (induction s t rule: list_induct2)
  case (Cons c s d t)
  then have b: "dec s < 10 ^ length s" "dec t < 10 ^ length s"
    using dec_bound [of s] dec_bound [of t] by simp_all
  let ?p = "10 ^ length s :: nat"
  have c: "48 \<le> (of_char c :: nat)" "48 \<le> (of_char d :: nat)" using Cons.prems by (simp_all add: digit_bounds)
  have low: "(x - 48) * ?p + u < (y - 48) * ?p + v" if "x < y" "u < ?p" "48 \<le> x" for x y u v :: nat
  proof -
    have "(x - 48) * ?p + u < (Suc (x - 48)) * ?p" using that by simp
    also have "\<dots> \<le> (y - 48) * ?p" using that by (intro mult_right_mono) auto
    finally show ?thesis by simp
  qed
  consider "c < d" | "c = d" | "d < c" by force
  then show ?case
  proof cases
    case 1
    then have "dec (c # s) < dec (d # t)"
      using low [of "of_char c" "of_char d" "dec s" "dec t"] b c Cons.hyps by (simp add: dec_Cons char_less_nat)
    with 1 show ?thesis by (simp add: cmp_def)
  next
    case 2
    have "cmp (c # s) (c # t) = cmp s t" by (auto simp: cmp_def)
    also have "\<dots> = cmp (dec s) (dec t)" using Cons by simp
    also have "\<dots> = cmp (dec (c # s)) (dec (c # t))" using Cons.hyps by (simp add: cmp_def dec_Cons)
    finally show ?thesis using 2 by simp
  next
    case 3
    then have "dec (d # t) < dec (c # s)"
      using low [of "of_char d" "of_char c" "dec t" "dec s"] b c Cons.hyps by (simp add: dec_Cons char_less_nat)
    with 3 show ?thesis by (auto simp: cmp_def)
  qed
qed simp

text \<open>A normalized number is one digit, or does not begin with zero.\<close>

lemma normalize_facts:
  assumes "decimalDigits s"
  shows "list_all is_digit (normalizeDecimal s)" "dec (normalizeDecimal s) = dec s"
    "normalizeDecimal s \<noteq> []"
    "length (normalizeDecimal s) = 1 \<or> 10 ^ (length (normalizeDecimal s) - 1) \<le> dec s"
proof -
  let ?t = "dropWhile (\<lambda>c. c = CHR ''0'') s"
  have d: "list_all is_digit ?t"
    using assms by (auto simp: decimalDigits_def list_all_iff dest: set_dropWhileD)
  show "list_all is_digit (normalizeDecimal s)"
    using d by (simp add: normalizeDecimal_def Let_def digit_bounds)
  have z: "dec ''0'' = 0" by (simp add: dec_def)
  show "dec (normalizeDecimal s) = dec s"
  proof (cases "?t = []")
    case True
    then have "dec s = 0" using dec_strip [of s] by (metis dec_Nil)
    with True z show ?thesis by (simp only: normalizeDecimal_def Let_def simp_thms if_True)
  next
    case False
    then show ?thesis using dec_strip [of s] by (simp only: normalizeDecimal_def Let_def if_False)
  qed
  show "normalizeDecimal s \<noteq> []" by (auto simp: normalizeDecimal_def Let_def)
  show "length (normalizeDecimal s) = 1 \<or> 10 ^ (length (normalizeDecimal s) - 1) \<le> dec s"
  proof (cases "dropWhile (\<lambda>c. c = CHR ''0'') s")
    case (Cons c u)
    then have "c \<noteq> CHR ''0''" using dropWhile_eq_Cons_conv [of "\<lambda>c. c = CHR ''0''" s c u] by simp
    with Cons d dec_lower [of c u] dec_strip [of s] show ?thesis
      by (simp add: normalizeDecimal_def)
  qed (simp add: normalizeDecimal_def)
qed

lemma compare_decimal:
  assumes "decimalDigits s" "decimalDigits t"
  shows "compareDecimalStrings s t = cmp (dec s) (dec t)"
proof -
  have shorter: "dec x < dec y" if "decimalDigits x" "decimalDigits y"
    "length (normalizeDecimal x) < length (normalizeDecimal y)" for x y
  proof -
    have "length (normalizeDecimal x) \<le> length (normalizeDecimal y) - 1"
      "length (normalizeDecimal y) \<noteq> 1"
      using that normalize_facts(3) [OF that(1)] by (auto simp: neq_Nil_conv)
    then have "10 ^ length (normalizeDecimal x) \<le> (10 :: nat) ^ (length (normalizeDecimal y) - 1)"
      "10 ^ (length (normalizeDecimal y) - 1) \<le> dec y"
      using normalize_facts(4) [OF that(2)] by (auto intro: power_increasing)
    moreover have "dec x < 10 ^ length (normalizeDecimal x)"
      using dec_bound [OF normalize_facts(1) [OF that(1)]] normalize_facts(2) [OF that(1)] by simp
    ultimately show ?thesis by linarith
  qed
  consider "length (normalizeDecimal s) < length (normalizeDecimal t)"
    | "length (normalizeDecimal t) < length (normalizeDecimal s)"
    | "length (normalizeDecimal s) = length (normalizeDecimal t)" by linarith
  then show ?thesis
  proof cases
    case 1
    with shorter [OF assms] show ?thesis by (simp add: compareDecimalStrings_def Let_def cmp_def)
  next
    case 2
    with shorter [OF assms(2,1)] show ?thesis by (simp add: compareDecimalStrings_def Let_def cmp_def)
  next
    case 3
    then show ?thesis
      using cmp_same_length [of "normalizeDecimal s" "normalizeDecimal t"] assms
      by (simp add: compareDecimalStrings_def Let_def normalize_facts)
  qed
qed

lemma compare_identifier: "comparePrereleaseIdentifier s t = cmp (ident_key s) (ident_key t)"
  by (simp add: comparePrereleaseIdentifier_def ident_key_def compare_decimal)
     (auto simp: cmp_def less_pr_ident_def)

lemma compare_prerelease: "comparePrerelease xs ys = cmp (map ident_key xs) (map ident_key ys)"
  by (induction xs ys rule: comparePrerelease.induct)
     (auto simp: compare_identifier Let_def cmp_def)

section \<open>The comparison is the order\<close>

lemma split_char_nonempty [simp]: "split_char c s \<noteq> []"
  by (induction s) (auto split: list.splits)

lemma split_char_none: "c \<notin> set d \<Longrightarrow> split_char c d = [d]"
  by (induction d) auto

lemma split_char_step: "c \<notin> set d \<Longrightarrow> split_char c (d @ c # r) = d # split_char c r"
  by (induction d) auto

lemma match_number_Some:
  assumes "match_number s = Some r"
  obtains d where "decimalDigits d" "s = d @ r" "CHR ''.'' \<notin> set d" "CHR ''-'' \<notin> set d"
proof
  have ne: "s \<noteq> []" "is_digit (hd s)" and r: "r = dropWhile is_digit s"
    using assms by (auto simp: match_number_def split: if_splits)
  have all: "list_all is_digit (takeWhile is_digit s)" by (auto simp: list_all_iff dest: set_takeWhileD)
  show "decimalDigits (takeWhile is_digit s)"
    using ne all by (cases s) (auto simp: decimalDigits_def)
  show "s = takeWhile is_digit s @ r" by (simp add: r)
  have "\<not> is_digit (CHR ''.'')" "\<not> is_digit (CHR ''-'')" by (simp_all add: digit_bounds)
  with all show "CHR ''.'' \<notin> set (takeWhile is_digit s)" "CHR ''-'' \<notin> set (takeWhile is_digit s)"
    by (auto simp: list_all_iff)
qed

text \<open>A version that matches the pattern and has no space around it parses.\<close>

lemma pattern_valid:
  assumes p: "versionPattern s" and t: "trim_space s = s"
  shows "valid_version s"
proof -
  from p obtain s1 s2 s3 s4 s5 where m: "match_number s = Some s1" "match_dot s1 = Some s2"
    "match_number s2 = Some s3" "match_dot s3 = Some s4" "match_number s4 = Some s5" "match_suffix s5"
    by (auto simp: versionPattern_def split: option.splits)
  obtain a where a: "decimalDigits a" "s = a @ s1" "CHR ''.'' \<notin> set a" "CHR ''-'' \<notin> set a"
    using match_number_Some [OF m(1)] .
  obtain b where b: "decimalDigits b" "s2 = b @ s3" "CHR ''.'' \<notin> set b" "CHR ''-'' \<notin> set b"
    using match_number_Some [OF m(3)] .
  obtain c where c: "decimalDigits c" "s4 = c @ s5" "CHR ''.'' \<notin> set c" "CHR ''-'' \<notin> set c"
    using match_number_Some [OF m(5)] .
  have dots: "s1 = CHR ''.'' # s2" "s3 = CHR ''.'' # s4"
    using m(2,4) by (auto simp: match_dot_def split: list.splits if_splits)
  let ?core = "a @ CHR ''.'' # b @ CHR ''.'' # c"
  have s: "s = ?core @ s5" using a(2) b(2) c(2) dots by simp
  have "takeWhile (\<lambda>x. x \<noteq> CHR ''-'') s5 = []" using m(6) by (auto simp: match_suffix_def split: list.splits)
  moreover have "\<forall>x\<in>set ?core. x \<noteq> CHR ''-''" using a(4) b(4) c(4) by auto
  ultimately have "takeWhile (\<lambda>x. x \<noteq> CHR ''-'') s = ?core"
    unfolding s by (subst takeWhile_append2) auto
  moreover have "split_char (CHR ''.'') ?core = [a, b, c]"
    using a(3) b(3) c(3) by (simp add: split_char_step split_char_none)
  ultimately show ?thesis
    using p t a(1) b(1) c(1) by (simp add: valid_version_def parseSemanticVersion_def Let_def)
qed

lemma parse_digits:
  "parseSemanticVersion s = Some v \<Longrightarrow> decimalDigits (svMajor v) \<and> decimalDigits (svMinor v) \<and> decimalDigits (svPatch v)"
  by (auto simp: parseSemanticVersion_def Let_def split: if_splits list.splits)

lemma not_valid_Nil [simp]: "\<not> valid_version []"
  by code_simp

lemma cmp_stage: "cmp (Prerelease xs) (Prerelease ys) = cmp xs ys"
  "cmp Release (Prerelease xs) = 1" "cmp (Prerelease xs) Release = - 1"
  by (auto simp: cmp_def less_stage_def)

lemma compare_precedence:
  assumes "valid_version s" "valid_version t"
  shows "compareSemanticVersions s t = cmp (precedence s) (precedence t)"
proof -
  from assms obtain u v where p: "parseSemanticVersion s = Some u" "parseSemanticVersion t = Some v"
    by (auto simp: valid_version_def)
  note d = parse_digits [OF p(1)] parse_digits [OF p(2)]
  show ?thesis
    using p d by (simp add: compareSemanticVersions_def precedence_def key_of_def compare_decimal cmp_lex
        compare_prerelease cmp_stage Let_def)
qed

text \<open>
  C30. For versions that parse, the comparison of strings is the comparison of their precedence: the
  core as three natural numbers (of any length, leading zeros ignored), a prerelease before its
  release, and prereleases by their identifiers, numbers as numbers and before words; and a version
  is in a range exactly when its precedence is between those of the bounds.
\<close>

theorem compare_is_precedence:
  assumes "valid_version v" "valid_version lo" "valid_version hi"
  shows "compareSemanticVersions v lo = cmp (precedence v) (precedence lo)
    \<and> versionInRange v lo hi = (precedence lo \<le> precedence v \<and> precedence v \<le> precedence hi)"
proof -
  have "lo \<noteq> []" "hi \<noteq> []" using assms(2,3) not_valid_Nil by auto
  with assms show ?thesis by (auto simp: versionInRange_def compare_precedence not_less)
qed

lemma compare_is_precedence_witness:
  "compareSemanticVersions ''1.10.0-rc.2'' ''1.9.0'' = 1 \<and> versionInRange ''1.10.0-rc.2'' ''1.9.0'' ''1.10.0-rc.10''"
proof -
  have v: "valid_version ''1.10.0-rc.2''" "valid_version ''1.9.0''" "valid_version ''1.10.0-rc.10''"
    by code_simp+
  have p: "cmp (precedence ''1.10.0-rc.2'') (precedence ''1.9.0'') = 1"
    "precedence ''1.9.0'' \<le> precedence ''1.10.0-rc.2''" "precedence ''1.10.0-rc.2'' \<le> precedence ''1.10.0-rc.10''"
    by code_simp+
  show ?thesis
    using compare_is_precedence [OF v(1,2,3)] p by simp
qed

section \<open>The contract of a comparison\<close>

text \<open>
  What a user of a comparison of versions needs: on the versions it understands, the signs are those
  of a total preorder.
\<close>

locale version_order =
  fixes compare :: "string \<Rightarrow> string \<Rightarrow> int"
    and valid :: "string \<Rightarrow> bool"
  assumes compare_swap: "valid s \<Longrightarrow> valid t \<Longrightarrow> compare s t < 0 \<longleftrightarrow> compare t s > 0"
    and compare_trans:
      "valid s \<Longrightarrow> valid t \<Longrightarrow> valid u \<Longrightarrow> compare s t \<le> 0 \<Longrightarrow> compare t u \<le> 0 \<Longrightarrow> compare s u \<le> 0"
begin

lemma compare_refl: "valid s \<Longrightarrow> compare s s = 0"
  using compare_swap [of s s] by (cases "compare s s" "0 :: int" rule: linorder_cases) auto

lemma compare_flip: "valid s \<Longrightarrow> valid t \<Longrightarrow> compare s t \<le> 0 \<longleftrightarrow> 0 \<le> compare t s"
  using compare_swap [of t s] by auto

text \<open>Bounds that cross leave no version between them.\<close>

lemma crossed:
  "valid v \<Longrightarrow> valid lo \<Longrightarrow> valid hi \<Longrightarrow> 0 < compare lo hi \<Longrightarrow> compare v lo < 0 \<or> 0 < compare v hi"
  using compare_trans [of lo v hi] compare_flip [of lo v] by force

end

interpretation semver: version_order compareSemanticVersions valid_version
proof
  fix s t u
  assume v: "valid_version s" "valid_version t"
  show "compareSemanticVersions s t < 0 \<longleftrightarrow> compareSemanticVersions t s > 0"
    using v by (simp add: compare_precedence)
  assume u: "valid_version u" "compareSemanticVersions s t \<le> 0" "compareSemanticVersions t u \<le> 0"
  have le: "cmp x y \<le> 0 \<longleftrightarrow> x \<le> y" for x y :: version_key by (auto simp: cmp_def)
  show "compareSemanticVersions s u \<le> 0"
    using u v by (simp add: compare_precedence le)
qed

end
