(* ===== verification/ExtManifest.thy ===== *)
theory ExtManifest
  imports Semver
begin

text \<open>
  Manifests of extensions (\<open>src/internal/extension/model.go\<close>, \<open>manifest.go\<close>): their data, the
  normalization and the validation with its early returns in order, and the runtime contract that
  ties every capability of a plugin to the permissions it uses. The table of the Arabic script is
  the parameter \<open>arabic\<close>; decoding and canonical encoding of JSON are parameters of \<open>ParseManifest\<close>.
\<close>

section \<open>Data\<close>

type_synonym ext_kind = string

definition KindPlugin :: ext_kind where "KindPlugin = ''PLUGIN''"
definition KindAddon :: ext_kind where "KindAddon = ''ADDON''"

type_synonym ext_source = string

definition SourceOfficial :: ext_source where "SourceOfficial = ''OFFICIAL''"
definition SourceLocal :: ext_source where "SourceLocal = ''LOCAL''"
definition SourceCommunity :: ext_source where "SourceCommunity = ''COMMUNITY''"

definition ManifestSchemaVersion :: int where "ManifestSchemaVersion = 1"
definition RuntimeProtocolPluginV1 :: string where "RuntimeProtocolPluginV1 = ''stagecore.plugin.v1''"
definition RuntimeArtifactNativeExecutable :: string where
  "RuntimeArtifactNativeExecutable = ''native-executable''"

record LocalizedText =
  ltEN :: string
  ltArIQ :: string

record Compatibility =
  coAPIMin :: int
  coAPIMax :: int
  coPlatforms :: "string list"
  coArchitectures :: "string list"

record Dependency =
  dpExtensionID :: string
  dpMinVersion :: string
  dpMaxVersion :: string
  dpOptional :: bool

text \<open>A Go map is an association list with distinct keys.\<close>

record RuntimeContract =
  rcProtocol :: string
  rcArtifact :: string
  rcCapabilityPermissions :: "(string \<times> string list) list"

record Manifest =
  mfSchemaVersion :: int
  mfExtensionID :: string
  mfVersion :: string
  mfKind :: ext_kind
  mfSource :: ext_source
  mfName :: LocalizedText
  mfSummary :: LocalizedText
  mfCompatibility :: Compatibility
  mfPermissions :: "string list"
  mfCapabilities :: "string list"
  mfDependencies :: "Dependency list"
  mfRuntime :: "RuntimeContract option"

datatype manifest_error =
    UnsupportedSchema int | InvalidExtensionID string | InvalidVersion | UnsupportedKind string
  | UnsupportedSource string | TextRequired string | ArabicRequired string | InvalidAPIRange
  | PlatformRequired | InvalidToken string string | DuplicateToken string string
  | InvalidPermission string | UnsupportedPermission string | DuplicatePermission string
  | AddonPermissions | InvalidCapability string | DuplicateCapability string
  | InvalidDependency string | SelfDependency | DuplicateDependency string
  | InvalidMinVersion string | InvalidMaxVersion string | CrossedRange string
  | AddonRuntime | RuntimeNotPlugin | UnsupportedProtocol string | UnsupportedArtifact string
  | NoCapability | PermissionMapSize | CapabilityUnmapped string | UndeclaredPermission string string
  | RepeatedPermission string string | UndeclaredCapability string | UnusedPermission string

section \<open>Patterns\<close>

definition lower_digit :: "char \<Rightarrow> bool" where
  "lower_digit c \<longleftrightarrow> is_digit c \<or> CHR ''a'' \<le> c \<and> c \<le> CHR ''z''"

text \<open>\<open>^[a-z0-9]+(?:[._-][a-z0-9]+)+$\<close>: \<open>word\<close> is set inside a word, \<open>again\<close> after a separator.\<close>

fun match_words :: "bool \<Rightarrow> bool \<Rightarrow> string \<Rightarrow> bool" where
  "match_words word again [] = (word \<and> again)"
| "match_words word again (c # s) =
     (if lower_digit c then match_words True again s
      else if word \<and> (c = CHR ''.'' \<or> c = CHR ''_'' \<or> c = CHR ''-'') then match_words False True s
      else False)"

definition extensionIDPattern :: "string \<Rightarrow> bool" where
  "extensionIDPattern s = match_words False False s"

text \<open>\<open>^[a-z][a-z0-9_-]*(?:\.[a-z0-9_-]+)+$\<close>\<close>

fun match_key :: "bool \<Rightarrow> bool \<Rightarrow> string \<Rightarrow> bool" where
  "match_key word again [] = (word \<and> again)"
| "match_key word again (c # s) =
     (if lower_digit c \<or> c = CHR ''_'' \<or> c = CHR ''-'' then match_key True again s
      else if word \<and> c = CHR ''.'' then match_key False True s
      else False)"

definition keyPattern :: "string \<Rightarrow> bool" where
  "keyPattern s = (case s of [] \<Rightarrow> False
     | c # r \<Rightarrow> CHR ''a'' \<le> c \<and> c \<le> CHR ''z'' \<and> match_key True False r)"

text \<open>\<open>^[a-z0-9][a-z0-9._-]*$\<close>\<close>

definition tokenPattern :: "string \<Rightarrow> bool" where
  "tokenPattern s = (case s of [] \<Rightarrow> False
     | c # r \<Rightarrow> lower_digit c
         \<and> list_all (\<lambda>x. lower_digit x \<or> x = CHR ''.'' \<or> x = CHR ''_'' \<or> x = CHR ''-'') r)"

definition knownPermissions :: "string list" where
  "knownPermissions = [''network.udp.send'', ''network.udp.listen'']"

section \<open>Normalization\<close>

definition norm_lower :: "string \<Rightarrow> string" where "norm_lower s = to_lower (trim_space s)"
definition norm_upper :: "string \<Rightarrow> string" where "norm_upper s = to_upper (trim_space s)"

definition norm_text :: "LocalizedText \<Rightarrow> LocalizedText" where
  "norm_text t = \<lparr>ltEN = trim_space (ltEN t), ltArIQ = trim_space (ltArIQ t)\<rparr>"

definition norm_dependency :: "Dependency \<Rightarrow> Dependency" where
  "norm_dependency d = d\<lparr>dpExtensionID := norm_lower (dpExtensionID d),
     dpMinVersion := trim_space (dpMinVersion d), dpMaxVersion := trim_space (dpMaxVersion d)\<rparr>"

definition norm_runtime :: "RuntimeContract \<Rightarrow> RuntimeContract" where
  "norm_runtime r = \<lparr>rcProtocol = norm_lower (rcProtocol r), rcArtifact = norm_lower (rcArtifact r),
     rcCapabilityPermissions = map (\<lambda>(c, ps). (c, sort (map norm_lower ps))) (rcCapabilityPermissions r)\<rparr>"

definition normalizeManifest :: "Manifest \<Rightarrow> Manifest" where
  "normalizeManifest m =
     m\<lparr>mfExtensionID := norm_lower (mfExtensionID m),
       mfVersion := trim_space (mfVersion m),
       mfKind := norm_upper (mfKind m),
       mfSource := norm_upper (mfSource m),
       mfName := norm_text (mfName m),
       mfSummary := norm_text (mfSummary m),
       mfCompatibility := (mfCompatibility m)
         \<lparr>coPlatforms := sort (map norm_lower (coPlatforms (mfCompatibility m))),
          coArchitectures := sort (map norm_lower (coArchitectures (mfCompatibility m)))\<rparr>,
       mfPermissions := sort (map norm_lower (mfPermissions m)),
       mfCapabilities := sort (map norm_lower (mfCapabilities m)),
       mfDependencies := sort_key dpExtensionID (map norm_dependency (mfDependencies m)),
       mfRuntime := map_option norm_runtime (mfRuntime m)\<rparr>"

section \<open>Validation\<close>

text \<open>A sequence of checks returns the first error.\<close>

fun first_error :: "'e option list \<Rightarrow> 'e option" where
  "first_error [] = None"
| "first_error (None # xs) = first_error xs"
| "first_error (Some e # xs) = Some e"

definition guard_error :: "bool \<Rightarrow> 'e \<Rightarrow> 'e option" where
  "guard_error bad e = (if bad then Some e else None)"

definition validateLocalized :: "(string \<Rightarrow> bool) \<Rightarrow> string \<Rightarrow> LocalizedText \<Rightarrow> manifest_error option" where
  "validateLocalized arabic label t =
     (if trim_space (ltEN t) = [] \<or> trim_space (ltArIQ t) = [] then Some (TextRequired label)
      else if arabic (ltArIQ t) then None
      else Some (ArabicRequired label))"

fun validateTokenSet :: "string \<Rightarrow> string list \<Rightarrow> string list \<Rightarrow> manifest_error option" where
  "validateTokenSet label seen [] = None"
| "validateTokenSet label seen (v # vs) =
     (if \<not> tokenPattern v then Some (InvalidToken label v)
      else if v \<in> set seen then Some (DuplicateToken label v)
      else validateTokenSet label (v # seen) vs)"

fun check_permissions :: "string list \<Rightarrow> string list \<Rightarrow> manifest_error option" where
  "check_permissions seen [] = None"
| "check_permissions seen (p # ps) =
     (if \<not> keyPattern p then Some (InvalidPermission p)
      else if p \<notin> set knownPermissions then Some (UnsupportedPermission p)
      else if p \<in> set seen then Some (DuplicatePermission p)
      else check_permissions (p # seen) ps)"

fun check_capabilities :: "string list \<Rightarrow> string list \<Rightarrow> manifest_error option" where
  "check_capabilities seen [] = None"
| "check_capabilities seen (c # cs) =
     (if \<not> keyPattern c then Some (InvalidCapability c)
      else if c \<in> set seen then Some (DuplicateCapability c)
      else check_capabilities (c # seen) cs)"

fun check_dependencies :: "string \<Rightarrow> string list \<Rightarrow> Dependency list \<Rightarrow> manifest_error option" where
  "check_dependencies self seen [] = None"
| "check_dependencies self seen (d # ds) =
     (let i = dpExtensionID d; lo = dpMinVersion d; hi = dpMaxVersion d in
      if \<not> extensionIDPattern i then Some (InvalidDependency i)
      else if i = self then Some SelfDependency
      else if i \<in> set seen then Some (DuplicateDependency i)
      else if lo \<noteq> [] \<and> \<not> versionPattern lo then Some (InvalidMinVersion i)
      else if hi \<noteq> [] \<and> \<not> versionPattern hi then Some (InvalidMaxVersion i)
      else if lo \<noteq> [] \<and> hi \<noteq> [] \<and> compareSemanticVersions lo hi > 0 then Some (CrossedRange i)
      else check_dependencies self (i # seen) ds)"

text \<open>The inner loop of the runtime contract, over the permissions of one capability.\<close>

fun check_uses :: "string list \<Rightarrow> string \<Rightarrow> string list \<Rightarrow> string list \<Rightarrow> string list
    \<Rightarrow> manifest_error + string list" where
  "check_uses declared c seen used [] = Inr used"
| "check_uses declared c seen used (p # ps) =
     (if p \<notin> set declared then Inl (UndeclaredPermission c p)
      else if p \<in> set seen then Inl (RepeatedPermission c p)
      else check_uses declared c (p # seen) (p # used) ps)"

fun check_mapping :: "string list \<Rightarrow> (string \<times> string list) list \<Rightarrow> string list \<Rightarrow> string list
    \<Rightarrow> manifest_error + string list" where
  "check_mapping declared mp used [] = Inr used"
| "check_mapping declared mp used (c # cs) =
     (case map_of mp c of None \<Rightarrow> Inl (CapabilityUnmapped c)
      | Some ps \<Rightarrow> (case check_uses declared c [] used ps of Inl e \<Rightarrow> Inl e
                    | Inr used' \<Rightarrow> check_mapping declared mp used' cs))"

definition seenCapability :: "string list \<Rightarrow> string \<Rightarrow> bool" where
  "seenCapability vs v = list_ex (\<lambda>x. x = v) vs"

definition validateRuntimeContract :: "Manifest \<Rightarrow> manifest_error option" where
  "validateRuntimeContract m =
     (case mfRuntime m of None \<Rightarrow> None
      | Some r \<Rightarrow>
        if mfKind m \<noteq> KindPlugin then Some RuntimeNotPlugin
        else if rcProtocol r \<noteq> RuntimeProtocolPluginV1 then Some (UnsupportedProtocol (rcProtocol r))
        else if rcArtifact r \<noteq> RuntimeArtifactNativeExecutable then Some (UnsupportedArtifact (rcArtifact r))
        else if mfCapabilities m = [] then Some NoCapability
        else if length (rcCapabilityPermissions r) \<noteq> length (mfCapabilities m) then Some PermissionMapSize
        else case check_mapping (mfPermissions m) (rcCapabilityPermissions r) [] (mfCapabilities m) of
          Inl e \<Rightarrow> Some e
        | Inr used \<Rightarrow>
            (case find (\<lambda>c. \<not> seenCapability (mfCapabilities m) c) (map fst (rcCapabilityPermissions r)) of
               Some c \<Rightarrow> Some (UndeclaredCapability c)
             | None \<Rightarrow>
                 (case find (\<lambda>p. p \<notin> set used) (mfPermissions m) of
                    Some p \<Rightarrow> Some (UnusedPermission p)
                  | None \<Rightarrow> None)))"

definition ValidateManifest :: "(string \<Rightarrow> bool) \<Rightarrow> Manifest \<Rightarrow> manifest_error option" where
  "ValidateManifest arabic m0 =
     (let m = normalizeManifest m0; co = mfCompatibility m in
      first_error
        [guard_error (mfSchemaVersion m \<noteq> ManifestSchemaVersion) (UnsupportedSchema (mfSchemaVersion m)),
         guard_error (\<not> extensionIDPattern (mfExtensionID m)) (InvalidExtensionID (mfExtensionID m)),
         guard_error (\<not> versionPattern (mfVersion m)) InvalidVersion,
         guard_error (mfKind m \<noteq> KindPlugin \<and> mfKind m \<noteq> KindAddon) (UnsupportedKind (mfKind m)),
         guard_error (mfSource m \<noteq> SourceOfficial \<and> mfSource m \<noteq> SourceLocal \<and> mfSource m \<noteq> SourceCommunity)
           (UnsupportedSource (mfSource m)),
         validateLocalized arabic ''name'' (mfName m),
         validateLocalized arabic ''summary'' (mfSummary m),
         guard_error (coAPIMin co < 0 \<or> coAPIMax co < coAPIMin co) InvalidAPIRange,
         guard_error (coPlatforms co = [] \<or> coArchitectures co = []) PlatformRequired,
         validateTokenSet ''platform'' [] (coPlatforms co),
         validateTokenSet ''architecture'' [] (coArchitectures co),
         check_permissions [] (mfPermissions m),
         guard_error (mfKind m = KindAddon \<and> mfPermissions m \<noteq> []) AddonPermissions,
         check_capabilities [] (mfCapabilities m),
         check_dependencies (mfExtensionID m) [] (mfDependencies m),
         guard_error (mfKind m = KindAddon \<and> mfRuntime m \<noteq> None) AddonRuntime,
         validateRuntimeContract m])"

datatype parse_error = DecodeError | EncodeError | ManifestError manifest_error

text \<open>\<open>decode\<close> is the strict JSON decoder with its check for trailing data, \<open>canonical\<close> the encoder.\<close>

definition ParseManifest :: "(string \<Rightarrow> bool) \<Rightarrow> (string \<Rightarrow> Manifest option) \<Rightarrow> (Manifest \<Rightarrow> string option)
    \<Rightarrow> string \<Rightarrow> parse_error + (Manifest \<times> string)" where
  "ParseManifest arabic decode canonical raw =
     (case decode raw of None \<Rightarrow> Inl DecodeError
      | Some m0 \<Rightarrow>
        let m = normalizeManifest m0 in
        case ValidateManifest arabic m of Some e \<Rightarrow> Inl (ManifestError e)
        | None \<Rightarrow> (case canonical m of None \<Rightarrow> Inl EncodeError | Some c \<Rightarrow> Inr (m, c)))"

section \<open>What validation guarantees\<close>

lemma first_error_None: "first_error xs = None \<longleftrightarrow> (\<forall>x\<in>set xs. x = None)"
  by (induction xs rule: first_error.induct) auto

lemma guard_error_None [simp]: "guard_error b e = None \<longleftrightarrow> \<not> b"
  by (simp add: guard_error_def)

lemma check_dependencies_None:
  "check_dependencies self seen ds = None \<Longrightarrow> d \<in> set ds
    \<Longrightarrow> (dpMinVersion d = [] \<or> versionPattern (dpMinVersion d)) \<and> (dpMaxVersion d = [] \<or> versionPattern (dpMaxVersion d))"
  by (induction self seen ds rule: check_dependencies.induct) (auto simp: Let_def split: if_splits)

lemma check_uses_Inr:
  "check_uses declared c seen used ps = Inr used'
    \<Longrightarrow> set ps \<subseteq> set declared \<and> distinct ps \<and> set ps \<inter> set seen = {} \<and> set used' = set used \<union> set ps"
  by (induction declared c seen used ps arbitrary: used' rule: check_uses.induct) (auto split: if_splits)

lemma check_uses_ok:
  "set ps \<subseteq> set declared \<Longrightarrow> distinct ps \<Longrightarrow> set ps \<inter> set seen = {} \<Longrightarrow> \<exists>used'. check_uses declared c seen used ps = Inr used'"
  by (induction declared c seen used ps rule: check_uses.induct) auto

text \<open>Every capability of the list is mapped to distinct, declared permissions; all of them are used.\<close>

definition mapped_ok :: "string list \<Rightarrow> (string \<times> string list) list \<Rightarrow> string \<Rightarrow> bool" where
  "mapped_ok declared mp c \<longleftrightarrow> (case map_of mp c of None \<Rightarrow> False | Some ps \<Rightarrow> set ps \<subseteq> set declared \<and> distinct ps)"

lemma check_mapping_Inr:
  "check_mapping declared mp used cs = Inr used'
    \<Longrightarrow> (\<forall>c\<in>set cs. mapped_ok declared mp c) \<and> set used' = set used \<union> (\<Union>c\<in>set cs. set (the (map_of mp c)))"
proof (induction declared mp used cs arbitrary: used' rule: check_mapping.induct)
  case (2 declared mp used c cs)
  then obtain ps used1 where ps: "map_of mp c = Some ps" "check_uses declared c [] used ps = Inr used1"
    "check_mapping declared mp used1 cs = Inr used'"
    by (auto split: option.splits sum.splits)
  from check_uses_Inr [OF ps(2)] 2(1) [OF ps(1) ps(2) ps(3)] ps(1) show ?case
    by (auto simp: mapped_ok_def)
qed simp

lemma check_mapping_ok:
  "\<forall>c\<in>set cs. mapped_ok declared mp c \<Longrightarrow> \<exists>used'. check_mapping declared mp used cs = Inr used'"
proof (induction declared mp used cs rule: check_mapping.induct)
  case (2 declared mp used c cs)
  then obtain ps where ps: "map_of mp c = Some ps" "set ps \<subseteq> set declared" "distinct ps"
    by (auto simp: mapped_ok_def split: option.splits)
  then obtain used1 where "check_uses declared c [] used ps = Inr used1"
    using check_uses_ok [of ps declared "[]" c used] by auto
  with 2 ps show ?case by auto
qed simp

text \<open>
  Least privilege: the contract maps exactly the capabilities, every capability to distinct declared
  permissions, and no permission is declared that no capability uses.
\<close>

definition least_privilege :: "Manifest \<Rightarrow> RuntimeContract \<Rightarrow> bool" where
  "least_privilege m r \<longleftrightarrow>
     (let mp = rcCapabilityPermissions r in
      fst ` set mp = set (mfCapabilities m)
      \<and> (\<forall>(c, ps)\<in>set mp. distinct ps \<and> set ps \<subseteq> set (mfPermissions m))
      \<and> set (mfPermissions m) = (\<Union>(c, ps)\<in>set mp. set ps))"

definition runtime_header_ok :: "Manifest \<Rightarrow> RuntimeContract \<Rightarrow> bool" where
  "runtime_header_ok m r \<longleftrightarrow> mfKind m = KindPlugin \<and> rcProtocol r = RuntimeProtocolPluginV1
     \<and> rcArtifact r = RuntimeArtifactNativeExecutable \<and> mfCapabilities m \<noteq> []"

lemma find_all_None: "find P xs = None \<longleftrightarrow> (\<forall>x\<in>set xs. \<not> P x)"
  by (induction xs) auto

lemma mapped_ok_all:
  assumes "distinct (map fst mp)"
  shows "(\<forall>c\<in>fst ` set mp. mapped_ok declared mp c) \<longleftrightarrow> (\<forall>(c, ps)\<in>set mp. distinct ps \<and> set ps \<subseteq> set declared)"
proof -
  have "mapped_ok declared mp (fst x) \<longleftrightarrow> distinct (snd x) \<and> set (snd x) \<subseteq> set declared" if "x \<in> set mp" for x
    using map_of_is_SomeI [OF assms, of "fst x" "snd x"] that by (auto simp: mapped_ok_def)
  then show ?thesis by (simp add: split_beta)
qed

lemma mapped_union:
  assumes "distinct (map fst mp)"
  shows "(\<Union>c\<in>fst ` set mp. set (the (map_of mp c))) = (\<Union>(c, ps)\<in>set mp. set ps)"
proof -
  have "the (map_of mp (fst x)) = snd x" if "x \<in> set mp" for x
    using map_of_is_SomeI [OF assms, of "fst x" "snd x"] that by simp
  then show ?thesis by (simp add: split_beta)
qed

lemma runtime_contract_iff:
  assumes r: "mfRuntime m = Some r" and d: "distinct (map fst (rcCapabilityPermissions r))" "distinct (mfCapabilities m)"
  shows "validateRuntimeContract m = None \<longleftrightarrow> runtime_header_ok m r \<and> least_privilege m r"
proof -
  let ?mp = "rcCapabilityPermissions r" and ?cs = "mfCapabilities m" and ?ps = "mfPermissions m"
  show ?thesis
  proof
    assume v: "validateRuntimeContract m = None"
    with r have h: "runtime_header_ok m r" and sz: "length ?mp = length ?cs"
      by (auto simp: validateRuntimeContract_def runtime_header_ok_def split: if_splits)
    with v r obtain used where u: "check_mapping ?ps ?mp [] ?cs = Inr used"
      by (cases "check_mapping ?ps ?mp [] ?cs") (simp_all add: validateRuntimeContract_def runtime_header_ok_def)
    have "find (\<lambda>c. \<not> seenCapability ?cs c) (map fst ?mp) = None \<and> find (\<lambda>p. p \<notin> set used) ?ps = None"
      using v r h sz u
      by (simp add: validateRuntimeContract_def runtime_header_ok_def split: option.splits)
    then have caps: "\<forall>c\<in>fst ` set ?mp. c \<in> set ?cs" and perms: "\<forall>p\<in>set ?ps. p \<in> set used"
      by (auto simp: seenCapability_def list_ex_iff find_all_None)
    note mp = check_mapping_Inr [OF u]
    have sub: "set ?cs \<subseteq> fst ` set ?mp"
    proof
      fix c assume "c \<in> set ?cs"
      with mp have "mapped_ok ?ps ?mp c" by blast
      then have "map_of ?mp c \<noteq> None" by (cases "map_of ?mp c") (simp_all add: mapped_ok_def)
      then show "c \<in> fst ` set ?mp" by (simp add: map_of_eq_None_iff)
    qed
    with caps have eq: "fst ` set ?mp = set ?cs" by auto
    have "least_privilege m r"
      unfolding least_privilege_def Let_def
    proof (intro conjI)
      show ok: "\<forall>(c, ps)\<in>set ?mp. distinct ps \<and> set ps \<subseteq> set ?ps"
        using mp eq mapped_ok_all [OF d(1), of ?ps] by simp
      show "set ?ps = (\<Union>(c, ps)\<in>set ?mp. set ps)"
        using mp eq mapped_union [OF d(1)] perms ok by auto
    qed (rule eq)
    with h show "runtime_header_ok m r \<and> least_privilege m r" by simp
  next
    assume h: "runtime_header_ok m r \<and> least_privilege m r"
    then have eq: "fst ` set ?mp = set ?cs" by (simp add: least_privilege_def Let_def)
    have sz: "length ?mp = length ?cs"
      using d eq by (metis distinct_card length_map list.set_map)
    have "\<forall>c\<in>set ?cs. mapped_ok ?ps ?mp c"
    proof -
      have "\<forall>(c, ps)\<in>set ?mp. distinct ps \<and> set ps \<subseteq> set ?ps" using h unfolding least_privilege_def Let_def by blast
      then show ?thesis using mapped_ok_all [OF d(1), of ?ps] eq by simp
    qed
    then obtain used where u: "check_mapping ?ps ?mp [] ?cs = Inr used" using check_mapping_ok by blast
    have "set used = set ?ps"
      using check_mapping_Inr [OF u] mapped_union [OF d(1)] h eq by (simp add: least_privilege_def Let_def)
    then have p: "find (\<lambda>p. p \<notin> set used) ?ps = None" by (simp add: find_all_None)
    have c: "find (\<lambda>c. \<not> seenCapability ?cs c) (map fst ?mp) = None"
      using eq by (auto simp: find_all_None seenCapability_def list_ex_iff)
    show "validateRuntimeContract m = None"
      using h r sz u p c by (simp add: validateRuntimeContract_def runtime_header_ok_def)
  qed
qed

section \<open>What a parsed manifest is\<close>

lemma validateTokenSet_None:
  "validateTokenSet label seen vs = None \<Longrightarrow> distinct vs \<and> set vs \<inter> set seen = {} \<and> list_all tokenPattern vs"
  by (induction label seen vs rule: validateTokenSet.induct) (auto split: if_splits)

lemma check_capabilities_None:
  "check_capabilities seen cs = None \<Longrightarrow> distinct cs \<and> set cs \<inter> set seen = {}"
  by (induction seen cs rule: check_capabilities.induct) (auto split: if_splits)

lemma check_permissions_None:
  "check_permissions seen ps = None \<Longrightarrow> distinct ps \<and> set ps \<inter> set seen = {} \<and> set ps \<subseteq> set knownPermissions"
  by (induction seen ps rule: check_permissions.induct) (auto split: if_splits)

text \<open>
  The versions of a manifest, and the type of a valid one. Go maps have distinct keys; a map whose
  keys coincide is not one of the language.
\<close>

definition versions_ok :: "Manifest \<Rightarrow> bool" where
  "versions_ok m \<longleftrightarrow> valid_version (mfVersion m)
     \<and> (\<forall>d\<in>set (mfDependencies m). (dpMinVersion d = [] \<or> valid_version (dpMinVersion d))
                                     \<and> (dpMaxVersion d = [] \<or> valid_version (dpMaxVersion d)))"

definition runtime_ok :: "Manifest \<Rightarrow> bool" where
  "runtime_ok m \<longleftrightarrow>
     (case mfRuntime m of None \<Rightarrow> True | Some r \<Rightarrow> runtime_header_ok m r \<and> least_privilege m r)
     \<and> set (mfPermissions m) \<subseteq> set knownPermissions
     \<and> (if mfKind m = KindAddon then mfPermissions m = [] \<and> mfRuntime m = None else mfKind m = KindPlugin)"

definition go_map :: "Manifest \<Rightarrow> bool" where
  "go_map m \<longleftrightarrow> (case mfRuntime m of None \<Rightarrow> True | Some r \<Rightarrow> distinct (map fst (rcCapabilityPermissions r)))"

lemma norm_versions [simp]:
  "mfVersion (normalizeManifest m) = trim_space (mfVersion m)"
  "mfDependencies (normalizeManifest m) = sort_key dpExtensionID (map norm_dependency (mfDependencies m))"
  "dpMinVersion (norm_dependency d) = trim_space (dpMinVersion d)"
  "dpMaxVersion (norm_dependency d) = trim_space (dpMaxVersion d)"
  by (simp_all add: normalizeManifest_def norm_dependency_def)

lemma normalized_trimmed:
  assumes "m = normalizeManifest m0"
  shows "trim_space (mfVersion m) = mfVersion m"
    "d \<in> set (mfDependencies m) \<Longrightarrow> trim_space (dpMinVersion d) = dpMinVersion d \<and> trim_space (dpMaxVersion d) = dpMaxVersion d"
  using assms by auto

lemma validated_versions:
  assumes v: "ValidateManifest arabic m = None" and m: "m = normalizeManifest m0"
  shows "versions_ok m"
proof -
  let ?n = "normalizeManifest m"
  have pv: "versionPattern (mfVersion ?n)" and pd: "check_dependencies (mfExtensionID ?n) [] (mfDependencies ?n) = None"
    using v by (simp_all add: ValidateManifest_def Let_def first_error_None)
  have "valid_version (mfVersion m)"
    using pv pattern_valid normalized_trimmed(1) [OF m] by simp
  moreover have "(dpMinVersion d = [] \<or> valid_version (dpMinVersion d)) \<and> (dpMaxVersion d = [] \<or> valid_version (dpMaxVersion d))"
    if d: "d \<in> set (mfDependencies m)" for d
  proof -
    have "norm_dependency d \<in> set (mfDependencies ?n)" using d by simp
    from check_dependencies_None [OF pd this] normalized_trimmed(2) [OF m d] pattern_valid show ?thesis by auto
  qed
  ultimately show ?thesis by (simp add: versions_ok_def)
qed

lemma validated_runtime:
  assumes v: "ValidateManifest arabic m = None" and g: "go_map m"
  shows "runtime_ok (normalizeManifest m)"
proof -
  let ?n = "normalizeManifest m"
  have c: "distinct (mfCapabilities ?n)" and p: "set (mfPermissions ?n) \<subseteq> set knownPermissions"
    and r: "validateRuntimeContract ?n = None"
    and k: "mfKind ?n = KindPlugin \<or> mfKind ?n = KindAddon"
    and a: "mfKind ?n = KindAddon \<longrightarrow> mfPermissions ?n = []" "mfKind ?n = KindAddon \<longrightarrow> mfRuntime ?n = None"
    using v by (auto simp: ValidateManifest_def Let_def first_error_None
        dest!: check_capabilities_None check_permissions_None)
  have "runtime_header_ok ?n s \<and> least_privilege ?n s" if s: "mfRuntime ?n = Some s" for s
  proof -
    have "distinct (map fst (rcCapabilityPermissions s))"
      using g s by (auto simp: go_map_def normalizeManifest_def norm_runtime_def comp_def split_beta)
    from runtime_contract_iff [OF s this c] r show ?thesis by simp
  qed
  with p k a show ?thesis by (auto simp: runtime_ok_def split: option.splits)
qed

text \<open>
  C31. What \<open>ParseManifest\<close> accepts is well typed: its version and the bounds of every dependency
  parse as versions; an addon has no permission and no runtime; and the runtime contract of a plugin
  maps exactly its capabilities, each to distinct declared permissions, with no permission left over.
\<close>

theorem parsed_manifest_valid:
  assumes "ParseManifest arabic decode canonical raw = Inr (m, c)" "go_map m"
  shows "versions_ok m \<and> runtime_ok (normalizeManifest m)"
proof -
  from assms(1) obtain m0 where m: "m = normalizeManifest m0" "ValidateManifest arabic m = None"
    by (auto simp: ParseManifest_def Let_def split: option.splits)
  show ?thesis using validated_versions [OF m(2,1)] validated_runtime [OF m(2) assms(2)] by simp
qed

definition demo_manifest :: Manifest where
  "demo_manifest = \<lparr>mfSchemaVersion = 1, mfExtensionID = ''stagecore.osc'', mfVersion = ''1.2.0'', mfKind = ''PLUGIN'',
     mfSource = ''LOCAL'', mfName = \<lparr>ltEN = ''Osc'', ltArIQ = ''x''\<rparr>, mfSummary = \<lparr>ltEN = ''Osc'', ltArIQ = ''x''\<rparr>,
     mfCompatibility = \<lparr>coAPIMin = 1, coAPIMax = 2, coPlatforms = [''linux''], coArchitectures = [''arm64'']\<rparr>,
     mfPermissions = [''network.udp.send''], mfCapabilities = [''osc.send''],
     mfDependencies = [\<lparr>dpExtensionID = ''stagecore.net'', dpMinVersion = ''1.0.0'', dpMaxVersion = [], dpOptional = False\<rparr>],
     mfRuntime = Some \<lparr>rcProtocol = ''stagecore.plugin.v1'', rcArtifact = ''native-executable'',
                       rcCapabilityPermissions = [(''osc.send'', [''network.udp.send''])]\<rparr>\<rparr>"

lemma parsed_manifest_valid_witness:
  "versions_ok demo_manifest \<and> runtime_ok (normalizeManifest demo_manifest)"
proof (rule parsed_manifest_valid)
  show "ParseManifest (\<lambda>_. True) (\<lambda>_. Some demo_manifest) (\<lambda>_. Some []) [] = Inr (demo_manifest, [])"
    by code_simp
  show "go_map demo_manifest" by code_simp
qed

section \<open>Lower case keeps the ends trimmed\<close>

text \<open>No letter is a space, so lower case neither makes nor hides one at the ends of a string.\<close>

definition caseless :: "char \<Rightarrow> bool" where
  "caseless c \<longleftrightarrow> (of_char c :: nat) < 97 \<or> 122 < (of_char c :: nat)"

lemma caseless_ik: "\<not> caseless (CHR ''i'')" "\<not> caseless (CHR ''k'')"
  by (simp_all add: caseless_def)

lemma low_char_caseless: "caseless (low_char c) \<Longrightarrow> low_char c = c"
proof -
  assume a: "caseless (low_char c)"
  show ?thesis
  proof (cases "65 \<le> (of_char c :: nat) \<and> of_char c \<le> (90 :: nat)")
    case True
    then have "low_char c = char_of (of_char c + (32 :: nat))" by (simp add: low_char_def)
    then have "(of_char (low_char c) :: nat) = (of_char c + 32) mod 256" by simp
    with a True show ?thesis by (simp add: caseless_def)
  qed (auto simp: low_char_def)
qed

text \<open>One step of lower case writes one character, and a caseless one only for itself.\<close>

lemma to_lower_step:
  "\<exists>c s'. to_lower (a # s) = c # to_lower s' \<and> (caseless c \<longrightarrow> c = a \<and> s' = s) \<and> (\<exists>p. a # s = p @ s' \<and> p \<noteq> [])"
proof -
  consider (two) s1 where "a = CHR 0xC4" "s = CHR 0xB0 # s1"
    | (three) s2 where "a = CHR 0xE2" "s = CHR 0x84 # CHR 0xAA # s2"
    | (one) "to_lower (a # s) = low_char a # to_lower s"
  proof (cases s)
    case Nil
    then show thesis by (intro one) simp
  next
    case (Cons b s1)
    note b = this
    show thesis
    proof (cases s1)
      case Nil
      show thesis
      proof (cases "a = CHR 0xC4 \<and> b = CHR 0xB0")
        case True
        with b Nil show thesis by (intro two) auto
      next
        case False
        then have "to_lower (a # [b]) = low_char a # to_lower [b]" by (subst to_lower.simps(2)) auto
        with b Nil show thesis by (intro one) simp
      qed
    next
      case (Cons c s2)
      consider "a = CHR 0xC4 \<and> b = CHR 0xB0" | "a = CHR 0xE2 \<and> b = CHR 0x84 \<and> c = CHR 0xAA"
        | "\<not> (a = CHR 0xC4 \<and> b = CHR 0xB0)" "\<not> (a = CHR 0xE2 \<and> b = CHR 0x84 \<and> c = CHR 0xAA)" by blast
      then show thesis
      proof cases
        case 1
        with b Cons show thesis by (intro two) auto
      next
        case 2
        with b Cons show thesis by (intro three) auto
      next
        case 3
        then have "to_lower (a # (b # c # s2)) = low_char a # to_lower (b # c # s2)" by (subst to_lower.simps(2)) auto
        with b Cons show thesis by (intro one) simp
      qed
    qed
  qed
  then show ?thesis
  proof cases
    case two
    then have "to_lower (a # s) = CHR ''i'' # to_lower s1" by simp
    with two caseless_ik show ?thesis by (intro exI [of _ "CHR ''i''"] exI [of _ s1]) auto
  next
    case three
    then have "to_lower (a # s) = CHR ''k'' # to_lower s2" by simp
    with three caseless_ik show ?thesis by (intro exI [of _ "CHR ''k''"] exI [of _ s2]) auto
  next
    case one
    then show ?thesis using low_char_caseless [of a] by (intro exI [of _ "low_char a"] exI [of _ s]) auto
  qed
qed

lemma to_lower_suffix:
  "to_lower t = v @ w \<Longrightarrow> list_all caseless w \<Longrightarrow> \<exists>v'. t = v' @ w \<and> (v = [] \<longrightarrow> v' = [])"
proof (induction t arbitrary: v w rule: length_induct)
  case (1 t)
  show ?case
  proof (cases t)
    case Nil
    with 1 show ?thesis by simp
  next
    case (Cons a s)
    obtain c s' p where c: "to_lower (a # s) = c # to_lower s'" "caseless c \<longrightarrow> c = a \<and> s' = s" "a # s = p @ s'" "p \<noteq> []"
      using to_lower_step by metis
    have "length (a # s) = length p + length s'" using c(3) by (metis length_append)
    with c(4) have len: "length s' < length t" using Cons by (cases p) auto
    show ?thesis
    proof (cases v)
      case Nil
      with 1 c(1) Cons obtain w2 where w: "w = c # w2" "to_lower s' = [] @ w2" by auto
      with 1(3) have "caseless c" "list_all caseless w2" by simp_all
      with 1(1) len w(2) have "s' = w2" by fastforce
      with c(2) \<open>caseless c\<close> w Nil Cons show ?thesis by simp
    next
      case (Cons b v2)
      with 1(2) c(1) \<open>t = a # s\<close> have "to_lower s' = v2 @ w" by simp
      with 1(1) 1(3) len obtain v' where "s' = v' @ w" by blast
      with c(3) \<open>t = a # s\<close> Cons show ?thesis by (intro exI [of _ "p @ v'"]) simp
    qed
  qed
qed

lemma to_lower_prefix:
  "to_lower t = w @ v \<Longrightarrow> list_all caseless w \<Longrightarrow> \<exists>v'. t = w @ v'"
proof (induction w arbitrary: t)
  case (Cons b w)
  then obtain a s where t: "t = a # s" by (cases t) auto
  obtain c s' where c: "to_lower (a # s) = c # to_lower s'" "caseless c \<longrightarrow> c = a \<and> s' = s"
    using to_lower_step by metis
  with Cons.prems t have "b = a" "to_lower s = w @ v" by auto
  with Cons.IH [of s] Cons.prems(2) t show ?case by auto
qed simp

text \<open>A space at the beginning, as bytes.\<close>

definition space_bytes :: "string \<Rightarrow> bool" where
  "space_bytes w \<longleftrightarrow> (case w of [a] \<Rightarrow> ascii_space a | [a, b] \<Rightarrow> space2 a b | [a, b, c] \<Rightarrow> space3 a b c | _ \<Rightarrow> False)"

lemma space_bytes_caseless: "space_bytes w \<Longrightarrow> list_all caseless w"
  by (auto simp: space_bytes_def ascii_space_def space2_def space3_def caseless_def split: list.splits)

lemma space_bytes_cases:
  assumes "space_bytes w"
  obtains a where "w = [a]" "ascii_space a" | a b where "w = [a, b]" "space2 a b" | a b c where "w = [a, b, c]" "space3 a b c"
  using assms by (auto simp: space_bytes_def split: list.splits)

lemma space_len_iff: "space_len s \<noteq> 0 \<longleftrightarrow> (\<exists>w r. s = w @ r \<and> space_bytes w)"
proof
  assume "space_len s \<noteq> 0"
  then consider a r where "s = a # r" "ascii_space a" | a b r where "s = a # b # r" "space2 a b"
    | a b c r where "s = a # b # c # r" "space3 a b c"
    by (auto simp: space_len_def split: list.splits if_splits)
  then show "\<exists>w r. s = w @ r \<and> space_bytes w"
  proof cases
    case 1 then show ?thesis by (intro exI [of _ "[a]"] exI [of _ r]) (simp add: space_bytes_def)
  next
    case 2 then show ?thesis by (intro exI [of _ "[a, b]"] exI [of _ r]) (simp add: space_bytes_def)
  next
    case 3 then show ?thesis by (intro exI [of _ "[a, b, c]"] exI [of _ r]) (simp add: space_bytes_def)
  qed
next
  assume "\<exists>w r. s = w @ r \<and> space_bytes w"
  then obtain w r where "s = w @ r" "space_bytes w" by blast
  then show "space_len s \<noteq> 0" by (auto simp: space_len_def elim!: space_bytes_cases)
qed

lemma rspace_len_iff: "rspace_len (rev s) \<noteq> 0 \<longleftrightarrow> (\<exists>w r. s = r @ w \<and> space_bytes w)"
proof
  assume "rspace_len (rev s) \<noteq> 0"
  then consider a r where "rev s = a # r" "ascii_space a" | a b r where "rev s = a # b # r" "space2 b a"
    | a b c r where "rev s = a # b # c # r" "space3 c b a"
    by (auto simp: rspace_len_def split: list.splits if_splits)
  then show "\<exists>w r. s = r @ w \<and> space_bytes w"
  proof cases
    case 1 then show ?thesis by (intro exI [of _ "[a]"] exI [of _ "rev r"]) (simp add: space_bytes_def rev_swap)
  next
    case 2 then show ?thesis by (intro exI [of _ "[b, a]"] exI [of _ "rev r"]) (simp add: space_bytes_def rev_swap)
  next
    case 3 then show ?thesis by (intro exI [of _ "[c, b, a]"] exI [of _ "rev r"]) (simp add: space_bytes_def rev_swap)
  qed
next
  assume "\<exists>w r. s = r @ w \<and> space_bytes w"
  then obtain w r where "s = r @ w" "space_bytes w" by blast
  then show "rspace_len (rev s) \<noteq> 0" by (auto simp: rspace_len_def elim!: space_bytes_cases)
qed

lemma trim_to_lower [simp]: "trim_space (to_lower (trim_space s)) = to_lower (trim_space s)"
proof (rule trim_space_id)
  let ?t = "trim_space s"
  have t: "space_len ?t = 0" "rspace_len (rev ?t) = 0" by (rule trim_space_ends)+
  show "space_len (to_lower ?t) = 0"
  proof (rule ccontr)
    assume "space_len (to_lower ?t) \<noteq> 0"
    then obtain w r where w: "to_lower ?t = w @ r" "space_bytes w" unfolding space_len_iff by blast
    with to_lower_prefix space_bytes_caseless obtain r' where "?t = w @ r'" by blast
    with w(2) have "space_len ?t \<noteq> 0" unfolding space_len_iff by blast
    with t(1) show False by simp
  qed
  show "rspace_len (rev (to_lower ?t)) = 0"
  proof (rule ccontr)
    assume "rspace_len (rev (to_lower ?t)) \<noteq> 0"
    then obtain w r where w: "to_lower ?t = r @ w" "space_bytes w" unfolding rspace_len_iff by blast
    with to_lower_suffix space_bytes_caseless obtain r' where "?t = r' @ w" by blast
    with w(2) have "rspace_len (rev ?t) \<noteq> 0" unfolding rspace_len_iff by blast
    with t(2) show False by simp
  qed
qed

lemma trim_norm_lower [simp]: "trim_space (norm_lower s) = norm_lower s"
  by (simp add: norm_lower_def)

lemma norm_lower_trim: "norm_lower s = s \<Longrightarrow> trim_space s = s"
  using trim_norm_lower [of s] by simp

end
