(* ===== verification/DependencyOrder.thy ===== *)
theory DependencyOrder
  imports CueGroup "HOL-Library.AList"
begin

text \<open>
  The search for a cycle and the order of installation of \<open>src/internal/extension/dependency_plan.go\<close>:
  depth-first searches over the edges, which terminate on every graph. A missing cycle and the order
  are characterized by the relation \<open>edge_rel\<close> of the edges.
\<close>

text \<open>A Go map of slices, as an association list.\<close>

definition entry :: "(string \<times> 'a list) list \<Rightarrow> string \<Rightarrow> 'a list" where
  "entry al k = (case map_of al k of None \<Rightarrow> [] | Some v \<Rightarrow> v)"

section \<open>Cycles and the order of installation\<close>

text \<open>
  The depth-first search keeps the stack of active nodes; the position of a node in it is its entry
  in the map \<open>active\<close>. The result is a cycle, or the finished nodes.
\<close>

function (sequential) cycle_visit :: "(string \<times> string list) list \<Rightarrow> string list \<Rightarrow> string \<Rightarrow> string set \<Rightarrow> string list + string set"
and cycle_children :: "(string \<times> string list) list \<Rightarrow> string list \<Rightarrow> string list \<Rightarrow> string set \<Rightarrow> string list + string set" where
  "cycle_visit edges stack node visited =
     (if node \<in> set stack then Inl (dropWhile (\<lambda>x. x \<noteq> node) stack @ [node])
      else if node \<in> visited then Inr visited
      else case cycle_children edges (stack @ [node]) (sort (entry edges node)) visited of
        Inl c \<Rightarrow> Inl c
      | Inr visited' \<Rightarrow> Inr (insert node visited'))"
| "cycle_children edges stack [] visited = Inr visited"
| "cycle_children edges stack (c # cs) visited =
     (case cycle_visit edges stack c visited of Inl cyc \<Rightarrow> Inl cyc
      | Inr visited' \<Rightarrow> cycle_children edges stack cs visited')"
  by pat_completeness auto

lemma entry_no_key: "k \<notin> fst ` set al \<Longrightarrow> entry al k = []"
  by (simp add: entry_def map_of_eq_None_iff split: option.splits) (metis map_of_eq_None_iff option.distinct(1))

text \<open>A node with children is a key, and each level of the search adds one to the stack.\<close>

termination cycle_visit
proof (relation "measures
    [\<lambda>x. case x of Inl (e, s, n, v) \<Rightarrow> card (fst ` set e - set s) | Inr (e, s, cs, v) \<Rightarrow> card (fst ` set e - set s),
     \<lambda>x. case x of Inl _ \<Rightarrow> 1 | Inr (e, s, cs, v) \<Rightarrow> 2 * length cs]", goal_cases)
  case (2 edges stack node visited)
  show ?case
  proof (cases "node \<in> fst ` set edges")
    case True
    then have "fst ` set edges - set (stack @ [node]) \<subset> fst ` set edges - set stack" using 2 by auto
    then have "card (fst ` set edges - set (stack @ [node])) < card (fst ` set edges - set stack)"
      by (intro psubset_card_mono) auto
    then show ?thesis by simp
  next
    case False
    then have "fst ` set edges - set (stack @ [node]) = fst ` set edges - set stack" by auto
    with False show ?thesis by (simp add: entry_no_key)
  qed
qed auto

declare cycle_visit.simps [simp del]

definition detectDependencyCycle :: "string \<Rightarrow> (string \<times> string list) list \<Rightarrow> string list" where
  "detectDependencyCycle r edges = (case cycle_visit edges [] r {} of Inl c \<Rightarrow> c | Inr _ \<Rightarrow> [])"

text \<open>The order marks a node before its children and appends it after them.\<close>

function (sequential) order_visit :: "(string \<times> string list) list \<Rightarrow> string \<Rightarrow> string set \<times> string list \<Rightarrow> string set \<times> string list"
and order_children :: "(string \<times> string list) list \<Rightarrow> string list \<Rightarrow> string set \<times> string list \<Rightarrow> string set \<times> string list" where
  "order_visit edges node st =
     (if node \<in> fst st then st
      else let st' = order_children edges (sort (entry edges node)) (insert node (fst st), snd st)
           in (fst st', snd st' @ [node]))"
| "order_children edges [] st = st"
| "order_children edges (c # cs) st = order_children edges cs (order_visit edges c st)"
  by pat_completeness auto

lemma order_grows:
  "order_visit_order_children_dom (Inl (edges, node, st)) \<Longrightarrow> fst st \<subseteq> fst (order_visit edges node st)"
  "order_visit_order_children_dom (Inr (edges, cs, st)) \<Longrightarrow> fst st \<subseteq> fst (order_children edges cs st)"
proof (induction edges node st and edges cs st rule: order_visit_order_children.pinduct)
  case (1 edges node st)
  then show ?case by (auto simp: order_visit.psimps Let_def)
next
  case (2 edges st)
  then show ?case by (simp add: order_children.psimps)
next
  case (3 edges c cs st)
  then show ?case by (auto simp: order_children.psimps)
qed

termination order_visit
proof (relation "measures
    [\<lambda>x. case x of Inl (e, n, st) \<Rightarrow> card (fst ` set e - fst st) | Inr (e, cs, st) \<Rightarrow> card (fst ` set e - fst st),
     \<lambda>x. case x of Inl _ \<Rightarrow> 1 | Inr (e, cs, st) \<Rightarrow> 2 * length cs]", goal_cases)
  case (2 edges node st)
  show ?case
  proof (cases "node \<in> fst ` set edges")
    case True
    then have "fst ` set edges - insert node (fst st) \<subset> fst ` set edges - fst st" using 2 by auto
    then have "card (fst ` set edges - insert node (fst st)) < card (fst ` set edges - fst st)"
      by (intro psubset_card_mono) auto
    then show ?thesis by simp
  next
    case False
    then have "fst ` set edges - insert node (fst st) = fst ` set edges - fst st" by auto
    with False show ?thesis by (simp add: entry_no_key)
  qed
next
  case (4 edges c cs st)
  have "card (fst ` set edges - fst (order_visit edges c st)) \<le> card (fst ` set edges - fst st)"
    using order_grows(1) [OF 4] by (intro card_mono) auto
  then show ?case by auto
qed auto

declare order_visit.simps [simp del]

definition dependencyInstallOrder :: "string \<Rightarrow> (string \<times> string list) list \<Rightarrow> string list" where
  "dependencyInstallOrder r edges = snd (order_visit edges r ({}, []))"

section \<open>No cycle is reported exactly when there is none\<close>

abbreviation edges_of :: "(string \<times> string list) list \<Rightarrow> (string \<times> string) set" where
  "edges_of edges \<equiv> edge_rel (entry edges)"

definition done_ok :: "(string \<times> string) set \<Rightarrow> string list \<Rightarrow> string set \<Rightarrow> bool" where
  "done_ok L stack visited \<longleftrightarrow> L `` visited \<subseteq> visited \<and> (\<forall>y\<in>visited. (y, y) \<notin> L\<^sup>+) \<and> visited \<inter> set stack = {}"

lemma done_leave:
  assumes d: "done_ok L (stack @ [node]) v" and out: "L `` {node} \<subseteq> v" and n: "node \<notin> set stack"
  shows "done_ok L stack (insert node v)"
proof -
  have cl: "L `` v \<subseteq> v" and nv: "node \<notin> v" using d by (auto simp: done_ok_def)
  have "(node, node) \<notin> L\<^sup>+"
  proof
    assume "(node, node) \<in> L\<^sup>+"
    then obtain y where "(node, y) \<in> L" "(y, node) \<in> L\<^sup>*" by (meson tranclD)
    then have "node \<in> v" using out closed_rtrancl [OF cl] by blast
    with nv show False ..
  qed
  with d out n show ?thesis by (auto simp: done_ok_def)
qed

lemma edge_rel_image [simp]: "edge_rel f `` {x} = set (f x)"
  by (auto simp: edge_rel_def)

lemma cycle_none:
  "cycle_visit edges stack node visited = Inr v' \<Longrightarrow> done_ok (edges_of edges) stack visited
    \<Longrightarrow> done_ok (edges_of edges) stack v' \<and> insert node visited \<subseteq> v'"
  "cycle_children edges stack cs visited = Inr v' \<Longrightarrow> done_ok (edges_of edges) stack visited
    \<Longrightarrow> done_ok (edges_of edges) stack v' \<and> set cs \<union> visited \<subseteq> v'"
proof (induction edges stack node visited and edges stack cs visited arbitrary: v' and v'
    rule: cycle_visit_cycle_children.induct)
  case (1 edges stack node visited)
  show ?case
  proof (cases "node \<in> set stack \<or> node \<in> visited")
    case True
    with 1 show ?thesis by (auto simp: cycle_visit.simps split: if_splits)
  next
    case False
    with 1 obtain w where w: "cycle_children edges (stack @ [node]) (sort (entry edges node)) visited = Inr w"
      and v': "v' = insert node w" by (auto simp: cycle_visit.simps split: sum.splits)
    have d: "done_ok (edges_of edges) (stack @ [node]) visited"
      using 1(3) False by (auto simp: done_ok_def)
    have "done_ok (edges_of edges) (stack @ [node]) w" "set (entry edges node) \<union> visited \<subseteq> w"
      using 1(1) [OF _ _ w d] False by auto
    then show ?thesis using done_leave [of "edges_of edges" stack node w] False v' by auto
  qed
next
  case (3 edges stack c cs visited)
  then obtain w where w: "cycle_visit edges stack c visited = Inr w" "cycle_children edges stack cs w = Inr v'"
    by (auto split: sum.splits)
  with 3(1) [OF w(1) 3(4)] 3(2) [OF w(1) w(2)] show ?case by auto
qed auto

lemma cycle_found:
  "cycle_visit edges stack node visited = Inl c \<Longrightarrow> successively (\<lambda>x y. (x, y) \<in> edges_of edges) (stack @ [node])
    \<Longrightarrow> successively (\<lambda>x y. (x, y) \<in> edges_of edges) c \<and> 2 \<le> length c \<and> hd c = last c"
  "cycle_children edges stack cs visited = Inl c \<Longrightarrow> stack \<noteq> [] \<Longrightarrow> successively (\<lambda>x y. (x, y) \<in> edges_of edges) stack
    \<Longrightarrow> set cs \<subseteq> set (entry edges (last stack))
    \<Longrightarrow> successively (\<lambda>x y. (x, y) \<in> edges_of edges) c \<and> 2 \<le> length c \<and> hd c = last c"
proof (induction edges stack node visited and edges stack cs visited rule: cycle_visit_cycle_children.induct)
  case (1 edges stack node visited)
  let ?E = "\<lambda>x y. (x, y) \<in> edges_of edges"
  show ?case
  proof (cases "node \<in> set stack")
    case True
    let ?d = "dropWhile (\<lambda>x. x \<noteq> node) stack"
    have c: "c = ?d @ [node]" using 1(2) True by (simp add: cycle_visit.simps)
    have ne: "?d \<noteq> []" "hd ?d = node"
      using True by (auto simp: dropWhile_eq_Nil_conv hd_dropWhile) (metis (mono_tags, lifting) dropWhile_eq_Nil_conv hd_dropWhile)
    have "stack @ [node] = takeWhile (\<lambda>x. x \<noteq> node) stack @ ?d @ [node]"
      by (metis append_assoc takeWhile_dropWhile_id)
    with 1(3) have "successively ?E (takeWhile (\<lambda>x. x \<noteq> node) stack @ ?d @ [node])" by simp
    then have "successively ?E (?d @ [node])" by (simp only: successively_append_iff)
    with c ne show ?thesis by (cases ?d) auto
  next
    case False
    with 1(2) have w: "node \<notin> visited" "cycle_children edges (stack @ [node]) (sort (entry edges node)) visited = Inl c"
      by (auto simp: cycle_visit.simps split: if_splits sum.splits)
    from 1(1) [OF False w(1) w(2)] 1(3) show ?thesis by simp
  qed
next
  case (3 edges stack c' cs visited)
  show ?case
  proof (cases "cycle_visit edges stack c' visited")
    case (Inl x)
    have "successively (\<lambda>x y. (x, y) \<in> edges_of edges) (stack @ [c'])"
      using 3(4,5,6) by (simp add: successively_append_iff edge_rel_def)
    with 3(1) 3(3) Inl show ?thesis by simp
  next
    case (Inr v)
    with 3 show ?thesis by simp
  qed
qed auto

lemma cycle_path:
  "successively (\<lambda>x y. (x, y) \<in> L) xs \<Longrightarrow> 2 \<le> length xs \<Longrightarrow> (hd xs, last xs) \<in> L\<^sup>+"
proof (induction xs rule: induct_list012)
  case (3 x y zs)
  show ?case
  proof (cases zs)
    case Nil
    with 3 show ?thesis by auto
  next
    case (Cons z zs')
    with 3 have "(y, last (y # zs)) \<in> L\<^sup>+" "(x, y) \<in> L" by simp_all
    then show ?thesis by (simp add: Cons trancl_into_trancl2)
  qed
qed auto

section \<open>The order puts dependencies first\<close>

definition deps_first :: "(string \<times> string) set \<Rightarrow> string list \<Rightarrow> bool" where
  "deps_first L xs \<longleftrightarrow> (\<forall>ys x zs. xs = ys @ x # zs \<longrightarrow> L `` {x} \<subseteq> set ys)"

lemma deps_first_Nil [simp]: "deps_first L []"
  by (simp add: deps_first_def)

lemma deps_first_snoc [simp]: "deps_first L (xs @ [x]) \<longleftrightarrow> deps_first L xs \<and> L `` {x} \<subseteq> set xs"
proof
  assume a: "deps_first L (xs @ [x])"
  have "L `` {y} \<subseteq> set ys" if "xs = ys @ y # zs" for ys y zs
  proof -
    have "xs @ [x] = ys @ y # (zs @ [x])" using that by simp
    then show ?thesis using a unfolding deps_first_def by blast
  qed
  then have "deps_first L xs" by (simp add: deps_first_def)
  moreover have "L `` {x} \<subseteq> set xs" using a unfolding deps_first_def by blast
  ultimately show "deps_first L xs \<and> L `` {x} \<subseteq> set xs" ..
next
  assume a: "deps_first L xs \<and> L `` {x} \<subseteq> set xs"
  show "deps_first L (xs @ [x])"
    unfolding deps_first_def
  proof (intro allI impI)
    fix ys y zs assume e: "xs @ [x] = ys @ y # zs"
    show "L `` {y} \<subseteq> set ys"
    proof (cases zs rule: rev_cases)
      case Nil
      with e a show ?thesis by simp
    next
      case (snoc zs' z)
      with e have "xs = ys @ y # zs'" by simp
      with a show ?thesis unfolding deps_first_def by blast
    qed
  qed
qed

text \<open>Marked nodes that are not yet in the order lead to the node that is visited.\<close>

definition order_ok :: "(string \<times> string) set \<Rightarrow> string set \<times> string list \<Rightarrow> bool" where
  "order_ok L st \<longleftrightarrow> set (snd st) \<subseteq> fst st \<and> distinct (snd st) \<and> deps_first L (snd st)"

definition order_ext :: "(string \<times> string) set \<Rightarrow> string set \<times> string list \<Rightarrow> string set \<times> string list \<Rightarrow> bool" where
  "order_ext L st st' \<longleftrightarrow> order_ok L st' \<and> fst st' - set (snd st') = fst st - set (snd st) \<and> set (snd st) \<subseteq> set (snd st')"

lemma order_ext_trans: "order_ext L a b \<Longrightarrow> order_ext L b c \<Longrightarrow> order_ext L a c"
  by (auto simp: order_ext_def)

lemma order_sound:
  "order_ok (edges_of edges) st \<Longrightarrow> \<forall>g\<in>fst st - set (snd st). (g, node) \<in> (edges_of edges)\<^sup>+
    \<Longrightarrow> \<forall>y\<in>(edges_of edges)\<^sup>* `` {node}. (y, y) \<notin> (edges_of edges)\<^sup>+
    \<Longrightarrow> order_ext (edges_of edges) st (order_visit edges node st)
      \<and> node \<in> set (snd (order_visit edges node st))
      \<and> set (snd (order_visit edges node st)) \<subseteq> set (snd st) \<union> (edges_of edges)\<^sup>* `` {node}"
  "order_ok (edges_of edges) st \<Longrightarrow> \<forall>c\<in>set cs. \<forall>g\<in>fst st - set (snd st). (g, c) \<in> (edges_of edges)\<^sup>+
    \<Longrightarrow> \<forall>c\<in>set cs. \<forall>y\<in>(edges_of edges)\<^sup>* `` {c}. (y, y) \<notin> (edges_of edges)\<^sup>+
    \<Longrightarrow> order_ext (edges_of edges) st (order_children edges cs st)
      \<and> set cs \<subseteq> set (snd (order_children edges cs st))
      \<and> set (snd (order_children edges cs st)) \<subseteq> set (snd st) \<union> (edges_of edges)\<^sup>* `` set cs"
proof (induction edges node st and edges cs st rule: order_visit_order_children.induct)
  case (1 edges node st)
  let ?L = "edges_of edges"
  show ?case
  proof (cases "node \<in> fst st")
    case True
    have "(node, node) \<notin> ?L\<^sup>+" using 1(4) by auto
    with True 1(3) have "node \<in> set (snd st)" by blast
    with True 1(2) show ?thesis by (auto simp: order_ext_def order_visit.simps)
  next
    case False
    let ?s = "(insert node (fst st), snd st)" and ?cs = "sort (entry edges node)"
    let ?t = "order_children edges ?cs ?s"
    have ok: "order_ok ?L ?s" using 1(2) by (auto simp: order_ok_def)
    have child: "(node, c) \<in> ?L" if "c \<in> set ?cs" for c using that by (simp add: edge_rel_def)
    have grey: "\<forall>c\<in>set ?cs. \<forall>g\<in>fst ?s - set (snd ?s). (g, c) \<in> ?L\<^sup>+"
      using 1(3) child by auto (metis DiffI r_into_trancl trancl.trancl_into_trancl)+
    have ac: "\<forall>c\<in>set ?cs. \<forall>y\<in>?L\<^sup>* `` {c}. (y, y) \<notin> ?L\<^sup>+"
      using 1(4) child by (auto intro: converse_rtrancl_into_rtrancl)
    have t: "order_ext ?L ?s ?t" "set ?cs \<subseteq> set (snd ?t)" "set (snd ?t) \<subseteq> set (snd st) \<union> ?L\<^sup>* `` set ?cs"
      using 1(1) [OF False ok grey ac] by simp_all
    have nt: "node \<notin> set (snd ?t)"
    proof
      assume "node \<in> set (snd ?t)"
      moreover have "node \<notin> set (snd st)" using False 1(2) by (auto simp: order_ok_def)
      ultimately obtain c where "c \<in> set ?cs" "(c, node) \<in> ?L\<^sup>*" using t(3) by auto
      with child [of c] have "(node, node) \<in> ?L\<^sup>+" by (meson rtrancl_into_trancl2)
      with 1(4) show False by auto
    qed
    have r: "order_visit edges node st = (fst ?t, snd ?t @ [node])" using False by (simp add: order_visit.simps Let_def)
    have "?L `` {node} \<subseteq> set (snd ?t)" using t(2) by simp
    moreover have "set (snd ?t) \<subseteq> set (snd st) \<union> ?L\<^sup>* `` {node}"
      using t(3) child by (auto intro: converse_rtrancl_into_rtrancl)
    moreover have "node \<in> fst ?t" using t(1) nt by (auto simp: order_ext_def)
    ultimately show ?thesis
      unfolding r using t(1) nt False 1(2) by (auto simp: order_ext_def order_ok_def)
  qed
next
  case (2 edges st)
  then show ?case by (simp add: order_ext_def)
next
  case (3 edges c cs st)
  let ?L = "edges_of edges"
  have v: "order_ext ?L st (order_visit edges c st)" "c \<in> set (snd (order_visit edges c st))"
    "set (snd (order_visit edges c st)) \<subseteq> set (snd st) \<union> ?L\<^sup>* `` {c}"
    using 3(1) [OF 3(3)] 3(4,5) by simp_all
  then have "order_ok ?L (order_visit edges c st)"
    "fst (order_visit edges c st) - set (snd (order_visit edges c st)) = fst st - set (snd st)"
    by (simp_all add: order_ext_def)
  with 3(2) [OF this(1)] 3(4,5) have w: "order_ext ?L (order_visit edges c st) (order_children edges (c # cs) st)"
    "set cs \<subseteq> set (snd (order_children edges (c # cs) st))"
    "set (snd (order_children edges (c # cs) st)) \<subseteq> set (snd (order_visit edges c st)) \<union> ?L\<^sup>* `` set cs"
    by simp_all
  have "?L\<^sup>* `` set (c # cs) = ?L\<^sup>* `` {c} \<union> ?L\<^sup>* `` set cs" by auto
  with v(3) w(3) have "set (snd (order_children edges (c # cs) st)) \<subseteq> set (snd st) \<union> ?L\<^sup>* `` set (c # cs)" by blast
  moreover have "c \<in> set (snd (order_children edges (c # cs) st))" using v(2) w(1) by (auto simp: order_ext_def)
  ultimately show ?case using order_ext_trans [OF v(1) w(1)] w(2) by simp
qed

lemma install_order:
  assumes "detectDependencyCycle r edges = []"
  shows "distinct (dependencyInstallOrder r edges)"
    "deps_first (edges_of edges) (dependencyInstallOrder r edges)"
    "set (dependencyInstallOrder r edges) = (edges_of edges)\<^sup>* `` {r}"
proof -
  let ?L = "edges_of edges"
  obtain v where v: "cycle_visit edges [] r {} = Inr v"
    using assms cycle_found(1) [of edges "[]" r "{}"] by (cases "cycle_visit edges [] r {}") (auto simp: detectDependencyCycle_def)
  have "done_ok ?L [] v" "r \<in> v" using cycle_none(1) [OF v] by (auto simp: done_ok_def)
  then have ac: "\<forall>y\<in>?L\<^sup>* `` {r}. (y, y) \<notin> ?L\<^sup>+"
    using closed_rtrancl [of ?L v r] by (auto simp: done_ok_def)
  have o: "order_ext ?L ({}, []) (order_visit edges r ({}, []))" "r \<in> set (dependencyInstallOrder r edges)"
    "set (dependencyInstallOrder r edges) \<subseteq> ?L\<^sup>* `` {r}"
    using order_sound(1) [of edges "({}, [])" r] ac by (simp_all add: order_ok_def dependencyInstallOrder_def)
  then show "distinct (dependencyInstallOrder r edges)" and df: "deps_first ?L (dependencyInstallOrder r edges)"
    by (simp_all add: order_ext_def order_ok_def dependencyInstallOrder_def)
  have "?L `` set (dependencyInstallOrder r edges) \<subseteq> set (dependencyInstallOrder r edges)"
  proof clarify
    fix x y assume "x \<in> set (dependencyInstallOrder r edges)" "(x, y) \<in> ?L"
    then obtain ys zs where "dependencyInstallOrder r edges = ys @ x # zs" by (meson split_list)
    moreover from this df have "?L `` {x} \<subseteq> set ys" unfolding deps_first_def by blast
    ultimately show "y \<in> set (dependencyInstallOrder r edges)" using \<open>(x, y) \<in> ?L\<close> by (auto simp: edge_rel_def)
  qed
  with closed_rtrancl [OF this] o show "set (dependencyInstallOrder r edges) = ?L\<^sup>* `` {r}" by blast
qed

end
