(* ===== verification/DependencySolver.thy ===== *)
theory DependencySolver
  imports ExtManifest DependencyOrder
begin

text \<open>
  The reads of the extension library (\<open>src/internal/extension/library.go\<close>, \<open>installer.go\<close>) and
  the solver for required dependencies of \<open>dependency_plan.go\<close>, which backtracks over the packages
  of the library. The tables are lists of rows; a read of the library parses and
  checks the stored manifest. During a plan the tables do not change, so the solver's caches are not
  visible and are left out. JSON, SHA-256, the software repository and the files of an installed
  payload are parameters.
\<close>

section \<open>The library and the installed packages\<close>

record ExtensionPackage =
  xpPackageID :: string
  xpExtensionID :: string
  xpVersion :: string
  xpManifestJSON :: string
  xpManifestSHA256 :: string
  xpRegisteredAt :: int

record ExtensionInstallation =
  xiInstallationID :: string
  xiPackageID :: string
  xiInstalledAt :: int

record PackageStatus =
  psCompatible :: bool
  psProductionReady :: bool
  psReason :: string

record Package =
  pkPackageID :: string
  pkManifest :: Manifest
  pkCompatible :: bool
  pkProductionReady :: bool
  pkReason :: string

datatype plan_error =
    DatabaseError | NotFound | InvalidManifest parse_error | HashMismatch string | SoftwareError
  | PayloadError | MultipleInstalled string | PackageIDRequired

text \<open>\<open>xeDatabase\<close> tells whether the database answers; \<open>xePayload\<close> is the check of an installed file.\<close>

record ext_env =
  xePackages :: "ExtensionPackage list"
  xeInstallations :: "ExtensionInstallation list"
  xeDatabase :: bool
  xeArabic :: "string \<Rightarrow> bool"
  xeDecode :: "string \<Rightarrow> Manifest option"
  xeCanonical :: "Manifest \<Rightarrow> string option"
  xeSHA256 :: "string \<Rightarrow> string"
  xeSoftware :: "string \<Rightarrow> PackageStatus option"
  xePayload :: "ExtensionInstallation \<Rightarrow> bool"

text \<open>A stable sort by a comparison, for \<open>ORDER BY\<close> and \<open>sort.SliceStable\<close>.\<close>

fun insert_by :: "('a \<Rightarrow> 'a \<Rightarrow> bool) \<Rightarrow> 'a \<Rightarrow> 'a list \<Rightarrow> 'a list" where
  "insert_by lt x [] = [x]"
| "insert_by lt x (y # ys) = (if lt y x then y # insert_by lt x ys else x # y # ys)"

definition sort_by :: "('a \<Rightarrow> 'a \<Rightarrow> bool) \<Rightarrow> 'a list \<Rightarrow> 'a list" where
  "sort_by lt xs = foldr (insert_by lt) xs []"

fun map_result :: "('a \<Rightarrow> 'e + 'b) \<Rightarrow> 'a list \<Rightarrow> 'e + 'b list" where
  "map_result f [] = Inr []"
| "map_result f (x # xs) =
     (case f x of Inl e \<Rightarrow> Inl e
      | Inr y \<Rightarrow> (case map_result f xs of Inl e \<Rightarrow> Inl e | Inr ys \<Rightarrow> Inr (y # ys)))"

definition makePackage :: "ExtensionPackage \<Rightarrow> Manifest \<Rightarrow> PackageStatus \<Rightarrow> Package" where
  "makePackage row m st = \<lparr>pkPackageID = xpPackageID row, pkManifest = m, pkCompatible = psCompatible st,
     pkProductionReady = psProductionReady st, pkReason = psReason st\<rparr>"

definition inflate :: "ext_env \<Rightarrow> ExtensionPackage \<Rightarrow> plan_error + Package" where
  "inflate env row =
     (case ParseManifest (xeArabic env) (xeDecode env) (xeCanonical env) (xpManifestJSON row) of
        Inl e \<Rightarrow> Inl (InvalidManifest e)
      | Inr (m, canonical) \<Rightarrow>
          if xeSHA256 env canonical \<noteq> xpManifestSHA256 row then Inl (HashMismatch (xpPackageID row))
          else (case xeSoftware env (xpPackageID row) of None \<Rightarrow> Inl SoftwareError
                | Some st \<Rightarrow> Inr (makePackage row m st)))"

definition library_Get :: "ext_env \<Rightarrow> string \<Rightarrow> plan_error + Package" where
  "library_Get env packageID =
     (if \<not> xeDatabase env then Inl DatabaseError
      else case find (\<lambda>r. xpPackageID r = trim_space packageID) (xePackages env) of
        None \<Rightarrow> Inl NotFound
      | Some row \<Rightarrow> inflate env row)"

definition package_row_less :: "ExtensionPackage \<Rightarrow> ExtensionPackage \<Rightarrow> bool" where
  "package_row_less a b =
     (if xpExtensionID a \<noteq> xpExtensionID b then xpExtensionID a < xpExtensionID b
      else if xpVersion a \<noteq> xpVersion b then xpVersion b < xpVersion a
      else if xpRegisteredAt a \<noteq> xpRegisteredAt b then xpRegisteredAt b < xpRegisteredAt a
      else xpPackageID a < xpPackageID b)"

definition ListExtensionPackages :: "ext_env \<Rightarrow> string \<Rightarrow> plan_error + ExtensionPackage list" where
  "ListExtensionPackages env extensionID0 =
     (let extensionID = trim_space extensionID0 in
      if \<not> xeDatabase env then Inl DatabaseError
      else Inr (sort_by package_row_less
        (filter (\<lambda>r. extensionID = [] \<or> xpExtensionID r = extensionID) (xePackages env))))"

definition library_List :: "ext_env \<Rightarrow> string \<Rightarrow> plan_error + Package list" where
  "library_List env extensionID =
     (case ListExtensionPackages env extensionID of Inl e \<Rightarrow> Inl e
      | Inr rows \<Rightarrow> map_result (inflate env) rows)"

text \<open>The installations of an extension, newest first, joined with their packages.\<close>

definition installation_row_less :: "ExtensionInstallation \<Rightarrow> ExtensionInstallation \<Rightarrow> bool" where
  "installation_row_less a b =
     (if xiInstalledAt a \<noteq> xiInstalledAt b then xiInstalledAt b < xiInstalledAt a
      else xiInstallationID b < xiInstallationID a)"

definition ListExtensionInstallations :: "ext_env \<Rightarrow> string \<Rightarrow> plan_error + ExtensionInstallation list" where
  "ListExtensionInstallations env extensionID0 =
     (let extensionID = trim_space extensionID0 in
      if \<not> xeDatabase env then Inl DatabaseError
      else Inr (sort_by installation_row_less
        (filter (\<lambda>i. case find (\<lambda>r. xpPackageID r = xiPackageID i) (xePackages env) of None \<Rightarrow> False
                     | Some r \<Rightarrow> extensionID = [] \<or> xpExtensionID r = extensionID) (xeInstallations env))))"

definition inflateAndVerify :: "ext_env \<Rightarrow> ExtensionInstallation \<Rightarrow> plan_error + ExtensionInstallation" where
  "inflateAndVerify env i =
     (case library_Get env (xiPackageID i) of Inl e \<Rightarrow> Inl e
      | Inr _ \<Rightarrow> if \<not> xePayload env i then Inl PayloadError else Inr i)"

definition installer_List :: "ext_env \<Rightarrow> string \<Rightarrow> plan_error + ExtensionInstallation list" where
  "installer_List env extensionID =
     (case ListExtensionInstallations env extensionID of Inl e \<Rightarrow> Inl e
      | Inr rows \<Rightarrow> map_result (inflateAndVerify env) rows)"

definition installedPackage :: "ext_env \<Rightarrow> string \<Rightarrow> plan_error + Package option" where
  "installedPackage env extensionID =
     (case installer_List env extensionID of Inl e \<Rightarrow> Inl e
      | Inr [] \<Rightarrow> Inr None
      | Inr [i] \<Rightarrow> (case library_Get env (xiPackageID i) of Inl e \<Rightarrow> Inl e | Inr p \<Rightarrow> Inr (Some p))
      | Inr _ \<Rightarrow> Inl (MultipleInstalled extensionID))"

definition sourceRank :: "string \<Rightarrow> nat" where
  "sourceRank s = (if s = SourceOfficial then 3 else if s = SourceLocal then 2 else if s = SourceCommunity then 1 else 0)"

abbreviation pkVersion :: "Package \<Rightarrow> string" where "pkVersion p \<equiv> mfVersion (pkManifest p)"

definition candidate_less :: "Package \<Rightarrow> Package \<Rightarrow> bool" where
  "candidate_less l r =
     (let c = compareSemanticVersions (pkVersion l) (pkVersion r);
          a = sourceRank (mfSource (pkManifest l)); b = sourceRank (mfSource (pkManifest r)) in
      if c \<noteq> 0 then c > 0
      else if pkProductionReady l \<noteq> pkProductionReady r then pkProductionReady l
      else if a \<noteq> b then a > b
      else pkPackageID l < pkPackageID r)"

definition candidates :: "ext_env \<Rightarrow> string \<Rightarrow> plan_error + Package list" where
  "candidates env extensionID =
     (case library_List env extensionID of Inl e \<Rightarrow> Inl e | Inr items \<Rightarrow> Inr (sort_by candidate_less items))"

section \<open>Requirements\<close>

record dependencyRequirement =
  rqRequiredBy :: string
  rqMinVersion :: string
  rqMaxVersion :: string

record InstallPlanBlocker =
  ibCode :: string
  ibExtensionID :: string
  ibRequiredBy :: string
  ibMinVersion :: string
  ibMaxVersion :: string
  ibInstalledVersion :: string
  ibDetail :: string

definition blocker :: "string \<Rightarrow> string \<Rightarrow> InstallPlanBlocker" where
  "blocker code ext = \<lparr>ibCode = code, ibExtensionID = ext, ibRequiredBy = [], ibMinVersion = [], ibMaxVersion = [],
     ibInstalledVersion = [], ibDetail = []\<rparr>"

definition appendRequirement :: "dependencyRequirement list \<Rightarrow> dependencyRequirement \<Rightarrow> dependencyRequirement list" where
  "appendRequirement vs r = (if r \<in> set vs then vs else vs @ [r])"

definition appendUniqueString :: "string list \<Rightarrow> string \<Rightarrow> string list" where
  "appendUniqueString vs v = (if v \<in> set vs then vs else vs @ [v])"

definition packageSatisfiesRequirements :: "Package \<Rightarrow> dependencyRequirement list \<Rightarrow> bool" where
  "packageSatisfiesRequirements p rs =
     list_all (\<lambda>r. versionInRange (pkVersion p) (rqMinVersion r) (rqMaxVersion r)) rs"

fun tightest :: "string \<Rightarrow> string \<Rightarrow> dependencyRequirement list \<Rightarrow> string \<times> string" where
  "tightest lo hi [] = (lo, hi)"
| "tightest lo hi (r # rs) =
     tightest
       (if rqMinVersion r \<noteq> [] \<and> (lo = [] \<or> compareSemanticVersions (rqMinVersion r) lo > 0) then rqMinVersion r else lo)
       (if rqMaxVersion r \<noteq> [] \<and> (hi = [] \<or> compareSemanticVersions (rqMaxVersion r) hi < 0) then rqMaxVersion r else hi)
       rs"

definition effectiveRequirementRange :: "dependencyRequirement list \<Rightarrow> string \<times> string \<times> bool" where
  "effectiveRequirementRange rs =
     (let (lo, hi) = tightest [] [] rs in
      (lo, hi, lo \<noteq> [] \<and> hi \<noteq> [] \<and> compareSemanticVersions lo hi > 0))"

definition primaryRequiredBy :: "dependencyRequirement list \<Rightarrow> string" where
  "primaryRequiredBy rs = (case sort (map rqRequiredBy rs) of [] \<Rightarrow> [] | x # _ \<Rightarrow> x)"

fun join :: "string \<Rightarrow> string list \<Rightarrow> string" where
  "join sep [] = []"
| "join sep [x] = x"
| "join sep (x # xs) = x @ sep @ join sep xs"

definition requirementDetail :: "dependencyRequirement list \<Rightarrow> string" where
  "requirementDetail rs =
     join '', '' (sort (map (\<lambda>r. rqRequiredBy r @ '':'' @
       (if rqMinVersion r \<noteq> [] \<and> rqMaxVersion r \<noteq> [] then rqMinVersion r @ ''..'' @ rqMaxVersion r
        else if rqMinVersion r \<noteq> [] then ''>='' @ rqMinVersion r
        else if rqMaxVersion r \<noteq> [] then ''<='' @ rqMaxVersion r
        else ''any version'')) rs))"

definition selectedConflictBlocker :: "string \<Rightarrow> dependencyRequirement list \<Rightarrow> string \<Rightarrow> bool \<Rightarrow> InstallPlanBlocker" where
  "selectedConflictBlocker ext rs installedVersion installed =
     (let (lo, hi, _) = effectiveRequirementRange rs in
      (blocker (if installed then ''DEPENDENCY_INSTALLED_VERSION_CONFLICT'' else ''DEPENDENCY_SELECTED_VERSION_CONFLICT'') ext)
        \<lparr>ibRequiredBy := primaryRequiredBy rs, ibMinVersion := lo, ibMaxVersion := hi,
         ibInstalledVersion := installedVersion, ibDetail := requirementDetail rs\<rparr>)"

section \<open>The solver\<close>

text \<open>The maps the code iterates over are association lists.\<close>

record dependencySolveState =
  slSelected :: "(string \<times> Package) list"
  slInstalled :: "string \<Rightarrow> bool"
  slExpanded :: "string \<Rightarrow> bool"
  slConstraints :: "(string \<times> dependencyRequirement list) list"
  slEdges :: "(string \<times> string list) list"

definition newDependencySolveState :: dependencySolveState where
  "newDependencySolveState = \<lparr>slSelected = [], slInstalled = (\<lambda>_. False), slExpanded = (\<lambda>_. False),
     slConstraints = [], slEdges = []\<rparr>"

definition first_sorted :: "string list \<Rightarrow> string" where
  "first_sorted xs = (case sort xs of [] \<Rightarrow> [] | x # _ \<Rightarrow> x)"

definition nextUnexpandedSelection :: "dependencySolveState \<Rightarrow> string" where
  "nextUnexpandedSelection st = first_sorted (filter (\<lambda>e. \<not> slExpanded st e) (map fst (slSelected st)))"

definition nextUnresolvedDependency :: "dependencySolveState \<Rightarrow> string" where
  "nextUnresolvedDependency st =
     first_sorted (filter (\<lambda>e. map_of (slSelected st) e = None) (map fst (slConstraints st)))"

text \<open>One required dependency of a selected extension: its constraint and its edge.\<close>

definition require :: "string \<Rightarrow> Dependency \<Rightarrow> dependencySolveState \<Rightarrow> dependencySolveState" where
  "require ext d st =
     (let i = dpExtensionID d in
      st\<lparr>slConstraints := AList.update i
           (appendRequirement (entry (slConstraints st) i)
              \<lparr>rqRequiredBy = ext, rqMinVersion = dpMinVersion d, rqMaxVersion = dpMaxVersion d\<rparr>) (slConstraints st),
         slEdges := AList.update ext (appendUniqueString (entry (slEdges st) ext) i) (slEdges st)\<rparr>)"

fun expand :: "string \<Rightarrow> Dependency list \<Rightarrow> dependencySolveState \<Rightarrow> InstallPlanBlocker + dependencySolveState" where
  "expand ext [] st = Inr st"
| "expand ext (d # ds) st =
     (if dpOptional d then expand ext ds st
      else
        let st' = require ext d st; i = dpExtensionID d; rs = entry (slConstraints st') i in
        case map_of (slSelected st') i of
          Some p \<Rightarrow>
            if \<not> packageSatisfiesRequirements p rs
            then Inl (selectedConflictBlocker i rs (pkVersion p) (slInstalled st' i))
            else expand ext ds st'
        | None \<Rightarrow> expand ext ds st')"

definition select :: "string \<Rightarrow> Package \<Rightarrow> bool \<Rightarrow> dependencySolveState \<Rightarrow> dependencySolveState" where
  "select ext p inst st = st\<lparr>slSelected := AList.update ext p (slSelected st),
     slInstalled := (slInstalled st)(ext := inst)\<rparr>"

datatype solve_result = Solved dependencySolveState | Blocked InstallPlanBlocker | Failed plan_error

text \<open>
  Every turn of the loop and every recursive call is one unit of fuel; \<open>solve_trials\<close> is the loop over
  the matching candidates, which keeps the first blocker.
\<close>

fun solve :: "ext_env \<Rightarrow> nat \<Rightarrow> dependencySolveState \<Rightarrow> solve_result option"
and solve_trials :: "ext_env \<Rightarrow> nat \<Rightarrow> string \<Rightarrow> Package list \<Rightarrow> dependencySolveState
    \<Rightarrow> InstallPlanBlocker option \<Rightarrow> solve_result option" where
  "solve env 0 st = None"
| "solve env (Suc n) st =
     (let ext = nextUnexpandedSelection st in
      if ext \<noteq> [] then
        (case map_of (slSelected st) ext of None \<Rightarrow> None
         | Some p \<Rightarrow>
             (case expand ext (mfDependencies (pkManifest p)) st of Inl b \<Rightarrow> Some (Blocked b)
              | Inr st' \<Rightarrow> solve env n (st'\<lparr>slExpanded := (slExpanded st')(ext := True)\<rparr>)))
      else
        let u = nextUnresolvedDependency st in
        if u = [] then Some (Solved st)
        else
          let rs = entry (slConstraints st) u; (lo, hi, impossible) = effectiveRequirementRange rs in
          if impossible
          then Some (Blocked ((blocker ''DEPENDENCY_CONSTRAINT_CONFLICT'' u)
                 \<lparr>ibMinVersion := lo, ibMaxVersion := hi, ibDetail := requirementDetail rs\<rparr>))
          else case installedPackage env u of
            Inl e \<Rightarrow> Some (Failed e)
          | Inr (Some p) \<Rightarrow>
              if \<not> packageSatisfiesRequirements p rs
              then Some (Blocked (selectedConflictBlocker u rs (pkVersion p) True))
              else solve env n (select u p True st)
          | Inr None \<Rightarrow>
              (case candidates env u of Inl e \<Rightarrow> Some (Failed e)
               | Inr cs \<Rightarrow>
                   let matching = filter (\<lambda>c. pkCompatible c \<and> packageSatisfiesRequirements c rs) cs in
                   if matching = []
                   then Some (Blocked ((blocker (if cs = [] then ''DEPENDENCY_UNAVAILABLE''
                                                  else ''DEPENDENCY_NO_COMPATIBLE_CANDIDATE'') u)
                          \<lparr>ibRequiredBy := primaryRequiredBy rs, ibMinVersion := lo, ibMaxVersion := hi,
                           ibDetail := requirementDetail rs\<rparr>))
                   else solve_trials env n u matching st None))"
| "solve_trials env n u [] st first = map_option Blocked first"
| "solve_trials env n u (c # cs) st first =
     (case solve env n (select u c False st) of
        None \<Rightarrow> None
      | Some (Failed e) \<Rightarrow> Some (Failed e)
      | Some (Solved s) \<Rightarrow> Some (Solved s)
      | Some (Blocked b) \<Rightarrow> solve_trials env n u cs st (case first of None \<Rightarrow> Some b | Some b0 \<Rightarrow> Some b0))"

section \<open>What the library returns\<close>

text \<open>Every package read from the library has a parsed manifest.\<close>

definition package_wf :: "Package \<Rightarrow> bool" where
  "package_wf p \<longleftrightarrow> versions_ok (pkManifest p) \<and> mfExtensionID (pkManifest p) \<noteq> []
     \<and> (\<forall>d\<in>set (mfDependencies (pkManifest p)). dpExtensionID d \<noteq> [])"

lemma norm_lower_Nil [simp]: "norm_lower [] = []"
  by (simp add: norm_lower_def)

lemma check_dependencies_ids:
  "check_dependencies self seen ds = None \<Longrightarrow> d \<in> set ds \<Longrightarrow> extensionIDPattern (dpExtensionID d)"
  by (induction self seen ds rule: check_dependencies.induct) (auto simp: Let_def split: if_splits)

lemma not_pattern_Nil [simp]: "\<not> extensionIDPattern []"
  by (simp add: extensionIDPattern_def)

lemma validated_ids:
  assumes "ValidateManifest arabic m = None"
  shows "mfExtensionID m \<noteq> []" "d \<in> set (mfDependencies m) \<Longrightarrow> dpExtensionID d \<noteq> []"
proof -
  have p: "extensionIDPattern (norm_lower (mfExtensionID m))"
    and c: "check_dependencies (mfExtensionID (normalizeManifest m)) [] (mfDependencies (normalizeManifest m)) = None"
    using assms by (simp_all add: ValidateManifest_def Let_def first_error_None) (simp add: normalizeManifest_def)
  from p show "mfExtensionID m \<noteq> []" by auto
  assume "d \<in> set (mfDependencies m)"
  then have "norm_dependency d \<in> set (mfDependencies (normalizeManifest m))" by simp
  from check_dependencies_ids [OF c this] show "dpExtensionID d \<noteq> []" by (auto simp: norm_dependency_def)
qed

lemma inflate_wf: "inflate env row = Inr p \<Longrightarrow> package_wf p"
  by (auto simp: inflate_def ParseManifest_def package_wf_def makePackage_def Let_def validated_versions
      dest: validated_ids split: sum.splits option.splits if_splits prod.splits)

lemma set_insert_by [simp]: "set (insert_by lt x xs) = insert x (set xs)"
  by (induction xs) auto

lemma set_sort_by [simp]: "set (sort_by lt xs) = set xs"
  unfolding sort_by_def by (induction xs) auto

lemma map_result_Inr: "map_result f xs = Inr ys \<Longrightarrow> y \<in> set ys \<Longrightarrow> \<exists>x\<in>set xs. f x = Inr y"
  by (induction xs arbitrary: ys) (auto split: sum.splits)

text \<open>The packages of the library, and the identifiers a plan can meet.\<close>

definition library_packages :: "ext_env \<Rightarrow> Package list" where
  "library_packages env = concat (map (\<lambda>r. case inflate env r of Inl _ \<Rightarrow> [] | Inr p \<Rightarrow> [p]) (xePackages env))"

definition plan_ids :: "ext_env \<Rightarrow> string \<Rightarrow> string list" where
  "plan_ids env r = r # concat (map (\<lambda>p. map dpExtensionID (mfDependencies (pkManifest p))) (library_packages env))"

lemma library_packages_iff: "p \<in> set (library_packages env) \<longleftrightarrow> (\<exists>row\<in>set (xePackages env). inflate env row = Inr p)"
proof -
  have "p \<in> set (case inflate env r of Inl _ \<Rightarrow> [] | Inr q \<Rightarrow> [q]) \<longleftrightarrow> inflate env r = Inr p" for r
    by (cases "inflate env r") auto
  then show ?thesis by (simp add: library_packages_def)
qed

lemma library_packages_wf: "p \<in> set (library_packages env) \<Longrightarrow> package_wf p"
  by (auto simp: library_packages_iff inflate_wf)

lemma find_Some_in: "find P xs = Some x \<Longrightarrow> x \<in> set xs \<and> P x"
  by (induction xs) (auto split: if_splits)

lemma library_Get_in: "library_Get env i = Inr p \<Longrightarrow> p \<in> set (library_packages env)"
  by (auto simp: library_Get_def library_packages_iff dest: find_Some_in split: if_splits option.splits)

lemma installed_in: "installedPackage env i = Inr (Some p) \<Longrightarrow> p \<in> set (library_packages env)"
  by (auto simp: installedPackage_def dest: library_Get_in split: sum.splits list.splits)

lemma candidates_in: "candidates env i = Inr cs \<Longrightarrow> p \<in> set cs \<Longrightarrow> p \<in> set (library_packages env)"
  by (auto simp: candidates_def library_List_def ListExtensionPackages_def Let_def library_packages_iff
      dest!: map_result_Inr split: sum.splits if_splits)

section \<open>The specification of a selection\<close>

text \<open>The required dependencies of a package, and when a package meets a range.\<close>

definition mandatory :: "Package \<Rightarrow> Dependency list" where
  "mandatory p = filter (\<lambda>d. \<not> dpOptional d) (mfDependencies (pkManifest p))"

definition meets :: "Package \<Rightarrow> Dependency \<Rightarrow> bool" where
  "meets q d \<longleftrightarrow> versionInRange (pkVersion q) (dpMinVersion d) (dpMaxVersion d)"

text \<open>
  Which package may stand for an extension: the installed one, or when none is installed a compatible
  package of the library.
\<close>

definition allowed :: "ext_env \<Rightarrow> string \<Rightarrow> Package \<Rightarrow> bool" where
  "allowed env e p \<longleftrightarrow>
     (case installedPackage env e of Inl _ \<Rightarrow> False
      | Inr (Some q) \<Rightarrow> p = q
      | Inr None \<Rightarrow> (case candidates env e of Inl _ \<Rightarrow> False | Inr cs \<Rightarrow> p \<in> set cs \<and> pkCompatible p))"

text \<open>A selection is consistent when it has the root and is closed under required dependencies.\<close>

definition consistent :: "ext_env \<Rightarrow> string \<Rightarrow> Package \<Rightarrow> (string \<rightharpoonup> Package) \<Rightarrow> bool" where
  "consistent env r rp A \<longleftrightarrow> A r = Some rp
     \<and> (\<forall>e p. A e = Some p \<longrightarrow> (e = r \<or> allowed env e p)
          \<and> (\<forall>d\<in>set (mandatory p). \<exists>q. A (dpExtensionID d) = Some q \<and> meets q d))"

lemma allowed_wf: "allowed env e p \<Longrightarrow> package_wf p"
  by (auto simp: allowed_def intro: library_packages_wf dest: installed_in candidates_in
      split: sum.splits option.splits)

section \<open>Expanding a selection\<close>

lemma entry_update [simp]: "entry (AList.update k v al) k' = (if k' = k then v else entry al k')"
  by (simp add: entry_def update_conv')

lemma first_sorted_in: "first_sorted xs \<noteq> [] \<Longrightarrow> first_sorted xs \<in> set xs"
proof (cases "sort xs")
  case (Cons x ys)
  then have "set xs = insert x (set ys)" by (metis list.simps(15) set_sort)
  with Cons show ?thesis by (simp add: first_sorted_def)
qed (simp add: first_sorted_def)

lemma first_sorted_Nil: "[] \<notin> set xs \<Longrightarrow> first_sorted xs = [] \<longleftrightarrow> xs = []"
proof (cases "sort xs")
  case Nil
  then have "set xs = {}" by (metis list.set(1) set_sort)
  then show ?thesis by (simp add: first_sorted_def)
next
  case (Cons x ys)
  then have x: "set xs = insert x (set ys)" by (metis list.simps(15) set_sort)
  assume "[] \<notin> set xs"
  with x have "x \<noteq> []" by (metis insertI1)
  have "xs \<noteq> []" using Cons by (metis list.distinct(1) sort_key_simps(1))
  note this \<open>x \<noteq> []\<close>
  with Cons show ?thesis by (simp add: first_sorted_def)
qed

definition req :: "string \<Rightarrow> Dependency \<Rightarrow> dependencyRequirement" where
  "req e d = \<lparr>rqRequiredBy = e, rqMinVersion = dpMinVersion d, rqMaxVersion = dpMaxVersion d\<rparr>"

lemma set_appendRequirement [simp]: "set (appendRequirement rs r) = insert r (set rs)"
  by (auto simp: appendRequirement_def)

lemma set_appendUniqueString [simp]: "set (appendUniqueString rs r) = insert r (set rs)"
  by (auto simp: appendUniqueString_def)

lemma satisfies_iff:
  "packageSatisfiesRequirements p rs \<longleftrightarrow> (\<forall>q\<in>set rs. versionInRange (pkVersion p) (rqMinVersion q) (rqMaxVersion q))"
  by (simp add: packageSatisfiesRequirements_def list_all_iff)

lemma meets_req: "meets p d \<longleftrightarrow> versionInRange (pkVersion p) (rqMinVersion (req e d)) (rqMaxVersion (req e d))"
  by (simp add: meets_def req_def)

lemma require_simps [simp]:
  "slSelected (require e d st) = slSelected st" "slInstalled (require e d st) = slInstalled st"
  "slExpanded (require e d st) = slExpanded st"
  "set (entry (slConstraints (require e d st)) i) =
     set (entry (slConstraints st) i) \<union> (if i = dpExtensionID d then {req e d} else {})"
  "set (entry (slEdges (require e d st)) x) =
     set (entry (slEdges st) x) \<union> (if x = e then {dpExtensionID d} else {})"
  "fst ` set (slConstraints (require e d st)) = insert (dpExtensionID d) (fst ` set (slConstraints st))"
  by (auto simp: require_def Let_def req_def dom_update)

text \<open>
  What expanding a list of dependencies of \<open>e\<close> adds, and that a selected package which met its
  constraints still does.
\<close>

lemma expand_Inr:
  "expand e ds st = Inr st' \<Longrightarrow>
     slSelected st' = slSelected st \<and> slInstalled st' = slInstalled st \<and> slExpanded st' = slExpanded st
     \<and> (\<forall>i. set (entry (slConstraints st') i)
             = set (entry (slConstraints st) i) \<union> {req e d | d. d \<in> set ds \<and> \<not> dpOptional d \<and> dpExtensionID d = i})
     \<and> (\<forall>x. set (entry (slEdges st') x)
             = set (entry (slEdges st) x) \<union> {i. x = e \<and> (\<exists>d\<in>set ds. \<not> dpOptional d \<and> dpExtensionID d = i)})
     \<and> fst ` set (slConstraints st') = fst ` set (slConstraints st) \<union> dpExtensionID ` {d \<in> set ds. \<not> dpOptional d}
     \<and> (\<forall>i p. map_of (slSelected st) i = Some p \<longrightarrow> packageSatisfiesRequirements p (entry (slConstraints st) i)
            \<longrightarrow> packageSatisfiesRequirements p (entry (slConstraints st') i))"
proof (induction e ds st rule: expand.induct)
  case (2 e d ds st)
  show ?case
  proof (cases "dpOptional d")
    case True
    with 2 show ?thesis by (auto simp: set_eq_iff)
  next
    case False
    let ?s = "require e d st"
    have ok: "\<forall>p. map_of (slSelected st) (dpExtensionID d) = Some p
        \<longrightarrow> packageSatisfiesRequirements p (entry (slConstraints ?s) (dpExtensionID d))"
      and ex: "expand e ds ?s = Inr st'"
      using 2(4) False by (auto simp: Let_def split: option.splits if_splits)
    have ih: "slSelected st' = slSelected st \<and> slInstalled st' = slInstalled st \<and> slExpanded st' = slExpanded st
     \<and> (\<forall>i. set (entry (slConstraints st') i)
             = set (entry (slConstraints ?s) i) \<union> {req e d | d. d \<in> set ds \<and> \<not> dpOptional d \<and> dpExtensionID d = i})
     \<and> (\<forall>x. set (entry (slEdges st') x)
             = set (entry (slEdges ?s) x) \<union> {i. x = e \<and> (\<exists>d\<in>set ds. \<not> dpOptional d \<and> dpExtensionID d = i)})
     \<and> fst ` set (slConstraints st') = fst ` set (slConstraints ?s) \<union> dpExtensionID ` {d \<in> set ds. \<not> dpOptional d}
     \<and> (\<forall>i p. map_of (slSelected st) i = Some p \<longrightarrow> packageSatisfiesRequirements p (entry (slConstraints ?s) i)
            \<longrightarrow> packageSatisfiesRequirements p (entry (slConstraints st') i))"
      using 2(2) [OF False refl refl refl] 2(3) [OF False refl refl refl] ok ex
      by (cases "map_of (slSelected st) (dpExtensionID d)") simp_all
    have keep: "packageSatisfiesRequirements p (entry (slConstraints ?s) i)"
      if "map_of (slSelected st) i = Some p" "packageSatisfiesRequirements p (entry (slConstraints st) i)" for i p
      using that ok by (cases "i = dpExtensionID d") (auto simp: satisfies_iff)
    show ?thesis
      using ih keep False by auto
  qed
qed auto

section \<open>The invariant of the solver\<close>

definition constraints_ok :: "dependencySolveState \<Rightarrow> bool" where
  "constraints_ok st \<longleftrightarrow>
     (\<forall>i. i \<in> fst ` set (slConstraints st) \<longleftrightarrow> entry (slConstraints st) i \<noteq> [])
     \<and> (\<forall>i. \<forall>q\<in>set (entry (slConstraints st) i). \<exists>e p d. slExpanded st e \<and> map_of (slSelected st) e = Some p
            \<and> d \<in> set (mandatory p) \<and> dpExtensionID d = i \<and> q = req e d)
     \<and> (\<forall>e. slExpanded st e \<longrightarrow> (\<exists>p. map_of (slSelected st) e = Some p
            \<and> (\<forall>d\<in>set (mandatory p). req e d \<in> set (entry (slConstraints st) (dpExtensionID d)))))"

definition edges_ok :: "string \<Rightarrow> dependencySolveState \<Rightarrow> bool" where
  "edges_ok r st \<longleftrightarrow>
     (\<forall>e. set (entry (slEdges st) e) =
        (case map_of (slSelected st) e of None \<Rightarrow> {}
         | Some p \<Rightarrow> if slExpanded st e then dpExtensionID ` set (mandatory p) else {}))
     \<and> (\<forall>e p. map_of (slSelected st) e = Some p \<longrightarrow> (r, e) \<in> (edges_of (slEdges st))\<^sup>*)"

definition selected_ok :: "ext_env \<Rightarrow> string \<Rightarrow> Package \<Rightarrow> bool \<Rightarrow> dependencySolveState \<Rightarrow> bool" where
  "selected_ok env r rp ri st \<longleftrightarrow> map_of (slSelected st) r = Some rp \<and> slInstalled st r = ri
     \<and> (\<forall>e p. map_of (slSelected st) e = Some p \<longrightarrow>
          package_wf p \<and> packageSatisfiesRequirements p (entry (slConstraints st) e)
          \<and> (e = r \<or> allowed env e p \<and> slInstalled st e = (installedPackage env e \<noteq> Inr None)))
     \<and> [] \<notin> fst ` set (slSelected st)"

definition solver_inv :: "ext_env \<Rightarrow> string \<Rightarrow> Package \<Rightarrow> bool \<Rightarrow> dependencySolveState \<Rightarrow> bool" where
  "solver_inv env r rp ri st \<longleftrightarrow> selected_ok env r rp ri st \<and> constraints_ok st \<and> edges_ok r st"

lemma map_of_dom: "e \<in> fst ` set al \<longleftrightarrow> (\<exists>p. map_of al e = Some p)"
  by (metis map_of_eq_None_iff not_None_eq)

lemma solver_inv_expand:
  assumes inv: "solver_inv env r rp ri st" and e: "map_of (slSelected st) e = Some p" "\<not> slExpanded st e"
    and x: "expand e (mfDependencies (pkManifest p)) st = Inr st1"
  shows "solver_inv env r rp ri (st1\<lparr>slExpanded := (slExpanded st1)(e := True)\<rparr>)"
proof -
  let ?s = "st1\<lparr>slExpanded := (slExpanded st1)(e := True)\<rparr>"
  note E = expand_Inr [OF x]
  have sel: "slSelected ?s = slSelected st" "slInstalled ?s = slInstalled st"
    and ex: "\<And>y. slExpanded ?s y \<longleftrightarrow> y = e \<or> slExpanded st y"
    and con: "\<And>i. set (entry (slConstraints ?s) i)
        = set (entry (slConstraints st) i) \<union> {req e d | d. d \<in> set (mandatory p) \<and> dpExtensionID d = i}"
    and edg: "\<And>y. set (entry (slEdges ?s) y) = set (entry (slEdges st) y) \<union> {i. y = e \<and> i \<in> dpExtensionID ` set (mandatory p)}"
    and dom: "fst ` set (slConstraints ?s) = fst ` set (slConstraints st) \<union> dpExtensionID ` set (mandatory p)"
    and sat: "\<And>i q. map_of (slSelected st) i = Some q \<Longrightarrow> packageSatisfiesRequirements q (entry (slConstraints st) i)
        \<Longrightarrow> packageSatisfiesRequirements q (entry (slConstraints ?s) i)"
    using E by (auto simp: mandatory_def)
  have "selected_ok env r rp ri ?s"
    using inv sat unfolding solver_inv_def selected_ok_def sel by auto
  moreover have "constraints_ok ?s"
    unfolding constraints_ok_def sel
  proof (intro conjI allI ballI impI)
    fix i
    have "i \<in> fst ` set (slConstraints ?s) \<longleftrightarrow> set (entry (slConstraints ?s) i) \<noteq> {}"
      using inv unfolding con dom solver_inv_def constraints_ok_def by auto
    then show "i \<in> fst ` set (slConstraints ?s) \<longleftrightarrow> entry (slConstraints ?s) i \<noteq> []" by simp
    fix q assume "q \<in> set (entry (slConstraints ?s) i)"
    then consider "q \<in> set (entry (slConstraints st) i)"
      | d where "d \<in> set (mandatory p)" "dpExtensionID d = i" "q = req e d"
      unfolding con by auto
    then show "\<exists>y p d. slExpanded ?s y \<and> map_of (slSelected st) y = Some p \<and> d \<in> set (mandatory p)
        \<and> dpExtensionID d = i \<and> q = req y d"
    proof cases
      case 1
      then show ?thesis using inv ex unfolding solver_inv_def constraints_ok_def by blast
    next
      case 2
      then show ?thesis using e(1) ex by blast
    qed
  next
    fix y assume "slExpanded ?s y"
    then consider "y = e" | "slExpanded st y" unfolding ex by blast
    then show "\<exists>p. map_of (slSelected st) y = Some p
        \<and> (\<forall>d\<in>set (mandatory p). req y d \<in> set (entry (slConstraints ?s) (dpExtensionID d)))"
    proof cases
      case 1
      with e(1) show ?thesis unfolding con by auto
    next
      case 2
      then show ?thesis using inv unfolding con solver_inv_def constraints_ok_def by auto
    qed
  qed
  moreover have "edges_ok r ?s"
    unfolding edges_ok_def sel
  proof (intro conjI allI impI)
    fix y
    show "set (entry (slEdges ?s) y) = (case map_of (slSelected st) y of None \<Rightarrow> {}
        | Some p \<Rightarrow> if slExpanded ?s y then dpExtensionID ` set (mandatory p) else {})"
      using inv e ex unfolding edg solver_inv_def edges_ok_def by (auto split: option.splits)
    have "edges_of (slEdges st) \<subseteq> edges_of (slEdges ?s)"
      using edg by (auto simp: edge_rel_def)
    then show "(r, y) \<in> (edges_of (slEdges ?s))\<^sup>*" if "map_of (slSelected st) y = Some q" for q
      using inv that rtrancl_mono unfolding solver_inv_def edges_ok_def by blast
  qed
  ultimately show ?thesis by (simp add: solver_inv_def)
qed

lemma select_simps [simp]:
  "map_of (slSelected (select u p b st)) = (map_of (slSelected st))(u \<mapsto> p)"
  "slInstalled (select u p b st) = (slInstalled st)(u := b)"
  "slExpanded (select u p b st) = slExpanded st" "slConstraints (select u p b st) = slConstraints st"
  "slEdges (select u p b st) = slEdges st"
  "fst ` set (slSelected (select u p b st)) = insert u (fst ` set (slSelected st))"
  by (auto simp: select_def update_conv' dom_update)

lemma required_by:
  assumes "solver_inv env r rp ri st" "u \<in> fst ` set (slConstraints st)"
  obtains e p d where "slExpanded st e" "map_of (slSelected st) e = Some p" "d \<in> set (mandatory p)" "dpExtensionID d = u"
    "package_wf p" "u \<noteq> []" "(r, u) \<in> (edges_of (slEdges st))\<^sup>*"
proof -
  have "set (entry (slConstraints st) u) \<noteq> {}"
    using assms unfolding solver_inv_def constraints_ok_def by auto
  then obtain q where q: "q \<in> set (entry (slConstraints st) u)" by (meson ex_in_conv)
  with assms obtain e p d where d: "slExpanded st e" "map_of (slSelected st) e = Some p" "d \<in> set (mandatory p)"
      "dpExtensionID d = u"
    unfolding solver_inv_def constraints_ok_def by meson
  then have wf: "package_wf p" and re: "(r, e) \<in> (edges_of (slEdges st))\<^sup>*"
    and eu: "(e, u) \<in> edges_of (slEdges st)"
    using assms(1) by (auto simp: solver_inv_def selected_ok_def edges_ok_def edge_rel_def)
  have "u \<noteq> []" using wf d(3,4) by (auto simp: package_wf_def mandatory_def)
  then show thesis using that [OF d wf] re eu by (meson rtrancl.rtrancl_into_rtrancl)
qed

lemma solver_inv_select:
  assumes inv: "solver_inv env r rp ri st" and u: "u \<in> fst ` set (slConstraints st)" "map_of (slSelected st) u = None"
    and p: "allowed env u p" "packageSatisfiesRequirements p (entry (slConstraints st) u)"
      "b = (installedPackage env u \<noteq> Inr None)"
  shows "solver_inv env r rp ri (select u p b st)"
proof -
  have ur: "u \<noteq> r" using inv u(2) by (auto simp: solver_inv_def selected_ok_def)
  have ne: "u \<noteq> []" and ru: "(r, u) \<in> (edges_of (slEdges st))\<^sup>*" using required_by [OF inv u(1)] by auto
  have nex: "\<not> slExpanded st u" using inv u(2) by (auto simp: solver_inv_def constraints_ok_def)
  have "selected_ok env r rp ri (select u p b st)"
    using inv u p ur ne allowed_wf [OF p(1)] by (auto simp: solver_inv_def selected_ok_def)
  moreover have "constraints_ok (select u p b st)"
    unfolding constraints_ok_def select_simps
  proof (intro conjI allI ballI impI)
    fix i
    show "i \<in> fst ` set (slConstraints st) \<longleftrightarrow> entry (slConstraints st) i \<noteq> []"
      using inv by (simp add: solver_inv_def constraints_ok_def)
    fix q assume "q \<in> set (entry (slConstraints st) i)"
    with inv obtain e p' d where "slExpanded st e" "map_of (slSelected st) e = Some p'" "d \<in> set (mandatory p')"
        "dpExtensionID d = i" "q = req e d"
      unfolding solver_inv_def constraints_ok_def by meson
    moreover from this u(2) have "((map_of (slSelected st))(u \<mapsto> p)) e = Some p'" by auto
    ultimately show "\<exists>e p' d. slExpanded st e \<and> ((map_of (slSelected st))(u \<mapsto> p)) e = Some p' \<and> d \<in> set (mandatory p')
        \<and> dpExtensionID d = i \<and> q = req e d" by blast
  next
    fix e assume "slExpanded st e"
    with inv nex show "\<exists>p'. ((map_of (slSelected st))(u \<mapsto> p)) e = Some p'
        \<and> (\<forall>d\<in>set (mandatory p'). req e d \<in> set (entry (slConstraints st) (dpExtensionID d)))"
      unfolding solver_inv_def constraints_ok_def by auto
  qed
  moreover have "edges_ok r (select u p b st)"
    using inv u ru nex unfolding solver_inv_def edges_ok_def select_simps by auto
  ultimately show ?thesis by (simp add: solver_inv_def)
qed

section \<open>One turn of the solver\<close>

lemma next_unexpanded:
  assumes "solver_inv env r rp ri st"
  shows "nextUnexpandedSelection st \<noteq> [] \<Longrightarrow>
      (\<exists>p. map_of (slSelected st) (nextUnexpandedSelection st) = Some p) \<and> \<not> slExpanded st (nextUnexpandedSelection st)"
    and "nextUnexpandedSelection st = [] \<Longrightarrow> map_of (slSelected st) e = Some p \<Longrightarrow> slExpanded st e"
proof -
  let ?xs = "filter (\<lambda>e. \<not> slExpanded st e) (map fst (slSelected st))"
  have ne: "[] \<notin> set ?xs" using assms by (auto simp: solver_inv_def selected_ok_def)
  show "nextUnexpandedSelection st \<noteq> [] \<Longrightarrow>
      (\<exists>p. map_of (slSelected st) (nextUnexpandedSelection st) = Some p) \<and> \<not> slExpanded st (nextUnexpandedSelection st)"
    using first_sorted_in [of ?xs] by (auto simp: nextUnexpandedSelection_def map_of_dom [symmetric])
  assume "nextUnexpandedSelection st = []" "map_of (slSelected st) e = Some p"
  then have "?xs = []" "e \<in> fst ` set (slSelected st)"
    using first_sorted_Nil [OF ne] by (auto simp: nextUnexpandedSelection_def map_of_dom)
  then show "slExpanded st e" by (auto simp: filter_empty_conv)
qed

lemma next_unresolved:
  assumes "solver_inv env r rp ri st"
  shows "nextUnresolvedDependency st \<noteq> [] \<Longrightarrow> nextUnresolvedDependency st \<in> fst ` set (slConstraints st)
      \<and> map_of (slSelected st) (nextUnresolvedDependency st) = None"
    and "nextUnresolvedDependency st = [] \<Longrightarrow> u \<in> fst ` set (slConstraints st) \<Longrightarrow> \<exists>p. map_of (slSelected st) u = Some p"
proof -
  let ?xs = "filter (\<lambda>e. map_of (slSelected st) e = None) (map fst (slConstraints st))"
  have "u \<noteq> []" if "u \<in> fst ` set (slConstraints st)" for u using required_by [OF assms that] by blast
  then have ne: "[] \<notin> set ?xs" by force
  show "nextUnresolvedDependency st \<noteq> [] \<Longrightarrow> nextUnresolvedDependency st \<in> fst ` set (slConstraints st)
      \<and> map_of (slSelected st) (nextUnresolvedDependency st) = None"
    using first_sorted_in [of ?xs] by (auto simp: nextUnresolvedDependency_def)
  assume "nextUnresolvedDependency st = []" "u \<in> fst ` set (slConstraints st)"
  then have "?xs = []" using first_sorted_Nil [OF ne] by (simp add: nextUnresolvedDependency_def)
  then show "\<exists>p. map_of (slSelected st) u = Some p"
    using \<open>u \<in> fst ` set (slConstraints st)\<close> by (auto simp: filter_empty_conv)
qed

text \<open>A consistent selection that extends the state meets every constraint collected so far.\<close>

lemma consistent_meets:
  assumes "constraints_ok st" "consistent env r rp A" "map_of (slSelected st) \<subseteq>\<^sub>m A"
    and "q \<in> set (entry (slConstraints st) i)"
  shows "\<exists>p. A i = Some p \<and> versionInRange (pkVersion p) (rqMinVersion q) (rqMaxVersion q)"
proof -
  from assms(1,4) obtain e p d where d: "map_of (slSelected st) e = Some p" "d \<in> set (mandatory p)"
      "dpExtensionID d = i" "q = req e d"
    unfolding constraints_ok_def by meson
  then have "A e = Some p" using assms(3) by (metis domI map_le_def)
  with assms(2) d(2,3) obtain s where "A i = Some s" "meets s d"
    unfolding consistent_def by blast
  with d(4) show ?thesis by (auto simp: meets_def req_def)
qed

lemma expand_Inl:
  "expand e ds st = Inl b \<Longrightarrow> \<exists>i p. map_of (slSelected st) i = Some p
     \<and> (\<exists>q. \<not> versionInRange (pkVersion p) (rqMinVersion q) (rqMaxVersion q)
            \<and> (q \<in> set (entry (slConstraints st) i) \<or> (\<exists>d\<in>set ds. \<not> dpOptional d \<and> dpExtensionID d = i \<and> q = req e d)))"
proof (induction e ds st rule: expand.induct)
  case (2 e d ds st)
  show ?case
  proof (cases "dpOptional d")
    case True
    with 2(1,4) show ?thesis by fastforce
  next
    case False
    let ?s = "require e d st" and ?i = "dpExtensionID d"
    show ?thesis
    proof (cases "\<exists>p. map_of (slSelected st) ?i = Some p \<and> \<not> packageSatisfiesRequirements p (entry (slConstraints ?s) ?i)")
      case True
      then obtain p q where "map_of (slSelected st) ?i = Some p" "q \<in> set (entry (slConstraints ?s) ?i)"
        "\<not> versionInRange (pkVersion p) (rqMinVersion q) (rqMaxVersion q)"
        by (auto simp: satisfies_iff)
      with False show ?thesis by (intro exI [of _ ?i] exI [of _ p] conjI exI [of _ q]) auto
    next
      case ok: False
      then have "expand e ds ?s = Inl b"
        using 2(4) False by (auto simp: Let_def split: option.splits if_splits)
      then have "\<exists>i p. map_of (slSelected st) i = Some p
         \<and> (\<exists>q. \<not> versionInRange (pkVersion p) (rqMinVersion q) (rqMaxVersion q)
            \<and> (q \<in> set (entry (slConstraints ?s) i) \<or> (\<exists>d\<in>set ds. \<not> dpOptional d \<and> dpExtensionID d = i \<and> q = req e d)))"
        using 2(2) [OF False refl refl refl] 2(3) [OF False refl refl refl] ok
        by (cases "map_of (slSelected st) ?i") simp_all
      then obtain i p q where i: "map_of (slSelected st) i = Some p"
        "\<not> versionInRange (pkVersion p) (rqMinVersion q) (rqMaxVersion q)"
        "q \<in> set (entry (slConstraints ?s) i) \<or> (\<exists>d\<in>set ds. \<not> dpOptional d \<and> dpExtensionID d = i \<and> q = req e d)"
        by blast
      then have "q \<in> set (entry (slConstraints st) i)
          \<or> (\<exists>d'\<in>set (d # ds). \<not> dpOptional d' \<and> dpExtensionID d' = i \<and> q = req e d')"
        using False by (auto split: if_splits)
      with i(1,2) show ?thesis by blast
    qed
  qed
qed simp

text \<open>The tightest bounds come from requirements, so bounds that cross exclude every version.\<close>

lemma tightest_from:
  "tightest lo hi rs = (lo', hi') \<Longrightarrow>
     (lo' = lo \<or> lo' \<noteq> [] \<and> (\<exists>q\<in>set rs. rqMinVersion q = lo')) \<and> (hi' = hi \<or> hi' \<noteq> [] \<and> (\<exists>q\<in>set rs. rqMaxVersion q = hi'))"
  by (induction lo hi rs arbitrary: lo' hi' rule: tightest.induct) (fastforce split: if_splits)+

lemma impossible_range:
  assumes "effectiveRequirementRange rs = (lo, hi, True)"
    and v: "\<forall>q\<in>set rs. (rqMinVersion q = [] \<or> valid_version (rqMinVersion q)) \<and> (rqMaxVersion q = [] \<or> valid_version (rqMaxVersion q))"
    and p: "valid_version s" "\<forall>q\<in>set rs. versionInRange s (rqMinVersion q) (rqMaxVersion q)"
  shows False
proof -
  have t: "tightest [] [] rs = (lo, hi)" and ne: "lo \<noteq> []" "hi \<noteq> []" and x: "0 < compareSemanticVersions lo hi"
    using assms(1) by (auto simp: effectiveRequirementRange_def split: prod.splits)
  from tightest_from [OF t] ne obtain a b where
    ab: "a \<in> set rs" "rqMinVersion a = lo" "b \<in> set rs" "rqMaxVersion b = hi" by auto
  then have "valid_version lo" "valid_version hi" using v ne by auto
  from semver.crossed [OF p(1) this x] have "compareSemanticVersions s lo < 0 \<or> 0 < compareSemanticVersions s hi" .
  moreover have "versionInRange s lo (rqMaxVersion a)" "versionInRange s (rqMinVersion b) hi" using p(2) ab by blast+
  ultimately show False using ne by (auto simp: versionInRange_def split: if_splits)
qed

section \<open>The solver decides\<close>

text \<open>The cases of one turn.\<close>

lemma allowed_installed: "installedPackage env u = Inr (Some p) \<Longrightarrow> allowed env u q \<longleftrightarrow> q = p"
  by (auto simp: allowed_def)

lemma allowed_candidate:
  "installedPackage env u = Inr None \<Longrightarrow> candidates env u = Inr cs \<Longrightarrow> allowed env u q \<longleftrightarrow> q \<in> set cs \<and> pkCompatible q"
  by (auto simp: allowed_def)

lemma trials_Solved:
  "solve_trials env n u cs st first = Some (Solved s) \<Longrightarrow> \<exists>c\<in>set cs. solve env n (select u c False st) = Some (Solved s)"
  by (induction cs arbitrary: first) (auto split: option.splits solve_result.splits)

lemma trials_Blocked:
  "solve_trials env n u cs st first = Some (Blocked b) \<Longrightarrow> \<forall>c\<in>set cs. \<exists>b. solve env n (select u c False st) = Some (Blocked b)"
  by (induction cs arbitrary: first) (auto split: option.splits solve_result.splits)

lemma trials_return:
  "\<forall>c\<in>set cs. solve env n (select u c False st) \<noteq> None \<Longrightarrow> cs \<noteq> [] \<or> first \<noteq> None \<Longrightarrow> solve_trials env n u cs st first \<noteq> None"
  by (induction cs arbitrary: first) (auto split: option.splits solve_result.splits)

lemma impossible_blocks:
  assumes inv: "solver_inv env r rp ri st" and imp: "effectiveRequirementRange (entry (slConstraints st) u) = (lo, hi, True)"
    and wf: "package_wf p" and p: "packageSatisfiesRequirements p (entry (slConstraints st) u)"
  shows False
proof (rule impossible_range [OF imp])
  show "valid_version (pkVersion p)" using wf by (simp add: package_wf_def versions_ok_def)
  show "\<forall>q\<in>set (entry (slConstraints st) u). versionInRange (pkVersion p) (rqMinVersion q) (rqMaxVersion q)"
    using p by (simp add: satisfies_iff)
  show "\<forall>q\<in>set (entry (slConstraints st) u). (rqMinVersion q = [] \<or> valid_version (rqMinVersion q))
          \<and> (rqMaxVersion q = [] \<or> valid_version (rqMaxVersion q))"
  proof
    fix q assume "q \<in> set (entry (slConstraints st) u)"
    with inv obtain e p d where d: "map_of (slSelected st) e = Some p" "d \<in> set (mandatory p)" "q = req e d"
      unfolding solver_inv_def constraints_ok_def by meson
    with inv have "package_wf p" by (auto simp: solver_inv_def selected_ok_def)
    with d show "(rqMinVersion q = [] \<or> valid_version (rqMinVersion q))
        \<and> (rqMaxVersion q = [] \<or> valid_version (rqMaxVersion q))"
      by (auto simp: package_wf_def versions_ok_def mandatory_def req_def)
  qed
qed

lemma solve_turn:
  assumes inv: "solver_inv env r rp ri st"
  obtains (expanded) e p st1 where "map_of (slSelected st) e = Some p" "\<not> slExpanded st e"
      "solve env (Suc n) st = solve env n (st1\<lparr>slExpanded := (slExpanded st1)(e := True)\<rparr>)"
      "solver_inv env r rp ri (st1\<lparr>slExpanded := (slExpanded st1)(e := True)\<rparr>)"
      "expand e (mfDependencies (pkManifest p)) st = Inr st1"
  | (conflict) e p b where "map_of (slSelected st) e = Some p" "expand e (mfDependencies (pkManifest p)) st = Inl b"
      "solve env (Suc n) st = Some (Blocked b)"
  | (finished) "nextUnexpandedSelection st = []" "nextUnresolvedDependency st = []" "solve env (Suc n) st = Some (Solved st)"
  | (failed) err where "solve env (Suc n) st = Some (Failed err)"
  | (blocked) u b where "u \<in> fst ` set (slConstraints st)" "solve env (Suc n) st = Some (Blocked b)"
      "\<And>A p. consistent env r rp A \<Longrightarrow> map_of (slSelected st) \<subseteq>\<^sub>m A \<Longrightarrow> A u = Some p \<Longrightarrow> u \<noteq> r
         \<Longrightarrow> packageSatisfiesRequirements p (entry (slConstraints st) u) \<Longrightarrow> False"
      "u \<noteq> r"
  | (installed) u p where "u \<in> fst ` set (slConstraints st)" "map_of (slSelected st) u = None"
      "solve env (Suc n) st = solve env n (select u p True st)" "installedPackage env u = Inr (Some p)"
      "solver_inv env r rp ri (select u p True st)"
  | (trials) u cs where "u \<in> fst ` set (slConstraints st)" "map_of (slSelected st) u = None" "cs \<noteq> []"
      "solve env (Suc n) st = solve_trials env n u cs st None"
      "\<And>q. q \<in> set cs \<longleftrightarrow> allowed env u q \<and> packageSatisfiesRequirements q (entry (slConstraints st) u)"
      "\<And>q. q \<in> set cs \<Longrightarrow> solver_inv env r rp ri (select u q False st)"
proof (cases "nextUnexpandedSelection st = []")
  case False
  let ?e = "nextUnexpandedSelection st"
  obtain p where p: "map_of (slSelected st) ?e = Some p" "\<not> slExpanded st ?e"
    using next_unexpanded(1) [OF inv False] by blast
  show thesis
  proof (cases "expand ?e (mfDependencies (pkManifest p)) st")
    case (Inl b)
    with p False show thesis by (intro conflict [of ?e p b]) (simp_all add: Let_def)
  next
    case (Inr st1)
    with p False solver_inv_expand [OF inv p Inr] show thesis
      by (intro expanded [of ?e p st1]) (simp_all add: Let_def)
  qed
next
  case e: True
  let ?u = "nextUnresolvedDependency st"
  let ?rs = "entry (slConstraints st) ?u"
  show thesis
  proof (cases "?u = []")
    case True
    with e show thesis by (intro finished) (simp_all add: Let_def)
  next
    case ne: False
    have u: "?u \<in> fst ` set (slConstraints st)" "map_of (slSelected st) ?u = None"
      using next_unresolved(1) [OF inv ne] by auto
    then have ur: "?u \<noteq> r" using inv by (auto simp: solver_inv_def selected_ok_def)
    have alw: "allowed env ?u p" if "consistent env r rp A" "A ?u = Some p" for A p
      using that ur unfolding consistent_def by blast
    obtain lo hi imp where rng: "effectiveRequirementRange ?rs = (lo, hi, imp)" by (metis prod_cases3)
    show thesis
    proof (cases imp)
      case True
      have "False" if "consistent env r rp A" "A ?u = Some p" "packageSatisfiesRequirements p ?rs" for A p
        using impossible_blocks [OF inv _ allowed_wf [OF alw [OF that(1,2)]] that(3)] rng True by simp
      with u ur e ne rng True show thesis by (intro blocked [of ?u]) (auto simp: Let_def)
    next
      case False
      show thesis
      proof (cases "installedPackage env ?u")
        case (Inl err)
        with e ne rng False show thesis by (intro failed [of err]) (simp add: Let_def)
      next
        case inst: (Inr o')
        show thesis
        proof (cases o')
          case (Some p)
          with inst have i: "installedPackage env ?u = Inr (Some p)" by simp
          show thesis
          proof (cases "packageSatisfiesRequirements p ?rs")
            case True
            with e ne rng False i u solver_inv_select [OF inv u _ True, of True] allowed_installed [OF i] show thesis
              by (intro installed [of ?u p]) (simp_all add: Let_def)
          next
            case no: False
            have "False" if "consistent env r rp A" "A ?u = Some q" "packageSatisfiesRequirements q ?rs" for A q
              using alw [OF that(1,2)] allowed_installed [OF i] that(3) no by simp
            with u ur e ne rng False i no show thesis by (intro blocked [of ?u]) (auto simp: Let_def)
          qed
        next
          case None
          with inst have i: "installedPackage env ?u = Inr None" by simp
          show thesis
          proof (cases "candidates env ?u")
            case (Inl err)
            with e ne rng False i show thesis by (intro failed [of err]) (simp add: Let_def)
          next
            case c: (Inr cs)
            let ?m = "filter (\<lambda>c. pkCompatible c \<and> packageSatisfiesRequirements c ?rs) cs"
            show thesis
            proof (cases "?m = []")
              case True
              have "False" if "consistent env r rp A" "A ?u = Some q" "packageSatisfiesRequirements q ?rs" for A q
                using alw [OF that(1,2)] allowed_candidate [OF i c] that(3) True by (auto simp: filter_empty_conv)
              with u ur e ne rng False i c True show thesis by (intro blocked [of ?u]) (auto simp: Let_def)
            next
              case some: False
              have m: "q \<in> set ?m \<longleftrightarrow> allowed env ?u q \<and> packageSatisfiesRequirements q ?rs" for q
                using allowed_candidate [OF i c] by auto
              have "solver_inv env r rp ri (select ?u q False st)" if "q \<in> set ?m" for q
                using solver_inv_select [OF inv u, of q False] m [of q] that i by simp
              with u e ne rng False i c some m show thesis by (intro trials [of ?u ?m]) (simp_all add: Let_def)
            qed
          qed
        qed
      qed
    qed
  qed
qed

declare solve.simps(2) [simp del]

lemma solve_sound:
  "solver_inv env r rp ri st \<Longrightarrow> solve env n st = Some (Solved s)
    \<Longrightarrow> solver_inv env r rp ri s \<and> nextUnexpandedSelection s = [] \<and> nextUnresolvedDependency s = []"
proof (induction n arbitrary: st)
  case (Suc n)
  from Suc.prems(1) show ?case
  proof (cases rule: solve_turn [where n = n])
    case (expanded e p st1)
    with Suc.IH Suc.prems(2) show ?thesis by simp
  next
    case finished
    with Suc.prems show ?thesis by simp
  next
    case (installed u p)
    with Suc.IH Suc.prems(2) show ?thesis by simp
  next
    case (trials u cs)
    with Suc.prems(2) obtain c where "c \<in> set cs" "solve env n (select u c False st) = Some (Solved s)"
      using trials_Solved by metis
    with Suc.IH trials(6) show ?thesis by blast
  qed (use Suc.prems(2) in simp_all)
qed simp

text \<open>A blocked solver has missed no consistent selection that agrees with its state.\<close>

lemma solve_complete:
  "solver_inv env r rp ri st \<Longrightarrow> solve env n st = Some (Blocked b) \<Longrightarrow> consistent env r rp A
    \<Longrightarrow> map_of (slSelected st) \<subseteq>\<^sub>m A \<Longrightarrow> False"
proof (induction n arbitrary: st b)
  case (Suc n)
  have c: "constraints_ok st" using Suc.prems(1) by (simp add: solver_inv_def)
  have meets: "\<exists>p. A u = Some p \<and> packageSatisfiesRequirements p (entry (slConstraints st) u)"
    if "u \<in> fst ` set (slConstraints st)" for u
  proof -
    have ne: "entry (slConstraints st) u \<noteq> []" using c that by (simp add: constraints_ok_def)
    have "\<exists>p. A u = Some p \<and> versionInRange (pkVersion p) (rqMinVersion q) (rqMaxVersion q)"
      if "q \<in> set (entry (slConstraints st) u)" for q
      using consistent_meets [OF c Suc.prems(3,4) that] .
    with ne show ?thesis by (auto simp: satisfies_iff neq_Nil_conv) (metis option.inject)+
  qed
  have ext: "map_of (slSelected (select u p f st)) \<subseteq>\<^sub>m A" if "A u = Some p" for u p f
    using Suc.prems(4) that by (auto simp: map_le_def)
  from Suc.prems(1) show ?case
  proof (cases rule: solve_turn [where n = n])
    case (expanded e p st1)
    with expand_Inr [OF expanded(5)] Suc.prems(2-4) show ?thesis
      using Suc.IH [of "st1\<lparr>slExpanded := (slExpanded st1)(e := True)\<rparr>" b] by simp
  next
    case (conflict e p b')
    from expand_Inl [OF conflict(2)] obtain i s q where i: "map_of (slSelected st) i = Some s"
      "\<not> versionInRange (pkVersion s) (rqMinVersion q) (rqMaxVersion q)"
      and q: "q \<in> set (entry (slConstraints st) i)
        \<or> (\<exists>d\<in>set (mfDependencies (pkManifest p)). \<not> dpOptional d \<and> dpExtensionID d = i \<and> q = req e d)" by blast
    have Ai: "A i = Some s" "A e = Some p" using i(1) conflict(1) Suc.prems(4) by (metis domI map_le_def)+
    from q have "versionInRange (pkVersion s) (rqMinVersion q) (rqMaxVersion q)"
    proof
      assume "q \<in> set (entry (slConstraints st) i)"
      with consistent_meets [OF c Suc.prems(3,4) this] Ai show ?thesis by simp
    next
      assume "\<exists>d\<in>set (mfDependencies (pkManifest p)). \<not> dpOptional d \<and> dpExtensionID d = i \<and> q = req e d"
      then obtain d where d: "d \<in> set (mandatory p)" "dpExtensionID d = i" "q = req e d" by (auto simp: mandatory_def)
      with Suc.prems(3) Ai obtain t where "A i = Some t" "meets t d" unfolding consistent_def by blast
      with Ai d(3) show ?thesis by (simp add: meets_def req_def)
    qed
    with i(2) show ?thesis by contradiction
  next
    case (blocked u b')
    with meets [of u] Suc.prems(3,4) show ?thesis by blast
  next
    case (installed u p)
    from meets [OF installed(1)] obtain q where q: "A u = Some q" by blast
    have "u \<noteq> r" using installed(2) Suc.prems(1) by (auto simp: solver_inv_def selected_ok_def)
    with q Suc.prems(3) have "allowed env u q" unfolding consistent_def by blast
    with allowed_installed [OF installed(4)] q have "A u = Some p" by simp
    with Suc.IH [OF installed(5) _ Suc.prems(3) ext] Suc.prems(2) installed(3) show ?thesis by simp
  next
    case (trials u cs)
    from meets [OF trials(1)] obtain q where q: "A u = Some q" "packageSatisfiesRequirements q (entry (slConstraints st) u)"
      by blast
    have "u \<noteq> r" using trials(2) Suc.prems(1) by (auto simp: solver_inv_def selected_ok_def)
    with q Suc.prems(3) have "allowed env u q" unfolding consistent_def by blast
    with q trials(5) have m: "q \<in> set cs" by simp
    from Suc.prems(2) trials(4) have "\<forall>c\<in>set cs. \<exists>b. solve env n (select u c False st) = Some (Blocked b)"
      using trials_Blocked by metis
    with m obtain b' where "solve env n (select u q False st) = Some (Blocked b')" by blast
    from Suc.IH [OF trials(6) [OF m] this Suc.prems(3) ext [OF q(1)]] show ?thesis .
  qed (use Suc.prems(2) in simp_all)
qed simp

text \<open>
  Termination. A turn expands an extension or selects one, and all of them are among the identifiers
  of the plan.
\<close>

definition solver_left :: "string set \<Rightarrow> dependencySolveState \<Rightarrow> nat" where
  "solver_left U st = card (U - {e. slExpanded st e}) + card (U - fst ` set (slSelected st))"

lemma plan_ids_required: "p \<in> set (library_packages env) \<Longrightarrow> d \<in> set (mandatory p) \<Longrightarrow> dpExtensionID d \<in> set (plan_ids env r)"
  by (auto simp: plan_ids_def mandatory_def)

lemma allowed_in: "allowed env e p \<Longrightarrow> p \<in> set (library_packages env)"
  by (auto simp: allowed_def dest: installed_in candidates_in split: sum.splits option.splits)

lemma solver_ids:
  assumes inv: "solver_inv env r rp ri st" and rp: "rp \<in> set (library_packages env)"
  shows "fst ` set (slConstraints st) \<subseteq> set (plan_ids env r)" "fst ` set (slSelected st) \<subseteq> set (plan_ids env r)"
proof -
  have lib: "p \<in> set (library_packages env)" if "map_of (slSelected st) e = Some p" for e p
  proof (cases "e = r")
    case True
    with inv rp that show ?thesis by (simp add: solver_inv_def selected_ok_def)
  next
    case False
    with inv that have "allowed env e p" unfolding solver_inv_def selected_ok_def by blast
    then show ?thesis by (rule allowed_in)
  qed
  show "fst ` set (slConstraints st) \<subseteq> set (plan_ids env r)"
  proof
    fix u assume "u \<in> fst ` set (slConstraints st)"
    from required_by [OF inv this] lib plan_ids_required show "u \<in> set (plan_ids env r)" by metis
  qed
  show "fst ` set (slSelected st) \<subseteq> set (plan_ids env r)"
  proof
    fix e assume "e \<in> fst ` set (slSelected st)"
    with inv have "(r, e) \<in> (edges_of (slEdges st))\<^sup>*"
      by (auto simp: map_of_dom solver_inv_def edges_ok_def simp del: edge_rel_image)
    then show "e \<in> set (plan_ids env r)"
    proof (cases rule: rtrancl.cases)
      case rtrancl_refl
      then show ?thesis by (simp add: plan_ids_def)
    next
      case (rtrancl_into_rtrancl b)
      then have "e \<in> set (entry (slEdges st) b)" by (simp add: edge_rel_def)
      with inv obtain p d where "map_of (slSelected st) b = Some p" "d \<in> set (mandatory p)" "dpExtensionID d = e"
        by (auto simp: solver_inv_def edges_ok_def split: option.splits if_splits)
      with lib plan_ids_required show ?thesis by metis
    qed
  qed
qed

lemma solve_returns:
  "solver_inv env r rp ri st \<Longrightarrow> rp \<in> set (library_packages env) \<Longrightarrow> solver_left (set (plan_ids env r)) st < n
    \<Longrightarrow> solve env n st \<noteq> None"
proof (induction n arbitrary: st)
  case (Suc n)
  let ?U = "set (plan_ids env r)"
  note ids = solver_ids [OF Suc.prems(1,2)]
  have less: "solver_left ?U (select u p f st) < n"
    if "u \<in> fst ` set (slConstraints st)" "map_of (slSelected st) u = None" for u p f
  proof -
    have "u \<in> ?U" "u \<notin> fst ` set (slSelected st)"
      using ids(1) that by (auto simp: map_of_eq_None_iff)
    then have "?U - insert u (fst ` set (slSelected st)) \<subset> ?U - fst ` set (slSelected st)" by blast
    then have "card (?U - insert u (fst ` set (slSelected st))) < card (?U - fst ` set (slSelected st))"
      by (intro psubset_card_mono) auto
    with Suc.prems(3) show ?thesis by (simp add: solver_left_def)
  qed
  from Suc.prems(1) show ?case
  proof (cases rule: solve_turn [where n = n])
    case (expanded e p st1)
    have "e \<in> ?U" using ids(2) expanded(1) by (auto simp: map_of_dom)
    with expanded(2) have "?U - {x. x = e \<or> slExpanded st x} \<subset> ?U - {x. slExpanded st x}" by auto
    then have "card (?U - {x. x = e \<or> slExpanded st x}) < card (?U - {x. slExpanded st x})"
      by (intro psubset_card_mono) auto
    moreover have "{x. slExpanded (st1\<lparr>slExpanded := (slExpanded st1)(e := True)\<rparr>) x} = {x. x = e \<or> slExpanded st x}"
      using expand_Inr [OF expanded(5)] by auto
    ultimately have "solver_left ?U (st1\<lparr>slExpanded := (slExpanded st1)(e := True)\<rparr>) < n"
      using Suc.prems(3) expand_Inr [OF expanded(5)] by (simp add: solver_left_def)
    with Suc.IH [OF expanded(4) Suc.prems(2)] expanded(3) show ?thesis by simp
  next
    case (installed u p)
    with Suc.IH [OF installed(5) Suc.prems(2) less] show ?thesis by simp
  next
    case (trials u cs)
    then have "\<forall>c\<in>set cs. solve env n (select u c False st) \<noteq> None"
      using Suc.IH [OF trials(6) Suc.prems(2) less] by blast
    with trials_return trials(3,4) show ?thesis by metis
  qed simp_all
qed simp

end
