(* ===== verification/DependencyPlan.thy ===== *)
theory DependencyPlan
  imports DependencySolver
begin

text \<open>
  The plan of an installation and the entrypoint that obeys it
  (\<open>src/internal/extension/dependency_plan.go\<close>, \<open>install_planned.go\<close>): the solver, the search for
  cycles and the order are put together as \<open>PlanInstall\<close> does.
\<close>

section \<open>The plan\<close>

datatype InstallPlanStatus = InstallPlanReady | InstallPlanRequiresDependencies | InstallPlanBlocked

record InstallPlanStep =
  stOrder :: nat
  stPackageID :: string
  stExtensionID :: string
  stVersion :: string
  stKind :: string
  stSource :: string

record InstallPlanWarning =
  iwCode :: string
  iwExtensionID :: string
  iwRequiredBy :: string
  iwMinVersion :: string
  iwMaxVersion :: string
  iwInstalledVersion :: string
  iwCandidateVersion :: string

record InstallPlan =
  ipRootPackageID :: string
  ipRootExtensionID :: string
  ipRootVersion :: string
  ipRootAlreadyInstalled :: bool
  ipStatus :: InstallPlanStatus
  ipSteps :: "InstallPlanStep list"
  ipBlockers :: "InstallPlanBlocker list"
  ipWarnings :: "InstallPlanWarning list"

text \<open>One optional dependency of a selected package: a warning unless it is installed and in range.\<close>

definition optional_warning :: "ext_env \<Rightarrow> string \<Rightarrow> Dependency \<Rightarrow> plan_error + InstallPlanWarning option" where
  "optional_warning env ext d =
     (let w = \<lparr>iwCode = [], iwExtensionID = dpExtensionID d, iwRequiredBy = ext, iwMinVersion = dpMinVersion d,
               iwMaxVersion = dpMaxVersion d, iwInstalledVersion = [], iwCandidateVersion = []\<rparr>;
          fits = (\<lambda>p. versionInRange (pkVersion p) (dpMinVersion d) (dpMaxVersion d))
      in case installedPackage env (dpExtensionID d) of Inl e \<Rightarrow> Inl e
      | Inr (Some p) \<Rightarrow>
          if fits p then Inr None
          else Inr (Some (w\<lparr>iwCode := ''OPTIONAL_DEPENDENCY_VERSION_MISMATCH'', iwInstalledVersion := pkVersion p\<rparr>))
      | Inr None \<Rightarrow>
          (case candidates env (dpExtensionID d) of Inl e \<Rightarrow> Inl e
           | Inr cs \<Rightarrow>
               (case find (\<lambda>c. pkCompatible c \<and> fits c) cs of
                  Some c \<Rightarrow> Inr (Some (w\<lparr>iwCode := ''OPTIONAL_DEPENDENCY_AVAILABLE'', iwCandidateVersion := pkVersion c\<rparr>))
                | None \<Rightarrow> Inr (Some (w\<lparr>iwCode := ''OPTIONAL_DEPENDENCY_UNAVAILABLE''\<rparr>)))))"

definition optionalWarnings :: "ext_env \<Rightarrow> dependencySolveState \<Rightarrow> plan_error + InstallPlanWarning list" where
  "optionalWarnings env st =
     (case map_result (\<lambda>(e, d). optional_warning env e d)
        (concat (map (\<lambda>e. case map_of (slSelected st) e of None \<Rightarrow> []
                          | Some p \<Rightarrow> map (Pair e) (filter dpOptional (mfDependencies (pkManifest p))))
                     (sort (remdups (map fst (slSelected st)))))) of
        Inl e \<Rightarrow> Inl e
      | Inr ws \<Rightarrow> Inr (concat (map (\<lambda>w. case w of None \<Rightarrow> [] | Some x \<Rightarrow> [x]) ws)))"

fun number_steps :: "nat \<Rightarrow> Package list \<Rightarrow> InstallPlanStep list" where
  "number_steps n [] = []"
| "number_steps n (p # ps) =
     \<lparr>stOrder = n, stPackageID = pkPackageID p, stExtensionID = mfExtensionID (pkManifest p),
      stVersion = pkVersion p, stKind = mfKind (pkManifest p), stSource = mfSource (pkManifest p)\<rparr>
     # number_steps (Suc n) ps"

text \<open>The selected packages that are not installed, in the order of installation.\<close>

definition to_install :: "dependencySolveState \<Rightarrow> string list \<Rightarrow> (string \<times> Package) list" where
  "to_install st order =
     concat (map (\<lambda>e. if slInstalled st e then [] else case map_of (slSelected st) e of None \<Rightarrow> [] | Some p \<Rightarrow> [(e, p)]) order)"

definition initial_state :: "string \<Rightarrow> Package \<Rightarrow> bool \<Rightarrow> dependencySolveState" where
  "initial_state r p installed = select r p installed newDependencySolveState"

text \<open>Enough fuel: each identifier of the plan is selected and expanded once.\<close>

definition plan_fuel :: "ext_env \<Rightarrow> string \<Rightarrow> nat" where
  "plan_fuel env r = Suc (2 * length (plan_ids env r))"

definition base_plan :: "Package \<Rightarrow> InstallPlan" where
  "base_plan p = \<lparr>ipRootPackageID = pkPackageID p, ipRootExtensionID = mfExtensionID (pkManifest p),
     ipRootVersion = pkVersion p, ipRootAlreadyInstalled = False, ipStatus = InstallPlanBlocked, ipSteps = [],
     ipBlockers = [], ipWarnings = []\<rparr>"

definition finish_plan :: "ext_env \<Rightarrow> Package \<Rightarrow> InstallPlan \<Rightarrow> dependencySolveState \<Rightarrow> plan_error + InstallPlan" where
  "finish_plan env rp plan solved =
     (let r = mfExtensionID (pkManifest rp); cyc = detectDependencyCycle r (slEdges solved) in
      if cyc \<noteq> []
      then Inr (plan\<lparr>ipBlockers := ipBlockers plan @
             [(blocker ''DEPENDENCY_CYCLE'' (hd cyc))\<lparr>ibDetail := join '' -> '' cyc\<rparr>]\<rparr>)
      else
        let steps = number_steps 1 (map snd (to_install solved (dependencyInstallOrder r (slEdges solved))))
        in case optionalWarnings env solved of Inl e \<Rightarrow> Inl e
           | Inr ws \<Rightarrow>
               Inr (plan\<lparr>ipSteps := steps, ipWarnings := ws,
                     ipStatus := (if list_ex (\<lambda>s. stPackageID s \<noteq> pkPackageID rp) steps
                                  then InstallPlanRequiresDependencies else InstallPlanReady)\<rparr>))"

definition PlanInstall :: "ext_env \<Rightarrow> string \<Rightarrow> (plan_error + InstallPlan) option" where
  "PlanInstall env packageID0 =
     (let packageID = trim_space packageID0 in
      if packageID = [] then Some (Inl PackageIDRequired)
      else case library_Get env packageID of Inl e \<Rightarrow> Some (Inl e)
      | Inr rp \<Rightarrow>
        let r = mfExtensionID (pkManifest rp); plan = base_plan rp in
        if \<not> pkCompatible rp
        then Some (Inr (plan\<lparr>ipBlockers := [(blocker ''ROOT_PACKAGE_INCOMPATIBLE'' r)\<lparr>ibDetail := pkReason rp\<rparr>]\<rparr>))
        else case installedPackage env r of Inl e \<Rightarrow> Some (Inl e)
        | Inr found \<Rightarrow>
          if (case found of None \<Rightarrow> False | Some p \<Rightarrow> pkPackageID p \<noteq> pkPackageID rp)
          then Some (Inr (plan\<lparr>ipBlockers := [(blocker ''ROOT_VERSION_ALREADY_INSTALLED'' r)
                 \<lparr>ibInstalledVersion := (case found of None \<Rightarrow> [] | Some p \<Rightarrow> pkVersion p),
                  ibDetail := ''update or rollback is required before installing a different root package version''\<rparr>]\<rparr>))
          else
            let plan1 = plan\<lparr>ipRootAlreadyInstalled := (found \<noteq> None)\<rparr>
            in case solve env (plan_fuel env r) (initial_state r rp (found \<noteq> None)) of
                 None \<Rightarrow> None
               | Some (Failed e) \<Rightarrow> Some (Inl e)
               | Some (Blocked b) \<Rightarrow> Some (Inr (plan1\<lparr>ipBlockers := [b]\<rparr>))
               | Some (Solved s) \<Rightarrow> Some (finish_plan env rp plan1 s))"

text \<open>
  The entrypoint of an installation: the lock of a SHOW, the plan, and the low-level installation
  \<open>install\<close> only when the plan is ready.
\<close>

datatype planned_error = SessionError | ShowConfigurationLocked | PlanFailed plan_error
  | DependenciesRequired InstallPlan | DependencyPlanBlocked InstallPlan | DifferentPackageInstalled | InstallFailed

definition InstallPlanned :: "ext_env \<Rightarrow> string option \<Rightarrow> (string \<Rightarrow> 'i option) \<Rightarrow> string \<Rightarrow> (planned_error + 'i) option" where
  "InstallPlanned env activeType install packageID =
     (case activeType of None \<Rightarrow> Some (Inl SessionError)
      | Some ty \<Rightarrow>
        if ty = ''SHOW'' then Some (Inl ShowConfigurationLocked)
        else case PlanInstall env packageID of None \<Rightarrow> None
        | Some (Inl e) \<Rightarrow> Some (Inl (PlanFailed e))
        | Some (Inr plan) \<Rightarrow>
          (case ipStatus plan of
             InstallPlanReady \<Rightarrow>
               Some (case install packageID of None \<Rightarrow> Inl InstallFailed | Some i \<Rightarrow> Inr i)
           | InstallPlanRequiresDependencies \<Rightarrow> Some (Inl (DependenciesRequired plan))
           | InstallPlanBlocked \<Rightarrow>
               Some (Inl (if ipBlockers plan \<noteq> [] \<and> ibCode (hd (ipBlockers plan)) = ''ROOT_VERSION_ALREADY_INSTALLED''
                          then DifferentPackageInstalled else DependencyPlanBlocked plan))))"

section \<open>A solved plan is safe to carry out\<close>

lemma solver_inv_initial:
  assumes "package_wf rp"
  shows "solver_inv env (mfExtensionID (pkManifest rp)) rp ri (initial_state (mfExtensionID (pkManifest rp)) rp ri)"
  using assms by (auto simp: solver_inv_def selected_ok_def constraints_ok_def edges_ok_def initial_state_def
      newDependencySolveState_def package_wf_def entry_def satisfies_iff)

lemma solved_consistent:
  assumes inv: "solver_inv env r rp ri s" and fin: "nextUnexpandedSelection s = []" "nextUnresolvedDependency s = []"
  shows "consistent env r rp (map_of (slSelected s))"
  unfolding consistent_def
proof (intro conjI allI impI ballI)
  show "map_of (slSelected s) r = Some rp" using inv by (simp add: solver_inv_def selected_ok_def)
  fix e p assume e: "map_of (slSelected s) e = Some p"
  with inv show "e = r \<or> allowed env e p" by (auto simp: solver_inv_def selected_ok_def)
  fix d assume d: "d \<in> set (mandatory p)"
  have "slExpanded s e" using next_unexpanded(2) [OF inv fin(1) e] .
  with inv e d have q: "req e d \<in> set (entry (slConstraints s) (dpExtensionID d))"
    by (auto simp: solver_inv_def constraints_ok_def)
  then have "entry (slConstraints s) (dpExtensionID d) \<noteq> []" by auto
  then have "dpExtensionID d \<in> fst ` set (slConstraints s)"
    using inv by (simp add: solver_inv_def constraints_ok_def)
  from next_unresolved(2) [OF inv fin(2) this] obtain t where t: "map_of (slSelected s) (dpExtensionID d) = Some t" ..
  with inv have "packageSatisfiesRequirements t (entry (slConstraints s) (dpExtensionID d))"
    by (auto simp: solver_inv_def selected_ok_def)
  with q have "meets t d" unfolding satisfies_iff meets_req [of t d e] by blast
  with t show "\<exists>q. map_of (slSelected s) (dpExtensionID d) = Some q \<and> meets q d" by blast
qed

lemma plan_fuel_enough:
  assumes "rp \<in> set (library_packages env)" "r = mfExtensionID (pkManifest rp)"
  shows "solve env (plan_fuel env r) (initial_state r rp ri) \<noteq> None"
proof (rule solve_returns)
  show "solver_inv env r rp ri (initial_state r rp ri)"
    using solver_inv_initial library_packages_wf assms by blast
  have "card (set (plan_ids env r) - X) \<le> length (plan_ids env r)" for X
    by (meson card_length card_mono Diff_subset finite_set le_trans)
  from add_mono [OF this this] show "solver_left (set (plan_ids env r)) (initial_state r rp ri) < plan_fuel env r"
    by (simp only: solver_left_def plan_fuel_def mult_2 less_Suc_eq_le)
qed (rule assms(1))

text \<open>
  C8. The solver decides whether a root package can be installed: with the fuel of the plan it
  returns; a solution is a consistent selection (it has the root, every other package is the installed
  one or a compatible package of the library, and every required dependency is selected in its range);
  and when it is blocked, there is no consistent selection at all.
\<close>

theorem solver_decides:
  assumes "library_Get env packageID = Inr rp" "r = mfExtensionID (pkManifest rp)"
  shows "case solve env (plan_fuel env r) (initial_state r rp ri) of
           None \<Rightarrow> False
         | Some (Solved s) \<Rightarrow> consistent env r rp (map_of (slSelected s))
         | Some (Blocked b) \<Rightarrow> \<not> (\<exists>A. consistent env r rp A)
         | Some (Failed e) \<Rightarrow> True"
proof -
  let ?s = "initial_state r rp ri"
  have lib: "rp \<in> set (library_packages env)" by (rule library_Get_in [OF assms(1)])
  have inv: "solver_inv env r rp ri ?s"
    using solver_inv_initial library_packages_wf [OF lib] assms(2) by blast
  have sub: "map_of (slSelected ?s) \<subseteq>\<^sub>m A" if "consistent env r rp A" for A
    using that by (auto simp: initial_state_def newDependencySolveState_def map_le_def consistent_def)
  show ?thesis
  proof (cases "solve env (plan_fuel env r) ?s")
    case None
    with plan_fuel_enough [OF lib assms(2)] show ?thesis by blast
  next
    case (Some x)
    show ?thesis
    proof (cases x)
      case (Solved s)
      with Some solve_sound [OF inv] have "solver_inv env r rp ri s" "nextUnexpandedSelection s = []"
        "nextUnresolvedDependency s = []" by blast+
      with Some Solved solved_consistent show ?thesis by simp
    next
      case (Blocked b)
      with Some solve_complete [OF inv _ _ sub] show ?thesis by auto
    qed (simp add: Some)
  qed
qed

lemma to_install_simps [simp]:
  "to_install s [] = []"
  "to_install s (e # es) = (if slInstalled s e then [] else case map_of (slSelected s) e of None \<Rightarrow> [] | Some p \<Rightarrow> [(e, p)])
     @ to_install s es"
  "to_install s (es @ fs) = to_install s es @ to_install s fs"
  by (simp_all add: to_install_def)

lemma to_install_iff: "(e, p) \<in> set (to_install s es) \<longleftrightarrow> e \<in> set es \<and> \<not> slInstalled s e \<and> map_of (slSelected s) e = Some p"
  by (induction es) (auto split: option.splits)

lemma to_install_keys: "fst ` set (to_install s es) \<subseteq> set es"
  using to_install_iff by force

lemma to_install_distinct: "distinct es \<Longrightarrow> distinct (map fst (to_install s es))"
  by (induction es) (auto simp: to_install_iff split: option.splits)

lemma to_install_split:
  "to_install s es = ys @ (e, p) # zs \<Longrightarrow> \<exists>es1 es2. es = es1 @ e # es2 \<and> ys = to_install s es1
     \<and> \<not> slInstalled s e \<and> map_of (slSelected s) e = Some p"
proof (induction es arbitrary: ys)
  case (Cons x es)
  show ?case
  proof (cases "slInstalled s x \<or> map_of (slSelected s) x = None")
    case True
    with Cons.prems have "to_install s es = ys @ (e, p) # zs" by (auto split: if_splits option.splits)
    with Cons.IH obtain es1 es2 where "es = es1 @ e # es2" "ys = to_install s es1" "\<not> slInstalled s e"
      "map_of (slSelected s) e = Some p" by blast
    with True show ?thesis by (intro exI [of _ "x # es1"] exI [of _ es2]) auto
  next
    case False
    then obtain q where q: "map_of (slSelected s) x = Some q" "\<not> slInstalled s x" by auto
    show ?thesis
    proof (cases ys)
      case Nil
      with Cons.prems q show ?thesis by (intro exI [of _ "[]"] exI [of _ es]) auto
    next
      case (Cons y ys')
      with Cons.prems q have "to_install s es = ys' @ (e, p) # zs" "y = (x, q)" by auto
      with Cons.IH obtain es1 es2 where "es = es1 @ e # es2" "ys' = to_install s es1" "\<not> slInstalled s e"
        "map_of (slSelected s) e = Some p" by blast
      with Cons q \<open>y = (x, q)\<close> show ?thesis by (intro exI [of _ "x # es1"] exI [of _ es2]) auto
    qed
  qed
qed simp

text \<open>
  A list of packages can be installed in order: none is installed yet, each is allowed for its
  extension, and each required dependency is installed in its range or comes earlier in its range.
\<close>

definition safe_order :: "ext_env \<Rightarrow> string \<Rightarrow> (string \<times> Package) list \<Rightarrow> bool" where
  "safe_order env r ps \<longleftrightarrow> distinct (map fst ps)
     \<and> (\<forall>ys e p zs. ps = ys @ (e, p) # zs \<longrightarrow>
          installedPackage env e = Inr None \<and> (e = r \<or> allowed env e p)
          \<and> (\<forall>d\<in>set (mandatory p). \<exists>q. meets q d
               \<and> (installedPackage env (dpExtensionID d) = Inr (Some q) \<or> (dpExtensionID d, q) \<in> set ys)))"

lemma root_last: "\<exists>xs. dependencyInstallOrder r edges = xs @ [r]"
  by (simp add: dependencyInstallOrder_def order_visit.simps Let_def)

lemma solved_safe_order:
  assumes inv: "solver_inv env r rp ri s" and fin: "nextUnexpandedSelection s = []" "nextUnresolvedDependency s = []"
    and ri: "ri = (installedPackage env r \<noteq> Inr None)" and ac: "detectDependencyCycle r (slEdges s) = []"
  shows "safe_order env r (to_install s (dependencyInstallOrder r (slEdges s)))"
  unfolding safe_order_def
proof (intro conjI allI impI ballI)
  let ?o = "dependencyInstallOrder r (slEdges s)"
  note ord = install_order [OF ac]
  show "distinct (map fst (to_install s ?o))" by (rule to_install_distinct [OF ord(1)])
  fix ys e p zs assume "to_install s ?o = ys @ (e, p) # zs"
  then obtain o1 o2 where o: "?o = o1 @ e # o2" "ys = to_install s o1" "\<not> slInstalled s e" "map_of (slSelected s) e = Some p"
    using to_install_split by blast
  have sel: "package_wf q \<and> (x = r \<or> allowed env x q \<and> slInstalled s x = (installedPackage env x \<noteq> Inr None))"
    if "map_of (slSelected s) x = Some q" for x q
    using inv that by (auto simp: solver_inv_def selected_ok_def)
  have rr: "slInstalled s r = ri" using inv by (simp add: solver_inv_def selected_ok_def)
  show "installedPackage env e = Inr None" using sel [OF o(4)] o(3) ri rr by auto
  show "e = r \<or> allowed env e p" using sel [OF o(4)] by blast
  fix d assume d: "d \<in> set (mandatory p)"
  let ?i = "dpExtensionID d"
  have ex: "slExpanded s e" using next_unexpanded(2) [OF inv fin(1) o(4)] .
  with inv o(4) have "set (entry (slEdges s) e) = dpExtensionID ` set (mandatory p)"
    by (auto simp: solver_inv_def edges_ok_def)
  with d have "?i \<in> set (entry (slEdges s) e)" by simp
  moreover have "edges_of (slEdges s) `` {e} \<subseteq> set o1" using ord(2) o(1) unfolding deps_first_def by blast
  ultimately have i: "?i \<in> set o1" by auto
  obtain xs where xs: "?o = xs @ [r]" using root_last by blast
  have "?i \<noteq> r"
  proof
    assume "?i = r"
    with i o(1) xs have "r \<in> set (butlast ?o)" by (auto simp: butlast_append)
    with ord(1) xs show False by auto
  qed
  from solved_consistent [OF inv fin] o(4) d obtain q where q: "map_of (slSelected s) ?i = Some q" "meets q d"
    unfolding consistent_def by blast
  show "\<exists>q. meets q d \<and> (installedPackage env ?i = Inr (Some q) \<or> (?i, q) \<in> set ys)"
  proof (cases "slInstalled s ?i")
    case True
    with sel [OF q(1)] \<open>?i \<noteq> r\<close> have "installedPackage env ?i \<noteq> Inr None" "allowed env ?i q" by auto
    then have "installedPackage env ?i = Inr (Some q)"
      by (auto simp: allowed_def split: sum.splits option.splits)
    with q(2) show ?thesis by blast
  next
    case False
    with i q(1) o(2) to_install_iff [of ?i q s o1] have "(?i, q) \<in> set ys" by simp
    with q(2) show ?thesis by blast
  qed
qed

lemma number_steps_ids: "(\<exists>st\<in>set (number_steps n ps). P (stPackageID st)) \<longleftrightarrow> (\<exists>p\<in>set ps. P (pkPackageID p))"
  by (induction ps arbitrary: n) auto

lemma finish_plan_cases:
  assumes "finish_plan env rp plan s = Inr plan'" "ipStatus plan = InstallPlanBlocked" "ipStatus plan' \<noteq> InstallPlanBlocked"
    "r = mfExtensionID (pkManifest rp)"
  shows "detectDependencyCycle r (slEdges s) = []"
    "ipSteps plan' = number_steps 1 (map snd (to_install s (dependencyInstallOrder r (slEdges s))))"
    "ipRootAlreadyInstalled plan' = ipRootAlreadyInstalled plan"
    "ipStatus plan' = InstallPlanReady \<longleftrightarrow> (\<forall>st\<in>set (ipSteps plan'). stPackageID st = pkPackageID rp)"
  using assms by (auto simp: finish_plan_def Let_def list_ex_iff split: if_splits sum.splits)

text \<open>The root closes the steps, unless it is installed.\<close>

lemma to_install_root:
  assumes inv: "solver_inv env r rp ri s" and ac: "detectDependencyCycle r (slEdges s) = []"
  shows "if ri then r \<notin> fst ` set (to_install s (dependencyInstallOrder r (slEdges s)))
         else \<exists>ys. to_install s (dependencyInstallOrder r (slEdges s)) = ys @ [(r, rp)]"
proof -
  obtain xs where xs: "dependencyInstallOrder r (slEdges s) = xs @ [r]" using root_last by blast
  have r: "map_of (slSelected s) r = Some rp" "slInstalled s r = ri"
    using inv by (auto simp: solver_inv_def selected_ok_def)
  show ?thesis
  proof (cases ri)
    case True
    then show ?thesis using r(2) to_install_iff [of r _ s "dependencyInstallOrder r (slEdges s)"] by force
  next
    case False
    then show ?thesis using r xs by simp
  qed
qed

lemma plan_solution:
  assumes "PlanInstall env packageID = Some (Inr plan)" "ipStatus plan \<noteq> InstallPlanBlocked"
  obtains rp found s where "library_Get env (trim_space packageID) = Inr rp"
    "installedPackage env (mfExtensionID (pkManifest rp)) = Inr found"
    "finish_plan env rp ((base_plan rp)\<lparr>ipRootAlreadyInstalled := (found \<noteq> None)\<rparr>) s = Inr plan"
    "solver_inv env (mfExtensionID (pkManifest rp)) rp (found \<noteq> None) s"
    "nextUnexpandedSelection s = []" "nextUnresolvedDependency s = []"
proof -
  from assms obtain rp found where g: "library_Get env (trim_space packageID) = Inr rp"
    and f: "installedPackage env (mfExtensionID (pkManifest rp)) = Inr found"
    by (auto simp: PlanInstall_def Let_def base_plan_def split: if_splits sum.splits)
  let ?r = "mfExtensionID (pkManifest rp)" and ?ri = "found \<noteq> None"
  from assms g f obtain s where s: "solve env (plan_fuel env ?r) (initial_state ?r rp ?ri) = Some (Solved s)"
    and fin: "finish_plan env rp ((base_plan rp)\<lparr>ipRootAlreadyInstalled := ?ri\<rparr>) s = Inr plan"
    by (auto simp: PlanInstall_def Let_def base_plan_def split: if_splits option.splits solve_result.splits)
  have "package_wf rp" by (rule library_packages_wf [OF library_Get_in [OF g]])
  from solve_sound [OF solver_inv_initial [OF this] s] that [OF g f fin] show thesis by blast
qed

text \<open>
  C9. A plan that is not blocked is safe to carry out: its steps install packages that are not
  installed, in an order in which every required dependency of a step is already installed in its range or
  is an earlier step in its range; the root is the last step unless it is installed; and the plan is
  ready exactly when no other package has to be installed.
\<close>

theorem plan_safe:
  assumes "PlanInstall env packageID = Some (Inr plan)" "ipStatus plan \<noteq> InstallPlanBlocked"
  shows "\<exists>r rp ps. library_Get env (trim_space packageID) = Inr rp \<and> r = mfExtensionID (pkManifest rp)
    \<and> ipSteps plan = number_steps 1 (map snd ps) \<and> safe_order env r ps
    \<and> (if installedPackage env r = Inr None then \<exists>ys. ps = ys @ [(r, rp)] else r \<notin> fst ` set ps)
    \<and> (ipStatus plan = InstallPlanReady \<longleftrightarrow> (\<forall>st\<in>set (ipSteps plan). stPackageID st = pkPackageID rp))"
proof -
  obtain rp found s where g: "library_Get env (trim_space packageID) = Inr rp"
    and f: "installedPackage env (mfExtensionID (pkManifest rp)) = Inr found"
    and fin: "finish_plan env rp ((base_plan rp)\<lparr>ipRootAlreadyInstalled := (found \<noteq> None)\<rparr>) s = Inr plan"
    and inv: "solver_inv env (mfExtensionID (pkManifest rp)) rp (found \<noteq> None) s"
      "nextUnexpandedSelection s = []" "nextUnresolvedDependency s = []"
    by (rule plan_solution [OF assms])
  let ?r = "mfExtensionID (pkManifest rp)" and ?ri = "found \<noteq> None"
  let ?plan = "(base_plan rp)\<lparr>ipRootAlreadyInstalled := ?ri\<rparr>"
  have "ipStatus ?plan = InstallPlanBlocked" by (simp add: base_plan_def)
  note F = finish_plan_cases [OF fin this assms(2) refl]
  have ri: "?ri = (installedPackage env ?r \<noteq> Inr None)" using f by simp
  let ?ps = "to_install s (dependencyInstallOrder ?r (slEdges s))"
  have "safe_order env ?r ?ps" by (rule solved_safe_order [OF inv ri F(1)])
  moreover have "if installedPackage env ?r = Inr None then \<exists>ys. ?ps = ys @ [(?r, rp)] else ?r \<notin> fst ` set ?ps"
    using to_install_root [OF inv(1) F(1)] ri by (auto split: if_splits)
  ultimately show ?thesis using g F(2,4) by blast
qed

text \<open>
  C37. Planning always returns: the backtracking, the search for cycles and the order end on every
  library, whatever its packages require of each other.
\<close>

theorem plan_returns: "PlanInstall env packageID \<noteq> None"
proof (cases "library_Get env (trim_space packageID)")
  case (Inl e)
  then show ?thesis by (simp add: PlanInstall_def Let_def)
next
  case (Inr rp)
  note fuel = plan_fuel_enough [OF library_Get_in [OF Inr] refl]
  show ?thesis
  proof (cases "installedPackage env (mfExtensionID (pkManifest rp))")
    case (Inl e)
    with Inr show ?thesis by (simp add: PlanInstall_def Let_def)
  next
    case found: (Inr found)
    with Inr fuel [of "found \<noteq> None"] show ?thesis
      by (auto simp: PlanInstall_def Let_def split: option.splits solve_result.splits)
  qed
qed

section \<open>A library\<close>

definition demo_ext :: "string \<Rightarrow> string \<Rightarrow> Dependency list \<Rightarrow> Manifest" where
  "demo_ext i v ds = \<lparr>mfSchemaVersion = 1, mfExtensionID = i, mfVersion = v, mfKind = ''ADDON'', mfSource = ''LOCAL'',
     mfName = \<lparr>ltEN = ''E'', ltArIQ = ''A''\<rparr>, mfSummary = \<lparr>ltEN = ''E'', ltArIQ = ''A''\<rparr>,
     mfCompatibility = \<lparr>coAPIMin = 1, coAPIMax = 1, coPlatforms = [''l''], coArchitectures = [''a'']\<rparr>,
     mfPermissions = [], mfCapabilities = [], mfDependencies = ds, mfRuntime = None\<rparr>"

definition demo_dep :: "string \<Rightarrow> Dependency" where
  "demo_dep i = \<lparr>dpExtensionID = i, dpMinVersion = [], dpMaxVersion = [], dpOptional = False\<rparr>"

text \<open>
  The root needs a library; version 2 of the library needs the root, version 1 needs nothing. The
  identifier of a package stands for its manifest.
\<close>

definition demo_row :: "string \<Rightarrow> string \<Rightarrow> string \<Rightarrow> ExtensionPackage" where
  "demo_row pid i v = \<lparr>xpPackageID = pid, xpExtensionID = i, xpVersion = v, xpManifestJSON = pid, xpManifestSHA256 = [],
     xpRegisteredAt = 0\<rparr>"

definition demo_decode :: "string \<Rightarrow> Manifest option" where
  "demo_decode j = (if j = ''R'' then Some (demo_ext ''a.r'' ''1.0.0'' [demo_dep ''b.l''])
     else if j = ''L1'' then Some (demo_ext ''b.l'' ''1.0.0'' [])
     else if j = ''L2'' then Some (demo_ext ''b.l'' ''2.0.0'' [demo_dep ''a.r''])
     else None)"

definition demo_env :: "ExtensionPackage list \<Rightarrow> ext_env" where
  "demo_env rows = \<lparr>xePackages = rows, xeInstallations = [], xeDatabase = True, xeArabic = (\<lambda>_. True),
     xeDecode = demo_decode, xeCanonical = (\<lambda>_. Some []), xeSHA256 = (\<lambda>_. []),
     xeSoftware = (\<lambda>_. Some \<lparr>psCompatible = True, psProductionReady = True, psReason = []\<rparr>), xePayload = (\<lambda>_. True)\<rparr>"

definition demo_rows :: "ExtensionPackage list" where
  "demo_rows = [demo_row ''R'' ''a.r'' ''1.0.0'', demo_row ''L1'' ''b.l'' ''1.0.0'']"

definition plan_summary :: "(plan_error + InstallPlan) option \<Rightarrow> (InstallPlanStatus \<times> string list \<times> string list) option" where
  "plan_summary x = (case x of Some (Inr p) \<Rightarrow> Some (ipStatus p, map stPackageID (ipSteps p), map ibCode (ipBlockers p)) | _ \<Rightarrow> None)"

lemma demo_plan:
  "plan_summary (PlanInstall (demo_env demo_rows) ''R'') = Some (InstallPlanRequiresDependencies, [''L1'', ''R''], [])"
  by code_simp

lemma plan_safe_witness:
  "\<exists>plan r ps. PlanInstall (demo_env demo_rows) ''R'' = Some (Inr plan) \<and> ipSteps plan = number_steps 1 (map snd ps)
     \<and> safe_order (demo_env demo_rows) r ps"
proof -
  obtain plan where p: "PlanInstall (demo_env demo_rows) ''R'' = Some (Inr plan)" "ipStatus plan \<noteq> InstallPlanBlocked"
    using demo_plan by (auto simp: plan_summary_def split: option.splits sum.splits)
  from plan_safe [OF p] p(1) show ?thesis by blast
qed

lemma solver_decides_witness:
  "\<exists>s. solve (demo_env demo_rows) (plan_fuel (demo_env demo_rows) ''a.r'')
          (initial_state ''a.r'' (makePackage (demo_row ''R'' ''a.r'' ''1.0.0'') (demo_ext ''a.r'' ''1.0.0'' [demo_dep ''b.l''])
            \<lparr>psCompatible = True, psProductionReady = True, psReason = []\<rparr>) False) = Some (Solved s)
     \<and> consistent (demo_env demo_rows) ''a.r'' (makePackage (demo_row ''R'' ''a.r'' ''1.0.0'')
         (demo_ext ''a.r'' ''1.0.0'' [demo_dep ''b.l''])
         \<lparr>psCompatible = True, psProductionReady = True, psReason = []\<rparr>) (map_of (slSelected s))"
proof -
  let ?env = "demo_env demo_rows"
  let ?p = "makePackage (demo_row ''R'' ''a.r'' ''1.0.0'') (demo_ext ''a.r'' ''1.0.0'' [demo_dep ''b.l''])
            \<lparr>psCompatible = True, psProductionReady = True, psReason = []\<rparr>"
  have g: "library_Get ?env ''R'' = Inr ?p" by code_simp
  have r: "''a.r'' = mfExtensionID (pkManifest ?p)" by (simp add: makePackage_def demo_ext_def)
  have "(case solve ?env (plan_fuel ?env ''a.r'') (initial_state ''a.r'' ?p False) of Some (Solved s) \<Rightarrow> True | _ \<Rightarrow> False)"
    by code_simp
  then obtain s where s: "solve ?env (plan_fuel ?env ''a.r'') (initial_state ''a.r'' ?p False) = Some (Solved s)"
    by (auto split: option.splits solve_result.splits)
  with solver_decides [OF g r, of False] show ?thesis by auto
qed

section \<open>An installation has its dependencies\<close>

lemma inflate_normalized: "inflate env row = Inr p \<Longrightarrow> \<exists>m0. pkManifest p = normalizeManifest m0"
  by (auto simp: inflate_def makePackage_def ParseManifest_def Let_def split: sum.splits option.splits if_splits prod.splits)

lemma library_dep_trimmed:
  assumes "p \<in> set (library_packages env)" "d \<in> set (mfDependencies (pkManifest p))"
  shows "trim_space (dpExtensionID d) = dpExtensionID d"
proof -
  from assms(1) obtain m0 where "pkManifest p = normalizeManifest m0"
    by (auto simp: library_packages_iff dest: inflate_normalized)
  with assms(2) obtain d0 where "d = norm_dependency d0" by auto
  then show ?thesis by (simp add: norm_dependency_def)
qed

text \<open>
  The tables as the store keeps them: package identifiers are unique, and a package is registered
  under the extension of its manifest.
\<close>

definition library_keys :: "ext_env \<Rightarrow> bool" where
  "library_keys env \<longleftrightarrow> distinct (map xpPackageID (xePackages env))
     \<and> list_all (\<lambda>row. case inflate env row of Inl _ \<Rightarrow> True | Inr p \<Rightarrow> mfExtensionID (pkManifest p) = xpExtensionID row)
         (xePackages env)"

lemma inflate_id: "inflate env row = Inr p \<Longrightarrow> pkPackageID p = xpPackageID row"
  by (auto simp: inflate_def makePackage_def split: sum.splits option.splits if_splits prod.splits)

lemma same_package:
  assumes "library_keys env" "p \<in> set (library_packages env)" "q \<in> set (library_packages env)" "pkPackageID p = pkPackageID q"
  shows "p = q"
proof -
  from assms(2,3) obtain a b where ab: "a \<in> set (xePackages env)" "inflate env a = Inr p"
    "b \<in> set (xePackages env)" "inflate env b = Inr q" by (auto simp: library_packages_iff)
  with assms(4) inflate_id have "xpPackageID a = xpPackageID b" by metis
  with ab assms(1) have "a = b" by (auto simp: library_keys_def distinct_map inj_on_def)
  with ab show ?thesis by simp
qed

lemma candidate_extension:
  assumes "library_keys env" "candidates env e = Inr cs" "p \<in> set cs" "trim_space e = e" "e \<noteq> []"
  shows "mfExtensionID (pkManifest p) = e"
proof -
  from assms(2-5) obtain row where "row \<in> set (xePackages env)" "inflate env row = Inr p" "xpExtensionID row = e"
    by (auto simp: candidates_def library_List_def ListExtensionPackages_def Let_def
        dest!: map_result_Inr split: sum.splits if_splits)
  with assms(1) show ?thesis by (force simp: library_keys_def list_all_iff)
qed

lemma ready_root:
  assumes keys: "library_keys env" and rp: "rp \<in> set (library_packages env)" "r = mfExtensionID (pkManifest rp)"
    and inv: "solver_inv env r rp ri s" and fin: "nextUnexpandedSelection s = []" "nextUnresolvedDependency s = []"
    and ac: "detectDependencyCycle r (slEdges s) = []"
    and ready: "\<forall>p\<in>snd ` set (to_install s (dependencyInstallOrder r (slEdges s))). pkPackageID p = pkPackageID rp"
    and d: "d \<in> set (mandatory rp)"
  shows "\<exists>q. installedPackage env (dpExtensionID d) = Inr (Some q) \<and> meets q d"
proof -
  let ?i = "dpExtensionID d" and ?o = "dependencyInstallOrder r (slEdges s)"
  note ord = install_order [OF ac]
  have r: "map_of (slSelected s) r = Some rp" using inv by (simp add: solver_inv_def selected_ok_def)
  from solved_consistent [OF inv fin] r d obtain q where q: "map_of (slSelected s) ?i = Some q" "meets q d"
    unfolding consistent_def by blast
  have "slExpanded s r" using next_unexpanded(2) [OF inv fin(1) r] .
  with inv r d have e: "(r, ?i) \<in> edges_of (slEdges s)" by (auto simp: solver_inv_def edges_ok_def edge_rel_def)
  then have io: "?i \<in> set ?o" unfolding ord(3) by blast
  obtain xs where xs: "?o = xs @ [r]" using root_last by blast
  have "edges_of (slEdges s) `` {r} \<subseteq> set xs" using ord(2) xs unfolding deps_first_def by blast
  with e have "?i \<in> set xs" by blast
  with ord(1) xs have ir: "?i \<noteq> r" by auto
  have al: "allowed env ?i q" "slInstalled s ?i = (installedPackage env ?i \<noteq> Inr None)" "package_wf q"
    using inv q(1) ir by (auto simp: solver_inv_def selected_ok_def)
  have dm: "d \<in> set (mfDependencies (pkManifest rp))" using d by (simp add: mandatory_def)
  have "installedPackage env ?i \<noteq> Inr None"
  proof
    assume n: "installedPackage env ?i = Inr None"
    with al(2) io q(1) have "(?i, q) \<in> set (to_install s ?o)" by (simp add: to_install_iff)
    with ready have "pkPackageID q = pkPackageID rp" by force
    with same_package [OF keys allowed_in [OF al(1)] rp(1)] have "q = rp" by simp
    moreover obtain cs where "candidates env ?i = Inr cs" "q \<in> set cs"
      using al(1) n by (auto simp: allowed_def split: sum.splits)
    moreover have "?i \<noteq> []" using library_packages_wf [OF rp(1)] dm by (auto simp: package_wf_def)
    ultimately have "mfExtensionID (pkManifest rp) = ?i"
      using candidate_extension [OF keys] library_dep_trimmed [OF rp(1) dm] by blast
    with rp(2) ir show False by simp
  qed
  with al(1) q(2) show ?thesis by (auto simp: allowed_def split: sum.splits option.splits)
qed

text \<open>
  The entrypoint installs only when no SHOW is active and every required dependency of the package
  is installed in its range; otherwise it calls no installer.
\<close>

theorem install_needs_dependencies:
  assumes "library_keys env" "InstallPlanned env activeType install packageID = Some (Inr i)"
  shows "activeType \<noteq> Some ''SHOW''
    \<and> (\<exists>rp. library_Get env (trim_space packageID) = Inr rp
         \<and> (\<forall>d\<in>set (mandatory rp). \<exists>q. installedPackage env (dpExtensionID d) = Inr (Some q) \<and> meets q d))"
proof -
  obtain plan where p: "PlanInstall env packageID = Some (Inr plan)" "ipStatus plan = InstallPlanReady"
    and a: "activeType \<noteq> Some ''SHOW''"
    using assms(2) by (auto simp: InstallPlanned_def split: option.splits if_splits sum.splits InstallPlanStatus.splits)
  then have nb: "ipStatus plan \<noteq> InstallPlanBlocked" by simp
  obtain rp found s where s: "library_Get env (trim_space packageID) = Inr rp"
    "installedPackage env (mfExtensionID (pkManifest rp)) = Inr found"
    "finish_plan env rp ((base_plan rp)\<lparr>ipRootAlreadyInstalled := (found \<noteq> None)\<rparr>) s = Inr plan"
    "solver_inv env (mfExtensionID (pkManifest rp)) rp (found \<noteq> None) s"
    "nextUnexpandedSelection s = []" "nextUnresolvedDependency s = []"
    by (rule plan_solution [OF p(1) nb])
  have "ipStatus ((base_plan rp)\<lparr>ipRootAlreadyInstalled := (found \<noteq> None)\<rparr>) = InstallPlanBlocked"
    by (simp add: base_plan_def)
  note F = finish_plan_cases [OF s(3) this nb refl]
  have "\<forall>q\<in>snd ` set (to_install s (dependencyInstallOrder (mfExtensionID (pkManifest rp)) (slEdges s))). pkPackageID q = pkPackageID rp"
    using F(2,4) p(2) number_steps_ids [of 1 _ "\<lambda>x. x \<noteq> pkPackageID rp"] by (metis (no_types, lifting) list.set_map)
  with ready_root [OF assms(1) library_Get_in [OF s(1)] refl s(4-6) F(1)] a s(1) show ?thesis by blast
qed

text \<open>The library of the example with version 1 installed: now the root can be installed.\<close>

definition demo_installed :: ext_env where
  "demo_installed = (demo_env demo_rows)\<lparr>xeInstallations := [\<lparr>xiInstallationID = ''I'', xiPackageID = ''L1'', xiInstalledAt = 0\<rparr>]\<rparr>"

lemma install_needs_dependencies_witness:
  "InstallPlanned demo_installed (Some ''REHEARSAL'') Some ''R'' = Some (Inr ''R'')
   \<and> (\<exists>rp. library_Get demo_installed ''R'' = Inr rp
         \<and> list_all (\<lambda>d. \<exists>q. installedPackage demo_installed (dpExtensionID d) = Inr (Some q) \<and> meets q d) (mandatory rp))"
proof -
  have k: "library_keys demo_installed" by code_simp
  have i: "InstallPlanned demo_installed (Some ''REHEARSAL'') Some ''R'' = Some (Inr ''R'')" by code_simp
  have t: "trim_space ''R'' = ''R''" by code_simp
  from install_needs_dependencies [OF k i] i t show ?thesis by (simp add: list_all_iff)
qed

text \<open>
  The search for a cycle is made once, after the solver has chosen: with version 2 of the library, which
  needs the root, the plan is blocked by a cycle although version 1, which needs nothing, is a consistent
  selection without one.
\<close>

definition cyclic_env :: ext_env where
  "cyclic_env = demo_env (demo_rows @ [demo_row ''L2'' ''b.l'' ''2.0.0''])"

definition acyclic_choice :: "string \<rightharpoonup> Package" where
  "acyclic_choice e =
     (let pick = (\<lambda>pid. case library_Get cyclic_env pid of Inl _ \<Rightarrow> None | Inr p \<Rightarrow> Some p) in
      if e = ''a.r'' then pick ''R'' else if e = ''b.l'' then pick ''L1'' else None)"

lemma cycle_without_backtracking:
  "plan_summary (PlanInstall cyclic_env ''R'') = Some (InstallPlanBlocked, [], [''DEPENDENCY_CYCLE''])
   \<and> plan_summary (PlanInstall (demo_env demo_rows) ''R'') = Some (InstallPlanRequiresDependencies, [''L1'', ''R''], [])
   \<and> consistent cyclic_env ''a.r'' (the (acyclic_choice ''a.r'')) acyclic_choice"
proof (intro conjI)
  show "plan_summary (PlanInstall cyclic_env ''R'') = Some (InstallPlanBlocked, [], [''DEPENDENCY_CYCLE''])"
    by code_simp
  show "plan_summary (PlanInstall (demo_env demo_rows) ''R'') = Some (InstallPlanRequiresDependencies, [''L1'', ''R''], [])"
    by (rule demo_plan)
  have g: "case acyclic_choice ''a.r'' of None \<Rightarrow> False | Some p \<Rightarrow> map dpExtensionID (mandatory p) = [''b.l'']"
    "case acyclic_choice ''b.l'' of None \<Rightarrow> False | Some q \<Rightarrow> mandatory q = [] \<and> pkCompatible q
       \<and> (case installedPackage cyclic_env ''b.l'' of Inr None \<Rightarrow> True | _ \<Rightarrow> False)
       \<and> (case candidates cyclic_env ''b.l'' of Inl _ \<Rightarrow> False | Inr cs \<Rightarrow> list_ex (\<lambda>c. c = q) cs)
       \<and> list_all (meets q) (case acyclic_choice ''a.r'' of None \<Rightarrow> [] | Some p \<Rightarrow> mandatory p)"
    by code_simp+
  then obtain p q where pq: "acyclic_choice ''a.r'' = Some p" "acyclic_choice ''b.l'' = Some q"
    "map dpExtensionID (mandatory p) = [''b.l'']" "mandatory q = []" "allowed cyclic_env ''b.l'' q"
    "\<forall>d\<in>set (mandatory p). meets q d"
    by (auto simp: allowed_def list_all_iff list_ex_iff split: option.splits sum.splits)
  have other: "e = ''a.r'' \<or> e = ''b.l''" if "acyclic_choice e = Some x" for e x
    using that by (auto simp: acyclic_choice_def Let_def split: if_splits)
  have dep: "dpExtensionID d = ''b.l''" if "d \<in> set (mandatory p)" for d
  proof -
    have "dpExtensionID d \<in> set (map dpExtensionID (mandatory p))" using that by simp
    then show ?thesis unfolding pq(3) by simp
  qed
  show "consistent cyclic_env ''a.r'' (the (acyclic_choice ''a.r'')) acyclic_choice"
    unfolding consistent_def
  proof (intro conjI allI impI)
    fix e x assume x: "acyclic_choice e = Some x"
    from other [OF x] x pq dep show "e = ''a.r'' \<or> allowed cyclic_env e x"
      "\<forall>d\<in>set (mandatory x). \<exists>q. acyclic_choice (dpExtensionID d) = Some q \<and> meets q d" by auto
  qed (simp add: pq(1))
qed

end
