(* ===== verification/Interleave.thy ===== *)
theory Interleave
  imports Prelude
begin

text \<open>
  Concurrent goroutines over a shared state. A goroutine is a \<open>prog\<close>: what it does next is one atomic
  action (a critical section, one SQL statement, one receive from a channel), whose outcome may depend on
  an input of the environment, and the rest of the goroutine is what the action returns. An action that
  cannot happen yet is \<open>None\<close>: the goroutine is blocked. A rely-guarantee system proves invariants of all
  interleavings one goroutine at a time.
\<close>

section \<open>Goroutines\<close>

text \<open>The label of an action names the point of the code the goroutine has reached.\<close>

datatype ('s, 'i, 'l, 'r) prog =
    Ret 'r
  | Act 'l "'i \<Rightarrow> 's \<Rightarrow> ('s \<times> ('s, 'i, 'l, 'r) prog) option"

text \<open>An action that always happens, and one that may block; \<open>k\<close> is the rest of the code.\<close>

definition act :: "'l \<Rightarrow> ('i \<Rightarrow> 's \<Rightarrow> 's \<times> 'a) \<Rightarrow> ('a \<Rightarrow> ('s, 'i, 'l, 'r) prog) \<Rightarrow> ('s, 'i, 'l, 'r) prog" where
  "act l f k = Act l (\<lambda>i s. case f i s of (s', a) \<Rightarrow> Some (s', k a))"

definition await :: "'l \<Rightarrow> ('i \<Rightarrow> 's \<Rightarrow> ('s \<times> 'a) option) \<Rightarrow> ('a \<Rightarrow> ('s, 'i, 'l, 'r) prog) \<Rightarrow> ('s, 'i, 'l, 'r) prog" where
  "await l f k = Act l (\<lambda>i s. case f i s of None \<Rightarrow> None | Some (s', a) \<Rightarrow> Some (s', k a))"

inductive istep :: "'s \<times> (nat \<Rightarrow> ('s, 'i, 'l, 'r) prog) \<Rightarrow> 's \<times> (nat \<Rightarrow> ('s, 'i, 'l, 'r) prog) \<Rightarrow> bool" where
  istep: "ps t = Act l f \<Longrightarrow> f i s = Some (s', p') \<Longrightarrow> istep (s, ps) (s', ps(t := p'))"

inductive_cases istepE: "istep c c'"

inductive_simps istep_from: "istep (s, ps) c'"

text \<open>The run of a schedule: which goroutine moves, and on what input.\<close>

fun irun :: "(nat \<times> 'i) list \<Rightarrow> 's \<times> (nat \<Rightarrow> ('s, 'i, 'l, 'r) prog) \<Rightarrow> ('s \<times> (nat \<Rightarrow> ('s, 'i, 'l, 'r) prog)) option" where
  "irun [] c = Some c"
| "irun ((t, i) # tis) (s, ps) =
     (case ps t of
        Ret r \<Rightarrow> None
      | Act l f \<Rightarrow> (case f i s of None \<Rightarrow> None | Some (s', p') \<Rightarrow> irun tis (s', ps(t := p'))))"

lemma irun_steps: "irun tis c = Some c' \<Longrightarrow> istep\<^sup>*\<^sup>* c c'"
proof (induction tis c rule: irun.induct)
  case (2 t i tis s ps)
  then obtain l f s' p' where "ps t = Act l f" "f i s = Some (s', p')" "irun tis (s', ps(t := p')) = Some c'"
    by (auto split: prog.splits option.splits)
  with 2(1) show ?case by (blast intro: istep.intros converse_rtranclp_into_rtranclp)
qed simp

fun label_of :: "('s, 'i, 'l, 'r) prog \<Rightarrow> 'l option" where
  "label_of (Ret r) = None"
| "label_of (Act l f) = Some l"

fun result_of :: "('s, 'i, 'l, 'r) prog \<Rightarrow> 'r option" where
  "result_of (Ret r) = Some r"
| "result_of (Act l f) = None"

lemma label_of_Some: "label_of p = Some l \<longleftrightarrow> (\<exists>f. p = Act l f)"
  by (cases p) auto

lemma result_of_Some: "result_of p = Some r \<longleftrightarrow> p = Ret r"
  by (cases p) auto

lemma irun_append: "irun (tis @ tis') c = Option.bind (irun tis c) (irun tis')"
  by (induction tis c rule: irun.induct) (auto split: prog.splits option.splits)

section \<open>Rely and guarantee\<close>

text \<open>
  \<open>rg Inv rely guar marks P p\<close>: from a state with \<open>Inv\<close> and \<open>P\<close>, each action of \<open>p\<close> moves the state within
  \<open>guar\<close> and establishes the assertion of what remains, every assertion survives the moves \<open>rely\<close> allows
  the others, and where \<open>p\<close> stands at a label the state is as \<open>marks\<close> says.
\<close>

definition stable :: "('s \<Rightarrow> bool) \<Rightarrow> ('s \<Rightarrow> 's \<Rightarrow> bool) \<Rightarrow> ('s \<Rightarrow> bool) \<Rightarrow> bool" where
  "stable Inv rely P \<longleftrightarrow> (\<forall>s s'. Inv s \<longrightarrow> rely s s' \<longrightarrow> P s \<longrightarrow> P s')"

inductive rg :: "('s \<Rightarrow> bool) \<Rightarrow> ('s \<Rightarrow> 's \<Rightarrow> bool) \<Rightarrow> ('s \<Rightarrow> 's \<Rightarrow> bool) \<Rightarrow> ('l \<Rightarrow> 's \<Rightarrow> bool)
    \<Rightarrow> ('s \<Rightarrow> bool) \<Rightarrow> ('s, 'i, 'l, 'r) prog \<Rightarrow> bool" for Inv rely guar marks where
  rg_Ret: "rg Inv rely guar marks P (Ret r)"
| rg_Act: "stable Inv rely P \<Longrightarrow> (\<And>s. Inv s \<Longrightarrow> P s \<Longrightarrow> marks l s)
    \<Longrightarrow> (\<And>i s s' p'. Inv s \<Longrightarrow> P s \<Longrightarrow> f i s = Some (s', p')
          \<Longrightarrow> guar s s' \<and> (\<exists>P'. P' s' \<and> rg Inv rely guar marks P' p'))
    \<Longrightarrow> rg Inv rely guar marks P (Act l f)"

inductive_cases rg_ActE: "rg Inv rely guar marks P (Act l f)"

lemma rg_await:
  assumes "stable Inv rely P" and "\<And>s. Inv s \<Longrightarrow> P s \<Longrightarrow> marks l s"
    and "\<And>i s s' a. Inv s \<Longrightarrow> P s \<Longrightarrow> f i s = Some (s', a)
      \<Longrightarrow> guar s s' \<and> (\<exists>P'. P' s' \<and> rg Inv rely guar marks P' (k a))"
  shows "rg Inv rely guar marks P (await l f k)"
  unfolding await_def by (rule rg_Act) (use assms in \<open>auto split: option.splits\<close>)

lemma rg_act:
  assumes "stable Inv rely P" and "\<And>s. Inv s \<Longrightarrow> P s \<Longrightarrow> marks l s"
    and "\<And>i s s' a. Inv s \<Longrightarrow> P s \<Longrightarrow> f i s = (s', a)
      \<Longrightarrow> guar s s' \<and> (\<exists>P'. P' s' \<and> rg Inv rely guar marks P' (k a))"
  shows "rg Inv rely guar marks P (act l f k)"
  unfolding act_def by (rule rg_Act) (use assms in \<open>auto split: prod.splits\<close>)

text \<open>An action that keeps the assertion, whatever it returns.\<close>

lemma rg_keep:
  assumes "stable Inv rely P" and "\<And>s. Inv s \<Longrightarrow> P s \<Longrightarrow> marks l s"
    and "\<And>i s. Inv s \<Longrightarrow> P s \<Longrightarrow> guar s (fst (f i s)) \<and> P (fst (f i s))"
    and "\<And>a. rg Inv rely guar marks P (k a)"
  shows "rg Inv rely guar marks P (act l f k)"
proof (rule rg_act)
  show "stable Inv rely P" by (rule assms(1))
next
  fix s assume "Inv s" "P s"
  then show "marks l s" by (rule assms(2))
next
  fix i s s' a assume "Inv s" "P s" "f i s = (s', a)"
  then show "guar s s' \<and> (\<exists>P'. P' s' \<and> rg Inv rely guar marks P' (k a))"
    using assms(3) [of s i] assms(4) [of a] by (metis fst_conv)
qed

lemma rg_weaken:
  assumes "rg Inv rely guar marks P p" and "stable Inv rely Q" and "\<And>s. Q s \<Longrightarrow> P s"
  shows "rg Inv rely guar marks Q p"
  using assms
proof (cases rule: rg.cases)
  case (rg_Act l f)
  show ?thesis unfolding rg_Act(1)
  proof (rule rg.rg_Act [OF assms(2)])
    fix s assume "Inv s" "Q s" then show "marks l s" using rg_Act(3) assms(3) by blast
  next
    fix i s s' p' assume "Inv s" "Q s" "f i s = Some (s', p')"
    then show "guar s s' \<and> (\<exists>P'. P' s' \<and> rg Inv rely guar marks P' p')" using rg_Act(4) assms(3) by blast
  qed
qed (simp add: rg.rg_Ret)

text \<open>
  What one goroutine guarantees keeps the invariant and is what every other goroutine relies on; then
  the labels of all reachable states tell the truth.
\<close>

locale rely_guarantee =
  fixes Inv :: "'s \<Rightarrow> bool" and rely guar :: "nat \<Rightarrow> 's \<Rightarrow> 's \<Rightarrow> bool" and marks :: "nat \<Rightarrow> 'l \<Rightarrow> 's \<Rightarrow> bool"
  assumes guar_inv: "Inv s \<Longrightarrow> guar t s s' \<Longrightarrow> Inv s'"
    and guar_rely: "Inv s \<Longrightarrow> guar t s s' \<Longrightarrow> t \<noteq> u \<Longrightarrow> rely u s s'"
begin

abbreviation ok :: "nat \<Rightarrow> ('s \<Rightarrow> bool) \<Rightarrow> ('s, 'i, 'l, 'r) prog \<Rightarrow> bool" where
  "ok t \<equiv> rg Inv (rely t) (guar t) (marks t)"

definition all_ok :: "'s \<times> (nat \<Rightarrow> ('s, 'i, 'l, 'r) prog) \<Rightarrow> bool" where
  "all_ok c \<longleftrightarrow> Inv (fst c) \<and> (\<forall>t. \<exists>P. P (fst c) \<and> ok t P (snd c t))"

lemma ok_stable: "ok t P p \<Longrightarrow> Inv s \<Longrightarrow> rely t s s' \<Longrightarrow> P s \<Longrightarrow> \<exists>P'. P' s' \<and> ok t P' p"
proof (cases p)
  case (Ret r)
  then show ?thesis by (intro exI [of _ "\<lambda>_. True"]) (simp add: rg_Ret)
next
  case (Act l f)
  assume "ok t P p" and s: "Inv s" "rely t s s'" "P s"
  then have "stable Inv (rely t) P" unfolding Act by (rule_tac rg_ActE)
  with s have "P s'" by (simp add: stable_def)
  with \<open>ok t P p\<close> show ?thesis by blast
qed

lemma ok_step:
  assumes "istep c c'" and "all_ok c"
  shows "all_ok c'"
  using assms(1)
proof cases
  case (istep ps t l f i s s' p')
  from assms(2) have inv: "Inv s" and each: "\<And>u. \<exists>P. P s \<and> ok u P (ps u)" by (auto simp: all_ok_def istep(1))
  from each [of t] istep(3) obtain P where "P s" "ok t P (Act l f)" by auto
  then have g: "guar t s s'" and mine: "\<exists>P'. P' s' \<and> ok t P' p'"
    using inv istep(4) by (auto elim!: rg_ActE)
  have "\<exists>P. P s' \<and> ok u P ((ps(t := p')) u)" for u
  proof (cases "u = t")
    case False
    obtain Q where "Q s" "ok u Q (ps u)" using each by blast
    moreover have "rely u s s'" using guar_rely [OF inv g] False by (metis)
    ultimately show ?thesis using ok_stable [OF _ inv] False by (metis fun_upd_other)
  qed (simp add: mine)
  with guar_inv [OF inv g] show ?thesis by (simp add: all_ok_def istep(2))
qed

lemma ok_run: "istep\<^sup>*\<^sup>* c c' \<Longrightarrow> all_ok c \<Longrightarrow> all_ok c'"
  by (induction rule: rtranclp_induct) (auto intro: ok_step)

lemma ok_marks:
  assumes "all_ok c" and "snd c t = Act l f"
  shows "marks t l (fst c)"
proof -
  from assms(1) have inv: "Inv (fst c)" by (simp add: all_ok_def)
  from assms obtain P where P: "P (fst c)" "ok t P (Act l f)" unfolding all_ok_def by metis
  from P(2) show ?thesis by (rule rg_ActE) (use inv P(1) in blast)
qed

lemma ok_guar:
  assumes "istep c c'" and "all_ok c"
  obtains t where "guar t (fst c) (fst c')" "snd c' = (snd c)(t := snd c' t)"
  using assms(1)
proof cases
  case (istep ps t l f i s s' p')
  from assms(2) obtain P where P: "Inv s" "P s" "ok t P (Act l f)" unfolding all_ok_def istep by (metis fst_conv istep(3) snd_conv)
  from P(3) have "guar t s s'" by (rule rg_ActE) (use P(1,2) istep(4) in blast)
  then show ?thesis using that [of t] istep by simp
qed

lemma ok_start: "Inv s \<Longrightarrow> (\<And>t. P t s \<and> ok t (P t) (ps t)) \<Longrightarrow> all_ok (s, ps)"
  by (auto simp: all_ok_def)

lemma reached_ok:
  assumes "istep\<^sup>*\<^sup>* (s, ps) c" and "Inv s" and "\<And>t. P t s \<and> ok t (P t) (ps t)"
  shows "all_ok c"
  by (rule ok_run [OF assms(1) ok_start [OF assms(2,3)]])

theorem reached_marks:
  assumes "istep\<^sup>*\<^sup>* (s, ps) c" and "Inv s" and "\<And>t. P t s \<and> ok t (P t) (ps t)" and "snd c t = Act l f"
  shows "marks t l (fst c)"
  using ok_marks [OF reached_ok [OF assms(1-3)] assms(4)] .

lemma reached_inv:
  assumes "istep\<^sup>*\<^sup>* (s, ps) c" and "Inv s" and "\<And>t. P t s \<and> ok t (P t) (ps t)"
  shows "Inv (fst c)"
  using reached_ok [OF assms] by (simp add: all_ok_def)

end

end
