(* ===== verification/RuntimeControl.thy ===== *)
theory RuntimeControl
  imports Interleave CueEngine "HOL-Library.AList" "HOL-Library.Multiset"
begin

text \<open>
  The runtime control service of \<open>internal/runtimecontrol/service.go\<close>: sessions are started, stopped and
  forced to stop, cues go and are stopped, outputs are blacked out, and the executor in front of the
  devices is stopped per correlation. Each call is a goroutine whose critical sections (\<open>Service.mu\<close>,
  \<open>stoppableExecutor.mu\<close>), SQL statements, channel receives and calls of hooks are atomic actions. The
  preflight gates and the safety hooks of the stage devices answer through the input; \<open>scMarshal\<close> and
  \<open>scDecode\<close> are \<open>encoding/json\<close>.
\<close>

section \<open>The executor that can be stopped\<close>

text \<open>
  Go contexts that an execution derives are named by the goroutine that runs it: \<open>exActive\<close> lists, for
  each correlation, the executions with their cancel functions.
\<close>

record exec_state =
  exActive :: "string \<Rightarrow> (string \<times> nat) list"
  exStopped :: "string \<Rightarrow> bool"
  exCancelled :: "nat \<Rightarrow> bool"

record activeRun =
  arRequestID :: string
  arCorrelationID :: string
  arDone :: nat

datatype wake = WakeDone | WakeTimer | WakeCancelled string

datatype ctx_err = CtxCanceled | CtxDeadlineExceeded

datatype sentinel = IsNotFound | IsConflict | IsInvalidInput | IsPlain

datatype go_error = GoError (errIs: sentinel) (errText: string)

text \<open>What the environment decides when an action happens.\<close>

record rc_input =
  riSql :: sql
  riSql2 :: sql
  riErr :: string
  riNow :: time
  riID :: string
  riRuns :: "activeRun list"
  riWake :: wake
  riGate :: "go_error + bool \<times> string"
  riSafety :: "string \<times> go_error option"
  riParent :: "ctx_err option"
  riInner :: CapResult
  riTable :: command_table
  riExecutions :: "CueExecutionRow list"
  riEvents :: "EventRow list"
  riCurrent :: "string \<Rightarrow> string option"
  riResult :: CommandResult

text \<open>
  The points of the code the theorems speak about; the other actions are \<open>LStep\<close>. \<open>LInner\<close> is the call
  of the device adapter, with what the registration of the execution found; \<open>LDelay\<close> is the end of
  \<open>stoppableExecutor.stop\<close>; \<open>LFenced\<close> and \<open>LForced\<close> store a result while the fence is held, \<open>LEnd\<close> ends a session.
\<close>

datatype rc_label =
    LStep
  | LInner string bool
  | LDelay "nat list"
  | LEnd string SessionStatus
  | LFenced string CommandResult
  | LForced string bool CommandResult

datatype rc_result = ResCommand CommandResult | ResSession Session CommandResult | ResExecution CapResult

type_synonym 's goroutine = "('s, rc_input, rc_label, rc_result) prog"

definition register_execution :: "nat \<Rightarrow> CapRequest \<Rightarrow> 'a exec_state_scheme \<Rightarrow> 'a exec_state_scheme \<times> bool" where
  "register_execution t req s =
     (let c = crCorrelationID req; st = exStopped s c in
      (s\<lparr>exActive := (exActive s)(c := AList.update (crExecutionID req) t (exActive s c)),
         exCancelled := (if st then (exCancelled s)(t := True) else exCancelled s)\<rparr>, st))"

definition release_execution :: "nat \<Rightarrow> CapRequest \<Rightarrow> 'a exec_state_scheme \<Rightarrow> 'a exec_state_scheme" where
  "release_execution t req s =
     (let c = crCorrelationID req in
      s\<lparr>exActive := (exActive s)(c := AList.delete (crExecutionID req) (exActive s c)),
        exCancelled := (exCancelled s)(t := True)\<rparr>)"

text \<open>The error of a derived context: its own cancellation, unless the parent's came first.\<close>

definition context_err :: "nat \<Rightarrow> rc_input \<Rightarrow> 'a exec_state_scheme \<Rightarrow> ctx_err option" where
  "context_err t i s =
     (case riParent i of Some e \<Rightarrow> Some e | None \<Rightarrow> if exCancelled s t then Some CtxCanceled else None)"

definition stopped_result :: "ctx_err \<Rightarrow> CapResult" where
  "stopped_result e =
     \<lparr>cpResult = (case e of CtxDeadlineExceeded \<Rightarrow> ExecutionTimedOut | CtxCanceled \<Rightarrow> ExecutionCancelled),
      cpAckLevel = AckNone, cpResponseSummary = ''Cue was stopped before capability dispatch'',
      cpErrorCode = (case e of CtxDeadlineExceeded \<Rightarrow> ''TIMED_OUT'' | CtxCanceled \<Rightarrow> ''CANCELLED'')\<rparr>"

definition exec_Execute :: "bool \<Rightarrow> nat \<Rightarrow> CapRequest \<Rightarrow> 'a exec_state_scheme goroutine" where
  "exec_Execute available t req =
     (if \<not> available
      then Ret (ResExecution (failed_result ''CAPABILITY_UNAVAILABLE'' ''runtime executor is unavailable''))
      else
        act LStep (\<lambda>i. register_execution t req) (\<lambda>wasStopped.
        act LStep (\<lambda>i s. (s, context_err t i s)) (\<lambda>err.
        case err of
          Some e \<Rightarrow>
            act LStep (\<lambda>i s. (release_execution t req s, ())) (\<lambda>_. Ret (ResExecution (stopped_result e)))
        | None \<Rightarrow>
            act (LInner (crCorrelationID req) wasStopped) (\<lambda>i s. (s, riInner i)) (\<lambda>res.
            act LStep (\<lambda>i s. (release_execution t req s, ())) (\<lambda>_. Ret (ResExecution res))))))"

primrec cancel_contexts :: "nat list \<Rightarrow> 'a exec_state_scheme goroutine \<Rightarrow> 'a exec_state_scheme goroutine" where
  "cancel_contexts [] k = k"
| "cancel_contexts (x # xs) k =
     act LStep (\<lambda>i s. (s\<lparr>exCancelled := (exCancelled s)(x := True)\<rparr>, ())) (\<lambda>_. cancel_contexts xs k)"

text \<open>\<open>stop\<close> collects the cancel functions under its lock and calls them after it.\<close>

definition exec_stop :: "string \<Rightarrow> (nat list \<Rightarrow> 'a exec_state_scheme goroutine) \<Rightarrow> 'a exec_state_scheme goroutine" where
  "exec_stop c k =
     act LStep (\<lambda>i s. (s\<lparr>exStopped := (exStopped s)(c := True)\<rparr>, map snd (exActive s c))) (\<lambda>cancels.
     cancel_contexts cancels (k cancels))"

definition exec_clear :: "string \<Rightarrow> 'a exec_state_scheme \<Rightarrow> 'a exec_state_scheme" where
  "exec_clear c s = s\<lparr>exStopped := (exStopped s)(c := False), exActive := (exActive s)(c := [])\<rparr>"

section \<open>The service and the database\<close>

record SnapRow =
  snID :: string
  snProjectID :: string
  snVersion :: int
  snPublished :: bool

text \<open>
  \<open>svStopping\<close> also records which goroutine set the flag; the code stores \<open>true\<close>. \<open>svClosed\<close> and \<open>svDelays\<close>
  are the \<open>done\<close> channels that are closed and the cue delays that are cancelled, named by the goroutine of
  the GO. Of \<open>runtime_safety_state\<close> the latch is kept, of a session the lifecycle and the end reason.
\<close>

record rc_state = exec_state +
  svCommands :: command_table
  svDb :: engine_db
  svLifecycle :: "string \<Rightarrow> string \<times> string"
  svLatch :: "string \<Rightarrow> bool option"
  svSnapshots :: "SnapRow list"
  svProjects :: "string list"
  svStopping :: "string \<Rightarrow> nat option"
  svActive :: "string \<Rightarrow> activeRun list"
  svClosed :: "nat \<Rightarrow> bool"
  svDelays :: "nat \<Rightarrow> bool"

datatype jval = JText string | JBool bool | JTexts "string list" | JNumber nat

record rc_service =
  scStartGate :: bool
  scShowGate :: bool
  scStopSafety :: bool
  scEmergencySafety :: bool
  scMarshal :: "(string \<times> jval) list \<Rightarrow> string"
  scMarshalGo :: "CueGoPayload \<Rightarrow> string"
  scDecode :: "string \<Rightarrow> (string \<times> SessionType \<times> string) option"

type_synonym handler = "rc_state goroutine"

text \<open>Reads of one statement.\<close>

definition sql_err :: "string \<Rightarrow> rc_input \<Rightarrow> go_error" where
  "sql_err what i = GoError IsPlain (what @ '': '' @ riErr i)"

definition errNotFound :: go_error where "errNotFound = GoError IsNotFound ''not found''"

definition errConflict :: go_error where "errConflict = GoError IsConflict ''conflict''"

definition get_session :: "string \<Rightarrow> rc_input \<Rightarrow> rc_state \<Rightarrow> rc_state \<times> (go_error + Session)" where
  "get_session sid i s =
     (s, if riSql i \<noteq> SqlOk then Inl (sql_err ''get session'' i)
         else case GetSession SqlOk sid (svDb s) of None \<Rightarrow> Inl errNotFound | Some x \<Rightarrow> Inr x)"

definition get_project :: "string \<Rightarrow> rc_input \<Rightarrow> rc_state \<Rightarrow> rc_state \<times> (go_error + string)" where
  "get_project pid i s =
     (s, if riSql i \<noteq> SqlOk then Inl (sql_err ''get project'' i)
         else if pid \<in> set (svProjects s) then Inr pid else Inl errNotFound)"

text \<open>The rows of \<open>sessions\<close> are in the order they were started.\<close>

definition active_session_for_project :: "string \<Rightarrow> rc_input \<Rightarrow> rc_state \<Rightarrow> rc_state \<times> (go_error + Session option)" where
  "active_session_for_project pid i s =
     (s, if riSql i \<noteq> SqlOk then Inl (sql_err ''read active project session'' i)
         else Inr (find (\<lambda>x. sesProjectID x = pid \<and> sesStatus x = SessionActive) (rev (edSessions (svDb s)))))"

definition latest_snapshot :: "string \<Rightarrow> SnapRow list \<Rightarrow> SnapRow option" where
  "latest_snapshot pid rows =
     foldl (\<lambda>best r. if snProjectID r = pid \<and> snPublished r
                      \<and> (case best of None \<Rightarrow> True | Some b \<Rightarrow> snVersion b < snVersion r) then Some r else best) None rows"

definition latest_published_snapshot :: "string \<Rightarrow> rc_input \<Rightarrow> rc_state \<Rightarrow> rc_state \<times> (go_error + SnapRow option)" where
  "latest_published_snapshot pid i s =
     (s, if riSql i \<noteq> SqlOk then Inl (sql_err ''read latest published snapshot'' i)
         else Inr (latest_snapshot pid (svSnapshots s)))"

definition session_blackout :: "string \<Rightarrow> rc_input \<Rightarrow> rc_state \<Rightarrow> rc_state \<times> (go_error + bool)" where
  "session_blackout sid i s =
     (s, if trim_space sid = [] then Inl (GoError IsInvalidInput ''invalid input: session is required'')
         else if riSql i \<noteq> SqlOk then Inl (sql_err ''read session managed-output blackout'' i)
         else Inr (svLatch s (trim_space sid) = Some True))"

text \<open>Statements that write.\<close>

definition set_latch :: "string \<Rightarrow> bool \<Rightarrow> rc_input \<Rightarrow> rc_state \<Rightarrow> rc_state \<times> go_error option" where
  "set_latch sid enabled i s =
     ((if riSql i = SqlFail then s else s\<lparr>svLatch := (svLatch s)(sid := Some enabled)\<rparr>),
      if riSql i = SqlOk then None else Some (sql_err ''set session managed-output blackout'' i))"

definition SetSessionManagedOutputBlackout :: "string \<Rightarrow> bool \<Rightarrow> string \<Rightarrow> (go_error option \<Rightarrow> handler) \<Rightarrow> handler" where
  "SetSessionManagedOutputBlackout sessionID enabled updatedBy k =
     (let sid = trim_space sessionID in
      if sid = [] \<or> trim_space updatedBy = []
      then k (Some (GoError IsInvalidInput ''invalid input: session and safety-state actor are required''))
      else act LStep (get_session sid) (\<lambda>found. case found of
        Inl e \<Rightarrow> k (Some e)
      | Inr session \<Rightarrow>
        if sesStatus session \<noteq> SessionActive
        then k (Some (GoError IsConflict ''conflict: runtime safety state requires an active session''))
        else act LStep (set_latch (sesID session) enabled) k))"

datatype lifecycle = LifecycleActive | LifecycleCompleted | LifecycleStopped | LifecycleSuspended | LifecycleAborted

definition lifecycle_text :: "lifecycle \<Rightarrow> string" where
  "lifecycle_text l = (case l of LifecycleActive \<Rightarrow> ''ACTIVE'' | LifecycleCompleted \<Rightarrow> ''COMPLETED''
     | LifecycleStopped \<Rightarrow> ''STOPPED'' | LifecycleSuspended \<Rightarrow> ''SUSPENDED'' | LifecycleAborted \<Rightarrow> ''ABORTED'')"

definition end_session_row :: "string \<Rightarrow> SessionStatus \<Rightarrow> lifecycle \<Rightarrow> string \<Rightarrow> rc_input \<Rightarrow> rc_state \<Rightarrow> rc_state \<times> go_error option" where
  "end_session_row sid coarse l reason i s =
     (let hit = (\<lambda>x. sesID x = sid \<and> sesStatus x = SessionActive \<and> fst (svLifecycle s sid) = ''ACTIVE'');
          s' = s\<lparr>svDb := (svDb s)\<lparr>edSessions := map (\<lambda>x. if hit x then x\<lparr>sesStatus := coarse\<rparr> else x) (edSessions (svDb s))\<rparr>,
                 svLifecycle := (if list_ex hit (edSessions (svDb s))
                    then (svLifecycle s)(sid := (lifecycle_text l, trim_space reason)) else svLifecycle s)\<rparr>
      in if riSql i = SqlFail then (s, Some (sql_err ''end session lifecycle'' i))
         else if riSql i = SqlReplyLost then (s', Some (sql_err ''end session lifecycle'' i))
         else (s', if length (filter hit (edSessions (svDb s))) \<noteq> 1 then Some errConflict else None))"

definition EndSessionLifecycle :: "rc_label \<Rightarrow> string \<Rightarrow> lifecycle \<Rightarrow> string \<Rightarrow> (go_error option \<Rightarrow> handler) \<Rightarrow> handler" where
  "EndSessionLifecycle lab sid l reason k =
     (case l of
        LifecycleCompleted \<Rightarrow> act lab (end_session_row sid SessionCompleted l reason) k
      | LifecycleStopped \<Rightarrow> act lab (end_session_row sid SessionCompleted l reason) k
      | LifecycleSuspended \<Rightarrow>
          act LStep (get_session sid) (\<lambda>found. case found of
            Inl e \<Rightarrow> k (Some e)
          | Inr session \<Rightarrow>
            if sesType session \<noteq> SessionRehearsal
            then k (Some (GoError IsConflict ''conflict: only REHEARSAL can be suspended by the foundation lifecycle''))
            else act lab (end_session_row sid SessionAborted l reason) k)
      | LifecycleAborted \<Rightarrow> act lab (end_session_row sid SessionAborted l reason) k
      | LifecycleActive \<Rightarrow> k (Some (GoError IsInvalidInput ''invalid input: terminal session lifecycle required'')))"

definition EndSession :: "rc_label \<Rightarrow> string \<Rightarrow> SessionStatus \<Rightarrow> (go_error option \<Rightarrow> handler) \<Rightarrow> handler" where
  "EndSession lab sid status k =
     (case status of
        SessionCompleted \<Rightarrow> EndSessionLifecycle lab sid LifecycleCompleted [] k
      | SessionAborted \<Rightarrow> EndSessionLifecycle lab sid LifecycleAborted [] k
      | _ \<Rightarrow> k (Some (GoError IsInvalidInput ''invalid input: terminal session status required'')))"

definition insert_session :: "string \<Rightarrow> string \<Rightarrow> SessionType \<Rightarrow> rc_input \<Rightarrow> rc_state \<Rightarrow> rc_state \<times> (go_error + Session)" where
  "insert_session projectID snapshotID ty i s =
     (let row = \<lparr>sesID = riID i, sesProjectID = projectID, sesRuntimeSnapshotID = snapshotID, sesType = ty,
                 sesStatus = SessionActive, sesCurrentCueID = None\<rparr>;
          s' = s\<lparr>svDb := (svDb s)\<lparr>edSessions := edSessions (svDb s) @ [row]\<rparr>,
                 svLifecycle := (svLifecycle s)(riID i := (''ACTIVE'', []))\<rparr>
      in if riSql i = SqlFail \<or> riID i \<in> sesID ` set (edSessions (svDb s)) then (s, Inl (sql_err ''insert session'' i))
         else (s', if riSql i = SqlOk then Inr row else Inl (sql_err ''insert session'' i)))"

definition CreateSession :: "string \<Rightarrow> SessionType \<Rightarrow> (go_error + Session \<Rightarrow> handler) \<Rightarrow> handler" where
  "CreateSession snapshotID ty k =
     (if ty \<noteq> SessionSimulation \<and> ty \<noteq> SessionRehearsal \<and> ty \<noteq> SessionShow
      then k (Inl (GoError IsInvalidInput ''invalid input: unsupported session type''))
      else act LStep (\<lambda>i s. (s, if riSql i \<noteq> SqlOk then Inl (sql_err ''read session snapshot'' i)
             else case find (\<lambda>r. snID r = snapshotID) (svSnapshots s) of None \<Rightarrow> Inl errNotFound | Some r \<Rightarrow> Inr r))
        (\<lambda>found. case found of
          Inl e \<Rightarrow> k (Inl e)
        | Inr snap \<Rightarrow>
          if \<not> snPublished snap then k (Inl (GoError IsConflict ''conflict: session requires PUBLISHED snapshot''))
          else act LStep (insert_session (snProjectID snap) snapshotID ty) k))"

definition append_event :: "string \<Rightarrow> string \<Rightarrow> rc_input \<Rightarrow> rc_state \<Rightarrow> rc_state \<times> bool" where
  "append_event ty causation i s =
     (case AppendEvent (riSql i) (riID i) ty causation (svDb s) of (db, r) \<Rightarrow> (s\<lparr>svDb := db\<rparr>, r \<noteq> None))"

section \<open>Results and commands\<close>

definition rc_rejected :: "string \<Rightarrow> string \<Rightarrow> string \<Rightarrow> string \<Rightarrow> CommandResult" where
  "rc_rejected commandID code message entityID = rejection commandID code ''VALIDATION'' message False entityID"

definition failure :: "string \<Rightarrow> string \<Rightarrow> string \<Rightarrow> string \<Rightarrow> bool \<Rightarrow> string \<Rightarrow> string \<Rightarrow> CommandResult" where
  "failure commandID code category message retryable entityID payload =
     \<lparr>resCommandID = commandID, resStatus = CommandFailed, resPayload = payload,
      resError = Some \<lparr>errCode = code, errCategory = category, errMessage = message, errRetryable = retryable,
        errAffectedEntityID = entityID\<rparr>\<rparr>"

definition rc_failed :: "string \<Rightarrow> string \<Rightarrow> CommandResult" where
  "rc_failed commandID code = failure commandID code ''INTERNAL'' ''internal runtime control failure'' False [] []"

definition sessionStopSafetyFailure :: "string \<Rightarrow> string \<Rightarrow> string \<Rightarrow> string \<Rightarrow> CommandResult" where
  "sessionStopSafetyFailure commandID code message entityID = failure commandID code ''SAFETY'' message True entityID []"

definition resultFromStoreError :: "string \<Rightarrow> string \<Rightarrow> go_error \<Rightarrow> string \<Rightarrow> CommandResult" where
  "resultFromStoreError commandID code err entityID =
     (case errIs err of
        IsNotFound \<Rightarrow> rc_rejected commandID ''NOT_FOUND'' ''requested runtime entity was not found'' entityID
      | IsConflict \<Rightarrow> rc_rejected commandID ''CONFLICT'' ''runtime state conflicts with the requested operation'' entityID
      | _ \<Rightarrow> rc_failed commandID code)"

definition completed :: "string \<Rightarrow> string \<Rightarrow> CommandResult" where
  "completed commandID payload =
     \<lparr>resCommandID = commandID, resStatus = CommandCompleted, resPayload = payload, resError = None\<rparr>"

definition commandEnvelope :: "time \<Rightarrow> string \<Rightarrow> string \<Rightarrow> string \<Rightarrow> string \<Rightarrow> string \<Rightarrow> string \<Rightarrow> CommandEnvelope" where
  "commandEnvelope now requestID commandType projectID snapshotID issuer payload =
     \<lparr>ceCommandID = requestID, ceCommandType = commandType, ceSchemaVersion = SchemaVersion1, ceIssuedAt = now,
      ceDeadlineAt = None, ceProjectID = projectID, ceRuntimeSnapshotID = snapshotID, ceIssuer = issuer,
      ceCorrelationID = requestID, ceCausationID = [], cePriority = ''P1'', ceIdempotencyKey = requestID, cePayload = payload\<rparr>"

definition zero_session :: Session where
  "zero_session = \<lparr>sesID = [], sesProjectID = [], sesRuntimeSnapshotID = [], sesType = SessionTypeOther [],
     sesStatus = SessionStatusOther [], sesCurrentCueID = None\<rparr>"

definition sessionFromStoredResult :: "rc_service \<Rightarrow> CommandResult \<Rightarrow> Session" where
  "sessionFromStoredResult sc result =
     (if resStatus result \<noteq> CommandCompleted \<or> resPayload result = [] then zero_session
      else case scDecode sc (resPayload result) of
        None \<Rightarrow> zero_session
      | Some (sid, ty, snap) \<Rightarrow> zero_session\<lparr>sesID := sid, sesType := ty, sesRuntimeSnapshotID := snap\<rparr>)"

text \<open>\<open>Store.ReserveCommand\<close>: find, insert, and find again when the insert fails.\<close>

definition find_record :: "CommandEnvelope \<Rightarrow> rc_input \<Rightarrow> rc_state \<Rightarrow> rc_state \<times> (store_error + CommandRecord option)" where
  "find_record cmd i s = (s, FindCommandRecord (riSql i) (riSql2 i) cmd (svCommands s))"

definition insert_command :: "CommandEnvelope \<Rightarrow> rc_input \<Rightarrow> rc_state \<Rightarrow> rc_state \<times> (CommandRecord \<times> bool)" where
  "insert_command cmd i s =
     (case insert_record (riSql i) (new_record (riNow i) cmd) (svCommands s) of
        (db, inserted) \<Rightarrow> (s\<lparr>svCommands := db\<rparr>, new_record (riNow i) cmd, inserted))"

definition ReserveCommand :: "CommandEnvelope \<Rightarrow> (store_error + CommandRecord \<times> bool \<Rightarrow> handler) \<Rightarrow> handler" where
  "ReserveCommand cmd k =
     act LStep (find_record cmd) (\<lambda>found. case found of
       Inl e \<Rightarrow> k (Inl e)
     | Inr (Some r) \<Rightarrow> k (Inr (r, False))
     | Inr None \<Rightarrow>
       act LStep (insert_command cmd) (\<lambda>(row, inserted).
       if inserted then k (Inr (row, True))
       else act LStep (find_record cmd) (\<lambda>again. case again of
         Inr (Some r) \<Rightarrow> k (Inr (r, False))
       | _ \<Rightarrow> k (Inl StoreFailure))))"

text \<open>The result to answer with, whether it is terminal, and whether the command is ours to carry out.\<close>

definition reserve :: "CommandEnvelope \<Rightarrow> (CommandResult \<times> bool \<times> bool \<Rightarrow> handler) \<Rightarrow> handler" where
  "reserve cmd k =
     ReserveCommand cmd (\<lambda>x. case x of
       Inl _ \<Rightarrow> k (rc_failed (ceCommandID cmd) ''COMMAND_RESERVE_FAILED'', False, False)
     | Inr (r, True) \<Rightarrow> k (completed [] [], False, True)
     | Inr (r, False) \<Rightarrow>
       (case StoredCommandResult r of
          Some stored \<Rightarrow> k (stored, True, False)
        | None \<Rightarrow> k (rc_rejected (rcCommandID r) ''DUPLICATE_UNRESOLVED''
            ''matching command is already accepted and will not be replayed'' (rcCommandID r), False, False)))"

definition finish_command :: "string \<Rightarrow> CommandResult \<Rightarrow> rc_input \<Rightarrow> rc_state \<Rightarrow> rc_state \<times> CommandResult" where
  "finish_command cid result i s =
     (case FinishCommand (riSql i) (riNow i) cid result (svCommands s) of
        (db, r) \<Rightarrow> (s\<lparr>svCommands := db\<rparr>, case r of Inl _ \<Rightarrow> rc_failed cid ''COMMAND_FINISH_FAILED'' | Inr _ \<Rightarrow> result))"

definition finish :: "rc_label \<Rightarrow> string \<Rightarrow> CommandResult \<Rightarrow> handler" where
  "finish lab cid result = act lab (finish_command cid result) (\<lambda>r. Ret (ResCommand r))"

section \<open>The fence and the runs\<close>

definition begin_stopping :: "nat \<Rightarrow> string \<Rightarrow> rc_input \<Rightarrow> rc_state \<Rightarrow> rc_state \<times> bool" where
  "begin_stopping t sid i s =
     (if svStopping s sid \<noteq> None then (s, False) else (s\<lparr>svStopping := (svStopping s)(sid := Some t)\<rparr>, True))"

definition end_stopping :: "string \<Rightarrow> rc_input \<Rightarrow> rc_state \<Rightarrow> rc_state \<times> unit" where
  "end_stopping sid i s = (s\<lparr>svStopping := (svStopping s)(sid := None)\<rparr>, ())"

text \<open>\<open>return finish(result)\<close> under a deferred \<open>endStoppingCues\<close>.\<close>

definition finish_fenced :: "rc_label \<Rightarrow> string \<Rightarrow> string \<Rightarrow> CommandResult \<Rightarrow> handler" where
  "finish_fenced lab sid cid result =
     act lab (finish_command cid result) (\<lambda>r. act LStep (end_stopping sid) (\<lambda>_. Ret (ResCommand r)))"

text \<open>The snapshot is a list of the runs in the order Go happens to iterate over the map.\<close>

definition active_runs :: "string \<Rightarrow> rc_input \<Rightarrow> rc_state \<Rightarrow> (rc_state \<times> activeRun list) option" where
  "active_runs sid i s = (if mset (riRuns i) = mset (svActive s sid) then Some (s, riRuns i) else None)"

definition cancel_delay :: "nat \<Rightarrow> rc_input \<Rightarrow> rc_state \<Rightarrow> rc_state \<times> unit" where
  "cancel_delay d i s = (s\<lparr>svDelays := (svDelays s)(d := True)\<rparr>, ())"

primrec interruptCueRuns :: "activeRun list \<Rightarrow> handler \<Rightarrow> handler" where
  "interruptCueRuns [] k = k"
| "interruptCueRuns (run # runs) k =
     exec_stop (arCorrelationID run) (\<lambda>cancels.
     act (LDelay cancels) (cancel_delay (arDone run)) (\<lambda>_. interruptCueRuns runs k))"

text \<open>The select: a closed channel, the timer or the end of the caller's context, whichever is taken.\<close>

definition select_run :: "activeRun \<Rightarrow> rc_input \<Rightarrow> rc_state \<Rightarrow> (rc_state \<times> wake) option" where
  "select_run run i s =
     (if riWake i = WakeDone \<and> \<not> svClosed s (arDone run) then None else Some (s, riWake i))"

primrec wait_runs :: "activeRun list \<Rightarrow> (wake \<Rightarrow> handler) \<Rightarrow> handler" where
  "wait_runs [] k = k WakeDone"
| "wait_runs (run # runs) k =
     await LStep (select_run run) (\<lambda>w. case w of WakeDone \<Rightarrow> wait_runs runs k | _ \<Rightarrow> k w)"

definition stop_error :: "wake \<Rightarrow> string option" where
  "stop_error w =
     (case w of
        WakeDone \<Rightarrow> None
      | WakeTimer \<Rightarrow> Some ''not all active Cues terminated within the bounded stop wait''
      | WakeCancelled e \<Rightarrow> Some (''session stop was cancelled while waiting for the active Cues: '' @ e))"

definition stopActiveCueForSession :: "string \<Rightarrow> (string option \<Rightarrow> handler) \<Rightarrow> handler" where
  "stopActiveCueForSession sid k =
     await LStep (active_runs sid) (\<lambda>runs.
     if runs = [] then k None else interruptCueRuns runs (wait_runs runs (\<lambda>w. k (stop_error w))))"

definition blank :: "string \<Rightarrow> bool" where
  "blank s \<longleftrightarrow> trim_space s = []"

definition read_now :: "rc_input \<Rightarrow> 's \<Rightarrow> 's \<times> time" where
  "read_now i s = (s, riNow i)"

section \<open>GO\<close>

record CueRequest =
  cqSessionID :: string
  cqIssuer :: string
  cqRequestID :: string
  cqExpectedCurrentCueID :: "string option"
  cqRequestedCueID :: "string option"
  cqOperatorNote :: "string option"

text \<open>The critical section that admits a run; the result is the rejection, if any.\<close>

definition admit_go :: "string \<Rightarrow> activeRun \<Rightarrow> rc_input \<Rightarrow> rc_state \<Rightarrow> rc_state \<times> CommandResult option" where
  "admit_go sid run i s =
     (let rid = arRequestID run; s' = s\<lparr>svDelays := (svDelays s)(arDone run := True)\<rparr> in
      if svStopping s sid \<noteq> None
      then (s', Some (rc_rejected rid ''CUE_STOP_IN_PROGRESS'' ''a Cue STOP or Session exit is in progress'' sid))
      else if svActive s sid = [] \<and> HasRunningCueExecution (riSql i) sid (svDb s) = None
      then (s', Some (rc_failed rid ''RUNNING_EXECUTION_CHECK_FAILED''))
      else if svActive s sid = [] \<and> HasRunningCueExecution (riSql i) sid (svDb s) = Some True
      then (s', Some (rc_rejected rid ''UNRESOLVED_EXECUTION''
             ''a Cue execution from an earlier runtime is still unresolved'' sid))
      else if rid \<in> arRequestID ` set (svActive s sid)
      then (s', Some (rc_rejected rid ''DUPLICATE_UNRESOLVED'' ''this Cue GO request is already active'' rid))
      else (s\<lparr>svActive := (svActive s)(sid := svActive s sid @ [run])\<rparr>, None))"

text \<open>
  \<open>ExecuteCueGo\<close> as the other goroutines see it: \<open>n\<close> statements, each of which may change the records
  of commands, executions and events and the current cues as it likes. What the engine does with them is
  the subject of \<open>CueEngine\<close>; the executions it runs are goroutines \<open>exec_Execute\<close> of their own.
\<close>

definition engine_statement :: "rc_input \<Rightarrow> rc_state \<Rightarrow> rc_state \<times> unit" where
  "engine_statement i s =
     (s\<lparr>svCommands := riTable i,
        svDb := \<lparr>edSessions = map (\<lambda>x. x\<lparr>sesCurrentCueID := riCurrent i (sesID x)\<rparr>) (edSessions (svDb s)),
                 edSnapshots = edSnapshots (svDb s), edCueExecutions = riExecutions i, edEvents = riEvents i\<rparr>\<rparr>, ())"

primrec engine_run :: "nat \<Rightarrow> (CommandResult \<Rightarrow> handler) \<Rightarrow> handler" where
  "engine_run 0 k = act LStep (\<lambda>i s. (s, riResult i)) k"
| "engine_run (Suc n) k = act LStep engine_statement (\<lambda>_. engine_run n k)"

definition leave_go :: "string \<Rightarrow> activeRun \<Rightarrow> rc_input \<Rightarrow> rc_state \<Rightarrow> rc_state \<times> unit" where
  "leave_go sid run i s =
     (s\<lparr>svActive := (svActive s)(sid := filter (\<lambda>r. arRequestID r \<noteq> arRequestID run) (svActive s sid)),
        svClosed := (svClosed s)(arDone run := True)\<rparr>, ())"

definition Go :: "rc_service \<Rightarrow> nat \<Rightarrow> nat \<Rightarrow> CueRequest \<Rightarrow> handler" where
  "Go sc t n req =
     (let rid = cqRequestID req in
      if blank (cqSessionID req) \<or> blank (cqIssuer req) \<or> blank rid
      then Ret (ResCommand (rc_rejected rid ''RUNTIME_CONTEXT_REQUIRED'' ''session, issuer and request_id are required'' (cqSessionID req)))
      else act LStep (get_session (cqSessionID req)) (\<lambda>found. case found of
        Inl e \<Rightarrow> Ret (ResCommand (resultFromStoreError rid ''SESSION_LOOKUP_FAILED'' e (cqSessionID req)))
      | Inr session \<Rightarrow>
        let sid = sesID session; run = \<lparr>arRequestID = rid, arCorrelationID = rid, arDone = t\<rparr> in
        act LStep (session_blackout sid) (\<lambda>blackout. case blackout of
          Inl _ \<Rightarrow> Ret (ResCommand (rc_failed rid ''EMERGENCY_BLACKOUT_STATE_FAILED''))
        | Inr True \<Rightarrow> Ret (ResCommand (rc_rejected rid ''EMERGENCY_BLACKOUT_ACTIVE''
            ''managed-output Emergency Blackout is active; clear it explicitly before GO'' sid))
        | Inr False \<Rightarrow>
          act LStep (admit_go sid run) (\<lambda>rejection. case rejection of
            Some r \<Rightarrow> Ret (ResCommand r)
          | None \<Rightarrow>
            engine_run n (\<lambda>result.
            act LStep (cancel_delay t) (\<lambda>_.
            act LStep (\<lambda>i s. (exec_clear rid s, ())) (\<lambda>_.
            act LStep (leave_go sid run) (\<lambda>_. Ret (ResCommand result)))))))))"

section \<open>Stopping cues and sessions\<close>

record StopRequest =
  spSessionID :: string
  spIssuer :: string
  spRequestID :: string

definition stop_outcome :: "rc_service \<Rightarrow> string \<Rightarrow> string \<Rightarrow> activeRun list \<Rightarrow> wake \<Rightarrow> CommandResult" where
  "stop_outcome sc cid sid runs w =
     (case w of
        WakeDone \<Rightarrow> completed cid (scMarshal sc [(''session_id'', JText sid), (''stop_confirmed'', JBool True),
          (''stopped_cue_count'', JNumber (length runs))])
      | WakeTimer \<Rightarrow> (failure cid ''STOP_UNCONFIRMED'' ''TIMEOUT''
          ''STOP requested but not all active Cue executions terminated within the bounded wait'' False sid [])\<lparr>resStatus := CommandTimedOut\<rparr>
      | WakeCancelled _ \<Rightarrow> (failure cid ''STOP_REQUEST_CANCELLED'' ''CANCELLED'' ''stop request context was cancelled'' False sid [])
          \<lparr>resStatus := CommandCancelled\<rparr>)"

definition StopCue :: "rc_service \<Rightarrow> nat \<Rightarrow> StopRequest \<Rightarrow> handler" where
  "StopCue sc t req =
     (let cid = spRequestID req in
      if blank (spSessionID req) \<or> blank (spIssuer req) \<or> blank cid
      then Ret (ResCommand (rc_rejected cid ''RUNTIME_CONTEXT_REQUIRED'' ''session, issuer and request_id are required'' (spSessionID req)))
      else act LStep (get_session (spSessionID req)) (\<lambda>found. case found of
        Inl e \<Rightarrow> Ret (ResCommand (resultFromStoreError cid ''SESSION_LOOKUP_FAILED'' e (spSessionID req)))
      | Inr session \<Rightarrow>
        act LStep read_now (\<lambda>now.
        let sid = sesID session;
            command = commandEnvelope now cid ''cue.stop'' (sesProjectID session) (sesRuntimeSnapshotID session) (spIssuer req) ''{}'' in
        reserve command (\<lambda>(existing, terminal, mine).
        if \<not> mine then Ret (ResCommand existing)
        else if terminal then Ret (ResCommand existing)
        else if sesStatus session \<noteq> SessionActive
        then finish LStep cid (rc_rejected cid ''SESSION_NOT_ACTIVE'' ''runtime Session is not active'' sid)
        else act LStep (begin_stopping t sid) (\<lambda>fenced.
        if \<not> fenced
        then finish LStep cid (rc_rejected cid ''CUE_STOP_IN_PROGRESS'' ''another Cue STOP or Session exit is in progress'' sid)
        else await LStep (active_runs sid) (\<lambda>runs.
        if runs = []
        then finish_fenced LStep sid cid (rc_rejected cid ''NO_RUNNING_CUE'' ''there is no running Cue to stop'' sid)
        else interruptCueRuns runs (wait_runs runs (\<lambda>w.
          let result = stop_outcome sc cid sid runs w in finish_fenced (LFenced sid result) sid cid result))))))))"

definition session_text :: "SessionType \<Rightarrow> string" where
  "session_text ty = (case ty of SessionRehearsal \<Rightarrow> ''REHEARSAL'' | SessionShow \<Rightarrow> ''SHOW''
     | SessionSimulation \<Rightarrow> ''SIMULATION'' | SessionTypeOther x \<Rightarrow> x)"

definition StopSession :: "rc_service \<Rightarrow> nat \<Rightarrow> StopRequest \<Rightarrow> handler" where
  "StopSession sc t req =
     (let cid = spRequestID req in
      act LStep (get_session (spSessionID req)) (\<lambda>found. case found of
        Inl e \<Rightarrow> Ret (ResCommand (resultFromStoreError cid ''SESSION_LOOKUP_FAILED'' e (spSessionID req)))
      | Inr session \<Rightarrow>
        act LStep read_now (\<lambda>now.
        let sid = sesID session;
            command = commandEnvelope now cid (if sesType session = SessionShow then ''show.exit'' else ''rehearsal.stop'')
              (sesProjectID session) (sesRuntimeSnapshotID session) (spIssuer req) ''{}'';
            payload = scMarshal sc [(''session_id'', JText sid), (''status'', JText ''COMPLETED'')] in
        reserve command (\<lambda>(existing, terminal, mine).
        if \<not> mine then Ret (ResCommand existing)
        else if terminal then Ret (ResCommand existing)
        else if sesStatus session \<noteq> SessionActive
        then finish LStep cid (rc_rejected cid ''SESSION_NOT_ACTIVE'' ''runtime Session is not active'' sid)
        else act LStep (begin_stopping t sid) (\<lambda>fenced.
        if \<not> fenced
        then finish LStep cid (rc_rejected cid ''CUE_STOP_IN_PROGRESS'' ''another Cue STOP or Session exit is in progress'' sid)
        else stopActiveCueForSession sid (\<lambda>err. case err of
          Some e \<Rightarrow> finish_fenced LStep sid cid (sessionStopSafetyFailure cid ''SESSION_STOP_CUE_UNCONFIRMED'' e sid)
        | None \<Rightarrow>
          act LStep (\<lambda>i s. (s, if scStopSafety sc then snd (riSafety i) else None)) (\<lambda>unsafe. case unsafe of
            Some e \<Rightarrow> finish_fenced LStep sid cid (sessionStopSafetyFailure cid ''SESSION_STOP_SAFETY_FAILED'' (errText e) sid)
          | None \<Rightarrow>
            EndSession (LEnd sid SessionCompleted) sid SessionCompleted (\<lambda>ended. case ended of
              Some e \<Rightarrow> finish_fenced LStep sid cid (resultFromStoreError cid ''SESSION_STOP_FAILED'' e sid)
            | None \<Rightarrow>
              act LStep (append_event (if sesType session = SessionShow then ''show.exited'' else ''rehearsal.stopped'') cid) (\<lambda>logged.
              if \<not> logged then finish_fenced LStep sid cid (rc_failed cid ''SESSION_EVENT_FAILED'')
              else finish_fenced (LFenced sid (completed cid payload)) sid cid (completed cid payload))))))))))"

definition ForceStopSession :: "rc_service \<Rightarrow> nat \<Rightarrow> StopRequest \<Rightarrow> handler" where
  "ForceStopSession sc t req =
     (let cid = spRequestID req in
      if blank (spSessionID req) \<or> blank (spIssuer req) \<or> blank cid
      then Ret (ResCommand (rc_rejected cid ''RUNTIME_CONTEXT_REQUIRED'' ''session, issuer and request_id are required'' (spSessionID req)))
      else act LStep (get_session (spSessionID req)) (\<lambda>found. case found of
        Inl e \<Rightarrow> Ret (ResCommand (resultFromStoreError cid ''SESSION_LOOKUP_FAILED'' e (spSessionID req)))
      | Inr session \<Rightarrow>
        act LStep read_now (\<lambda>now.
        let sid = sesID session;
            command = (commandEnvelope now cid (if sesType session = SessionShow then ''show.force_exit'' else ''rehearsal.force_stop'')
              (sesProjectID session) (sesRuntimeSnapshotID session) (spIssuer req)
              (scMarshal sc [(''forced'', JBool True), (''safety_bypassed'', JBool True)]))\<lparr>cePriority := ''P0''\<rparr> in
        reserve command (\<lambda>(existing, terminal, mine).
        if \<not> mine then Ret (ResCommand existing)
        else if terminal then Ret (ResCommand existing)
        else if sesStatus session \<noteq> SessionActive
        then finish LStep cid (rc_rejected cid ''SESSION_NOT_ACTIVE'' ''runtime Session is not active'' sid)
        else act LStep (begin_stopping t sid) (\<lambda>fenced.
        if \<not> fenced
        then finish LStep cid (rc_rejected cid ''CUE_STOP_IN_PROGRESS'' ''another Cue STOP or Session exit is in progress'' sid)
        else stopActiveCueForSession sid (\<lambda>err.
          EndSessionLifecycle LStep sid LifecycleAborted ''FORCED_OPERATOR_EXIT_WITHOUT_CONFIRMED_SAFE_STATE'' (\<lambda>ended. case ended of
            Some e \<Rightarrow> finish_fenced LStep sid cid (resultFromStoreError cid ''SESSION_FORCE_STOP_FAILED'' e sid)
          | None \<Rightarrow>
            let payload = scMarshal sc ([(''session_id'', JText sid), (''status'', JText ''ABORTED''), (''forced'', JBool True),
                  (''safety_bypassed'', JBool True), (''cue_stop_confirmed'', JBool (err = None))]
                @ (case err of None \<Rightarrow> [] | Some e \<Rightarrow> [(''cue_stop_error'', JText e)])) in
            act LStep (append_event (if sesType session = SessionShow then ''show.force_exited'' else ''rehearsal.force_stopped'') cid) (\<lambda>_.
            finish_fenced (LForced sid (err = None) (completed cid payload)) sid cid (completed cid payload)))))))))"

section \<open>Blackouts\<close>

record EmergencyRequest =
  erSessionID :: string
  erIssuer :: string
  erRequestID :: string
  erEnabled :: bool

definition or_empty :: "string \<Rightarrow> string" where
  "or_empty report = (if report = [] then ''{}'' else report)"

fun join_texts :: "string \<Rightarrow> string list \<Rightarrow> string" where
  "join_texts sep [] = []"
| "join_texts sep [x] = x"
| "join_texts sep (x # y # xs) = x @ sep @ join_texts sep (y # xs)"

definition emergency_failure :: "string \<Rightarrow> string \<Rightarrow> bool \<Rightarrow> string \<Rightarrow> string option \<Rightarrow> go_error option \<Rightarrow> CommandResult" where
  "emergency_failure cid sid enabled payload cueStopErr safetyErr =
     (let message = (if enabled then ''managed-output Emergency Blackout completed with a partial failure''
            else ''managed-output Emergency Blackout clear failed; safety latch remains active'');
          details = (case cueStopErr of None \<Rightarrow> [] | Some e \<Rightarrow> [''Cue stop unconfirmed: '' @ e])
            @ (case safetyErr of None \<Rightarrow> [] | Some e \<Rightarrow> [errText e])
      in failure cid ''EMERGENCY_BLACKOUT_PARTIAL_FAILURE'' ''SAFETY''
           (message @ '': '' @ join_texts ''; '' details) True sid payload)"

text \<open>From the hook of the stage devices on; \<open>answer\<close> is \<open>finish\<close> with what was deferred.\<close>

definition blackout_outputs :: "rc_service \<Rightarrow> EmergencyRequest \<Rightarrow> string \<Rightarrow> string option \<Rightarrow> (CommandResult \<Rightarrow> handler) \<Rightarrow> handler" where
  "blackout_outputs sc req sid cueStopErr answer =
     (let cid = erRequestID req; enabled = erEnabled req in
      act LStep (\<lambda>i s. (s, riSafety i)) (\<lambda>(report, safetyErr).
      let log = (\<lambda>safetyErr.
            act LStep (append_event (if enabled then ''runtime.emergency_blackout.applied'' else ''runtime.emergency_blackout.cleared'') cid) (\<lambda>_.
            answer (if cueStopErr \<noteq> None \<or> safetyErr \<noteq> None
                    then emergency_failure cid sid enabled (or_empty report) cueStopErr safetyErr
                    else completed cid (or_empty report))))
      in if \<not> enabled \<and> safetyErr = None
         then SetSessionManagedOutputBlackout sid False (erIssuer req) (\<lambda>err.
           log (case err of None \<Rightarrow> None | Some e \<Rightarrow> Some (GoError (errIs e) (''clear emergency blackout latch: '' @ errText e))))
         else log safetyErr))"

definition EmergencyBlackout :: "rc_service \<Rightarrow> nat \<Rightarrow> EmergencyRequest \<Rightarrow> handler" where
  "EmergencyBlackout sc t req =
     (let cid = erRequestID req in
      if blank (erSessionID req) \<or> blank (erIssuer req) \<or> blank cid
      then Ret (ResCommand (rc_rejected cid ''RUNTIME_CONTEXT_REQUIRED'' ''session, issuer and request_id are required'' (erSessionID req)))
      else act LStep (get_session (erSessionID req)) (\<lambda>found. case found of
        Inl e \<Rightarrow> Ret (ResCommand (resultFromStoreError cid ''SESSION_LOOKUP_FAILED'' e (erSessionID req)))
      | Inr session \<Rightarrow>
        act LStep read_now (\<lambda>now.
        let sid = sesID session;
            command = (commandEnvelope now cid ''runtime.emergency_blackout.set'' (sesProjectID session)
              (sesRuntimeSnapshotID session) (erIssuer req) (scMarshal sc [(''enabled'', JBool (erEnabled req))]))\<lparr>cePriority := ''P0''\<rparr> in
        reserve command (\<lambda>(existing, terminal, mine).
        if \<not> mine then Ret (ResCommand existing)
        else if terminal then Ret (ResCommand existing)
        else if sesStatus session \<noteq> SessionActive
        then finish LStep cid (rc_rejected cid ''SESSION_NOT_ACTIVE'' ''runtime Session is not active'' sid)
        else if \<not> scEmergencySafety sc
        then finish LStep cid (failure cid ''EMERGENCY_BLACKOUT_UNAVAILABLE'' ''SAFETY''
               ''managed-output Emergency Blackout safety is not configured'' False sid [])
        else act LStep (session_blackout sid) (\<lambda>current. case current of
          Inl _ \<Rightarrow> finish LStep cid (rc_failed cid ''EMERGENCY_BLACKOUT_STATE_FAILED'')
        | Inr latched \<Rightarrow>
          if \<not> erEnabled req
          then if \<not> latched
               then finish LStep cid (rc_rejected cid ''EMERGENCY_BLACKOUT_NOT_ACTIVE'' ''managed-output Emergency Blackout is not active'' sid)
               else blackout_outputs sc req sid None (finish LStep cid)
          else act LStep (begin_stopping t sid) (\<lambda>fenced.
            if \<not> fenced
            then finish LStep cid (rc_rejected cid ''CUE_STOP_IN_PROGRESS'' ''another Cue STOP or Session exit is in progress'' sid)
            else SetSessionManagedOutputBlackout sid True (erIssuer req) (\<lambda>err. case err of
              Some e \<Rightarrow> finish_fenced LStep sid cid (resultFromStoreError cid ''EMERGENCY_BLACKOUT_LATCH_FAILED'' e sid)
            | None \<Rightarrow>
              stopActiveCueForSession sid (\<lambda>cueStopErr.
              blackout_outputs sc req sid cueStopErr (\<lambda>result. finish_fenced (LFenced sid result) sid cid result)))))))))"

record ProjectEmergencyRequest =
  peProjectID :: string
  peIssuer :: string
  peRequestID :: string
  peEnabled :: bool

definition ProjectBlackout :: "rc_service \<Rightarrow> ProjectEmergencyRequest \<Rightarrow> handler" where
  "ProjectBlackout sc req =
     (let cid = peRequestID req in
      if blank (peProjectID req) \<or> blank (peIssuer req) \<or> blank cid
      then Ret (ResCommand (rc_rejected cid ''RUNTIME_CONTEXT_REQUIRED'' ''project, issuer and request_id are required'' (peProjectID req)))
      else act LStep (get_project (peProjectID req)) (\<lambda>found. case found of
        Inl e \<Rightarrow> Ret (ResCommand (resultFromStoreError cid ''PROJECT_LOOKUP_FAILED'' e (peProjectID req)))
      | Inr project \<Rightarrow>
        act LStep (active_session_for_project project) (\<lambda>active. case active of
          Inl _ \<Rightarrow> Ret (ResCommand (rc_failed cid ''SESSION_LOOKUP_FAILED''))
        | Inr (Some a) \<Rightarrow> Ret (ResCommand (rc_rejected cid ''SESSION_ALREADY_ACTIVE''
            ''use the Session Emergency Blackout while REHEARSAL or SHOW is active'' (sesID a)))
        | Inr None \<Rightarrow>
          act LStep (latest_published_snapshot project) (\<lambda>snapshot. case snapshot of
            Inl _ \<Rightarrow> Ret (ResCommand (rc_failed cid ''SNAPSHOT_LOOKUP_FAILED''))
          | Inr None \<Rightarrow> Ret (ResCommand (rc_rejected cid ''SNAPSHOT_REQUIRED'' ''a published Runtime Snapshot is required'' project))
          | Inr (Some snap) \<Rightarrow>
            act LStep read_now (\<lambda>now.
            reserve ((commandEnvelope now cid ''runtime.project_blackout.set'' project (snID snap) (peIssuer req)
              (scMarshal sc [(''enabled'', JBool (peEnabled req)), (''sessionless'', JBool True)]))\<lparr>cePriority := ''P0''\<rparr>)
              (\<lambda>(existing, terminal, mine).
            if \<not> mine then Ret (ResCommand existing)
            else if terminal then Ret (ResCommand existing)
            else if \<not> scEmergencySafety sc
            then finish LStep cid (failure cid ''PROJECT_BLACKOUT_UNAVAILABLE'' ''SAFETY''
                   ''managed-output project blackout safety is not configured'' False project [])
            else act LStep (\<lambda>i s. (s, riSafety i)) (\<lambda>(report, safetyErr).
              act LStep (append_event (if peEnabled req then ''runtime.edit_blackout.applied'' else ''runtime.edit_blackout.cleared'') cid) (\<lambda>_.
              finish LStep cid (case safetyErr of
                Some e \<Rightarrow> failure cid ''PROJECT_BLACKOUT_PARTIAL_FAILURE'' ''SAFETY''
                  (''sessionless managed-output blackout completed with a partial failure: '' @ errText e) True project (or_empty report)
              | None \<Rightarrow> completed cid (or_empty report))))))))))"

section \<open>Starting a session\<close>

record StartRequest =
  stProjectID :: string
  stMode :: SessionType
  stIssuer :: string
  stRequestID :: string

definition finish_start :: "rc_service \<Rightarrow> string \<Rightarrow> CommandResult \<Rightarrow> handler" where
  "finish_start sc cid result =
     act LStep (finish_command cid result) (\<lambda>r.
       Ret (if r = result then ResSession (sessionFromStoredResult sc result) result else ResSession zero_session r))"

text \<open>A gate that is not configured is skipped; \<open>k\<close> gets the trimmed warning.\<close>

definition start_gate :: "rc_service \<Rightarrow> string \<Rightarrow> string \<Rightarrow> (string \<Rightarrow> handler) \<Rightarrow> handler" where
  "start_gate sc cid snapshotID k =
     (if \<not> scStartGate sc then k []
      else act LStep (\<lambda>i s. (s, riGate i)) (\<lambda>gate. case gate of
        Inl _ \<Rightarrow> finish_start sc cid (rc_failed cid ''SESSION_DEVICE_SCOPE_GATE_FAILED'')
      | Inr (allowed, reason) \<Rightarrow>
        if \<not> allowed
        then finish_start sc cid (rc_rejected cid ''SESSION_DEVICE_SCOPE_BLOCKED''
               (if blank reason then ''managed Stage Device Session-start invariant failed'' else reason) snapshotID)
        else k (trim_space reason)))"

definition show_gate :: "rc_service \<Rightarrow> string \<Rightarrow> string \<Rightarrow> SessionType \<Rightarrow> (string \<Rightarrow> handler) \<Rightarrow> handler" where
  "show_gate sc cid snapshotID mode k =
     (if mode \<noteq> SessionShow then k []
      else if \<not> scShowGate sc
      then finish_start sc cid (rc_rejected cid ''SHOW_PREFLIGHT_REQUIRED''
             ''SHOW entry requires the Preflight evaluator to be configured'' snapshotID)
      else act LStep (\<lambda>i s. (s, riGate i)) (\<lambda>gate. case gate of
        Inl _ \<Rightarrow> finish_start sc cid (rc_failed cid ''SHOW_PREFLIGHT_FAILED'')
      | Inr (allowed, reason) \<Rightarrow>
        if \<not> allowed
        then finish_start sc cid (rc_rejected cid ''SHOW_PREFLIGHT_BLOCKED''
               (if blank reason then ''SHOW Preflight contains a structural blocking condition'' else trim_space reason) snapshotID)
        else k (trim_space reason)))"

definition start_payload :: "rc_service \<Rightarrow> Session \<Rightarrow> string \<Rightarrow> string \<Rightarrow> string" where
  "start_payload sc session deviceScopeWarning preflightWarning =
     (let warnings = filter (\<lambda>w. w \<noteq> []) [deviceScopeWarning, preflightWarning] in
      scMarshal sc ([(''session_id'', JText (sesID session)), (''session_type'', JText (session_text (sesType session))),
          (''runtime_snapshot_id'', JText (sesRuntimeSnapshotID session))]
        @ (if warnings \<noteq> [] then [(''degraded_start'', JBool True), (''degraded_reasons'', JTexts warnings)] else [])
        @ (if deviceScopeWarning \<noteq> [] then [(''device_scope_warning'', JText deviceScopeWarning)] else [])
        @ (if preflightWarning \<noteq> [] then [(''preflight_warning'', JText preflightWarning)] else [])))"

definition StartSession :: "rc_service \<Rightarrow> StartRequest \<Rightarrow> handler" where
  "StartSession sc req =
     (let cid = stRequestID req; none = (\<lambda>r. Ret (ResSession zero_session r)) in
      if blank (stProjectID req) \<or> blank (stIssuer req) \<or> blank cid
      then none (rc_rejected cid ''RUNTIME_CONTEXT_REQUIRED'' ''project, issuer and request_id are required'' [])
      else if stMode req \<noteq> SessionShow \<and> stMode req \<noteq> SessionRehearsal
      then none (rc_rejected cid ''MODE_UNSUPPORTED'' ''only REHEARSAL and SHOW can be started'' (session_text (stMode req)))
      else act LStep (get_project (stProjectID req)) (\<lambda>found. case found of
        Inl e \<Rightarrow> none (resultFromStoreError cid ''PROJECT_LOOKUP_FAILED'' e (stProjectID req))
      | Inr project \<Rightarrow>
        act LStep (latest_published_snapshot project) (\<lambda>latest. case latest of
          Inl _ \<Rightarrow> none (rc_failed cid ''SNAPSHOT_LOOKUP_FAILED'')
        | Inr snapshot \<Rightarrow>
          act LStep read_now (\<lambda>now.
          reserve (commandEnvelope now cid (if stMode req = SessionShow then ''show.enter'' else ''rehearsal.start'') project
              (case snapshot of None \<Rightarrow> [] | Some r \<Rightarrow> snID r) (stIssuer req) ''{}'') (\<lambda>(existing, terminal, mine).
          if \<not> mine then none existing
          else if terminal then Ret (ResSession (sessionFromStoredResult sc existing) existing)
          else case snapshot of
            None \<Rightarrow> finish_start sc cid (rc_rejected cid ''SNAPSHOT_REQUIRED'' ''a published Runtime Snapshot is required'' project)
          | Some snap \<Rightarrow>
            act LStep (active_session_for_project project) (\<lambda>active. case active of
              Inl _ \<Rightarrow> finish_start sc cid (rc_failed cid ''SESSION_LOOKUP_FAILED'')
            | Inr (Some a) \<Rightarrow> finish_start sc cid (rc_rejected cid ''SESSION_ALREADY_ACTIVE''
                ''the Project already has an active runtime Session'' (sesID a))
            | Inr None \<Rightarrow>
              start_gate sc cid (snID snap) (\<lambda>deviceScopeWarning.
              show_gate sc cid (snID snap) (stMode req) (\<lambda>preflightWarning.
              CreateSession (snID snap) (stMode req) (\<lambda>created. case created of
                Inl e \<Rightarrow> finish_start sc cid (resultFromStoreError cid ''SESSION_START_FAILED'' e (snID snap))
              | Inr session \<Rightarrow>
                act LStep (append_event (if stMode req = SessionShow then ''show.entered'' else ''rehearsal.started'') cid) (\<lambda>logged.
                if \<not> logged
                then EndSession LStep (sesID session) SessionAborted (\<lambda>_. finish_start sc cid (rc_failed cid ''SESSION_EVENT_FAILED''))
                else
                  let result = completed cid (start_payload sc session deviceScopeWarning preflightWarning) in
                  act LStep (finish_command cid result) (\<lambda>r.
                  Ret (if r = result then ResSession session result else ResSession zero_session r))))))))))))"

section \<open>The service\<close>

text \<open>What a goroutine of the hub may run.\<close>

datatype rc_call =
    CallGo nat CueRequest
  | CallStopCue StopRequest
  | CallStopSession StopRequest
  | CallForceStop StopRequest
  | CallEmergency EmergencyRequest
  | CallProject ProjectEmergencyRequest
  | CallStart StartRequest
  | CallExecute bool CapRequest

primrec serve :: "rc_service \<Rightarrow> nat \<Rightarrow> rc_call \<Rightarrow> handler" where
  "serve sc t (CallGo n req) = Go sc t n req"
| "serve sc t (CallStopCue req) = StopCue sc t req"
| "serve sc t (CallStopSession req) = StopSession sc t req"
| "serve sc t (CallForceStop req) = ForceStopSession sc t req"
| "serve sc t (CallEmergency req) = EmergencyBlackout sc t req"
| "serve sc t (CallProject req) = ProjectBlackout sc req"
| "serve sc t (CallStart req) = StartSession sc req"
| "serve sc t (CallExecute available req) = exec_Execute available t req"

definition rc_initial :: "command_table \<Rightarrow> engine_db \<Rightarrow> (string \<Rightarrow> string \<times> string) \<Rightarrow> (string \<Rightarrow> bool option) \<Rightarrow> SnapRow list
    \<Rightarrow> string list \<Rightarrow> rc_state" where
  "rc_initial commands db lifecycles latch snapshots projects =
     \<lparr>exActive = (\<lambda>_. []), exStopped = (\<lambda>_. False), exCancelled = (\<lambda>_. False), svCommands = commands, svDb = db,
      svLifecycle = lifecycles, svLatch = latch, svSnapshots = snapshots, svProjects = projects,
      svStopping = (\<lambda>_. None), svActive = (\<lambda>_. []), svClosed = (\<lambda>_. False), svDelays = (\<lambda>_. False)\<rparr>"

definition rc_reachable :: "rc_service \<Rightarrow> (nat \<Rightarrow> rc_call) \<Rightarrow> rc_state \<times> (nat \<Rightarrow> handler) \<Rightarrow> bool" where
  "rc_reachable sc calls c \<longleftrightarrow>
     (\<exists>commands db lifecycles latch snapshots projects.
        istep\<^sup>*\<^sup>* (rc_initial commands db lifecycles latch snapshots projects, \<lambda>t. serve sc t (calls t)) c)"

end
