(* ===== verification/RuntimeSafety.thy ===== *)
theory RuntimeSafety
  imports RuntimeControl
begin

text \<open>
  What holds in every interleaving of the calls of the runtime control service: while a stop holds the
  fence no run is admitted, a confirmed stop leaves no run, and a stopped correlation reaches no device.
\<close>

section \<open>What a goroutine guarantees\<close>

text \<open>The \<open>done\<close> channel of a run in the table is open.\<close>

definition rc_inv :: "rc_state \<Rightarrow> bool" where
  "rc_inv s \<longleftrightarrow> (\<forall>sid. \<forall>r \<in> set (svActive s sid). \<not> svClosed s (arDone r))"

definition rc_guar :: "nat \<Rightarrow> rc_state \<Rightarrow> rc_state \<Rightarrow> bool" where
  "rc_guar t s s' \<longleftrightarrow>
     rc_inv s'
   \<and> (\<forall>sid u. svStopping s sid = Some u \<longrightarrow> u \<noteq> t \<longrightarrow> svStopping s' sid = Some u)
   \<and> (\<forall>sid. \<forall>r \<in> set (svActive s' sid). r \<in> set (svActive s sid) \<or> arDone r = t \<and> svStopping s sid = None)
   \<and> (\<forall>d. svClosed s' d \<longrightarrow> svClosed s d \<or> d = t)
   \<and> (\<forall>x. exCancelled s x \<longrightarrow> exCancelled s' x)"

definition rc_rely :: "nat \<Rightarrow> rc_state \<Rightarrow> rc_state \<Rightarrow> bool" where
  "rc_rely u s s' \<longleftrightarrow> (\<exists>t. t \<noteq> u \<and> rc_guar t s s')"

definition rc_marks :: "nat \<Rightarrow> rc_label \<Rightarrow> rc_state \<Rightarrow> bool" where
  "rc_marks t l s \<longleftrightarrow>
     (case l of
        LStep \<Rightarrow> True
      | LInner c wasStopped \<Rightarrow> \<not> wasStopped
      | LDelay xs \<Rightarrow> (\<forall>x \<in> set xs. exCancelled s x)
      | LEnd sid st \<Rightarrow> svStopping s sid = Some t \<and> svActive s sid = []
      | LFenced sid r \<Rightarrow> resStatus r = CommandCompleted \<longrightarrow> svStopping s sid = Some t \<and> svActive s sid = []
      | LForced sid confirmed r \<Rightarrow> svStopping s sid = Some t \<and> (confirmed \<longrightarrow> svActive s sid = []))"

interpretation rc: rely_guarantee rc_inv rc_rely rc_guar rc_marks
  by unfold_locales (auto simp: rc_guar_def rc_rely_def)

text \<open>The parts of the state the guarantee speaks of.\<close>

definition same_runs :: "rc_state \<Rightarrow> rc_state \<Rightarrow> bool" where
  "same_runs s s' \<longleftrightarrow>
     svStopping s' = svStopping s \<and> svActive s' = svActive s \<and> svClosed s' = svClosed s
   \<and> (\<forall>x. exCancelled s x \<longrightarrow> exCancelled s' x)"

lemma same_runs_refl [simp]: "same_runs s s"
  by (simp add: same_runs_def)

lemma same_runs_guar: "rc_inv s \<Longrightarrow> same_runs s s' \<Longrightarrow> rc_guar t s s'"
  by (simp add: same_runs_def rc_guar_def rc_inv_def)

lemma same_runs_rely: "rc_inv s \<Longrightarrow> same_runs s s' \<Longrightarrow> rc_rely t s s'"
  using same_runs_guar [of s s' "Suc t"] by (auto simp: rc_rely_def intro: exI [of _ "Suc t"])

abbreviation rc_stable :: "nat \<Rightarrow> (rc_state \<Rightarrow> bool) \<Rightarrow> bool" where
  "rc_stable t \<equiv> stable rc_inv (rc_rely t)"

lemma ok_frame:
  assumes "rc_stable t P" and "\<And>i s. same_runs s (fst (f i s))" and "\<And>s. rc_inv s \<Longrightarrow> P s \<Longrightarrow> rc_marks t l s"
    and "\<And>a. rc.ok t P (k a)"
  shows "rc.ok t P (act l f k)"
proof (rule rg_keep)
  fix i s assume s: "rc_inv s" "P s"
  then have "P (fst (f i s))"
    using assms(1) same_runs_rely [OF s(1) assms(2)] unfolding stable_def by blast
  then show "rc_guar t s (fst (f i s)) \<and> P (fst (f i s))"
    using same_runs_guar [OF s(1) assms(2)] by simp
qed (use assms in auto)

lemma marks_LStep [simp]: "rc_marks t LStep s"
  by (simp add: rc_marks_def)

lemma frame_actions [simp]:
  "same_runs s (fst (get_session sid i s))" "same_runs s (fst (get_project pid i s))"
  "same_runs s (fst (active_session_for_project pid i s))" "same_runs s (fst (latest_published_snapshot pid i s))"
  "same_runs s (fst (session_blackout sid i s))" "same_runs s (fst (set_latch sid b i s))"
  "same_runs s (fst (end_session_row sid st lc reason i s))" "same_runs s (fst (insert_session pid snap ty i s))"
  "same_runs s (fst (append_event ev cause i s))" "same_runs s (fst (find_record cmd i s))"
  "same_runs s (fst (insert_command cmd i s))" "same_runs s (fst (finish_command cid res i s))"
  "same_runs s (fst (cancel_delay d i s))" "same_runs s (fst (read_now i s))" "same_runs s (fst (engine_statement i s))"
  "same_runs s (exec_clear c s)" 
  by (simp_all add: get_session_def get_project_def active_session_for_project_def latest_published_snapshot_def
      session_blackout_def set_latch_def end_session_row_def insert_session_def append_event_def find_record_def
      insert_command_def finish_command_def cancel_delay_def read_now_def engine_statement_def exec_clear_def
      same_runs_def Let_def split: prod.splits)


section \<open>Assertions\<close>

text \<open>\<open>left_in t sid runs\<close>: goroutine \<open>t\<close> holds the fence, and the runs that are left are among \<open>runs\<close>.\<close>

definition left_in :: "nat \<Rightarrow> string \<Rightarrow> activeRun list \<Rightarrow> rc_state \<Rightarrow> bool" where
  "left_in t sid runs s \<longleftrightarrow> svStopping s sid = Some t \<and> set (svActive s sid) \<subseteq> set runs"

definition fenced :: "nat \<Rightarrow> string \<Rightarrow> rc_state \<Rightarrow> bool" where
  "fenced t sid s \<longleftrightarrow> svStopping s sid = Some t"

definition apart :: "nat \<Rightarrow> rc_state \<Rightarrow> bool" where
  "apart t s \<longleftrightarrow> \<not> svClosed s t \<and> (\<forall>sid. \<forall>r \<in> set (svActive s sid). arDone r \<noteq> t)"

definition inside :: "nat \<Rightarrow> string \<Rightarrow> string \<Rightarrow> rc_state \<Rightarrow> bool" where
  "inside t sid rid s \<longleftrightarrow> (\<forall>sid'. \<forall>r \<in> set (svActive s sid'). arDone r = t \<longrightarrow> sid' = sid \<and> arRequestID r = rid)"

lemma stable_True [simp]: "rc_stable t (\<lambda>s. True)"
  by (simp add: stable_def)

lemma stable_fenced [simp]: "rc_stable t (fenced t sid)"
  by (auto simp: stable_def rc_rely_def rc_guar_def fenced_def)

lemma stable_left [simp]: "rc_stable t (left_in t sid runs)"
  unfolding stable_def rc_rely_def rc_guar_def left_in_def by (metis option.distinct(1) subset_code(1))

lemma stable_apart [simp]: "rc_stable t (apart t)"
  unfolding stable_def rc_rely_def rc_guar_def apart_def by metis

lemma stable_inside [simp]: "rc_stable t (inside t sid rid)"
  unfolding stable_def rc_rely_def rc_guar_def inside_def by metis

lemma stable_cancelled: "rc_stable t (\<lambda>s. \<forall>x \<in> set xs. exCancelled s x)"
  unfolding stable_def rc_rely_def rc_guar_def by blast

lemma stable_conj: "rc_stable t P \<Longrightarrow> rc_stable t Q \<Longrightarrow> rc_stable t (\<lambda>s. P s \<and> Q s)"
  by (simp add: stable_def)

section \<open>The parts of the handlers\<close>

lemma ok_find:
  assumes "rc_stable t P" and "\<And>x. rc.ok t P (k x)"
  shows "rc.ok t P (act LStep (find_record cmd) k)"
  by (rule ok_frame) (simp_all add: assms)

lemma ok_ReserveCommand:
  assumes st: "rc_stable t P" and k: "\<And>x. rc.ok t P (k x)"
  shows "rc.ok t P (ReserveCommand cmd k)"
proof -
  have again: "rc.ok t P (act LStep (find_record cmd) (\<lambda>again. case again of
      Inr (Some r) \<Rightarrow> k (Inr (r, False)) | _ \<Rightarrow> k (Inl StoreFailure)))"
    by (rule ok_find [OF st]) (simp add: k split: sum.split option.split)
  have ins: "rc.ok t P (act LStep (insert_command cmd) (\<lambda>(row, inserted).
      if inserted then k (Inr (row, True)) else act LStep (find_record cmd) (\<lambda>again. case again of
        Inr (Some r) \<Rightarrow> k (Inr (r, False)) | _ \<Rightarrow> k (Inl StoreFailure))))"
    by (rule ok_frame [OF st]) (simp_all add: k again split: prod.split)
  show ?thesis unfolding ReserveCommand_def
    by (rule ok_find [OF st]) (simp add: k ins split: sum.split option.split)
qed

lemma ok_reserve:
  assumes "rc_stable t P" and "\<And>x. rc.ok t P (k x)"
  shows "rc.ok t P (reserve cmd k)"
  unfolding reserve_def
  by (rule ok_ReserveCommand [OF assms(1)]) (simp add: assms(2) split: sum.split option.split prod.split bool.split)

lemma ok_finish:
  assumes "rc_stable t P" and "\<And>s. rc_inv s \<Longrightarrow> P s \<Longrightarrow> rc_marks t lab s"
  shows "rc.ok t P (finish lab cid res)"
  unfolding finish_def by (rule ok_frame) (simp_all add: assms rg_Ret)

lemma end_stopping_guar: "rc_inv s \<Longrightarrow> fenced t sid s \<Longrightarrow> rc_guar t s (fst (end_stopping sid i s))"
  by (auto simp: end_stopping_def rc_guar_def rc_inv_def fenced_def)

lemma ok_finish_fenced:
  assumes "rc_stable t P" and "\<And>s. rc_inv s \<Longrightarrow> P s \<Longrightarrow> rc_marks t lab s" and "\<And>s. P s \<Longrightarrow> fenced t sid s"
  shows "rc.ok t P (finish_fenced lab sid cid res)"
  unfolding finish_fenced_def
proof (rule ok_frame)
  fix r
  show "rc.ok t P (act LStep (end_stopping sid) (\<lambda>_. Ret (ResCommand r)))"
  proof (rule rg_act)
    fix i s s' a assume s: "rc_inv s" "P s" "end_stopping sid i s = (s', a)"
    then have "rc_guar t s s'" using end_stopping_guar [OF s(1) assms(3) [OF s(2)]] by (metis fst_conv)
    then show "rc_guar t s s' \<and> (\<exists>P'. P' s' \<and> rc.ok t P' (Ret (ResCommand r)))" by (intro conjI exI [of _ "\<lambda>s. True"]) (simp_all add: rg_Ret)
  qed (simp_all add: assms)
qed (simp_all add: assms)

text \<open>The fence is taken by one goroutine, or the call goes on without it.\<close>

lemma ok_begin_stopping:
  assumes "rc.ok t (\<lambda>s. True) (k False)" and "rc.ok t (fenced t sid) (k True)"
  shows "rc.ok t (\<lambda>s. True) (act LStep (begin_stopping t sid) k)"
proof (rule rg_act)
  fix i s s' a assume s: "rc_inv s" "begin_stopping t sid i s = (s', a)"
  show "rc_guar t s s' \<and> (\<exists>P'. P' s' \<and> rc.ok t P' (k a))"
  proof (cases "svStopping s sid = None")
    case True
    then have "a" "s' = s\<lparr>svStopping := (svStopping s)(sid := Some t)\<rparr>" using s(2) by (auto simp: begin_stopping_def)
    then have "rc_guar t s s'" "fenced t sid s'" using s(1) True by (auto simp: rc_guar_def rc_inv_def fenced_def)
    then show ?thesis using assms(2) \<open>a\<close> by (intro conjI exI [of _ "fenced t sid"]) simp_all
  next
    case False
    then have "\<not> a" "s' = s" using s(2) by (auto simp: begin_stopping_def)
    then have "rc_guar t s s'" using same_runs_guar [OF s(1) same_runs_refl] by simp
    then show ?thesis using assms(1) \<open>\<not> a\<close> by (intro conjI exI [of _ "\<lambda>s. True"]) simp_all
  qed
qed simp_all

lemma cancel_same: "same_runs s (s\<lparr>exCancelled := (exCancelled s)(x := True)\<rparr>)"
  by (simp add: same_runs_def)

lemma ok_cancel_contexts:
  assumes "rc_stable t P"
    and "rc.ok t (\<lambda>s. P s \<and> (\<forall>x \<in> set (ys @ xs). exCancelled s x)) k"
  shows "rc.ok t (\<lambda>s. P s \<and> (\<forall>x \<in> set ys. exCancelled s x)) (cancel_contexts xs k)"
  using assms(2)
proof (induction xs arbitrary: ys)
  case (Cons x xs)
  let ?Q = "\<lambda>ys s. P s \<and> (\<forall>x \<in> set ys. exCancelled s x)"
  have st: "rc_stable t (?Q zs)" for zs by (intro stable_conj assms(1) stable_cancelled)
  have IH: "rc.ok t (?Q (ys @ [x])) (cancel_contexts xs k)" using Cons.IH [of "ys @ [x]"] Cons.prems by simp
  show ?case unfolding cancel_contexts.simps
  proof (rule rg_act [OF st])
    fix i s s' a
    assume s: "rc_inv s" "?Q ys s" "(s\<lparr>exCancelled := (exCancelled s)(x := True)\<rparr>, ()) = (s', a)"
    have "P s'" using assms(1) same_runs_rely [OF s(1) cancel_same, of t x] s(1-3) unfolding stable_def by auto
    then have "?Q (ys @ [x]) s'" using s(2,3) by auto
    moreover have "rc_guar t s s'" using same_runs_guar [OF s(1) cancel_same] s(3) by auto
    ultimately show "rc_guar t s s' \<and> (\<exists>P'. P' s' \<and> rc.ok t P' (cancel_contexts xs k))"
      using IH by (intro conjI exI [of _ "?Q (ys @ [x])"]) simp_all
  qed simp
qed simp

lemma stop_same: "same_runs s (s\<lparr>exStopped := f\<rparr>)"
  by (simp add: same_runs_def)

lemma ok_interrupt:
  assumes st: "rc_stable t P" and k: "rc.ok t P k"
  shows "rc.ok t P (interruptCueRuns runs k)"
proof (induction runs)
  case (Cons run runs)
  show ?case unfolding interruptCueRuns.simps exec_stop_def
  proof (rule ok_frame [OF st])
    fix xs :: "nat list"
    have "rc.ok t (\<lambda>s. P s \<and> (\<forall>x \<in> set ([] @ xs). exCancelled s x))
        (act (LDelay xs) (cancel_delay (arDone run)) (\<lambda>_. interruptCueRuns runs k))"
    proof (rule ok_frame)
      fix a :: unit
      show "rc.ok t (\<lambda>s. P s \<and> (\<forall>x \<in> set ([] @ xs). exCancelled s x)) (interruptCueRuns runs k)"
        by (rule rg_weaken [OF Cons]) (auto intro: stable_conj st stable_cancelled)
    qed (auto simp: rc_marks_def intro: stable_conj st stable_cancelled)
    from ok_cancel_contexts [OF st this]
    show "rc.ok t P (cancel_contexts xs (act (LDelay xs) (cancel_delay (arDone run)) (\<lambda>_. interruptCueRuns runs k)))"
      by simp
  qed (simp_all add: stop_same)
qed (simp add: k)


lemma select_run_Some: "select_run run i s = Some (s', w) \<Longrightarrow> s' = s \<and> (w = WakeDone \<longrightarrow> svClosed s (arDone run))"
  by (auto simp: select_run_def split: if_splits)

lemma left_fenced: "left_in t sid runs s \<Longrightarrow> fenced t sid s"
  by (simp add: left_in_def fenced_def)

lemma left_closed: "rc_inv s \<Longrightarrow> left_in t sid (run # runs) s \<Longrightarrow> svClosed s (arDone run) \<Longrightarrow> left_in t sid runs s"
  by (auto simp: rc_inv_def left_in_def)

text \<open>Waiting for the runs of the snapshot one after the other.\<close>

lemma ok_wait_runs:
  assumes over: "rc.ok t (left_in t sid []) (k WakeDone)" and early: "\<And>w. w \<noteq> WakeDone \<Longrightarrow> rc.ok t (fenced t sid) (k w)"
  shows "rc.ok t (left_in t sid runs) (wait_runs runs k)"
proof (induction runs)
  case (Cons run runs)
  show ?case unfolding wait_runs.simps
  proof (rule rg_await)
    fix i s s' w assume s: "rc_inv s" "left_in t sid (run # runs) s" "select_run run i s = Some (s', w)"
    let ?k = "case w of WakeDone \<Rightarrow> wait_runs runs k | _ \<Rightarrow> k w"
    have "s' = s" using select_run_Some [OF s(3)] by simp
    then have "rc_guar t s s'" using same_runs_guar [OF s(1)] by simp
    moreover have "\<exists>P. P s' \<and> rc.ok t P ?k"
    proof (cases "w = WakeDone")
      case True
      then have "left_in t sid runs s'" using left_closed [OF s(1,2)] select_run_Some [OF s(3)] by simp
      then show ?thesis using Cons True by (intro exI [of _ "left_in t sid runs"]) simp
    next
      case False
      have "fenced t sid s'" using left_fenced [OF s(2)] \<open>s' = s\<close> by simp
      moreover have "rc.ok t (fenced t sid) ?k" using early [OF False] False by (cases w) simp_all
      ultimately show ?thesis by blast
    qed
    ultimately show "rc_guar t s s' \<and> (\<exists>P. P s' \<and> rc.ok t P ?k)" by blast
  qed simp_all
qed (simp add: over)

lemma ok_active_runs:
  assumes "\<And>runs. rc.ok t (left_in t sid runs) (k runs)"
  shows "rc.ok t (fenced t sid) (await LStep (active_runs sid) k)"
proof (rule rg_await)
  fix i s s' runs assume s: "rc_inv s" "fenced t sid s" "active_runs sid i s = Some (s', runs)"
  then have "s' = s" "mset runs = mset (svActive s sid)" by (auto simp: active_runs_def split: if_splits)
  then have "set runs = set (svActive s sid)" by (metis set_mset_mset)
  with \<open>s' = s\<close> have "rc_guar t s s'" "left_in t sid runs s'"
    using same_runs_guar [OF s(1)] s(2) by (simp_all add: fenced_def left_in_def)
  then show "rc_guar t s s' \<and> (\<exists>P. P s' \<and> rc.ok t P (k runs))"
    using assms by (intro conjI exI [of _ "left_in t sid runs"]) simp_all
qed simp_all

lemma ok_stop_runs:
  assumes "rc.ok t (left_in t sid []) (k WakeDone)" and "\<And>w. w \<noteq> WakeDone \<Longrightarrow> rc.ok t (fenced t sid) (k w)"
  shows "rc.ok t (left_in t sid runs) (interruptCueRuns runs (wait_runs runs k))"
proof (rule ok_interrupt)
  show "rc.ok t (left_in t sid runs) (wait_runs runs k)"
  proof (rule ok_wait_runs)
    show "rc.ok t (left_in t sid []) (k WakeDone)" by (rule assms(1))
  next
    fix w assume "w \<noteq> WakeDone" then show "rc.ok t (fenced t sid) (k w)" by (rule assms(2))
  qed
qed simp

text \<open>A confirmed stop leaves no run while the fence is held.\<close>

lemma ok_stopActive:
  assumes "rc.ok t (left_in t sid []) (k None)" and "\<And>e. rc.ok t (fenced t sid) (k (Some e))"
  shows "rc.ok t (fenced t sid) (stopActiveCueForSession sid k)"
  unfolding stopActiveCueForSession_def
proof (rule ok_active_runs)
  fix runs
  show "rc.ok t (left_in t sid runs) (if runs = [] then k None else interruptCueRuns runs (wait_runs runs (\<lambda>w. k (stop_error w))))"
  proof (cases "runs = []")
    case False
    have "rc.ok t (fenced t sid) (k (stop_error w))" if "w \<noteq> WakeDone" for w
      using assms(2) that by (cases w) (simp_all add: stop_error_def)
    then have "rc.ok t (left_in t sid runs) (interruptCueRuns runs (wait_runs runs (\<lambda>w. k (stop_error w))))"
      using assms(1) by (intro ok_stop_runs) (simp_all add: stop_error_def)
    with False show ?thesis by simp
  qed (simp add: assms(1))
qed

lemma ok_EndSessionLifecycle:
  assumes "rc_stable t P" and "\<And>s. rc_inv s \<Longrightarrow> P s \<Longrightarrow> rc_marks t lab s" and "\<And>e. rc.ok t P (k e)"
  shows "rc.ok t P (EndSessionLifecycle lab sid lc reason k)"
proof -
  have e: "rc.ok t P (act lab (end_session_row sid st l reason) k)" for st l
    by (rule ok_frame) (simp_all add: assms)
  have "rc.ok t P (act LStep (get_session sid) (\<lambda>found. case found of
        Inl e \<Rightarrow> k (Some e)
      | Inr session \<Rightarrow>
        if sesType session \<noteq> SessionRehearsal
        then k (Some (GoError IsConflict ''conflict: only REHEARSAL can be suspended by the foundation lifecycle''))
        else act lab (end_session_row sid SessionAborted lc reason) k))"
    for lc by (rule ok_frame) (simp_all add: assms e split: sum.split)
  then show ?thesis by (cases lc) (simp_all add: EndSessionLifecycle_def assms e)
qed

lemma ok_EndSession:
  assumes "rc_stable t P" and "\<And>s. rc_inv s \<Longrightarrow> P s \<Longrightarrow> rc_marks t lab s" and "\<And>e. rc.ok t P (k e)"
  shows "rc.ok t P (EndSession lab sid st k)"
  unfolding EndSession_def by (simp add: assms ok_EndSessionLifecycle [OF assms] split: SessionStatus.split)

lemma ok_set_latch:
  assumes "rc_stable t P" and "\<And>e. rc.ok t P (k e)"
  shows "rc.ok t P (SetSessionManagedOutputBlackout sid enabled by_whom k)"
proof -
  have w: "rc.ok t P (act LStep (set_latch s enabled) k)" for s
    by (rule ok_frame) (simp_all add: assms)
  have "rc.ok t P (act LStep (get_session x) (\<lambda>found. case found of
        Inl e \<Rightarrow> k (Some e)
      | Inr session \<Rightarrow>
        if sesStatus session \<noteq> SessionActive
        then k (Some (GoError IsConflict ''conflict: runtime safety state requires an active session''))
        else act LStep (set_latch (sesID session) enabled) k))" for x
    by (rule ok_frame) (simp_all add: assms w split: sum.split)
  then show ?thesis by (simp add: SetSessionManagedOutputBlackout_def Let_def assms)
qed

section \<open>The handlers\<close>

lemma ok_StopCue: "rc.ok t (\<lambda>s. True) (StopCue sc t req)"
proof -
  have out: "rc.ok t (left_in t sid runs) (interruptCueRuns runs (wait_runs runs (\<lambda>w.
      finish_fenced (LFenced sid (stop_outcome sc cid sid runs w)) sid cid (stop_outcome sc cid sid runs w))))" for sid cid runs
  proof (rule ok_stop_runs)
    fix w assume "w \<noteq> WakeDone"
    then have "resStatus (stop_outcome sc cid sid runs w) \<noteq> CommandCompleted"
      by (cases w) (simp_all add: stop_outcome_def)
    then show "rc.ok t (fenced t sid)
        (finish_fenced (LFenced sid (stop_outcome sc cid sid runs w)) sid cid (stop_outcome sc cid sid runs w))"
      by (intro ok_finish_fenced) (simp_all add: rc_marks_def)
  qed (rule ok_finish_fenced, simp_all add: rc_marks_def left_in_def fenced_def)
  have runs: "rc.ok t (fenced t sid) (await LStep (active_runs sid) (\<lambda>runs.
        if runs = []
        then finish_fenced LStep sid cid (rc_rejected cid ''NO_RUNNING_CUE'' ''there is no running Cue to stop'' sid)
        else interruptCueRuns runs (wait_runs runs (\<lambda>w.
          finish_fenced (LFenced sid (stop_outcome sc cid sid runs w)) sid cid (stop_outcome sc cid sid runs w)))))" for sid cid
    by (rule ok_active_runs) (simp add: out ok_finish_fenced left_fenced)
  show ?thesis
    unfolding StopCue_def Let_def
    by (simp add: rg_Ret ok_frame runs ok_finish ok_begin_stopping ok_reserve split: sum.split prod.split)
qed


lemma ok_StopSession: "rc.ok t (\<lambda>s. True) (StopSession sc t req)"
proof -
  have fin: "rc.ok t (left_in t sid []) (finish_fenced LStep sid cid r)"
    "rc.ok t (left_in t sid []) (finish_fenced (LFenced sid r) sid cid r)"
    "rc.ok t (fenced t sid) (finish_fenced LStep sid cid r)" for sid cid r
    by (rule ok_finish_fenced; simp add: rc_marks_def left_in_def fenced_def)+
  have marks: "rc_inv s \<Longrightarrow> left_in t sid [] s \<Longrightarrow> rc_marks t (LEnd sid st) s" for s sid st
    by (simp add: rc_marks_def left_in_def)
  have log: "rc.ok t (left_in t sid []) (act LStep (append_event ev cid) (\<lambda>logged.
      if \<not> logged then finish_fenced LStep sid cid (rc_failed cid ''SESSION_EVENT_FAILED'')
      else finish_fenced (LFenced sid r) sid cid r))" for sid cid ev r
    by (rule ok_frame) (simp_all add: fin)
  have over: "rc.ok t (left_in t sid []) (EndSession (LEnd sid st) sid st (\<lambda>ended. case ended of
      Some e \<Rightarrow> finish_fenced LStep sid cid (resultFromStoreError cid ''SESSION_STOP_FAILED'' e sid)
    | None \<Rightarrow> act LStep (append_event ev cid) (\<lambda>logged.
        if \<not> logged then finish_fenced LStep sid cid (rc_failed cid ''SESSION_EVENT_FAILED'')
        else finish_fenced (LFenced sid r) sid cid r)))" for sid st cid ev r
    by (rule ok_EndSession) (simp_all add: fin log marks split: option.split)
  show ?thesis
    unfolding StopSession_def Let_def
    by (simp add: rg_Ret ok_frame fin over ok_finish ok_begin_stopping ok_reserve ok_stopActive split: sum.split prod.split option.split)
qed

lemma ok_ForceStopSession: "rc.ok t (\<lambda>s. True) (ForceStopSession sc t req)"
proof -
  have fin: "rc.ok t (left_in t sid []) (finish_fenced LStep sid cid r)"
    "rc.ok t (left_in t sid []) (finish_fenced (LForced sid True r) sid cid r)"
    "rc.ok t (fenced t sid) (finish_fenced (LForced sid False r) sid cid r)"
    "rc.ok t (fenced t sid) (finish_fenced LStep sid cid r)" for sid cid r
    by (rule ok_finish_fenced; simp add: rc_marks_def left_in_def fenced_def)+
  show ?thesis
    unfolding ForceStopSession_def Let_def
    by (simp add: rg_Ret ok_frame fin ok_finish ok_begin_stopping ok_reserve ok_stopActive ok_EndSessionLifecycle
        split: sum.split prod.split option.split)
qed

lemma ok_blackout_outputs:
  assumes st: "rc_stable t P" and ans: "\<And>r. (cueStopErr \<noteq> None \<Longrightarrow> resStatus r \<noteq> CommandCompleted) \<Longrightarrow> rc.ok t P (answer r)"
  shows "rc.ok t P (blackout_outputs sc req sid cueStopErr answer)"
  unfolding blackout_outputs_def Let_def
  by (simp add: rg_Ret ok_frame st ok_set_latch ans emergency_failure_def failure_def split: prod.split option.split)

lemma ok_EmergencyBlackout: "rc.ok t (\<lambda>s. True) (EmergencyBlackout sc t req)"
proof -
  have fin: "rc.ok t (fenced t sid) (finish_fenced LStep sid cid r)"
    "rc.ok t (left_in t sid []) (finish_fenced (LFenced sid r) sid cid r)"
    "resStatus r \<noteq> CommandCompleted \<Longrightarrow> rc.ok t (fenced t sid) (finish_fenced (LFenced sid r) sid cid r)" for sid cid r
    by (rule ok_finish_fenced; simp add: rc_marks_def left_in_def fenced_def)+
  show ?thesis
    unfolding EmergencyBlackout_def Let_def
    by (simp add: rg_Ret ok_frame fin ok_finish ok_begin_stopping ok_reserve ok_stopActive ok_set_latch ok_blackout_outputs
        split: sum.split prod.split option.split)
qed

lemma ok_ProjectBlackout: "rc.ok t (\<lambda>s. True) (ProjectBlackout sc req)"
  unfolding ProjectBlackout_def Let_def
  by (simp add: rg_Ret ok_frame ok_finish ok_reserve split: sum.split prod.split option.split)

lemma ok_finish_start: "rc.ok t (\<lambda>s. True) (finish_start sc cid r)"
  unfolding finish_start_def by (simp add: ok_frame rg_Ret)

lemma ok_CreateSession:
  assumes "\<And>x. rc.ok t (\<lambda>s. True) (k x)"
  shows "rc.ok t (\<lambda>s. True) (CreateSession snap ty k)"
  unfolding CreateSession_def by (simp add: assms ok_frame split: sum.split option.split)

lemma ok_start_gate:
  assumes "\<And>x. rc.ok t (\<lambda>s. True) (k x)"
  shows "rc.ok t (\<lambda>s. True) (start_gate sc cid snap k)" "rc.ok t (\<lambda>s. True) (show_gate sc cid snap mode k)"
  unfolding start_gate_def show_gate_def
  by (simp_all add: assms ok_frame ok_finish_start split: sum.split prod.split)

lemma ok_StartSession: "rc.ok t (\<lambda>s. True) (StartSession sc req)"
  unfolding StartSession_def Let_def
  by (simp add: rg_Ret ok_frame ok_finish_start ok_reserve ok_start_gate ok_CreateSession ok_EndSession
      split: sum.split prod.split option.split)


lemma ok_engine_run:
  assumes st: "rc_stable t P" and k: "\<And>r. rc.ok t P (k r)"
  shows "rc.ok t P (engine_run n k)"
  by (induction n) (simp_all add: ok_frame st k)

lemma admit_cases:
  assumes "admit_go sid run i s = (s', rejected)"
  obtains r where "rejected = Some r" "same_runs s s'"
  | "rejected = None" "svStopping s sid = None" "s' = s\<lparr>svActive := (svActive s)(sid := svActive s sid @ [run])\<rparr>"
  using assms by (auto simp: admit_go_def Let_def same_runs_def split: if_splits)

lemma ok_admit:
  assumes "\<And>r. rc.ok t (apart t) (k (Some r))" and "rc.ok t (inside t sid rid) (k None)"
  shows "rc.ok t (apart t) (act LStep (admit_go sid \<lparr>arRequestID = rid, arCorrelationID = c, arDone = t\<rparr>) k)"
proof (rule rg_act)
  fix i s s' a
  assume s: "rc_inv s" "apart t s" and ad: "admit_go sid \<lparr>arRequestID = rid, arCorrelationID = c, arDone = t\<rparr> i s = (s', a)"
  from ad show "rc_guar t s s' \<and> (\<exists>P. P s' \<and> rc.ok t P (k a))"
  proof (rule admit_cases)
    fix r assume r: "a = Some r" and same: "same_runs s s'"
    have "apart t s'" using stable_apart [of t] same_runs_rely [OF s(1) same] s unfolding stable_def by blast
    then show ?thesis using same_runs_guar [OF s(1) same] assms(1) r by (intro conjI exI [of _ "apart t"]) simp_all
  next
    assume a: "a = None" and free: "svStopping s sid = None"
      and s': "s' = s\<lparr>svActive := (svActive s)(sid := svActive s sid @ [\<lparr>arRequestID = rid, arCorrelationID = c, arDone = t\<rparr>])\<rparr>"
    have "rc_guar t s s'" using s free by (auto simp: s' rc_guar_def rc_inv_def apart_def)
    moreover have "inside t sid rid s'" using s by (auto simp: s' inside_def apart_def)
    ultimately show ?thesis using assms(2) a by (intro conjI exI [of _ "inside t sid rid"]) simp_all
  qed
qed simp_all

lemma ok_leave:
  assumes "rc.ok t (\<lambda>s. True) (k ())"
  shows "rc.ok t (inside t sid rid) (act LStep (leave_go sid \<lparr>arRequestID = rid, arCorrelationID = c, arDone = t\<rparr>) k)"
proof (rule rg_act)
  fix i s s' a
  assume s: "rc_inv s" "inside t sid rid s" "leave_go sid \<lparr>arRequestID = rid, arCorrelationID = c, arDone = t\<rparr> i s = (s', a)"
  then have s': "s' = fst (leave_go sid \<lparr>arRequestID = rid, arCorrelationID = c, arDone = t\<rparr> i s)" by simp
  have "rc_inv s'" using s(1,2) by (simp add: s' leave_go_def rc_inv_def inside_def) blast
  then have "rc_guar t s s'" by (simp add: s' leave_go_def rc_guar_def)
  then show "rc_guar t s s' \<and> (\<exists>P. P s' \<and> rc.ok t P (k a))"
    using assms by (intro conjI exI [of _ "\<lambda>s. True"]) simp_all
qed simp_all

lemma ok_Go: "rc.ok t (apart t) (Go sc t n req)"
proof -
  have out: "rc.ok t (inside t sid rid) (engine_run n (\<lambda>result. act LStep (cancel_delay t) (\<lambda>_.
      act LStep (\<lambda>i s. (exec_clear rid s, ())) (\<lambda>_.
      act LStep (leave_go sid \<lparr>arRequestID = rid, arCorrelationID = rid, arDone = t\<rparr>) (\<lambda>_. Ret (ResCommand result))))))" for sid rid
    by (simp add: ok_engine_run ok_frame ok_leave rg_Ret)
  show ?thesis
    unfolding Go_def Let_def
    by (simp add: rg_Ret ok_frame ok_admit out split: sum.split option.split bool.split)
qed

lemma release_same: "same_runs s (release_execution t req s)"
  by (simp add: release_execution_def same_runs_def Let_def)

text \<open>An execution registered under a stopped correlation finds its context cancelled.\<close>

lemma ok_Execute: "rc.ok t (\<lambda>s. True) (exec_Execute available t req)"
proof -
  have rel: "rc.ok t P (act LStep (\<lambda>i s. (release_execution t req s, ())) (\<lambda>_. Ret (ResExecution r)))"
    if "rc_stable t P" for P r
    using that by (simp add: ok_frame release_same rg_Ret)
  let ?check = "\<lambda>stopped. act LStep (\<lambda>i s. (s, context_err t i s)) (\<lambda>err. case err of
          Some e \<Rightarrow> act LStep (\<lambda>i s. (release_execution t req s, ())) (\<lambda>_. Ret (ResExecution (stopped_result e)))
        | None \<Rightarrow> act (LInner (crCorrelationID req) stopped) (\<lambda>i s. (s, riInner i)) (\<lambda>res.
            act LStep (\<lambda>i s. (release_execution t req s, ())) (\<lambda>_. Ret (ResExecution res))))"
  have free: "rc.ok t (\<lambda>s. True) (?check False)"
    by (simp add: ok_frame rel rc_marks_def split: option.split)
  have gone: "rc.ok t (\<lambda>s. \<forall>x \<in> set [t]. exCancelled s x) (?check True)"
  proof (rule rg_act)
    fix i s s' a assume s: "rc_inv s" "\<forall>x \<in> set [t]. exCancelled s x" "(s, context_err t i s) = (s', a)"
    then have "context_err t i s \<noteq> None" by (simp add: context_err_def split: option.split)
    then obtain e where "a = Some e" "s' = s" using s(3) by auto
    then show "rc_guar t s s' \<and> (\<exists>P. P s' \<and> rc.ok t P (case a of
          Some e \<Rightarrow> act LStep (\<lambda>i s. (release_execution t req s, ())) (\<lambda>_. Ret (ResExecution (stopped_result e)))
        | None \<Rightarrow> act (LInner (crCorrelationID req) True) (\<lambda>i s. (s, riInner i)) (\<lambda>res.
            act LStep (\<lambda>i s. (release_execution t req s, ())) (\<lambda>_. Ret (ResExecution res)))))"
      using same_runs_guar [OF s(1) same_runs_refl] by (intro conjI exI [of _ "\<lambda>s. True"]) (simp_all add: rel)
  qed (use stable_cancelled [of t "[t]"] in simp_all)
  have "rc.ok t (\<lambda>s. True) (act LStep (\<lambda>i. register_execution t req) ?check)"
  proof (rule rg_act)
    fix i s s' a assume s: "rc_inv s" "register_execution t req s = (s', a)"
    then have g: "rc_guar t s s'"
      by (intro same_runs_guar) (auto simp: register_execution_def same_runs_def Let_def)
    show "rc_guar t s s' \<and> (\<exists>P. P s' \<and> rc.ok t P (?check a))"
    proof (cases a)
      case True
      then have "\<forall>x \<in> set [t]. exCancelled s' x" using s(2) by (auto simp: register_execution_def Let_def)
      moreover have "a = True" using True by simp
      ultimately show ?thesis using g gone by (intro conjI exI [of _ "\<lambda>s. \<forall>x \<in> set [t]. exCancelled s x"]) (simp_all only:)
    next
      case False
      then have "a = False" by simp
      then show ?thesis using g free by (intro conjI exI [of _ "\<lambda>s. True"]) (simp_all only:)
    qed
  qed simp_all
  then show ?thesis by (simp add: exec_Execute_def rg_Ret)
qed

lemma ok_serve: "rc.ok t (apart t) (serve sc t call)"
proof -
  have weak: "rc.ok t (\<lambda>s. True) p \<Longrightarrow> rc.ok t (apart t) p" for p by (rule rg_weaken) simp_all
  show ?thesis
    by (cases call) (simp_all add: weak ok_Go ok_StopCue ok_StopSession ok_ForceStopSession ok_EmergencyBlackout ok_ProjectBlackout
        ok_StartSession ok_Execute)
qed

lemma rc_reached: "rc_reachable sc calls c \<Longrightarrow> rc.all_ok c"
  unfolding rc_reachable_def
  by (auto intro!: rc.reached_ok [where P = apart] simp: ok_serve rc_initial_def rc_inv_def apart_def)

section \<open>The properties\<close>

text \<open>
  C1. A stop of the service is never confirmed too early, in every interleaving with any number of other calls. A STOP
  of the running cue, an orderly session exit and an Emergency Blackout that is switched on store a COMPLETED result
  only while the call holds the fence of the session and no cue that a GO of the service started is running in it;
  likewise for the statement that marks the session COMPLETED. A forced exit holds the fence when it stores its
  result, and says that the cue stop is confirmed only if no such cue is running. Clearing an Emergency Blackout stops
  no cue and takes no fence. Cues that a timecode source or a route starts go to the engine directly, past the
  service: they are not among those counted here, and no stop waits for them.
\<close>

theorem stop_is_confirmed:
  assumes "rc_reachable sc calls (s, ps)" and "ps t = Act l f"
  shows "(l = LFenced sid r \<and> resStatus r = CommandCompleted \<longrightarrow> svStopping s sid = Some t \<and> svActive s sid = [])
    \<and> (l = LEnd sid st \<longrightarrow> svStopping s sid = Some t \<and> svActive s sid = [])
    \<and> (l = LForced sid confirmed r \<longrightarrow> svStopping s sid = Some t \<and> (confirmed \<longrightarrow> svActive s sid = []))"
proof -
  have "rc_marks t l s" using rc.ok_marks [OF rc_reached [OF assms(1)]] assms(2) by simp
  then show ?thesis by (auto simp: rc_marks_def)
qed

text \<open>
  The fence holds: as long as some call has it for a session, whatever goroutine moves, no run is
  added to the session, and only the call that took it can drop it.
\<close>

theorem fence_admits_no_cue:
  assumes "rc_reachable sc calls (s, ps)" and "istep (s, ps) (s', ps')" and "svStopping s sid = Some u"
  shows "set (svActive s' sid) \<subseteq> set (svActive s sid) \<and> (svStopping s' sid = Some u \<or> ps' = ps(u := ps' u))"
proof -
  obtain t where "rc_guar t s s'" "ps' = ps(t := ps' t)"
    using rc.ok_guar [OF assms(2) rc_reached [OF assms(1)]] by auto
  with assms(3) show ?thesis unfolding rc_guar_def by (metis option.distinct(1) subsetI)
qed

text \<open>
  C25. A stopped correlation reaches no device: the adapter is never called by an execution that was
  registered while its correlation was stopped; and when \<open>stop\<close> has gone through the executions it found, the
  context of every one of them is cancelled.
\<close>

theorem stopped_reaches_no_device:
  assumes "rc_reachable sc calls (s, ps)" and "ps t = Act l f"
  shows "(l = LInner c wasStopped \<longrightarrow> \<not> wasStopped) \<and> (l = LDelay xs \<longrightarrow> (\<forall>x \<in> set xs. exCancelled s x))"
proof -
  have "rc_marks t l s" using rc.ok_marks [OF rc_reached [OF assms(1)]] assms(2) by simp
  then show ?thesis by (auto simp: rc_marks_def)
qed


section \<open>Concrete runs\<close>

definition rc_sid :: string where "rc_sid = ''s''"

definition rc_go_id :: string where "rc_go_id = replicate 36 CHR ''g''"

definition rc_stop_id :: string where "rc_stop_id = replicate 36 CHR ''b''"

definition rc_session :: Session where
  "rc_session = \<lparr>sesID = rc_sid, sesProjectID = ''p'', sesRuntimeSnapshotID = ''n'', sesType = SessionShow,
     sesStatus = SessionActive, sesCurrentCueID = None\<rparr>"

definition rc_demo_sc :: rc_service where
  "rc_demo_sc = \<lparr>scStartGate = False, scShowGate = True, scStopSafety = False, scEmergencySafety = True,
     scMarshal = (\<lambda>kvs. concat (map fst kvs)), scMarshalGo = (\<lambda>_. ''{}''),
     scDecode = (\<lambda>_. Some (''t'', SessionShow, ''n''))\<rparr>"

definition rc_demo_in :: rc_input where
  "rc_demo_in = \<lparr>riSql = SqlOk, riSql2 = SqlOk, riErr = [], riNow = demo_start, riID = ''t'', riRuns = [], riWake = WakeDone,
     riGate = Inr (True, []), riSafety = (''{}'', None), riParent = None, riInner = failed_result [] [], riTable = [],
     riExecutions = [], riEvents = [], riCurrent = (\<lambda>_. None), riResult = completed rc_go_id ''{}''\<rparr>"

definition rc_demo_first :: "Session list \<Rightarrow> rc_state" where
  "rc_demo_first sessions = rc_initial [] \<lparr>edSessions = sessions, edSnapshots = [], edCueExecutions = [], edEvents = []\<rparr>
     (\<lambda>_. (''ACTIVE'', [])) (\<lambda>_. None) [\<lparr>snID = ''n'', snProjectID = ''p'', snVersion = 1, snPublished = True\<rparr>] [''p'']"

definition rc_demo_go :: rc_call where
  "rc_demo_go = CallGo 0 \<lparr>cqSessionID = rc_sid, cqIssuer = ''op'', cqRequestID = rc_go_id, cqExpectedCurrentCueID = None,
     cqRequestedCueID = None, cqOperatorNote = None\<rparr>"

definition rc_demo_stop :: rc_call where
  "rc_demo_stop = CallStopCue \<lparr>spSessionID = rc_sid, spIssuer = ''op'', spRequestID = rc_stop_id\<rparr>"

definition rc_demo_blackout :: rc_call where
  "rc_demo_blackout = CallEmergency \<lparr>erSessionID = rc_sid, erIssuer = ''op'', erRequestID = rc_stop_id, erEnabled = True\<rparr>"

definition rc_demo_execute :: rc_call where
  "rc_demo_execute = CallExecute True \<lparr>crExecutionID = ''x'', crProjectID = ''p'', crSessionID = rc_sid, crRuntimeSnapshotID = ''n'',
     crIssuer = ''op'', crCausationID = [], crCapability = ''laser.on'', crTarget = None, crParameters = ''{}'', crPriority = ''P1'',
     crTimeoutMS = 0, crCorrelationID = rc_go_id\<rparr>"

text \<open>Two calls, and an execution of the first one's cue.\<close>

definition two :: "rc_call \<Rightarrow> rc_call \<Rightarrow> nat \<Rightarrow> rc_call" where
  "two a b t = (if t = 0 then a else if t = 1 then b else rc_demo_execute)"

definition rc_demo_run :: "Session list \<Rightarrow> rc_call \<Rightarrow> rc_call \<Rightarrow> (nat \<times> rc_input) list \<Rightarrow> (rc_state \<times> (nat \<Rightarrow> handler)) option" where
  "rc_demo_run sessions a b tis = irun tis (rc_demo_first sessions, \<lambda>t. serve rc_demo_sc t (two a b t))"

lemma rc_demo_run_reachable: "rc_demo_run sessions a b tis = Some c \<Longrightarrow> rc_reachable rc_demo_sc (two a b) c"
  unfolding rc_demo_run_def rc_reachable_def rc_demo_first_def by (blast dest: irun_steps)

definition the_run :: activeRun where
  "the_run = \<lparr>arRequestID = rc_go_id, arCorrelationID = rc_go_id, arDone = 0\<rparr>"

text \<open>A GO reads the latch; an Emergency Blackout runs to its end; then the GO is admitted.\<close>

definition race :: "(nat \<times> rc_input) list" where
  "race = replicate 2 (0, rc_demo_in) @ replicate 13 (1, rc_demo_in) @ [(0, rc_demo_in)]"

lemma race_outcome:
  "map_option (\<lambda>(s, ps). (svLatch s rc_sid, svActive s rc_sid, svStopping s rc_sid, result_of (ps 1))) (rc_demo_run [rc_session] rc_demo_go rc_demo_blackout race)
    = Some (Some True, [the_run], None, Some (ResCommand (completed rc_stop_id ''{}'')))"
  by code_simp

text \<open>
  The comment of \<open>EmergencyBlackout\<close> has it that a GO which passed the earlier read of the latch must still
  be fenced. It is not when it comes to its critical section after the blackout has dropped the fence.
\<close>

lemma go_admitted_under_blackout:
  "\<exists>s ps. rc_reachable rc_demo_sc (two rc_demo_go rc_demo_blackout) (s, ps)
     \<and> ps 1 = Ret (ResCommand (completed rc_stop_id ''{}'')) \<and> svLatch s rc_sid = Some True \<and> svActive s rc_sid = [the_run]"
  using race_outcome by (auto simp: result_of_Some dest: rc_demo_run_reachable)

text \<open>A GO is admitted, a STOP interrupts it, the engine returns and the STOP is confirmed.\<close>

definition stop_schedule :: "(nat \<times> rc_input) list" where
  "stop_schedule = replicate 3 (0, rc_demo_in) @ replicate 5 (1, rc_demo_in) @ [(1, rc_demo_in\<lparr>riRuns := [the_run]\<rparr>)]
     @ replicate 2 (1, rc_demo_in) @ replicate 4 (0, rc_demo_in) @ [(1, rc_demo_in)]"

definition stop_result :: CommandResult where
  "stop_result = stop_outcome rc_demo_sc rc_stop_id rc_sid [the_run] WakeDone"

lemma stop_outcome_run:
  "map_option (\<lambda>(s, ps). (label_of (ps 1), resStatus stop_result)) (rc_demo_run [rc_session] rc_demo_go rc_demo_stop stop_schedule)
    = Some (Some (LFenced rc_sid stop_result), CommandCompleted)"
  by code_simp

theorem stop_is_confirmed_witness:
  "\<exists>s ps. rc_reachable rc_demo_sc (two rc_demo_go rc_demo_stop) (s, ps) \<and> label_of (ps 1) = Some (LFenced rc_sid stop_result)
     \<and> svStopping s rc_sid = Some 1 \<and> svActive s rc_sid = []"
proof -
  obtain s ps where run: "rc_demo_run [rc_session] rc_demo_go rc_demo_stop stop_schedule = Some (s, ps)"
    and l: "label_of (ps 1) = Some (LFenced rc_sid stop_result)" and r: "resStatus stop_result = CommandCompleted"
    using stop_outcome_run by auto
  from l obtain f where f: "ps 1 = Act (LFenced rc_sid stop_result) f" by (auto simp: label_of_Some)
  have "svStopping s rc_sid = Some 1 \<and> svActive s rc_sid = []"
    using stop_is_confirmed [OF rc_demo_run_reachable [OF run] f, of rc_sid stop_result] r by simp
  with l rc_demo_run_reachable [OF run] show ?thesis by blast
qed

text \<open>While the STOP waits, the GO still has the run and the engine answers.\<close>

definition fence_schedule :: "(nat \<times> rc_input) list" where
  "fence_schedule = replicate 3 (0, rc_demo_in) @ replicate 5 (1, rc_demo_in)"

lemma fence_run:
  "map_option (\<lambda>(s, ps). svStopping s rc_sid) (rc_demo_run [rc_session] rc_demo_go rc_demo_stop fence_schedule) = Some (Some 1)"
  "rc_demo_run [rc_session] rc_demo_go rc_demo_stop (fence_schedule @ [(0, rc_demo_in)]) \<noteq> None"
  by code_simp+

theorem fence_admits_no_cue_witness:
  "\<exists>s ps s' ps'. rc_reachable rc_demo_sc (two rc_demo_go rc_demo_stop) (s, ps) \<and> istep (s, ps) (s', ps')
     \<and> set (svActive s' rc_sid) \<subseteq> set (svActive s rc_sid) \<and> (svStopping s' rc_sid = Some 1 \<or> ps' = ps(1 := ps' 1))"
proof -
  let ?c = "rc_demo_run [rc_session] rc_demo_go rc_demo_stop fence_schedule"
  obtain s ps where run: "?c = Some (s, ps)" and u: "svStopping s rc_sid = Some 1"
    using fence_run(1) by auto
  have "rc_demo_run [rc_session] rc_demo_go rc_demo_stop (fence_schedule @ [(0, rc_demo_in)]) = irun [(0, rc_demo_in)] (s, ps)"
    using run by (simp add: rc_demo_run_def irun_append)
  then obtain s' ps' where "istep (s, ps) (s', ps')"
    using fence_run(2) by (auto split: prog.splits option.splits intro: istep.intros)
  from fence_admits_no_cue [OF rc_demo_run_reachable [OF run] this u] this rc_demo_run_reachable [OF run]
  show ?thesis by blast
qed

text \<open>A STOP finds an execution of the cue and cancels it.\<close>

definition cancel_schedule :: "(nat \<times> rc_input) list" where
  "cancel_schedule = replicate 3 (0, rc_demo_in) @ [(2, rc_demo_in)] @ replicate 5 (1, rc_demo_in)
     @ [(1, rc_demo_in\<lparr>riRuns := [the_run]\<rparr>)] @ replicate 2 (1, rc_demo_in)"

lemma cancel_run:
  "map_option (\<lambda>(s, ps). label_of (ps 1)) (rc_demo_run [rc_session] rc_demo_go rc_demo_stop cancel_schedule) = Some (Some (LDelay [2]))"
  by code_simp

theorem stopped_reaches_no_device_witness:
  "\<exists>s ps. rc_reachable rc_demo_sc (two rc_demo_go rc_demo_stop) (s, ps) \<and> label_of (ps 1) = Some (LDelay [2]) \<and> exCancelled s 2"
proof -
  obtain s ps where run: "rc_demo_run [rc_session] rc_demo_go rc_demo_stop cancel_schedule = Some (s, ps)"
    and l: "label_of (ps 1) = Some (LDelay [2])"
    using cancel_run by auto
  from l obtain f where f: "ps 1 = Act (LDelay [2]) f" by (auto simp: label_of_Some)
  show ?thesis
    using stopped_reaches_no_device [OF rc_demo_run_reachable [OF run] f, of "[]" False "[2]"] l rc_demo_run_reachable [OF run]
    by auto
qed

section \<open>Starting a session twice\<close>

definition rc_demo_start :: "string \<Rightarrow> rc_call" where
  "rc_demo_start cid = CallStart \<lparr>stProjectID = ''p'', stMode = SessionRehearsal, stIssuer = ''op'', stRequestID = cid\<rparr>"

definition started :: "string \<Rightarrow> Session" where
  "started sid = \<lparr>sesID = sid, sesProjectID = ''p'', sesRuntimeSnapshotID = ''n'', sesType = SessionRehearsal,
     sesStatus = SessionActive, sesCurrentCueID = None\<rparr>"

text \<open>
  Both calls look for an active session of the project before either creates one: two sessions of one
  project are active at once, though the check is there to have at most one.
\<close>

definition start_schedule :: "(nat \<times> rc_input) list" where
  "start_schedule = replicate 6 (0, rc_demo_in) @ replicate 6 (1, rc_demo_in) @ replicate 4 (0, rc_demo_in)
     @ replicate 4 (1, rc_demo_in\<lparr>riID := ''u''\<rparr>)"

lemma start_run:
  "map_option (\<lambda>(s, ps). (edSessions (svDb s), map_option (\<lambda>r. case r of ResSession x c \<Rightarrow> resStatus c | _ \<Rightarrow> CommandFailed) (result_of (ps 0)),
        map_option (\<lambda>r. case r of ResSession x c \<Rightarrow> resStatus c | _ \<Rightarrow> CommandFailed) (result_of (ps 1))))
      (rc_demo_run [] (rc_demo_start rc_go_id) (rc_demo_start rc_stop_id) start_schedule)
    = Some ([started ''t'', started ''u''], Some CommandCompleted, Some CommandCompleted)"
  by code_simp

lemma two_active_sessions:
  "\<exists>s ps. rc_reachable rc_demo_sc (two (rc_demo_start rc_go_id) (rc_demo_start rc_stop_id)) (s, ps)
     \<and> edSessions (svDb s) = [started ''t'', started ''u'']"
  using start_run by (auto dest: rc_demo_run_reachable)

text \<open>
  \<open>reserve\<close> never reports a stored result as ours to carry out, so the branch of \<open>StartSession\<close> that would
  rebuild the session from the stored result is dead: a repeated request gets the stored COMPLETED result
  with an empty session.
\<close>

lemma reserve_cong:
  assumes "\<And>x terminal mine. \<not> (terminal \<and> mine) \<Longrightarrow> k (x, terminal, mine) = k' (x, terminal, mine)"
  shows "reserve cmd k = reserve cmd k'"
proof -
  have "(\<lambda>x. case x of
       Inl _ \<Rightarrow> k (rc_failed (ceCommandID cmd) ''COMMAND_RESERVE_FAILED'', False, False)
     | Inr (r, True) \<Rightarrow> k (completed [] [], False, True)
     | Inr (r, False) \<Rightarrow> (case StoredCommandResult r of
          Some stored \<Rightarrow> k (stored, True, False)
        | None \<Rightarrow> k (rc_rejected (rcCommandID r) ''DUPLICATE_UNRESOLVED''
            ''matching command is already accepted and will not be replayed'' (rcCommandID r), False, False)))
    = (\<lambda>x. case x of
       Inl _ \<Rightarrow> k' (rc_failed (ceCommandID cmd) ''COMMAND_RESERVE_FAILED'', False, False)
     | Inr (r, True) \<Rightarrow> k' (completed [] [], False, True)
     | Inr (r, False) \<Rightarrow> (case StoredCommandResult r of
          Some stored \<Rightarrow> k' (stored, True, False)
        | None \<Rightarrow> k' (rc_rejected (rcCommandID r) ''DUPLICATE_UNRESOLVED''
            ''matching command is already accepted and will not be replayed'' (rcCommandID r), False, False)))"
    by (rule ext) (simp add: assms split: sum.split prod.split bool.split option.split)
  then show ?thesis unfolding reserve_def by (rule arg_cong)
qed

lemma replay_run:
  "map_option (\<lambda>(s, ps). (result_of (ps 0), result_of (ps 1)))
      (rc_demo_run [] (rc_demo_start rc_go_id) (rc_demo_start rc_go_id) (replicate 10 (0, rc_demo_in) @ replicate 4 (1, rc_demo_in)))
    = Some (Some (ResSession (started ''t'') (completed rc_go_id (start_payload rc_demo_sc (started ''t'') [] []))),
            Some (ResSession zero_session (completed rc_go_id (start_payload rc_demo_sc (started ''t'') [] []))))"
  by code_simp

lemma start_replay_has_no_session:
  "\<exists>s ps r. rc_reachable rc_demo_sc (two (rc_demo_start rc_go_id) (rc_demo_start rc_go_id)) (s, ps)
     \<and> ps 0 = Ret (ResSession (started ''t'') r) \<and> ps 1 = Ret (ResSession zero_session r)
     \<and> sesID (sessionFromStoredResult rc_demo_sc r) = ''t''"
proof -
  have "sesID (sessionFromStoredResult rc_demo_sc (completed rc_go_id (start_payload rc_demo_sc (started ''t'') [] []))) = ''t''"
    by code_simp
  with replay_run show ?thesis by (auto simp: result_of_Some dest!: rc_demo_run_reachable)
qed

end
