(* ===== verification/Routing.thy ===== *)
theory Routing
  imports CommandStore CueEngine
begin

text \<open>
  Routing of inputs to outputs and cues: \<open>internal/routing/evaluator.go\<close> (conditions, transforms, the
  debouncer), \<open>internal/routing/engine.go\<close> (\<open>InjectTest\<close> down to the dispatch of every action of every
  route) and \<open>internal/routing/osc_input.go\<close>. Each use of the environment (a statement, a fresh identifier,
  the clock, the executor, the cue engine, a delay) takes one tick; \<open>route_env\<close> says what it answers
  at that tick. JSON and floating-point arithmetic are fields of the environment.
\<close>

section \<open>Values and conditions\<close>

text \<open>A decoded value; a number is its text, the members of an object are in the order of their keys.\<close>

datatype json_value =
    JvNull
  | JvBool bool
  | JvNumber string
  | JvString string
  | JvArray "json_value list"
  | JvObject "(string \<times> json_value) list"

record Condition =
  cdOperator :: string
  cdValue :: string
  cdMin :: string
  cdMax :: string

record TransformDefinition =
  tfType :: string
  tfValue :: string
  tfFactor :: "f64 option"
  tfOffset :: "f64 option"

text \<open>The decoders are \<open>None\<close> on an error; \<open>jnFloat\<close> is \<open>json.Number.Float64\<close>.\<close>

record json_env =
  jnDecode :: "string \<Rightarrow> json_value option"
  jnCondition :: "string \<Rightarrow> Condition option"
  jnTransform :: "string \<Rightarrow> TransformDefinition option"
  jnFloat :: "string \<Rightarrow> f64 option"
  jnAffine :: "f64 \<Rightarrow> f64 \<Rightarrow> f64 \<Rightarrow> f64"
  jnEncode :: "f64 \<Rightarrow> string"

definition isNullish :: "string \<Rightarrow> bool" where
  "isNullish raw = (let t = trim_space raw in t = [] \<or> t = ''null'' \<or> t = ''{}'')"

definition cloneRaw :: "string \<Rightarrow> string \<Rightarrow> string" where
  "cloneRaw raw fallback = (if raw = [] then fallback else raw)"

definition decodeValue :: "json_env \<Rightarrow> string \<Rightarrow> json_value option" where
  "decodeValue je raw = (if trim_space raw = [] then None else jnDecode je raw)"

definition numberValue :: "json_env \<Rightarrow> json_value \<Rightarrow> f64 option" where
  "numberValue je v = (case v of JvNumber n \<Rightarrow> jnFloat je n | _ \<Rightarrow> None)"

definition f64_eq :: "f64 \<Rightarrow> f64 \<Rightarrow> bool" where
  "f64_eq x y \<longleftrightarrow> \<not> is_nan x \<and> x = y"

definition f64_le :: "f64 \<Rightarrow> f64 \<Rightarrow> bool" where
  "f64_le x y \<longleftrightarrow> f64_less x y \<or> f64_eq x y"

definition valuesEqual :: "json_env \<Rightarrow> json_value \<Rightarrow> json_value \<Rightarrow> bool" where
  "valuesEqual je a b =
     (case (numberValue je a, numberValue je b) of (Some x, Some y) \<Rightarrow> f64_eq x y | _ \<Rightarrow> a = b)"

definition EvaluateCondition :: "json_env \<Rightarrow> string \<Rightarrow> string \<Rightarrow> string + bool" where
  "EvaluateCondition je def v =
     (if isNullish def then Inr True
      else case jnCondition je def of
        None \<Rightarrow> Inl ''decode route condition''
      | Some c \<Rightarrow>
        let operator = to_lower (trim_space (cdOperator c)) in
        if operator = [] then Inl ''route condition operator is required''
        else case decodeValue je v of
          None \<Rightarrow> Inl ''decode input value''
        | Some actual \<Rightarrow>
          if operator = ''equals'' then
            (case decodeValue je (cdValue c) of None \<Rightarrow> Inl ''decode equals value''
             | Some expected \<Rightarrow> Inr (valuesEqual je actual expected))
          else if operator = ''not_equals'' then
            (case decodeValue je (cdValue c) of None \<Rightarrow> Inl ''decode not_equals value''
             | Some expected \<Rightarrow> Inr (\<not> valuesEqual je actual expected))
          else if operator = ''greater_than'' \<or> operator = ''less_than'' then
            (case numberValue je actual of None \<Rightarrow> Inl (operator @ '' requires numeric input'')
             | Some x \<Rightarrow>
               (case decodeValue je (cdValue c) of None \<Rightarrow> Inl ''decode numeric comparison value''
                | Some expected \<Rightarrow>
                  (case numberValue je expected of None \<Rightarrow> Inl (operator @ '' requires numeric comparison value'')
                   | Some y \<Rightarrow> Inr (if operator = ''greater_than'' then f64_less y x else f64_less x y))))
          else if operator = ''boolean_is'' then
            (case actual of
               JvBool a \<Rightarrow>
                 (case decodeValue je (cdValue c) of None \<Rightarrow> Inl ''decode boolean comparison value''
                  | Some (JvBool b) \<Rightarrow> Inr (a = b)
                  | Some _ \<Rightarrow> Inl ''boolean_is requires boolean comparison value'')
             | _ \<Rightarrow> Inl ''boolean_is requires boolean input'')
          else if operator = ''range'' then
            (case numberValue je actual of None \<Rightarrow> Inl ''range requires numeric input''
             | Some x \<Rightarrow>
               (case decodeValue je (cdMin c) of None \<Rightarrow> Inl ''decode range min''
                | Some lo \<Rightarrow>
                  (case decodeValue je (cdMax c) of None \<Rightarrow> Inl ''decode range max''
                   | Some hi \<Rightarrow>
                     (case (numberValue je lo, numberValue je hi) of
                        (Some a, Some b) \<Rightarrow>
                          if f64_less b a then Inl ''range requires valid numeric min <= max''
                          else Inr (f64_le a x \<and> f64_le x b)
                      | _ \<Rightarrow> Inl ''range requires valid numeric min <= max''))))
          else Inl (''unsupported route condition operator '' @ cdOperator c))"

definition ApplyTransform :: "json_env \<Rightarrow> string \<Rightarrow> string \<Rightarrow> string + string" where
  "ApplyTransform je def v =
     (if isNullish def then Inr (cloneRaw v ''null'')
      else case jnTransform je def of
        None \<Rightarrow> Inl ''decode route transform''
      | Some t \<Rightarrow>
        let ty = to_lower (trim_space (tfType t)) in
        if ty = [] \<or> ty = ''identity'' then Inr (cloneRaw v ''null'')
        else if ty = ''constant'' then
          (if tfValue t = [] then Inl ''constant transform requires value''
           else case decodeValue je (tfValue t) of None \<Rightarrow> Inl ''decode constant transform value''
           | Some _ \<Rightarrow> Inr (cloneRaw (tfValue t) ''null''))
        else if ty = ''number'' then
          (case decodeValue je v of None \<Rightarrow> Inl ''decode numeric transform input''
           | Some d \<Rightarrow>
             (case numberValue je d of None \<Rightarrow> Inl ''number transform requires numeric input''
              | Some x \<Rightarrow>
                let r = jnAffine je x (case tfFactor t of None \<Rightarrow> Fin 1 | Some f \<Rightarrow> f)
                          (case tfOffset t of None \<Rightarrow> Fin 0 | Some f \<Rightarrow> f) in
                if is_nan r \<or> is_inf r then Inl ''number transform produced non-finite result'' else Inr (jnEncode je r)))
        else Inl (''unsupported route transform type '' @ tfType t))"

section \<open>The debouncer\<close>

type_synonym debouncer = "string \<Rightarrow> time option"

definition Accept :: "string \<Rightarrow> time \<Rightarrow> duration \<Rightarrow> debouncer \<Rightarrow> debouncer \<times> bool" where
  "Accept routeID now window d =
     (if window \<le> 0 then (d, True)
      else case d routeID of
        Some t \<Rightarrow> if now < t + window then (d, False) else (d(routeID \<mapsto> now), True)
      | None \<Rightarrow> (d(routeID \<mapsto> now), True))"

section \<open>The manifest\<close>

record RouteInput =
  inID :: string
  inName :: string
  inSourceRef :: string
  inEventType :: string
  inEnabled :: bool

record RouteOutput =
  outID :: string
  outTargetRef :: string
  outCapabilityKey :: string
  outCriticality :: string

record RouteAction =
  raID :: string
  raOutputID :: "string option"
  raCueID :: "string option"
  raParameters :: string

record Route =
  rtID :: string
  rtName :: string
  rtInputID :: string
  rtCondition :: string
  rtTransform :: string
  rtDelayMS :: "int option"
  rtDebounceMS :: "int option"
  rtPriorityClass :: string
  rtEnabled :: bool
  rtActions :: "RouteAction list"

record RouteManifest =
  rmTargets :: "CapTarget list"
  rmCues :: "Cue list"
  rmInputs :: "RouteInput list"
  rmOutputs :: "RouteOutput list"
  rmRoutes :: "Route list"

definition ResolveInput :: "RouteManifest \<Rightarrow> string \<Rightarrow> RouteInput option" where
  "ResolveInput m i = find (\<lambda>x. inID x = i) (rmInputs m)"

definition ResolveOutput :: "RouteManifest \<Rightarrow> string \<Rightarrow> RouteOutput option" where
  "ResolveOutput m i = find (\<lambda>x. outID x = i) (rmOutputs m)"

definition resolveCue :: "RouteManifest \<Rightarrow> string \<Rightarrow> Cue option" where
  "resolveCue m i = find (\<lambda>c. cueID c = i) (rmCues m)"

definition resolvedCapabilityTarget :: "RouteManifest \<Rightarrow> string \<Rightarrow> CapTarget option" where
  "resolvedCapabilityTarget m ref =
     map_option (\<lambda>t. t\<lparr>ctConfiguration := cloneRaw (ctConfiguration t) ''{}''\<rparr>) (find (\<lambda>t. ctRef t = ref) (rmTargets m))"

definition isCritical :: "string \<Rightarrow> bool" where
  "isCritical criticality =
     (let c = to_upper (trim_space criticality) in c = ''CRITICAL'' \<or> c = ''SAFETY_CRITICAL'')"

datatype target_kind = KindOutput | KindCue

record criticalRouteTarget =
  ctActionID :: string
  ctKind :: target_kind
  ctTargetID :: string
  ctCriticality :: string

definition critical_target :: "RouteManifest \<Rightarrow> RouteAction \<Rightarrow> criticalRouteTarget option" where
  "critical_target m a =
     (case Option.bind (raOutputID a) (ResolveOutput m) of
        Some out \<Rightarrow>
          if isCritical (outCriticality out)
          then Some \<lparr>ctActionID = raID a, ctKind = KindOutput, ctTargetID = outID out, ctCriticality = outCriticality out\<rparr>
          else (case Option.bind (raCueID a) (resolveCue m) of
            Some c \<Rightarrow> if isCritical (cueCriticality c)
              then Some \<lparr>ctActionID = raID a, ctKind = KindCue, ctTargetID = cueID c, ctCriticality = cueCriticality c\<rparr> else None
          | None \<Rightarrow> None)
      | None \<Rightarrow>
          (case Option.bind (raCueID a) (resolveCue m) of
            Some c \<Rightarrow> if isCritical (cueCriticality c)
              then Some \<lparr>ctActionID = raID a, ctKind = KindCue, ctTargetID = cueID c, ctCriticality = cueCriticality c\<rparr> else None
          | None \<Rightarrow> None))"

fun first_critical :: "RouteManifest \<Rightarrow> RouteAction list \<Rightarrow> criticalRouteTarget option" where
  "first_critical m [] = None"
| "first_critical m (a # as) = (case critical_target m a of Some t \<Rightarrow> Some t | None \<Rightarrow> first_critical m as)"

definition firstCriticalRouteTarget :: "RouteManifest \<Rightarrow> Route \<Rightarrow> criticalRouteTarget option" where
  "firstCriticalRouteTarget m route = first_critical m (rtActions route)"

section \<open>State and environment\<close>

datatype inputOrigin = inputOriginTest | inputOriginOSC

record InjectTestPayload =
  ipInputID :: string
  ipValue :: string
  ipConfirmCritical :: bool

text \<open>What was handed to the executor and to the cue engine, and what they answered.\<close>

datatype dispatch = SentOutput string CapRequest CapResult | SentCue string CommandEnvelope CommandResult

datatype field =
    FText string | FRaw string | FBool bool | FInt int
  | FResult ExecutionResult | FAck AckLevel | FStatus CommandStatus

record RouteEvent =
  reID :: string
  reType :: string
  reCausation :: string
  rePayload :: "(string \<times> field) list"

record route_state =
  rsTick :: nat
  rsCommands :: command_table
  rsDebounce :: debouncer
  rsEvents :: "RouteEvent list"
  rsSent :: "dispatch list"

record route_env =
  rnJson :: json_env
  rnAvailable :: bool
  rnSql :: "nat \<Rightarrow> sql"
  rnNewID :: "nat \<Rightarrow> string option"
  rnNow :: "nat \<Rightarrow> time"
  rnErr :: "nat \<Rightarrow> string"
  rnSession :: "nat \<Rightarrow> Session option"
  rnSnapshot :: "nat \<Rightarrow> (bool \<times> string) option"
  rnManifest :: "string \<Rightarrow> RouteManifest option"
  rnPayload :: "string \<Rightarrow> InjectTestPayload option"
  rnMarshalGo :: "CueGoPayload \<Rightarrow> string"
  rnMarshal :: "(string \<times> field) list \<Rightarrow> string"
  rnExecute :: "nat \<Rightarrow> CapResult"
  rnCueGo :: "nat \<Rightarrow> CommandResult"
  rnDelay :: "nat \<Rightarrow> string option"
  rnMarshalValue :: "json_value \<Rightarrow> string option"
  rnMarshalInput :: "InjectTestPayload \<Rightarrow> string"

definition tick :: "route_state \<Rightarrow> route_state" where
  "tick s = s\<lparr>rsTick := Suc (rsTick s)\<rparr>"

record routeFailure =
  rfCode :: string
  rfCategory :: string
  rfMessage :: string

definition route_failure :: "string \<Rightarrow> string \<Rightarrow> string \<Rightarrow> routeFailure option" where
  "route_failure code category message = Some \<lparr>rfCode = code, rfCategory = category, rfMessage = message\<rparr>"

text \<open>\<open>emit\<close> appends an event; an error is its text.\<close>

definition emit :: "route_env \<Rightarrow> string \<Rightarrow> string \<Rightarrow> (string \<times> field) list \<Rightarrow> route_state \<Rightarrow> route_state \<times> (string + string)" where
  "emit env eventType causation payload s =
     (let n = rsTick s; s1 = tick s in
      case rnNewID env n of
        None \<Rightarrow> (s1, Inl (rnErr env n))
      | Some i \<Rightarrow>
        if rnSql env n = SqlFail then (s1, Inl (rnErr env n))
        else (s1\<lparr>rsEvents := rsEvents s1 @ [\<lparr>reID = i, reType = eventType, reCausation = causation, rePayload = payload\<rparr>]\<rparr>,
              if rnSql env n = SqlOk then Inr i else Inl (rnErr env n)))"

definition routeTrace :: "Route \<Rightarrow> string \<Rightarrow> string option \<Rightarrow> bool \<Rightarrow> string \<Rightarrow> string \<Rightarrow> (string \<times> field) list" where
  "routeTrace route v transformed matched disposition errorCode =
     [(''route_id'', FText (rtID route)), (''route_name'', FText (rtName route)), (''input_id'', FText (rtInputID route)),
      (''input_value'', FRaw v), (''condition_result'', FBool matched), (''disposition'', FText disposition)]
     @ (case transformed of None \<Rightarrow> [] | Some t \<Rightarrow> [(''transformed_value'', FRaw t)])
     @ (if errorCode \<noteq> [] then [(''error_code'', FText errorCode)] else [])"

definition emitRouteFailure :: "route_env \<Rightarrow> string \<Rightarrow> Route \<Rightarrow> string \<Rightarrow> string \<Rightarrow> route_state \<Rightarrow> route_state" where
  "emitRouteFailure env causation route code message s =
     fst (emit env ''route.failed'' causation
       [(''route_id'', FText (rtID route)), (''route_name'', FText (rtName route)), (''error_code'', FText code),
        (''message'', FText message), (''disposition'', FText ''FAILED'')] s)"

section \<open>Dispatching the actions of a route\<close>

definition confirmation_missing :: "string \<Rightarrow> string \<Rightarrow> string \<Rightarrow> string \<Rightarrow> string \<Rightarrow> (string \<times> field) list" where
  "confirmation_missing routeID actionID key targetID criticality =
     [(''route_id'', FText routeID), (''route_action_id'', FText actionID), (key, FText targetID),
      (''criticality'', FText criticality), (''error_code'', FText ''SAFETY_CONFIRMATION_REQUIRED''), (''result'', FText ''REJECTED'')]"

definition dispatchOutput :: "route_env \<Rightarrow> CommandEnvelope \<Rightarrow> RouteManifest \<Rightarrow> string \<Rightarrow> Route \<Rightarrow> RouteAction \<Rightarrow> string \<Rightarrow> string \<Rightarrow> bool
    \<Rightarrow> route_state \<Rightarrow> route_state \<times> routeFailure option" where
  "dispatchOutput env cmd m causation route a oid transformed allowCritical s =
     (case ResolveOutput m oid of
        None \<Rightarrow>
          let message = ''route output is not present in Runtime Snapshot'' in
          (emitRouteFailure env causation route ''OUTPUT_NOT_FOUND'' message s, route_failure ''OUTPUT_NOT_FOUND'' ''VALIDATION'' message)
      | Some out \<Rightarrow>
        if \<not> allowCritical \<and> isCritical (outCriticality out)
        then (fst (emit env ''route.action.failed'' causation
                (confirmation_missing (rtID route) (raID a) ''output_id'' (outID out) (outCriticality out)) s),
              route_failure ''SAFETY_CONFIRMATION_REQUIRED'' ''SAFETY_BLOCK''
                ''critical Route output requires explicit confirmation for test input'')
        else case rnNewID env (rsTick s) of
          None \<Rightarrow> (tick s, route_failure ''ROUTE_EXECUTION_ID_FAILED'' ''INTERNAL'' (rnErr env (rsTick s)))
        | Some executionID \<Rightarrow>
          let s1 = tick s;
              parameters = (if isNullish (raParameters a) then transformed else raParameters a);
              started = rnNow env (rsTick s1);
              s2 = tick s1;
              request = \<lparr>crExecutionID = executionID, crProjectID = [], crSessionID = [],
                crRuntimeSnapshotID = ceRuntimeSnapshotID cmd, crIssuer = [], crCausationID = [],
                crCapability = outCapabilityKey out, crTarget = resolvedCapabilityTarget m (outTargetRef out),
                crParameters = parameters, crPriority = rtPriorityClass route, crTimeoutMS = 0,
                crCorrelationID = ceCorrelationID cmd\<rparr>;
              result = rnExecute env (rsTick s2);
              s3 = (tick s2)\<lparr>rsSent := rsSent s2 @ [SentOutput (outID out) request result]\<rparr>;
              latencyMS = max 0 (quot (time_sub (rnNow env (rsTick s3)) started) 1000000);
              s4 = tick s3;
              failed = cpResult result \<noteq> ExecutionCompleted
          in case emit env (if failed then ''route.action.failed'' else ''route.action.completed'') causation
                 [(''route_id'', FText (rtID route)), (''route_action_id'', FText (raID a)), (''execution_id'', FText executionID),
                  (''output_id'', FText (outID out)), (''capability_key'', FText (outCapabilityKey out)),
                  (''target_ref'', FText (outTargetRef out)), (''result'', FResult (cpResult result)),
                  (''ack_level'', FAck (cpAckLevel result)), (''latency_ms'', FInt latencyMS),
                  (''response_summary'', FText (cpResponseSummary result)), (''error_code'', FText (cpErrorCode result))] s4 of
               (s5, Inl e) \<Rightarrow> (s5, route_failure ''ROUTE_TRACE_FAILED'' ''INTERNAL'' e)
             | (s5, Inr _) \<Rightarrow>
                 (s5, if failed
                      then route_failure (if cpErrorCode result = [] then ''ROUTE_OUTPUT_FAILED'' else cpErrorCode result)
                             ''EXECUTION'' (cpResponseSummary result)
                      else None))"

definition dispatchCue :: "route_env \<Rightarrow> CommandEnvelope \<Rightarrow> RouteManifest \<Rightarrow> string \<Rightarrow> Route \<Rightarrow> RouteAction \<Rightarrow> string \<Rightarrow> bool
    \<Rightarrow> route_state \<Rightarrow> route_state \<times> routeFailure option" where
  "dispatchCue env cmd m causation route a cid allowCritical s =
     (case resolveCue m cid of
        None \<Rightarrow>
          let message = ''route Cue is not present in Runtime Snapshot'' in
          (emitRouteFailure env causation route ''CUE_NOT_FOUND'' message s, route_failure ''CUE_NOT_FOUND'' ''VALIDATION'' message)
      | Some cue \<Rightarrow>
        if \<not> allowCritical \<and> isCritical (cueCriticality cue)
        then (fst (emit env ''route.action.failed'' causation
                (confirmation_missing (rtID route) (raID a) ''cue_id'' (cueID cue) (cueCriticality cue)) s),
              route_failure ''SAFETY_CONFIRMATION_REQUIRED'' ''SAFETY_BLOCK''
                ''critical Route Cue requires explicit confirmation for test input'')
        else case rnNewID env (rsTick s) of
          None \<Rightarrow> (tick s, route_failure ''ROUTE_CUE_COMMAND_ID_FAILED'' ''INTERNAL'' (rnErr env (rsTick s)))
        | Some commandID \<Rightarrow>
          let s1 = tick s;
              now = rnNow env (rsTick s1);
              s2 = tick s1;
              cueCommand = \<lparr>ceCommandID = commandID, ceCommandType = CueGoCommandType, ceSchemaVersion = SchemaVersion1,
                ceIssuedAt = now, ceDeadlineAt = None, ceProjectID = ceProjectID cmd,
                ceRuntimeSnapshotID = ceRuntimeSnapshotID cmd, ceIssuer = ''route:'' @ rtID route,
                ceCorrelationID = ceCorrelationID cmd, ceCausationID = causation, cePriority = ''P1'',
                ceIdempotencyKey = ceCommandID cmd @ '':'' @ raID a,
                cePayload = rnMarshalGo env \<lparr>ExpectedCurrentCueID = None, RequestedNextCueID = Some cid, OperatorNote = None\<rparr>\<rparr>;
              result = rnCueGo env (rsTick s2);
              s3 = (tick s2)\<lparr>rsSent := rsSent s2 @ [SentCue cid cueCommand result]\<rparr>;
              failed = resStatus result \<noteq> CommandCompleted
          in case emit env (if failed then ''route.action.failed'' else ''route.action.completed'') causation
                 [(''route_id'', FText (rtID route)), (''route_action_id'', FText (raID a)), (''cue_id'', FText cid),
                  (''command_id'', FText commandID), (''command_status'', FStatus (resStatus result))] s3 of
               (s4, Inl e) \<Rightarrow> (s4, route_failure ''ROUTE_TRACE_FAILED'' ''INTERNAL'' e)
             | (s4, Inr _) \<Rightarrow>
                 (s4, if \<not> failed then None
                      else case resError result of
                        None \<Rightarrow> route_failure ''ROUTE_CUE_FAILED'' ''EXECUTION'' ''routed cue command failed''
                      | Some e \<Rightarrow> route_failure (if errCode e = [] then ''ROUTE_CUE_FAILED'' else errCode e) ''EXECUTION'' (errMessage e)))"

fun dispatch_actions :: "route_env \<Rightarrow> CommandEnvelope \<Rightarrow> RouteManifest \<Rightarrow> string \<Rightarrow> Route \<Rightarrow> string \<Rightarrow> bool \<Rightarrow> RouteAction list
    \<Rightarrow> route_state \<Rightarrow> route_state \<times> routeFailure option" where
  "dispatch_actions env cmd m causation route transformed allowCritical [] s = (s, None)"
| "dispatch_actions env cmd m causation route transformed allowCritical (a # as) s =
     (case (case raOutputID a of
              Some oid \<Rightarrow> dispatchOutput env cmd m causation route a oid transformed allowCritical s
            | None \<Rightarrow>
              (case raCueID a of
                 Some cid \<Rightarrow> dispatchCue env cmd m causation route a cid allowCritical s
               | None \<Rightarrow> (s, route_failure ''ROUTE_ACTION_INVALID'' ''VALIDATION'' ''route action has no output or cue target''))) of
        (s', Some f) \<Rightarrow> (s', Some f)
      | (s', None) \<Rightarrow> dispatch_actions env cmd m causation route transformed allowCritical as s')"

section \<open>Evaluating a route\<close>

definition blockCriticalTestRoute :: "route_env \<Rightarrow> string \<Rightarrow> Route \<Rightarrow> string \<Rightarrow> string \<Rightarrow> criticalRouteTarget
    \<Rightarrow> route_state \<Rightarrow> route_state \<times> routeFailure option" where
  "blockCriticalTestRoute env inputEventID route v transformed t s =
     (case emit env ''route.evaluated'' inputEventID
             (routeTrace route v (Some transformed) True ''SAFETY_BLOCKED'' ''SAFETY_CONFIRMATION_REQUIRED'') s of
        (s1, Inl e) \<Rightarrow> (s1, route_failure ''ROUTE_TRACE_FAILED'' ''INTERNAL'' e)
      | (s1, Inr _) \<Rightarrow>
        (case emit env ''route.action.failed'' inputEventID
                (confirmation_missing (rtID route) (ctActionID t)
                  (if ctKind t = KindOutput then ''output_id'' else ''cue_id'') (ctTargetID t) (ctCriticality t)) s1 of
           (s2, Inl e) \<Rightarrow> (s2, route_failure ''ROUTE_TRACE_FAILED'' ''INTERNAL'' e)
         | (s2, Inr _) \<Rightarrow> (s2, None)))"

text \<open>A route that is not triggered leaves a trace of why.\<close>

definition not_triggered :: "route_env \<Rightarrow> string \<Rightarrow> Route \<Rightarrow> string \<Rightarrow> string option \<Rightarrow> bool \<Rightarrow> string
    \<Rightarrow> route_state \<Rightarrow> route_state \<times> bool \<times> routeFailure option" where
  "not_triggered env inputEventID route v transformed matched disposition s =
     (case emit env ''route.evaluated'' inputEventID (routeTrace route v transformed matched disposition []) s of
        (s1, Inl e) \<Rightarrow> (s1, False, route_failure ''ROUTE_TRACE_FAILED'' ''INTERNAL'' e)
      | (s1, Inr _) \<Rightarrow> (s1, False, None))"

definition trigger_route :: "route_env \<Rightarrow> CommandEnvelope \<Rightarrow> RouteManifest \<Rightarrow> string \<Rightarrow> Route \<Rightarrow> string \<Rightarrow> string \<Rightarrow> bool
    \<Rightarrow> route_state \<Rightarrow> route_state \<times> bool \<times> routeFailure option" where
  "trigger_route env cmd m inputEventID route v transformed allowCritical s =
     (case emit env ''route.triggered'' inputEventID (routeTrace route v (Some transformed) True ''TRIGGERED'' []) s of
        (s1, Inl e) \<Rightarrow> (s1, False, route_failure ''ROUTE_TRACE_FAILED'' ''INTERNAL'' e)
      | (s1, Inr triggerID) \<Rightarrow>
        (case dispatch_actions env cmd m triggerID route transformed allowCritical (rtActions route) s1 of
           (s2, f) \<Rightarrow> (s2, True, f)))"

definition delay_route :: "route_env \<Rightarrow> CommandEnvelope \<Rightarrow> RouteManifest \<Rightarrow> string \<Rightarrow> Route \<Rightarrow> string \<Rightarrow> string \<Rightarrow> bool
    \<Rightarrow> route_state \<Rightarrow> route_state \<times> bool \<times> routeFailure option" where
  "delay_route env cmd m inputEventID route v transformed allowCritical s =
     (case rtDelayMS route of
        Some d \<Rightarrow>
          if d > 0
          then case rnDelay env (rsTick s) of
            Some e \<Rightarrow> (emitRouteFailure env inputEventID route ''ROUTE_CANCELLED'' e (tick s), False, route_failure ''ROUTE_CANCELLED'' ''CANCELLED'' e)
          | None \<Rightarrow> trigger_route env cmd m inputEventID route v transformed allowCritical (tick s)
          else trigger_route env cmd m inputEventID route v transformed allowCritical s
      | None \<Rightarrow> trigger_route env cmd m inputEventID route v transformed allowCritical s)"

definition debounce_route :: "route_env \<Rightarrow> CommandEnvelope \<Rightarrow> RouteManifest \<Rightarrow> string \<Rightarrow> Route \<Rightarrow> string \<Rightarrow> string \<Rightarrow> bool
    \<Rightarrow> route_state \<Rightarrow> route_state \<times> bool \<times> routeFailure option" where
  "debounce_route env cmd m inputEventID route v transformed allowCritical s =
     (case rtDebounceMS route of
        Some w \<Rightarrow>
          if w > 0
          then case Accept (rtID route) (rnNow env (rsTick s)) (wrap64 (w * 1000000)) (rsDebounce s) of
            (d, accepted) \<Rightarrow>
              let s1 = (tick s)\<lparr>rsDebounce := d\<rparr> in
              if \<not> accepted then not_triggered env inputEventID route v (Some transformed) True ''DEBOUNCED'' s1
              else delay_route env cmd m inputEventID route v transformed allowCritical s1
          else delay_route env cmd m inputEventID route v transformed allowCritical s
      | None \<Rightarrow> delay_route env cmd m inputEventID route v transformed allowCritical s)"

definition evaluateRoute :: "route_env \<Rightarrow> CommandEnvelope \<Rightarrow> RouteManifest \<Rightarrow> string \<Rightarrow> Route \<Rightarrow> string \<Rightarrow> bool
    \<Rightarrow> route_state \<Rightarrow> route_state \<times> bool \<times> routeFailure option" where
  "evaluateRoute env cmd m inputEventID route v allowCritical s =
     (if \<not> rtEnabled route then not_triggered env inputEventID route v None False ''DISABLED'' s
      else case EvaluateCondition (rnJson env) (rtCondition route) v of
        Inl e \<Rightarrow> (emitRouteFailure env inputEventID route ''ROUTE_CONDITION_INVALID'' e s, False,
                  route_failure ''ROUTE_CONDITION_INVALID'' ''VALIDATION'' e)
      | Inr False \<Rightarrow> not_triggered env inputEventID route v None False ''NOT_MATCHED'' s
      | Inr True \<Rightarrow>
        (case ApplyTransform (rnJson env) (rtTransform route) v of
           Inl e \<Rightarrow> (emitRouteFailure env inputEventID route ''ROUTE_TRANSFORM_INVALID'' e s, False,
                     route_failure ''ROUTE_TRANSFORM_INVALID'' ''VALIDATION'' e)
         | Inr transformed \<Rightarrow>
           (case (if allowCritical then None else firstCriticalRouteTarget m route) of
              Some t \<Rightarrow>
                (case blockCriticalTestRoute env inputEventID route v transformed t s of
                   (s1, Some f) \<Rightarrow> (s1, False, Some f)
                 | (s1, None) \<Rightarrow> (s1, False, route_failure ''SAFETY_CONFIRMATION_REQUIRED'' ''SAFETY_BLOCK''
                     ''critical Route target requires explicit confirmation for test input''))
            | None \<Rightarrow> debounce_route env cmd m inputEventID route v transformed allowCritical s)))"

section \<open>Injecting an input\<close>

definition commandFailure :: "string \<Rightarrow> string \<Rightarrow> string \<Rightarrow> string \<Rightarrow> string \<Rightarrow> CommandResult" where
  "commandFailure commandID code category message affected =
     \<lparr>resCommandID = commandID,
      resStatus = (if category = ''VALIDATION'' \<or> category = ''SNAPSHOT_MISMATCH'' \<or> category = ''SAFETY_BLOCK'' then CommandRejected
        else if category = ''CANCELLED'' then CommandCancelled
        else if category = ''TIMEOUT'' then CommandTimedOut else CommandFailed),
      resPayload = [],
      resError = Some \<lparr>errCode = code, errCategory = category, errMessage = message, errRetryable = False,
        errAffectedEntityID = affected\<rparr>\<rparr>"

text \<open>The loop over the routes: how many were evaluated and triggered, or the failure that ended it.\<close>

fun run_routes :: "route_env \<Rightarrow> CommandEnvelope \<Rightarrow> RouteManifest \<Rightarrow> string \<Rightarrow> string \<Rightarrow> string \<Rightarrow> bool \<Rightarrow> Route list \<Rightarrow> nat \<Rightarrow> nat
    \<Rightarrow> route_state \<Rightarrow> route_state \<times> (string \<times> routeFailure + nat \<times> nat)" where
  "run_routes env cmd m inputEventID inputID v allowCritical [] evaluated triggered s = (s, Inr (evaluated, triggered))"
| "run_routes env cmd m inputEventID inputID v allowCritical (r # rs) evaluated triggered s =
     (if rtInputID r \<noteq> inputID then run_routes env cmd m inputEventID inputID v allowCritical rs evaluated triggered s
      else case evaluateRoute env cmd m inputEventID r v allowCritical s of
        (s', was, Some f) \<Rightarrow> (s', Inl (rtID r, f))
      | (s', was, None) \<Rightarrow>
          run_routes env cmd m inputEventID inputID v allowCritical rs (Suc evaluated) (if was then Suc triggered else triggered) s')"

definition origin_text :: "inputOrigin \<Rightarrow> string" where
  "origin_text origin = (case origin of inputOriginTest \<Rightarrow> ''TEST'' | inputOriginOSC \<Rightarrow> ''OSC'')"

definition execute_input :: "route_env \<Rightarrow> CommandEnvelope \<Rightarrow> inputOrigin \<Rightarrow> RouteManifest \<Rightarrow> route_state \<Rightarrow> route_state \<times> CommandResult" where
  "execute_input env cmd origin m s =
     (let cid = ceCommandID cmd in
      case rnPayload env (cePayload cmd) of
        None \<Rightarrow> (s, commandFailure cid ''INVALID_INPUT_PAYLOAD'' ''VALIDATION'' ''input.inject_test requires input_id and JSON value'' [])
      | Some p \<Rightarrow>
        if trim_space (ipInputID p) = [] \<or> trim_space (ipValue p) = []
        then (s, commandFailure cid ''INVALID_INPUT_PAYLOAD'' ''VALIDATION'' ''input.inject_test requires input_id and JSON value'' [])
        else case ResolveInput m (ipInputID p) of
          None \<Rightarrow> (s, commandFailure cid ''INPUT_NOT_FOUND'' ''VALIDATION'' ''input is not present in Runtime Snapshot'' (ipInputID p))
        | Some inp \<Rightarrow>
          if \<not> inEnabled inp
          then (s, commandFailure cid ''INPUT_DISABLED'' ''VALIDATION'' ''input is disabled in Runtime Snapshot'' (inID inp))
          else case emit env ''input.received'' cid
                 [(''input_id'', FText (inID inp)), (''name'', FText (inName inp)), (''source'', FText (origin_text origin)),
                  (''value'', FRaw (ipValue p))] s of
            (s1, Inl e) \<Rightarrow> (s1, commandFailure cid ''INPUT_EVENT_FAILED'' ''INTERNAL'' e (inID inp))
          | (s1, Inr eventID) \<Rightarrow>
            (case run_routes env cmd m eventID (inID inp) (ipValue p) (origin \<noteq> inputOriginTest \<or> ipConfirmCritical p) (rmRoutes m) 0 0 s1 of
               (s2, Inl (routeID, f)) \<Rightarrow> (s2, commandFailure cid (rfCode f) (rfCategory f) (rfMessage f) routeID)
             | (s2, Inr (evaluated, triggered)) \<Rightarrow>
                 (s2, \<lparr>resCommandID = cid, resStatus = CommandCompleted,
                       resPayload = rnMarshal env [(''input_event_id'', FText eventID), (''input_id'', FText (inID inp)),
                         (''routes_evaluated'', FInt (int evaluated)), (''routes_triggered'', FInt (int triggered))],
                       resError = None\<rparr>)))"

definition route_executeReserved :: "route_env \<Rightarrow> string \<Rightarrow> CommandEnvelope \<Rightarrow> inputOrigin \<Rightarrow> route_state \<Rightarrow> route_state \<times> CommandResult" where
  "route_executeReserved env sessionID cmd origin s =
     (let cid = ceCommandID cmd in
      if \<not> rnAvailable env then (s, commandFailure cid ''ROUTING_UNAVAILABLE'' ''INTERNAL'' ''routing engine is unavailable'' [])
      else case rnSession env (rsTick s) of
        None \<Rightarrow> (tick s, commandFailure cid ''SESSION_NOT_FOUND'' ''VALIDATION'' ''session not found'' sessionID)
      | Some session \<Rightarrow>
        let s1 = tick s in
        if sesStatus session \<noteq> SessionActive
        then (s1, commandFailure cid ''SESSION_NOT_ACTIVE'' ''VALIDATION'' ''session is not active'' sessionID)
        else if sesProjectID session \<noteq> ceProjectID cmd
        then (s1, commandFailure cid ''PROJECT_MISMATCH'' ''VALIDATION'' ''command project does not match session'' (ceProjectID cmd))
        else if sesRuntimeSnapshotID session \<noteq> ceRuntimeSnapshotID cmd
        then (s1, commandFailure cid ''SNAPSHOT_MISMATCH'' ''SNAPSHOT_MISMATCH'' ''command snapshot does not match session'' (ceRuntimeSnapshotID cmd))
        else case rnSnapshot env (rsTick s1) of
          Some (True, raw) \<Rightarrow>
            (case rnManifest env raw of
               None \<Rightarrow> (tick s1, commandFailure cid ''SNAPSHOT_DECODE_FAILED'' ''INTERNAL'' (rnErr env (rsTick s1)) (ceRuntimeSnapshotID cmd))
             | Some m \<Rightarrow> execute_input env cmd origin m (tick s1))
        | _ \<Rightarrow> (tick s1, commandFailure cid ''SNAPSHOT_NOT_PUBLISHED'' ''SNAPSHOT_MISMATCH'' ''published runtime snapshot is required'' (ceRuntimeSnapshotID cmd)))"

definition InputInjectTestCommandType :: string where
  "InputInjectTestCommandType = ''input.inject_test''"

definition validateInjectEnvelope :: "time \<Rightarrow> CommandEnvelope \<Rightarrow> CommandResult option" where
  "validateInjectEnvelope now cmd =
     (if ceCommandType cmd \<noteq> InputInjectTestCommandType
      then Some (commandFailure (ceCommandID cmd) ''COMMAND_TYPE_INVALID'' ''VALIDATION'' ''expected input.inject_test command'' (ceCommandType cmd))
      else if ceCommandID cmd = [] \<or> ceSchemaVersion cmd \<noteq> SchemaVersion1 \<or> ceProjectID cmd = [] \<or> ceRuntimeSnapshotID cmd = [] \<or> ceIssuer cmd = []
      then Some (commandFailure (ceCommandID cmd) ''COMMAND_ENVELOPE_INVALID'' ''VALIDATION''
             ''command id, schema, project, snapshot and issuer are required'' [])
      else case ceDeadlineAt cmd of
        Some d \<Rightarrow> if d < now then Some (commandFailure (ceCommandID cmd) ''COMMAND_DEADLINE_EXCEEDED'' ''TIMEOUT''
                     ''command deadline already expired'' (ceCommandID cmd)) else None
      | None \<Rightarrow> None)"

text \<open>\<open>ReserveCommand\<close>; the result is the record and whether it is new, or the error.\<close>

definition route_reserve :: "route_env \<Rightarrow> CommandEnvelope \<Rightarrow> route_state \<Rightarrow> route_state \<times> (string + CommandRecord \<times> bool)" where
  "route_reserve env cmd s =
     (let n = rsTick s; s1 = tick (tick s) in
      case FindCommandRecord (rnSql env n) (rnSql env (Suc n)) cmd (rsCommands s) of
        Inl _ \<Rightarrow> (s1, Inl (rnErr env n))
      | Inr (Some r) \<Rightarrow> (s1, Inr (r, False))
      | Inr None \<Rightarrow>
        let row = new_record (rnNow env (rsTick s1)) cmd in
        (case insert_record (rnSql env (rsTick s1)) row (rsCommands s1) of
           (db, True) \<Rightarrow> ((tick s1)\<lparr>rsCommands := db\<rparr>, Inr (row, True))
         | (db, False) \<Rightarrow>
             let s2 = (tick s1)\<lparr>rsCommands := db\<rparr>; k = rsTick s2 in
             (case FindCommandRecord (rnSql env k) (rnSql env (Suc k)) cmd db of
                Inr (Some r) \<Rightarrow> (tick (tick s2), Inr (r, False))
              | _ \<Rightarrow> (tick (tick s2), Inl (rnErr env k)))))"

definition inject :: "route_env \<Rightarrow> string \<Rightarrow> CommandEnvelope \<Rightarrow> inputOrigin \<Rightarrow> route_state \<Rightarrow> route_state \<times> CommandResult" where
  "inject env sessionID command origin s =
     (let cid = ceCommandID command in
      case validateInjectEnvelope (rnNow env (rsTick s)) command of
        Some result \<Rightarrow> (tick s, result)
      | None \<Rightarrow>
        (case route_reserve env command (tick s) of
           (s1, Inl e) \<Rightarrow> (s1, commandFailure cid ''COMMAND_RESERVE_FAILED'' ''INTERNAL'' e [])
         | (s1, Inr (record, False)) \<Rightarrow>
             (s1, case StoredCommandResult record of
                Some stored \<Rightarrow> stored
              | None \<Rightarrow> commandFailure cid ''DUPLICATE_UNRESOLVED'' ''VALIDATION'' ''input command is already accepted but unresolved'' cid)
         | (s1, Inr (record, True)) \<Rightarrow>
             let cmd = (if ceCorrelationID command = [] then command\<lparr>ceCorrelationID := rcCorrelationID record\<rparr> else command) in
             (case route_executeReserved env sessionID cmd origin s1 of
                (s2, result) \<Rightarrow>
                  (case FinishCommand (rnSql env (rsTick s2)) (rnNow env (rsTick s2)) cid result (rsCommands s2) of
                     (db, r) \<Rightarrow> ((tick s2)\<lparr>rsCommands := db\<rparr>,
                       case r of Inl _ \<Rightarrow> commandFailure cid ''COMMAND_FINISH_FAILED'' ''INTERNAL'' (rnErr env (rsTick s2)) cid | Inr _ \<Rightarrow> result)))))"

definition InjectTest :: "route_env \<Rightarrow> string \<Rightarrow> CommandEnvelope \<Rightarrow> route_state \<Rightarrow> route_state \<times> CommandResult" where
  "InjectTest env sessionID command s = inject env sessionID command inputOriginTest s"

section \<open>OSC input\<close>

definition oscInputMatches :: "string \<Rightarrow> RouteInput \<Rightarrow> bool" where
  "oscInputMatches address inp =
     (let ty = to_lower (trim_space (inEventType inp)); source = trim_space (inSourceRef inp) in
      inEnabled inp \<and> (ty = ''osc.message'' \<or> ty = ''osc.input'') \<and> (source = address \<or> source = ''osc:'' @ address))"

definition oscInputValue :: "route_env \<Rightarrow> json_value list \<Rightarrow> string option" where
  "oscInputValue env arguments =
     rnMarshalValue env (case arguments of [] \<Rightarrow> JvBool True | [a] \<Rightarrow> a | _ \<Rightarrow> JvArray arguments)"

definition osc_command :: "route_env \<Rightarrow> string \<Rightarrow> Session \<Rightarrow> string \<Rightarrow> string \<Rightarrow> RouteInput \<Rightarrow> CommandEnvelope" where
  "osc_command env commandID session address v inp =
     \<lparr>ceCommandID = commandID, ceCommandType = InputInjectTestCommandType, ceSchemaVersion = SchemaVersion1,
      ceIssuedAt = zero_time, ceDeadlineAt = None, ceProjectID = sesProjectID session,
      ceRuntimeSnapshotID = sesRuntimeSnapshotID session, ceIssuer = ''stagecore.osc:'' @ address, ceCorrelationID = commandID,
      ceCausationID = [], cePriority = ''P2'', ceIdempotencyKey = [],
      cePayload = rnMarshalInput env \<lparr>ipInputID = inID inp, ipValue = v, ipConfirmCritical = False\<rparr>\<rparr>"

text \<open>One command per matching input; a failing identifier ends the loop with the results so far.\<close>

fun osc_inputs :: "route_env \<Rightarrow> Session \<Rightarrow> string \<Rightarrow> string \<Rightarrow> RouteInput list \<Rightarrow> CommandResult list
    \<Rightarrow> route_state \<Rightarrow> route_state \<times> CommandResult list \<times> string option" where
  "osc_inputs env session address v [] results s = (s, results, None)"
| "osc_inputs env session address v (inp # inputs) results s =
     (if \<not> oscInputMatches address inp then osc_inputs env session address v inputs results s
      else case rnNewID env (rsTick s) of
        None \<Rightarrow> (tick s, results, Some (rnErr env (rsTick s)))
      | Some commandID \<Rightarrow>
        (case inject env (sesID session) (osc_command env commandID session address v inp) inputOriginOSC (tick s) of
           (s', r) \<Rightarrow> osc_inputs env session address v inputs (results @ [r]) s'))"

definition ReceiveOSC :: "route_env \<Rightarrow> string \<Rightarrow> json_value list \<Rightarrow> route_state \<Rightarrow> route_state \<times> CommandResult list \<times> string option" where
  "ReceiveOSC env address0 arguments s =
     (let address = trim_space address0 in
      if take 1 address \<noteq> ''/'' then (s, [], Some ''OSC input address must start with /'')
      else case rnSession env (rsTick s) of
        None \<Rightarrow> (tick s, [], Some (rnErr env (rsTick s)))
      | Some session \<Rightarrow>
        let s1 = tick s in
        if sesStatus session \<noteq> SessionActive then (s1, [], Some ''session is not active'')
        else case rnSnapshot env (rsTick s1) of
          None \<Rightarrow> (tick s1, [], Some (rnErr env (rsTick s1)))
        | Some (published, raw) \<Rightarrow>
          (case rnManifest env raw of
             None \<Rightarrow> (tick s1, [], Some (rnErr env (rsTick s1)))
           | Some m \<Rightarrow>
             (case oscInputValue env arguments of
                None \<Rightarrow> (tick s1, [], Some (rnErr env (rsTick s1)))
              | Some v \<Rightarrow> osc_inputs env session address v (rmInputs m) [] (tick s1))))"

end
