(* ===== verification/RoutingSafety.thy ===== *)
theory RoutingSafety
  imports Routing
begin

text \<open>
  What the routing of an input can send: an unconfirmed test spares critical outputs and cues, the first
  dispatch that does not complete is the last, a COMPLETED result means all of them completed, and the
  debouncer keeps the accepted triggers of a route apart.
\<close>

section \<open>What is sent\<close>

definition spares :: "RouteManifest \<Rightarrow> dispatch \<Rightarrow> bool" where
  "spares m d =
     (case d of
        SentOutput oid _ _ \<Rightarrow> \<exists>out. ResolveOutput m oid = Some out \<and> \<not> isCritical (outCriticality out)
      | SentCue cid _ _ \<Rightarrow> \<exists>c. resolveCue m cid = Some c \<and> \<not> isCritical (cueCriticality c))"

definition dispatched :: "dispatch \<Rightarrow> bool" where
  "dispatched d =
     (case d of SentOutput _ _ r \<Rightarrow> cpResult r = ExecutionCompleted | SentCue _ _ r \<Rightarrow> resStatus r = CommandCompleted)"

text \<open>From \<open>s\<close> to \<open>s'\<close>, with \<open>good\<close> when no failure was reported.\<close>

definition sends :: "(dispatch \<Rightarrow> bool) \<Rightarrow> route_state \<Rightarrow> route_state \<Rightarrow> bool \<Rightarrow> bool" where
  "sends P s s' good \<longleftrightarrow>
     (\<exists>new. rsSent s' = rsSent s @ new \<and> list_all P new \<and> list_all dispatched (butlast new) \<and> (good \<longrightarrow> list_all dispatched new))"

lemma list_all_butlast: "list_all P xs \<Longrightarrow> list_all P (butlast xs)"
  by (induction xs) auto

lemma sends_same: "rsSent s' = rsSent s \<Longrightarrow> sends P s s' good"
  by (auto simp: sends_def)

lemma sends_trans: "sends P s s1 True \<Longrightarrow> sends P s1 s2 good \<Longrightarrow> sends P s s2 good"
  unfolding sends_def by (force simp: butlast_append list_all_butlast)

lemma sends_one: "rsSent s' = rsSent s @ [d] \<Longrightarrow> P d \<Longrightarrow> (good \<Longrightarrow> dispatched d) \<Longrightarrow> sends P s s' good"
  by (auto simp: sends_def)

lemma sends_weak: "sends P s s' True \<Longrightarrow> sends P s s' good"
  unfolding sends_def by (auto simp: list_all_butlast)

lemma sends_mono: "sends P s s' good \<Longrightarrow> (\<And>d. P d \<Longrightarrow> Q d) \<Longrightarrow> sends Q s s' good"
  unfolding sends_def using list.pred_mono_strong by metis

lemma tick_sent [simp]: "rsSent (tick s) = rsSent s"
  by (simp add: tick_def)

lemma emit_sent [simp]: "rsSent (fst (emit env ty c p s)) = rsSent s"
  by (simp add: emit_def Let_def split: option.split)

lemma emit_sent': "emit env ty c p s = (s', r) \<Longrightarrow> rsSent s' = rsSent s"
  using emit_sent [of env ty c p s] by simp

lemma emitRouteFailure_sent [simp]: "rsSent (emitRouteFailure env c route code msg s) = rsSent s"
  by (simp add: emitRouteFailure_def)

text \<open>\<open>allowed m allow\<close>: with confirmation everything is, without it what \<open>spares\<close> says.\<close>

definition allowed :: "RouteManifest \<Rightarrow> bool \<Rightarrow> dispatch \<Rightarrow> bool" where
  "allowed m allow d \<longleftrightarrow> allow \<or> spares m d"

lemma resolve_ids: "ResolveOutput m oid = Some out \<Longrightarrow> outID out = oid" "resolveCue m cid = Some c \<Longrightarrow> cueID c = cid"
  by (auto simp: ResolveOutput_def resolveCue_def find_Some_iff)

lemma route_failure_not_None [simp]: "route_failure a b c \<noteq> None" "None \<noteq> route_failure a b c"
  by (simp_all add: route_failure_def)

lemma dispatchOutput_sends:
  assumes "dispatchOutput env cmd m c route a oid tr allow s = (s', f)"
  shows "sends (allowed m allow) s s' (f = None)"
proof (cases "ResolveOutput m oid")
  case None
  with assms show ?thesis by (auto simp: dispatchOutput_def Let_def intro: sends_same)
next
  case (Some out)
  show ?thesis
  proof (cases "\<not> allow \<and> isCritical (outCriticality out) \<or> rnNewID env (rsTick s) = None")
    case True
    with assms Some show ?thesis
      by (auto simp: dispatchOutput_def Let_def intro!: sends_same split: if_splits option.splits)
  next
    case False
    then obtain x where x: "rnNewID env (rsTick s) = Some x" by blast
    have ok: "allowed m allow (SentOutput (outID out) q r)" for q r
      using False Some resolve_ids(1) [OF Some] by (auto simp: allowed_def spares_def)
    show ?thesis
      using assms Some False x ok
      by (auto simp: dispatchOutput_def Let_def dispatched_def dest!: emit_sent' intro!: sends_one split: prod.splits sum.splits if_splits)
  qed
qed

lemma dispatchCue_sends:
  assumes "dispatchCue env cmd m c route a cid allow s = (s', f)"
  shows "sends (allowed m allow) s s' (f = None)"
proof (cases "resolveCue m cid")
  case None
  with assms show ?thesis by (auto simp: dispatchCue_def Let_def intro: sends_same)
next
  case (Some cue)
  show ?thesis
  proof (cases "\<not> allow \<and> isCritical (cueCriticality cue) \<or> rnNewID env (rsTick s) = None")
    case True
    with assms Some show ?thesis
      by (auto simp: dispatchCue_def Let_def intro!: sends_same split: if_splits option.splits)
  next
    case False
    then obtain x where x: "rnNewID env (rsTick s) = Some x" by blast
    have ok: "allowed m allow (SentCue cid q r)" for q r
      using False Some by (auto simp: allowed_def spares_def)
    show ?thesis
      using assms Some False x ok
      by (auto simp: dispatchCue_def Let_def dispatched_def dest!: emit_sent' intro!: sends_one
          split: prod.splits sum.splits if_splits option.splits)
  qed
qed

lemma dispatch_actions_sends:
  "dispatch_actions env cmd m c route tr allow as s = (s', f) \<Longrightarrow> sends (allowed m allow) s s' (f = None)"
proof (induction as arbitrary: s)
  case Nil
  then show ?case by (simp add: sends_same)
next
  case (Cons a as)
  define one where "one = (case raOutputID a of
              Some oid \<Rightarrow> dispatchOutput env cmd m c route a oid tr allow s
            | None \<Rightarrow>
              (case raCueID a of
                 Some cid \<Rightarrow> dispatchCue env cmd m c route a cid allow s
               | None \<Rightarrow> (s, route_failure ''ROUTE_ACTION_INVALID'' ''VALIDATION'' ''route action has no output or cue target'')))"
  obtain s1 g where one: "one = (s1, g)" by fastforce
  have step: "sends (allowed m allow) s s1 (g = None)"
  proof (cases "raOutputID a")
    case (Some oid)
    then show ?thesis using one dispatchOutput_sends by (simp add: one_def)
  next
    case None
    then show ?thesis using one dispatchCue_sends by (cases "raCueID a") (auto simp: one_def intro: sends_same)
  qed
  show ?case
  proof (cases g)
    case None
    then have "dispatch_actions env cmd m c route tr allow as s1 = (s', f)"
      using Cons.prems one by (simp add: one_def)
    with Cons.IH step None show ?thesis by (auto intro: sends_trans)
  next
    case (Some x)
    then have "s' = s1 \<and> f = Some x" using Cons.prems one by (simp add: one_def)
    with step Some show ?thesis by simp
  qed
qed

lemma not_triggered_sent: "not_triggered env i route v tr b d s = (s', was, f) \<Longrightarrow> rsSent s' = rsSent s \<and> \<not> was"
  by (auto simp: not_triggered_def dest!: emit_sent' split: prod.splits sum.splits)

lemma trigger_sends:
  assumes "trigger_route env cmd m i route v tr allow s = (s', was, f)"
  shows "sends (allowed m allow) s s' (f = None)"
proof (cases "emit env ''route.triggered'' i (routeTrace route v (Some tr) True ''TRIGGERED'' []) s")
  case (Pair s1 r)
  note sent = emit_sent' [OF Pair]
  show ?thesis
  proof (cases r)
    case (Inl e)
    with assms Pair sent show ?thesis by (auto simp: trigger_route_def intro: sends_same)
  next
    case (Inr tid)
    with assms Pair have d: "dispatch_actions env cmd m tid route tr allow (rtActions route) s1 = (s', f)"
      by (auto simp: trigger_route_def split: prod.splits)
    from sends_trans [OF sends_same [OF sent] dispatch_actions_sends [OF d]] show ?thesis .
  qed
qed

lemma delay_sends:
  assumes "delay_route env cmd m i route v tr allow s = (s', was, f)"
  shows "sends (allowed m allow) s s' (f = None)"
proof -
  have t: "trigger_route env cmd m i route v tr allow (tick s) = (s', was, f) \<Longrightarrow> ?thesis"
    using sends_trans [OF sends_same [of "tick s" s]] trigger_sends by fastforce
  show ?thesis
    using assms t trigger_sends [of env cmd m i route v tr allow s s' was f]
    by (auto simp: delay_route_def intro: sends_same split: option.splits if_splits)
qed

lemma debounce_sends:
  assumes "debounce_route env cmd m i route v tr allow s = (s', was, f)"
  shows "sends (allowed m allow) s s' (f = None)"
proof -
  have d: "sends (allowed m allow) s s' (f = None)"
    if "delay_route env cmd m i route v tr allow s1 = (s', was, f)" "rsSent s1 = rsSent s" for s1
    using sends_trans [OF sends_same [OF that(2)] delay_sends [OF that(1)]] .
  show ?thesis
  proof (cases "\<exists>w. rtDebounceMS route = Some w \<and> w > 0")
    case True
    then obtain w where w: "rtDebounceMS route = Some w" "w > 0" by blast
    obtain db acc where acc: "Accept (rtID route) (rnNow env (rsTick s)) (wrap64 (w * 1000000)) (rsDebounce s) = (db, acc)" by fastforce
    show ?thesis
    proof (cases acc)
      case True
      with assms w acc show ?thesis by (intro d [of "(tick s)\<lparr>rsDebounce := db\<rparr>"]) (simp_all add: debounce_route_def)
    next
      case False
      with assms w acc have "not_triggered env i route v (Some tr) True ''DEBOUNCED'' ((tick s)\<lparr>rsDebounce := db\<rparr>) = (s', was, f)"
        by (simp add: debounce_route_def)
      from not_triggered_sent [OF this] show ?thesis by (intro sends_same) simp
    qed
  next
    case False
    with assms show ?thesis by (intro d [of s]) (auto simp: debounce_route_def split: option.splits if_splits)
  qed
qed

lemma block_sent: "blockCriticalTestRoute env i route v tr t s = (s', f) \<Longrightarrow> rsSent s' = rsSent s"
  by (auto simp: blockCriticalTestRoute_def dest!: emit_sent' split: prod.splits sum.splits)

lemma evaluateRoute_sends:
  assumes "evaluateRoute env cmd m i route v allow s = (s', was, f)"
  shows "sends (allowed m allow) s s' (f = None)"
proof -
  consider (same) "rsSent s' = rsSent s"
    | (on) tr where "debounce_route env cmd m i route v tr allow s = (s', was, f)"
    using assms
    by (auto simp: evaluateRoute_def dest: not_triggered_sent block_sent split: if_splits sum.splits bool.splits option.splits prod.splits)
  then show ?thesis by cases (auto intro: sends_same debounce_sends)
qed


lemma run_routes_sends:
  "run_routes env cmd m ev iid v allow rs n k s = (s', r) \<Longrightarrow> sends (allowed m allow) s s' (\<exists>x. r = Inr x)"
proof (induction rs arbitrary: n k s)
  case Nil
  then show ?case by (simp add: sends_same)
next
  case (Cons route rs)
  obtain s1 was f where e: "evaluateRoute env cmd m ev route v allow s = (s1, was, f)" by (metis prod_cases3)
  note step = evaluateRoute_sends [OF e]
  show ?case
  proof (cases "rtInputID route \<noteq> iid")
    case True
    with Cons show ?thesis by simp
  next
    case False
    show ?thesis
    proof (cases f)
      case None
      have "sends (allowed m allow) s1 s' (\<exists>x. r = Inr x)"
        using Cons.prems False e None by (intro Cons.IH) simp
      with step None show ?thesis by (auto intro: sends_trans)
    next
      case (Some x)
      with Cons.prems False e have "s' = s1 \<and> r = Inl (rtID route, x)" by simp
      with step Some show ?thesis by simp
    qed
  qed
qed

definition confirmed :: "route_env \<Rightarrow> CommandEnvelope \<Rightarrow> inputOrigin \<Rightarrow> bool" where
  "confirmed env cmd origin \<longleftrightarrow>
     origin \<noteq> inputOriginTest \<or> (\<exists>p. rnPayload env (cePayload cmd) = Some p \<and> ipConfirmCritical p)"

lemma failure_not_completed [simp]: "resStatus (commandFailure cid code cat msg x) \<noteq> CommandCompleted"
  by (simp add: commandFailure_def)

lemma execute_input_sends:
  assumes "execute_input env cmd origin m s = (s', res)"
  shows "sends (allowed m (confirmed env cmd origin)) s s' (resStatus res = CommandCompleted)"
proof (cases "rnPayload env (cePayload cmd)")
  case None
  with assms show ?thesis by (auto simp: execute_input_def Let_def intro: sends_same)
next
  case (Some p)
  let ?payload = "\<lambda>inp. [(''input_id'', FText (inID inp)), (''name'', FText (inName inp)), (''source'', FText (origin_text origin)),
                  (''value'', FRaw (ipValue p))]"
  consider (no) "s' = s" "resStatus res \<noteq> CommandCompleted"
    | (yes) inp where "ResolveInput m (ipInputID p) = Some inp" "inEnabled inp" "\<not> (trim_space (ipInputID p) = [] \<or> trim_space (ipValue p) = [])"
    using assms Some by (auto simp: execute_input_def Let_def split: if_splits option.splits)
  then show ?thesis
  proof cases
    case no
    then show ?thesis by (simp add: sends_same)
  next
    case yes
    obtain s1 r where e: "emit env ''input.received'' (ceCommandID cmd) (?payload inp) s = (s1, r)" by fastforce
    note sent = sends_same [OF emit_sent' [OF e]]
    show ?thesis
    proof (cases r)
      case (Inl err)
      with assms Some yes e sent have "s' = s1 \<and> resStatus res \<noteq> CommandCompleted" by (auto simp: execute_input_def Let_def)
      with sent show ?thesis by simp
    next
      case (Inr eid)
      obtain s2 out where run: "run_routes env cmd m eid (inID inp) (ipValue p) (origin \<noteq> inputOriginTest \<or> ipConfirmCritical p)
          (rmRoutes m) 0 0 s1 = (s2, out)" by fastforce
      have "(origin \<noteq> inputOriginTest \<or> ipConfirmCritical p) = confirmed env cmd origin" using Some by (simp add: confirmed_def)
      with run_routes_sends [OF run] have go: "sends (allowed m (confirmed env cmd origin)) s1 s2 (\<exists>x. out = Inr x)" by simp
      have "s' = s2 \<and> (resStatus res = CommandCompleted \<longrightarrow> (\<exists>x. out = Inr x))"
        using assms Some yes e Inr run by (cases out) (auto simp: execute_input_def Let_def split: prod.splits)
      then show ?thesis using sends_trans [OF sent go] by (auto simp: sends_def)
    qed
  qed
qed

text \<open>The manifests the environment can have decoded.\<close>

definition permitted :: "route_env \<Rightarrow> bool \<Rightarrow> dispatch \<Rightarrow> bool" where
  "permitted env allow d \<longleftrightarrow> (\<exists>raw m. rnManifest env raw = Some m \<and> allowed m allow d)"

lemma executeReserved_sends:
  assumes "route_executeReserved env sid cmd origin s = (s', res)"
  shows "sends (permitted env (confirmed env cmd origin)) s s' (resStatus res = CommandCompleted)"
proof -
  consider (no) "rsSent s' = rsSent s" "resStatus res \<noteq> CommandCompleted"
    | (yes) raw m where "rnManifest env raw = Some m" "execute_input env cmd origin m (tick (tick s)) = (s', res)"
    using assms by (auto simp: route_executeReserved_def Let_def split: if_splits option.splits prod.splits bool.splits)
  then show ?thesis
  proof cases
    case no
    then show ?thesis by (simp add: sends_same)
  next
    case yes
    have "sends (permitted env (confirmed env cmd origin)) (tick (tick s)) s' (resStatus res = CommandCompleted)"
      by (rule sends_mono [OF execute_input_sends [OF yes(2)]]) (use yes(1) in \<open>auto simp: permitted_def\<close>)
    then show ?thesis using sends_trans [OF sends_same [of "tick (tick s)" s]] by simp
  qed
qed

lemma reserve_sent: "route_reserve env cmd s = (s', r) \<Longrightarrow> rsSent s' = rsSent s"
  by (auto simp: route_reserve_def Let_def split: sum.splits option.splits prod.splits bool.splits)

text \<open>A call that does not carry out the command sends nothing; one that does answers with its result or a failure.\<close>

lemma inject_cases:
  assumes "inject env sid cmd origin s = (s', res)"
  obtains "rsSent s' = rsSent s"
  | s1 s2 cmd' res' where "rsSent s1 = rsSent s" "cePayload cmd' = cePayload cmd" "route_executeReserved env sid cmd' origin s1 = (s2, res')"
      "rsSent s' = rsSent s2" "resStatus res = CommandCompleted \<longrightarrow> resStatus res' = CommandCompleted"
proof (cases "validateInjectEnvelope (rnNow env (rsTick s)) cmd")
  case (Some r)
  with assms that(1) show thesis by (auto simp: inject_def Let_def)
next
  case None
  obtain s1 r where rv: "route_reserve env cmd (tick s) = (s1, r)" by fastforce
  have sent: "rsSent s1 = rsSent s" using reserve_sent [OF rv] by simp
  show thesis
  proof (cases "\<exists>rec. r = Inr (rec, True)")
    case True
    then obtain rec where r: "r = Inr (rec, True)" by blast
    define cmd' where "cmd' = (if ceCorrelationID cmd = [] then cmd\<lparr>ceCorrelationID := rcCorrelationID rec\<rparr> else cmd)"
    obtain s2 res' where ex: "route_executeReserved env sid cmd' origin s1 = (s2, res')" by fastforce
    have "rsSent s' = rsSent s2 \<and> (resStatus res = CommandCompleted \<longrightarrow> resStatus res' = CommandCompleted)"
      using assms None rv r ex by (auto simp: inject_def Let_def cmd'_def split: prod.splits sum.splits)
    then show thesis using that(2) [of s1 cmd' s2 res'] sent ex by (auto simp: cmd'_def)
  next
    case False
    with assms None rv have "s' = s1"
      by (auto simp: inject_def Let_def split: sum.splits prod.splits bool.splits)
    then show thesis using that(1) sent by simp
  qed
qed

lemma confirmed_payload: "cePayload cmd' = cePayload cmd \<Longrightarrow> confirmed env cmd' origin = confirmed env cmd origin"
  by (simp add: confirmed_def)

lemma inject_sends:
  assumes "inject env sid cmd origin s = (s', res)"
  shows "sends (permitted env (confirmed env cmd origin)) s s' (resStatus res = CommandCompleted)"
  using assms
proof (rule inject_cases)
  assume "rsSent s' = rsSent s" then show ?thesis by (rule sends_same)
next
  fix s1 s2 cmd' res'
  assume *: "rsSent s1 = rsSent s" "cePayload cmd' = cePayload cmd" "route_executeReserved env sid cmd' origin s1 = (s2, res')"
      "rsSent s' = rsSent s2" "resStatus res = CommandCompleted \<longrightarrow> resStatus res' = CommandCompleted"
  have "sends (permitted env (confirmed env cmd origin)) s s2 (resStatus res' = CommandCompleted)"
    using sends_trans [OF sends_same [OF *(1)] executeReserved_sends [OF *(3)]] by (simp add: confirmed_payload [OF *(2)])
  with *(4,5) show ?thesis by (auto simp: sends_def)
qed

text \<open>
  C21. A test injection that does not confirm critical targets reaches no critical output and no critical
  cue, whatever the routes, their conditions and transforms and the answers of the environment: each
  output or cue it dispatches is one the decoded manifest does not mark as critical.
\<close>

theorem unconfirmed_test_spares_critical:
  assumes "InjectTest env sid cmd s = (s', res)" and "\<And>p. rnPayload env (cePayload cmd) = Some p \<Longrightarrow> \<not> ipConfirmCritical p"
  shows "\<exists>new. rsSent s' = rsSent s @ new \<and> (\<forall>d \<in> set new. \<exists>raw m. rnManifest env raw = Some m \<and> spares m d)"
proof -
  have "\<not> confirmed env cmd inputOriginTest" using assms(2) by (auto simp: confirmed_def)
  with inject_sends [OF assms(1) [unfolded InjectTest_def]] show ?thesis
    by (auto simp: sends_def permitted_def allowed_def list_all_iff)
qed

text \<open>
  C38. Routing stops at the first failure: of what one injection sends, everything before the last dispatch
  completed, and when the injection answers COMPLETED all of it completed.
\<close>

theorem routing_stops_at_failure:
  assumes "inject env sid cmd origin s = (s', res)"
  shows "\<exists>new. rsSent s' = rsSent s @ new \<and> (\<forall>d \<in> set (butlast new). dispatched d)
    \<and> (resStatus res = CommandCompleted \<longrightarrow> (\<forall>d \<in> set new. dispatched d))"
  using inject_sends [OF assms] by (auto simp: sends_def list_all_iff)

section \<open>The debouncer\<close>

fun debounce_run :: "duration \<Rightarrow> (string \<times> time) list \<Rightarrow> debouncer \<Rightarrow> debouncer \<times> bool list" where
  "debounce_run w [] d = (d, [])"
| "debounce_run w ((r, t) # calls) d =
     (case Accept r t w d of (d1, b) \<Rightarrow> (case debounce_run w calls d1 of (d2, bs) \<Rightarrow> (d2, b # bs)))"

text \<open>The accepted instants of a route.\<close>

definition accepted_times :: "string \<Rightarrow> duration \<Rightarrow> (string \<times> time) list \<Rightarrow> debouncer \<Rightarrow> time list" where
  "accepted_times r w calls d = map (\<lambda>((x, t), b). t) (filter (\<lambda>((x, t), b). x = r \<and> b) (zip calls (snd (debounce_run w calls d))))"

lemma accepted_times_simps:
  "accepted_times r w [] d = []"
  "accepted_times r w ((x, t) # calls) d =
     (if x = r \<and> snd (Accept x t w d) then [t] else []) @ accepted_times r w calls (fst (Accept x t w d))"
  by (auto simp: accepted_times_def split: prod.splits)

lemma debounce_apart:
  assumes "0 < w"
  shows "sorted_wrt (\<lambda>a b. a + w \<le> b) (accepted_times r w calls d)
    \<and> (\<forall>t0. d r = Some t0 \<longrightarrow> (\<forall>t \<in> set (accepted_times r w calls d). t0 + w \<le> t))"
proof (induction calls arbitrary: d)
  case Nil
  then show ?case by (simp add: accepted_times_simps)
next
  case (Cons c calls)
  obtain x t where c: "c = (x, t)" by fastforce
  note IH = Cons.IH [of "fst (Accept x t w d)"]
  show ?case
  proof (cases "x = r \<and> snd (Accept x t w d)")
    case True
    then have d': "fst (Accept x t w d) r = Some t" "\<And>t0. d r = Some t0 \<Longrightarrow> t0 + w \<le> t"
      using assms by (auto simp: Accept_def split: option.splits if_splits)
    then have "\<forall>u \<in> set (accepted_times r w calls (fst (Accept x t w d))). t + w \<le> u" using IH by blast
    moreover have "\<forall>t0. d r = Some t0 \<longrightarrow> (\<forall>u \<in> set (accepted_times r w calls (fst (Accept x t w d))). t0 + w \<le> u)"
      using calculation d'(2) assms by force
    ultimately show ?thesis using IH True d'(2) by (simp add: c accepted_times_simps)
  next
    case False
    then have "fst (Accept x t w d) r = d r" using assms by (auto simp: Accept_def split: option.splits if_splits)
    with IH False show ?thesis by (auto simp: c accepted_times_simps)
  qed
qed


definition dropped_times :: "string \<Rightarrow> duration \<Rightarrow> (string \<times> time) list \<Rightarrow> debouncer \<Rightarrow> time list" where
  "dropped_times r w calls d = map (\<lambda>((x, t), b). t) (filter (\<lambda>((x, t), b). x = r \<and> \<not> b) (zip calls (snd (debounce_run w calls d))))"

lemma dropped_times_simps:
  "dropped_times r w [] d = []"
  "dropped_times r w ((x, t) # calls) d =
     (if x = r \<and> \<not> snd (Accept x t w d) then [t] else []) @ dropped_times r w calls (fst (Accept x t w d))"
  by (auto simp: dropped_times_def split: prod.splits)

lemma dropped_close:
  assumes "0 < w" and "t \<in> set (dropped_times r w calls d)"
  shows "(\<exists>t0. d r = Some t0 \<and> t < t0 + w) \<or> (\<exists>a \<in> set (accepted_times r w calls d). t < a + w)"
  using assms(2)
proof (induction calls arbitrary: d)
  case (Cons c calls)
  obtain x u where c: "c = (x, u)" by fastforce
  let ?d = "fst (Accept x u w d)"
  show ?case
  proof (cases "x = r \<and> \<not> snd (Accept x u w d) \<and> t = u")
    case True
    then show ?thesis by (auto simp: Accept_def split: option.splits if_splits)
  next
    case False
    then have "t \<in> set (dropped_times r w calls ?d)" using Cons.prems by (auto simp: c dropped_times_simps split: if_splits)
    from Cons.IH [OF this] show ?thesis
    proof
      assume "\<exists>a \<in> set (accepted_times r w calls ?d). t < a + w"
      then show ?thesis by (auto simp: c accepted_times_simps)
    next
      assume "\<exists>t0. ?d r = Some t0 \<and> t < t0 + w"
      moreover have "?d r = d r \<or> x = r \<and> snd (Accept x u w d) \<and> ?d r = Some u"
        using assms(1) by (auto simp: Accept_def split: option.splits)
      ultimately show ?thesis by (auto simp: c accepted_times_simps)
    qed
  qed
qed (simp add: dropped_times_simps)

text \<open>
  C39. The debouncer is exact: of the triggers of a route, whatever the other routes do in between and
  whatever the clock does, those that are accepted are at least the window apart, and one that is dropped
  is less than the window after an accepted one.
\<close>

theorem debouncer_exact:
  assumes "0 < w"
  shows "sorted_wrt (\<lambda>a b. a + w \<le> b) (accepted_times r w calls (\<lambda>_. None))
    \<and> (\<forall>t \<in> set (dropped_times r w calls (\<lambda>_. None)). \<exists>a \<in> set (accepted_times r w calls (\<lambda>_. None)). t < a + w)"
  using debounce_apart [OF assms, of r calls "\<lambda>_. None"] dropped_close [OF assms, of _ r calls "\<lambda>_. None"] by auto

theorem debouncer_exact_witness:
  "accepted_times ''a'' 10 [(''a'', 0), (''b'', 3), (''a'', 5), (''a'', 12)] (\<lambda>_. None) = [0, 12]
   \<and> sorted_wrt (\<lambda>a b. a + 10 \<le> b) (accepted_times ''a'' 10 [(''a'', 0), (''b'', 3), (''a'', 5), (''a'', 12)] (\<lambda>_. None))"
proof -
  have "accepted_times ''a'' 10 [(''a'', 0), (''b'', 3), (''a'', 5), (''a'', 12)] (\<lambda>_. None) = [0, 12]"
    by (simp add: accepted_times_simps Accept_def)
  then show ?thesis using debouncer_exact [of 10 "''a''" "[(''a'', 0), (''b'', 3), (''a'', 5), (''a'', 12)]"] by simp
qed

section \<open>Concrete injections\<close>

definition demo_json :: json_env where
  "demo_json = \<lparr>jnDecode = (\<lambda>_. Some (JvBool True)), jnCondition = (\<lambda>_. None), jnTransform = (\<lambda>_. None), jnFloat = (\<lambda>_. None),
     jnAffine = (\<lambda>x _ _. x), jnEncode = (\<lambda>_. ''0'')\<rparr>"

definition demo_route :: "string \<Rightarrow> RouteAction list \<Rightarrow> Route" where
  "demo_route i as = \<lparr>rtID = i, rtName = i, rtInputID = ''i'', rtCondition = [], rtTransform = [], rtDelayMS = None,
     rtDebounceMS = Some 200, rtPriorityClass = ''P1'', rtEnabled = True, rtActions = as\<rparr>"

definition to_output :: "string \<Rightarrow> RouteAction" where
  "to_output oid = \<lparr>raID = oid, raOutputID = Some oid, raCueID = None, raParameters = []\<rparr>"

definition to_cue :: "string \<Rightarrow> RouteAction" where
  "to_cue cid = \<lparr>raID = cid, raOutputID = None, raCueID = Some cid, raParameters = []\<rparr>"

definition routed_cue :: "string \<Rightarrow> string \<Rightarrow> string \<Rightarrow> Cue" where
  "routed_cue i criticality policy = \<lparr>cueID = i, cueName = i, cueEnabled = True, cueExecutionPolicy = policy,
     cueDisplayLabel = i, cueOrderIndex = 1, cueType = ''STANDARD'', cueCriticality = criticality, cueActions = []\<rparr>"

definition demo_manifest :: RouteManifest where
  "demo_manifest = \<lparr>rmTargets = [],
     rmCues = [routed_cue ''g'' ''NORMAL'' ''links'', routed_cue ''h'' ''CRITICAL'' []],
     rmInputs = [\<lparr>inID = ''i'', inName = ''i'', inSourceRef = ''/i'', inEventType = ''osc.input'', inEnabled = True\<rparr>],
     rmOutputs = [\<lparr>outID = ''n'', outTargetRef = ''t'', outCapabilityKey = ''light'', outCriticality = ''NORMAL''\<rparr>,
                  \<lparr>outID = ''c'', outTargetRef = ''t'', outCapabilityKey = ''laser'', outCriticality = ''critical''\<rparr>],
     rmRoutes = [demo_route ''r1'' [to_output ''n''], demo_route ''r2'' [to_cue ''g''], demo_route ''r3'' [to_output ''c'']]\<rparr>"

definition route_demo_env :: route_env where
  "route_demo_env = \<lparr>rnJson = demo_json, rnAvailable = True, rnSql = (\<lambda>_. SqlOk), rnNewID = (\<lambda>_. Some ''x''), rnNow = (\<lambda>n. int n),
     rnErr = (\<lambda>_. []), rnSession = (\<lambda>_. Some \<lparr>sesID = ''s'', sesProjectID = ''p'', sesRuntimeSnapshotID = ''snap'',
       sesType = SessionRehearsal, sesStatus = SessionActive, sesCurrentCueID = None\<rparr>),
     rnSnapshot = (\<lambda>_. Some (True, [])), rnManifest = (\<lambda>_. Some demo_manifest),
     rnPayload = (\<lambda>_. Some \<lparr>ipInputID = ''i'', ipValue = ''1'', ipConfirmCritical = False\<rparr>),
     rnMarshalGo = (\<lambda>_. []), rnMarshal = (\<lambda>_. []),
     rnExecute = (\<lambda>_. \<lparr>cpResult = ExecutionCompleted, cpAckLevel = AckDevice, cpResponseSummary = [], cpErrorCode = []\<rparr>),
     rnCueGo = (\<lambda>_. \<lparr>resCommandID = [], resStatus = CommandCompleted, resPayload = [], resError = None\<rparr>),
     rnDelay = (\<lambda>_. None), rnMarshalValue = (\<lambda>_. None), rnMarshalInput = (\<lambda>_. [])\<rparr>"

definition route_demo_command :: CommandEnvelope where
  "route_demo_command = demo_command\<lparr>ceCommandType := ''input.inject_test'', cePriority := ''P2''\<rparr>"

definition route_first :: route_state where
  "route_first = \<lparr>rsTick = 0, rsCommands = [], rsDebounce = (\<lambda>_. None), rsEvents = [], rsSent = []\<rparr>"

text \<open>The output is sent, the group is started, the critical output is refused.\<close>

fun sent_id :: "dispatch \<Rightarrow> string" where
  "sent_id (SentOutput i _ _) = i"
| "sent_id (SentCue i _ _) = i"

lemma inject_demo:
  "(case InjectTest route_demo_env ''s'' route_demo_command route_first of (s, r) \<Rightarrow> (map sent_id (rsSent s), resStatus r, map_option errCode (resError r)))
    = ([''n'', ''g''], CommandRejected, Some ''SAFETY_CONFIRMATION_REQUIRED'')"
  by code_simp

theorem unconfirmed_test_spares_critical_witness:
  "\<exists>s' res new. InjectTest route_demo_env ''s'' route_demo_command route_first = (s', res) \<and> map sent_id new = [''n'', ''g'']
     \<and> (\<forall>d \<in> set new. \<exists>raw m. rnManifest route_demo_env raw = Some m \<and> spares m d)"
proof -
  obtain s' res where run: "InjectTest route_demo_env ''s'' route_demo_command route_first = (s', res)" by fastforce
  have "\<exists>new. rsSent s' = rsSent route_first @ new \<and> (\<forall>d \<in> set new. \<exists>raw m. rnManifest route_demo_env raw = Some m \<and> spares m d)"
    by (rule unconfirmed_test_spares_critical [OF run]) (simp add: route_demo_env_def)
  moreover have "rsSent route_first = []" by (simp add: route_first_def)
  moreover have "map sent_id (rsSent s') = [''n'', ''g'']" using inject_demo run by simp
  ultimately show ?thesis using run by (intro exI [of _ s'] exI [of _ res] exI [of _ "rsSent s'"]) simp
qed

theorem routing_stops_at_failure_witness:
  "\<exists>s' res new. inject route_demo_env ''s'' route_demo_command inputOriginTest route_first = (s', res) \<and> length new = 2
     \<and> (\<forall>d \<in> set (butlast new). dispatched d)"
proof -
  obtain s' res where run: "inject route_demo_env ''s'' route_demo_command inputOriginTest route_first = (s', res)" by fastforce
  from routing_stops_at_failure [OF this] obtain new where new: "rsSent s' = rsSent route_first @ new" "\<forall>d \<in> set (butlast new). dispatched d"
    by blast
  have "map sent_id (rsSent s') = [''n'', ''g'']" using inject_demo run by (simp add: InjectTest_def)
  then have "length (rsSent s') = 2" by (metis length_map list.size(3,4) numeral_2_eq_2 One_nat_def add_0 add_Suc plus_1_eq_Suc)
  then show ?thesis using run new by (auto simp: route_first_def)
qed

text \<open>
  The check looks at the criticality of the routed cue alone. A cue that is not critical may link a critical
  one: the unconfirmed test starts the group, and with it the critical cue.
\<close>

definition link_policy :: "string \<Rightarrow> Policy option" where
  "link_policy raw = (if raw = ''links'' then Some \<lparr>LinkedCueIDs = [''h''], LinkedCueMode = [], StartDelayMS = 0\<rparr> else None)"

lemma unconfirmed_test_starts_critical_member:
  "\<exists>c. resolveCue demo_manifest ''g'' = Some c \<and> ''g'' \<in> set (map sent_id (rsSent (fst (InjectTest route_demo_env ''s'' route_demo_command route_first))))
     \<and> resolveCueGroup link_policy (rmCues demo_manifest) c = Inr [c, routed_cue ''h'' ''CRITICAL'' []] \<and> isCritical ''CRITICAL''"
proof -
  have "resolveCue demo_manifest ''g'' = Some (routed_cue ''g'' ''NORMAL'' ''links'')" by code_simp
  moreover have "resolveCueGroup link_policy (rmCues demo_manifest) (routed_cue ''g'' ''NORMAL'' ''links'')
      = Inr [routed_cue ''g'' ''NORMAL'' ''links'', routed_cue ''h'' ''CRITICAL'' []]" by code_simp
  moreover have "isCritical ''CRITICAL''" by code_simp
  moreover have "map sent_id (rsSent (fst (InjectTest route_demo_env ''s'' route_demo_command route_first))) = [''n'', ''g'']"
    using inject_demo by (simp add: split_beta)
  ultimately show ?thesis by simp
qed

end
