(* ===== verification/Recovery.thy ===== *)
theory Recovery
  imports Prelude
begin

text \<open>
  The bounded retries of component recovery in \<open>internal/recovery/backoff.go\<close>. The operation, the classifier
  of its errors, the context and the wait are the caller's, fields of \<open>retry_env\<close>
  (functions, so the test for nil arguments has no counterpart).
\<close>

section \<open>Bounded retries\<close>

definition MaxBoundedRecoveryAttempts :: int where
  "MaxBoundedRecoveryAttempts = 5"

definition maxBoundedRecoveryBackoff :: duration where
  "maxBoundedRecoveryBackoff = 30000000000"

record BackoffPolicy =
  bpMaxAttempts :: int
  bpInitialBackoff :: duration
  bpMaxBackoff :: duration

record AttemptResult =
  atAttempts :: int
  atRecovered :: bool

definition bp_Validate :: "BackoffPolicy \<Rightarrow> string option" where
  "bp_Validate p =
     (if bpMaxAttempts p < 1 \<or> bpMaxAttempts p > MaxBoundedRecoveryAttempts
      then Some ''recovery max attempts must be between 1 and 5''
      else if bpInitialBackoff p < 0 then Some ''recovery initial backoff must be non-negative''
      else if bpMaxBackoff p < bpInitialBackoff p then Some ''recovery max backoff must be >= initial backoff''
      else if bpMaxBackoff p > maxBoundedRecoveryBackoff then Some ''recovery max backoff must be <= 30s''
      else None)"

text \<open>The loop of \<open>recoveryBackoff\<close> with its remaining turns; \<open>delay *= 2\<close> is a 64-bit product.\<close>

fun backoff_loop :: "duration \<Rightarrow> nat \<Rightarrow> duration \<Rightarrow> duration" where
  "backoff_loop cap 0 delay = (if delay > cap then cap else delay)"
| "backoff_loop cap (Suc n) delay =
     (if delay \<ge> cap \<or> delay > quot cap 2 then cap else backoff_loop cap n (wrap64 (delay * 2)))"

definition recoveryBackoff :: "BackoffPolicy \<Rightarrow> int \<Rightarrow> duration" where
  "recoveryBackoff p failedAttempt =
     (if bpInitialBackoff p = 0 then 0
      else backoff_loop (bpMaxBackoff p) (nat (failedAttempt - 1)) (bpInitialBackoff p))"

text \<open>
  What the caller supplies: the state of the context before an attempt, the outcome of an attempt, the
  classifier of errors and the outcome of a wait. The result comes with the delays waited for.
\<close>

record retry_env =
  ryContext :: "int \<Rightarrow> string option"
  ryOperation :: "int \<Rightarrow> string option"
  ryRetry :: "string \<Rightarrow> bool"
  ryWait :: "int \<Rightarrow> duration \<Rightarrow> string option"

fun attempts_from :: "retry_env \<Rightarrow> BackoffPolicy \<Rightarrow> nat \<Rightarrow> int \<Rightarrow> AttemptResult \<Rightarrow> AttemptResult \<times> string option \<times> duration list" where
  "attempts_from env p 0 attempt result = (result, Some ''bounded recovery exhausted without terminal result'', [])"
| "attempts_from env p (Suc n) attempt result =
     (case ryContext env attempt of
        Some e \<Rightarrow> (result, Some e, [])
      | None \<Rightarrow>
        let result = result\<lparr>atAttempts := attempt\<rparr> in
        (case ryOperation env attempt of
           None \<Rightarrow> (result\<lparr>atRecovered := True\<rparr>, None, [])
         | Some e \<Rightarrow>
           if attempt = bpMaxAttempts p \<or> \<not> ryRetry env e then (result, Some e, [])
           else let delay = recoveryBackoff p attempt in
             (case ryWait env attempt delay of
                Some e \<Rightarrow> (result, Some e, [delay])
              | None \<Rightarrow> (case attempts_from env p n (attempt + 1) result of (r, e, ds) \<Rightarrow> (r, e, delay # ds)))))"

definition runBoundedRecovery :: "retry_env \<Rightarrow> BackoffPolicy \<Rightarrow> AttemptResult \<times> string option \<times> duration list" where
  "runBoundedRecovery env p =
     (case bp_Validate p of
        Some e \<Rightarrow> (\<lparr>atAttempts = 0, atRecovered = False\<rparr>, Some e, [])
      | None \<Rightarrow> attempts_from env p (nat (bpMaxAttempts p)) 1 \<lparr>atAttempts = 0, atRecovered = False\<rparr>)"

lemma valid_policy:
  "bp_Validate p = None \<longleftrightarrow>
     1 \<le> bpMaxAttempts p \<and> bpMaxAttempts p \<le> 5 \<and> 0 \<le> bpInitialBackoff p \<and> bpInitialBackoff p \<le> bpMaxBackoff p
   \<and> bpMaxBackoff p \<le> 30000000000"
  by (auto simp: bp_Validate_def MaxBoundedRecoveryAttempts_def maxBoundedRecoveryBackoff_def)

lemma backoff_loop_exact:
  assumes "0 \<le> delay" and "delay \<le> cap" and "cap < 2 ^ 62"
  shows "backoff_loop cap n delay = min cap (delay * 2 ^ n)"
  using assms(1,2)
proof (induction n arbitrary: delay)
  case (Suc n)
  have half: "quot cap 2 = cap div 2" using Suc.prems by simp
  show ?case
  proof (cases "delay \<ge> cap \<or> delay > cap div 2")
    case True
    then have "cap \<le> delay * 2" using Suc.prems by auto
    also have "\<dots> \<le> delay * 2 ^ Suc n" using Suc.prems by (simp add: mult_left_mono)
    finally show ?thesis using True half by simp
  next
    case False
    then have d: "delay * 2 \<le> cap" by auto
    then have "in64 (delay * 2)" using Suc.prems assms(3) by (simp add: in64_def)
    with False half Suc.IH [of "delay * 2"] Suc.prems d show ?thesis by (simp add: mult.assoc)
  qed
qed simp

text \<open>
  The backoff doubles exactly: under a policy that passes \<open>Validate\<close> the delay after the k-th failed
  attempt is the initial backoff times 2^(k-1), capped at the maximum; the 64-bit product never wraps.
\<close>

theorem backoff_exact:
  assumes "bp_Validate p = None" and "1 \<le> k"
  shows "recoveryBackoff p k = min (bpMaxBackoff p) (bpInitialBackoff p * 2 ^ nat (k - 1))"
proof -
  from assms(1) have "0 \<le> bpInitialBackoff p" "bpInitialBackoff p \<le> bpMaxBackoff p" "bpMaxBackoff p < 2 ^ 62"
    by (simp_all add: valid_policy)
  then show ?thesis by (simp add: recoveryBackoff_def backoff_loop_exact)
qed

lemma recovery_delay_bounds:
  assumes "bp_Validate p = None"
  shows "0 \<le> recoveryBackoff p k \<and> recoveryBackoff p k \<le> 30000000000"
proof -
  from assms have "0 \<le> bpInitialBackoff p" "bpInitialBackoff p \<le> bpMaxBackoff p" "bpMaxBackoff p < 2 ^ 62" "bpMaxBackoff p \<le> 30000000000"
    by (simp_all add: valid_policy)
  then show ?thesis by (auto simp: recoveryBackoff_def backoff_loop_exact min_def)
qed


lemma attempts_bounds:
  assumes "int n = bpMaxAttempts p - attempt + 1" and "0 < n" and "atAttempts result = attempt - 1" and "\<not> atRecovered result"
    and "attempts_from env p n attempt result = (r, e, ds)"
  shows "attempt - 1 \<le> atAttempts r \<and> atAttempts r \<le> bpMaxAttempts p
    \<and> ds = map (recoveryBackoff p) [attempt..attempt + int (length ds) - 1] \<and> attempt + int (length ds) \<le> bpMaxAttempts p
    \<and> (atRecovered r \<longleftrightarrow> e = None) \<and> (e \<noteq> None \<longrightarrow> (\<exists>x d. e = ryContext env x \<or> e = ryOperation env x \<or> e = ryWait env x d))"
  using assms
proof (induction n arbitrary: attempt result r e ds)
  case (Suc n)
  have at: "attempt \<le> bpMaxAttempts p" using Suc.prems(1) by simp
  show ?case
  proof (cases "ryContext env attempt")
    case (Some x)
    with Suc.prems at show ?thesis by auto metis
  next
    case ctx: None
    show ?thesis
    proof (cases "ryOperation env attempt")
      case None
      with Suc.prems at ctx show ?thesis by auto
    next
      case op: (Some x)
      let ?d = "recoveryBackoff p attempt"
      consider (stop) "attempt = bpMaxAttempts p \<or> \<not> ryRetry env x" | (wait) y where "\<not> (attempt = bpMaxAttempts p \<or> \<not> ryRetry env x)" "ryWait env attempt ?d = Some y"
        | (again) "\<not> (attempt = bpMaxAttempts p \<or> \<not> ryRetry env x)" "ryWait env attempt ?d = None"
        by (cases "ryWait env attempt ?d") auto
      then show ?thesis
      proof cases
        case stop
        with Suc.prems at ctx op have "r = result\<lparr>atAttempts := attempt\<rparr> \<and> e = Some x \<and> ds = []" by auto
        then show ?thesis using Suc.prems at op by auto metis
      next
        case wait
        with Suc.prems at ctx op have "r = result\<lparr>atAttempts := attempt\<rparr> \<and> e = Some y \<and> ds = [?d]" by (auto simp: Let_def)
        then show ?thesis using Suc.prems at wait by auto metis
      next
        case again
        obtain ds' where ds: "ds = ?d # ds'" and run: "attempts_from env p n (attempt + 1) (result\<lparr>atAttempts := attempt\<rparr>) = (r, e, ds')"
          using Suc.prems(5) ctx op again by (auto simp: Let_def split: prod.splits)
        have "attempt < bpMaxAttempts p" using again at by auto
        then have n: "int n = bpMaxAttempts p - (attempt + 1) + 1" "0 < n" using Suc.prems(1) by auto
        have ih: "attempt \<le> atAttempts r \<and> atAttempts r \<le> bpMaxAttempts p
            \<and> ds' = map (recoveryBackoff p) [attempt + 1..attempt + 1 + int (length ds') - 1] \<and> attempt + 1 + int (length ds') \<le> bpMaxAttempts p
            \<and> (atRecovered r \<longleftrightarrow> e = None) \<and> (e \<noteq> None \<longrightarrow> (\<exists>x d. e = ryContext env x \<or> e = ryOperation env x \<or> e = ryWait env x d))"
          using Suc.IH [OF n _ _ run] Suc.prems(4) by simp
        have "[attempt..attempt + int (length ds) - 1] = attempt # [attempt + 1..attempt + 1 + int (length ds') - 1]"
          by (subst upto_rec1) (simp_all add: ds)
        with ih ds show ?thesis by simp
      qed
    qed
  qed
qed simp

text \<open>
  C40. Recovery is bounded: under a policy that passes \<open>Validate\<close>, whatever the operation, its errors, the
  classifier and the waits do, at most five attempts are made, the delays are the exact backoffs in order, together
  at most two minutes, success is reported exactly without an error, and an error is always one the caller supplied:
  the error at the end of the loop is never reached.
\<close>

theorem recovery_bounded:
  assumes "bp_Validate p = None" and "runBoundedRecovery env p = (r, e, ds)"
  shows "0 \<le> atAttempts r \<and> atAttempts r \<le> 5 \<and> ds = map (recoveryBackoff p) [1..int (length ds)]
    \<and> 0 \<le> sum_list ds \<and> sum_list ds \<le> 120000000000 \<and> (atRecovered r \<longleftrightarrow> e = None)
    \<and> (e \<noteq> None \<longrightarrow> (\<exists>x d. e = ryContext env x \<or> e = ryOperation env x \<or> e = ryWait env x d))"
proof -
  have v: "1 \<le> bpMaxAttempts p" "bpMaxAttempts p \<le> 5" using assms(1) by (simp_all add: valid_policy)
  have run: "attempts_from env p (nat (bpMaxAttempts p)) 1 \<lparr>atAttempts = 0, atRecovered = False\<rparr> = (r, e, ds)"
    using assms by (simp add: runBoundedRecovery_def)
  note b = attempts_bounds [OF _ _ _ _ run, simplified]
  have b: "0 \<le> atAttempts r" "atAttempts r \<le> bpMaxAttempts p" "ds = map (recoveryBackoff p) [1..int (length ds)]"
      "1 + int (length ds) \<le> bpMaxAttempts p" "atRecovered r \<longleftrightarrow> e = None"
      "e \<noteq> None \<longrightarrow> (\<exists>x d. e = ryContext env x \<or> e = ryOperation env x \<or> e = ryWait env x d)"
    using b v by simp_all
  obtain n where ds: "ds = map (recoveryBackoff p) [1..n]" using b(3) by blast
  have each: "\<forall>d \<in> set ds. 0 \<le> d \<and> d \<le> 30000000000"
    using recovery_delay_bounds [OF assms(1)] by (simp add: ds)
  have "0 \<le> sum_list ds" using each by (induction ds) auto
  moreover have "sum_list ds \<le> 30000000000 * int (length ds)" using each by (induction ds) (auto simp: algebra_simps)
  moreover have "int (length ds) \<le> 4" using b(4) v(2) by simp
  ultimately show ?thesis using b v by simp
qed

text \<open>Three attempts with a growing delay, the last of which succeeds.\<close>

definition demo_policy :: BackoffPolicy where
  "demo_policy = \<lparr>bpMaxAttempts = 5, bpInitialBackoff = 4000000000, bpMaxBackoff = 10000000000\<rparr>"

definition demo_retry :: retry_env where
  "demo_retry = \<lparr>ryContext = (\<lambda>_. None), ryOperation = (\<lambda>k. if k < 4 then Some ''down'' else None), ryRetry = (\<lambda>_. True),
     ryWait = (\<lambda>_ _. None)\<rparr>"

theorem backoff_exact_witness:
  "recoveryBackoff demo_policy 3 = 10000000000 \<and> recoveryBackoff demo_policy 2 = 8000000000"
proof -
  have v: "bp_Validate demo_policy = None" by (simp add: valid_policy demo_policy_def)
  show ?thesis using backoff_exact [OF v, of 3] backoff_exact [OF v, of 2] by (simp add: demo_policy_def)
qed

theorem recovery_bounded_witness:
  "\<exists>r e ds. runBoundedRecovery demo_retry demo_policy = (r, e, ds) \<and> length ds = 3 \<and> atRecovered r \<and> atAttempts r = 4 \<and> sum_list ds \<le> 120000000000"
proof -
  have v: "bp_Validate demo_policy = None" by (simp add: valid_policy demo_policy_def)
  have run: "runBoundedRecovery demo_retry demo_policy = (\<lparr>atAttempts = 4, atRecovered = True\<rparr>, None, [4000000000, 8000000000, 10000000000])"
    by code_simp
  have "sum_list [4000000000, 8000000000, 10000000000::int] \<le> 120000000000" using recovery_bounded [OF v run] by blast
  then show ?thesis by (simp add: run)
qed

end
