(* ===== verification/Restart.thy ===== *)
theory Restart
  imports TimecodeRuntime CueEngine "HOL-Library.Multiset"
begin

text \<open>
  The restart boundary of the Hub: the policy of \<open>internal/recovery/policy.go\<close> and the reconciliation of the
  runtime tables in one transaction in \<open>internal/store/runtime_recovery.go\<close> (with the validation of
  checkpoints in \<open>simulation_checkpoint_recovery_validation.go\<close>), and the trigger of migration
  \<open>00013_session_foundation_f027.sql\<close> that classifies an interrupted session. JSON and SHA-256 are parameters; the
  completion times and latencies written on cancelled rows are left out.
\<close>

section \<open>The policy\<close>

datatype Disposition = DispositionPreserve | DispositionAbort | DispositionManualConfirmation

datatype TimecodeAuthority =
    TimecodeAuthorityInternal | TimecodeAuthorityExternal | TimecodeAuthorityMissing
  | TimecodeAuthorityAmbiguous | TimecodeAuthorityInvalid

datatype restart_reason =
    ReasonCleanInternalTimecodeRehearsal | ReasonShowRestartFailClosed | ReasonSimulationRestartFailClosed
  | ReasonSimulationCheckpointManual | ReasonUnsupportedSessionType | ReasonSessionLifecycleNotActive
  | ReasonExternalTimecodeAuthority | ReasonMissingTimecodeAuthority | ReasonAmbiguousTimecodeAuthority
  | ReasonInvalidTimecodeAuthority | ReasonInFlightExecutionInterrupted

record RestartContext =
  rxSessionType :: SessionType
  rxLifecycleState :: string
  rxTimecodeAuthority :: TimecodeAuthority
  rxHasInFlightWork :: bool
  rxHasTrustedCheckpoint :: bool

record RestartDecision =
  rdDisposition :: Disposition
  rdReasonCode :: restart_reason
  rdAutomatic :: bool
  rdReplayAllowed :: bool
  rdManualConfirmationRequired :: bool

definition abort_decision :: "restart_reason \<Rightarrow> RestartDecision" where
  "abort_decision reason = \<lparr>rdDisposition = DispositionAbort, rdReasonCode = reason, rdAutomatic = True,
     rdReplayAllowed = False, rdManualConfirmationRequired = False\<rparr>"

definition manual_decision :: "restart_reason \<Rightarrow> RestartDecision" where
  "manual_decision reason = \<lparr>rdDisposition = DispositionManualConfirmation, rdReasonCode = reason, rdAutomatic = False,
     rdReplayAllowed = False, rdManualConfirmationRequired = True\<rparr>"

definition EvaluateRestart :: "RestartContext \<Rightarrow> RestartDecision" where
  "EvaluateRestart x =
     (if rxSessionType x = SessionShow then abort_decision ReasonShowRestartFailClosed
      else if rxSessionType x = SessionSimulation then
        (if rxLifecycleState x = ''ACTIVE'' \<and> rxHasTrustedCheckpoint x then manual_decision ReasonSimulationCheckpointManual
         else abort_decision ReasonSimulationRestartFailClosed)
      else if rxSessionType x \<noteq> SessionRehearsal then abort_decision ReasonUnsupportedSessionType
      else if rxLifecycleState x \<noteq> ''ACTIVE'' then abort_decision ReasonSessionLifecycleNotActive
      else case rxTimecodeAuthority x of
        TimecodeAuthorityExternal \<Rightarrow> abort_decision ReasonExternalTimecodeAuthority
      | TimecodeAuthorityMissing \<Rightarrow> abort_decision ReasonMissingTimecodeAuthority
      | TimecodeAuthorityAmbiguous \<Rightarrow> abort_decision ReasonAmbiguousTimecodeAuthority
      | TimecodeAuthorityInvalid \<Rightarrow> abort_decision ReasonInvalidTimecodeAuthority
      | TimecodeAuthorityInternal \<Rightarrow>
          if rxHasInFlightWork x then abort_decision ReasonInFlightExecutionInterrupted
          else \<lparr>rdDisposition = DispositionPreserve, rdReasonCode = ReasonCleanInternalTimecodeRehearsal,
                rdAutomatic = True, rdReplayAllowed = False, rdManualConfirmationRequired = False\<rparr>)"

text \<open>
  \<open>rjTargets\<close> decodes the targets of a manifest (logical type and configuration), \<open>rjKind\<close> the kind of a
  source; \<open>None\<close> is a decoding error. \<open>rjTwin\<close> decodes version and snapshot of a twin state.
\<close>

record restart_json =
  rjTargets :: "string \<Rightarrow> (string \<times> string) list option"
  rjKind :: "string \<Rightarrow> string option"
  rjTwin :: "string \<Rightarrow> (int \<times> string) option"

definition ClassifyTimecodeAuthority :: "restart_json \<Rightarrow> string \<Rightarrow> TimecodeAuthority" where
  "ClassifyTimecodeAuthority rj raw =
     (case rjTargets rj raw of
        None \<Rightarrow> TimecodeAuthorityInvalid
      | Some targets \<Rightarrow>
        (case filter (\<lambda>(ty, c). fold_key (trim_space ty) = fold_key ''TIMECODE_SOURCE'') targets of
           [] \<Rightarrow> TimecodeAuthorityMissing
         | [(ty, c)] \<Rightarrow>
             (case rjKind rj c of
                None \<Rightarrow> TimecodeAuthorityInvalid
              | Some kind \<Rightarrow>
                if trim_space kind = [] then TimecodeAuthorityInvalid
                else if fold_key (trim_space kind) = fold_key ''INTERNAL'' then TimecodeAuthorityInternal
                else TimecodeAuthorityExternal)
         | _ \<Rightarrow> TimecodeAuthorityAmbiguous))"

section \<open>The tables\<close>

record SessionRow =
  ssID :: string
  ssProjectID :: string
  ssSnapshotID :: string
  ssType :: SessionType
  ssStartedUS :: int
  ssEndedUS :: "int option"
  ssStatus :: SessionStatus
  ssLifecycle :: string
  ssEndReason :: string
  ssRestoration :: string
  ssDesired :: "string option"
  ssManual :: bool

record ActionExecutionRow =
  axID :: string
  axCueExecutionID :: string
  axResult :: ExecutionResult
  axSummary :: string
  axErrorCode :: "string option"

record Checkpoint =
  cpID :: string
  cpSourceSessionID :: string
  cpProjectID :: string
  cpSnapshotID :: string
  cpContractVersion :: int
  cpCapturedUS :: int
  cpCurrentCue :: "string option"
  cpLastCompleted :: "string option"
  cpNextCue :: "string option"
  cpTwinState :: string
  cpContentHash :: string

record restartActiveSession =
  asID :: string
  asProjectID :: string
  asSnapshotID :: string
  asType :: SessionType
  asLifecycle :: string
  asManifest :: string

record restartDecisionEvidence =
  deDecision :: RestartDecision
  deAuthority :: TimecodeAuthority
  deInFlight :: bool
  deCheckpoint :: "Checkpoint option"

text \<open>\<open>tbManifests\<close> is the manifest of a snapshot; a foreign key gives every session one.\<close>

record tables =
  tbSessions :: "SessionRow list"
  tbManifests :: "string \<Rightarrow> string"
  tbCues :: "CueExecutionRow list"
  tbActions :: "ActionExecutionRow list"
  tbCheckpoints :: "Checkpoint list"
  tbDecisions :: "(string \<times> restartDecisionEvidence) list"
  tbInterrupted :: "(string \<times> string) list"

text \<open>\<open>reFails\<close> says which statement of the transaction fails, per session; \<open>reHash\<close> is the content hash.\<close>

datatype restart_statement = StBegin | StList | StWork | StCheckpoint | StActions | StCues | StSession | StTruth | StEvent

record restart_env =
  reNowUS :: int
  reJson :: restart_json
  reHash :: "Checkpoint \<Rightarrow> string option"
  reFails :: "restart_statement \<Rightarrow> string \<Rightarrow> bool"
  reCommit :: sql

section \<open>Evidence\<close>

definition simulationCheckpointRecoverableForSnapshot :: "restart_json \<Rightarrow> Checkpoint \<Rightarrow> string \<Rightarrow> bool" where
  "simulationCheckpointRecoverableForSnapshot rj c snapshotID =
     (cpContractVersion c = 1
      \<and> (case rjTwin rj (cpTwinState c) of
           None \<Rightarrow> False
         | Some (version, snap) \<Rightarrow> version = cpContractVersion c \<and> trim_space snap \<noteq> [] \<and> snap = trim_space snapshotID))"

text \<open>Newest first: later capture, then larger identifier.\<close>

definition checkpoint_before :: "Checkpoint \<Rightarrow> Checkpoint \<Rightarrow> bool" where
  "checkpoint_before a b \<longleftrightarrow>
     cpCapturedUS a > cpCapturedUS b \<or> cpCapturedUS a = cpCapturedUS b \<and> cpID a > cpID b"

fun insert_checkpoint :: "Checkpoint \<Rightarrow> Checkpoint list \<Rightarrow> Checkpoint list" where
  "insert_checkpoint c [] = [c]"
| "insert_checkpoint c (d # ds) = (if checkpoint_before d c then d # insert_checkpoint c ds else c # d # ds)"

definition latestSimulationRecoveryCheckpoint :: "restart_env \<Rightarrow> restartActiveSession \<Rightarrow> tables \<Rightarrow> Checkpoint option" where
  "latestSimulationRecoveryCheckpoint env se tb =
     find (\<lambda>c. reHash env c = Some (cpContentHash c) \<and> simulationCheckpointRecoverableForSnapshot (reJson env) c (asSnapshotID se))
       (foldr insert_checkpoint
          (filter (\<lambda>c. cpSourceSessionID c = asID se \<and> cpProjectID c = asProjectID se \<and> cpSnapshotID c = asSnapshotID se
                     \<and> cpContractVersion c = 1) (tbCheckpoints tb)) [])"

definition cue_of :: "tables \<Rightarrow> string \<Rightarrow> string \<Rightarrow> bool" where
  "cue_of tb sid xid \<longleftrightarrow> list_ex (\<lambda>x. cxID x = xid \<and> cxSessionID x = sid) (tbCues tb)"

definition hasRunningRuntimeWork :: "tables \<Rightarrow> string \<Rightarrow> bool" where
  "hasRunningRuntimeWork tb sid =
     (list_ex (\<lambda>x. cxSessionID x = sid \<and> cxResult x = ExecutionRunning) (tbCues tb)
      \<or> list_ex (\<lambda>a. cue_of tb sid (axCueExecutionID a) \<and> axResult a = ExecutionRunning) (tbActions tb))"

text \<open>The rows of the join, ordered by start and identifier.\<close>

definition session_before :: "SessionRow \<Rightarrow> SessionRow \<Rightarrow> bool" where
  "session_before a b \<longleftrightarrow> ssStartedUS a < ssStartedUS b \<or> ssStartedUS a = ssStartedUS b \<and> ssID a < ssID b"

fun insert_session_row :: "SessionRow \<Rightarrow> SessionRow list \<Rightarrow> SessionRow list" where
  "insert_session_row c [] = [c]"
| "insert_session_row c (d # ds) = (if session_before d c then d # insert_session_row c ds else c # d # ds)"

definition view_of :: "tables \<Rightarrow> SessionRow \<Rightarrow> restartActiveSession" where
  "view_of tb r = \<lparr>asID = ssID r, asProjectID = ssProjectID r, asSnapshotID = ssSnapshotID r, asType = ssType r,
     asLifecycle = ssLifecycle r, asManifest = tbManifests tb (ssSnapshotID r)\<rparr>"

definition active_rows :: "tables \<Rightarrow> restartActiveSession list" where
  "active_rows tb = map (view_of tb) (foldr insert_session_row (filter (\<lambda>r. ssStatus r = SessionActive) (tbSessions tb)) [])"

definition evidence :: "restart_env \<Rightarrow> tables \<Rightarrow> restartActiveSession \<Rightarrow> restartDecisionEvidence option" where
  "evidence env tb se =
     (let authority = ClassifyTimecodeAuthority (reJson env) (asManifest se);
          ask_work = (asType se = SessionRehearsal \<and> asLifecycle se = ''ACTIVE'' \<and> authority = TimecodeAuthorityInternal);
          ask_checkpoint = (asType se = SessionSimulation \<and> asLifecycle se = ''ACTIVE'') in
      if ask_work \<and> reFails env StWork (asID se) \<or> ask_checkpoint \<and> reFails env StCheckpoint (asID se) then None
      else
        let work = (ask_work \<and> hasRunningRuntimeWork tb (asID se));
            checkpoint = (if ask_checkpoint then latestSimulationRecoveryCheckpoint env se tb else None) in
        Some \<lparr>deDecision = EvaluateRestart \<lparr>rxSessionType = asType se, rxLifecycleState = asLifecycle se,
                rxTimecodeAuthority = authority, rxHasInFlightWork = work, rxHasTrustedCheckpoint = (checkpoint \<noteq> None)\<rparr>,
              deAuthority = authority, deInFlight = work, deCheckpoint = checkpoint\<rparr>)"

fun all_evidence :: "restart_env \<Rightarrow> tables \<Rightarrow> restartActiveSession list \<Rightarrow> (restartActiveSession \<times> restartDecisionEvidence) list option" where
  "all_evidence env tb [] = Some []"
| "all_evidence env tb (se # ses) =
     (case evidence env tb se of None \<Rightarrow> None
      | Some e \<Rightarrow> map_option (\<lambda>es. (se, e) # es) (all_evidence env tb ses))"

section \<open>Writing\<close>

definition cancel_actions :: "string \<Rightarrow> tables \<Rightarrow> tables" where
  "cancel_actions sid tb = tb\<lparr>tbActions := map (\<lambda>a.
     if axResult a = ExecutionRunning \<and> cue_of tb sid (axCueExecutionID a)
     then a\<lparr>axResult := ExecutionCancelled,
            axSummary := (if axSummary a = [] then ''Hub restarted before a terminal action result'' else axSummary a),
            axErrorCode := (case axErrorCode a of None \<Rightarrow> Some ''HUB_RESTART_INTERRUPTED'' | Some e \<Rightarrow> Some e)\<rparr> else a) (tbActions tb)\<rparr>"

definition cancel_cues :: "string \<Rightarrow> tables \<Rightarrow> tables" where
  "cancel_cues sid tb = tb\<lparr>tbCues := map (\<lambda>x.
     if cxResult x = ExecutionRunning \<and> cxSessionID x = sid then x\<lparr>cxResult := ExecutionCancelled\<rparr> else x) (tbCues tb)\<rparr>"

text \<open>The trigger \<open>session_foundation_classify_restart_interruption\<close> on the rows the update ends.\<close>

definition interrupt_row :: "SessionRow \<Rightarrow> SessionRow" where
  "interrupt_row r =
     (if ssLifecycle r = ''ACTIVE'' \<and> ssEndReason r = []
      then r\<lparr>ssLifecycle := (if ssType r = SessionRehearsal then ''SUSPENDED'' else ''ABORTED''),
             ssEndReason := ''HUB_RESTART_INTERRUPTED'', ssRestoration := ''MANUAL_CONFIRMATION_REQUIRED'', ssManual := True\<rparr>
      else r)"

definition abort_session :: "int \<Rightarrow> string \<Rightarrow> tables \<Rightarrow> tables \<times> nat" where
  "abort_session nowUS sid tb =
     (let hit = (\<lambda>r. ssID r = sid \<and> ssStatus r = SessionActive) in
      (tb\<lparr>tbSessions := map (\<lambda>r. if hit r then interrupt_row (r\<lparr>ssEndedUS := Some nowUS, ssStatus := SessionAborted\<rparr>) else r) (tbSessions tb),
          tbInterrupted := tbInterrupted tb @ map (\<lambda>r. (sid, if ssType r = SessionRehearsal then ''rehearsal.suspended''
             else if ssType r = SessionShow then ''show.interrupted'' else ''simulation.interrupted''))
             (filter (\<lambda>r. hit r \<and> ssLifecycle r = ''ACTIVE'' \<and> ssEndReason r = []) (tbSessions tb))\<rparr>,
       length (filter hit (tbSessions tb))))"

definition set_truth :: "string \<Rightarrow> string \<Rightarrow> string option \<Rightarrow> bool \<Rightarrow> tables \<Rightarrow> tables" where
  "set_truth sid restoration desired manual tb = tb\<lparr>tbSessions := map (\<lambda>r.
     if ssID r = sid \<and> ssStatus r = SessionAborted
     then r\<lparr>ssRestoration := restoration, ssDesired := desired, ssManual := manual\<rparr> else r) (tbSessions tb)\<rparr>"

definition close_session :: "restart_env \<Rightarrow> restartActiveSession \<Rightarrow> restartDecisionEvidence \<Rightarrow> tables \<Rightarrow> (tables \<times> nat) option" where
  "close_session env se e tb =
     (let sid = asID se in
      if reFails env StActions sid \<or> reFails env StCues sid \<or> reFails env StSession sid then None
      else
        let (tb1, n) = abort_session (reNowUS env) sid (cancel_cues sid (cancel_actions sid tb)) in
        (case rdDisposition (deDecision e) of
           DispositionManualConfirmation \<Rightarrow>
             (case deCheckpoint e of
                None \<Rightarrow> None
              | Some c \<Rightarrow> if reFails env StTruth sid then None
                  else Some (set_truth sid ''MANUAL_CONFIRMATION_REQUIRED'' (Some (cpID c)) True tb1, n))
         | DispositionAbort \<Rightarrow>
             if asType se \<noteq> SessionRehearsal
             then if reFails env StTruth sid then None else Some (set_truth sid ''UNAVAILABLE'' None False tb1, n)
             else Some (tb1, n)
         | DispositionPreserve \<Rightarrow> Some (tb1, n)))"

definition restart_session :: "restart_env \<Rightarrow> restartActiveSession \<Rightarrow> restartDecisionEvidence \<Rightarrow> tables \<Rightarrow> (tables \<times> nat) option" where
  "restart_session env se e tb =
     (case (if rdDisposition (deDecision e) = DispositionPreserve then Some (tb, 0) else close_session env se e tb) of
        None \<Rightarrow> None
      | Some (tb1, n) \<Rightarrow>
        if reFails env StEvent (asID se) then None else Some (tb1\<lparr>tbDecisions := tbDecisions tb1 @ [(asID se, e)]\<rparr>, n))"

fun restart_sessions :: "restart_env \<Rightarrow> (restartActiveSession \<times> restartDecisionEvidence) list \<Rightarrow> tables \<Rightarrow> nat \<Rightarrow> (tables \<times> nat) option" where
  "restart_sessions env [] tb n = Some (tb, n)"
| "restart_sessions env ((se, e) # es) tb n =
     (case restart_session env se e tb of None \<Rightarrow> None | Some (tb1, k) \<Rightarrow> restart_sessions env es tb1 (n + k))"

definition restart_tx :: "restart_env \<Rightarrow> tables \<Rightarrow> (tables \<times> nat) option" where
  "restart_tx env tb =
     (if reFails env StBegin [] \<or> reFails env StList [] then None
      else case all_evidence env tb (active_rows tb) of None \<Rightarrow> None | Some es \<Rightarrow> restart_sessions env es tb 0)"

text \<open>An error rolls the transaction back; the commit may also take effect and lose its reply.\<close>

definition ReconcileInterruptedRuntimeForHub :: "restart_env \<Rightarrow> tables \<Rightarrow> tables \<times> nat option" where
  "ReconcileInterruptedRuntimeForHub env tb =
     (case restart_tx env tb of
        None \<Rightarrow> (tb, None)
      | Some (tb', n) \<Rightarrow>
        (case reCommit env of SqlOk \<Rightarrow> (tb', Some n) | SqlFail \<Rightarrow> (tb, None) | SqlReplyLost \<Rightarrow> (tb', None)))"

section \<open>Every row has its own outcome\<close>

text \<open>What the transaction does to one row of the session table: the specification the statements refine.\<close>

definition ended_row :: "restart_env \<Rightarrow> SessionRow \<Rightarrow> SessionRow" where
  "ended_row env r = (if ssStatus r = SessionActive then interrupt_row (r\<lparr>ssEndedUS := Some (reNowUS env), ssStatus := SessionAborted\<rparr>) else r)"

definition truth_row :: "string \<Rightarrow> string option \<Rightarrow> bool \<Rightarrow> SessionRow \<Rightarrow> SessionRow" where
  "truth_row restoration desired manual r =
     (if ssStatus r = SessionAborted then r\<lparr>ssRestoration := restoration, ssDesired := desired, ssManual := manual\<rparr> else r)"

definition outcome_row :: "restart_env \<Rightarrow> restartActiveSession \<Rightarrow> restartDecisionEvidence \<Rightarrow> SessionRow \<Rightarrow> SessionRow" where
  "outcome_row env se e r =
     (case rdDisposition (deDecision e) of
        DispositionPreserve \<Rightarrow> r
      | DispositionManualConfirmation \<Rightarrow>
          truth_row ''MANUAL_CONFIRMATION_REQUIRED'' (map_option cpID (deCheckpoint e)) True (ended_row env r)
      | DispositionAbort \<Rightarrow>
          if asType se \<noteq> SessionRehearsal then truth_row ''UNAVAILABLE'' None False (ended_row env r) else ended_row env r)"

definition restart_row :: "restart_env \<Rightarrow> tables \<Rightarrow> SessionRow \<Rightarrow> SessionRow" where
  "restart_row env tb r =
     (if ssStatus r = SessionActive
      then (case evidence env tb (view_of tb r) of None \<Rightarrow> r | Some e \<Rightarrow> outcome_row env (view_of tb r) e r) else r)"

lemma interrupt_row_sel [simp]:
  "ssID (interrupt_row r) = ssID r" "ssStatus (interrupt_row r) = ssStatus r" "ssType (interrupt_row r) = ssType r"
  by (simp_all add: interrupt_row_def)

lemma ended_row_sel [simp]:
  "ssID (ended_row env r) = ssID r" "ssStatus (ended_row env r) \<noteq> SessionActive" "ssType (ended_row env r) = ssType r"
  by (simp_all add: ended_row_def)

lemma truth_row_sel [simp]:
  "ssID (truth_row a b c r) = ssID r" "ssStatus (truth_row a b c r) = ssStatus r" "ssType (truth_row a b c r) = ssType r"
  by (simp_all add: truth_row_def)

lemma outcome_row_sel [simp]: "ssID (outcome_row env se e r) = ssID r" "ssType (outcome_row env se e r) = ssType r"
  by (simp_all add: outcome_row_def split: Disposition.splits)

lemma restart_row_sel [simp]: "ssID (restart_row env tb r) = ssID r"
  by (simp add: restart_row_def split: option.splits)

lemma outcome_row_active: "ssStatus (outcome_row env se e r) = SessionActive \<longleftrightarrow>
    ssStatus r = SessionActive \<and> rdDisposition (deDecision e) = DispositionPreserve"
  by (simp add: outcome_row_def split: Disposition.splits)

subsection \<open>The statements\<close>

definition frame_of :: "tables \<Rightarrow> (string \<Rightarrow> string) \<times> Checkpoint list \<times> (string \<times> restartDecisionEvidence) list" where
  "frame_of tb = (tbManifests tb, tbCheckpoints tb, tbDecisions tb)"

lemma abort_session_parts:
  assumes "abort_session t sid tb = (tb1, n)"
  shows "tbSessions tb1 = map (\<lambda>r. if ssID r = sid \<and> ssStatus r = SessionActive
            then interrupt_row (r\<lparr>ssEndedUS := Some t, ssStatus := SessionAborted\<rparr>) else r) (tbSessions tb)"
    and "tbCues tb1 = tbCues tb" "tbActions tb1 = tbActions tb" "frame_of tb1 = frame_of tb"
    and "n = length (filter (\<lambda>r. ssID r = sid \<and> ssStatus r = SessionActive) (tbSessions tb))"
  using assms by (auto simp: abort_session_def Let_def frame_of_def)

lemma set_truth_parts:
  "tbSessions (set_truth sid a b c tb) = map (\<lambda>r. if ssID r = sid then truth_row a b c r else r) (tbSessions tb)"
  "tbCues (set_truth sid a b c tb) = tbCues tb" "tbActions (set_truth sid a b c tb) = tbActions tb"
  "frame_of (set_truth sid a b c tb) = frame_of tb"
  by (auto simp: set_truth_def truth_row_def frame_of_def)

lemma cancel_parts:
  "tbSessions (cancel_cues sid (cancel_actions sid tb)) = tbSessions tb"
  "frame_of (cancel_cues sid (cancel_actions sid tb)) = frame_of tb"
  by (simp_all add: cancel_cues_def cancel_actions_def frame_of_def)

lemma cancel_running:
  assumes "hasRunningRuntimeWork (cancel_cues sid (cancel_actions sid tb)) x"
  shows "x \<noteq> sid \<and> hasRunningRuntimeWork tb x"
  using assms
  by (auto simp: hasRunningRuntimeWork_def cancel_cues_def cancel_actions_def cue_of_def list_ex_iff split: if_splits)

lemma running_cong:
  assumes "tbCues tb1 = tbCues tb" and "tbActions tb1 = tbActions tb"
  shows "hasRunningRuntimeWork tb1 x = hasRunningRuntimeWork tb x"
  using assms by (simp add: hasRunningRuntimeWork_def cue_of_def)

lemma close_session_parts:
  assumes "close_session env se e tb = Some (tb1, n)" and "rdDisposition (deDecision e) \<noteq> DispositionPreserve"
  shows "tbSessions tb1 = map (\<lambda>r. if ssID r = asID se then outcome_row env se e r else r) (tbSessions tb)"
    and "frame_of tb1 = frame_of tb"
    and "hasRunningRuntimeWork tb1 x \<Longrightarrow> x \<noteq> asID se \<and> hasRunningRuntimeWork tb x"
    and "n = length (filter (\<lambda>r. ssID r = asID se \<and> ssStatus r = SessionActive) (tbSessions tb))"
proof -
  let ?tc = "cancel_cues (asID se) (cancel_actions (asID se) tb)"
  obtain ta k where ab: "abort_session (reNowUS env) (asID se) ?tc = (ta, k)" by fastforce
  note parts = abort_session_parts [OF ab]
  have rows: "tbSessions ta = map (\<lambda>r. if ssID r = asID se then ended_row env r else r) (tbSessions tb)"
    by (simp add: parts(1) cancel_parts ended_row_def cong: if_cong)
  have run: "hasRunningRuntimeWork ta x \<Longrightarrow> x \<noteq> asID se \<and> hasRunningRuntimeWork tb x"
    using cancel_running [of "asID se" tb x] running_cong [OF parts(2,3), of x] by simp
  have k: "k = length (filter (\<lambda>r. ssID r = asID se \<and> ssStatus r = SessionActive) (tbSessions tb))"
    by (simp add: parts(5) cancel_parts)
  have fr: "frame_of ta = frame_of tb" by (simp add: parts(4) cancel_parts)
  consider c where "rdDisposition (deDecision e) = DispositionManualConfirmation" "deCheckpoint e = Some c"
      "tb1 = set_truth (asID se) ''MANUAL_CONFIRMATION_REQUIRED'' (Some (cpID c)) True ta" "n = k"
    | "rdDisposition (deDecision e) = DispositionAbort" "asType se \<noteq> SessionRehearsal"
      "tb1 = set_truth (asID se) ''UNAVAILABLE'' None False ta" "n = k"
    | "rdDisposition (deDecision e) = DispositionAbort" "asType se = SessionRehearsal" "tb1 = ta" "n = k"
    using assms by (auto simp: close_session_def ab Let_def split: if_splits Disposition.splits option.splits)
  note three = this
  have truth: "hasRunningRuntimeWork (set_truth (asID se) a b c ta) x = hasRunningRuntimeWork ta x" for a b c
    by (rule running_cong) (simp_all add: set_truth_parts)
  show "tbSessions tb1 = map (\<lambda>r. if ssID r = asID se then outcome_row env se e r else r) (tbSessions tb)"
    using three by cases (simp_all add: set_truth_parts rows outcome_row_def)
  show "frame_of tb1 = frame_of tb" using three by cases (simp_all add: set_truth_parts fr)
  show "hasRunningRuntimeWork tb1 x \<Longrightarrow> x \<noteq> asID se \<and> hasRunningRuntimeWork tb x"
    using three by cases (simp_all add: truth run)
  show "n = length (filter (\<lambda>r. ssID r = asID se \<and> ssStatus r = SessionActive) (tbSessions tb))"
    using three by cases (simp_all add: k)
qed

lemma restart_session_parts:
  assumes "restart_session env se e tb = Some (tb1, n)"
  shows "tbSessions tb1 = map (\<lambda>r. if ssID r = asID se then outcome_row env se e r else r) (tbSessions tb)"
    and "tbDecisions tb1 = tbDecisions tb @ [(asID se, e)]"
    and "hasRunningRuntimeWork tb1 x \<Longrightarrow>
      hasRunningRuntimeWork tb x \<and> (x = asID se \<longrightarrow> rdDisposition (deDecision e) = DispositionPreserve)"
    and "n = (if rdDisposition (deDecision e) = DispositionPreserve then 0
              else length (filter (\<lambda>r. ssID r = asID se \<and> ssStatus r = SessionActive) (tbSessions tb)))"
proof -
  obtain ta where ta: "(if rdDisposition (deDecision e) = DispositionPreserve then Some (tb, 0) else close_session env se e tb) = Some (ta, n)"
      and tb1: "tb1 = ta\<lparr>tbDecisions := tbDecisions ta @ [(asID se, e)]\<rparr>"
    using assms by (auto simp: restart_session_def split: option.splits if_splits)
  have run: "hasRunningRuntimeWork tb1 x = hasRunningRuntimeWork ta x" for x by (rule running_cong) (simp_all add: tb1)
  consider (kept) "rdDisposition (deDecision e) = DispositionPreserve" "ta = tb" "n = 0"
    | (closed) "rdDisposition (deDecision e) \<noteq> DispositionPreserve" "close_session env se e tb = Some (ta, n)"
    using ta by (auto split: if_splits)
  note two = this
  show "tbSessions tb1 = map (\<lambda>r. if ssID r = asID se then outcome_row env se e r else r) (tbSessions tb)"
    using two by cases (simp_all add: tb1 close_session_parts(1) outcome_row_def cong: if_cong)
  show "tbDecisions tb1 = tbDecisions tb @ [(asID se, e)]"
    using two
  proof cases
    case closed
    then show ?thesis using close_session_parts(2) [OF closed(2,1)] by (simp add: tb1 frame_of_def)
  qed (simp add: tb1)
  show "hasRunningRuntimeWork tb1 x \<Longrightarrow>
      hasRunningRuntimeWork tb x \<and> (x = asID se \<longrightarrow> rdDisposition (deDecision e) = DispositionPreserve)"
    using two
  proof cases
    case closed
    then show "hasRunningRuntimeWork tb1 x \<Longrightarrow>
        hasRunningRuntimeWork tb x \<and> (x = asID se \<longrightarrow> rdDisposition (deDecision e) = DispositionPreserve)"
      using close_session_parts(3) [OF closed(2,1), of x] by (simp add: run)
  qed (simp add: run)
  show "n = (if rdDisposition (deDecision e) = DispositionPreserve then 0
              else length (filter (\<lambda>r. ssID r = asID se \<and> ssStatus r = SessionActive) (tbSessions tb)))"
    using two
  proof cases
    case closed
    then show ?thesis using close_session_parts(4) [OF closed(2,1)] by simp
  qed simp
qed

subsection \<open>The transaction\<close>

text \<open>The outcome of a row after the steps of several sessions.\<close>

fun steps_row :: "restart_env \<Rightarrow> (restartActiveSession \<times> restartDecisionEvidence) list \<Rightarrow> SessionRow \<Rightarrow> SessionRow" where
  "steps_row env [] r = r"
| "steps_row env ((se, e) # es) r = steps_row env es (if ssID r = asID se then outcome_row env se e r else r)"

lemma steps_row_other: "ssID r \<notin> asID ` fst ` set es \<Longrightarrow> steps_row env es r = r"
  by (induction es) auto

lemma steps_row_own:
  "\<lbrakk>(se, e) \<in> set es; distinct (map (asID \<circ> fst) es); ssID r = asID se\<rbrakk> \<Longrightarrow> steps_row env es r = outcome_row env se e r"
proof (induction es)
  case (Cons d es)
  obtain se' e' where d: "d = (se', e')" by (cases d)
  show ?case
  proof (cases "(se, e) = d")
    case True
    have "ssID (outcome_row env se e r) \<notin> asID ` fst ` set es"
      using Cons.prems(2,3) by (simp add: True [symmetric] comp_def image_image)
    then show ?thesis using Cons.prems(3) by (simp add: True [symmetric] steps_row_other)
  next
    case False
    then have "(se, e) \<in> set es" using Cons.prems(1) by simp
    moreover from this have "asID se \<noteq> asID se'" using Cons.prems(2) d by (force simp: comp_def)
    ultimately show ?thesis using Cons d by simp
  qed
qed simp

definition active_count :: "tables \<Rightarrow> nat" where
  "active_count tb = length (filter (\<lambda>r. ssStatus r = SessionActive) (tbSessions tb))"

lemma closed_count:
  assumes "rdDisposition (deDecision e) \<noteq> DispositionPreserve"
  shows "length (filter (\<lambda>r. ssStatus r = SessionActive) rs)
    = length (filter (\<lambda>r. ssID r = asID se \<and> ssStatus r = SessionActive) rs)
      + length (filter (\<lambda>r. ssStatus r = SessionActive) (map (\<lambda>r. if ssID r = asID se then outcome_row env se e r else r) rs))"
  using assms by (induction rs) (auto simp: outcome_row_active)

lemma kept_outcome: "rdDisposition (deDecision e) = DispositionPreserve \<Longrightarrow> outcome_row env se e r = r"
  by (simp add: outcome_row_def)

lemma restart_session_count:
  assumes "restart_session env se e tb = Some (tb1, n)"
  shows "active_count tb = n + active_count tb1"
proof (cases "rdDisposition (deDecision e) = DispositionPreserve")
  case True
  then show ?thesis using restart_session_parts(1,4) [OF assms] by (simp add: active_count_def kept_outcome cong: if_cong)
next
  case False
  then show ?thesis using restart_session_parts(1,4) [OF assms] closed_count [OF False, of "tbSessions tb" se env]
    by (simp add: active_count_def)
qed

lemma restart_sessions_parts:
  "restart_sessions env es tb n = Some (tb', m) \<Longrightarrow>
     tbSessions tb' = map (steps_row env es) (tbSessions tb)
     \<and> tbDecisions tb' = tbDecisions tb @ map (\<lambda>(se, e). (asID se, e)) es
     \<and> (hasRunningRuntimeWork tb' x \<longrightarrow> hasRunningRuntimeWork tb x
        \<and> (\<forall>(se, e) \<in> set es. asID se = x \<longrightarrow> rdDisposition (deDecision e) = DispositionPreserve))
     \<and> n + active_count tb = m + active_count tb'"
proof (induction env es tb n rule: restart_sessions.induct)
  case (2 env se e es tb n)
  then obtain tb1 k where one: "restart_session env se e tb = Some (tb1, k)" and rest: "restart_sessions env es tb1 (n + k) = Some (tb', m)"
    by (auto split: option.splits)
  note ih = "2.IH" [OF one refl rest]
  note p = restart_session_parts [OF one] restart_session_count [OF one]
  have "tbSessions tb' = map (steps_row env ((se, e) # es)) (tbSessions tb)"
    using ih by (simp add: p(1))
  moreover have "tbDecisions tb' = tbDecisions tb @ map (\<lambda>(se, e). (asID se, e)) ((se, e) # es)"
    using ih by (simp add: p(2))
  moreover have "hasRunningRuntimeWork tb' x \<longrightarrow> hasRunningRuntimeWork tb x
        \<and> (\<forall>(se, e) \<in> set ((se, e) # es). asID se = x \<longrightarrow> rdDisposition (deDecision e) = DispositionPreserve)"
    using ih p(3) [of x] by auto
  moreover have "n + active_count tb = m + active_count tb'" using ih p(5) by simp
  ultimately show ?case by blast
qed (simp_all add: map_idI)

lemma set_insert_session_row [simp]: "set (insert_session_row r rs) = insert r (set rs)"
  by (induction rs) auto

lemma map_insert_session_row: "mset (insert_session_row r rs) = add_mset r (mset rs)"
  by (induction rs) auto

lemma active_rows_view:
  "mset (active_rows tb) = mset (map (view_of tb) (filter (\<lambda>r. ssStatus r = SessionActive) (tbSessions tb)))"
proof -
  have "mset (foldr insert_session_row rs []) = mset rs" for rs by (induction rs) (simp_all add: map_insert_session_row)
  then show ?thesis by (simp add: active_rows_def)
qed

lemma all_evidence_Some:
  "all_evidence env tb ses = Some es \<Longrightarrow> map fst es = ses \<and> (\<forall>(se, e) \<in> set es. evidence env tb se = Some e)"
  by (induction ses arbitrary: es) (auto split: option.splits)

text \<open>With distinct identifiers the transaction does to each row what its own evidence says.\<close>

lemma restart_tx_rows:
  assumes "distinct (map ssID (tbSessions tb))" and "restart_tx env tb = Some (tb', n)"
  shows "tbSessions tb' = map (restart_row env tb) (tbSessions tb)"
    and "\<And>r. \<lbrakk>r \<in> set (tbSessions tb); ssStatus r = SessionActive\<rbrakk> \<Longrightarrow> \<exists>e. evidence env tb (view_of tb r) = Some e"
    and "\<And>r e. \<lbrakk>r \<in> set (tbSessions tb); ssStatus r = SessionActive; evidence env tb (view_of tb r) = Some e; hasRunningRuntimeWork tb' (ssID r)\<rbrakk>
        \<Longrightarrow> hasRunningRuntimeWork tb (ssID r) \<and> rdDisposition (deDecision e) = DispositionPreserve"
    and "active_count tb = n + active_count tb'"
    and "\<exists>es. tbDecisions tb' = tbDecisions tb @ es \<and> map fst es = map asID (active_rows tb)
        \<and> (\<forall>(s, e) \<in> set es. \<exists>se \<in> set (active_rows tb). asID se = s \<and> evidence env tb se = Some e)"
proof -
  obtain es where ev: "all_evidence env tb (active_rows tb) = Some es" and run: "restart_sessions env es tb 0 = Some (tb', n)"
    using assms(2) by (auto simp: restart_tx_def split: if_splits option.splits)
  note al = all_evidence_Some [OF ev]
  have listed: "set (active_rows tb) = view_of tb ` {r \<in> set (tbSessions tb). ssStatus r = SessionActive}"
    using active_rows_view [of tb, THEN mset_eq_setD] by simp
  have one: "\<exists>e. (view_of tb r, e) \<in> set es \<and> evidence env tb (view_of tb r) = Some e"
    if "r \<in> set (tbSessions tb)" "ssStatus r = SessionActive" for r
  proof -
    have "view_of tb r \<in> set (map fst es)" using al listed that by simp
    then obtain e where "(view_of tb r, e) \<in> set es" by auto
    then show ?thesis using al by auto
  qed
  have "mset (map asID (active_rows tb)) = mset (map ssID (filter (\<lambda>r. ssStatus r = SessionActive) (tbSessions tb)))"
    using arg_cong [OF active_rows_view [of tb], of "image_mset asID"]
    by (simp add: multiset.map_comp comp_def view_of_def)
  then have "distinct (map asID (active_rows tb))"
    using assms(1) mset_eq_imp_distinct_iff distinct_map_filter by metis
  then have ids: "distinct (map (asID \<circ> fst) es)" using al by (simp flip: map_map)
  have id_view: "asID (view_of tb r) = ssID r" for r by (simp add: view_of_def)
  have row: "steps_row env es r = restart_row env tb r" if r: "r \<in> set (tbSessions tb)" for r
  proof (cases "ssStatus r = SessionActive")
    case True
    then obtain e where e: "(view_of tb r, e) \<in> set es" "evidence env tb (view_of tb r) = Some e" using one r by blast
    then show ?thesis using steps_row_own [OF e(1) ids] True by (simp add: restart_row_def id_view)
  next
    case False
    have "ssID r \<notin> asID ` fst ` set es"
    proof
      assume "ssID r \<in> asID ` fst ` set es"
      then have "ssID r \<in> asID ` set (active_rows tb)" using al by (metis list.set_map)
      then obtain q where q: "q \<in> set (tbSessions tb)" "ssStatus q = SessionActive" "ssID q = ssID r"
        using listed by (auto simp: id_view)
      then have "q = r" using assms(1) r by (simp add: distinct_map inj_on_def)
      with q False show False by simp
    qed
    then show ?thesis using False by (simp add: steps_row_other restart_row_def)
  qed
  note parts = restart_sessions_parts [OF run]
  show "tbSessions tb' = map (restart_row env tb) (tbSessions tb)" using parts row by simp
  show "\<exists>e. evidence env tb (view_of tb r) = Some e" if "r \<in> set (tbSessions tb)" "ssStatus r = SessionActive" for r
    using one that by blast
  show "hasRunningRuntimeWork tb (ssID r) \<and> rdDisposition (deDecision e) = DispositionPreserve"
    if r: "r \<in> set (tbSessions tb)" "ssStatus r = SessionActive" "evidence env tb (view_of tb r) = Some e"
      and w: "hasRunningRuntimeWork tb' (ssID r)" for r e
  proof -
    obtain e' where "(view_of tb r, e') \<in> set es" "evidence env tb (view_of tb r) = Some e'" using one r by blast
    then have "(view_of tb r, e) \<in> set es" using r(3) by simp
    then show ?thesis using parts [of "ssID r"] w by (auto simp: id_view)
  qed
  show "active_count tb = n + active_count tb'" using parts by simp
  show "\<exists>es. tbDecisions tb' = tbDecisions tb @ es \<and> map fst es = map asID (active_rows tb)
        \<and> (\<forall>(s, e) \<in> set es. \<exists>se \<in> set (active_rows tb). asID se = s \<and> evidence env tb se = Some e)"
  proof (intro exI conjI)
    show "tbDecisions tb' = tbDecisions tb @ map (\<lambda>(se, e). (asID se, e)) es" using parts by simp
    show "map fst (map (\<lambda>(se, e). (asID se, e)) es) = map asID (active_rows tb)"
      by (simp only: al [THEN conjunct1, symmetric]) (simp add: comp_def case_prod_beta)
    show "\<forall>(s, e) \<in> set (map (\<lambda>(se, e). (asID se, e)) es). \<exists>se \<in> set (active_rows tb). asID se = s \<and> evidence env tb se = Some e"
    proof clarsimp
      fix se e assume m: "(se, e) \<in> set es"
      then have "se \<in> set (map fst es)" by force
      then show "\<exists>q \<in> set (active_rows tb). asID q = asID se \<and> evidence env tb q = Some e" using al m by auto
    qed
  qed
qed

section \<open>The restart boundary\<close>

lemma preserved_only:
  "rdDisposition (EvaluateRestart x) = DispositionPreserve \<longleftrightarrow>
     rxSessionType x = SessionRehearsal \<and> rxLifecycleState x = ''ACTIVE''
     \<and> rxTimecodeAuthority x = TimecodeAuthorityInternal \<and> \<not> rxHasInFlightWork x"
  by (auto simp: EvaluateRestart_def abort_decision_def manual_decision_def split: TimecodeAuthority.splits)

lemma manual_only:
  "rdDisposition (EvaluateRestart x) = DispositionManualConfirmation \<longleftrightarrow>
     rxSessionType x = SessionSimulation \<and> rxLifecycleState x = ''ACTIVE'' \<and> rxHasTrustedCheckpoint x"
  by (auto simp: EvaluateRestart_def abort_decision_def manual_decision_def split: TimecodeAuthority.splits)

lemma replay_never: "\<not> rdReplayAllowed (EvaluateRestart x)"
  by (simp add: EvaluateRestart_def abort_decision_def manual_decision_def split: TimecodeAuthority.splits)

lemma evidence_decision:
  assumes "evidence env tb se = Some e"
  shows "rdDisposition (deDecision e) = DispositionPreserve \<longleftrightarrow> asType se = SessionRehearsal \<and> asLifecycle se = ''ACTIVE''
      \<and> ClassifyTimecodeAuthority (reJson env) (asManifest se) = TimecodeAuthorityInternal \<and> \<not> hasRunningRuntimeWork tb (asID se)"
    and "\<not> rdReplayAllowed (deDecision e)"
    and "rdDisposition (deDecision e) = DispositionManualConfirmation \<longleftrightarrow> deCheckpoint e \<noteq> None"
    and "deCheckpoint e = (if asType se = SessionSimulation \<and> asLifecycle se = ''ACTIVE''
           then latestSimulationRecoveryCheckpoint env se tb else None)"
  using assms
  by (auto simp: evidence_def Let_def preserved_only manual_only replay_never split: if_splits)

lemma set_insert_checkpoint [simp]: "set (insert_checkpoint c cs) = insert c (set cs)"
  by (induction cs) auto

lemma trusted_checkpoint:
  assumes "latestSimulationRecoveryCheckpoint env se tb = Some c"
  shows "c \<in> set (tbCheckpoints tb)" "cpSourceSessionID c = asID se" "cpSnapshotID c = asSnapshotID se"
    and "reHash env c = Some (cpContentHash c)"
proof -
  have all: "set (foldr insert_checkpoint cs []) = set cs" for cs by (induction cs) simp_all
  show "c \<in> set (tbCheckpoints tb)" "cpSourceSessionID c = asID se" "cpSnapshotID c = asSnapshotID se"
      "reHash env c = Some (cpContentHash c)"
    using assms by (auto simp: latestSimulationRecoveryCheckpoint_def find_Some_iff all dest!: nth_mem)
qed

text \<open>
  C19. Restart fails closed: when the reconciliation reports a count, a session is still active only if it was an
  active rehearsal under internal timecode without running work, every row of the session table is exactly the
  outcome of its own evidence, no session that was active has running work left, the count is the number of
  sessions closed, and every recorded decision forbids replay and carries a checkpoint only if it is an intact one of
  that session.
\<close>

theorem restart_fail_closed:
  assumes "distinct (map ssID (tbSessions tb))" and "ReconcileInterruptedRuntimeForHub env tb = (tb', Some n)"
  shows "tbSessions tb' = map (restart_row env tb) (tbSessions tb)
    \<and> (\<forall>r \<in> set (tbSessions tb'). ssStatus r = SessionActive \<longrightarrow>
         r \<in> set (tbSessions tb) \<and> ssType r = SessionRehearsal \<and> ssLifecycle r = ''ACTIVE''
         \<and> ClassifyTimecodeAuthority (reJson env) (tbManifests tb (ssSnapshotID r)) = TimecodeAuthorityInternal)
    \<and> (\<forall>r \<in> set (tbSessions tb). ssStatus r = SessionActive \<longrightarrow> \<not> hasRunningRuntimeWork tb' (ssID r))
    \<and> active_count tb = n + active_count tb'
    \<and> (\<exists>es. tbDecisions tb' = tbDecisions tb @ es \<and> map fst es = map asID (active_rows tb)
        \<and> (\<forall>(s, e) \<in> set es. \<not> rdReplayAllowed (deDecision e)
             \<and> (\<forall>c. deCheckpoint e = Some c \<longrightarrow> c \<in> set (tbCheckpoints tb) \<and> cpSourceSessionID c = s \<and> reHash env c = Some (cpContentHash c))))"
proof -
  have "restart_tx env tb = Some (tb', n)"
    using assms(2) by (auto simp: ReconcileInterruptedRuntimeForHub_def split: option.splits sql.splits)
  note rows = restart_tx_rows [OF assms(1) this]
  have act: "r \<in> set (tbSessions tb) \<and> ssType r = SessionRehearsal \<and> ssLifecycle r = ''ACTIVE''
      \<and> ClassifyTimecodeAuthority (reJson env) (tbManifests tb (ssSnapshotID r)) = TimecodeAuthorityInternal"
    if r': "r \<in> set (tbSessions tb')" and "ssStatus r = SessionActive" for r
  proof -
    obtain q where q: "q \<in> set (tbSessions tb)" "r = restart_row env tb q" using r' rows(1) by auto
    have a: "ssStatus q = SessionActive" using that(2) q(2) by (auto simp: restart_row_def outcome_row_active split: if_splits option.splits)
    obtain e where e: "evidence env tb (view_of tb q) = Some e" using rows(2) [OF q(1) a] by blast
    have r: "r = outcome_row env (view_of tb q) e q" using q(2) a e by (simp add: restart_row_def)
    have d: "rdDisposition (deDecision e) = DispositionPreserve" using that(2) r by (simp add: outcome_row_active)
    then have "r = q" using r by (simp add: kept_outcome)
    then show ?thesis using q(1) evidence_decision(1) [OF e] d by (simp add: view_of_def)
  qed
  have quiet: "\<not> hasRunningRuntimeWork tb' (ssID r)" if r: "r \<in> set (tbSessions tb)" "ssStatus r = SessionActive" for r
  proof
    assume w: "hasRunningRuntimeWork tb' (ssID r)"
    obtain e where e: "evidence env tb (view_of tb r) = Some e" using rows(2) r by blast
    have "hasRunningRuntimeWork tb (ssID r)" "rdDisposition (deDecision e) = DispositionPreserve"
      using rows(3) [OF r e w] by simp_all
    then show False using evidence_decision(1) [OF e] by (simp add: view_of_def)
  qed
  obtain es where es: "tbDecisions tb' = tbDecisions tb @ es" "map fst es = map asID (active_rows tb)"
      "\<forall>(s, e) \<in> set es. \<exists>se \<in> set (active_rows tb). asID se = s \<and> evidence env tb se = Some e"
    using rows(5) by blast
  have trust: "\<not> rdReplayAllowed (deDecision e) \<and> (\<forall>c. deCheckpoint e = Some c \<longrightarrow> c \<in> set (tbCheckpoints tb)
      \<and> cpSourceSessionID c = s \<and> reHash env c = Some (cpContentHash c))" if "(s, e) \<in> set es" for s e
  proof -
    obtain se where se: "asID se = s" "evidence env tb se = Some e" using es(3) \<open>(s, e) \<in> set es\<close> by blast
    note d = evidence_decision(2,4) [OF se(2)]
    show ?thesis using d se(1) by (auto split: if_splits dest: trusted_checkpoint)
  qed
  show ?thesis using rows(1,4) act quiet es(1,2) trust by (intro conjI) blast+
qed

text \<open>A reported error leaves the tables as they were, unless it is the reply of the commit that was lost.\<close>

lemma restart_error_rolls_back:
  assumes "ReconcileInterruptedRuntimeForHub env tb = (tb', None)"
  shows "tb' = tb \<or> reCommit env = SqlReplyLost"
  using assms by (auto simp: ReconcileInterruptedRuntimeForHub_def split: option.splits sql.splits)

subsection \<open>A restart over three sessions\<close>

definition demo_json :: restart_json where
  "demo_json = \<lparr>rjTargets = (\<lambda>m. Some [(''timecode_source'', m)]), rjKind = Some, rjTwin = (\<lambda>_. Some (1, ''snap''))\<rparr>"

definition demo_restart :: restart_env where
  "demo_restart = \<lparr>reNowUS = 99, reJson = demo_json, reHash = (\<lambda>c. Some (cpContentHash c)), reFails = (\<lambda>_ _. False), reCommit = SqlOk\<rparr>"

definition demo_session :: "string \<Rightarrow> SessionType \<Rightarrow> int \<Rightarrow> SessionRow" where
  "demo_session sid ty t = \<lparr>ssID = sid, ssProjectID = ''p'', ssSnapshotID = ''snap'', ssType = ty, ssStartedUS = t, ssEndedUS = None,
     ssStatus = SessionActive, ssLifecycle = ''ACTIVE'', ssEndReason = [], ssRestoration = ''NOT_APPLICABLE'', ssDesired = None, ssManual = False\<rparr>"

definition demo_cue_row :: "string \<Rightarrow> string \<Rightarrow> CueExecutionRow" where
  "demo_cue_row xid sid = \<lparr>cxID = xid, cxSessionID = sid, cxCueID = ''cue'', cxResult = ExecutionRunning\<rparr>"

definition demo_checkpoint :: "string \<Rightarrow> string \<Rightarrow> int \<Rightarrow> string \<Rightarrow> Checkpoint" where
  "demo_checkpoint cid sid t h = \<lparr>cpID = cid, cpSourceSessionID = sid, cpProjectID = ''p'', cpSnapshotID = ''snap'',
     cpContractVersion = 1, cpCapturedUS = t, cpCurrentCue = None, cpLastCompleted = None, cpNextCue = None,
     cpTwinState = [], cpContentHash = h\<rparr>"

definition demo_tables :: tables where
  "demo_tables = \<lparr>
     tbSessions = [demo_session ''sim'' SessionSimulation 3, demo_session ''show'' SessionShow 2, demo_session ''reh'' SessionRehearsal 1],
     tbManifests = (\<lambda>_. ''internal''),
     tbCues = [demo_cue_row ''x1'' ''show'', demo_cue_row ''x2'' ''sim''],
     tbActions = [\<lparr>axID = ''a1'', axCueExecutionID = ''x1'', axResult = ExecutionRunning, axSummary = [], axErrorCode = None\<rparr>],
     tbCheckpoints = [demo_checkpoint ''c1'' ''sim'' 5 ''h'', demo_checkpoint ''c2'' ''sim'' 6 ''h''],
     tbDecisions = [], tbInterrupted = []\<rparr>"

definition demo_after :: tables where
  "demo_after = fst (ReconcileInterruptedRuntimeForHub demo_restart demo_tables)"

theorem restart_fail_closed_witness:
  "map (\<lambda>r. (ssID r, ssStatus r = SessionActive, ssDesired r)) (tbSessions demo_after)
     = [(''sim'', False, Some ''c2''), (''show'', False, None), (''reh'', True, None)]
   \<and> \<not> hasRunningRuntimeWork demo_after ''show'' \<and> active_count demo_tables = 2 + active_count demo_after"
proof -
  have ids: "distinct (map ssID (tbSessions demo_tables))" by code_simp
  have run: "snd (ReconcileInterruptedRuntimeForHub demo_restart demo_tables) = Some 2" by code_simp
  then have tx: "ReconcileInterruptedRuntimeForHub demo_restart demo_tables = (demo_after, Some 2)"
    by (simp add: demo_after_def prod_eq_iff)
  have shown: "map (\<lambda>r. (ssID r, ssStatus r = SessionActive, ssDesired r)) (tbSessions demo_after)
     = [(''sim'', False, Some ''c2''), (''show'', False, None), (''reh'', True, None)]" by code_simp
  have mem: "demo_session ''show'' SessionShow 2 \<in> set (tbSessions demo_tables)" "ssStatus (demo_session ''show'' SessionShow 2) = SessionActive"
    by (simp_all add: demo_tables_def demo_session_def)
  note all = restart_fail_closed [OF ids tx]
  have "\<not> hasRunningRuntimeWork demo_after (ssID (demo_session ''show'' SessionShow 2))" using all mem by blast
  moreover have "active_count demo_tables = 2 + active_count demo_after" using all by (elim conjE)
  ultimately show ?thesis using shown by (simp add: demo_session_def)
qed

end
