(* ===== verification/Firmware.thy ===== *)
theory Firmware
  imports Interleave HALease "HOL-Library.Sublist" "HOL-Library.AList"
begin

text \<open>
  Firmware maintenance of stage devices: the manifest (\<open>internal/deviceupdate/manifest.go\<close>), the life of an
  update (\<open>lifecycle.go\<close>, with the unique index of migration 00050) and the connections it travels on
  (\<open>internal/devicechannel/firmware_maintenance.go\<close> and the registration of \<open>runtime.go\<close>). Every handler is
  a goroutine whose statements, transactions and critical sections are its atomic actions. The UUID package,
  the parser of URLs and the encoder of JSON are parameters.
\<close>

section \<open>The manifest\<close>

record FirmwareManifest =
  mfSchemaVersion :: int
  mfUpdateID :: string
  mfDeviceID :: string
  mfProfileID :: string
  mfCurrentVersion :: string
  mfTargetVersion :: string
  mfSourceRevision :: string
  mfQualification :: string
  mfArtifactPath :: string
  mfArtifactSize :: int
  mfArtifactSHA256 :: string
  mfIssuedAt :: time
  mfExpiresAt :: time
  mfRollbackRequired :: bool

record ValidationContext =
  vcExpectedDeviceID :: string
  vcExpectedProfileID :: string
  vcNow :: time
  vcRequireRollback :: bool

record url =
  urScheme :: string
  urHost :: string
  urRawQuery :: string
  urFragment :: string
  urPath :: string

text \<open>\<open>feUUID\<close> parses a UUID into its canonical text, \<open>feEncodes\<close> says that the manifest can be marshalled.\<close>

record fw_env =
  feUUID :: "string \<Rightarrow> string option"
  feURL :: "string \<Rightarrow> url option"
  feEncodes :: "FirmwareManifest \<Rightarrow> bool"

definition ArtifactPathPrefix :: string where
  "ArtifactPathPrefix = ''/api/v1/stage-device-firmware/artifacts/''"

definition MaxArtifactBytes :: int where
  "MaxArtifactBytes = 67108864"

definition MaxManifestLifetime :: duration where
  "MaxManifestLifetime = 1800000000000"

definition MaxFutureClockSkew :: duration where
  "MaxFutureClockSkew = 30000000000"

definition canonicalLowerHex :: "string \<Rightarrow> nat \<Rightarrow> bool" where
  "canonicalLowerHex value n =
     (length value = n \<and> list_all (\<lambda>c. (CHR ''0'' \<le> c \<and> c \<le> CHR ''9'') \<or> (CHR ''a'' \<le> c \<and> c \<le> CHR ''f'')) value)"

definition validateVersion :: "string \<Rightarrow> string \<Rightarrow> string option" where
  "validateVersion field value =
     (if value \<noteq> trim_space value \<or> value = [] \<or> length value > 128
      then Some (field @ '' must be non-empty, trimmed and at most 128 characters'')
      else if list_ex (\<lambda>c. (of_char c :: nat) \<le> 32 \<or> (of_char c :: nat) = 127) value
      then Some (field @ '' contains control or whitespace characters'')
      else None)"

text \<open>\<open>path.Clean\<close> of a path that begins with a slash: its elements without empty ones and dots.\<close>

fun split_on :: "char \<Rightarrow> string \<Rightarrow> string list" where
  "split_on d [] = [[]]"
| "split_on d (c # cs) = (if c = d then [] # split_on d cs else (case split_on d cs of [] \<Rightarrow> [[c]] | w # ws \<Rightarrow> (c # w) # ws))"

definition clean_rooted :: "string \<Rightarrow> string" where
  "clean_rooted p =
     (let elements = foldl (\<lambda>kept e. if e = [] \<or> e = ''.'' then kept else if e = ''..'' then butlast kept else kept @ [e])
                       [] (split_on (CHR ''/'') p) in
      if elements = [] then ''/'' else concat (map ((#) (CHR ''/'')) elements))"

definition validateArtifactPath :: "fw_env \<Rightarrow> string \<Rightarrow> string option" where
  "validateArtifactPath env value =
     (if value \<noteq> trim_space value \<or> value = [] then Some ''artifact_path must be a non-empty trimmed Hub-local path''
      else if CHR 92 \<in> set value then Some ''artifact_path must use URL path separators''
      else case feURL env value of
        None \<Rightarrow> Some ''artifact_path is invalid''
      | Some u \<Rightarrow>
        if urScheme u \<noteq> [] \<or> urHost u \<noteq> [] \<or> urRawQuery u \<noteq> [] \<or> urFragment u \<noteq> []
        then Some ''artifact_path must be Hub-local and must not contain scheme, host, query or fragment''
        else if \<not> prefix ArtifactPathPrefix (urPath u) then Some ''artifact_path must be under the artifact prefix''
        else if clean_rooted (urPath u) \<noteq> urPath u \<or> sublist ''..'' (urPath u) \<or> suffix ''/'' (urPath u)
        then Some ''artifact_path must be canonical and address one artifact''
        else if length (drop (length ArtifactPathPrefix) (urPath u)) = 0 then Some ''artifact_path must identify an artifact''
        else None)"

definition fw_ValidateManifest :: "fw_env \<Rightarrow> FirmwareManifest \<Rightarrow> ValidationContext \<Rightarrow> string option" where
  "fw_ValidateManifest env m x =
     (if mfSchemaVersion m \<noteq> 1 then Some ''unsupported firmware manifest schema version''
      else if feUUID env (mfUpdateID m) = None then Some ''update_id must be a UUID''
      else if feUUID env (mfDeviceID m) = None then Some ''device_id must be a UUID''
      else if trim_space (vcExpectedDeviceID x) = [] \<or> mfDeviceID m \<noteq> vcExpectedDeviceID x
      then Some ''firmware manifest device_id does not match the target device''
      else if trim_space (vcExpectedProfileID x) = [] \<or> mfProfileID m \<noteq> vcExpectedProfileID x
      then Some ''firmware manifest profile_id does not match the target profile''
      else case validateVersion ''current_version'' (mfCurrentVersion m) of Some e \<Rightarrow> Some e
      | None \<Rightarrow> (case validateVersion ''target_version'' (mfTargetVersion m) of Some e \<Rightarrow> Some e
      | None \<Rightarrow>
        if mfCurrentVersion m = mfTargetVersion m then Some ''target_version must differ from current_version''
        else if \<not> canonicalLowerHex (mfSourceRevision m) 40
        then Some ''source_revision must be a canonical 40-character lowercase Git revision''
        else if mfQualification m \<noteq> ''QUALIFIED'' then Some ''firmware artifact qualification must be QUALIFIED''
        else (case validateArtifactPath env (mfArtifactPath m) of Some e \<Rightarrow> Some e
        | None \<Rightarrow>
          if mfArtifactSize m \<le> 0 \<or> mfArtifactSize m > MaxArtifactBytes then Some ''artifact_size is out of range''
          else if \<not> canonicalLowerHex (mfArtifactSHA256 m) 64 then Some ''artifact_sha256 must be canonical lowercase SHA-256''
          else if is_zero (vcNow x) then Some ''validation time is required''
          else if is_zero (mfIssuedAt m) \<or> is_zero (mfExpiresAt m) then Some ''issued_at and expires_at are required''
          else if mfIssuedAt m > vcNow x + MaxFutureClockSkew then Some ''issued_at is too far in the future''
          else if \<not> mfExpiresAt m > vcNow x then Some ''firmware manifest is expired''
          else if \<not> mfExpiresAt m > mfIssuedAt m then Some ''expires_at must be after issued_at''
          else if time_sub (mfExpiresAt m) (mfIssuedAt m) > MaxManifestLifetime then Some ''firmware manifest lifetime is too long''
          else if vcRequireRollback x \<and> \<not> mfRollbackRequired m then Some ''rollback_required must be true for this device policy''
          else None)))"

section \<open>The table of updates\<close>

datatype UpdateState =
    UpdateIssued | UpdateSent | UpdateAccepted | UpdateDownloading | UpdateVerifying | UpdateWriting
  | UpdateRebooting | UpdateCompleted | UpdateRejected | UpdateFailed | UpdateExpired | UpdateInterrupted
  | UpdateOther string

definition update_state :: "string \<Rightarrow> UpdateState" where
  "update_state s =
     (if s = ''ISSUED'' then UpdateIssued else if s = ''SENT'' then UpdateSent else if s = ''ACCEPTED'' then UpdateAccepted
      else if s = ''DOWNLOADING'' then UpdateDownloading else if s = ''VERIFYING'' then UpdateVerifying
      else if s = ''WRITING'' then UpdateWriting else if s = ''REBOOTING'' then UpdateRebooting
      else if s = ''COMPLETED'' then UpdateCompleted else if s = ''REJECTED'' then UpdateRejected
      else if s = ''FAILED'' then UpdateFailed else if s = ''EXPIRED'' then UpdateExpired
      else if s = ''INTERRUPTED'' then UpdateInterrupted else UpdateOther s)"

datatype fw_error =
    ErrUpdateNotFound | ErrUpdateState | ErrUpdateExpired | ErrUpdateGeneration | ErrUpdateDeviceMismatch
  | ErrFirmwareMaintenanceOffline | ErrFirmwareMaintenanceProtocol | ErrFirmwareMaintenanceCapabilityMissing
  | ErrOther string

text \<open>
  A row, which keeps the manifest and what the code reads of it. \<open>frTrail\<close> is not stored: it is the history of
  the states written, each with the generation of the connection it is written for (0 for none).
\<close>

record UpdateRow =
  frManifest :: FirmwareManifest
  frState :: UpdateState
  frIssuedBy :: string
  frGeneration :: "int option"
  frCompletion :: "int option"
  frDetail :: string
  frErrorCode :: string
  frUpdatedUS :: int
  frTrail :: "(UpdateState \<times> int) list"

abbreviation row_id :: "UpdateRow \<Rightarrow> string" where "row_id r \<equiv> mfUpdateID (frManifest r)"

abbreviation row_device :: "UpdateRow \<Rightarrow> string" where "row_device r \<equiv> mfDeviceID (frManifest r)"

definition generation_of :: "UpdateRow \<Rightarrow> int" where
  "generation_of r = (case frGeneration r of None \<Rightarrow> 0 | Some g \<Rightarrow> g)"

definition deviceReportedState :: "UpdateState \<Rightarrow> bool" where
  "deviceReportedState st \<longleftrightarrow>
     st \<in> {UpdateAccepted, UpdateDownloading, UpdateVerifying, UpdateWriting, UpdateRebooting, UpdateRejected, UpdateFailed}"

definition terminalUpdateState :: "UpdateState \<Rightarrow> bool" where
  "terminalUpdateState st \<longleftrightarrow> st \<in> {UpdateCompleted, UpdateRejected, UpdateFailed, UpdateExpired, UpdateInterrupted}"

definition update_rank :: "UpdateState \<Rightarrow> nat" where
  "update_rank st = (case st of UpdateSent \<Rightarrow> 1 | UpdateAccepted \<Rightarrow> 2 | UpdateDownloading \<Rightarrow> 3 | UpdateWriting \<Rightarrow> 4
     | UpdateVerifying \<Rightarrow> 5 | UpdateRebooting \<Rightarrow> 6 | _ \<Rightarrow> 0)"

definition validDeviceTransition :: "UpdateState \<Rightarrow> UpdateState \<Rightarrow> bool" where
  "validDeviceTransition current after =
     (if terminalUpdateState current then False
      else if after = UpdateRejected then current = UpdateSent
      else if after = UpdateFailed
      then current \<in> {UpdateAccepted, UpdateDownloading, UpdateVerifying, UpdateWriting, UpdateRebooting}
      else update_rank current > 0 \<and> update_rank after = update_rank current + 1)"

text \<open>The states of the unique index on the device, and those a lost connection interrupts.\<close>

definition active_update :: "UpdateState \<Rightarrow> bool" where
  "active_update st \<longleftrightarrow> st \<in> {UpdateSent, UpdateAccepted, UpdateDownloading, UpdateVerifying, UpdateWriting, UpdateRebooting}"

definition interruptible :: "UpdateState \<Rightarrow> bool" where
  "interruptible st \<longleftrightarrow> st \<in> {UpdateSent, UpdateAccepted, UpdateDownloading, UpdateVerifying, UpdateWriting}"

definition index_ok :: "UpdateRow list \<Rightarrow> bool" where
  "index_ok rows \<longleftrightarrow> distinct (map row_device (filter (\<lambda>r. active_update (frState r)) rows))"

definition write_state :: "UpdateState \<Rightarrow> int \<Rightarrow> string \<Rightarrow> string \<Rightarrow> time \<Rightarrow> UpdateRow \<Rightarrow> UpdateRow" where
  "write_state st g detail code now r =
     r\<lparr>frState := st, frDetail := detail, frErrorCode := code, frUpdatedUS := unix_micro now, frTrail := frTrail r @ [(st, g)]\<rparr>"

section \<open>The connections\<close>

record FwConn =
  cnServe :: nat
  cnDevice :: string
  cnProtocol :: string
  cnCaps :: "string list"
  cnGeneration :: int

record FwResult =
  frmUpdateID :: string
  frmGeneration :: int
  frmState :: string
  frmDetail :: string
  frmErrorCode :: "string option"

datatype fw_message = MsgFirmware FwResult | MsgOther

text \<open>
  \<open>fsShut\<close> is the \<open>closed\<close> channel of a connection, which is named by the goroutine that serves it. \<open>fsSeen\<close>
  is a history too: the device, profile and version that a v2 connection of a generation has registered.
\<close>

record fw_state =
  fsRows :: "UpdateRow list"
  fsSequence :: int
  fsNext :: int
  fsConns :: "(string \<times> FwConn) list"
  fsClosed :: bool
  fsShut :: "nat \<Rightarrow> bool"
  fsSeen :: "int \<Rightarrow> (string \<times> string \<times> string) option"

record fw_input =
  fiSql :: sql
  fiNow :: time
  fiSend :: "string option"
  fiOk :: bool
  fiMessage :: "fw_message option"

text \<open>\<open>LSend\<close> is the moment the request leaves the Hub.\<close>

datatype fw_label = LStep | LSend FirmwareManifest int

datatype fw_result = FwDone | FwRecord UpdateRow | FwError fw_error

type_synonym fw_prog = "(fw_state, fw_input, fw_label, fw_result) prog"

section \<open>Statements\<close>

text \<open>An UPDATE outside a transaction; the unique index refuses it, the reply may be lost.\<close>

definition exec_update :: "(UpdateRow \<Rightarrow> bool) \<Rightarrow> (UpdateRow \<Rightarrow> UpdateRow) \<Rightarrow> fw_input \<Rightarrow> fw_state \<Rightarrow> fw_state \<times> (fw_error + nat)" where
  "exec_update P f i s =
     (let rows = map (\<lambda>r. if P r then f r else r) (fsRows s) in
      if fiSql i = SqlFail \<or> \<not> index_ok rows then (s, Inl (ErrOther ''update firmware update''))
      else (s\<lparr>fsRows := rows\<rparr>,
            if fiSql i = SqlReplyLost then Inl (ErrOther ''update firmware update'') else Inr (length (filter P (fsRows s)))))"

definition fw_Get :: "string \<Rightarrow> fw_input \<Rightarrow> fw_state \<Rightarrow> fw_state \<times> (fw_error + UpdateRow)" where
  "fw_Get uid i s =
     (s, if fiSql i \<noteq> SqlOk then Inl (ErrOther ''read firmware update'')
         else case find (\<lambda>r. row_id r = trim_space uid) (fsRows s) of None \<Rightarrow> Inl ErrUpdateNotFound | Some r \<Rightarrow> Inr r)"

definition insert_update :: "fw_env \<Rightarrow> FirmwareManifest \<Rightarrow> string \<Rightarrow> fw_input \<Rightarrow> fw_state \<Rightarrow> fw_state \<times> fw_error option" where
  "insert_update env m actor i s =
     (let now = fiNow i in
      case fw_ValidateManifest env m \<lparr>vcExpectedDeviceID = mfDeviceID m, vcExpectedProfileID = mfProfileID m, vcNow = now,
             vcRequireRollback = (mfProfileID m = ''stagecore.esp32-stagelaser'')\<rparr> of
        Some e \<Rightarrow> (s, Some (ErrOther e))
      | None \<Rightarrow>
        if \<not> feEncodes env m then (s, Some (ErrOther ''encode firmware update manifest''))
        else if fiSql i = SqlFail \<or> (\<exists>r \<in> set (fsRows s). row_id r = mfUpdateID m)
             \<or> unix_micro (mfIssuedAt m) \<le> 0 \<or> unix_micro (mfExpiresAt m) \<le> unix_micro (mfIssuedAt m) \<or> unix_micro now \<le> 0
        then (s, Some (ErrOther ''persist firmware update issuance''))
        else (s\<lparr>fsRows := fsRows s @ [\<lparr>frManifest = m, frState = UpdateIssued, frIssuedBy = actor, frGeneration = None,
                 frCompletion = None, frDetail = [], frErrorCode = [], frUpdatedUS = unix_micro now, frTrail = []\<rparr>]\<rparr>,
              if fiSql i = SqlReplyLost then Some (ErrOther ''persist firmware update issuance'') else None))"

text \<open>
  The transaction of \<open>MarkSent\<close>. The row is found by the trimmed identifier and updated by the identifier as
  it was given, as in the code.
\<close>

definition mark_sent_tx :: "string \<Rightarrow> string \<Rightarrow> int \<Rightarrow> fw_input \<Rightarrow> fw_state \<Rightarrow> fw_state \<times> fw_error option" where
  "mark_sent_tx uid dev g i s =
     (let now = fiNow i;
          commit = (\<lambda>f e.
            let rows = map (\<lambda>r. if row_id r = uid \<and> frState r = UpdateIssued then f r else r) (fsRows s) in
            if \<not> index_ok rows then (s, Some (ErrOther ''mark firmware update sent''))
            else (s\<lparr>fsRows := rows\<rparr>, if fiSql i = SqlReplyLost then Some (ErrOther ''commit'') else e)) in
      if fiSql i = SqlFail then (s, Some (ErrOther ''mark firmware update sent''))
      else case find (\<lambda>r. row_id r = trim_space uid) (fsRows s) of
        None \<Rightarrow> (s, Some ErrUpdateNotFound)
      | Some r \<Rightarrow>
        if row_device r \<noteq> trim_space dev then (s, Some ErrUpdateDeviceMismatch)
        else if frState r \<noteq> UpdateIssued then (s, Some ErrUpdateState)
        else if \<not> from_micro (unix_micro (mfExpiresAt (frManifest r))) > now
        then commit (write_state UpdateExpired 0 ''Manifest expired before delivery'' ''MANIFEST_EXPIRED'' now) (Some ErrUpdateExpired)
        else commit (\<lambda>r. write_state UpdateSent g [] [] now (r\<lparr>frGeneration := Some g\<rparr>)) None)"

definition record_state :: "string \<Rightarrow> string \<Rightarrow> int \<Rightarrow> UpdateState \<Rightarrow> string \<Rightarrow> string \<Rightarrow> UpdateRow \<Rightarrow> fw_input \<Rightarrow> fw_state \<Rightarrow> fw_state \<times> fw_error option" where
  "record_state uid dev g st detail code current i s =
     (let now = fiNow i;
          mine = (\<lambda>before r. row_id r = uid \<and> row_device r = dev \<and> frGeneration r = Some g \<and> frState r = before) in
      if frState current = UpdateSent \<and> \<not> mfExpiresAt (frManifest current) > now
      then (case exec_update (mine UpdateSent)
                   (write_state UpdateExpired g ''Manifest expired before device acceptance'' ''MANIFEST_EXPIRED'' now) i s of
              (s', Inl e) \<Rightarrow> (s', Some e)
            | (s', Inr n) \<Rightarrow> (s', Some (if n \<noteq> 1 then ErrUpdateState else ErrUpdateExpired)))
      else if \<not> validDeviceTransition (frState current) st then (s, Some ErrUpdateState)
      else (case exec_update (mine (frState current)) (write_state st g (trim_space detail) (trim_space code) now) i s of
              (s', Inl e) \<Rightarrow> (s', Some e)
            | (s', Inr n) \<Rightarrow> (s', if n \<noteq> 1 then Some ErrUpdateState else None)))"

section \<open>The life of an update\<close>

type_synonym 'a answer = "fw_error + 'a"

definition get_after :: "string \<Rightarrow> (UpdateRow answer \<Rightarrow> fw_prog) \<Rightarrow> fw_error option \<Rightarrow> fw_prog" where
  "get_after uid k e = (case e of Some x \<Rightarrow> k (Inl x) | None \<Rightarrow> act LStep (fw_Get uid) k)"

definition fw_Issue :: "fw_env \<Rightarrow> FirmwareManifest \<Rightarrow> string \<Rightarrow> (UpdateRow answer \<Rightarrow> fw_prog) \<Rightarrow> fw_prog" where
  "fw_Issue env m actor k =
     (let actor = trim_space actor in
      if actor = [] then k (Inl (ErrOther ''firmware update issuer is required''))
      else if feUUID env (mfUpdateID m) \<noteq> Some (mfUpdateID m) then k (Inl (ErrOther ''update_id''))
      else act LStep (insert_update env m actor) (get_after (mfUpdateID m) k))"

definition MarkSent :: "string \<Rightarrow> string \<Rightarrow> int \<Rightarrow> (UpdateRow answer \<Rightarrow> fw_prog) \<Rightarrow> fw_prog" where
  "MarkSent uid dev g k =
     (if g \<le> 0 then k (Inl ErrUpdateState) else act LStep (mark_sent_tx uid dev g) (get_after uid k))"

definition RecordDeviceState ::
    "string \<Rightarrow> string \<Rightarrow> int \<Rightarrow> UpdateState \<Rightarrow> string \<Rightarrow> string \<Rightarrow> (UpdateRow answer \<Rightarrow> fw_prog) \<Rightarrow> fw_prog" where
  "RecordDeviceState uid dev g st detail code k =
     (if g \<le> 0 \<or> \<not> deviceReportedState st then k (Inl ErrUpdateState)
      else act LStep (fw_Get uid) (\<lambda>got.
        case got of
          Inl e \<Rightarrow> k (Inl e)
        | Inr current \<Rightarrow>
          if row_device current \<noteq> trim_space dev then k (Inl ErrUpdateDeviceMismatch)
          else if generation_of current \<noteq> g then k (Inl ErrUpdateGeneration)
          else if frState current = st then k (Inr current)
          else act LStep (record_state uid dev g st detail code current) (get_after uid k)))"

definition failed_send :: "string \<Rightarrow> string \<Rightarrow> int \<Rightarrow> string \<Rightarrow> fw_input \<Rightarrow> fw_state \<Rightarrow> fw_state \<times> fw_error option" where
  "failed_send uid dev g detail i s =
     (case exec_update (\<lambda>r. row_id r = uid \<and> row_device r = dev \<and> frGeneration r = Some g \<and> frState r = UpdateSent)
             (write_state UpdateFailed g (trim_space detail) ''TRANSPORT_SEND_FAILED'' (fiNow i)) i s of
        (s', Inl e) \<Rightarrow> (s', Some e)
      | (s', Inr n) \<Rightarrow> (s', if n \<noteq> 1 then Some ErrUpdateState else None))"

definition MarkTransportFailed :: "string \<Rightarrow> string \<Rightarrow> int \<Rightarrow> string \<Rightarrow> (UpdateRow answer \<Rightarrow> fw_prog) \<Rightarrow> fw_prog" where
  "MarkTransportFailed uid dev g detail k =
     act LStep (fw_Get uid) (\<lambda>got.
       case got of
         Inl e \<Rightarrow> k (Inl e)
       | Inr current \<Rightarrow>
         if row_device current \<noteq> trim_space dev then k (Inl ErrUpdateDeviceMismatch)
         else if generation_of current \<noteq> g \<or> terminalUpdateState (frState current) then k (Inl ErrUpdateState)
         else act LStep (failed_send uid dev g detail) (get_after uid k))"

definition InterruptConnection :: "string \<Rightarrow> int \<Rightarrow> string \<Rightarrow> (nat answer \<Rightarrow> fw_prog) \<Rightarrow> fw_prog" where
  "InterruptConnection dev g detail k =
     (if trim_space dev = [] \<or> g \<le> 0 then k (Inr 0)
      else act LStep (\<lambda>i. exec_update
             (\<lambda>r. row_device r = trim_space dev \<and> frGeneration r = Some g \<and> interruptible (frState r))
             (write_state UpdateInterrupted g (trim_space detail) ''TRANSPORT_INTERRUPTED'' (fiNow i)) i) k)"

definition fw_ReconcileInterrupted :: "(nat answer \<Rightarrow> fw_prog) \<Rightarrow> fw_prog" where
  "fw_ReconcileInterrupted k =
     act LStep (\<lambda>i. exec_update (\<lambda>r. interruptible (frState r))
        (write_state UpdateInterrupted 0 ''Hub restarted before firmware maintenance reached reboot handoff''
           ''HUB_RESTART_INTERRUPTED'' (fiNow i)) i) k"

text \<open>The rebooting update of the device that was written last.\<close>

definition later_row :: "UpdateRow \<Rightarrow> UpdateRow \<Rightarrow> bool" where
  "later_row a b \<longleftrightarrow> frUpdatedUS b < frUpdatedUS a \<or> frUpdatedUS a = frUpdatedUS b \<and> row_id b < row_id a"

definition find_rebooting :: "string \<Rightarrow> fw_input \<Rightarrow> fw_state \<Rightarrow> fw_state \<times> UpdateRow option answer" where
  "find_rebooting dev i s =
     (s, if fiSql i \<noteq> SqlOk then Inl (ErrOther ''find rebooting firmware update'')
         else Inr (foldl (\<lambda>best r. if row_device r = trim_space dev \<and> frState r = UpdateRebooting
                        \<and> (case best of None \<Rightarrow> True | Some b \<Rightarrow> later_row r b) then Some r else best) None (fsRows s)))"

text \<open>What the profile and version a device reports after the reboot make of its update.\<close>

definition reboot_outcome :: "FirmwareManifest \<Rightarrow> string \<Rightarrow> string \<Rightarrow> UpdateState \<times> string \<times> string" where
  "reboot_outcome m profile version =
     (if trim_space profile \<noteq> mfProfileID m
      then (UpdateFailed, ''Device profile changed after firmware reboot'', ''POST_REBOOT_PROFILE_MISMATCH'')
      else if trim_space version = mfTargetVersion m
      then (UpdateCompleted, ''Target firmware reported after authenticated reboot'', [])
      else if trim_space version = mfCurrentVersion m
      then (UpdateFailed, ''Previous firmware version reported after reboot; rollback observed'', ''ROLLBACK_OBSERVED'')
      else (UpdateFailed, ''Unexpected firmware version reported after reboot'', ''POST_REBOOT_VERSION_MISMATCH''))"

definition complete_update :: "string \<Rightarrow> string \<Rightarrow> string \<Rightarrow> int \<Rightarrow> UpdateRow \<Rightarrow> fw_input \<Rightarrow> fw_state \<Rightarrow> fw_state \<times> fw_error option" where
  "complete_update dev profile version g' current i s =
     (case reboot_outcome (frManifest current) profile version of (st, detail, code) \<Rightarrow>
      (case exec_update (\<lambda>r. row_id r = row_id current \<and> row_device r = trim_space dev \<and> frState r = UpdateRebooting
                    \<and> frGeneration r = Some (generation_of current))
              (\<lambda>r. write_state st g' detail code (fiNow i) (r\<lparr>frCompletion := Some g'\<rparr>)) i s of
         (s', Inl e) \<Rightarrow> (s', Some e)
       | (s', Inr n) \<Rightarrow> (s', if n \<noteq> 1 then Some ErrUpdateState else None)))"

definition ConfirmPostReboot :: "string \<Rightarrow> string \<Rightarrow> string \<Rightarrow> int \<Rightarrow> (UpdateRow option answer \<Rightarrow> fw_prog) \<Rightarrow> fw_prog" where
  "ConfirmPostReboot dev profile version g' k =
     (if trim_space dev = [] \<or> g' \<le> 0 then k (Inr None)
      else act LStep (find_rebooting dev) (\<lambda>found.
        case found of
          Inl e \<Rightarrow> k (Inl e)
        | Inr None \<Rightarrow> k (Inr None)
        | Inr (Some r) \<Rightarrow> act LStep (fw_Get (row_id r)) (\<lambda>got.
          case got of
            Inl e \<Rightarrow> k (Inl e)
          | Inr current \<Rightarrow>
            if generation_of current \<le> 0 \<or> g' \<le> generation_of current then k (Inl ErrUpdateGeneration)
            else act LStep (complete_update dev profile version g' current)
                   (get_after (row_id current) (\<lambda>a. k (map_sum id Some a))))))"

section \<open>The connections of the devices\<close>

definition ProtocolVersion2 :: string where "ProtocolVersion2 = ''stagecore.device/2''"

definition FirmwareMaintenanceCapability :: string where
  "FirmwareMaintenanceCapability = ''device.maintenance.firmware-update''"

text \<open>The durable counter of v2 connections; it is exhausted at 2^53 - 1.\<close>

definition AllocateV2ConnectionGeneration :: "fw_input \<Rightarrow> fw_state \<Rightarrow> fw_state \<times> int answer" where
  "AllocateV2ConnectionGeneration i s =
     (if fiSql i = SqlFail \<or> \<not> fsSequence s < 9007199254740991 then (s, Inl (ErrOther ''durable v2 socket generation unavailable''))
      else let g = fsSequence s + 1 in
        (s\<lparr>fsSequence := g\<rparr>,
         if fiSql i = SqlReplyLost \<or> g \<le> 0 then Inl (ErrOther ''durable v2 socket generation unavailable'') else Inr g))"

text \<open>The critical section of \<open>register\<close>: the connection with its generation, and the one it displaces.\<close>

definition dc_register :: "FwConn \<Rightarrow> string \<Rightarrow> string \<Rightarrow> fw_input \<Rightarrow> fw_state \<Rightarrow> fw_state \<times> (FwConn \<times> FwConn option) answer" where
  "dc_register c profile version i s =
     (if fsClosed s then (s, Inl (ErrOther ''stage device runtime closed''))
      else
        let (s1, allocated) =
          (if cnProtocol c = ProtocolVersion2 then AllocateV2ConnectionGeneration i s
           else if fsNext s = 9223372036854775807 then (s, Inl (ErrOther ''legacy Stage Device generation exhausted''))
           else (s\<lparr>fsNext := fsNext s + 1\<rparr>, Inr (fsNext s + 1))) in
        (case allocated of
           Inl e \<Rightarrow> (s1, Inl e)
         | Inr g \<Rightarrow>
           let c' = c\<lparr>cnGeneration := g\<rparr> in
           (s1\<lparr>fsConns := AList.update (cnDevice c) c' (fsConns s1),
               fsSeen := (if cnProtocol c = ProtocolVersion2 then (fsSeen s1)(g \<mapsto> (cnDevice c, profile, version)) else fsSeen s1)\<rparr>,
            Inr (c', map_of (fsConns s) (cnDevice c)))))"

text \<open>Whether the connection is the registered one of its device.\<close>

definition is_current :: "FwConn \<Rightarrow> fw_state \<Rightarrow> bool" where
  "is_current c s = (case map_of (fsConns s) (cnDevice c) of None \<Rightarrow> False | Some d \<Rightarrow> cnServe d = cnServe c)"

definition dc_unregister :: "FwConn \<Rightarrow> fw_input \<Rightarrow> fw_state \<Rightarrow> fw_state \<times> bool" where
  "dc_unregister c i s =
     (if is_current c s then (s\<lparr>fsConns := AList.delete (cnDevice c) (fsConns s)\<rparr>, True) else (s, False))"

definition dc_close :: "nat \<Rightarrow> fw_input \<Rightarrow> fw_state \<Rightarrow> fw_state \<times> unit" where
  "dc_close t i s = (s\<lparr>fsShut := (fsShut s)(t := True)\<rparr>, ())"

definition interruptFirmwareConnection :: "FwConn \<Rightarrow> fw_prog \<Rightarrow> fw_prog" where
  "interruptFirmwareConnection c k =
     (if cnProtocol c \<noteq> ProtocolVersion2 \<or> cnGeneration c \<le> 0 then k
      else InterruptConnection (cnDevice c) (cnGeneration c)
             ''Authenticated Stage Device connection ended before firmware reboot handoff'' (\<lambda>_. k))"

definition unregister_conn :: "FwConn \<Rightarrow> fw_prog \<Rightarrow> fw_prog" where
  "unregister_conn c k =
     act LStep (dc_unregister c) (\<lambda>wasCurrent.
       let rest = act LStep (dc_close (cnServe c)) (\<lambda>_. k) in
       if wasCurrent then interruptFirmwareConnection c rest else rest)"

definition reconcileFirmwarePostReboot :: "FwConn \<Rightarrow> string \<Rightarrow> string \<Rightarrow> (fw_error option \<Rightarrow> fw_prog) \<Rightarrow> fw_prog" where
  "reconcileFirmwarePostReboot c profile version k =
     (if cnProtocol c \<noteq> ProtocolVersion2 then k None
      else ConfirmPostReboot (cnDevice c) profile version (cnGeneration c)
             (\<lambda>a. k (case a of Inl e \<Rightarrow> Some e | Inr _ \<Rightarrow> None)))"

definition deliverFirmwareMaintenanceResult :: "FwConn \<Rightarrow> FwResult \<Rightarrow> (bool \<Rightarrow> fw_prog) \<Rightarrow> fw_prog" where
  "deliverFirmwareMaintenanceResult c m k =
     (if cnProtocol c \<noteq> ProtocolVersion2 \<or> frmGeneration m \<noteq> cnGeneration c \<or> trim_space (frmUpdateID m) = [] then k False
      else act LStep (\<lambda>i s. (s, \<not> fsClosed s \<and> is_current c s \<and> FirmwareMaintenanceCapability \<in> set (cnCaps c))) (\<lambda>same.
        if \<not> same then k False
        else RecordDeviceState (frmUpdateID m) (cnDevice c) (cnGeneration c) (update_state (to_upper (trim_space (frmState m))))
               (frmDetail m) (case frmErrorCode m of None \<Rightarrow> [] | Some e \<Rightarrow> trim_space e)
               (\<lambda>a. k (case a of Inl _ \<Rightarrow> False | Inr _ \<Rightarrow> True))))"

text \<open>The messages a connection handles before it ends; \<open>None\<close> is an error of the receive.\<close>

primrec receive_loop :: "nat \<Rightarrow> FwConn \<Rightarrow> fw_prog \<Rightarrow> fw_prog" where
  "receive_loop 0 c k = k"
| "receive_loop (Suc n) c k =
     act LStep (\<lambda>i s. (s, if fsShut s (cnServe c) then None else fiMessage i)) (\<lambda>m.
       case m of
         None \<Rightarrow> k
       | Some MsgOther \<Rightarrow> receive_loop n c k
       | Some (MsgFirmware r) \<Rightarrow>
         if cnProtocol c \<noteq> ProtocolVersion2 then k
         else act LStep (\<lambda>i s. (s, fiOk i)) (\<lambda>valid.
           if \<not> valid then k
           else deliverFirmwareMaintenanceResult c r (\<lambda>done. if done then receive_loop n c k else k)))"

text \<open>
  A connection after its hello has been authenticated and its device registered in the inventory, which
  answers with the profile and version it keeps.
\<close>

definition serveConnection :: "nat \<Rightarrow> FwConn \<Rightarrow> string \<Rightarrow> string \<Rightarrow> fw_prog" where
  "serveConnection n c profile version =
     act LStep (dc_register c profile version) (\<lambda>registered.
     case registered of
       Inl e \<Rightarrow> act LStep (dc_close (cnServe c)) (\<lambda>_. Ret FwDone)
     | Inr (c, previous) \<Rightarrow>
       let leave = unregister_conn c (Ret FwDone);
           running = act LStep (\<lambda>i s. (s, fiOk i \<and> \<not> fsClosed s \<and> is_current c s \<and> \<not> fsShut s (cnServe c))) (\<lambda>observed.
             if \<not> observed then leave
             else reconcileFirmwarePostReboot c profile version (\<lambda>e.
               if e \<noteq> None then leave
               else receive_loop n c (act LStep (dc_close (cnServe c)) (\<lambda>_. leave)))) in
       (case previous of None \<Rightarrow> running | Some p \<Rightarrow> act LStep (dc_close (cnServe p)) (\<lambda>_. running)))"

definition pick_connection :: "UpdateRow \<Rightarrow> fw_input \<Rightarrow> fw_state \<Rightarrow> fw_state \<times> FwConn answer" where
  "pick_connection record i s =
     (s, case map_of (fsConns s) (row_device record) of
           None \<Rightarrow> Inl ErrFirmwareMaintenanceOffline
         | Some c \<Rightarrow>
           if fsClosed s then Inl ErrFirmwareMaintenanceOffline
           else if cnProtocol c \<noteq> ProtocolVersion2 then Inl ErrFirmwareMaintenanceProtocol
           else if FirmwareMaintenanceCapability \<notin> set (cnCaps c) then Inl ErrFirmwareMaintenanceCapabilityMissing
           else if fsShut s (cnServe c) then Inl ErrFirmwareMaintenanceOffline
           else Inr c)"

definition fw_answer :: "UpdateRow answer \<Rightarrow> fw_result" where
  "fw_answer a = (case a of Inl e \<Rightarrow> FwError e | Inr r \<Rightarrow> FwRecord r)"

definition SendFirmwareMaintenance :: "string \<Rightarrow> fw_prog" where
  "SendFirmwareMaintenance uid =
     act LStep (fw_Get (trim_space uid)) (\<lambda>got.
     case got of
       Inl e \<Rightarrow> Ret (FwError e)
     | Inr record \<Rightarrow>
       act LStep (pick_connection record) (\<lambda>picked.
       case picked of
         Inl e \<Rightarrow> Ret (FwError e)
       | Inr c \<Rightarrow>
         MarkSent (row_id record) (row_device record) (cnGeneration c) (\<lambda>sent.
         case sent of
           Inl e \<Rightarrow> Ret (FwError e)
         | Inr row \<Rightarrow>
           act (LSend (frManifest record) (cnGeneration c))
               (\<lambda>i s. (s, if fsShut s (cnServe c) then Some ''stage device connection is closed'' else fiSend i)) (\<lambda>failed.
           case failed of
             None \<Rightarrow> Ret (FwRecord row)
           | Some e \<Rightarrow>
             MarkTransportFailed (row_id record) (row_device record) (cnGeneration c) e (\<lambda>marked.
             act LStep (dc_close (cnServe c)) (\<lambda>_. Ret (FwError (ErrOther (''send firmware maintenance request: '' @ e))))))))) "

definition dc_Close :: fw_prog where
  "dc_Close =
     act LStep (\<lambda>i s. (if fsClosed s then s else s\<lparr>fsClosed := True, fsConns := []\<rparr>,
                        if fsClosed s then [] else map (cnServe \<circ> snd) (fsConns s))) (\<lambda>conns.
     foldr (\<lambda>t k. act LStep (dc_close t) (\<lambda>_. k)) conns (Ret FwDone))"

section \<open>The calls\<close>

text \<open>\<open>CallShut\<close> is the monitor of a connection, which closes a revoked or silent one at any time.\<close>

datatype fw_call =
    CallIssue FirmwareManifest string
  | CallSend string
  | CallServe nat string string "string list" string string
  | CallShut nat
  | CallClose
  | CallReconcile

definition fw_serve :: "fw_env \<Rightarrow> nat \<Rightarrow> fw_call \<Rightarrow> fw_prog" where
  "fw_serve env t call =
     (case call of
        CallIssue m actor \<Rightarrow> fw_Issue env m actor (\<lambda>a. Ret (fw_answer a))
      | CallSend uid \<Rightarrow> SendFirmwareMaintenance uid
      | CallServe n dev protocol caps profile version \<Rightarrow>
          serveConnection n \<lparr>cnServe = t, cnDevice = dev, cnProtocol = protocol, cnCaps = caps, cnGeneration = 0\<rparr> profile version
      | CallShut c \<Rightarrow> act LStep (dc_close c) (\<lambda>_. Ret FwDone)
      | CallClose \<Rightarrow> dc_Close
      | CallReconcile \<Rightarrow> fw_ReconcileInterrupted (\<lambda>_. Ret FwDone))"

definition fw_initial :: "int \<Rightarrow> fw_state" where
  "fw_initial sequence = \<lparr>fsRows = [], fsSequence = sequence, fsNext = 0, fsConns = [], fsClosed = False, fsShut = (\<lambda>_. False),
     fsSeen = (\<lambda>_. None)\<rparr>"

definition fw_reachable :: "fw_env \<Rightarrow> (nat \<Rightarrow> fw_call) \<Rightarrow> fw_state \<times> (nat \<Rightarrow> fw_prog) \<Rightarrow> bool" where
  "fw_reachable env calls c \<longleftrightarrow> (\<exists>sequence \<ge> 0. istep\<^sup>*\<^sup>* (fw_initial sequence, \<lambda>t. fw_serve env t (calls t)) c)"

end
