(* ===== verification/FirmwareSafety.thy ===== *)
theory FirmwareSafety
  imports Firmware
begin

text \<open>
  What holds in every interleaving of the firmware handlers and the connections: a completed update has gone
  through every step on the connection it was sent on and was confirmed by a later one, no request leaves the
  Hub before its delivery is stored, and a device has one update under way.
\<close>

section \<open>The invariant\<close>

definition fw_path :: "UpdateState list" where
  "fw_path = [UpdateSent, UpdateAccepted, UpdateDownloading, UpdateWriting, UpdateVerifying, UpdateRebooting]"

definition steps_on :: "int \<Rightarrow> nat \<Rightarrow> (UpdateState \<times> int) list" where
  "steps_on g n = map (\<lambda>st. (st, g)) (take n fw_path)"

text \<open>What a manifest that was issued allows to flash.\<close>

definition flashable :: "FirmwareManifest \<Rightarrow> bool" where
  "flashable m \<longleftrightarrow> mfQualification m = ''QUALIFIED'' \<and> mfTargetVersion m \<noteq> mfCurrentVersion m
     \<and> canonicalLowerHex (mfArtifactSHA256 m) 64 \<and> 0 < mfArtifactSize m \<and> mfArtifactSize m \<le> MaxArtifactBytes
     \<and> mfIssuedAt m < mfExpiresAt m \<and> time_sub (mfExpiresAt m) (mfIssuedAt m) \<le> MaxManifestLifetime
     \<and> (mfProfileID m = ''stagecore.esp32-stagelaser'' \<longrightarrow> mfRollbackRequired m)"

definition seen_for :: "(int \<Rightarrow> (string \<times> string \<times> string) option) \<Rightarrow> int \<Rightarrow> FirmwareManifest \<Rightarrow> bool" where
  "seen_for seen g m \<longleftrightarrow> (\<exists>p v. seen g = Some (mfDeviceID m, p, v))"

definition confirmed_by :: "(int \<Rightarrow> (string \<times> string \<times> string) option) \<Rightarrow> int \<Rightarrow> FirmwareManifest \<Rightarrow> bool" where
  "confirmed_by seen g m \<longleftrightarrow> (\<exists>d p v. seen g = Some (d, p, v) \<and> trim_space d = mfDeviceID m \<and> trim_space p = mfProfileID m
     \<and> trim_space v = mfTargetVersion m)"

definition row_ok :: "(int \<Rightarrow> (string \<times> string \<times> string) option) \<Rightarrow> UpdateRow \<Rightarrow> bool" where
  "row_ok seen r \<longleftrightarrow> flashable (frManifest r)
     \<and> (frState r = UpdateIssued \<longrightarrow> frTrail r = [])
     \<and> (0 < update_rank (frState r) \<longrightarrow> (\<exists>g. frGeneration r = Some g \<and> frTrail r = steps_on g (update_rank (frState r)) \<and> seen_for seen g (frManifest r)))
     \<and> (frState r = UpdateCompleted \<longrightarrow> (\<exists>g g'. frGeneration r = Some g \<and> frTrail r = steps_on g 6 @ [(UpdateCompleted, g')]
            \<and> g < g' \<and> seen_for seen g (frManifest r) \<and> confirmed_by seen g' (frManifest r)))"

definition conn_ok :: "(int \<Rightarrow> (string \<times> string \<times> string) option) \<Rightarrow> string \<Rightarrow> FwConn \<Rightarrow> bool" where
  "conn_ok seen d c \<longleftrightarrow> cnDevice c = d \<and> (cnProtocol c = ProtocolVersion2 \<longrightarrow> (\<exists>p v. seen (cnGeneration c) = Some (d, p, v)))"

definition fw_inv :: "fw_state \<Rightarrow> bool" where
  "fw_inv s \<longleftrightarrow> distinct (map row_id (fsRows s)) \<and> index_ok (fsRows s) \<and> (\<forall>r \<in> set (fsRows s). row_ok (fsSeen s) r)
     \<and> (\<forall>g. fsSeen s g \<noteq> None \<longrightarrow> g \<le> fsSequence s) \<and> (\<forall>d c. map_of (fsConns s) d = Some c \<longrightarrow> conn_ok (fsSeen s) d c)"

definition seen_ext :: "(int \<Rightarrow> 'a option) \<Rightarrow> (int \<Rightarrow> 'a option) \<Rightarrow> bool" where
  "seen_ext f f' \<longleftrightarrow> (\<forall>g x. f g = Some x \<longrightarrow> f' g = Some x)"

definition evolves :: "fw_state \<Rightarrow> fw_state \<Rightarrow> bool" where
  "evolves s s' \<longleftrightarrow> seen_ext (fsSeen s) (fsSeen s')
     \<and> (\<forall>r \<in> set (fsRows s). \<exists>r' \<in> set (fsRows s'). frManifest r' = frManifest r \<and> prefix (frTrail r) (frTrail r'))"

definition fw_guar :: "nat \<Rightarrow> fw_state \<Rightarrow> fw_state \<Rightarrow> bool" where
  "fw_guar t s s' \<longleftrightarrow> fw_inv s' \<and> evolves s s'"

definition fw_rely :: "nat \<Rightarrow> fw_state \<Rightarrow> fw_state \<Rightarrow> bool" where
  "fw_rely t s s' \<longleftrightarrow> evolves s s'"

definition stored_sent :: "FirmwareManifest \<Rightarrow> int \<Rightarrow> fw_state \<Rightarrow> bool" where
  "stored_sent m g s \<longleftrightarrow> (\<exists>r \<in> set (fsRows s). frManifest r = m \<and> (UpdateSent, g) \<in> set (frTrail r))"

definition fw_marks :: "nat \<Rightarrow> fw_label \<Rightarrow> fw_state \<Rightarrow> bool" where
  "fw_marks t l s \<longleftrightarrow> (case l of LStep \<Rightarrow> True | LSend m g \<Rightarrow> stored_sent m g s \<and> seen_for (fsSeen s) g m)"

interpretation fw: rely_guarantee fw_inv fw_rely fw_guar fw_marks
  by unfold_locales (simp_all add: fw_guar_def fw_rely_def)

lemma seen_ext_refl [simp]: "seen_ext f f"
  by (simp add: seen_ext_def)

lemma evolves_refl [simp]: "evolves s s"
  by (auto simp: evolves_def)

lemma seen_for_ext: "seen_for f g m \<Longrightarrow> seen_ext f f' \<Longrightarrow> seen_for f' g m"
  unfolding seen_for_def seen_ext_def by blast

lemma confirmed_by_ext: "confirmed_by f g m \<Longrightarrow> seen_ext f f' \<Longrightarrow> confirmed_by f' g m"
  unfolding confirmed_by_def seen_ext_def by blast

lemma row_ok_ext: "row_ok f r \<Longrightarrow> seen_ext f f' \<Longrightarrow> row_ok f' r"
  unfolding row_ok_def by (blast intro: seen_for_ext confirmed_by_ext)

lemma conn_ok_ext: "conn_ok f d c \<Longrightarrow> seen_ext f f' \<Longrightarrow> conn_ok f' d c"
  unfolding conn_ok_def seen_ext_def by blast

subsection \<open>Writes\<close>

text \<open>A write that changes some rows, keeps their manifests, extends their history and leaves them proper.\<close>

lemma guar_rows:
  assumes inv: "fw_inv s" and rows: "rows = map (\<lambda>r. if P r then f r else r) (fsRows s)" and "index_ok rows"
    and each: "\<And>r. \<lbrakk>r \<in> set (fsRows s); P r\<rbrakk> \<Longrightarrow>
      frManifest (f r) = frManifest r \<and> prefix (frTrail r) (frTrail (f r)) \<and> row_ok (fsSeen s) (f r)"
  shows "fw_guar t s (s\<lparr>fsRows := rows\<rparr>)"
proof -
  have ids: "map row_id rows = map row_id (fsRows s)" using each by (simp add: rows)
  have "distinct (map row_id (fsRows s))" using inv by (simp add: fw_inv_def)
  then have "distinct (map row_id rows)" by (simp only: ids)
  moreover have "\<forall>r \<in> set rows. row_ok (fsSeen s) r" using inv each by (auto simp: rows fw_inv_def)
  ultimately have "fw_inv (s\<lparr>fsRows := rows\<rparr>)" using inv assms(3) by (simp add: fw_inv_def)
  moreover have "\<exists>r' \<in> set rows. frManifest r' = frManifest r \<and> prefix (frTrail r) (frTrail r')" if "r \<in> set (fsRows s)" for r
    by (rule bexI [of _ "if P r then f r else r"]) (use that each in \<open>auto simp: rows\<close>)
  then have "evolves s (s\<lparr>fsRows := rows\<rparr>)" by (simp add: evolves_def)
  ultimately show ?thesis by (simp add: fw_guar_def)
qed

lemma guar_refl: "fw_inv s \<Longrightarrow> fw_guar t s s"
  by (simp add: fw_guar_def)

lemma guar_exec:
  assumes "fw_inv s"
    and "\<And>r. \<lbrakk>r \<in> set (fsRows s); P r\<rbrakk> \<Longrightarrow>
      frManifest (f r) = frManifest r \<and> prefix (frTrail r) (frTrail (f r)) \<and> row_ok (fsSeen s) (f r)"
  shows "fw_guar t s (fst (exec_update P f i s))"
  using guar_rows [OF assms(1) refl, of P f t] assms by (auto simp: exec_update_def Let_def guar_refl)

lemma fst_answer [simp]:
  "fst (case x of (s', Inl e) \<Rightarrow> (s', F e) | (s', Inr n) \<Rightarrow> (s', G n)) = fst x"
  by (cases x; cases "snd x") auto

lemma write_state_sel [simp]:
  "frManifest (write_state st g d c now r) = frManifest r" "frState (write_state st g d c now r) = st"
  "frTrail (write_state st g d c now r) = frTrail r @ [(st, g)]" "frGeneration (write_state st g d c now r) = frGeneration r"
  by (simp_all add: write_state_def)

text \<open>Ending an update without completing it is always proper.\<close>

lemma row_ok_end:
  assumes "row_ok seen r" and "st \<notin> {UpdateIssued, UpdateCompleted}" and "update_rank st = 0"
  shows "row_ok seen (write_state st g d c now r)"
  using assms by (auto simp: row_ok_def)

lemma row_in: "fw_inv s \<Longrightarrow> r \<in> set (fsRows s) \<Longrightarrow> row_ok (fsSeen s) r"
  by (simp add: fw_inv_def)

lemma ranks [simp]:
  "update_rank UpdateExpired = 0" "update_rank UpdateFailed = 0" "update_rank UpdateInterrupted = 0"
  "update_rank UpdateRejected = 0" "update_rank UpdateCompleted = 0" "update_rank UpdateIssued = 0" "update_rank UpdateSent = 1"
  "update_rank UpdateRebooting = 6"
  by (simp_all add: update_rank_def)

lemma next_step:
  assumes "0 < update_rank st" and "update_rank st' = update_rank st + 1"
  shows "steps_on g (update_rank st) @ [(st', g)] = steps_on g (update_rank st')"
  using assms by (cases st; cases st') (simp_all add: update_rank_def steps_on_def fw_path_def numeral_eq_Suc)

lemma row_ok_step:
  assumes "row_ok seen r" and "frGeneration r = Some g" and "validDeviceTransition (frState r) st"
  shows "row_ok seen (write_state st g d c now r)"
proof (cases "st = UpdateRejected \<or> st = UpdateFailed")
  case True
  then show ?thesis using row_ok_end [OF assms(1)] by auto
next
  case False
  then have r: "0 < update_rank (frState r)" "update_rank st = update_rank (frState r) + 1"
    using assms(3) by (auto simp: validDeviceTransition_def split: if_splits)
  then have "st \<noteq> UpdateCompleted" "st \<noteq> UpdateIssued" by auto
  moreover have "frTrail r = steps_on g (update_rank (frState r))" "seen_for seen g (frManifest r)" "flashable (frManifest r)"
    using assms(1,2) r(1) by (auto simp: row_ok_def)
  ultimately show ?thesis using next_step [OF r, of g] assms(2) r by (simp add: row_ok_def)
qed

subsection \<open>The actions\<close>

text \<open>\<open>stored m\<close>: there is a row with the manifest, which no write changes.\<close>

definition stored :: "FirmwareManifest \<Rightarrow> fw_state \<Rightarrow> bool" where
  "stored m s \<longleftrightarrow> (\<exists>r \<in> set (fsRows s). frManifest r = m)"

definition seen_conn :: "FwConn \<Rightarrow> fw_state \<Rightarrow> bool" where
  "seen_conn c s \<longleftrightarrow> (\<exists>p v. fsSeen s (cnGeneration c) = Some (cnDevice c, p, v))"

lemma the_row:
  assumes "fw_inv s" and "r \<in> set (fsRows s)" and "stored m s" and "row_id r = mfUpdateID m"
  shows "frManifest r = m"
proof -
  from assms(3) obtain q where q: "q \<in> set (fsRows s)" "frManifest q = m" by (auto simp: stored_def)
  then have "row_id q = row_id r" using assms(4) by simp
  then have "q = r" using assms(1,2) q(1) by (auto simp: fw_inv_def distinct_map inj_on_def)
  with q show ?thesis by simp
qed

lemma fw_Get_row: "fw_Get uid i s = (s', Inr r) \<Longrightarrow> s' = s \<and> r \<in> set (fsRows s) \<and> row_id r = trim_space uid"
  by (auto simp: fw_Get_def find_Some_iff split: if_splits option.splits dest: nth_mem)

lemma fst_fw_Get [simp]: "fst (fw_Get uid i s) = s"
  by (simp add: fw_Get_def)

lemma prefix_snoc [simp]: "prefix xs (xs @ ys)"
  by (simp add: prefix_def)

lemma guar_insert:
  assumes inv: "fw_inv s"
  shows "fw_guar t s (fst (insert_update env m actor i s))"
proof (cases "fst (insert_update env m actor i s) = s")
  case False
  define r where "r = \<lparr>frManifest = m, frState = UpdateIssued, frIssuedBy = actor, frGeneration = None,
                 frCompletion = None, frDetail = [], frErrorCode = [], frUpdatedUS = unix_micro (fiNow i), frTrail = []\<rparr>"
  have new: "fst (insert_update env m actor i s) = s\<lparr>fsRows := fsRows s @ [r]\<rparr>" "\<forall>q \<in> set (fsRows s). row_id q \<noteq> mfUpdateID m"
      "fw_ValidateManifest env m \<lparr>vcExpectedDeviceID = mfDeviceID m, vcExpectedProfileID = mfProfileID m, vcNow = fiNow i,
             vcRequireRollback = (mfProfileID m = ''stagecore.esp32-stagelaser'')\<rparr> = None"
    using False by (auto simp: insert_update_def r_def Let_def split: option.splits if_splits)
  have "flashable m"
    using new(3) by (simp add: fw_ValidateManifest_def flashable_def split: if_splits option.splits)
  then have ok: "row_ok (fsSeen s) r" by (simp add: row_ok_def r_def)
  have "index_ok (fsRows s @ [r])" using inv by (simp add: fw_inv_def index_ok_def r_def active_update_def)
  moreover have "distinct (map row_id (fsRows s @ [r]))" using inv new(2) by (auto simp: fw_inv_def r_def)
  ultimately have "fw_inv (s\<lparr>fsRows := fsRows s @ [r]\<rparr>)" using inv ok by (auto simp: fw_inv_def)
  moreover have "evolves s (s\<lparr>fsRows := fsRows s @ [r]\<rparr>)" by (auto simp: evolves_def)
  ultimately show ?thesis by (simp add: new(1) fw_guar_def)
qed (simp add: guar_refl inv)

lemma guar_mark_sent:
  assumes inv: "fw_inv s" and m: "stored m s" "uid = mfUpdateID m" "seen_for (fsSeen s) g m"
  shows "fw_guar t s (fst (mark_sent_tx uid dev g i s))"
proof -
  let ?sent = "\<lambda>now r. write_state UpdateSent g [] [] now (r\<lparr>frGeneration := Some g\<rparr>)"
  let ?rows = "\<lambda>f. map (\<lambda>r. if row_id r = uid \<and> frState r = UpdateIssued then f r else r) (fsRows s)"
  have sent: "fw_guar t s (s\<lparr>fsRows := ?rows (?sent now)\<rparr>)" if "index_ok (?rows (?sent now))" for now
  proof (rule guar_rows [OF inv refl that])
    fix r assume r: "r \<in> set (fsRows s)" "row_id r = uid \<and> frState r = UpdateIssued"
    then have "frManifest r = m" using the_row [OF inv r(1) m(1)] m(2) by simp
    then show "frManifest (write_state UpdateSent g [] [] now (r\<lparr>frGeneration := Some g\<rparr>)) = frManifest r
        \<and> prefix (frTrail r) (frTrail (write_state UpdateSent g [] [] now (r\<lparr>frGeneration := Some g\<rparr>)))
        \<and> row_ok (fsSeen s) (write_state UpdateSent g [] [] now (r\<lparr>frGeneration := Some g\<rparr>))"
      using row_in [OF inv r(1)] r(2) m(3) by (simp add: row_ok_def steps_on_def fw_path_def)
  qed
  have expired: "fw_guar t s (s\<lparr>fsRows := ?rows (write_state UpdateExpired 0 d c now)\<rparr>)"
    if "index_ok (?rows (write_state UpdateExpired 0 d c now))" for now d c
    by (rule guar_rows [OF inv refl that]) (use row_ok_end row_in [OF inv] in auto)
  show ?thesis
    using sent expired by (auto simp: mark_sent_tx_def Let_def guar_refl inv split: option.split)
qed

lemma guar_record:
  assumes inv: "fw_inv s"
  shows "fw_guar t s (fst (record_state uid dev g st d c current i s))"
proof -
  let ?mine = "\<lambda>before r. row_id r = uid \<and> row_device r = dev \<and> frGeneration r = Some g \<and> frState r = before"
  have e: "fw_guar t s (fst (exec_update (?mine UpdateSent) (write_state UpdateExpired g a b now) i s))" for a b now
    by (rule guar_exec [OF inv]) (use row_ok_end row_in [OF inv] in auto)
  have w: "fw_guar t s (fst (exec_update (?mine (frState current)) (write_state st g a b now) i s))"
    if "validDeviceTransition (frState current) st" for a b now
    by (rule guar_exec [OF inv]) (use row_ok_step row_in [OF inv] that in auto)
  show ?thesis using e w guar_refl [OF inv] by (simp add: record_state_def Let_def)
qed

lemma guar_failed:
  assumes inv: "fw_inv s"
  shows "fw_guar t s (fst (failed_send uid dev g d i s))"
proof -
  have "fw_guar t s (fst (exec_update (\<lambda>r. row_id r = uid \<and> row_device r = dev \<and> frGeneration r = Some g \<and> frState r = UpdateSent)
      (write_state UpdateFailed g a b now) i s))" for a b now
    by (rule guar_exec [OF inv]) (use row_ok_end row_in [OF inv] in auto)
  then show ?thesis by (simp add: failed_send_def)
qed

lemma guar_interrupted:
  assumes inv: "fw_inv s"
  shows "fw_guar t s (fst (exec_update P (write_state UpdateInterrupted g d c now) i s))"
  by (rule guar_exec [OF inv]) (use row_ok_end row_in [OF inv] in auto)

lemma guar_complete:
  assumes inv: "fw_inv s" and cur: "stored (frManifest current) s" and g: "generation_of current < g'"
    and seen: "fsSeen s g' = Some (dev, p, v)"
  shows "fw_guar t s (fst (complete_update dev p v g' current i s))"
proof -
  obtain st d c where o: "reboot_outcome (frManifest current) p v = (st, d, c)" by (cases "reboot_outcome (frManifest current) p v") auto
  let ?P = "\<lambda>r. row_id r = row_id current \<and> row_device r = trim_space dev \<and> frState r = UpdateRebooting \<and> frGeneration r = Some (generation_of current)"
  let ?f = "\<lambda>r. write_state st g' d c (fiNow i) (r\<lparr>frCompletion := Some g'\<rparr>)"
  have "fw_guar t s (fst (exec_update ?P ?f i s))"
  proof (rule guar_exec [OF inv])
    fix r assume r: "r \<in> set (fsRows s)" "?P r"
    have m: "frManifest r = frManifest current" using the_row [OF inv r(1) cur] r(2) by simp
    note ok = row_in [OF inv r(1)]
    have "row_ok (fsSeen s) (?f r)"
    proof (cases "st = UpdateCompleted")
      case True
      then have "trim_space p = mfProfileID (frManifest r)" "trim_space v = mfTargetVersion (frManifest r)"
        using o m by (auto simp: reboot_outcome_def split: if_splits)
      then have "confirmed_by (fsSeen s) g' (frManifest r)" using seen r(2) by (auto simp: confirmed_by_def)
      then show ?thesis using ok r(2) g True by (auto simp: row_ok_def)
    next
      case False
      then have "st = UpdateFailed" using o by (auto simp: reboot_outcome_def split: if_splits)
      then show ?thesis using ok by (auto simp: row_ok_def)
    qed
    then show "frManifest (?f r) = frManifest r \<and> prefix (frTrail r) (frTrail (?f r)) \<and> row_ok (fsSeen s) (?f r)" by simp
  qed
  then show ?thesis by (simp add: complete_update_def o)
qed

lemma guar_conns:
  assumes "fw_inv s" and "fsRows s' = fsRows s" and "fsSeen s' = fsSeen s" and "fsSequence s' = fsSequence s"
    and "\<And>d c. map_of (fsConns s') d = Some c \<Longrightarrow> map_of (fsConns s) d = Some c"
  shows "fw_guar t s s'"
  using assms by (auto simp: fw_guar_def fw_inv_def evolves_def)

lemma guar_register:
  assumes inv: "fw_inv s"
  shows "fw_guar t s (fst (dc_register c p v i s))"
    and "dc_register c p v i s = (s', Inr (c', prev)) \<Longrightarrow> cnServe c' = cnServe c \<and> cnProtocol c' = cnProtocol c
      \<and> (cnProtocol c' = ProtocolVersion2 \<longrightarrow> fsSeen s' (cnGeneration c') = Some (cnDevice c', p, v))"
proof -
  have "fsSeen s (fsSequence s + 1) \<noteq> None \<longrightarrow> fsSequence s + 1 \<le> fsSequence s" using inv unfolding fw_inv_def by blast
  then have fresh: "fsSeen s (fsSequence s + 1) = None" by (cases "fsSeen s (fsSequence s + 1)") auto
  have ext: "seen_ext (fsSeen s) ((fsSeen s)(fsSequence s + 1 \<mapsto> x))" for x using fresh by (auto simp: seen_ext_def)
  have "g \<le> fsSequence s + 1" if "fsSeen s g \<noteq> None" for g
    using that inv unfolding fw_inv_def by (meson dual_order.trans less_add_one less_imp_le)
  then have grow: "fw_guar t s (s\<lparr>fsSequence := fsSequence s + 1\<rparr>)"
    using inv by (auto simp: fw_guar_def fw_inv_def evolves_def)
  have conn: "\<forall>d e. map_of (fsConns s) d = Some e \<longrightarrow> conn_ok (fsSeen s) d e" using inv by (simp add: fw_inv_def)
  have v2: "fw_guar t s (s\<lparr>fsSequence := fsSequence s + 1, fsConns := AList.update (cnDevice c) (c\<lparr>cnGeneration := fsSequence s + 1\<rparr>) (fsConns s),
      fsSeen := (fsSeen s)(fsSequence s + 1 \<mapsto> (cnDevice c, p, v))\<rparr>)" (is "fw_guar t s ?s")
  proof -
    have "row_ok (fsSeen ?s) r" if "r \<in> set (fsRows s)" for r
      using row_ok_ext [OF row_in [OF inv that] ext] by simp
    moreover have "g \<le> fsSequence ?s" if "fsSeen ?s g \<noteq> None" for g
      using that inv by (cases "g = fsSequence s + 1") (fastforce simp: fw_inv_def)+
    moreover have "conn_ok (fsSeen ?s) d e" if "map_of (fsConns ?s) d = Some e" for d e
    proof (cases "d = cnDevice c")
      case True
      then show ?thesis using that by (auto simp: update_conv' conn_ok_def)
    next
      case False
      then have "conn_ok (fsSeen s) d e" using that conn by (simp add: update_conv')
      from conn_ok_ext [OF this ext] show ?thesis by simp
    qed
    ultimately have "fw_inv ?s" using inv by (simp add: fw_inv_def)
    moreover have "evolves s ?s" using ext by (auto simp: evolves_def)
    ultimately show ?thesis by (simp add: fw_guar_def)
  qed
  have v1: "fw_guar t s (s\<lparr>fsNext := n, fsConns := AList.update (cnDevice c) (c\<lparr>cnGeneration := n\<rparr>) (fsConns s), fsSeen := fsSeen s\<rparr>)"
    (is "fw_guar t s ?s") if "cnProtocol c \<noteq> ProtocolVersion2" for n
  proof -
    have "conn_ok (fsSeen s) d e" if "map_of (fsConns ?s) d = Some e" for d e
      using that conn \<open>cnProtocol c \<noteq> ProtocolVersion2\<close> by (auto simp: update_conv' conn_ok_def split: if_splits)
    then have "fw_inv ?s" using inv by (simp add: fw_inv_def)
    then show ?thesis by (auto simp: fw_guar_def evolves_def)
  qed
  have nx: "fw_guar t s (s\<lparr>fsNext := n\<rparr>)" for n by (rule guar_conns [OF inv]) simp_all
  show "fw_guar t s (fst (dc_register c p v i s))"
    using grow v2 v1 nx guar_refl [OF inv]
    by (auto simp: dc_register_def AllocateV2ConnectionGeneration_def Let_def split: prod.splits sum.splits if_splits)
  show "dc_register c p v i s = (s', Inr (c', prev)) \<Longrightarrow> cnServe c' = cnServe c \<and> cnProtocol c' = cnProtocol c
      \<and> (cnProtocol c' = ProtocolVersion2 \<longrightarrow> fsSeen s' (cnGeneration c') = Some (cnDevice c', p, v))"
    by (auto simp: dc_register_def AllocateV2ConnectionGeneration_def Let_def split: prod.splits sum.splits if_splits)
qed

section \<open>The handlers\<close>

abbreviation fw_stable :: "(fw_state \<Rightarrow> bool) \<Rightarrow> bool" where
  "fw_stable \<equiv> stable fw_inv evolves"

lemma rely_eq: "fw_rely t = evolves"
  by (rule ext)+ (simp add: fw_rely_def)

lemma fw_stables [simp]:
  "fw_stable (\<lambda>s. True)" "fw_stable (stored m)" "fw_stable (stored_sent m g)"
  "fw_stable (\<lambda>s. seen_for (fsSeen s) g m)" "fw_stable (\<lambda>s. fsSeen s g = Some x)"
proof -
  show "fw_stable (stored m)" unfolding stable_def evolves_def stored_def by metis
  show "fw_stable (stored_sent m g)" unfolding stable_def evolves_def stored_sent_def by (blast dest: set_mono_prefix)
  show "fw_stable (\<lambda>s. seen_for (fsSeen s) g m)" unfolding stable_def evolves_def by (blast intro: seen_for_ext)
  show "fw_stable (\<lambda>s. fsSeen s g = Some x)" unfolding stable_def evolves_def seen_ext_def by blast
qed (simp add: stable_def)

lemma fw_stable_conj: "fw_stable P \<Longrightarrow> fw_stable Q \<Longrightarrow> fw_stable (\<lambda>s. P s \<and> Q s)"
  by (simp add: stable_def)

text \<open>An action within the guarantee keeps what is stable.\<close>

lemma fw_keep:
  assumes st: "fw_stable P" and g: "\<And>i s. fw_inv s \<Longrightarrow> P s \<Longrightarrow> fw_guar t s (fst (f i s))" and "\<And>a. fw.ok t P (k a)"
  shows "fw.ok t P (act LStep f k)"
proof (rule rg_keep)
  show "stable fw_inv (fw_rely t) P" by (simp add: rely_eq st)
next
  fix i s assume s: "fw_inv s" "P s"
  then have "evolves s (fst (f i s))" using g by (simp add: fw_guar_def)
  then have "P (fst (f i s))" using st s unfolding stable_def by blast
  with g s show "fw_guar t s (fst (f i s)) \<and> P (fst (f i s))" by simp
qed (simp_all add: fw_marks_def assms(3))

text \<open>An action within the guarantee whose answer also tells something.\<close>

lemma fw_learn:
  assumes st: "fw_stable P" and g: "\<And>i s. fw_inv s \<Longrightarrow> P s \<Longrightarrow> fw_guar t s (fst (f i s))"
    and q: "\<And>i s s' a. fw_inv s \<Longrightarrow> P s \<Longrightarrow> f i s = (s', a) \<Longrightarrow> Q a s'"
    and k: "\<And>a. fw.ok t (\<lambda>s. P s \<and> Q a s) (k a)"
  shows "fw.ok t P (act LStep f k)"
proof (rule rg_act)
  show "stable fw_inv (fw_rely t) P" by (simp add: rely_eq st)
next
  fix i s s' a assume s: "fw_inv s" "P s" and run: "f i s = (s', a)"
  then have guar: "fw_guar t s s'" using g [OF s, of i] by simp
  then have "P s'" using st s unfolding stable_def fw_guar_def by blast
  with q [OF s run] k [of a] guar show "fw_guar t s s' \<and> (\<exists>P'. P' s' \<and> fw.ok t P' (k a))"
    by (intro conjI exI [of _ "\<lambda>s. P s \<and> Q a s"]) simp_all
qed (simp add: fw_marks_def)

lemma ok_weaken: "fw.ok t P p \<Longrightarrow> fw_stable Q \<Longrightarrow> (\<And>s. Q s \<Longrightarrow> P s) \<Longrightarrow> fw.ok t Q p"
  unfolding rely_eq by (rule rg_weaken)

lemma ok_get_after:
  assumes "fw_stable P" and "\<And>a. fw.ok t P (k a)"
  shows "fw.ok t P (get_after uid k e)"
  unfolding get_after_def by (cases e) (simp_all add: assms fw_keep guar_refl)

lemma ok_read:
  assumes "fw_stable P" and "\<And>i s. fst (f i s) = s" and "\<And>a. fw.ok t P (k a)"
  shows "fw.ok t P (act LStep f k)"
  by (rule fw_keep) (simp_all add: assms guar_refl)

lemma ok_close:
  assumes "fw_stable P" and "\<And>a. fw.ok t P (k a)"
  shows "fw.ok t P (act LStep (dc_close c) k)"
  by (rule fw_keep) (auto simp: assms dc_close_def intro!: guar_conns)

lemma ok_Issue:
  assumes "\<And>a. fw.ok t (\<lambda>s. True) (k a)"
  shows "fw.ok t (\<lambda>s. True) (fw_Issue env m actor k)"
  unfolding fw_Issue_def Let_def by (simp add: assms fw_keep guar_insert ok_get_after)

lemma ok_RecordDeviceState:
  assumes "fw_stable P" and "\<And>a. fw.ok t P (k a)"
  shows "fw.ok t P (RecordDeviceState uid dev g st d c k)"
proof -
  have "fw.ok t P (act LStep (record_state uid dev g st d c current) (get_after uid k))" for current
    by (rule fw_keep) (simp_all add: assms guar_record ok_get_after)
  then show ?thesis unfolding RecordDeviceState_def by (simp add: assms ok_read split: sum.split)
qed

lemma ok_MarkTransportFailed:
  assumes "fw_stable P" and "\<And>a. fw.ok t P (k a)"
  shows "fw.ok t P (MarkTransportFailed uid dev g d k)"
proof -
  have "fw.ok t P (act LStep (failed_send uid dev g d) (get_after uid k))"
    by (rule fw_keep) (simp_all add: assms guar_failed ok_get_after)
  then show ?thesis unfolding MarkTransportFailed_def by (simp add: assms ok_read split: sum.split)
qed

lemma ok_Interrupt:
  assumes "fw_stable P" and "\<And>a. fw.ok t P (k a)"
  shows "fw.ok t P (InterruptConnection dev g d k)"
  unfolding InterruptConnection_def by (simp add: assms fw_keep guar_interrupted)

lemma ok_Reconcile:
  assumes "fw_stable P" and "\<And>a. fw.ok t P (k a)"
  shows "fw.ok t P (fw_ReconcileInterrupted k)"
  unfolding fw_ReconcileInterrupted_def by (simp add: assms fw_keep guar_interrupted)

lemma rg_False: "rg I R G M (\<lambda>s. False) p"
  by (cases p) (auto intro: rg_Ret rg_Act simp: stable_def)

text \<open>What \<open>Get\<close> returns is stored.\<close>

lemma ok_Get:
  assumes "fw_stable P" and "\<And>r. row_id r = trim_space uid \<Longrightarrow> fw.ok t (\<lambda>s. P s \<and> stored (frManifest r) s) (k (Inr r))"
    and "\<And>e. fw.ok t P (k (Inl e))"
  shows "fw.ok t P (act LStep (fw_Get uid) k)"
proof (rule fw_learn [where Q = "\<lambda>a s. case a of Inl e \<Rightarrow> True | Inr r \<Rightarrow> row_id r = trim_space uid \<and> stored (frManifest r) s"])
  fix i s s' a assume "fw_Get uid i s = (s', a)"
  then show "case a of Inl e \<Rightarrow> True | Inr r \<Rightarrow> row_id r = trim_space uid \<and> stored (frManifest r) s'"
    using fw_Get_row by (fastforce simp: stored_def split: sum.split)
next
  fix a :: "UpdateRow answer"
  show "fw.ok t (\<lambda>s. P s \<and> (case a of Inl e \<Rightarrow> True | Inr r \<Rightarrow> row_id r = trim_space uid \<and> stored (frManifest r) s)) (k a)"
  proof (cases a)
    case (Inr r)
    show ?thesis
    proof (cases "row_id r = trim_space uid")
      case False
      then show ?thesis using Inr by (simp add: rg_False)
    qed (simp add: Inr assms(2))
  qed (simp add: assms(3))
qed (simp_all add: assms(1) guar_refl)

lemma ok_Confirm:
  assumes "\<And>a. fw.ok t P (k a)"
    and P: "P = (\<lambda>s. fsSeen s g = Some (dev, p, v))"
  shows "fw.ok t P (ConfirmPostReboot dev p v g k)"
proof -
  have st: "fw_stable P" by (simp add: P)
  have after: "fw.ok t P (get_after uid (\<lambda>a. k (map_sum id Some a)) e)" for uid e
    by (rule ok_get_after) (simp_all add: st assms(1))
  have put: "fw.ok t (\<lambda>s. P s \<and> stored (frManifest current) s)
      (act LStep (complete_update dev p v g current) (get_after uid (\<lambda>a. k (map_sum id Some a))))"
    if "generation_of current < g" for current uid
  proof (rule fw_keep)
    show "fw_stable (\<lambda>s. P s \<and> stored (frManifest current) s)" by (simp add: fw_stable_conj st)
  next
    fix i s assume "fw_inv s" "P s \<and> stored (frManifest current) s"
    then show "fw_guar t s (fst (complete_update dev p v g current i s))" using that by (simp add: guar_complete P)
  next
    fix a
    show "fw.ok t (\<lambda>s. P s \<and> stored (frManifest current) s) (get_after uid (\<lambda>a. k (map_sum id Some a)) a)"
      by (rule ok_weaken [OF after]) (simp_all add: fw_stable_conj st)
  qed
  have weak: "fw.ok t (\<lambda>s. P s \<and> stored m s) (k a)" for m a
    by (rule ok_weaken [OF assms(1)]) (simp_all add: fw_stable_conj st)
  have get: "fw.ok t P (act LStep (fw_Get uid) (\<lambda>got. case got of
      Inl e \<Rightarrow> k (Inl e)
    | Inr current \<Rightarrow> if generation_of current \<le> 0 \<or> g \<le> generation_of current then k (Inl ErrUpdateGeneration)
        else act LStep (complete_update dev p v g current) (get_after (row_id current) (\<lambda>a. k (map_sum id Some a)))))" for uid
    by (rule ok_Get) (auto simp: st assms(1) put weak)
  have "fw.ok t P (act LStep (find_rebooting dev) (\<lambda>found. case found of
      Inl e \<Rightarrow> k (Inl e) | Inr None \<Rightarrow> k (Inr None)
    | Inr (Some r) \<Rightarrow> act LStep (fw_Get (row_id r)) (\<lambda>got. case got of
          Inl e \<Rightarrow> k (Inl e)
        | Inr current \<Rightarrow> if generation_of current \<le> 0 \<or> g \<le> generation_of current then k (Inl ErrUpdateGeneration)
            else act LStep (complete_update dev p v g current) (get_after (row_id current) (\<lambda>a. k (map_sum id Some a))))))"
    by (rule ok_read) (simp_all add: st find_rebooting_def assms(1) get split: sum.split option.split)
  then show ?thesis by (simp add: ConfirmPostReboot_def assms(1))
qed

text \<open>Marking an update sent under its own trimmed identifier stores that it is sent.\<close>

lemma mark_sent_stored:
  assumes inv: "fw_inv s" and m: "stored m s" "uid = mfUpdateID m" "trim_space uid = uid"
    and run: "mark_sent_tx uid dev g i s = (s', None)"
  shows "stored_sent m g s'"
proof -
  obtain r where r: "r \<in> set (fsRows s)" "row_id r = uid" "frState r = UpdateIssued"
      "find (\<lambda>r. row_id r = trim_space uid) (fsRows s) = Some r"
    using run m(3) by (auto simp: mark_sent_tx_def Let_def find_Some_iff split: option.splits if_splits dest: nth_mem)
  have "frManifest r = m" using the_row [OF inv r(1) m(1)] r(2) m(2) by simp
  have "fsRows s' = map (\<lambda>r. if row_id r = uid \<and> frState r = UpdateIssued
      then write_state UpdateSent g [] [] (fiNow i) (r\<lparr>frGeneration := Some g\<rparr>) else r) (fsRows s)"
    using run r(4) by (auto simp: mark_sent_tx_def Let_def split: if_splits)
  then have row: "write_state UpdateSent g [] [] (fiNow i) (r\<lparr>frGeneration := Some g\<rparr>) \<in> set (fsRows s')"
    using r by (force simp: image_iff)
  show ?thesis unfolding stored_sent_def by (rule bexI [OF _ row]) (simp add: \<open>frManifest r = m\<close>)
qed

lemma ok_MarkSent:
  assumes st: "fw_stable P" and m: "uid = mfUpdateID m" "trim_space uid = uid"
    and P: "\<And>s. P s \<Longrightarrow> stored m s \<and> seen_for (fsSeen s) g m"
    and k: "\<And>r. fw.ok t (\<lambda>s. P s \<and> stored_sent m g s) (k (Inr r))" and e: "\<And>e. fw.ok t P (k (Inl e))"
  shows "fw.ok t P (MarkSent uid dev g k)"
proof -
  have "fw.ok t (\<lambda>s. P s \<and> stored_sent m g s) (k (Inl x))" for x
    by (rule ok_weaken [OF e]) (simp_all add: fw_stable_conj st)
  then have "fw.ok t (\<lambda>s. P s \<and> stored_sent m g s) (k a)" for a
    using k by (cases a) simp_all
  then have after: "fw.ok t (\<lambda>s. P s \<and> stored_sent m g s) (get_after uid k None)"
    by (intro ok_get_after) (simp_all add: fw_stable_conj st)
  have "fw.ok t P (act LStep (mark_sent_tx uid dev g) (get_after uid k))"
  proof (rule fw_learn [where Q = "\<lambda>a s. a = None \<longrightarrow> stored_sent m g s"])
    fix i s s' a assume "fw_inv s" "P s" "mark_sent_tx uid dev g i s = (s', a)"
    then show "a = None \<longrightarrow> stored_sent m g s'" using mark_sent_stored [OF _ _ m] P by blast
  next
    fix a
    show "fw.ok t (\<lambda>s. P s \<and> (a = None \<longrightarrow> stored_sent m g s)) (get_after uid k a)"
      by (cases a) (simp_all add: after, simp add: get_after_def e)
  qed (use P in \<open>auto simp: st m intro: guar_mark_sent\<close>)
  then show ?thesis by (simp add: MarkSent_def e)
qed

section \<open>Sending and serving\<close>

lemma ok_Ret [simp]: "fw.ok t P (Ret r)"
  by (rule rg_Ret)

lemma fst_pick [simp]: "fst (pick_connection r i s) = s"
  by (simp add: pick_connection_def)

lemma pick_seen:
  assumes "fw_inv s" and "pick_connection r i s = (s', Inr c)"
  shows "s' = s \<and> seen_for (fsSeen s) (cnGeneration c) (frManifest r)"
proof -
  have c: "s' = s" "map_of (fsConns s) (row_device r) = Some c" "cnProtocol c = ProtocolVersion2"
    using assms(2) by (auto simp: pick_connection_def split: option.splits if_splits)
  then have "conn_ok (fsSeen s) (row_device r) c" using assms(1) by (simp add: fw_inv_def)
  then show ?thesis using c by (simp add: conn_ok_def seen_for_def)
qed

lemma ok_Send: "fw.ok t (\<lambda>s. True) (SendFirmwareMaintenance uid)"
proof -
  define sent where "sent = (\<lambda>m (c :: FwConn) row. act (LSend m (cnGeneration c))
      (\<lambda>i s. (s, if fsShut s (cnServe c) then Some ''stage device connection is closed'' else fiSend i)) (\<lambda>failed.
        case failed of None \<Rightarrow> Ret (FwRecord row)
        | Some e \<Rightarrow> MarkTransportFailed (mfUpdateID m) (mfDeviceID m) (cnGeneration c) e (\<lambda>marked.
            act LStep (dc_close (cnServe c)) (\<lambda>_. Ret (FwError (ErrOther (''send firmware maintenance request: '' @ e)))))) :: fw_prog)"
  have send: "fw.ok t (\<lambda>s. stored m s \<and> seen_for (fsSeen s) (cnGeneration c) m \<and> stored_sent m (cnGeneration c) s) (sent m c row)" (is "fw.ok t ?S _")
    for m c row
    unfolding sent_def
  proof (rule rg_keep)
    show "fw.ok t ?S (case failed of None \<Rightarrow> Ret (FwRecord row)
        | Some e \<Rightarrow> MarkTransportFailed (mfUpdateID m) (mfDeviceID m) (cnGeneration c) e (\<lambda>marked.
            act LStep (dc_close (cnServe c)) (\<lambda>_. Ret (FwError (ErrOther (''send firmware maintenance request: '' @ e))))))" for failed
      by (simp add: ok_MarkTransportFailed ok_close fw_stable_conj split: option.split)
  qed (simp_all add: rely_eq fw_stable_conj fw_marks_def guar_refl)
  define go where "go = (\<lambda>ur (picked :: FwConn answer). case picked of
         Inl e \<Rightarrow> Ret (FwError e)
       | Inr c \<Rightarrow> MarkSent (row_id ur) (row_device ur) (cnGeneration c) (\<lambda>a.
           case a of Inl e \<Rightarrow> Ret (FwError e) | Inr row \<Rightarrow> sent (frManifest ur) c row))"
  have picked: "fw.ok t (stored (frManifest ur)) (act LStep (pick_connection ur) (go ur))"
    if "trim_space (row_id ur) = row_id ur" for ur
  proof (rule fw_learn [where Q = "\<lambda>a s. case a of Inl e \<Rightarrow> True | Inr c \<Rightarrow> seen_for (fsSeen s) (cnGeneration c) (frManifest ur)"])
    fix i s s' a assume "fw_inv s" "pick_connection ur i s = (s', a)"
    then show "case a of Inl e \<Rightarrow> True | Inr c \<Rightarrow> seen_for (fsSeen s') (cnGeneration c) (frManifest ur)"
      using pick_seen by (fastforce split: sum.split)
  next
    fix a :: "FwConn answer"
    show "fw.ok t (\<lambda>s. stored (frManifest ur) s
        \<and> (case a of Inl e \<Rightarrow> True | Inr c \<Rightarrow> seen_for (fsSeen s) (cnGeneration c) (frManifest ur))) (go ur a)"
    proof (cases a)
      case (Inr c)
      show ?thesis unfolding Inr go_def sum.case
        by (rule ok_MarkSent [where m = "frManifest ur"]) (simp_all add: fw_stable_conj that send)
    qed (simp add: go_def)
  qed (simp_all add: guar_refl)
  have "fw.ok t (\<lambda>s. True) (act LStep (fw_Get (trim_space uid)) (\<lambda>got. case got of
      Inl e \<Rightarrow> Ret (FwError e) | Inr ur \<Rightarrow> act LStep (pick_connection ur) (go ur)))"
    by (rule ok_Get) (simp_all add: picked)
  then show ?thesis unfolding SendFirmwareMaintenance_def go_def sent_def .
qed

lemma ok_unregister:
  assumes "fw_stable P" and "fw.ok t P k"
  shows "fw.ok t P (unregister_conn c k)"
proof -
  have u: "fw_guar t s (fst (dc_unregister c i s))" if "fw_inv s" for i s
    by (rule guar_conns [OF that]) (auto simp: dc_unregister_def delete_conv' split: if_splits)
  have "fw.ok t P (act LStep (dc_close (cnServe c)) (\<lambda>_. k))" by (rule ok_close) (simp_all add: assms)
  then have "fw.ok t P (interruptFirmwareConnection c (act LStep (dc_close (cnServe c)) (\<lambda>_. k)))"
    by (simp add: interruptFirmwareConnection_def ok_Interrupt assms)
  then show ?thesis unfolding unregister_conn_def Let_def
    by (intro fw_keep) (simp_all add: u assms ok_close)
qed

lemma ok_receive:
  assumes "fw_stable P" and "fw.ok t P k"
  shows "fw.ok t P (receive_loop n c k)"
proof (induction n)
  case (Suc n)
  have deliver: "fw.ok t P (deliverFirmwareMaintenanceResult c r (\<lambda>done. if done then receive_loop n c k else k))" for r
    unfolding deliverFirmwareMaintenanceResult_def
    by (simp add: assms Suc ok_read ok_RecordDeviceState split: sum.split)
  then show ?case by (simp add: assms Suc ok_read split: option.split fw_message.split)
qed (simp add: assms)

lemma ok_serve_conn: "fw.ok t (\<lambda>s. True) (serveConnection n c p v)"
proof -
  have leave: "fw.ok t (\<lambda>s. True) (unregister_conn c' (Ret FwDone))" for c' by (simp add: ok_unregister)
  have loop: "fw.ok t (\<lambda>s. True) (receive_loop n c' (act LStep (dc_close (cnServe c')) (\<lambda>_. unregister_conn c' (Ret FwDone))))" for c'
    by (simp add: ok_receive ok_close leave)
  define running where "running = (\<lambda>(c' :: FwConn). act LStep (\<lambda>i s. (s, fiOk i \<and> \<not> fsClosed s \<and> is_current c' s \<and> \<not> fsShut s (cnServe c'))) (\<lambda>observed.
             if \<not> observed then unregister_conn c' (Ret FwDone)
             else reconcileFirmwarePostReboot c' p v (\<lambda>e.
               if e \<noteq> None then unregister_conn c' (Ret FwDone)
               else receive_loop n c' (act LStep (dc_close (cnServe c')) (\<lambda>_. unregister_conn c' (Ret FwDone))))) :: fw_prog)"
  define seen where "seen = (\<lambda>(c' :: FwConn) (s :: fw_state). cnProtocol c' = ProtocolVersion2 \<longrightarrow> fsSeen s (cnGeneration c') = Some (cnDevice c', p, v))"
  have st: "fw_stable (seen c')" for c'
    by (cases "cnProtocol c' = ProtocolVersion2") (simp_all add: seen_def)
  have run: "fw.ok t (seen c') (running c')" for c'
  proof -
    have drop: "fw.ok t (seen c') k" if "fw.ok t (\<lambda>s. True) k" for k
      by (rule ok_weaken [OF that]) (simp_all add: st)
    have reconcile: "fw.ok t (seen c') (reconcileFirmwarePostReboot c' p v k)" if k: "\<And>e. fw.ok t (seen c') (k e)" for k
    proof (cases "cnProtocol c' = ProtocolVersion2")
      case True
      then have eq: "seen c' = (\<lambda>s. fsSeen s (cnGeneration c') = Some (cnDevice c', p, v))" by (simp add: seen_def)
      show ?thesis using True by (simp add: reconcileFirmwarePostReboot_def ok_Confirm [OF k eq])
    qed (simp add: reconcileFirmwarePostReboot_def k)
    have "fw.ok t (seen c') (reconcileFirmwarePostReboot c' p v (\<lambda>e. if e \<noteq> None then unregister_conn c' (Ret FwDone)
        else receive_loop n c' (act LStep (dc_close (cnServe c')) (\<lambda>_. unregister_conn c' (Ret FwDone)))))"
      by (rule reconcile) (simp add: drop leave loop)
    then show ?thesis unfolding running_def by (intro ok_read) (simp_all add: st drop leave)
  qed
  have "fw.ok t (\<lambda>s. True) (act LStep (dc_register c p v) (\<lambda>registered. case registered of
      Inl e \<Rightarrow> act LStep (dc_close (cnServe c)) (\<lambda>_. Ret FwDone)
    | Inr (c', previous) \<Rightarrow> (case previous of None \<Rightarrow> running c' | Some q \<Rightarrow> act LStep (dc_close (cnServe q)) (\<lambda>_. running c'))))"
  proof (rule fw_learn [where Q = "\<lambda>a s. case a of Inl e \<Rightarrow> True | Inr (c', q) \<Rightarrow> seen c' s"])
    fix i s s' a assume "fw_inv s" "dc_register c p v i s = (s', a)"
    then show "case a of Inl e \<Rightarrow> True | Inr (c', q) \<Rightarrow> seen c' s'"
      using guar_register(2) by (auto simp: seen_def split: sum.split)
  next
    fix a
    show "fw.ok t (\<lambda>s. True \<and> (case a of Inl e \<Rightarrow> True | Inr (c', q) \<Rightarrow> seen c' s))
      (case a of Inl e \<Rightarrow> act LStep (dc_close (cnServe c)) (\<lambda>_. Ret FwDone)
       | Inr (c', previous) \<Rightarrow> (case previous of None \<Rightarrow> running c' | Some q \<Rightarrow> act LStep (dc_close (cnServe q)) (\<lambda>_. running c')))"
      by (cases a) (simp_all add: ok_close run st split: prod.split option.split)
  qed (simp_all add: guar_register(1))
  then show ?thesis unfolding serveConnection_def running_def Let_def .
qed

lemma ok_close_all: "fw.ok t (\<lambda>s. True) (foldr (\<lambda>c k. act LStep (dc_close c) (\<lambda>_. k)) cs (Ret FwDone))"
  by (induction cs) (simp_all add: ok_close)

lemma ok_fw_serve: "fw.ok t (\<lambda>s. True) (fw_serve env t call)"
proof (cases call)
  case CallClose
  have "fw_guar t s (s\<lparr>fsClosed := True, fsConns := []\<rparr>)" if "fw_inv s" for s
    by (rule guar_conns [OF that]) simp_all
  then show ?thesis
    unfolding CallClose fw_serve_def fw_call.case dc_Close_def by (intro fw_keep) (simp_all add: ok_close_all guar_refl)
qed (simp_all add: fw_serve_def ok_Issue ok_Send ok_serve_conn ok_close ok_Reconcile)

lemma fw_initial_inv: "0 \<le> n \<Longrightarrow> fw_inv (fw_initial n)"
  by (simp add: fw_inv_def fw_initial_def index_ok_def)

lemma fw_reached:
  assumes "fw_reachable env calls c"
  shows "fw.all_ok c"
proof -
  obtain n where n: "0 \<le> n" and run: "istep\<^sup>*\<^sup>* (fw_initial n, \<lambda>t. fw_serve env t (calls t)) c"
    using assms unfolding fw_reachable_def by blast
  show ?thesis by (rule fw.reached_ok [OF run fw_initial_inv [OF n], where P = "\<lambda>_ _. True"]) (simp add: ok_fw_serve)
qed

section \<open>What a completed update has been through\<close>


text \<open>
  Firmware delivery: when the request of an update leaves the Hub its delivery on that very connection, one
  of its own device, is already stored, and no device has two updates under way.
\<close>

theorem firmware_delivery:
  assumes "fw_reachable env calls (s, ps)"
  shows "(\<forall>t m g f. ps t = Act (LSend m g) f \<longrightarrow> seen_for (fsSeen s) g m
            \<and> (\<exists>r \<in> set (fsRows s). frManifest r = m \<and> (UpdateSent, g) \<in> set (frTrail r)))
    \<and> distinct (map row_device (filter (\<lambda>r. active_update (frState r)) (fsRows s)))"
proof -
  note ok = fw_reached [OF assms]
  have "fw_inv s" using ok by (simp add: fw.all_ok_def)
  moreover have "fw_marks t (LSend m g) s" if "ps t = Act (LSend m g) f" for t m g f
    using fw.ok_marks [OF ok, of t] that by simp
  ultimately show ?thesis by (auto simp: fw_marks_def stored_sent_def fw_inv_def index_ok_def)
qed

subsection \<open>A device is updated\<close>

definition demo_manifest :: FirmwareManifest where
  "demo_manifest = \<lparr>mfSchemaVersion = 1, mfUpdateID = ''u'', mfDeviceID = ''d'', mfProfileID = ''p'', mfCurrentVersion = ''1'',
     mfTargetVersion = ''2'', mfSourceRevision = replicate 40 (CHR ''a''), mfQualification = ''QUALIFIED'',
     mfArtifactPath = ArtifactPathPrefix @ ''x/firmware.bin'', mfArtifactSize = 9, mfArtifactSHA256 = replicate 64 (CHR ''f''),
     mfIssuedAt = 1000000, mfExpiresAt = 9000000, mfRollbackRequired = False\<rparr>"

definition demo_fw_env :: fw_env where
  "demo_fw_env = \<lparr>feUUID = Some, feURL = (\<lambda>p. Some \<lparr>urScheme = [], urHost = [], urRawQuery = [], urFragment = [], urPath = p\<rparr>),
     feEncodes = (\<lambda>_. True)\<rparr>"

definition demo_device :: "string \<Rightarrow> fw_call" where
  "demo_device version = CallServe 9 ''d'' ProtocolVersion2 [FirmwareMaintenanceCapability] ''p'' version"

definition demo_calls :: "nat \<Rightarrow> fw_call" where
  "demo_calls t = (if t = 0 then demo_device ''1'' else if t = 1 then CallIssue demo_manifest ''op'' else if t = 2 then CallSend ''u''
     else demo_device ''2'')"

definition fw_in :: fw_input where
  "fw_in = \<lparr>fiSql = SqlOk, fiNow = 2000000, fiSend = None, fiOk = True, fiMessage = None\<rparr>"


definition fw_demo_run :: "(nat \<times> fw_input) list \<Rightarrow> (fw_state \<times> (nat \<Rightarrow> fw_prog)) option" where
  "fw_demo_run tis = irun tis (fw_initial 0, \<lambda>t. fw_serve demo_fw_env t (demo_calls t))"

lemma fw_demo_reachable: "fw_demo_run tis = Some c \<Longrightarrow> fw_reachable demo_fw_env demo_calls c"
  unfolding fw_demo_run_def fw_reachable_def by (blast dest: irun_steps intro: order_refl)

definition until_send :: "(nat \<times> fw_input) list" where
  "until_send = replicate 3 (0, fw_in) @ replicate 2 (1, fw_in) @ replicate 4 (2, fw_in)"



lemma fw_demo_send:
  "map_option (\<lambda>(s, ps). label_of (ps 2)) (fw_demo_run until_send) = Some (Some (LSend demo_manifest 1))"
  by code_simp


theorem firmware_delivery_witness:
  "\<exists>s ps. fw_reachable demo_fw_env demo_calls (s, ps) \<and> label_of (ps 2) = Some (LSend demo_manifest 1)
     \<and> (\<exists>r \<in> set (fsRows s). frManifest r = demo_manifest \<and> (UpdateSent, 1) \<in> set (frTrail r))"
proof -
  obtain s ps where run: "fw_demo_run until_send = Some (s, ps)" and l: "label_of (ps 2) = Some (LSend demo_manifest 1)"
    using fw_demo_send by auto
  from l obtain f where "ps 2 = Act (LSend demo_manifest 1) f" by (auto simp: label_of_Some)
  then show ?thesis using firmware_delivery [OF fw_demo_reachable [OF run]] fw_demo_reachable [OF run] l by blast
qed

subsection \<open>A displaced connection\<close>

text \<open>
  \<open>InterruptConnection\<close> fences an update whose transport disappears before the reboot. A connection that a new
  one of the same device displaces is no longer the registered one when it ends, so its update is not
  interrupted: it stays SENT for a generation that no connection has any more.
\<close>

lemma displaced_update_stays_sent:
  "map_option (\<lambda>(s, ps). (map (\<lambda>r. (frState r, frGeneration r)) (fsRows s), map_option cnGeneration (map_of (fsConns s) ''d''),
       case ps 0 of Ret FwDone \<Rightarrow> True | _ \<Rightarrow> False))
     (fw_demo_run (until_send @ [(2, fw_in)] @ replicate 4 (3, fw_in) @ replicate 4 (0, fw_in)))
   = Some ([(UpdateSent, Some 1)], Some 2, True)"
  by code_simp

end
