(* ===== verification/DigitalTwin.thy ===== *)
theory DigitalTwin
  imports RuntimeControl Restart
begin

text \<open>
  Simulation: the digital twin of \<open>internal/simulator\<close> (\<open>digital_twin.go\<close>, \<open>simulator.go\<close>), its checkpoints
  (\<open>checkpoint.go\<close>), the executor in front of it (\<open>session_executor.go\<close>) and the resolution of the session an
  execution belongs to (\<open>internal/store/simulation_context.go\<close>, on the tables of theory \<open>Restart\<close>). Each
  critical section of the twin is a function on its state; the payloads of the events, the validation of
  visual commands and the encoding of snapshots are parameters.
\<close>

section \<open>State\<close>

record FaultScenario =
  fsTargetRef :: string
  fsCapability :: string
  fsBehavior :: string
  fsDelayMS :: int
  fsErrorCode :: string
  fsMessage :: string
  fsUses :: int

record TargetStateTruth =
  ttVersion :: int
  ttScope :: string
  ttDesiredOnline :: "bool option"
  ttObservedOnline :: "bool option"
  ttVerifiedOnline :: "bool option"
  ttRestorable :: bool
  ttReason :: string

record TargetState =
  tsTargetRef :: string
  tsLogicalType :: string
  tsOnline :: bool
  tsExecutionCount :: int
  tsLastCapability :: string
  tsLastResult :: "ExecutionResult option"
  tsLastErrorCode :: string
  tsLastSummary :: string
  tsTruth :: TargetStateTruth

record twinSession =
  twSnapshotID :: string
  twTargets :: "(string \<times> TargetState) list"
  twFaults :: "FaultScenario list"

record SessionSnapshot =
  shVersion :: int
  shSessionID :: string
  shRuntimeSnapshotID :: string
  shTargets :: "TargetState list"
  shFaults :: "FaultScenario list"

text \<open>The twin with the events it has appended.\<close>

record twin =
  dtSessions :: "(string \<times> twinSession) list"
  dtEvents :: "(string \<times> string) list"

definition DigitalTwinStateContractVersion1 :: int where "DigitalTwinStateContractVersion1 = 1"

definition twin_state :: "string \<Rightarrow> twin \<Rightarrow> twinSession option" where
  "twin_state sid d = map_of (dtSessions d) sid"

definition put_session :: "string \<Rightarrow> twinSession \<Rightarrow> twin \<Rightarrow> twin" where
  "put_session sid se d = d\<lparr>dtSessions := AList.update sid se (dtSessions d)\<rparr>"

definition ensureSession :: "string \<Rightarrow> twin \<Rightarrow> twinSession" where
  "ensureSession sid d = (case twin_state sid d of None \<Rightarrow> \<lparr>twSnapshotID = [], twTargets = [], twFaults = []\<rparr> | Some se \<Rightarrow> se)"

definition bindSnapshot :: "twinSession \<Rightarrow> string \<Rightarrow> string + twinSession" where
  "bindSnapshot se snap =
     (if snap = [] then Inl ''simulation runtime snapshot is required''
      else if twSnapshotID se = [] then Inr (se\<lparr>twSnapshotID := snap\<rparr>)
      else if twSnapshotID se \<noteq> snap then Inl (''simulation session is already bound to runtime snapshot '' @ twSnapshotID se)
      else Inr se)"

definition new_target :: "string \<Rightarrow> string \<Rightarrow> TargetState" where
  "new_target ref ty = \<lparr>tsTargetRef = ref, tsLogicalType = ty, tsOnline = True, tsExecutionCount = 0, tsLastCapability = [],
     tsLastResult = None, tsLastErrorCode = [], tsLastSummary = [],
     tsTruth = \<lparr>ttVersion = DigitalTwinStateContractVersion1, ttScope = ''SIMULATION_ONLY'', ttDesiredOnline = None,
       ttObservedOnline = Some True, ttVerifiedOnline = Some True, ttRestorable = False, ttReason = ''checkpoint_not_captured''\<rparr>\<rparr>"

definition ensureTarget :: "twinSession \<Rightarrow> string \<Rightarrow> string \<Rightarrow> TargetState" where
  "ensureTarget se ref ty =
     (case map_of (twTargets se) ref of
        None \<Rightarrow> new_target ref ty
      | Some st \<Rightarrow> if tsLogicalType st = [] \<and> ty \<noteq> [] then st\<lparr>tsLogicalType := ty\<rparr> else st)"

definition put_target :: "string \<Rightarrow> TargetState \<Rightarrow> twinSession \<Rightarrow> twinSession" where
  "put_target ref st se = se\<lparr>twTargets := AList.update ref st (twTargets se)\<rparr>"

definition setOnlineTruth :: "bool \<Rightarrow> bool \<Rightarrow> TargetState \<Rightarrow> TargetState" where
  "setOnlineTruth online desired st =
     st\<lparr>tsOnline := online,
        tsTruth := (tsTruth st)\<lparr>ttVersion := DigitalTwinStateContractVersion1, ttScope := ''SIMULATION_ONLY'',
          ttObservedOnline := Some online, ttVerifiedOnline := Some online,
          ttDesiredOnline := (if desired then Some online else ttDesiredOnline (tsTruth st)),
          ttRestorable := False, ttReason := ''checkpoint_not_captured''\<rparr>\<rparr>"

section \<open>Faults\<close>

definition sameFaultSelector :: "FaultScenario \<Rightarrow> FaultScenario \<Rightarrow> bool" where
  "sameFaultSelector a b \<longleftrightarrow> fsTargetRef a = fsTargetRef b \<and> fsCapability a = fsCapability b"

definition validFaultBehavior :: "string \<Rightarrow> bool" where
  "validFaultBehavior b \<longleftrightarrow> b \<in> set [''COMPLETE'', ''DELAY'', ''FAIL'', ''TIMEOUT'', ''OFFLINE'', ''DISCONNECT'', ''REJECT'',
     ''RECONNECT'', ''UNAVAILABLE'', ''CAPABILITY_UNAVAILABLE'']"

definition fault_matches :: "string \<Rightarrow> string \<Rightarrow> FaultScenario \<Rightarrow> bool" where
  "fault_matches ref cap f \<longleftrightarrow> (fsTargetRef f = [] \<or> fsTargetRef f = ref) \<and> (fsCapability f = [] \<or> fsCapability f = cap)"

definition fault_score :: "FaultScenario \<Rightarrow> nat" where
  "fault_score f = (if fsTargetRef f \<noteq> [] then 2 else 0) + (if fsCapability f \<noteq> [] then 1 else 0)"

text \<open>The loop of \<open>matchedFault\<close> over the faults from index \<open>i\<close>; \<open>best\<close> is the index and score so far.\<close>

fun match_from :: "string \<Rightarrow> string \<Rightarrow> nat \<Rightarrow> (nat \<times> nat) option \<Rightarrow> FaultScenario list \<Rightarrow> nat option" where
  "match_from ref cap i best [] = map_option fst best"
| "match_from ref cap i best (f # fs) =
     (if \<not> fault_matches ref cap f then match_from ref cap (Suc i) best fs
      else if (case best of None \<Rightarrow> True | Some (j, score) \<Rightarrow> score < fault_score f)
      then match_from ref cap (Suc i) (Some (i, fault_score f)) fs
      else match_from ref cap (Suc i) best fs)"

definition matchedFault :: "FaultScenario list \<Rightarrow> string \<Rightarrow> string \<Rightarrow> nat option" where
  "matchedFault faults ref cap = match_from (trim_space ref) (trim_space cap) 0 None faults"

text \<open>One use of the fault at an index: an exhausted one is removed and reported.\<close>

definition use_fault :: "nat \<Rightarrow> FaultScenario list \<Rightarrow> FaultScenario list \<times> FaultScenario option" where
  "use_fault i faults =
     (let f = faults ! i in
      if fsUses f > 0
      then (if fsUses f - 1 = 0 then (take i faults @ drop (Suc i) faults, Some f) else (faults[i := f\<lparr>fsUses := fsUses f - 1\<rparr>], None))
      else (faults, None))"

section \<open>Mutations\<close>

record sim_session =
  smSession :: Session
  smLifecycle :: string

text \<open>
  What the state store of the twin answers: \<open>teStore\<close> says that one is set, \<open>teSession\<close> is the session it has
  and \<open>teAppend\<close> that an event can be appended.
\<close>

record twin_env =
  teStore :: bool
  teSession :: "string \<Rightarrow> string + sim_session"
  teAppend :: bool

definition BindSession :: "Session \<Rightarrow> twin \<Rightarrow> twin \<times> string option" where
  "BindSession x d =
     (if trim_space (sesID x) = [] \<or> trim_space (sesRuntimeSnapshotID x) = []
      then (d, Some ''simulation session and runtime snapshot are required'')
      else if sesType x \<noteq> SessionSimulation then (d, Some ''digital twin can bind only SIMULATION sessions'')
      else let sid = trim_space (sesID x) in
        (case bindSnapshot (ensureSession sid d) (trim_space (sesRuntimeSnapshotID x)) of
           Inl e \<Rightarrow> (put_session sid (ensureSession sid d) d, Some e)
         | Inr se \<Rightarrow> (put_session sid se d, None)))"

definition resolveMutationSession :: "twin_env \<Rightarrow> string \<Rightarrow> twin \<Rightarrow> twin \<times> (string + Session)" where
  "resolveMutationSession te sid d =
     (if \<not> teStore te
      then (d, Inr \<lparr>sesID = sid, sesProjectID = [], sesRuntimeSnapshotID = [], sesType = SessionSimulation, sesStatus = SessionActive,
              sesCurrentCueID = None\<rparr>)
      else case teSession te sid of
        Inl e \<Rightarrow> (d, Inl (''resolve simulation session: '' @ e))
      | Inr x \<Rightarrow>
        if sesType (smSession x) \<noteq> SessionSimulation then (d, Inl ''simulation state mutation requires SIMULATION session'')
        else if sesStatus (smSession x) \<noteq> SessionActive \<or> smLifecycle x \<noteq> ''ACTIVE''
        then (d, Inl ''simulation state mutation requires ACTIVE session'')
        else (case BindSession (smSession x) d of (d', Some e) \<Rightarrow> (d', Inl e) | (d', None) \<Rightarrow> (d', Inr (smSession x))))"

definition append_twin_event :: "twin_env \<Rightarrow> string \<Rightarrow> string \<Rightarrow> twin \<Rightarrow> twin \<times> string option" where
  "append_twin_event te sid ty d =
     (if \<not> teStore te then (d, None)
      else if \<not> teAppend te then (d, Some ''append simulation event'')
      else (d\<lparr>dtEvents := dtEvents d @ [(sid, ty)]\<rparr>, None))"

text \<open>The common course of a mutation: resolve the session, append the event, then change the twin.\<close>

definition mutate :: "twin_env \<Rightarrow> string \<Rightarrow> string \<Rightarrow> (twin \<Rightarrow> twin) \<Rightarrow> twin \<Rightarrow> twin \<times> string option" where
  "mutate te sid ty change d =
     (case resolveMutationSession te sid d of
        (d1, Inl e) \<Rightarrow> (d1, Some e)
      | (d1, Inr x) \<Rightarrow>
        (case append_twin_event te (sesID x) ty d1 of (d2, Some e) \<Rightarrow> (d2, Some e) | (d2, None) \<Rightarrow> (change d2, None)))"

fun replace_fault :: "FaultScenario \<Rightarrow> FaultScenario list \<Rightarrow> FaultScenario list" where
  "replace_fault f [] = [f]"
| "replace_fault f (g # gs) = (if sameFaultSelector g f then f # gs else g # replace_fault f gs)"

definition ConfigureFaultContext :: "twin_env \<Rightarrow> string \<Rightarrow> FaultScenario \<Rightarrow> twin \<Rightarrow> twin \<times> string option" where
  "ConfigureFaultContext te sessionID scenario d =
     (let sid = trim_space sessionID;
          f = scenario\<lparr>fsTargetRef := trim_space (fsTargetRef scenario), fsCapability := trim_space (fsCapability scenario),
                fsBehavior := to_upper (trim_space (fsBehavior scenario))\<rparr> in
      if sid = [] then (d, Some ''session ID is required'')
      else if fsTargetRef f = [] \<and> fsCapability f = [] then (d, Some ''fault scenario requires target_ref or capability'')
      else if fsUses f < 0 then (d, Some ''fault scenario uses cannot be negative'')
      else if fsDelayMS f < 0 then (d, Some ''fault scenario delay cannot be negative'')
      else if \<not> validFaultBehavior (fsBehavior f) then (d, Some ''unsupported fault behavior'')
      else mutate te sid ''simulation.fault.configured''
        (\<lambda>d. put_session sid ((ensureSession sid d)\<lparr>twFaults := replace_fault f (twFaults (ensureSession sid d))\<rparr>) d) d)"

definition ClearFaultContext :: "twin_env \<Rightarrow> string \<Rightarrow> string \<Rightarrow> string \<Rightarrow> twin \<Rightarrow> twin \<times> string option" where
  "ClearFaultContext te sessionID targetRef capabilityKey d =
     (let sid = trim_space sessionID; ref = trim_space targetRef; cap = trim_space capabilityKey in
      if sid = [] \<or> ref = [] \<and> cap = [] then (d, Some ''session ID and fault selector are required'')
      else mutate te sid ''simulation.fault.cleared''
        (\<lambda>d. case twin_state sid d of
               None \<Rightarrow> d
             | Some se \<Rightarrow> put_session sid (se\<lparr>twFaults := filter (\<lambda>f. \<not> (fsTargetRef f = ref \<and> fsCapability f = cap)) (twFaults se)\<rparr>) d) d)"

definition set_online :: "string \<Rightarrow> string \<Rightarrow> bool \<Rightarrow> bool \<Rightarrow> twin \<Rightarrow> twin" where
  "set_online sid ref online desired d =
     (let se = ensureSession sid d in put_session sid (put_target ref (setOnlineTruth online desired (ensureTarget se ref [])) se) d)"

definition SetTargetOnlineContext :: "twin_env \<Rightarrow> string \<Rightarrow> string \<Rightarrow> bool \<Rightarrow> twin \<Rightarrow> twin \<times> string option" where
  "SetTargetOnlineContext te sessionID targetRef online d =
     (let sid = trim_space sessionID; ref = trim_space targetRef in
      if sid = [] \<or> ref = [] then (d, Some ''session ID and target reference are required'')
      else mutate te sid ''simulation.target.state_changed'' (set_online sid ref online True) d)"

definition ResetSessionContext :: "twin_env \<Rightarrow> string \<Rightarrow> twin \<Rightarrow> twin \<times> string option" where
  "ResetSessionContext te sessionID d =
     (let sid = trim_space sessionID in
      if sid = [] then (d, Some ''session ID is required'')
      else mutate te sid ''simulation.twin.reset'' (\<lambda>d. d\<lparr>dtSessions := AList.delete sid (dtSessions d)\<rparr>) d)"

section \<open>Snapshots\<close>

definition twin_Snapshot :: "string \<Rightarrow> twin \<Rightarrow> SessionSnapshot" where
  "twin_Snapshot sessionID d =
     (let sid = trim_space sessionID;
          se = (if sid = [] then None else twin_state sid d) in
      \<lparr>shVersion = DigitalTwinStateContractVersion1, shSessionID = sid,
       shRuntimeSnapshotID = (case se of None \<Rightarrow> [] | Some x \<Rightarrow> twSnapshotID x),
       shTargets = (case se of None \<Rightarrow> [] | Some x \<Rightarrow> sort_key tsTargetRef (map snd (twTargets x))),
       shFaults = (case se of None \<Rightarrow> [] | Some x \<Rightarrow> sort_key fsTargetRef (sort_key fsCapability (twFaults x)))\<rparr>)"

text \<open>A target as a snapshot installs it, marked as restored or exactly as it was.\<close>

definition restored_target :: "bool \<Rightarrow> TargetState \<Rightarrow> TargetState" where
  "restored_target marked st =
     (let t = (tsTruth st)\<lparr>ttVersion := DigitalTwinStateContractVersion1, ttScope := ''SIMULATION_ONLY''\<rparr> in
      st\<lparr>tsTruth := (if marked then t\<lparr>ttRestorable := True, ttReason := ''checkpoint_restored''\<rparr> else t)\<rparr>)"

definition installSnapshot :: "Session \<Rightarrow> SessionSnapshot \<Rightarrow> bool \<Rightarrow> twin \<Rightarrow> twin \<times> string option" where
  "installSnapshot x sh marked d =
     (if sesType x \<noteq> SessionSimulation \<or> trim_space (sesID x) = [] \<or> trim_space (sesRuntimeSnapshotID x) = []
      then (d, Some ''restore requires authoritative SIMULATION session'')
      else if shVersion sh \<noteq> DigitalTwinStateContractVersion1 then (d, Some ''unsupported Digital Twin state version'')
      else if trim_space (shRuntimeSnapshotID sh) \<noteq> sesRuntimeSnapshotID x
      then (d, Some ''Digital Twin checkpoint Runtime Snapshot mismatch'')
      else (put_session (sesID x)
              \<lparr>twSnapshotID = sesRuntimeSnapshotID x,
               twTargets = foldl (\<lambda>m st. AList.update (tsTargetRef st) (restored_target marked st) m) [] (shTargets sh),
               twFaults = shFaults sh\<rparr> d, None))"

text \<open>
  What checkpoints need of the store: \<open>ckSession\<close> and \<open>ckGet\<close> read a session and a checkpoint, \<open>ckCreate\<close>
  stores one, \<open>ckMark\<close> is the error of recording a restoration. \<open>ckEncode\<close> and \<open>ckDecode\<close> are JSON.
\<close>

record checkpoint_env =
  ckSession :: "string \<Rightarrow> string + sim_session"
  ckGet :: "string \<Rightarrow> string + Checkpoint"
  ckCreate :: "string \<Rightarrow> int \<Rightarrow> string \<Rightarrow> string + Checkpoint"
  ckMark :: "string \<Rightarrow> string \<Rightarrow> string option"
  ckEncode :: "SessionSnapshot \<Rightarrow> string option"
  ckDecode :: "string \<Rightarrow> SessionSnapshot option"

definition running_simulation :: "sim_session \<Rightarrow> bool" where
  "running_simulation x \<longleftrightarrow> sesType (smSession x) = SessionSimulation \<and> sesStatus (smSession x) = SessionActive \<and> smLifecycle x = ''ACTIVE''"

definition Capture :: "checkpoint_env \<Rightarrow> string \<Rightarrow> twin \<Rightarrow> twin \<times> (string + Checkpoint)" where
  "Capture ck sessionID d =
     (case ckSession ck (trim_space sessionID) of
        Inl e \<Rightarrow> (d, Inl e)
      | Inr x \<Rightarrow>
        if \<not> running_simulation x then (d, Inl ''checkpoint capture requires ACTIVE SIMULATION session'')
        else (case BindSession (smSession x) d of
          (d', Some e) \<Rightarrow> (d', Inl e)
        | (d', None) \<Rightarrow>
          let sh = twin_Snapshot (sesID (smSession x)) d' in
          if shRuntimeSnapshotID sh \<noteq> sesRuntimeSnapshotID (smSession x)
          then (d', Inl ''digital twin Runtime Snapshot binding does not match session'')
          else (case ckEncode ck sh of
            None \<Rightarrow> (d', Inl ''marshal digital twin checkpoint'')
          | Some json \<Rightarrow> (d', ckCreate ck (sesID (smSession x)) DigitalTwinStateContractVersion1 json))))"

definition twin_Restore :: "checkpoint_env \<Rightarrow> string \<Rightarrow> string \<Rightarrow> twin \<Rightarrow> twin \<times> (string + Checkpoint)" where
  "twin_Restore ck sessionID checkpointID d =
     (case ckSession ck (trim_space sessionID) of
        Inl e \<Rightarrow> (d, Inl e)
      | Inr x \<Rightarrow>
     (case ckGet ck (trim_space checkpointID) of
        Inl e \<Rightarrow> (d, Inl e)
      | Inr cp \<Rightarrow>
        if \<not> running_simulation x then (d, Inl ''checkpoint restore requires ACTIVE SIMULATION session'')
        else if cpProjectID cp \<noteq> sesProjectID (smSession x) \<or> cpSnapshotID cp \<noteq> sesRuntimeSnapshotID (smSession x)
        then (d, Inl ''checkpoint authority does not match target simulation session'')
        else if cpContractVersion cp \<noteq> DigitalTwinStateContractVersion1
        then (d, Inl ''unsupported Digital Twin checkpoint state version'')
        else (case ckDecode ck (cpTwinState cp) of
          None \<Rightarrow> (d, Inl ''decode Digital Twin checkpoint'')
        | Some sh \<Rightarrow>
          if shVersion sh \<noteq> DigitalTwinStateContractVersion1 \<or> shRuntimeSnapshotID sh \<noteq> sesRuntimeSnapshotID (smSession x)
          then (d, Inl ''checkpoint Digital Twin state does not match target Runtime Snapshot'')
          else
            let previous = twin_Snapshot (sesID (smSession x)) d in
            (case installSnapshot (smSession x) sh True d of
               (d1, Some e) \<Rightarrow> (d1, Inl e)
             | (d1, None) \<Rightarrow>
               (case ckMark ck (sesID (smSession x)) (cpID cp) of
                  Some e \<Rightarrow> (fst (installSnapshot (smSession x) previous False d1), Inl e)
                | None \<Rightarrow> (d1, Inr cp))))))"

section \<open>Execution on the twin\<close>

text \<open>
  What an execution meets: \<open>xeWait\<close> is the error of the context during a delay, \<open>xeDeadline\<close> says that the
  context has a deadline and \<open>xeDone\<close> is its error once it is done. \<open>xeVisual\<close> is the error of a visual command,
  \<open>None\<close> for other capabilities; \<open>xeConfig\<close> decodes behaviour, delay, error code and message of the parameters.
\<close>

record exec_env =
  xeWait :: "int \<Rightarrow> ctx_err option"
  xeDeadline :: bool
  xeDone :: ctx_err
  xeTwin :: twin_env
  xeVisual :: "CapRequest \<Rightarrow> string option option"
  xeConfig :: "string \<Rightarrow> (string \<times> int \<times> string \<times> string) option"

definition fromContext :: "ctx_err \<Rightarrow> CapResult" where
  "fromContext e = (case e of
       CtxDeadlineExceeded \<Rightarrow> \<lparr>cpResult = ExecutionTimedOut, cpAckLevel = AckNone, cpResponseSummary = ''simulated timeout'', cpErrorCode = ''TIMEOUT''\<rparr>
     | CtxCanceled \<Rightarrow> \<lparr>cpResult = ExecutionCancelled, cpAckLevel = AckNone, cpResponseSummary = ''simulation cancelled'', cpErrorCode = ''CANCELLED''\<rparr>)"

definition simulated :: "string \<Rightarrow> CapResult" where
  "simulated summary = \<lparr>cpResult = ExecutionCompleted, cpAckLevel = AckNone, cpResponseSummary = summary, cpErrorCode = []\<rparr>"

definition or_else :: "string \<Rightarrow> string \<Rightarrow> string" where
  "or_else s fallback = (if s = [] then fallback else s)"

definition after_delay :: "exec_env \<Rightarrow> int \<Rightarrow> CapResult \<Rightarrow> CapResult" where
  "after_delay xe delay r = (case xeWait xe delay of Some e \<Rightarrow> fromContext e | None \<Rightarrow> r)"

definition timeout_result :: "exec_env \<Rightarrow> CapResult" where
  "timeout_result xe =
     (if \<not> xeDeadline xe then failed_result ''SIM_TIMEOUT_REQUIRES_DEADLINE'' ''timeout simulation requires timeout_policy.timeout_ms''
      else fromContext (xeDone xe))"

definition adapter_Execute :: "exec_env \<Rightarrow> CapRequest \<Rightarrow> CapResult" where
  "adapter_Execute xe req =
     (case xeVisual xe req of
        Some (Some e) \<Rightarrow> failed_result ''SIM_VISUAL_COMMAND_INVALID'' (''simulated visual command rejected: '' @ e)
      | Some None \<Rightarrow> after_delay xe 0 (simulated ''simulated visual command'')
      | None \<Rightarrow>
        (case (if crParameters req = [] then Some ([], 0, [], []) else xeConfig xe (crParameters req)) of
           None \<Rightarrow> failed_result ''SIM_INVALID_PARAMETERS'' ''invalid simulator parameters''
         | Some (b, delay, code, message) \<Rightarrow>
           let behavior = or_else (to_upper (trim_space b)) ''COMPLETE'' in
           if delay < 0 then failed_result ''SIM_INVALID_DELAY'' ''negative simulator delay''
           else if behavior = ''COMPLETE'' then after_delay xe delay (simulated (or_else message ''simulated completion''))
           else if behavior = ''FAIL''
           then after_delay xe delay (failed_result (or_else code ''SIMULATED_FAILURE'') (or_else message ''simulated failure''))
           else if behavior = ''TIMEOUT'' then timeout_result xe
           else failed_result ''SIM_UNKNOWN_BEHAVIOR'' ''unknown simulator behavior''))"

definition scenarioMessage :: "FaultScenario \<Rightarrow> string \<Rightarrow> string" where
  "scenarioMessage f fallback = or_else (trim_space (fsMessage f)) fallback"

text \<open>The result of a scenario, and whether the target was disconnected before it.\<close>

definition executeScenario :: "exec_env \<Rightarrow> FaultScenario \<Rightarrow> CapResult \<times> bool" where
  "executeScenario xe f =
     (let b = fsBehavior f; code = or_else (trim_space (fsErrorCode f));
          delayed = (\<lambda>r. (after_delay xe (fsDelayMS f) r, False)) in
      if b = ''COMPLETE'' \<or> b = ''DELAY'' then delayed (simulated (scenarioMessage f ''simulated completion''))
      else if b = ''FAIL'' then delayed (failed_result (code ''SIMULATED_FAILURE'') (scenarioMessage f ''simulated failure''))
      else if b = ''UNAVAILABLE'' \<or> b = ''CAPABILITY_UNAVAILABLE''
      then delayed (failed_result (code ''SIM_CAPABILITY_UNAVAILABLE'') (scenarioMessage f ''simulated capability unavailable''))
      else if b = ''REJECT'' then delayed (failed_result (code ''SIM_TARGET_REJECTED'') (scenarioMessage f ''simulated target rejected command''))
      else if b = ''OFFLINE'' \<or> b = ''DISCONNECT''
      then (case xeWait xe (fsDelayMS f) of
              Some e \<Rightarrow> (fromContext e, False)
            | None \<Rightarrow> (failed_result (code ''SIM_TARGET_OFFLINE'') (scenarioMessage f ''simulated target disconnected''), True))
      else if b = ''TIMEOUT'' then (timeout_result xe, False)
      else (failed_result ''SIM_UNKNOWN_BEHAVIOR'' ''unknown digital twin behavior'', False))"

definition requestTarget :: "CapRequest \<Rightarrow> string \<times> string" where
  "requestTarget req =
     (let fallback = (''capability:'' @ or_else (trim_space (crCapability req)) ''unknown'', []) in
      case crTarget req of
        None \<Rightarrow> fallback
      | Some t \<Rightarrow> if trim_space (ctRef t) \<noteq> [] then (trim_space (ctRef t), trim_space (ctLogicalType t)) else fallback)"

text \<open>The first critical section: the binding, the target, and the fault the execution uses up.\<close>

definition twin_begin :: "string \<Rightarrow> CapRequest \<Rightarrow> twin \<Rightarrow> twin \<times> (string + bool \<times> FaultScenario option \<times> FaultScenario option)" where
  "twin_begin sid req d =
     (let (ref, ty) = requestTarget req; snap = trim_space (crRuntimeSnapshotID req); se0 = ensureSession sid d in
      case (if snap = [] then Inr se0 else bindSnapshot se0 snap) of
        Inl e \<Rightarrow> (put_session sid se0 d, Inl e)
      | Inr se \<Rightarrow>
        let st0 = ensureTarget se ref ty;
            st = st0\<lparr>tsExecutionCount := wrap64 (tsExecutionCount st0 + 1), tsLastCapability := trim_space (crCapability req)\<rparr>;
            se1 = put_target ref st se in
        (case matchedFault (twFaults se) ref (crCapability req) of
           None \<Rightarrow> (put_session sid se1 d, Inr (tsOnline st, None, None))
         | Some i \<Rightarrow>
           (case use_fault i (twFaults se) of
              (faults, consumed) \<Rightarrow> (put_session sid (se1\<lparr>twFaults := faults\<rparr>) d, Inr (tsOnline st, Some (twFaults se ! i), consumed)))))"

definition recordResult :: "string \<Rightarrow> string \<Rightarrow> CapResult \<Rightarrow> twin \<Rightarrow> twin" where
  "recordResult sid ref r d =
     (let se = ensureSession sid d; st = ensureTarget se ref [] in
      put_session sid (put_target ref (st\<lparr>tsLastResult := Some (cpResult r), tsLastErrorCode := cpErrorCode r, tsLastSummary := cpResponseSummary r\<rparr>) se) d)"

definition outcome_event :: "CapResult \<Rightarrow> string" where
  "outcome_event r =
     (case cpResult r of
        ExecutionCompleted \<Rightarrow> ''simulation.execution.completed''
      | ExecutionTimedOut \<Rightarrow> ''simulation.execution.timed_out''
      | ExecutionCancelled \<Rightarrow> ''simulation.execution.cancelled''
      | _ \<Rightarrow> ''simulation.execution.failed'')"

text \<open>What an execution comes to once its first critical section is over, and what it then does to the connection.\<close>

definition twin_outcome :: "exec_env \<Rightarrow> CapRequest \<Rightarrow> bool \<Rightarrow> FaultScenario option \<Rightarrow> CapResult \<times> bool option" where
  "twin_outcome xe req online scenario =
     (case scenario of
        Some f \<Rightarrow>
          if fsBehavior f = ''RECONNECT''
          then (case xeWait xe (fsDelayMS f) of
                  Some e \<Rightarrow> (fromContext e, None)
                | None \<Rightarrow> (simulated (scenarioMessage f ''simulated reconnect''), Some True))
          else if \<not> online then (failed_result ''SIM_TARGET_OFFLINE'' ''simulated target is offline'', None)
          else (case executeScenario xe f of (r, dropped) \<Rightarrow> (r, if dropped then Some False else None))
      | None \<Rightarrow>
          if \<not> online then (failed_result ''SIM_TARGET_OFFLINE'' ''simulated target is offline'', None)
          else (adapter_Execute xe req, None))"

definition twin_Execute :: "exec_env \<Rightarrow> CapRequest \<Rightarrow> twin \<Rightarrow> twin \<times> CapResult" where
  "twin_Execute xe req d =
     (let sid = trim_space (crSessionID req); ref = fst (requestTarget req) in
      if sid = [] then (d, failed_result ''SIM_SESSION_ID_REQUIRED'' ''simulation requires authoritative session identity'')
      else case twin_begin sid req d of
        (d1, Inl e) \<Rightarrow> (d1, failed_result ''SIM_RUNTIME_SNAPSHOT_MISMATCH'' e)
      | (d1, Inr (online, scenario, consumed)) \<Rightarrow>
        let d2 = (if consumed = None then d1 else fst (append_twin_event (xeTwin xe) sid ''simulation.fault.consumed'' d1));
            (r, observed) = twin_outcome xe req online scenario;
            d3 = (case observed of None \<Rightarrow> d2 | Some b \<Rightarrow> set_online sid ref b False d2);
            d4 = recordResult sid ref r d3 in
        (fst (append_twin_event (xeTwin xe) sid (outcome_event r) d4), r))"

section \<open>The executor of a session\<close>

definition session_of :: "SessionRow \<Rightarrow> Session" where
  "session_of r = \<lparr>sesID = ssID r, sesProjectID = ssProjectID r, sesRuntimeSnapshotID = ssSnapshotID r, sesType = ssType r,
     sesStatus = ssStatus r, sesCurrentCueID = None\<rparr>"

definition read_session :: "sql \<Rightarrow> string \<Rightarrow> tables \<Rightarrow> go_error + Session" where
  "read_session q sid tb =
     (if q \<noteq> SqlOk then Inl (GoError IsPlain ''get session'')
      else case find (\<lambda>r. ssID r = sid) (tbSessions tb) of None \<Rightarrow> Inl errNotFound | Some r \<Rightarrow> Inr (session_of r))"

definition SessionForActionExecution :: "sql \<Rightarrow> sql \<Rightarrow> string \<Rightarrow> tables \<Rightarrow> go_error + Session" where
  "SessionForActionExecution q1 q2 executionID tb =
     (let xid = trim_space executionID in
      if xid = [] then Inl (GoError IsInvalidInput ''action execution ID is required'')
      else if q1 \<noteq> SqlOk then Inl (GoError IsPlain ''resolve action execution session'')
      else case concat (map (\<lambda>a. concat (map (\<lambda>c. map ssID (filter (\<lambda>r. ssID r = cxSessionID c) (tbSessions tb)))
                 (filter (\<lambda>c. cxID c = axCueExecutionID a) (tbCues tb)))) (filter (\<lambda>a. axID a = xid) (tbActions tb))) of
        [] \<Rightarrow> Inl errNotFound
      | sid # _ \<Rightarrow> read_session q2 sid tb)"

definition SessionForRuntimeSnapshotExecution :: "sql \<Rightarrow> sql \<Rightarrow> string \<Rightarrow> tables \<Rightarrow> go_error + Session" where
  "SessionForRuntimeSnapshotExecution q1 q2 snapshotID tb =
     (let snap = trim_space snapshotID in
      if snap = [] then Inl (GoError IsInvalidInput ''runtime snapshot ID is required'')
      else if q1 \<noteq> SqlOk then Inl (GoError IsPlain ''resolve runtime snapshot session'')
      else case filter (\<lambda>r. ssSnapshotID r = snap \<and> ssStatus r = SessionActive) (tbSessions tb) of
        [] \<Rightarrow> Inl errNotFound
      | [r] \<Rightarrow> read_session q2 (ssID r) tb
      | _ \<Rightarrow> Inl (GoError IsConflict ''runtime snapshot has multiple active sessions''))"

text \<open>\<open>sxSql\<close> are the outcomes of the four statements of a resolution.\<close>

record session_env =
  sxExec :: exec_env
  sxSql :: "nat \<Rightarrow> sql"
  sxTables :: tables

definition resolveSession :: "session_env \<Rightarrow> CapRequest \<Rightarrow> go_error + Session" where
  "resolveSession sx req =
     (let bySnapshot = (if trim_space (crRuntimeSnapshotID req) = [] then Inl errNotFound
            else SessionForRuntimeSnapshotExecution (sxSql sx 2) (sxSql sx 3) (trim_space (crRuntimeSnapshotID req)) (sxTables sx)) in
      if trim_space (crExecutionID req) = [] then bySnapshot
      else case SessionForActionExecution (sxSql sx 0) (sxSql sx 1) (trim_space (crExecutionID req)) (sxTables sx) of
        Inr x \<Rightarrow> Inr x
      | Inl e \<Rightarrow> if errIs e = IsNotFound then bySnapshot else Inl e)"

definition session_Execute :: "session_env \<Rightarrow> 'w executor \<Rightarrow> CapRequest \<Rightarrow> twin \<times> 'w \<Rightarrow> CapResult \<times> twin \<times> 'w" where
  "session_Execute sx physical req dw =
     (let (d, w) = dw in
      if trim_space (crExecutionID req) = [] \<and> trim_space (crRuntimeSnapshotID req) = []
      then (failed_result ''ACTION_EXECUTION_ID_REQUIRED'' ''action execution identity or runtime snapshot is required'', d, w)
      else case resolveSession sx req of
        Inl e \<Rightarrow> (failed_result ''SESSION_MODE_UNAVAILABLE'' ''authoritative session mode could not be resolved'', d, w)
      | Inr x \<Rightarrow>
        if sesStatus x \<noteq> SessionActive
        then (failed_result ''SESSION_NOT_ACTIVE'' ''authoritative execution session is not active'', d, w)
        else
          let req' = req\<lparr>crSessionID := sesID x, crProjectID := sesProjectID x, crRuntimeSnapshotID := sesRuntimeSnapshotID x\<rparr> in
          if sesType x = SessionSimulation
          then (case BindSession x d of
                  (d1, Some e) \<Rightarrow> (failed_result ''SIM_RUNTIME_SNAPSHOT_MISMATCH'' ''simulation session runtime snapshot binding failed'', d1, w)
                | (d1, None) \<Rightarrow> (case twin_Execute (sxExec sx) req' d1 of (d2, r) \<Rightarrow> (r, d2, w)))
          else if sesType x = SessionRehearsal \<or> sesType x = SessionShow
          then (case physical req' w of (r, w') \<Rightarrow> (r, d, w'))
          else (failed_result ''SESSION_MODE_UNSUPPORTED'' ''unsupported session mode at execution boundary'', d, w))"

end
