(* ===== verification/TwinSafety.thy ===== *)
theory TwinSafety
  imports DigitalTwin
begin

text \<open>
  What the simulation promises: simulated work reaches no device and live work no twin, executions of one session
  do not touch another, a fault is used exactly as often as it is configured, and a checkpoint restores what was
  captured.
\<close>

section \<open>Sessions of the twin\<close>

lemma twin_state_put [simp]: "twin_state s (put_session sid se d) = (if s = sid then Some se else twin_state s d)"
  by (simp add: twin_state_def put_session_def update_conv')

lemma twin_state_event [simp]: "twin_state s (fst (append_twin_event te sid ty d)) = twin_state s d"
  by (simp add: append_twin_event_def twin_state_def)

lemma ensure_put [simp]: "ensureSession sid (put_session sid se d) = se"
  by (simp add: ensureSession_def)

lemma ensure_event [simp]: "ensureSession s (fst (append_twin_event te sid ty d)) = ensureSession s d"
  by (simp add: ensureSession_def)

text \<open>\<open>only_in sid\<close>: nothing but the state of the session changes, and its binding stays once it is made.\<close>

definition only_in :: "string \<Rightarrow> twin \<Rightarrow> twin \<Rightarrow> bool" where
  "only_in sid d d' \<longleftrightarrow> (\<forall>s. s \<noteq> sid \<longrightarrow> twin_state s d' = twin_state s d)
     \<and> (twSnapshotID (ensureSession sid d) \<noteq> [] \<longrightarrow> twSnapshotID (ensureSession sid d') = twSnapshotID (ensureSession sid d))"

lemma only_in_refl [simp]: "only_in sid d d"
  by (simp add: only_in_def)

lemma only_in_trans: "only_in sid d1 d2 \<Longrightarrow> only_in sid d2 d3 \<Longrightarrow> only_in sid d1 d3"
  by (simp add: only_in_def)

lemma only_in_put: "twSnapshotID (ensureSession sid d) = [] \<or> twSnapshotID se = twSnapshotID (ensureSession sid d)
    \<Longrightarrow> only_in sid d (put_session sid se d)"
  by (auto simp: only_in_def)

lemma only_in_event: "only_in sid d d' \<Longrightarrow> only_in sid d (fst (append_twin_event te s ty d'))"
  by (simp add: only_in_def)

lemma bindSnapshot_Inr: "bindSnapshot se snap = Inr se' \<Longrightarrow> (twSnapshotID se = [] \<or> twSnapshotID se' = twSnapshotID se)
    \<and> se' = se\<lparr>twSnapshotID := snap\<rparr> \<and> snap \<noteq> []"
  by (auto simp: bindSnapshot_def split: if_splits)

lemma put_target_sel [simp]: "twSnapshotID (put_target ref st se) = twSnapshotID se" "twFaults (put_target ref st se) = twFaults se"
  by (simp_all add: put_target_def)

lemma only_in_begin: "only_in sid d (fst (twin_begin sid req d))"
proof (cases "if trim_space (crRuntimeSnapshotID req) = [] then Inr (ensureSession sid d)
    else bindSnapshot (ensureSession sid d) (trim_space (crRuntimeSnapshotID req))")
  case (Inl e)
  then show ?thesis by (simp add: twin_begin_def Let_def only_in_put split: prod.split)
next
  case (Inr se)
  then have "twSnapshotID (ensureSession sid d) = [] \<or> twSnapshotID se = twSnapshotID (ensureSession sid d)"
    using bindSnapshot_Inr by (force split: if_splits)
  then show ?thesis using Inr
    by (simp add: twin_begin_def Let_def only_in_put split: prod.split option.split)
qed

lemma only_in_online: "only_in sid d (set_online sid ref b des d)"
  by (simp add: set_online_def Let_def only_in_put)

lemma only_in_record: "only_in sid d (recordResult sid ref r d)"
  by (simp add: recordResult_def Let_def only_in_put)

lemma only_in_Execute:
  assumes "trim_space (crSessionID req) = sid"
  shows "only_in sid d (fst (twin_Execute xe req d))"
proof (cases "sid = []")
  case False
  obtain d1 a where b: "twin_begin sid req d = (d1, a)" by (cases "twin_begin sid req d") auto
  have d1: "only_in sid d d1" using only_in_begin [of sid d req] b by simp
  show ?thesis
  proof (cases a)
    case (Inl e)
    then show ?thesis using False assms b d1 by (simp add: twin_Execute_def Let_def)
  next
    case (Inr x)
    obtain online scenario consumed where x: "x = (online, scenario, consumed)" by (cases x) auto
    define d2 where "d2 = (if consumed = None then d1 else fst (append_twin_event (xeTwin xe) sid ''simulation.fault.consumed'' d1))"
    obtain r obs where o: "twin_outcome xe req online scenario = (r, obs)" by (cases "twin_outcome xe req online scenario") auto
    define d3 where "d3 = (case obs of None \<Rightarrow> d2 | Some b \<Rightarrow> set_online sid (fst (requestTarget req)) b False d2)"
    have "only_in sid d d2" using d1 by (simp add: d2_def only_in_event)
    then have "only_in sid d d3" using only_in_trans only_in_online by (auto simp: d3_def split: option.split)
    then have "only_in sid d (recordResult sid (fst (requestTarget req)) r d3)" using only_in_trans only_in_record by blast
    moreover have "fst (twin_Execute xe req d)
        = fst (append_twin_event (xeTwin xe) sid (outcome_event r) (recordResult sid (fst (requestTarget req)) r d3))"
      using False assms b Inr x o by (cases consumed; cases obs) (simp_all add: twin_Execute_def Let_def d2_def d3_def)
    ultimately show ?thesis by (simp add: only_in_event)
  qed
qed (simp add: assms twin_Execute_def)

lemma only_in_Bind: "only_in (trim_space (sesID x)) d (fst (BindSession x d))"
  using bindSnapshot_Inr [of "ensureSession (trim_space (sesID x)) d" "trim_space (sesRuntimeSnapshotID x)"]
  by (auto simp: BindSession_def Let_def only_in_put split: sum.split)

section \<open>Isolation\<close>

text \<open>
  C10. Simulation is isolated: an execution whose session is a SIMULATION or not active calls no device, one
  whose session is live or cannot be resolved touches no twin, and a simulated one changes only the virtual
  state of its own session, whose binding to a runtime snapshot never changes.
\<close>

theorem simulation_isolated:
  "case session_Execute sx physical req (d, w) of (r, d', w') \<Rightarrow>
     (case resolveSession sx req of
        Inl e \<Rightarrow> d' = d \<and> w' = w \<and> cpResult r = ExecutionFailed
      | Inr x \<Rightarrow> (sesType x \<notin> {SessionRehearsal, SessionShow} \<or> sesStatus x \<noteq> SessionActive \<longrightarrow> w' = w)
          \<and> (sesType x \<noteq> SessionSimulation \<longrightarrow> d' = d)
          \<and> (\<forall>s. s \<noteq> trim_space (sesID x) \<longrightarrow> twin_state s d' = twin_state s d)
          \<and> (twSnapshotID (ensureSession (trim_space (sesID x)) d) \<noteq> [] \<longrightarrow>
               twSnapshotID (ensureSession (trim_space (sesID x)) d') = twSnapshotID (ensureSession (trim_space (sesID x)) d)))"
proof (cases "resolveSession sx req")
  case (Inl e)
  then show ?thesis by (simp add: session_Execute_def failed_result_def)
next
  case (Inr x)
  let ?sid = "trim_space (sesID x)"
  let ?req = "req\<lparr>crSessionID := sesID x, crProjectID := sesProjectID x, crRuntimeSnapshotID := sesRuntimeSnapshotID x\<rparr>"
  obtain r d' w' where run: "session_Execute sx physical req (d, w) = (r, d', w')" by (cases "session_Execute sx physical req (d, w)") auto
  consider (twin) d1 where "sesType x = SessionSimulation" "sesStatus x = SessionActive" "BindSession x d = (d1, None)"
      "d' = fst (twin_Execute (sxExec sx) ?req d1)" "w' = w"
    | (unbound) e where "sesType x = SessionSimulation" "BindSession x d = (d', Some e)" "w' = w"
    | (live) "sesType x \<in> {SessionRehearsal, SessionShow}" "sesStatus x = SessionActive" "d' = d"
    | (still) "d' = d" "w' = w"
    using run Inr by (auto simp: session_Execute_def Let_def split: if_splits prod.splits option.splits)
  then have "only_in ?sid d d' \<and> (sesType x \<notin> {SessionRehearsal, SessionShow} \<or> sesStatus x \<noteq> SessionActive \<longrightarrow> w' = w)
      \<and> (sesType x \<noteq> SessionSimulation \<longrightarrow> d' = d)"
  proof cases
    case twin
    have "only_in ?sid d d1" using only_in_Bind [of x d] twin by simp
    moreover have "only_in ?sid d1 d'" using only_in_Execute [of ?req ?sid] twin by simp
    ultimately show ?thesis using twin only_in_trans by blast
  next
    case unbound
    then show ?thesis using only_in_Bind [of x d] by simp
  qed auto
  then show ?thesis by (simp add: Inr run only_in_def)
qed

section \<open>Faults\<close>

text \<open>The fault an execution uses is the first of the most specific ones that match it.\<close>

lemma match_from_spec:
  assumes "match_from ref cap i best fs = res" and "case best of None \<Rightarrow> True | Some (j, sc) \<Rightarrow> j < i"
  shows "(case res of
      None \<Rightarrow> best = None \<and> (\<forall>f \<in> set fs. \<not> fault_matches ref cap f)
    | Some k \<Rightarrow> (i \<le> k \<and> k < i + length fs \<and> fault_matches ref cap (fs ! (k - i))
          \<and> (\<forall>f \<in> set fs. fault_matches ref cap f \<longrightarrow> fault_score f \<le> fault_score (fs ! (k - i)))
          \<and> (\<forall>j sc. best = Some (j, sc) \<longrightarrow> sc < fault_score (fs ! (k - i))))
        \<or> (\<exists>sc. best = Some (k, sc) \<and> (\<forall>f \<in> set fs. fault_matches ref cap f \<longrightarrow> fault_score f \<le> sc)))"
  using assms
proof (induction ref cap i best fs arbitrary: res rule: match_from.induct)
  case (1 ref cap i best)
  then show ?case by (auto split: option.splits)
next
  case (2 ref cap i best f fs)
  consider (skip) "\<not> fault_matches ref cap f"
    | (take_it) "fault_matches ref cap f" "case best of None \<Rightarrow> True | Some (j, score) \<Rightarrow> score < fault_score f"
    | (keep) j sc where "fault_matches ref cap f" "best = Some (j, sc)" "fault_score f \<le> sc"
    by (cases "fault_matches ref cap f"; cases best; cases "snd (the best) < fault_score f") auto
  then show ?case
  proof cases
    case skip
    then have run: "match_from ref cap (Suc i) best fs = res" using "2.prems"(1) by simp
    show ?thesis using "2.IH"(1) [OF skip run] "2.prems"(2) skip
      by (cases res; cases best) (auto simp: nth_Cons' Suc_diff_le le_Suc_eq not_less_eq_eq split: prod.splits)
  next
    case take_it
    then have run: "match_from ref cap (Suc i) (Some (i, fault_score f)) fs = res" using "2.prems"(1) by simp
    show ?thesis using "2.IH"(2) [OF _ take_it(2) run] take_it
      by (cases res; cases best) (fastforce simp: nth_Cons' Suc_diff_le split: prod.splits)+
  next
    case keep
    then have run: "match_from ref cap (Suc i) best fs = res" using "2.prems"(1) by simp
    show ?thesis using "2.IH"(3) [OF _ _ run] keep "2.prems"(2)
      by (cases res) (fastforce simp: nth_Cons' Suc_diff_le split: prod.splits)+
  qed
qed

lemma matchedFault_spec:
  "case matchedFault faults ref cap of
     None \<Rightarrow> \<forall>f \<in> set faults. \<not> fault_matches (trim_space ref) (trim_space cap) f
   | Some k \<Rightarrow> k < length faults \<and> fault_matches (trim_space ref) (trim_space cap) (faults ! k)
       \<and> (\<forall>f \<in> set faults. fault_matches (trim_space ref) (trim_space cap) f \<longrightarrow> fault_score f \<le> fault_score (faults ! k))"
  using match_from_spec [of "trim_space ref" "trim_space cap" 0 None faults "matchedFault faults ref cap"]
  by (simp add: matchedFault_def split: option.splits)

text \<open>Faults with different selectors that match the same execution have different scores.\<close>

definition distinct_faults :: "FaultScenario list \<Rightarrow> bool" where
  "distinct_faults fs \<longleftrightarrow> distinct (map (\<lambda>f. (fsTargetRef f, fsCapability f)) fs)"

lemma score_selector:
  assumes "fault_matches ref cap f" and "fault_matches ref cap g" and "fault_score f = fault_score g"
  shows "(fsTargetRef f, fsCapability f) = (fsTargetRef g, fsCapability g)"
  using assms by (auto simp: fault_matches_def fault_score_def split: if_splits)

lemma matchedFault_most_specific:
  assumes "distinct_faults faults" and "f \<in> set faults" and "fault_matches (trim_space ref) (trim_space cap) f"
    and "\<forall>g \<in> set faults. fault_matches (trim_space ref) (trim_space cap) g \<longrightarrow> fault_score g \<le> fault_score f"
  shows "\<exists>k. matchedFault faults ref cap = Some k \<and> k < length faults \<and> faults ! k = f"
proof (cases "matchedFault faults ref cap")
  case None
  then show ?thesis using matchedFault_spec [of faults ref cap] assms(2,3) by simp
next
  case (Some k)
  note m = matchedFault_spec [of faults ref cap, unfolded Some option.case]
  have k: "k < length faults" "fault_matches (trim_space ref) (trim_space cap) (faults ! k)" "fault_score f \<le> fault_score (faults ! k)"
    using m assms(2,3) by blast+
  moreover have "fault_score (faults ! k) \<le> fault_score f" using assms(4) k(1,2) by simp
  ultimately have "(fsTargetRef f, fsCapability f) = (fsTargetRef (faults ! k), fsCapability (faults ! k))"
    using score_selector [OF assms(3) k(2)] by simp
  moreover have "inj_on (\<lambda>f. (fsTargetRef f, fsCapability f)) (set faults)"
    using assms(1) by (simp add: distinct_faults_def distinct_map)
  ultimately have "f = faults ! k" using assms(2) k(1) by (auto dest: inj_onD)
  then show ?thesis using Some k(1) by simp
qed

text \<open>A fault is known by its selector: it decides what the fault matches and how specific it is.\<close>

definition selector :: "FaultScenario \<Rightarrow> string \<times> string" where
  "selector f = (fsTargetRef f, fsCapability f)"

lemma selector_matches: "selector f = selector g \<Longrightarrow> fault_matches ref cap f = fault_matches ref cap g"
  by (simp add: selector_def fault_matches_def)

lemma selector_score: "selector f = selector g \<Longrightarrow> fault_score f = fault_score g"
  by (simp add: selector_def fault_score_def)

lemma selector_uses [simp]: "selector (f\<lparr>fsUses := n\<rparr>) = selector f"
  by (simp add: selector_def)

lemma distinct_faults_selector: "distinct_faults fs \<longleftrightarrow> distinct (map selector fs)"
  unfolding distinct_faults_def by (simp add: selector_def [abs_def])

text \<open>What a use leaves of the faults.\<close>

lemma use_fault_parts:
  assumes "i < length fs" and "distinct_faults fs"
  defines "fs' \<equiv> fst (use_fault i fs)" and "f \<equiv> fs ! i"
  shows "distinct_faults fs'" and "selector ` set fs' \<subseteq> selector ` set fs"
    and "\<And>g. g \<in> set fs \<Longrightarrow> selector g \<noteq> selector f \<Longrightarrow> g \<in> set fs'"
    and "fsUses f = 1 \<Longrightarrow> selector f \<notin> selector ` set fs'"
    and "1 < fsUses f \<Longrightarrow> f\<lparr>fsUses := fsUses f - 1\<rparr> \<in> set fs'"
    and "fsUses f \<le> 0 \<Longrightarrow> f \<in> set fs'"
proof -
  have split: "fs = take i fs @ f # drop (Suc i) fs" using assms(1) by (simp add: f_def id_take_nth_drop)
  have d: "distinct (map selector (take i fs @ f # drop (Suc i) fs))" using assms(2) split by (simp add: distinct_faults_selector)
  consider (gone) "fsUses f = 1" "fs' = take i fs @ drop (Suc i) fs"
    | (less) "1 < fsUses f" "fs' = take i fs @ f\<lparr>fsUses := fsUses f - 1\<rparr> # drop (Suc i) fs"
    | (same) "fsUses f \<le> 0" "fs' = fs"
    using assms(1) by (cases "fsUses f = 1"; cases "1 < fsUses f") (auto simp: fs'_def f_def use_fault_def Let_def upd_conv_take_nth_drop)
  note three = this
  have mem: "g \<in> set fs \<longleftrightarrow> g \<in> set (take i fs) \<or> g = f \<or> g \<in> set (drop (Suc i) fs)" for g by (subst split) auto
  show "distinct_faults fs'" using three d assms(2) by cases (auto simp: distinct_faults_selector)
  show "selector ` set fs' \<subseteq> selector ` set fs" using three
  proof cases
    case less
    have "selector ` set fs' = selector ` set (take i fs @ f # drop (Suc i) fs)" by (simp add: less(2))
    then show ?thesis using split by simp
  qed (auto simp: mem)
  show "g \<in> set fs'" if "g \<in> set fs" "selector g \<noteq> selector f" for g
    using three that mem [of g] by cases auto
  show "selector f \<notin> selector ` set fs'" if "fsUses f = 1" using three that d by cases auto
  show "f\<lparr>fsUses := fsUses f - 1\<rparr> \<in> set fs'" if "1 < fsUses f" using three that by cases auto
  show "f \<in> set fs'" if "fsUses f \<le> 0" using three that assms(1) by cases (auto simp: f_def)
qed

definition req_ref :: "CapRequest \<Rightarrow> string" where "req_ref r = trim_space (fst (requestTarget r))"

definition req_cap :: "CapRequest \<Rightarrow> string" where "req_cap r = trim_space (crCapability r)"

text \<open>The first critical section of an execution whose snapshot is the one the session is bound to, if it names one.\<close>

lemma twin_begin_faults:
  assumes "trim_space (crRuntimeSnapshotID r) \<in> {[], twSnapshotID (ensureSession sid d)}"
  shows "\<exists>d' online consumed. twin_begin sid r d = (d', Inr (online,
      map_option ((!) (twFaults (ensureSession sid d))) (matchedFault (twFaults (ensureSession sid d)) (fst (requestTarget r)) (crCapability r)), consumed))
    \<and> twSnapshotID (ensureSession sid d') = twSnapshotID (ensureSession sid d)
    \<and> twFaults (ensureSession sid d') = (case matchedFault (twFaults (ensureSession sid d)) (fst (requestTarget r)) (crCapability r) of
        None \<Rightarrow> twFaults (ensureSession sid d) | Some i \<Rightarrow> fst (use_fault i (twFaults (ensureSession sid d))))"
proof -
  have "(if trim_space (crRuntimeSnapshotID r) = [] then Inr (ensureSession sid d)
      else bindSnapshot (ensureSession sid d) (trim_space (crRuntimeSnapshotID r))) = Inr (ensureSession sid d)"
    using assms by (auto simp: bindSnapshot_def)
  then show ?thesis by (auto simp: twin_begin_def Let_def split: prod.split option.split)
qed

text \<open>The scenarios a sequence of executions on a session meets, whatever happens after their first sections.\<close>

fun scenarios :: "string \<Rightarrow> CapRequest list \<Rightarrow> twin \<Rightarrow> FaultScenario option list" where
  "scenarios sid [] d = []"
| "scenarios sid (r # rs) d =
     (case twin_begin sid r d of
        (d', Inl e) \<Rightarrow> None # scenarios sid rs d'
      | (d', Inr (online, scenario, consumed)) \<Rightarrow> scenario # scenarios sid rs d')"

definition times_used :: "FaultScenario \<Rightarrow> FaultScenario option list \<Rightarrow> nat" where
  "times_used f scs = length (filter (\<lambda>s. map_option selector s = Some (selector f)) scs)"

definition hit_by :: "FaultScenario \<Rightarrow> CapRequest \<Rightarrow> bool" where
  "hit_by f r \<longleftrightarrow> fault_matches (req_ref r) (req_cap r) f"

lemma times_used_gone:
  assumes "selector f \<notin> selector ` set (twFaults (ensureSession sid d))" and "distinct_faults (twFaults (ensureSession sid d))"
    and "\<forall>r \<in> set rs. trim_space (crRuntimeSnapshotID r) \<in> {[], twSnapshotID (ensureSession sid d)}"
  shows "times_used f (scenarios sid rs d) = 0"
  using assms
proof (induction rs arbitrary: d)
  case (Cons r rs)
  let ?fs = "twFaults (ensureSession sid d)"
  obtain d' online consumed where b: "twin_begin sid r d = (d', Inr (online,
      map_option ((!) ?fs) (matchedFault ?fs (fst (requestTarget r)) (crCapability r)), consumed))"
    and bound: "twSnapshotID (ensureSession sid d') = twSnapshotID (ensureSession sid d)"
    and fs': "twFaults (ensureSession sid d') = (case matchedFault ?fs (fst (requestTarget r)) (crCapability r) of
        None \<Rightarrow> ?fs | Some i \<Rightarrow> fst (use_fault i ?fs))"
    using twin_begin_faults [of r sid d] Cons.prems(3) by auto
  have "selector f \<notin> selector ` set (twFaults (ensureSession sid d')) \<and> distinct_faults (twFaults (ensureSession sid d'))
      \<and> map_option selector (map_option ((!) ?fs) (matchedFault ?fs (fst (requestTarget r)) (crCapability r))) \<noteq> Some (selector f)"
  proof (cases "matchedFault ?fs (fst (requestTarget r)) (crCapability r)")
    case None
    then show ?thesis using fs' Cons.prems by simp
  next
    case (Some i)
    then have i: "i < length ?fs" using matchedFault_spec [of ?fs "fst (requestTarget r)" "crCapability r"] by simp
    show ?thesis using use_fault_parts(1,2) [OF i Cons.prems(2)] fs' Some Cons.prems(1) nth_mem [OF i] by (auto simp: image_iff)
  qed
  then show ?case using Cons b bound by (simp add: times_used_def)
qed (simp add: times_used_def)

lemma times_used_exact:
  assumes "f \<in> set (twFaults (ensureSession sid d))" and "0 \<le> fsUses f" and "distinct_faults (twFaults (ensureSession sid d))"
    and "\<forall>r \<in> set rs. trim_space (crRuntimeSnapshotID r) \<in> {[], twSnapshotID (ensureSession sid d)}"
    and "\<forall>r \<in> set rs. hit_by f r \<longrightarrow> (\<forall>g \<in> set (twFaults (ensureSession sid d)). hit_by g r \<longrightarrow> fault_score g \<le> fault_score f)"
  shows "times_used f (scenarios sid rs d)
    = (let hits = length (filter (hit_by f) rs) in if fsUses f = 0 then hits else min (nat (fsUses f)) hits)"
  using assms
proof (induction rs arbitrary: d f)
  case (Cons r rs)
  let ?fs = "twFaults (ensureSession sid d)"
  let ?m = "matchedFault ?fs (fst (requestTarget r)) (crCapability r)"
  obtain d' online consumed where b: "twin_begin sid r d = (d', Inr (online, map_option ((!) ?fs) ?m, consumed))"
    and bound: "twSnapshotID (ensureSession sid d') = twSnapshotID (ensureSession sid d)"
    and fs': "twFaults (ensureSession sid d') = (case ?m of None \<Rightarrow> ?fs | Some i \<Rightarrow> fst (use_fault i ?fs))"
    using twin_begin_faults [of r sid d] Cons.prems(4) by auto
  have scs: "scenarios sid (r # rs) d = map_option ((!) ?fs) ?m # scenarios sid rs d'" by (simp add: b)
  have sub: "distinct_faults (twFaults (ensureSession sid d')) \<and> selector ` set (twFaults (ensureSession sid d')) \<subseteq> selector ` set ?fs"
  proof (cases ?m)
    case (Some i)
    then have "i < length ?fs" using matchedFault_spec [of ?fs "fst (requestTarget r)" "crCapability r"] by simp
    then show ?thesis using use_fault_parts(1,2) [OF _ Cons.prems(3)] fs' Some by simp
  qed (simp add: fs' Cons.prems(3))
  have win: "\<forall>q \<in> set rs. hit_by f' q \<longrightarrow> (\<forall>g \<in> set (twFaults (ensureSession sid d')). hit_by g q \<longrightarrow> fault_score g \<le> fault_score f')"
    if "selector f' = selector f" for f'
  proof (intro ballI impI)
    fix q g assume q: "q \<in> set rs" "hit_by f' q" "g \<in> set (twFaults (ensureSession sid d'))" "hit_by g q"
    obtain g0 where g0: "g0 \<in> set ?fs" "selector g0 = selector g" using sub q(3) by (metis imageE imageI subsetD)
    have "hit_by f q" "hit_by g0 q" using q that g0(2) selector_matches unfolding hit_by_def by metis+
    then have "fault_score g0 \<le> fault_score f" using Cons.prems(5) q(1) g0(1) by simp
    then show "fault_score g \<le> fault_score f'" using selector_score that g0(2) by metis
  qed
  have ih: "times_used f' (scenarios sid rs d')
      = (let hits = length (filter (hit_by f') rs) in if fsUses f' = 0 then hits else min (nat (fsUses f')) hits)"
    if "f' \<in> set (twFaults (ensureSession sid d'))" "0 \<le> fsUses f'" "selector f' = selector f" for f'
    by (rule Cons.IH [OF that(1,2)]) (use sub win [OF that(3)] Cons.prems(4) bound in auto)
  have same: "times_used f' scs = times_used f scs" "hit_by f' = hit_by f" if "selector f' = selector f" for f' scs
    using that selector_matches unfolding times_used_def hit_by_def by (simp, metis)
  show ?case
  proof (cases "hit_by f r")
    case True
    then obtain k where k: "?m = Some k" "k < length ?fs" "?fs ! k = f"
      using matchedFault_most_specific [OF Cons.prems(3,1), of "fst (requestTarget r)" "crCapability r"] Cons.prems(5)
      by (auto simp: hit_by_def req_ref_def req_cap_def)
    note use = use_fault_parts [OF k(2) Cons.prems(3), unfolded k(3)]
    have now: "times_used f (scenarios sid (r # rs) d) = Suc (times_used f (scenarios sid rs d'))"
      by (simp only: scs) (simp add: times_used_def k)
    consider "fsUses f = 0" | "fsUses f = 1" | "1 < fsUses f" using Cons.prems(2) by linarith
    then show ?thesis
    proof cases
      case 1
      then have "f \<in> set (twFaults (ensureSession sid d'))" using use(6) fs' k(1) by simp
      from ih [OF this Cons.prems(2)] 1 True now show ?thesis by simp
    next
      case 2
      then have "selector f \<notin> selector ` set (twFaults (ensureSession sid d'))" using use(4) fs' k(1) by simp
      then have "times_used f (scenarios sid rs d') = 0"
        using times_used_gone sub bound Cons.prems(4) by simp
      then show ?thesis using 2 True now by (simp add: Let_def)
    next
      case 3
      then have "f\<lparr>fsUses := fsUses f - 1\<rparr> \<in> set (twFaults (ensureSession sid d'))" using use(5) fs' k(1) by simp
      from ih [OF this] 3 True now same [of "f\<lparr>fsUses := fsUses f - 1\<rparr>"] show ?thesis
        by (cases "nat (fsUses f)") (auto simp: Let_def min_def nat_diff_distrib)
    qed
  next
    case False
    have other: "map_option selector (map_option ((!) ?fs) ?m) \<noteq> Some (selector f) \<and> f \<in> set (twFaults (ensureSession sid d'))"
    proof (cases ?m)
      case (Some i)
      have i: "i < length ?fs" "fault_matches (req_ref r) (req_cap r) (?fs ! i)"
        using matchedFault_spec [of ?fs "fst (requestTarget r)" "crCapability r"] Some by (simp_all add: req_ref_def req_cap_def)
      then have "selector (?fs ! i) \<noteq> selector f" using False selector_matches unfolding hit_by_def by blast
      then show ?thesis using use_fault_parts(3) [OF i(1) Cons.prems(3) Cons.prems(1)] fs' Some by auto
    qed (simp add: fs' Cons.prems(1))
    then have "times_used f (scenarios sid (r # rs) d) = times_used f (scenarios sid rs d')"
      by (simp only: scs) (simp add: times_used_def)
    with ih [of f] other Cons.prems(2) False show ?thesis by simp
  qed
qed (simp add: times_used_def)

section \<open>Checkpoints\<close>

lemma times_used_bounds:
  assumes "f \<in> set (twFaults (ensureSession sid d))" and "0 \<le> fsUses f" and "distinct_faults (twFaults (ensureSession sid d))"
    and "\<forall>r \<in> set rs. trim_space (crRuntimeSnapshotID r) \<in> {[], twSnapshotID (ensureSession sid d)}"
  shows "times_used f (scenarios sid rs d) \<le> length (filter (hit_by f) rs)
    \<and> (fsUses f \<noteq> 0 \<longrightarrow> times_used f (scenarios sid rs d) \<le> nat (fsUses f))"
  using assms
proof (induction rs arbitrary: d f)
  case (Cons r rs)
  let ?fs = "twFaults (ensureSession sid d)"
  let ?m = "matchedFault ?fs (fst (requestTarget r)) (crCapability r)"
  obtain d' online consumed where b: "twin_begin sid r d = (d', Inr (online, map_option ((!) ?fs) ?m, consumed))"
    and bound: "twSnapshotID (ensureSession sid d') = twSnapshotID (ensureSession sid d)"
    and fs': "twFaults (ensureSession sid d') = (case ?m of None \<Rightarrow> ?fs | Some i \<Rightarrow> fst (use_fault i ?fs))"
    using twin_begin_faults [of r sid d] Cons.prems(4) by auto
  have scs: "scenarios sid (r # rs) d = map_option ((!) ?fs) ?m # scenarios sid rs d'" by (simp add: b)
  have sub: "distinct_faults (twFaults (ensureSession sid d'))"
  proof (cases ?m)
    case (Some i)
    then have "i < length ?fs" using matchedFault_spec [of ?fs "fst (requestTarget r)" "crCapability r"] by simp
    then show ?thesis using use_fault_parts(1) [OF _ Cons.prems(3)] fs' Some by simp
  qed (simp add: fs' Cons.prems(3))
  have ih: "times_used f' (scenarios sid rs d') \<le> length (filter (hit_by f') rs)
      \<and> (fsUses f' \<noteq> 0 \<longrightarrow> times_used f' (scenarios sid rs d') \<le> nat (fsUses f'))"
    if "f' \<in> set (twFaults (ensureSession sid d'))" "0 \<le> fsUses f'" for f'
    by (rule Cons.IH [OF that sub]) (use Cons.prems(4) bound in auto)
  have same: "times_used f' scs = times_used f scs" "hit_by f' = hit_by f" if "selector f' = selector f" for f' scs
    using that selector_matches unfolding times_used_def hit_by_def by (simp, metis)
  show ?case
  proof (cases "\<exists>k. ?m = Some k \<and> ?fs ! k = f")
    case True
    then obtain k where k: "?m = Some k" "?fs ! k = f" by blast
    then have kb: "k < length ?fs" "hit_by f r"
      using matchedFault_spec [of ?fs "fst (requestTarget r)" "crCapability r"] by (auto simp: hit_by_def req_ref_def req_cap_def)
    note use = use_fault_parts [OF kb(1) Cons.prems(3), unfolded k(2)]
    have now: "times_used f (scenarios sid (r # rs) d) = Suc (times_used f (scenarios sid rs d'))"
      by (simp only: scs) (simp add: times_used_def k)
    consider "fsUses f = 0" | "fsUses f = 1" | "1 < fsUses f" using Cons.prems(2) by linarith
    then show ?thesis
    proof cases
      case 1
      then have "f \<in> set (twFaults (ensureSession sid d'))" using use(6) fs' k(1) by simp
      from ih [OF this Cons.prems(2)] 1 kb(2) now show ?thesis by simp
    next
      case 2
      then have "selector f \<notin> selector ` set (twFaults (ensureSession sid d'))" using use(4) fs' k(1) by simp
      then have "times_used f (scenarios sid rs d') = 0" using times_used_gone sub bound Cons.prems(4) by simp
      then show ?thesis using 2 kb(2) now by simp
    next
      case 3
      then have "f\<lparr>fsUses := fsUses f - 1\<rparr> \<in> set (twFaults (ensureSession sid d'))" using use(5) fs' k(1) by simp
      from ih [OF this] 3 kb(2) now same [of "f\<lparr>fsUses := fsUses f - 1\<rparr>"] show ?thesis
        by (cases "nat (fsUses f)") (auto simp: nat_diff_distrib)
    qed
  next
    case False
    have other: "map_option selector (map_option ((!) ?fs) ?m) \<noteq> Some (selector f) \<and> f \<in> set (twFaults (ensureSession sid d'))"
    proof (cases ?m)
      case (Some i)
      have i: "i < length ?fs" using matchedFault_spec [of ?fs "fst (requestTarget r)" "crCapability r"] Some by simp
      have "selector (?fs ! i) \<noteq> selector f"
        using False Some nth_mem [OF i] Cons.prems(1,3) by (auto simp: distinct_faults_selector distinct_map inj_on_def)
      then show ?thesis using use_fault_parts(3) [OF i Cons.prems(3) Cons.prems(1)] fs' Some by auto
    qed (simp add: fs' Cons.prems(1))
    then have "times_used f (scenarios sid (r # rs) d) = times_used f (scenarios sid rs d')"
      by (simp only: scs) (simp add: times_used_def)
    with ih [of f] other Cons.prems(2) show ?thesis by auto
  qed
qed (simp add: times_used_def)

text \<open>
  C28. Fault budgets: in a run of executions against the bound snapshot, however they mix, a configured fault is taken
  up by at most as many of the executions it matches as it has uses (0 uses are no limit, negative ones are not
  configured, and no two faults have the same target and capability); and if no other configured fault is more specific for any of them, it is taken up by exactly the first ones, until its uses are spent. Taking a
  fault up spends a use; an execution on a target that is offline spends it too, although it then reports the target
  and not the fault.
\<close>

theorem fault_budget:
  assumes "f \<in> set (twFaults (ensureSession sid d))" and "0 \<le> fsUses f" and "distinct_faults (twFaults (ensureSession sid d))"
    and "\<forall>r \<in> set rs. trim_space (crRuntimeSnapshotID r) \<in> {[], twSnapshotID (ensureSession sid d)}"
  shows "let taken = times_used f (scenarios sid rs d); hits = length (filter (hit_by f) rs) in
    taken \<le> hits \<and> (fsUses f \<noteq> 0 \<longrightarrow> taken \<le> nat (fsUses f))
    \<and> ((\<forall>r \<in> set rs. hit_by f r \<longrightarrow> (\<forall>g \<in> set (twFaults (ensureSession sid d)). hit_by g r \<longrightarrow> fault_score g \<le> fault_score f))
       \<longrightarrow> taken = (if fsUses f = 0 then hits else min (nat (fsUses f)) hits))"
  using times_used_bounds [OF assms] times_used_exact [OF assms] by (simp add: Let_def)

text \<open>Every target is known by its own name, which keys the maps of the twin, and its truth is simulation only.\<close>

definition target_ok :: "string \<Rightarrow> TargetState \<Rightarrow> bool" where
  "target_ok ref st \<longleftrightarrow> tsTargetRef st = ref \<and> ttScope (tsTruth st) = ''SIMULATION_ONLY'' \<and> ttVersion (tsTruth st) = 1"

definition targets_ok :: "twinSession \<Rightarrow> bool" where
  "targets_ok se \<longleftrightarrow> distinct (map fst (twTargets se)) \<and> (\<forall>(ref, st) \<in> set (twTargets se). target_ok ref st)"

lemma set_update_subset: "set (AList.update k v al) \<subseteq> insert (k, v) (set al)"
  by (induction al) auto

lemma targets_ok_put: "targets_ok se \<Longrightarrow> target_ok ref st \<Longrightarrow> targets_ok (put_target ref st se)"
  using set_update_subset [of ref st "twTargets se"] by (auto simp: targets_ok_def put_target_def distinct_update)

lemma targets_ok_cong [simp]:
  "targets_ok (se\<lparr>twFaults := fs\<rparr>) = targets_ok se" "targets_ok (se\<lparr>twSnapshotID := n\<rparr>) = targets_ok se"
  by (simp_all add: targets_ok_def)

lemma ensure_target_ok: "targets_ok se \<Longrightarrow> target_ok ref (ensureTarget se ref ty)"
  by (auto simp: ensureTarget_def new_target_def targets_ok_def target_ok_def DigitalTwinStateContractVersion1_def
      split: option.split dest!: map_of_SomeD)

lemma update_all:
  "map_of (foldl (\<lambda>m st. AList.update (tsTargetRef st) (f st) m) m0 sts) ref
    = (case find (\<lambda>st. tsTargetRef st = ref) (rev sts) of None \<Rightarrow> map_of m0 ref | Some st \<Rightarrow> Some (f st))"
  by (induction sts rule: rev_induct) (auto simp: update_conv')

lemma find_distinct:
  assumes "distinct (map tsTargetRef sts)" and "st \<in> set sts"
  shows "find (\<lambda>x. tsTargetRef x = tsTargetRef st) sts = Some st"
  using assms by (induction sts) auto

lemma restored_map:
  assumes "targets_ok se"
  shows "map_of (foldl (\<lambda>m st. AList.update (tsTargetRef st) (f st) m) [] (sort_key tsTargetRef (map snd (twTargets se)))) ref
    = map_option f (map_of (twTargets se) ref)"
proof -
  let ?sts = "sort_key tsTargetRef (map snd (twTargets se))"
  have refs: "map tsTargetRef (map snd (twTargets se)) = map fst (twTargets se)"
    using assms by (auto simp: targets_ok_def target_ok_def)
  have "mset (map tsTargetRef ?sts) = mset (map fst (twTargets se))" using refs by (metis mset_map mset_sort)
  then have d: "distinct (map tsTargetRef (rev ?sts))"
    using assms unfolding targets_ok_def rev_map [symmetric] distinct_rev by (metis mset_eq_imp_distinct_iff)
  show ?thesis
  proof (cases "map_of (twTargets se) ref")
    case None
    have "tsTargetRef st \<noteq> ref" if "st \<in> set ?sts" for st
    proof -
      from that have "st \<in> snd ` set (twTargets se)" by simp
      then obtain k where k: "(k, st) \<in> set (twTargets se)" by force
      then have "tsTargetRef st = k" using assms by (auto simp: targets_ok_def target_ok_def)
      then show ?thesis using k None by (force simp: map_of_eq_None_iff)
    qed
    then have "find (\<lambda>st. tsTargetRef st = ref) (rev ?sts) = None" by (simp add: find_None_iff)
    then show ?thesis by (simp add: update_all None)
  next
    case (Some st)
    then have "(ref, st) \<in> set (twTargets se)" by (rule map_of_SomeD)
    then have "st \<in> set (rev ?sts)" "tsTargetRef st = ref" using assms by (force simp: targets_ok_def target_ok_def)+
    then have "find (\<lambda>x. tsTargetRef x = ref) (rev ?sts) = Some st" using find_distinct [OF d] by blast
    then show ?thesis by (simp add: update_all Some)
  qed
qed

definition twin_ok :: "twin \<Rightarrow> bool" where
  "twin_ok d \<longleftrightarrow> (\<forall>s se. twin_state s d = Some se \<longrightarrow> targets_ok se)"

lemma twin_ok_put: "twin_ok d \<Longrightarrow> targets_ok se \<Longrightarrow> twin_ok (put_session sid se d)"
  by (simp add: twin_ok_def)

lemma twin_ok_event [simp]: "twin_ok (fst (append_twin_event te sid ty d)) = twin_ok d"
  by (simp add: twin_ok_def)

lemma twin_ok_ensure: "twin_ok d \<Longrightarrow> targets_ok (ensureSession sid d)"
  by (auto simp: ensureSession_def twin_ok_def targets_ok_def split: option.split)

lemma bind_targets: "bindSnapshot se snap = Inr se' \<Longrightarrow> targets_ok se \<Longrightarrow> targets_ok se'"
  by (auto simp: bindSnapshot_def split: if_splits)

lemma twin_ok_Bind: "twin_ok d \<Longrightarrow> twin_ok (fst (BindSession x d))"
  by (auto simp: BindSession_def Let_def twin_ok_put twin_ok_ensure split: sum.split dest: bind_targets)

lemma twin_ok_mutate:
  assumes "twin_ok d" and "\<And>d. twin_ok d \<Longrightarrow> twin_ok (change d)"
  shows "twin_ok (fst (mutate te sid ty change d))"
proof -
  have r: "twin_ok (fst (resolveMutationSession te sid d))"
    using assms(1) twin_ok_Bind [OF assms(1)]
    by (auto simp: resolveMutationSession_def split: sum.split prod.split option.split) (metis fst_conv)+
  obtain d1 a where d1: "resolveMutationSession te sid d = (d1, a)" by (cases "resolveMutationSession te sid d") auto
  then have ok1: "twin_ok d1" using r by simp
  show ?thesis
  proof (cases a)
    case (Inr x)
    obtain d2 e where d2: "append_twin_event te (sesID x) ty d1 = (d2, e)" by (cases "append_twin_event te (sesID x) ty d1") auto
    then have "twin_ok d2" using ok1 twin_ok_event [of te "sesID x" ty d1] by simp
    then show ?thesis using d1 d2 Inr assms(2) by (cases e) (simp_all add: mutate_def)
  qed (simp add: mutate_def d1 ok1)
qed

lemma target_ok_online: "target_ok ref st \<Longrightarrow> target_ok ref (setOnlineTruth b des st)"
  by (simp add: target_ok_def setOnlineTruth_def DigitalTwinStateContractVersion1_def)

lemma target_ok_fields [simp]:
  "target_ok ref (st\<lparr>tsLastResult := a, tsLastErrorCode := b, tsLastSummary := c\<rparr>) = target_ok ref st"
  "target_ok ref (st\<lparr>tsExecutionCount := n, tsLastCapability := k\<rparr>) = target_ok ref st"
  by (simp_all add: target_ok_def)

lemma twin_ok_online: "twin_ok d \<Longrightarrow> twin_ok (set_online sid ref b des d)"
  by (simp add: set_online_def Let_def twin_ok_put twin_ok_ensure targets_ok_put ensure_target_ok target_ok_online)

lemma twin_ok_record: "twin_ok d \<Longrightarrow> twin_ok (recordResult sid ref r d)"
  by (simp add: recordResult_def Let_def twin_ok_put twin_ok_ensure targets_ok_put ensure_target_ok)

lemma twin_ok_begin:
  assumes "twin_ok d"
  shows "twin_ok (fst (twin_begin sid req d))"
proof (cases "if trim_space (crRuntimeSnapshotID req) = [] then Inr (ensureSession sid d)
    else bindSnapshot (ensureSession sid d) (trim_space (crRuntimeSnapshotID req))")
  case (Inl e)
  then show ?thesis using assms by (simp add: twin_begin_def Let_def twin_ok_put twin_ok_ensure split: prod.split)
next
  case (Inr se)
  then have ok: "targets_ok se" using bindSnapshot_Inr twin_ok_ensure [OF assms, of sid] by (force split: if_splits)
  show ?thesis using Inr assms
    by (simp add: twin_begin_def Let_def twin_ok_put targets_ok_put ok ensure_target_ok split: prod.split option.split)
qed

lemma twin_ok_Execute:
  assumes "twin_ok d"
  shows "twin_ok (fst (twin_Execute xe req d))"
proof -
  define sid where "sid = trim_space (crSessionID req)"
  obtain d1 a where b: "twin_begin sid req d = (d1, a)" by (cases "twin_begin sid req d") auto
  have d1: "twin_ok d1" using twin_ok_begin [OF assms, of sid req] b by simp
  show ?thesis
  proof (cases a)
    case (Inl e)
    then show ?thesis using assms b d1 by (simp add: twin_Execute_def Let_def sid_def)
  next
    case (Inr x)
    obtain online scenario consumed where x: "x = (online, scenario, consumed)" by (cases x) auto
    obtain r obs where o: "twin_outcome xe req online scenario = (r, obs)" by (cases "twin_outcome xe req online scenario") auto
    show ?thesis using assms b d1 Inr x o
      by (cases consumed; cases obs) (simp_all add: twin_Execute_def Let_def sid_def twin_ok_record twin_ok_online)
  qed
qed

lemma restored_ok:
  "targets_ok \<lparr>twSnapshotID = n, twTargets = foldl (\<lambda>m st. AList.update (tsTargetRef st) (restored_target marked st) m) [] sts, twFaults = fs\<rparr>"
proof (induction sts rule: rev_induct)
  case (snoc st sts)
  have t: "target_ok (tsTargetRef st) (restored_target marked st)"
    by (simp add: target_ok_def restored_target_def Let_def DigitalTwinStateContractVersion1_def)
  from targets_ok_put [OF snoc t] show ?case by (simp add: put_target_def)
qed (simp add: targets_ok_def)

lemma twin_ok_install: "twin_ok d \<Longrightarrow> twin_ok (fst (installSnapshot x sh marked d))"
  by (simp add: installSnapshot_def twin_ok_put restored_ok)

text \<open>Whatever is done to a twin, from its start.\<close>

inductive twin_reach :: "twin \<Rightarrow> bool" where
  reach_new: "twin_reach \<lparr>dtSessions = [], dtEvents = es\<rparr>"
| reach_bind: "twin_reach d \<Longrightarrow> twin_reach (fst (BindSession x d))"
| reach_fault: "twin_reach d \<Longrightarrow> twin_reach (fst (ConfigureFaultContext te sid f d))"
| reach_clear: "twin_reach d \<Longrightarrow> twin_reach (fst (ClearFaultContext te sid ref cap d))"
| reach_online: "twin_reach d \<Longrightarrow> twin_reach (fst (SetTargetOnlineContext te sid ref b d))"
| reach_reset: "twin_reach d \<Longrightarrow> twin_reach (fst (ResetSessionContext te sid d))"
| reach_begin: "twin_reach d \<Longrightarrow> twin_reach (fst (twin_begin sid req d))"
| reach_observe: "twin_reach d \<Longrightarrow> twin_reach (set_online sid ref b False d)"
| reach_record: "twin_reach d \<Longrightarrow> twin_reach (recordResult sid ref r d)"
| reach_install: "twin_reach d \<Longrightarrow> twin_reach (fst (installSnapshot x sh marked d))"

lemma twin_reach_ok: "twin_reach d \<Longrightarrow> twin_ok d"
proof (induction rule: twin_reach.induct)
  case (reach_new es)
  then show ?case by (simp add: twin_ok_def twin_state_def)
next
  case (reach_fault d te sid f)
  then show ?case
    by (auto simp: ConfigureFaultContext_def Let_def intro!: twin_ok_mutate twin_ok_put twin_ok_ensure)
next
  case (reach_clear d te sid ref cap)
  have "twin_ok (case twin_state s d of None \<Rightarrow> d | Some se \<Rightarrow> put_session s (se\<lparr>twFaults := f se\<rparr>) d)" if "twin_ok d" for s d f
    using that by (auto simp: twin_ok_def split: option.split)
  then show ?case using reach_clear.IH by (simp add: ClearFaultContext_def Let_def twin_ok_mutate)
next
  case (reach_online d te sid ref b)
  then show ?case by (auto simp: SetTargetOnlineContext_def Let_def intro!: twin_ok_mutate twin_ok_online)
next
  case (reach_reset d te sid)
  have "twin_ok (d\<lparr>dtSessions := AList.delete s (dtSessions d)\<rparr>)" if "twin_ok d" for s d
    using that by (auto simp: twin_ok_def twin_state_def delete_conv' split: if_splits)
  then show ?case using reach_reset.IH by (simp add: ResetSessionContext_def Let_def twin_ok_mutate)
qed (simp_all add: twin_ok_Bind twin_ok_begin twin_ok_online twin_ok_record twin_ok_install)

text \<open>What a restored target keeps: everything but the mark that it was restored.\<close>

definition marked_restored :: "TargetState \<Rightarrow> TargetState" where
  "marked_restored st = st\<lparr>tsTruth := (tsTruth st)\<lparr>ttRestorable := True, ttReason := ''checkpoint_restored''\<rparr>\<rparr>"

lemma restored_marked: "target_ok ref st \<Longrightarrow> restored_target True st = marked_restored st"
  by (simp add: target_ok_def restored_target_def marked_restored_def Let_def DigitalTwinStateContractVersion1_def)

lemma sort_faults: "mset (sort_key f (sort_key g fs)) = mset fs"
  by simp

text \<open>
  C27. Checkpoints round-trip: what \<open>Capture\<close> stores of a reachable twin, \<open>Restore\<close> brings back in any
  simulation of the same runtime snapshot, whatever happened in between: the same targets with the same states,
  marked as restored, and the same faults; no other session changes.
\<close>

theorem checkpoint_roundtrip:
  assumes "twin_reach d" and "Capture ck a d = (d1, Inr cp)" and "twin_Restore ck b cpid d2 = (d3, Inr cp)"
    and "ckSession ck (trim_space a) = Inr xa" and "ckSession ck (trim_space b) = Inr xb"
    and "\<forall>sid v json c. ckCreate ck sid v json = Inr c \<longrightarrow> cpTwinState c = json"
    and "\<forall>sh json. ckEncode ck sh = Some json \<longrightarrow> ckDecode ck json = Some sh"
  shows "\<exists>se se'. twin_state (trim_space (sesID (smSession xa))) d1 = Some se \<and> twin_state (sesID (smSession xb)) d3 = Some se'
    \<and> (\<forall>ref. map_of (twTargets se') ref = map_option marked_restored (map_of (twTargets se) ref))
    \<and> mset (twFaults se') = mset (twFaults se) \<and> twSnapshotID se' = twSnapshotID se
    \<and> (\<forall>s. s \<noteq> sesID (smSession xb) \<longrightarrow> twin_state s d3 = twin_state s d2)"
proof -
  define sid where "sid = trim_space (sesID (smSession xa))"
  obtain json where cap: "BindSession (smSession xa) d = (d1, None)" "ckEncode ck (twin_Snapshot (sesID (smSession xa)) d1) = Some json"
      "ckCreate ck (sesID (smSession xa)) DigitalTwinStateContractVersion1 json = Inr cp"
    using assms(2,4) by (auto simp: Capture_def Let_def split: if_splits prod.splits option.splits)
  have json: "cpTwinState cp = json" "ckDecode ck json = Some (twin_Snapshot (sesID (smSession xa)) d1)"
    using assms(6,7) cap(2,3) by auto
  have "twin_ok d1" using twin_ok_Bind [OF twin_reach_ok [OF assms(1)], of "smSession xa"] cap(1) by simp
  moreover obtain se where se: "twin_state sid d1 = Some se" "sid \<noteq> []"
    using cap(1) by (auto simp: BindSession_def sid_def Let_def split: if_splits sum.splits)
  ultimately have ok: "targets_ok se" by (simp add: twin_ok_def)
  define sh where "sh = twin_Snapshot (sesID (smSession xa)) d1"
  have sh: "shTargets sh = sort_key tsTargetRef (map snd (twTargets se))" "mset (shFaults sh) = mset (twFaults se)"
      "shRuntimeSnapshotID sh = twSnapshotID se"
    using se by (simp_all add: sh_def twin_Snapshot_def Let_def flip: sid_def)
  have inst: "installSnapshot (smSession xb) sh True d2 = (d3, None)" and rt: "shRuntimeSnapshotID sh = sesRuntimeSnapshotID (smSession xb)"
    using assms(3,5) json by (auto simp: twin_Restore_def Let_def sh_def split: if_splits prod.splits option.splits sum.splits)
  define se' where "se' = \<lparr>twSnapshotID = sesRuntimeSnapshotID (smSession xb),
      twTargets = foldl (\<lambda>m st. AList.update (tsTargetRef st) (restored_target True st) m) [] (shTargets sh), twFaults = shFaults sh\<rparr>"
  have d3: "d3 = put_session (sesID (smSession xb)) se' d2"
    using inst by (auto simp: installSnapshot_def se'_def split: if_splits)
  have "map_of (twTargets se') ref = map_option marked_restored (map_of (twTargets se) ref)" for ref
  proof -
    have "map_of (twTargets se') ref = map_option (restored_target True) (map_of (twTargets se) ref)"
      using restored_map [OF ok, of "restored_target True"] by (simp add: se'_def sh(1))
    also have "\<dots> = map_option marked_restored (map_of (twTargets se) ref)"
      using ok by (cases "map_of (twTargets se) ref") (auto simp: targets_ok_def intro: restored_marked dest!: map_of_SomeD)
    finally show ?thesis .
  qed
  then show ?thesis using se(1) d3 sh(2,3) rt
    by (intro exI [of _ se] exI [of _ se']) (simp add: sid_def se'_def)
qed

section \<open>Runs\<close>

definition sim_row :: "string \<Rightarrow> Session" where
  "sim_row sid = \<lparr>sesID = sid, sesProjectID = ''p'', sesRuntimeSnapshotID = ''n'', sesType = SessionSimulation,
     sesStatus = SessionActive, sesCurrentCueID = None\<rparr>"

definition sim_fault :: FaultScenario where
  "sim_fault = \<lparr>fsTargetRef = ''t'', fsCapability = [], fsBehavior = ''REJECT'', fsDelayMS = 0, fsErrorCode = [], fsMessage = [], fsUses = 2\<rparr>"

definition sim_request :: "string \<Rightarrow> CapRequest" where
  "sim_request ref = \<lparr>crExecutionID = ''a'', crProjectID = ''p'', crSessionID = ''s'', crRuntimeSnapshotID = [], crIssuer = [],
     crCausationID = [], crCapability = ''c'', crTarget = Some \<lparr>ctAliasID = [], ctRef = ref, ctLogicalType = [], ctConfiguration = []\<rparr>,
     crParameters = [], crPriority = [], crTimeoutMS = 0, crCorrelationID = []\<rparr>"

definition sim_env :: twin_env where
  "sim_env = \<lparr>teStore = False, teSession = (\<lambda>_. Inl []), teAppend = True\<rparr>"

definition sim_start :: twin where
  "sim_start = fst (ConfigureFaultContext sim_env ''s'' sim_fault (fst (BindSession (sim_row ''s'') \<lparr>dtSessions = [], dtEvents = []\<rparr>)))"

lemma sim_start_reach: "twin_reach sim_start"
  unfolding sim_start_def by (intro twin_reach.intros)

theorem fault_budget_witness:
  "times_used sim_fault (scenarios ''s'' (map sim_request [''t'', ''u'', ''t'', ''t'']) sim_start) = 2"
proof -
  let ?rs = "map sim_request [''t'', ''u'', ''t'', ''t'']"
  have fs: "twFaults (ensureSession ''s'' sim_start) = [sim_fault]" by code_simp
  have "\<forall>r \<in> set ?rs. trim_space (crRuntimeSnapshotID r) \<in> {[], twSnapshotID (ensureSession ''s'' sim_start)}"
    by (simp add: sim_request_def)
  moreover have "sim_fault \<in> set (twFaults (ensureSession ''s'' sim_start))" "distinct_faults (twFaults (ensureSession ''s'' sim_start))"
      "0 \<le> fsUses sim_fault"
    by (simp_all add: fs distinct_faults_def sim_fault_def)
  moreover have "length (filter (hit_by sim_fault) ?rs) = 3" by code_simp
  ultimately show ?thesis
    using fault_budget [of sim_fault "''s''" sim_start ?rs] by (simp add: fs sim_fault_def Let_def)
qed

definition sim_tables :: tables where
  "sim_tables = demo_tables\<lparr>tbSessions := [demo_session ''s'' SessionSimulation 3],
     tbCues := [demo_cue_row ''x'' ''s''],
     tbActions := [\<lparr>axID = ''a'', axCueExecutionID = ''x'', axResult = ExecutionRunning, axSummary = [], axErrorCode = None\<rparr>]\<rparr>"

definition sim_exec :: exec_env where
  "sim_exec = \<lparr>xeWait = (\<lambda>_. None), xeDeadline = False, xeDone = CtxCanceled, xeTwin = sim_env, xeVisual = (\<lambda>_. None), xeConfig = (\<lambda>_. None)\<rparr>"

definition sim_session_env :: session_env where
  "sim_session_env = \<lparr>sxExec = sim_exec, sxSql = (\<lambda>_. SqlOk), sxTables = sim_tables\<rparr>"

definition live_output :: "nat executor" where
  "live_output req w = (failed_result [] [], Suc w)"

theorem simulation_isolated_witness:
  "\<exists>r d'. session_Execute sim_session_env live_output (sim_request ''t'') (sim_start, 0) = (r, d', 0)"
proof -
  obtain r d' w' where run: "session_Execute sim_session_env live_output (sim_request ''t'') (sim_start, 0) = (r, d', w')"
    by (cases "session_Execute sim_session_env live_output (sim_request ''t'') (sim_start, 0)") auto
  have "(case resolveSession sim_session_env (sim_request ''t'') of Inl e \<Rightarrow> False | Inr x \<Rightarrow> sesType x = SessionSimulation)" by code_simp
  then obtain x where "resolveSession sim_session_env (sim_request ''t'') = Inr x" "sesType x = SessionSimulation"
    by (auto split: sum.splits)
  then have "w' = 0" using simulation_isolated [where sx = sim_session_env and physical = live_output and req = "sim_request ''t''" and d = sim_start and w = 0] run by simp
  then show ?thesis using run by blast
qed

text \<open>A store whose encoding is the identity on the snapshots of the demo.\<close>

definition sim_ck :: "string option \<Rightarrow> checkpoint_env" where
  "sim_ck mark = \<lparr>ckSession = (\<lambda>s. Inr \<lparr>smSession = sim_row s, smLifecycle = ''ACTIVE''\<rparr>),
     ckGet = (\<lambda>_. Inr ((demo_checkpoint ''c1'' ''s'' 5 ''h'')\<lparr>cpSnapshotID := ''n''\<rparr>)),
     ckCreate = (\<lambda>s v json. if json = [] then Inr ((demo_checkpoint ''c1'' ''s'' 5 ''h'')\<lparr>cpSnapshotID := ''n''\<rparr>) else Inl []),
     ckMark = (\<lambda>_ _. mark),
     ckEncode = (\<lambda>sh. if sh = twin_Snapshot ''s'' sim_start then Some [] else None),
     ckDecode = (\<lambda>json. if json = [] then Some (twin_Snapshot ''s'' sim_start) else None)\<rparr>"

theorem checkpoint_roundtrip_witness:
  "\<exists>d3 cp. twin_Restore (sim_ck None) ''s'' ''c1'' \<lparr>dtSessions = [], dtEvents = []\<rparr> = (d3, Inr cp)
     \<and> twFaults (ensureSession ''s'' d3) = [sim_fault]"
proof -
  define cp where "cp = (demo_checkpoint ''c1'' ''s'' 5 ''h'')\<lparr>cpSnapshotID := ''n''\<rparr>"
  have "map_prod (\<lambda>d. ensureSession ''s'' d = ensureSession ''s'' sim_start) (\<lambda>x. case x of Inl e \<Rightarrow> False | Inr c \<Rightarrow> c = cp) (Capture (sim_ck None) ''s'' sim_start) = (True, True)"
    unfolding cp_def by code_simp
  then obtain d1 where cap: "Capture (sim_ck None) ''s'' sim_start = (d1, Inr cp)" and same: "ensureSession ''s'' d1 = ensureSession ''s'' sim_start"
    by (cases "Capture (sim_ck None) ''s'' sim_start") (auto split: sum.splits)
  have "(case snd (twin_Restore (sim_ck None) ''s'' ''c1'' \<lparr>dtSessions = [], dtEvents = []\<rparr>) of Inl e \<Rightarrow> False | Inr c \<Rightarrow> c = cp)"
    unfolding cp_def by code_simp
  then obtain d3 where res: "twin_Restore (sim_ck None) ''s'' ''c1'' \<lparr>dtSessions = [], dtEvents = []\<rparr> = (d3, Inr cp)"
    by (cases "twin_Restore (sim_ck None) ''s'' ''c1'' \<lparr>dtSessions = [], dtEvents = []\<rparr>") (auto split: sum.splits)
  have s: "trim_space ''s'' = ''s''" by (simp add: trim_eval)
  have fs: "twFaults (ensureSession ''s'' sim_start) = [sim_fault]" by code_simp
  have se: "ckSession (sim_ck None) (trim_space ''s'') = Inr \<lparr>smSession = sim_row ''s'', smLifecycle = ''ACTIVE''\<rparr>"
    by (simp add: sim_ck_def s)
  have store: "\<forall>sid v json c. ckCreate (sim_ck None) sid v json = Inr c \<longrightarrow> cpTwinState c = json"
    by (auto simp: sim_ck_def demo_checkpoint_def split: if_splits)
  have json: "\<forall>sh json. ckEncode (sim_ck None) sh = Some json \<longrightarrow> ckDecode (sim_ck None) json = Some sh"
    by (auto simp: sim_ck_def split: if_splits)
  obtain se se' where "twin_state ''s'' d1 = Some se" "twin_state ''s'' d3 = Some se'" "mset (twFaults se') = mset (twFaults se)"
    using checkpoint_roundtrip [OF sim_start_reach cap res se se store json] by (auto simp: s sim_row_def)
  then have "mset (twFaults (ensureSession ''s'' d3)) = mset [sim_fault]" using same fs by (simp add: ensureSession_def)
  then have "twFaults (ensureSession ''s'' d3) = [sim_fault]" by simp
  with res show ?thesis by blast
qed

text \<open>
  \<open>Restore\<close> promises to restore the previous state of the twin exactly when the restoration cannot be
  recorded. A session without virtual state has an unbound snapshot, which \<open>restoreSnapshotExact\<close> refuses, so
  the checkpoint stays installed.
\<close>

lemma restore_rollback_fails:
  "(case twin_Restore (sim_ck (Some ''store'')) ''s'' ''c1'' \<lparr>dtSessions = [], dtEvents = []\<rparr> of
      (d, r) \<Rightarrow> (case r of Inl e \<Rightarrow> e = ''store'' | Inr _ \<Rightarrow> False) \<and> twFaults (ensureSession ''s'' d) = [sim_fault])"
  by code_simp

section \<open>Restart and execution\<close>

lemma resolved_row:
  assumes "resolveSession sx req = Inr x"
  shows "\<exists>r \<in> set (tbSessions (sxTables sx)). x = session_of r"
proof -
  have read: "read_session q sid tb = Inr x \<Longrightarrow> \<exists>r \<in> set (tbSessions tb). x = session_of r" for q sid tb
    by (auto simp: read_session_def find_Some_iff split: if_splits option.splits dest: nth_mem)
  show ?thesis using assms
    by (auto simp: resolveSession_def SessionForActionExecution_def SessionForRuntimeSnapshotExecution_def Let_def
        split: if_splits sum.splits list.splits dest: read)
qed

text \<open>
  C26. A restart cuts off every session it closes. Once the reconciliation has reported a count, an execution that is
  resolved to a session that was active before reaches neither a device nor the twin, whatever it asks for, unless the
  session is a rehearsal under internal timecode with an active lifecycle and no running work: the only ones
  that the reconciliation keeps.
\<close>

theorem restart_cuts_executions:
  assumes "distinct (map ssID (tbSessions tb))" and "ReconcileInterruptedRuntimeForHub env tb = (sxTables sx, Some n)"
    and "r0 \<in> set (tbSessions tb)" and "ssStatus r0 = SessionActive"
    and "resolveSession sx req = Inr x" and "sesID x = ssID r0"
    and "\<not> (ssType r0 = SessionRehearsal \<and> ssLifecycle r0 = ''ACTIVE'' \<and> \<not> hasRunningRuntimeWork tb (ssID r0)
      \<and> ClassifyTimecodeAuthority (reJson env) (tbManifests tb (ssSnapshotID r0)) = TimecodeAuthorityInternal)"
  shows "session_Execute sx physical req (d, w)
    = (failed_result ''SESSION_NOT_ACTIVE'' ''authoritative execution session is not active'', d, w)"
proof -
  have "restart_tx env tb = Some (sxTables sx, n)"
    using assms(2) by (auto simp: ReconcileInterruptedRuntimeForHub_def split: option.splits sql.splits)
  note rows = restart_tx_rows [OF assms(1) this]
  obtain r where r: "r \<in> set (tbSessions (sxTables sx))" "x = session_of r" using resolved_row [OF assms(5)] by blast
  then obtain q where q: "q \<in> set (tbSessions tb)" "r = restart_row env tb q" using rows(1) by auto
  have "ssID q = ssID r0" using r(2) q(2) assms(6) by (simp add: session_of_def)
  then have "q = r0" using assms(1,3) q(1) by (simp add: distinct_map inj_on_def)
  obtain e where e: "evidence env tb (view_of tb r0) = Some e" using rows(2) assms(3,4) by blast
  have "rdDisposition (deDecision e) \<noteq> DispositionPreserve"
    using evidence_decision(1) [OF e] assms(7) by (auto simp: view_of_def)
  then have "ssStatus r \<noteq> SessionActive"
    using q(2) \<open>q = r0\<close> assms(4) e by (simp add: restart_row_def outcome_row_active)
  then have "sesStatus x \<noteq> SessionActive" using r(2) by (simp add: session_of_def)
  moreover have "\<not> (trim_space (crExecutionID req) = [] \<and> trim_space (crRuntimeSnapshotID req) = [])"
    using assms(5) by (auto simp: resolveSession_def Let_def)
  ultimately show ?thesis using assms(5) by (auto simp: session_Execute_def)
qed

theorem restart_cuts_executions_witness:
  "session_Execute (sim_session_env\<lparr>sxTables := demo_after\<rparr>) live_output ((sim_request ''t'')\<lparr>crExecutionID := ''a1''\<rparr>) (sim_start, 0)
    = (failed_result ''SESSION_NOT_ACTIVE'' ''authoritative execution session is not active'', sim_start, 0)"
proof -
  let ?sx = "sim_session_env\<lparr>sxTables := demo_after\<rparr>" and ?req = "(sim_request ''t'')\<lparr>crExecutionID := ''a1''\<rparr>"
  have ids: "distinct (map ssID (tbSessions demo_tables))" by code_simp
  have "snd (ReconcileInterruptedRuntimeForHub demo_restart demo_tables) = Some 2" by code_simp
  then have tx: "ReconcileInterruptedRuntimeForHub demo_restart demo_tables = (sxTables ?sx, Some 2)"
    by (simp add: demo_after_def prod_eq_iff)
  have row: "demo_session ''show'' SessionShow 2 \<in> set (tbSessions demo_tables)" "ssStatus (demo_session ''show'' SessionShow 2) = SessionActive"
      "ssType (demo_session ''show'' SessionShow 2) = SessionShow"
    by (simp_all add: demo_tables_def demo_session_def)
  have "(case resolveSession ?sx ?req of Inl e \<Rightarrow> False | Inr x \<Rightarrow> sesID x = ''show'')" by code_simp
  then obtain x where x: "resolveSession ?sx ?req = Inr x" "sesID x = ssID (demo_session ''show'' SessionShow 2)"
    by (auto split: sum.splits simp: demo_session_def)
  show ?thesis by (rule restart_cuts_executions [OF ids tx row(1,2) x]) (simp add: row(3))
qed

end
