(* ===== verification/DeviceCommands.thy ===== *)
theory DeviceCommands
  imports StageLaser RuntimeControl Firmware
begin

text \<open>
  Commands to stage devices: their rows (\<open>internal/deviceexperience/command.go\<close>), the connections that carry them
  (\<open>internal/devicechannel/runtime.go\<close>), the assignment of a tablet to a project and its runtime snapshot
  (\<open>tablet_assignment.go\<close> of both packages) and the executor through which a cue reaches a device
  (\<open>forwarder.go\<close>). Statements and critical sections are atomic actions of goroutines. The inventory of devices
  does not change; the canonical form of payloads, the audits that lighting and laser commands need, JSON and
  identifiers are parameters.
\<close>

section \<open>Devices and commands\<close>

definition ProtocolVersion1 :: string where "ProtocolVersion1 = ''stagecore.device/1''"

definition TabletPlayerProfileID :: string where "TabletPlayerProfileID = ''stagecore.tablet-player''"

definition LightingProfileID :: string where "LightingProfileID = ''stagecore.esp32-dmx-lighting-node''"

definition StageLaserProfileID :: string where "StageLaserProfileID = ''stagecore.esp32-stagelaser''"

definition commandCapability :: "(string \<times> string) list" where
  "commandCapability =
    [(''TABLET_PREPARE'', ''tablet.media.prepare''), (''TABLET_PLAY'', ''tablet.media.play''),
     (''TABLET_PAUSE'', ''tablet.media.pause''), (''TABLET_STOP'', ''tablet.media.stop''),
     (''TABLET_BLACKOUT'', ''tablet.media.blackout''), (''TABLET_SELECT_MEDIA'', ''tablet.media.select''),
     (''DISPLAY_MESSAGE'', ''display.message.show''), (''DISPLAY_COUNTDOWN'', ''display.countdown.show''),
     (''DISPLAY_ALERT'', ''display.alert.show''), (''DISPLAY_CLEAR'', ''display.clear''),
     (''DISPLAY_BLACKOUT'', ''display.blackout''), (''DISPLAY_CHIME'', ''display.chime.play''),
     (''VIDEO_SOURCE_OPEN'', ''video.source.open''), (''VIDEO_SOURCE_CLOSE'', ''video.source.close''),
     (''VIDEO_SOURCE_SELECT'', ''video.source.select''), (''VIDEO_SOURCE_ROUTE'', ''video.source.route''),
     (''VIDEO_SOURCE_INSPECT'', ''video.source.inspect''),
     (''LIGHTING_CHANNELS_SET'', ''lighting.channels.set''), (''LIGHTING_CHANNELS_FADE'', ''lighting.channels.fade''),
     (''LIGHTING_BLACKOUT'', ''lighting.blackout''), (''LIGHTING_STATE_READ'', ''lighting.state.read''),
     (''LIGHTING_IDENTIFY'', ''lighting.identify''), (''LIGHTING_CONFIG_READ'', ''lighting.config.read''),
     (''LIGHTING_CONFIG_APPLY'', ''lighting.config.apply''),
     (CommandArm, CapabilityArm), (CommandDisarm, CapabilityDisarm), (CommandSetOn, CapabilityStateSet),
     (CommandSetOff, CapabilityStateSet), (CommandFlashStart, CapabilityFlashStart), (CommandFlashStop, CapabilityFlashStop),
     (CommandSafeOff, CapabilitySafeOff), (CommandStateRead, CapabilityStateRead), (CommandStateResync, CapabilityStateResync),
     (''TABLET_BLACKOUT_CLEAR'', ''tablet.media.blackout.clear''), (''TABLET_OVERLAY_PLAY'', ''tablet.media.overlay.play''),
     (''TABLET_OVERLAY_CLEAR'', ''tablet.media.overlay.clear''), (''TABLET_LIVE_SHOW'', ''tablet.media.live.show''),
     (''TABLET_LIVE_HIDE'', ''tablet.media.live.hide''), (''TABLET_BRIGHTNESS_SET'', ''tablet.settings.brightness.set''),
     (''TABLET_SHOW_MODE_SET'', ''tablet.settings.show_mode.set''),
     (''TABLET_VIDEO_SCALE_SET'', ''tablet.settings.video_scale.set''),
     (''TABLET_ORIENTATION_SET'', ''tablet.settings.orientation.set''),
     (''TABLET_LIVE_ROTATION_SET'', ''tablet.settings.live_rotation.set'')]"

definition RequiredCapability :: "string \<Rightarrow> string" where
  "RequiredCapability ty = (case map_of commandCapability ty of None \<Rightarrow> [] | Some c \<Rightarrow> c)"

definition CommandTypeForCapability :: "string \<Rightarrow> string" where
  "CommandTypeForCapability capability =
     (let cap = trim_space capability in
      if cap = CapabilityStateSet then []
      else case find (\<lambda>p. snd p = cap) commandCapability of None \<Rightarrow> [] | Some p \<Rightarrow> fst p)"

definition CommandTypeForCueCapability :: "string \<Rightarrow> string" where
  "CommandTypeForCueCapability capability =
     (let cap = trim_space capability in
      if cap \<in> set [''lighting.state.read'', ''lighting.identify'', ''lighting.config.read'', ''lighting.config.apply'',
           CapabilityStateRead, CapabilityStateResync, CapabilityStateSet] then []
      else CommandTypeForCapability cap)"

datatype DeviceKind = DeviceTabletPlayer | DeviceStageDisplay | DeviceRenderNode | DeviceGeneric

text \<open>A device of the inventory; \<open>[]\<close> is no project and no profile.\<close>

record StageDevice =
  dvKind :: DeviceKind
  dvProfile :: string
  dvProtocol :: string
  dvProject :: string
  dvCapabilities :: "string list"
  dvEnabled :: bool

record AssignmentRecord =
  asProjectID :: string
  asSnapshotID :: string
  asEpoch :: int
  asState :: string

record CreateCommandInput =
  ciProjectID :: string
  ciSessionID :: string
  ciDeviceID :: string
  ciCommandType :: string
  ciIssuer :: string
  ciCorrelationID :: string
  ciCausationID :: string
  ciSnapshotID :: string
  ciPriority :: string
  ciIdempotencyKey :: string
  ciPayload :: string
  ciDeadlineAt :: "time option"

text \<open>
  A row of the table. The last two fields are not stored: the goroutine that inserted the row and the statuses
  that were written to it.
\<close>

record DeviceCommand =
  dcEnvelope :: CommandEnvelope
  dcSessionID :: string
  dcDeviceID :: string
  dcStatus :: CommandStatus
  dcResult :: string
  dcCompletedUS :: "int option"
  dcOwner :: nat
  dcTrail :: "CommandStatus list"

abbreviation command_id :: "DeviceCommand \<Rightarrow> string" where "command_id c \<equiv> ceCommandID (dcEnvelope c)"

abbreviation dc_key :: "DeviceCommand \<Rightarrow> string" where "dc_key c \<equiv> ceIdempotencyKey (dcEnvelope c)"

datatype dx_error =
    ErrInvalidState string | ErrInvalidDevice string | ErrCapabilityMissing | ErrCommandExpired | ErrNoRows | ErrOtherDx string

definition terminalDeviceCommand :: "CommandStatus \<Rightarrow> bool" where
  "terminalDeviceCommand st \<longleftrightarrow> st \<noteq> CommandAccepted"

definition commandResultEventType :: "CommandStatus \<Rightarrow> string" where
  "commandResultEventType st =
     (case st of
        CommandCompleted \<Rightarrow> ''stage_device.command.completed''
      | CommandTimedOut \<Rightarrow> ''stage_device.command.timed_out''
      | CommandCancelled \<Rightarrow> ''stage_device.command.cancelled''
      | CommandRejected \<Rightarrow> ''stage_device.command.rejected''
      | _ \<Rightarrow> ''stage_device.command.failed'')"

section \<open>The state\<close>

text \<open>A connection, named by the goroutine that serves it, and what it is authorised for.\<close>

record DevConn =
  vcServe :: nat
  vcDevice :: string
  vcProtocol :: string
  vcCaps :: "string list"
  vcGeneration :: int

record ConnScope =
  scProjectID :: string
  scSnapshotID :: string
  scEpoch :: int
  scEnabled :: bool

record TabletAck =
  taAssignmentID :: string
  taDeviceID :: string
  taEpoch :: int
  taGeneration :: int
  taChallenge :: string
  taSafeMedia :: bool

record pendingTabletAssignment =
  paConnection :: nat
  paAssignmentID :: string
  paAck :: "TabletAck option"

text \<open>What happened on the sockets: a command is bound to a connection, goes out on it, or is reported by it.\<close>

datatype wire = WBound string nat | WSent string nat | WReport string nat CommandStatus

text \<open>
  \<open>dxWriter\<close> is the holder of \<open>commandResultMu\<close> with the command whose status it has written. \<open>dxRegistered\<close>,
  \<open>dxWire\<close> and \<open>dxEver\<close> are histories; the last one has the device and idempotency key of every identifier that was
  ever in the table. Identifiers are random, so one that was used is not drawn again: the insert refuses it.
\<close>

record dx_state =
  dxRows :: "DeviceCommand list"
  dxEver :: "string \<Rightarrow> (string \<times> string) option"
  dxEvents :: "(string \<times> string) list"
  dxWriter :: "(nat \<times> string option) option"
  dxAssign :: "string \<Rightarrow> AssignmentRecord option"
  dxConns :: "(string \<times> DevConn) list"
  dxScope :: "nat \<Rightarrow> ConnScope"
  dxInflight :: "(string \<times> nat) list"
  dxTransition :: "string \<Rightarrow> bool"
  dxPending :: "string \<Rightarrow> pendingTabletAssignment option"
  dxSequence :: int
  dxNext :: int
  dxClosed :: bool
  dxShut :: "nat \<Rightarrow> bool"
  dxRegistered :: "nat \<Rightarrow> DevConn option"
  dxWire :: "wire list"

text \<open>A status that is not one of the constants is \<open>None\<close>.\<close>

datatype dx_message =
    MsgResult string "CommandStatus option" string
  | MsgTabletAck TabletAck
  | MsgScopeAck string string int int
  | MsgIgnored

record DeviceSnapshotRow =
  rsID :: string
  rsProjectID :: string
  rsPublished :: bool
  rsManifest :: string

record dx_input =
  xiSql :: sql
  xiNow :: time
  xiID :: "string option"
  xiAuthority :: "dx_error option"
  xiErr :: "string option"
  xiOk :: bool
  xiMessage :: "dx_message option"
  xiSnapshot :: "DeviceSnapshotRow option"
  xiSession :: "Session option"
  xiShow :: "string \<Rightarrow> bool"
  xiCtx :: "ctx_err option"
  xiDeadline :: "time option"

text \<open>
  \<open>deState\<close> reads the single field of a laser state action, \<open>deTargetDevice\<close> the device of a target, \<open>deLighting\<close>
  resolves the payload of a lighting cue and \<open>deError\<close> reads the error of a stored result.
\<close>

record dx_env =
  deDevice :: "string \<Rightarrow> StageDevice option"
  deEvents :: bool
  dePayload :: "string \<Rightarrow> string \<Rightarrow> time \<Rightarrow> string option"
  deState :: "string \<Rightarrow> string option"
  deTargetDevice :: "string \<Rightarrow> string option"
  deLighting :: "string \<Rightarrow> string \<Rightarrow> string \<Rightarrow> string \<Rightarrow> string + string"
  deEncode :: "CommandResult \<Rightarrow> string"
  deError :: "string \<Rightarrow> ContractError option"

text \<open>\<open>XSend\<close> is the moment a command goes out on a connection, \<open>XReturn\<close> the one an execution has its result.\<close>

datatype dx_label = XStep | XSend string nat | XReturn string CapResult

datatype dx_result = DxDone | DxCommand "dx_error + DeviceCommand" | DxResult CapResult | DxAssigned "string option"

type_synonym dx_prog = "(dx_state, dx_input, dx_label, dx_result) prog"

section \<open>The table of commands\<close>

definition dx_GetDevice :: "dx_env \<Rightarrow> string \<Rightarrow> dx_input \<Rightarrow> dx_state \<Rightarrow> dx_state \<times> (dx_error + StageDevice)" where
  "dx_GetDevice env dev i s =
     (s, if xiSql i \<noteq> SqlOk then Inl (ErrOtherDx ''get stage device'')
         else case deDevice env (trim_space dev) of
           None \<Rightarrow> Inl ErrNoRows
         | Some d \<Rightarrow>
           if dvProtocol d = ProtocolVersion2 \<and> dxAssign s (trim_space dev) = None
           then Inl (ErrOtherDx ''read v2 device assignment'') else Inr d)"

definition GetAssignmentRecord :: "string \<Rightarrow> dx_input \<Rightarrow> dx_state \<Rightarrow> dx_state \<times> (dx_error + AssignmentRecord)" where
  "GetAssignmentRecord dev i s =
     (s, if trim_space dev = [] then Inl (ErrInvalidDevice [])
         else if xiSql i \<noteq> SqlOk then Inl (ErrOtherDx ''read Stage Device assignment metadata'')
         else case dxAssign s (trim_space dev) of
           None \<Rightarrow> Inl (ErrOtherDx ''read Stage Device assignment metadata'') | Some a \<Rightarrow> Inr a)"

text \<open>Reads take \<open>commandResultMu\<close>, so they wait while a result is being written.\<close>

definition get_command :: "string \<Rightarrow> dx_input \<Rightarrow> dx_state \<Rightarrow> dx_error + DeviceCommand" where
  "get_command cid i s =
     (if xiSql i \<noteq> SqlOk then Inl (ErrOtherDx ''scan stage device command'')
      else case find (\<lambda>r. command_id r = trim_space cid) (dxRows s) of None \<Rightarrow> Inl ErrNoRows | Some r \<Rightarrow> Inr r)"

definition GetCommand :: "string \<Rightarrow> dx_input \<Rightarrow> dx_state \<Rightarrow> (dx_state \<times> (dx_error + DeviceCommand)) option" where
  "GetCommand cid i s = (if dxWriter s \<noteq> None then None else Some (s, get_command cid i s))"

definition getCommandByIdempotency :: "string \<Rightarrow> string \<Rightarrow> dx_input \<Rightarrow> dx_state \<Rightarrow> (dx_state \<times> (dx_error + DeviceCommand)) option" where
  "getCommandByIdempotency dev key i s =
     (if dxWriter s \<noteq> None then None
      else Some (s, if xiSql i \<noteq> SqlOk then Inl (ErrOtherDx ''scan stage device command'')
             else case find (\<lambda>r. dcDeviceID r = dev \<and> dc_key r = key) (dxRows s) of None \<Rightarrow> Inl ErrNoRows | Some r \<Rightarrow> Inr r))"

text \<open>The trigger in front of the table: the device is assigned to the project and snapshot of the command.\<close>

definition insert_guard :: "dx_env \<Rightarrow> string \<Rightarrow> string \<Rightarrow> string \<Rightarrow> dx_state \<Rightarrow> bool" where
  "insert_guard env dev project snap s \<longleftrightarrow>
     (case (deDevice env dev, dxAssign s dev) of
        (Some d, Some a) \<Rightarrow>
          dvEnabled d
          \<and> (dvProtocol d = ProtocolVersion1 \<and> asState a = ''LEGACY'' \<and> asProjectID a = project \<and> dvProject d = project
             \<or> dvProtocol d = ProtocolVersion2 \<and> dvProject d = []
               \<and> (dvKind d = DeviceTabletPlayer \<and> dvProfile d = TabletPlayerProfileID
                  \<or> dvProfile d = LightingProfileID
                  \<or> dvKind d = DeviceGeneric \<and> dvProfile d = StageLaserProfileID)
               \<and> asState a = ''ACTIVE'' \<and> asProjectID a = project \<and> asSnapshotID a \<noteq> [] \<and> asSnapshotID a = snap)
      | _ \<Rightarrow> False)"

text \<open>For lighting nodes and lasers the trigger also wants an audit row; \<open>xiOk\<close> says whether there is one.\<close>

definition audited :: "dx_env \<Rightarrow> string \<Rightarrow> dx_input \<Rightarrow> bool" where
  "audited env dev i \<longleftrightarrow>
     (case deDevice env dev of None \<Rightarrow> True
      | Some d \<Rightarrow> dvProtocol d = ProtocolVersion2 \<longrightarrow> dvProfile d \<in> {LightingProfileID, StageLaserProfileID} \<longrightarrow> xiOk i)"

definition insert_device_command :: "dx_env \<Rightarrow> DeviceCommand \<Rightarrow> dx_input \<Rightarrow> dx_state \<Rightarrow> dx_state \<times> bool" where
  "insert_device_command env c i s =
     (if xiSql i = SqlFail \<or> dxEver s (command_id c) \<noteq> None
         \<or> dc_key c \<noteq> [] \<and> (\<exists>r \<in> set (dxRows s). dcDeviceID r = dcDeviceID c \<and> dc_key r = dc_key c)
         \<or> \<not> insert_guard env (dcDeviceID c) (ceProjectID (dcEnvelope c)) (ceRuntimeSnapshotID (dcEnvelope c)) s \<or> \<not> audited env (dcDeviceID c) i
      then (s, False)
      else (s\<lparr>dxRows := dxRows s @ [c], dxEver := (dxEver s)(command_id c \<mapsto> (dcDeviceID c, dc_key c))\<rparr>, xiSql i \<noteq> SqlReplyLost))"

definition delete_command :: "string \<Rightarrow> dx_input \<Rightarrow> dx_state \<Rightarrow> dx_state \<times> unit" where
  "delete_command cid i s =
     (if xiSql i = SqlFail then (s, ())
      else (s\<lparr>dxRows := filter (\<lambda>r. \<not> (command_id r = cid \<and> dcStatus r = CommandAccepted)) (dxRows s)\<rparr>, ()))"

definition recordCommandEvent :: "dx_env \<Rightarrow> string \<Rightarrow> string \<Rightarrow> dx_input \<Rightarrow> dx_state \<Rightarrow> dx_state \<times> bool" where
  "recordCommandEvent env cid ty i s =
     (if \<not> deEvents env then (s, True)
      else if xiSql i = SqlFail then (s, False)
      else (s\<lparr>dxEvents := dxEvents s @ [(cid, ty)]\<rparr>, xiSql i \<noteq> SqlReplyLost))"

definition lighting_command :: "string \<Rightarrow> bool" where
  "lighting_command ty \<longleftrightarrow> ty \<in> set [''LIGHTING_CHANNELS_SET'', ''LIGHTING_CHANNELS_FADE'', ''LIGHTING_BLACKOUT'', ''LIGHTING_STATE_READ'',
     ''LIGHTING_IDENTIFY'', ''LIGHTING_CONFIG_READ'', ''LIGHTING_CONFIG_APPLY'']"

text \<open>The profile a lighting or laser command needs; \<open>xiAuthority\<close> is the outcome of the reads that follow.\<close>

definition validateCommandAuthority :: "CreateCommandInput \<Rightarrow> StageDevice \<Rightarrow> dx_input \<Rightarrow> dx_state \<Rightarrow> dx_state \<times> dx_error option" where
  "validateCommandAuthority input d i s =
     (s, if lighting_command (ciCommandType input)
         then (if trim_space (dvProfile d) \<noteq> LightingProfileID then Some (ErrInvalidDevice ''lighting commands require profile'')
               else xiAuthority i)
         else if CommandCapability (ciCommandType input) \<noteq> []
         then (if dvProtocol d \<noteq> ProtocolVersion2 \<or> dvKind d \<noteq> DeviceGeneric \<or> trim_space (dvProfile d) \<noteq> StageLaserProfileID
               then Some (ErrInvalidDevice ''StageLaser commands require authenticated v2 profile'') else xiAuthority i)
         else None)"

definition trimmed :: "CreateCommandInput \<Rightarrow> CreateCommandInput" where
  "trimmed c = c\<lparr>ciProjectID := trim_space (ciProjectID c), ciSessionID := trim_space (ciSessionID c),
     ciDeviceID := trim_space (ciDeviceID c), ciCommandType := trim_space (ciCommandType c), ciIssuer := trim_space (ciIssuer c),
     ciCorrelationID := trim_space (ciCorrelationID c), ciCausationID := trim_space (ciCausationID c),
     ciSnapshotID := trim_space (ciSnapshotID c), ciPriority := trim_space (ciPriority c),
     ciIdempotencyKey := trim_space (ciIdempotencyKey c)\<rparr>"

definition assignment_error :: "StageDevice \<Rightarrow> AssignmentRecord \<Rightarrow> CreateCommandInput \<Rightarrow> dx_error option" where
  "assignment_error d a input =
     (if dvProtocol d = ProtocolVersion1
      then (if dvProject d = [] \<or> dvProject d \<noteq> ciProjectID input
            then Some (ErrInvalidDevice ''device is unassigned or belongs to another project'')
            else if asState a \<noteq> ''LEGACY'' \<or> asProjectID a \<noteq> ciProjectID input
            then Some (ErrInvalidState ''legacy commands fenced by assignment state'') else None)
      else if dvProtocol d = ProtocolVersion2
      then (if dvProject d \<noteq> []
               \<or> \<not> (dvKind d = DeviceTabletPlayer \<and> dvProfile d = TabletPlayerProfileID \<or> dvProfile d = LightingProfileID
                    \<or> dvKind d = DeviceGeneric \<and> dvProfile d = StageLaserProfileID)
               \<or> asState a \<noteq> ''ACTIVE'' \<or> asProjectID a \<noteq> ciProjectID input
               \<or> asSnapshotID a = [] \<or> asSnapshotID a \<noteq> ciSnapshotID input
            then Some (ErrInvalidState ''v2 Stage Device is not ACTIVE for this Project/Runtime Snapshot'') else None)
      else Some (ErrInvalidState ''unsupported Stage Device protocol''))"

definition new_device_command :: "nat \<Rightarrow> CreateCommandInput \<Rightarrow> string \<Rightarrow> string \<Rightarrow> time \<Rightarrow> DeviceCommand" where
  "new_device_command t input cid payload now =
     \<lparr>dcEnvelope = \<lparr>ceCommandID = cid, ceCommandType = ciCommandType input, ceSchemaVersion = SchemaVersion1, ceIssuedAt = now,
        ceDeadlineAt = ciDeadlineAt input, ceProjectID = ciProjectID input, ceRuntimeSnapshotID = ciSnapshotID input,
        ceIssuer = ciIssuer input, ceCorrelationID = ciCorrelationID input, ceCausationID = ciCausationID input,
        cePriority = (if ciPriority input = [] then ''P1'' else ciPriority input), ceIdempotencyKey = ciIdempotencyKey input,
        cePayload = payload\<rparr>,
      dcSessionID = ciSessionID input, dcDeviceID = ciDeviceID input, dcStatus = CommandAccepted, dcResult = [],
      dcCompletedUS = None, dcOwner = t, dcTrail = []\<rparr>"

text \<open>The insert of a command, with the lookup of the one that was there first; the flag says that the command existed.\<close>

definition store_command :: "dx_env \<Rightarrow> CreateCommandInput \<Rightarrow> DeviceCommand \<Rightarrow> (dx_error + DeviceCommand \<times> bool \<Rightarrow> dx_prog) \<Rightarrow> dx_prog" where
  "store_command env input c k =
     act XStep (insert_device_command env c) (\<lambda>inserted.
     if \<not> inserted
     then (if ciIdempotencyKey input = [] then k (Inl (ErrOtherDx ''create stage device command''))
           else await XStep (getCommandByIdempotency (ciDeviceID input) (ciIdempotencyKey input)) (\<lambda>r.
             case r of Inr x \<Rightarrow> k (Inr (x, True)) | Inl _ \<Rightarrow> k (Inl (ErrOtherDx ''create stage device command''))))
     else act XStep (recordCommandEvent env (command_id c) ''stage_device.command.accepted'') (\<lambda>recorded.
       if recorded then k (Inr (c, False))
       else act XStep (delete_command (command_id c)) (\<lambda>_. k (Inl (ErrOtherDx ''record stage device command accepted event'')))))"

text \<open>The part of \<open>CreateCommand\<close> after the lookup by idempotency key.\<close>

definition create_fresh :: "dx_env \<Rightarrow> nat \<Rightarrow> CreateCommandInput \<Rightarrow> StageDevice \<Rightarrow> time
    \<Rightarrow> (dx_error + DeviceCommand \<times> bool \<Rightarrow> dx_prog) \<Rightarrow> dx_prog" where
  "create_fresh env t input d now k =
     (case dePayload env (ciCommandType input) (ciPayload input) now of
        None \<Rightarrow> k (Inl (ErrInvalidState ''command payload''))
      | Some payload \<Rightarrow>
        act XStep (validateCommandAuthority input d) (\<lambda>e.
        case e of Some e \<Rightarrow> k (Inl e) | None \<Rightarrow>
        act XStep (\<lambda>i s. (s, map_option trim_space (xiID i))) (\<lambda>cid.
        case cid of None \<Rightarrow> k (Inl (ErrOtherDx ''new command id''))
        | Some cid \<Rightarrow> store_command env input (new_device_command t input cid payload now) k)))"

definition CreateCommand :: "dx_env \<Rightarrow> nat \<Rightarrow> CreateCommandInput \<Rightarrow> (dx_error + DeviceCommand \<times> bool \<Rightarrow> dx_prog) \<Rightarrow> dx_prog" where
  "CreateCommand env t raw k =
     (let input = trimmed raw; dev = ciDeviceID input; key = ciIdempotencyKey input; cap = RequiredCapability (ciCommandType input) in
      if ciProjectID input = [] \<or> dev = [] \<or> ciCommandType input = [] \<or> ciIssuer input = []
      then k (Inl (ErrInvalidState ''project, device, command type and issuer are required''))
      else if cap = [] then k (Inl (ErrInvalidState ''unsupported command type''))
      else act XStep (dx_GetDevice env dev) (\<lambda>got.
        case got of Inl e \<Rightarrow> k (Inl e) | Inr d \<Rightarrow>
        if \<not> dvEnabled d then k (Inl (ErrInvalidDevice ''device is disabled''))
        else act XStep (GetAssignmentRecord dev) (\<lambda>asg.
          case asg of Inl _ \<Rightarrow> k (Inl (ErrInvalidState ''assignment metadata unavailable'')) | Inr a \<Rightarrow>
          case assignment_error d a input of Some e \<Rightarrow> k (Inl e) | None \<Rightarrow>
          if cap \<notin> set (dvCapabilities d) then k (Inl ErrCapabilityMissing)
          else act XStep (\<lambda>i s. (s, xiNow i)) (\<lambda>now.
            if (case ciDeadlineAt input of None \<Rightarrow> False | Some deadline \<Rightarrow> \<not> deadline > now) then k (Inl ErrCommandExpired)
            else if key = [] then create_fresh env t input d now k
            else await XStep (getCommandByIdempotency dev key) (\<lambda>r.
              case r of
                Inr x \<Rightarrow> k (Inr (x, True))
              | Inl e \<Rightarrow> if e = ErrNoRows then create_fresh env t input d now k else k (Inl e))))))"

section \<open>Results\<close>

text \<open>The UPDATE of \<open>CompleteCommand\<close> and the one that takes it back; \<open>dxWriter\<close> remembers what was written.\<close>

definition write_result :: "nat \<Rightarrow> string \<Rightarrow> CommandStatus \<Rightarrow> string \<Rightarrow> dx_input \<Rightarrow> dx_state \<Rightarrow> dx_state \<times> (dx_error + nat \<times> int)" where
  "write_result t cid st result i s =
     (let now = unix_micro (xiNow i); hit = (\<lambda>r. command_id r = cid \<and> dcStatus r = CommandAccepted) in
      if xiSql i = SqlFail then (s, Inl (ErrOtherDx ''complete stage device command''))
      else (s\<lparr>dxRows := map (\<lambda>r. if hit r then r\<lparr>dcStatus := st, dcResult := result, dcCompletedUS := Some now, dcTrail := dcTrail r @ [st]\<rparr> else r) (dxRows s),
              dxWriter := (if filter hit (dxRows s) = [] then dxWriter s else Some (t, Some cid))\<rparr>,
            if xiSql i = SqlReplyLost then Inl (ErrOtherDx ''complete stage device command'') else Inr (length (filter hit (dxRows s)), now)))"

definition take_back :: "string \<Rightarrow> CommandStatus \<Rightarrow> int \<Rightarrow> dx_input \<Rightarrow> dx_state \<Rightarrow> dx_state \<times> bool" where
  "take_back cid st now i s =
     (if xiSql i = SqlFail then (s, False)
      else (s\<lparr>dxRows := map (\<lambda>r. if command_id r = cid \<and> dcStatus r = st \<and> dcCompletedUS r = Some now
                    then r\<lparr>dcStatus := CommandAccepted, dcResult := [], dcCompletedUS := None\<rparr> else r) (dxRows s)\<rparr>,
            xiSql i \<noteq> SqlReplyLost))"

definition lock_results :: "nat \<Rightarrow> dx_input \<Rightarrow> dx_state \<Rightarrow> (dx_state \<times> unit) option" where
  "lock_results t i s = (if dxWriter s \<noteq> None then None else Some (s\<lparr>dxWriter := Some (t, None)\<rparr>, ()))"

definition unlock_results :: "dx_input \<Rightarrow> dx_state \<Rightarrow> dx_state \<times> unit" where
  "unlock_results i s = (s\<lparr>dxWriter := None\<rparr>, ())"

text \<open>The part of \<open>CompleteCommand\<close> after the row has been read again; \<open>n\<close> rows were written.\<close>

definition complete_tail :: "dx_env \<Rightarrow> string \<Rightarrow> CommandStatus \<Rightarrow> nat \<Rightarrow> int \<Rightarrow> DeviceCommand \<Rightarrow> (dx_error + DeviceCommand \<Rightarrow> dx_prog) \<Rightarrow> dx_prog" where
  "complete_tail env cid st n now c leave =
     (if n = 0 then leave (if terminalDeviceCommand (dcStatus c) then Inr c else Inl (ErrInvalidState []))
      else act XStep (recordCommandEvent env cid (commandResultEventType st)) (\<lambda>recorded.
        if \<not> recorded
        then act XStep (take_back cid st now) (\<lambda>_. leave (Inl (ErrOtherDx ''record stage device command result event'')))
        else if st = CommandCompleted
        then act XStep (\<lambda>i s. (s, xiErr i)) (\<lambda>e. leave (case e of None \<Rightarrow> Inr c | Some x \<Rightarrow> Inl (ErrOtherDx x)))
        else leave (Inr c)))"

definition CompleteCommand :: "dx_env \<Rightarrow> nat \<Rightarrow> string \<Rightarrow> CommandStatus \<Rightarrow> string \<Rightarrow> (dx_error + DeviceCommand \<Rightarrow> dx_prog) \<Rightarrow> dx_prog" where
  "CompleteCommand env t commandID st result k =
     (let cid = trim_space commandID; leave = (\<lambda>a. act XStep unlock_results (\<lambda>_. k a)) in
      if cid = [] \<or> \<not> terminalDeviceCommand st then k (Inl (ErrInvalidState []))
      else await XStep (lock_results t) (\<lambda>_.
        act XStep (write_result t cid st result) (\<lambda>written.
        case written of
          Inl e \<Rightarrow> leave (Inl e)
        | Inr (n, now) \<Rightarrow>
          act XStep (\<lambda>i s. (s, get_command cid i s)) (\<lambda>got.
          case got of
            Inl e \<Rightarrow> leave (Inl e)
          | Inr c \<Rightarrow> complete_tail env cid st n now c leave))))"

definition command_result :: "dx_env \<Rightarrow> string \<Rightarrow> CommandStatus \<Rightarrow> string \<Rightarrow> string \<Rightarrow> string \<Rightarrow> bool \<Rightarrow> string \<Rightarrow> string" where
  "command_result env cid st code category message retryable dev =
     deEncode env \<lparr>resCommandID = cid, resStatus = st, resPayload = [],
       resError = Some \<lparr>errCode = code, errCategory = category, errMessage = message, errRetryable = retryable, errAffectedEntityID = dev\<rparr>\<rparr>"

definition failCommand :: "dx_env \<Rightarrow> nat \<Rightarrow> DeviceCommand \<Rightarrow> string \<Rightarrow> string \<Rightarrow> (dx_error + DeviceCommand \<Rightarrow> dx_prog) \<Rightarrow> dx_prog" where
  "failCommand env t c code message k =
     CompleteCommand env t (command_id c) CommandFailed
       (command_result env (command_id c) CommandFailed code ''TRANSPORT'' message True (dcDeviceID c)) k"

definition failInterruptedCommand :: "dx_env \<Rightarrow> nat \<Rightarrow> string \<Rightarrow> string \<Rightarrow> dx_prog \<Rightarrow> dx_prog" where
  "failInterruptedCommand env t cid dev k =
     CompleteCommand env t cid CommandFailed
       (command_result env cid CommandFailed ''DEVICE_EXECUTION_INTERRUPTED'' ''TRANSPORT''
          ''Stage Device connection ended before a terminal command result'' False dev) (\<lambda>_. k)"

section \<open>Dispatch\<close>

text \<open>The critical section that binds a command to the connection of its device, or says why it cannot.\<close>

definition bind_command :: "DeviceCommand \<Rightarrow> string \<Rightarrow> dx_input \<Rightarrow> dx_state \<Rightarrow> dx_state \<times> (string \<times> string + DevConn)" where
  "bind_command c cap i s =
     (case map_of (dxConns s) (dcDeviceID c) of
        None \<Rightarrow> (s, Inl (''DEVICE_OFFLINE'', ''Stage Device is not connected''))
      | Some cn \<Rightarrow>
        let v2 = (vcProtocol cn = ProtocolVersion2); sc = dxScope s (vcServe cn) in
        if dxClosed s then (s, Inl (''DEVICE_OFFLINE'', ''Stage Device is not connected''))
        else if dxTransition s (dcDeviceID c) then (s, Inl (''DEVICE_ASSIGNMENT_TRANSITION'', ''Stage Device assignment is changing''))
        else if v2 \<and> \<not> (scEnabled sc \<and> scProjectID sc = ceProjectID (dcEnvelope c)
                        \<and> scSnapshotID sc = ceRuntimeSnapshotID (dcEnvelope c) \<and> scEpoch sc > 0)
        then (s, Inl (''DEVICE_SCOPE_NOT_READY'', ''Stage Device has not acknowledged the active Project/Runtime Snapshot''))
        else if v2 \<and> cap \<noteq> [] \<and> cap \<notin> set (vcCaps cn)
        then (s, Inl (''DEVICE_CAPABILITY_MISSING'', ''Current authenticated Stage Device socket did not advertise the required capability''))
        else (s\<lparr>dxInflight := AList.update (command_id c) (vcServe cn) (dxInflight s),
                dxWire := dxWire s @ [WBound (command_id c) (vcServe cn)]\<rparr>, Inr cn))"

definition unbindCommand :: "string \<Rightarrow> nat \<Rightarrow> dx_input \<Rightarrow> dx_state \<Rightarrow> dx_state \<times> unit" where
  "unbindCommand commandID u i s =
     (let cid = trim_space commandID in
      if cid \<noteq> [] \<and> map_of (dxInflight s) cid = Some u then (s\<lparr>dxInflight := AList.delete cid (dxInflight s)\<rparr>, ()) else (s, ()))"

definition commandBoundTo :: "string \<Rightarrow> nat \<Rightarrow> dx_state \<Rightarrow> bool" where
  "commandBoundTo commandID u s \<longleftrightarrow> (let cid = trim_space commandID in cid \<noteq> [] \<and> map_of (dxInflight s) cid = Some u)"

definition close_conn :: "nat \<Rightarrow> dx_input \<Rightarrow> dx_state \<Rightarrow> dx_state \<times> unit" where
  "close_conn u i s = (s\<lparr>dxShut := (dxShut s)(u := True)\<rparr>, ())"

text \<open>A send on an open connection may have reached the device although it fails.\<close>

definition send_command :: "string \<Rightarrow> nat \<Rightarrow> dx_input \<Rightarrow> dx_state \<Rightarrow> dx_state \<times> string option" where
  "send_command cid u i s =
     (if dxShut s u then (s, Some ''stage device connection is closed'')
      else (s\<lparr>dxWire := dxWire s @ [WSent cid u]\<rparr>, xiErr i))"

definition Dispatch :: "dx_env \<Rightarrow> nat \<Rightarrow> CreateCommandInput \<Rightarrow> (dx_error + DeviceCommand \<Rightarrow> dx_prog) \<Rightarrow> dx_prog" where
  "Dispatch env t input k =
     CreateCommand env t input (\<lambda>created.
     case created of
       Inl e \<Rightarrow> k (Inl e)
     | Inr (c, duplicate) \<Rightarrow>
       if duplicate then k (Inr c)
       else act XStep (bind_command c (RequiredCapability (trim_space (ciCommandType input)))) (\<lambda>bound.
         case bound of
           Inl (code, message) \<Rightarrow> failCommand env t c code message k
         | Inr cn \<Rightarrow>
           act (XSend (command_id c) (vcServe cn)) (send_command (command_id c) (vcServe cn)) (\<lambda>failed.
           case failed of
             None \<Rightarrow> k (Inr c)
           | Some e \<Rightarrow>
             act XStep (unbindCommand (command_id c) (vcServe cn)) (\<lambda>_.
             act XStep (close_conn (vcServe cn)) (\<lambda>_. failCommand env t c ''TRANSPORT_SEND_FAILED'' e k)))))"

section \<open>Connections\<close>

definition conn_current :: "DevConn \<Rightarrow> dx_state \<Rightarrow> bool" where
  "conn_current cn s \<longleftrightarrow> \<not> dxClosed s \<and> (case map_of (dxConns s) (vcDevice cn) of None \<Rightarrow> False | Some d \<Rightarrow> vcServe d = vcServe cn)"

text \<open>\<open>register\<close>: the connection with its generation, and the one it displaces.\<close>

definition next_generation :: "DevConn \<Rightarrow> dx_input \<Rightarrow> dx_state \<Rightarrow> dx_state \<times> int option" where
  "next_generation cn i s =
     (if vcProtocol cn = ProtocolVersion2
      then (if xiSql i = SqlFail \<or> \<not> dxSequence s < 9007199254740991 then (s, None)
            else (s\<lparr>dxSequence := dxSequence s + 1\<rparr>,
                  if xiSql i = SqlReplyLost \<or> dxSequence s + 1 \<le> 0 then None else Some (dxSequence s + 1)))
      else if dxNext s = 9223372036854775807 then (s, None)
      else (s\<lparr>dxNext := dxNext s + 1\<rparr>, Some (dxNext s + 1)))"

definition register_conn :: "DevConn \<Rightarrow> dx_input \<Rightarrow> dx_state \<Rightarrow> dx_state \<times> (DevConn \<times> DevConn option) option" where
  "register_conn cn i s =
     (if dxClosed s then (s, None)
      else case next_generation cn i s of
        (s1, None) \<Rightarrow> (s1, None)
      | (s1, Some g) \<Rightarrow>
        let cn' = cn\<lparr>vcGeneration := g\<rparr> in
        (s1\<lparr>dxConns := AList.update (vcDevice cn) cn' (dxConns s1),
            dxScope := (dxScope s1)(vcServe cn := \<lparr>scProjectID = [], scSnapshotID = [], scEpoch = 0, scEnabled = False\<rparr>),
            dxRegistered := (dxRegistered s1)(vcServe cn \<mapsto> cn')\<rparr>, Some (cn', map_of (dxConns s1) (vcDevice cn))))"

definition unregister_section :: "DevConn \<Rightarrow> dx_input \<Rightarrow> dx_state \<Rightarrow> dx_state \<times> string list" where
  "unregister_section cn i s =
     (let mine = (\<lambda>p. snd p = vcServe cn) in
      (s\<lparr>dxConns := (case map_of (dxConns s) (vcDevice cn) of
                        None \<Rightarrow> dxConns s
                      | Some d \<Rightarrow> if vcServe d = vcServe cn then AList.delete (vcDevice cn) (dxConns s) else dxConns s),
         dxInflight := filter (\<lambda>p. \<not> mine p) (dxInflight s)\<rparr>, map fst (filter mine (dxInflight s))))"

definition unregister_dev :: "dx_env \<Rightarrow> nat \<Rightarrow> DevConn \<Rightarrow> dx_prog" where
  "unregister_dev env t cn =
     act XStep (unregister_section cn) (\<lambda>pending.
     act XStep (close_conn (vcServe cn)) (\<lambda>_.
     foldr (\<lambda>cid k. failInterruptedCommand env t cid (vcDevice cn) k) pending (Ret DxDone)))"

definition deliverTabletAssignmentAck :: "DevConn \<Rightarrow> TabletAck \<Rightarrow> dx_input \<Rightarrow> dx_state \<Rightarrow> dx_state \<times> bool" where
  "deliverTabletAssignmentAck cn ack i s =
     (case dxPending s (vcDevice cn) of
        None \<Rightarrow> (s, False)
      | Some p \<Rightarrow>
        if dxClosed s \<or> paConnection p \<noteq> vcServe cn \<or> paAssignmentID p \<noteq> taAssignmentID ack \<or> vcProtocol cn \<noteq> ProtocolVersion2
           \<or> paAck p \<noteq> None
        then (s, False)
        else (s\<lparr>dxPending := (dxPending s)(vcDevice cn \<mapsto> p\<lparr>paAck := Some ack\<rparr>)\<rparr>, True))"

text \<open>The critical section of \<open>activateTabletScope\<close>, after the device was found to be assigned as it says.\<close>

definition grant_scope :: "DevConn \<Rightarrow> string \<Rightarrow> string \<Rightarrow> int \<Rightarrow> dx_input \<Rightarrow> dx_state \<Rightarrow> dx_state \<times> bool" where
  "grant_scope cn project snap epoch i s =
     (if conn_current cn s \<and> \<not> dxTransition s (vcDevice cn) \<and> \<not> dxShut s (vcServe cn)
      then (s\<lparr>dxScope := (dxScope s)(vcServe cn := \<lparr>scProjectID = project, scSnapshotID = snap, scEpoch = epoch, scEnabled = True\<rparr>)\<rparr>, True)
      else (s, False))"

definition activateTabletScope :: "dx_env \<Rightarrow> DevConn \<Rightarrow> string \<Rightarrow> string \<Rightarrow> int \<Rightarrow> int \<Rightarrow> (bool \<Rightarrow> dx_prog) \<Rightarrow> dx_prog" where
  "activateTabletScope env cn project snap epoch g k =
     (if epoch \<le> 0 \<or> g \<noteq> vcGeneration cn \<or> trim_space project = [] \<or> trim_space snap = [] then k False
      else act XStep (\<lambda>i s. (s, case (snd (dx_GetDevice env (vcDevice cn) i s), dxAssign s (vcDevice cn)) of
             (Inr d, Some a) \<Rightarrow>
               dvEnabled d \<and> dvProtocol d = ProtocolVersion2 \<and> dvKind d = DeviceTabletPlayer \<and> dvProfile d = TabletPlayerProfileID
               \<and> asState a = ''ACTIVE'' \<and> asEpoch a = epoch \<and> asProjectID a = trim_space project \<and> asSnapshotID a = trim_space snap
           | _ \<Rightarrow> False)) (\<lambda>assigned.
        if \<not> assigned then k False
        else act XStep (\<lambda>i s. (s, xiOk i)) (\<lambda>observed.
          if \<not> observed then k False
          else act XStep (grant_scope cn project snap epoch) (\<lambda>same.
            if \<not> same then k False
            else act XStep (\<lambda>i s. (s, if dxShut s (vcServe cn) then Some [] else xiErr i)) (\<lambda>failed.
              case failed of None \<Rightarrow> k True | Some e \<Rightarrow> act XStep (close_conn (vcServe cn)) (\<lambda>_. k False))))))"

text \<open>A \<open>command.result\<close>; the answer says whether the connection goes on.\<close>

definition finish_report :: "dx_env \<Rightarrow> nat \<Rightarrow> DevConn \<Rightarrow> string \<Rightarrow> CommandStatus option \<Rightarrow> string \<Rightarrow> (bool \<Rightarrow> dx_prog) \<Rightarrow> dx_prog" where
  "finish_report env t cn cid st payload k =
     (case st of
        None \<Rightarrow> k False
      | Some CommandAccepted \<Rightarrow> k True
      | Some x \<Rightarrow>
        CompleteCommand env t cid x payload (\<lambda>a.
        case a of Inl e \<Rightarrow> k False | Inr c \<Rightarrow> act XStep (unbindCommand cid (vcServe cn)) (\<lambda>_. k True)))"

definition receive_result :: "dx_env \<Rightarrow> nat \<Rightarrow> DevConn \<Rightarrow> string \<Rightarrow> CommandStatus option \<Rightarrow> string \<Rightarrow> (bool \<Rightarrow> dx_prog) \<Rightarrow> dx_prog" where
  "receive_result env t cn cid st payload k =
     act XStep (\<lambda>i s. (s, vcProtocol cn \<noteq> ProtocolVersion2 \<or> conn_current cn s \<and> scEnabled (dxScope s (vcServe cn)))) (\<lambda>allowed.
     if \<not> allowed then k False
     else act XStep (\<lambda>i s. (s, xiOk i)) (\<lambda>valid.
     if \<not> valid then k False
     else act XStep (\<lambda>i s. (s, commandBoundTo cid (vcServe cn) s)) (\<lambda>bound.
     if \<not> bound then k True else finish_report env t cn cid st payload k)))"

text \<open>Receiving a message; the reports of results are part of the history.\<close>

definition receive_message :: "DevConn \<Rightarrow> dx_input \<Rightarrow> dx_state \<Rightarrow> dx_state \<times> dx_message option" where
  "receive_message cn i s =
     (if dxShut s (vcServe cn) then (s, None)
      else case xiMessage i of
        Some (MsgResult cid (Some st) payload) \<Rightarrow>
          (s\<lparr>dxWire := dxWire s @ [WReport (trim_space cid) (vcServe cn) st]\<rparr>, xiMessage i)
      | m \<Rightarrow> (s, m))"

primrec dx_receive :: "nat \<Rightarrow> dx_env \<Rightarrow> nat \<Rightarrow> DevConn \<Rightarrow> dx_prog \<Rightarrow> dx_prog" where
  "dx_receive 0 env t cn k = k"
| "dx_receive (Suc n) env t cn k =
     (let continue = (\<lambda>go. if go then dx_receive n env t cn k else k) in
      act XStep (receive_message cn) (\<lambda>m.
      case m of
        None \<Rightarrow> k
      | Some MsgIgnored \<Rightarrow> continue True
      | Some (MsgResult cid st payload) \<Rightarrow> receive_result env t cn cid st payload continue
      | Some (MsgTabletAck ack) \<Rightarrow>
        if vcProtocol cn \<noteq> ProtocolVersion2 then k
        else act XStep (\<lambda>i s. (s, xiOk i)) (\<lambda>valid. if \<not> valid then k else act XStep (deliverTabletAssignmentAck cn ack) continue)
      | Some (MsgScopeAck project snap epoch g) \<Rightarrow>
        if vcProtocol cn \<noteq> ProtocolVersion2 then k
        else act XStep (\<lambda>i s. (s, xiOk i)) (\<lambda>valid. if \<not> valid then k else activateTabletScope env cn project snap epoch g continue)))"

text \<open>A connection once its hello is accepted and its device is in the inventory; the last gate stands for the state sent back.\<close>

definition serve_device :: "dx_env \<Rightarrow> nat \<Rightarrow> nat \<Rightarrow> DevConn \<Rightarrow> dx_prog" where
  "serve_device env n t cn0 =
     act XStep (register_conn cn0) (\<lambda>registered.
     case registered of
       None \<Rightarrow> act XStep (close_conn (vcServe cn0)) (\<lambda>_. Ret DxDone)
     | Some (cn, previous) \<Rightarrow>
       let leave = unregister_dev env t cn;
           running = act XStep (\<lambda>i s. (s, xiOk i \<and> conn_current cn s \<and> \<not> dxShut s (vcServe cn))) (\<lambda>observed.
             if \<not> observed then leave
             else act XStep (\<lambda>i s. (s, xiOk i)) (\<lambda>ready.
               if \<not> ready then act XStep (close_conn (vcServe cn)) (\<lambda>_. leave)
               else dx_receive n env t cn (act XStep (close_conn (vcServe cn)) (\<lambda>_. leave)))) in
       (case previous of None \<Rightarrow> running | Some p \<Rightarrow> act XStep (close_conn (vcServe p)) (\<lambda>_. running)))"

definition dx_Close :: dx_prog where
  "dx_Close =
     act XStep (\<lambda>i s. (if dxClosed s then s else s\<lparr>dxClosed := True, dxConns := []\<rparr>,
                        if dxClosed s then [] else map (vcServe \<circ> snd) (dxConns s))) (\<lambda>conns.
     foldr (\<lambda>u k. act XStep (close_conn u) (\<lambda>_. k)) conns (Ret DxDone))"

section \<open>The assignment of a tablet\<close>

record TabletAssignmentInput =
  tiDeviceID :: string
  tiExpectedProjectID :: string
  tiExpectedSnapshotID :: string
  tiTargetProjectID :: string
  tiTargetSnapshotID :: string
  tiExpectedEpoch :: int

definition normalizeTabletAssignmentInput :: "TabletAssignmentInput \<Rightarrow> TabletAssignmentInput" where
  "normalizeTabletAssignmentInput x = x\<lparr>tiDeviceID := trim_space (tiDeviceID x), tiExpectedProjectID := trim_space (tiExpectedProjectID x),
     tiExpectedSnapshotID := trim_space (tiExpectedSnapshotID x), tiTargetProjectID := trim_space (tiTargetProjectID x),
     tiTargetSnapshotID := trim_space (tiTargetSnapshotID x)\<rparr>"

definition validTabletScopePair :: "string \<Rightarrow> string \<Rightarrow> bool" where
  "validTabletScopePair project snap \<longleftrightarrow> project = [] \<and> snap = [] \<or> project \<noteq> [] \<and> snap \<noteq> []"

definition valid_request :: "TabletAssignmentInput \<Rightarrow> bool" where
  "valid_request x \<longleftrightarrow> tiDeviceID x \<noteq> [] \<and> 0 < tiExpectedEpoch x \<and> tiExpectedEpoch x < 9223372036854775807
     \<and> validTabletScopePair (tiExpectedProjectID x) (tiExpectedSnapshotID x) \<and> validTabletScopePair (tiTargetProjectID x) (tiTargetSnapshotID x)
     \<and> \<not> (tiExpectedProjectID x = tiTargetProjectID x \<and> tiExpectedSnapshotID x = tiTargetSnapshotID x)"

definition committable :: "TabletAssignmentInput \<Rightarrow> bool" where
  "committable x \<longleftrightarrow> tiDeviceID x \<noteq> [] \<and> 0 < tiExpectedEpoch x \<and> tiExpectedEpoch x < 9223372036854775807
     \<and> validTabletScopePair (tiExpectedProjectID x) (tiExpectedSnapshotID x) \<and> validTabletScopePair (tiTargetProjectID x) (tiTargetSnapshotID x)"

definition eligible_tablet :: "StageDevice \<Rightarrow> bool" where
  "eligible_tablet d \<longleftrightarrow> dvEnabled d \<and> dvProtocol d = ProtocolVersion2 \<and> dvKind d = DeviceTabletPlayer \<and> dvProfile d = TabletPlayerProfileID
     \<and> dvProject d = []"

definition assigned_as_expected :: "TabletAssignmentInput \<Rightarrow> AssignmentRecord \<Rightarrow> bool" where
  "assigned_as_expected x a \<longleftrightarrow> asEpoch a = tiExpectedEpoch x \<and> asProjectID a = tiExpectedProjectID x \<and> asSnapshotID a = tiExpectedSnapshotID x
     \<and> (asState a = ''UNASSIGNED'' \<and> asProjectID a = [] \<and> asSnapshotID a = []
        \<or> asState a = ''ACTIVE'' \<and> asProjectID a \<noteq> [] \<and> asSnapshotID a \<noteq> [])"

text \<open>The target is a published snapshot of its project, no show is running and no command is under way.\<close>

definition free_to_assign :: "TabletAssignmentInput \<Rightarrow> dx_input \<Rightarrow> dx_state \<Rightarrow> bool" where
  "free_to_assign x i s \<longleftrightarrow>
     (tiTargetProjectID x \<noteq> [] \<longrightarrow>
        (case xiSnapshot i of None \<Rightarrow> False | Some r \<Rightarrow> rsProjectID r = tiTargetProjectID x \<and> rsPublished r))
     \<and> (\<forall>p \<in> {tiExpectedProjectID x, tiTargetProjectID x}. p \<noteq> [] \<longrightarrow> \<not> xiShow i p)
     \<and> (\<forall>r \<in> set (dxRows s). dcDeviceID r = tiDeviceID x \<longrightarrow> dcStatus r \<noteq> CommandAccepted)"

definition PreflightTabletAssignment :: "dx_env \<Rightarrow> TabletAssignmentInput \<Rightarrow> (bool \<Rightarrow> dx_prog) \<Rightarrow> dx_prog" where
  "PreflightTabletAssignment env raw k =
     (let x = normalizeTabletAssignmentInput raw in
      if \<not> valid_request x then k False
      else act XStep (dx_GetDevice env (tiDeviceID x)) (\<lambda>got.
        case got of Inl _ \<Rightarrow> k False | Inr d \<Rightarrow>
        if \<not> eligible_tablet d then k False
        else act XStep (GetAssignmentRecord (tiDeviceID x)) (\<lambda>asg.
          case asg of Inl _ \<Rightarrow> k False | Inr a \<Rightarrow>
          if \<not> assigned_as_expected x a then k False
          else act XStep (\<lambda>i s. (s, xiSql i = SqlOk \<and> free_to_assign x i s)) k)))"

text \<open>
  The checks of the input and the transaction of \<open>CommitTabletSafeAssignment\<close>, whose reads and write are one unit of
  the database. The acknowledgement has been checked by the caller; the audit row is left out.
\<close>

definition CommitTabletSafeAssignment :: "dx_env \<Rightarrow> TabletAssignmentInput \<Rightarrow> dx_input \<Rightarrow> dx_state \<Rightarrow> dx_state \<times> bool" where
  "CommitTabletSafeAssignment env raw i s =
     (let x = normalizeTabletAssignmentInput raw in
      case (deDevice env (tiDeviceID x), dxAssign s (tiDeviceID x)) of
        (Some d, Some a) \<Rightarrow>
          if xiSql i = SqlFail \<or> \<not> committable x \<or> asEpoch a \<noteq> tiExpectedEpoch x \<or> asProjectID a \<noteq> tiExpectedProjectID x
             \<or> asSnapshotID a \<noteq> tiExpectedSnapshotID x \<or> asState a \<notin> {''UNASSIGNED'', ''ACTIVE''}
             \<or> \<not> eligible_tablet d \<or> \<not> free_to_assign x i s
          then (s, False)
          else (s\<lparr>dxAssign := (dxAssign s)(tiDeviceID x \<mapsto>
                    \<lparr>asProjectID = tiTargetProjectID x, asSnapshotID = tiTargetSnapshotID x, asEpoch = tiExpectedEpoch x + 1,
                     asState = (if tiTargetProjectID x = [] then ''UNASSIGNED'' else ''ACTIVE'')\<rparr>)\<rparr>,
                xiSql i \<noteq> SqlReplyLost)
      | _ \<Rightarrow> (s, False))"

text \<open>\<open>xiOk\<close> says that no blackout and no lighting probe of the device is pending.\<close>

definition begin_transition :: "TabletAssignmentInput \<Rightarrow> int \<Rightarrow> string \<Rightarrow> dx_input \<Rightarrow> dx_state \<Rightarrow> dx_state \<times> DevConn option" where
  "begin_transition x g aid i s =
     (case map_of (dxConns s) (trim_space (tiDeviceID x)) of
        None \<Rightarrow> (s, None)
      | Some cn \<Rightarrow>
        if dxClosed s \<or> vcProtocol cn \<noteq> ProtocolVersion2 \<or> vcGeneration cn \<noteq> g \<or> dxTransition s (tiDeviceID x)
           \<or> dxPending s (tiDeviceID x) \<noteq> None \<or> \<not> xiOk i \<or> dxShut s (vcServe cn)
        then (s, None)
        else (s\<lparr>dxTransition := (dxTransition s)(tiDeviceID x := True),
                dxPending := (dxPending s)(tiDeviceID x \<mapsto> \<lparr>paConnection = vcServe cn, paAssignmentID = aid, paAck = None\<rparr>)\<rparr>, Some cn))"

definition end_transition :: "TabletAssignmentInput \<Rightarrow> string \<Rightarrow> dx_input \<Rightarrow> dx_state \<Rightarrow> dx_state \<times> unit" where
  "end_transition x aid i s =
     (s\<lparr>dxTransition := (dxTransition s)(tiDeviceID x := False),
        dxPending := (case dxPending s (tiDeviceID x) of
             None \<Rightarrow> dxPending s
           | Some p \<Rightarrow> if paAssignmentID p = aid then (dxPending s)(tiDeviceID x := None) else dxPending s)\<rparr>, ())"

text \<open>The last critical section: the transaction, and the end of the connection that still has the old scope.\<close>

definition commit_assignment :: "dx_env \<Rightarrow> TabletAssignmentInput \<Rightarrow> DevConn \<Rightarrow> dx_input \<Rightarrow> dx_state \<Rightarrow> dx_state \<times> bool" where
  "commit_assignment env x cn i s =
     (case map_of (dxConns s) (tiDeviceID x) of
        None \<Rightarrow> (s, False)
      | Some d \<Rightarrow>
        if dxClosed s \<or> vcServe d \<noteq> vcServe cn \<or> \<not> dxTransition s (tiDeviceID x) \<or> dxShut s (vcServe cn) then (s, False)
        else (case CommitTabletSafeAssignment env x i s of
                (s', True) \<Rightarrow> (s'\<lparr>dxShut := (dxShut s')(vcServe cn := True)\<rparr>, True)
              | (s', False) \<Rightarrow> (s', False)))"

definition good_ack :: "TabletAssignmentInput \<Rightarrow> string \<Rightarrow> int \<Rightarrow> string \<Rightarrow> TabletAck \<Rightarrow> bool" where
  "good_ack x aid g challenge a \<longleftrightarrow> taAssignmentID a = aid \<and> taDeviceID a = trim_space (tiDeviceID x) \<and> taEpoch a = tiExpectedEpoch x
     \<and> taGeneration a = g \<and> taChallenge a = challenge \<and> taSafeMedia a"

text \<open>The wait for the acknowledgement ends with it, with the deadline, or with the connection.\<close>

definition wait_ack :: "TabletAssignmentInput \<Rightarrow> DevConn \<Rightarrow> dx_input \<Rightarrow> dx_state \<Rightarrow> dx_state \<times> TabletAck option" where
  "wait_ack x cn i s =
     (s, if xiOk i then (case dxPending s (tiDeviceID x) of None \<Rightarrow> None | Some p \<Rightarrow> paAck p) else None)"

definition ExecuteTabletAssignment :: "dx_env \<Rightarrow> TabletAssignmentInput \<Rightarrow> string \<Rightarrow> dx_prog" where
  "ExecuteTabletAssignment env x actorID =
     (let failed = (\<lambda>e. Ret (DxAssigned (Some e))); refused = ''v2 Tablet Player safe-media assignment not verified'' in
      if trim_space actorID = [] then failed refused
      else PreflightTabletAssignment env x (\<lambda>fine.
        if \<not> fine then failed ''invalid stage device state''
        else act XStep (\<lambda>i s. (s, case map_of (dxConns s) (trim_space (tiDeviceID x)) of
               None \<Rightarrow> None
             | Some cn \<Rightarrow> if dxClosed s \<or> vcProtocol cn \<noteq> ProtocolVersion2 \<or> vcGeneration cn \<le> 0 \<or> dxShut s (vcServe cn) then None
                          else Some (vcGeneration cn))) (\<lambda>generation.
        case generation of None \<Rightarrow> failed refused | Some g \<Rightarrow>
        act XStep (\<lambda>i s. (s, (xiID i, xiErr i))) (\<lambda>(aid, nonce).
        case (aid, nonce) of (Some aid, Some challenge) \<Rightarrow>
          act XStep (begin_transition x g aid) (\<lambda>begun.
          case begun of None \<Rightarrow> failed refused | Some cn \<Rightarrow>
          let leave = (\<lambda>r. act XStep (end_transition x aid) (\<lambda>_. Ret (DxAssigned r))) in
          PreflightTabletAssignment env x (\<lambda>fine.
          if \<not> fine then leave (Some ''invalid stage device state'')
          else act XStep (\<lambda>i s. (s, xiOk i)) (\<lambda>authorized.
          if \<not> authorized then leave (Some refused)
          else act XStep (\<lambda>i s. (s, if dxShut s (vcServe cn) then Some [] else xiErr i)) (\<lambda>unsent.
          case unsent of Some e \<Rightarrow> act XStep (close_conn (vcServe cn)) (\<lambda>_. leave (Some refused)) | None \<Rightarrow>
          act XStep (wait_ack x cn) (\<lambda>ack.
          case ack of None \<Rightarrow> act XStep (close_conn (vcServe cn)) (\<lambda>_. leave (Some refused)) | Some a \<Rightarrow>
          if \<not> good_ack x aid g challenge a then act XStep (close_conn (vcServe cn)) (\<lambda>_. leave (Some refused))
          else act XStep (\<lambda>i s. (s, xiOk i)) (\<lambda>still.
          if \<not> still then leave (Some refused)
          else act XStep (commit_assignment env x cn) (\<lambda>done. leave (if done then None else Some refused))))))))
        | _ \<Rightarrow> failed refused))))"

section \<open>The executor of a cue action\<close>

definition StageDeviceLogicalType :: string where "StageDeviceLogicalType = ''stage_device''"

definition cancelledBeforeDispatch :: "ctx_err \<Rightarrow> CapResult" where
  "cancelledBeforeDispatch e =
     (case e of
        CtxDeadlineExceeded \<Rightarrow> \<lparr>cpResult = ExecutionTimedOut, cpAckLevel = AckNone,
          cpResponseSummary = ''Stage Device command deadline expired before dispatch'', cpErrorCode = ''STAGE_DEVICE_COMMAND_TIMED_OUT''\<rparr>
      | CtxCanceled \<Rightarrow> \<lparr>cpResult = ExecutionCancelled, cpAckLevel = AckNone,
          cpResponseSummary = ''Stage Device command cancelled before dispatch'', cpErrorCode = ''STAGE_DEVICE_COMMAND_CANCELLED''\<rparr>)"

definition device_status_text :: "CommandStatus \<Rightarrow> string" where
  "device_status_text st =
     (case st of
        CommandAccepted \<Rightarrow> ''ACCEPTED'' | CommandRejected \<Rightarrow> ''REJECTED'' | CommandCompleted \<Rightarrow> ''COMPLETED''
      | CommandFailed \<Rightarrow> ''FAILED'' | CommandTimedOut \<Rightarrow> ''TIMED_OUT'' | CommandCancelled \<Rightarrow> ''CANCELLED'')"

definition capabilityResultForDeviceCommand :: "dx_env \<Rightarrow> DeviceCommand \<Rightarrow> CapResult" where
  "capabilityResultForDeviceCommand env c =
     (let e = (if dcResult c = [] then None else deError env (dcResult c));
          code = (case e of Some x \<Rightarrow> errCode x | None \<Rightarrow> if dcStatus c = CommandAccepted then ''STAGE_DEVICE_COMMAND_UNRESOLVED'' else []);
          plain = ''Stage Device command '' @ device_status_text (dcStatus c);
          summary = (case e of Some x \<Rightarrow> if trim_space (errMessage x) \<noteq> [] then errMessage x else plain | None \<Rightarrow> plain) in
      \<lparr>cpResult = (case dcStatus c of
           CommandCompleted \<Rightarrow> ExecutionCompleted | CommandTimedOut \<Rightarrow> ExecutionTimedOut
         | CommandCancelled \<Rightarrow> ExecutionCancelled | _ \<Rightarrow> ExecutionFailed),
       cpAckLevel = (if dcStatus c = CommandCompleted then AckDevice else AckNone),
       cpResponseSummary = summary, cpErrorCode = code\<rparr>)"

definition finishInterrupted :: "dx_env \<Rightarrow> nat \<Rightarrow> DeviceCommand \<Rightarrow> CommandStatus \<Rightarrow> string \<Rightarrow> (DeviceCommand \<Rightarrow> dx_prog) \<Rightarrow> dx_prog" where
  "finishInterrupted env t c st cause k =
     (let (code, category) = (if st = CommandTimedOut then (''STAGE_DEVICE_COMMAND_TIMED_OUT'', ''TIMEOUT'')
                              else (''STAGE_DEVICE_COMMAND_CANCELLED'', ''CANCELLED''));
          result = command_result env (command_id c) st code category cause False (dcDeviceID c) in
      CompleteCommand env t (command_id c) st result (\<lambda>completed.
      case completed of
        Inr x \<Rightarrow> k x
      | Inl _ \<Rightarrow> await XStep (GetCommand (command_id c)) (\<lambda>got.
          case got of Inr x \<Rightarrow> k x | Inl _ \<Rightarrow> k (c\<lparr>dcStatus := st, dcResult := result\<rparr>))))"

definition interruptedResult :: "dx_env \<Rightarrow> nat \<Rightarrow> DeviceCommand \<Rightarrow> ctx_err \<Rightarrow> (CapResult \<Rightarrow> dx_prog) \<Rightarrow> dx_prog" where
  "interruptedResult env t c cause k =
     finishInterrupted env t c (if cause = CtxDeadlineExceeded then CommandTimedOut else CommandCancelled)
       (if cause = CtxDeadlineExceeded then ''context deadline exceeded'' else ''context canceled'')
       (\<lambda>x. k (capabilityResultForDeviceCommand env x))"

text \<open>
  The wait for a terminal status: at most \<open>n\<close> readings, since the context of the wait has a deadline. \<open>xiCtx\<close> is
  the error of the context when it is done first.
\<close>

primrec wait_command :: "nat \<Rightarrow> dx_env \<Rightarrow> nat \<Rightarrow> DeviceCommand \<Rightarrow> (CapResult \<Rightarrow> dx_prog) \<Rightarrow> dx_prog" where
  "wait_command 0 env t c k = interruptedResult env t c CtxDeadlineExceeded k"
| "wait_command (Suc n) env t c k =
     act XStep (\<lambda>i s. (s, xiCtx i)) (\<lambda>over.
     case over of
       Some e \<Rightarrow> interruptedResult env t c e k
     | None \<Rightarrow> await XStep (GetCommand (command_id c)) (\<lambda>got.
         case got of
           Inl _ \<Rightarrow> act XStep (\<lambda>i s. (s, xiCtx i)) (\<lambda>over.
             case over of Some e \<Rightarrow> interruptedResult env t c e k
             | None \<Rightarrow> k (failed_result ''STAGE_DEVICE_RESULT_LOOKUP_FAILED'' ''result lookup failed''))
         | Inr x \<Rightarrow> if terminalDeviceCommand (dcStatus x) then k (capabilityResultForDeviceCommand env x) else wait_command n env t c k))"

text \<open>The command type of a cue capability, with the parameters it gets; a laser state is one of two commands.\<close>

definition cue_command :: "dx_env \<Rightarrow> CapRequest \<Rightarrow> (string \<times> string) + (string \<times> string)" where
  "cue_command env req =
     (if trim_space (crCapability req) = CapabilityStateSet
      then (case deState env (crParameters req) of
              None \<Rightarrow> Inl (''STAGELASER_STATE_INVALID'', ''StageLaser state action requires exactly state=ON or OFF'')
            | Some st \<Rightarrow>
              if to_upper (trim_space st) = ''ON'' then Inr (CommandSetOn, ''{}'')
              else if to_upper (trim_space st) = ''OFF'' then Inr (CommandSetOff, ''{}'')
              else Inl (''STAGELASER_STATE_INVALID'', ''StageLaser state must be ON or OFF''))
      else if CommandTypeForCueCapability (crCapability req) = []
      then Inl (''STAGE_DEVICE_CAPABILITY_UNAVAILABLE'', ''capability is not a typed Stage Device command'')
      else Inr (CommandTypeForCueCapability (crCapability req), crParameters req))"

definition cue_key :: "string \<Rightarrow> string" where "cue_key x = ''cue-action:'' @ x"

definition or_string :: "string \<Rightarrow> string \<Rightarrow> string" where
  "or_string a b = (if trim_space a = [] then b else trim_space a)"

text \<open>The session an action belongs to: the one it names, or the active one of the project.\<close>

definition resolve_device_session :: "CapRequest \<Rightarrow> string \<Rightarrow> string \<Rightarrow> (CapResult + string \<Rightarrow> dx_prog) \<Rightarrow> dx_prog" where
  "resolve_device_session req project snap k =
     (let check = (\<lambda>sid. act XStep (\<lambda>i s. (s, xiSession i)) (\<lambda>found.
            case found of
              None \<Rightarrow> k (Inl (failed_result ''SESSION_NOT_ACTIVE'' ''Stage Device cue action requires an active session''))
            | Some x \<Rightarrow>
              if sesStatus x \<noteq> SessionActive
              then k (Inl (failed_result ''SESSION_NOT_ACTIVE'' ''Stage Device cue action requires an active session''))
              else if sesProjectID x \<noteq> project \<or> sesRuntimeSnapshotID x \<noteq> snap
              then k (Inl (failed_result ''SESSION_CONTEXT_MISMATCH'' ''Stage Device action session does not match Project and Runtime Snapshot''))
              else k (Inr sid))) in
      if trim_space (crSessionID req) \<noteq> [] then check (trim_space (crSessionID req))
      else act XStep (\<lambda>i s. (s, (xiSql i, xiSession i))) (\<lambda>(q, active).
        if q \<noteq> SqlOk then k (Inl (failed_result ''SESSION_LOOKUP_FAILED'' ''session lookup failed''))
        else case active of
          None \<Rightarrow> k (Inl (failed_result ''SESSION_NOT_ACTIVE'' ''Stage Device cue action requires an active session''))
        | Some x \<Rightarrow> check (sesID x)))"

text \<open>The earlier of the deadline of the context and the timeout; five seconds when there is neither.\<close>

definition commandDeadline :: "time option \<Rightarrow> int \<Rightarrow> time \<Rightarrow> time" where
  "commandDeadline ctx timeoutMS now =
     (let own = now + wrap64 (timeoutMS * 1000000) in
      case ctx of
        None \<Rightarrow> if timeoutMS > 0 then own else now + 5000000000
      | Some d \<Rightarrow> if timeoutMS > 0 \<and> own < d then own else d)"

text \<open>The last part of \<open>Execute\<close>: the deadline, the dispatch and the wait for the result.\<close>

definition dispatch_and_wait :: "nat \<Rightarrow> dx_env \<Rightarrow> nat \<Rightarrow> int \<Rightarrow> CreateCommandInput \<Rightarrow> (CapResult \<Rightarrow> dx_prog) \<Rightarrow> dx_prog" where
  "dispatch_and_wait n env t timeoutMS input k =
     act XStep (\<lambda>i s. (s, (xiCtx i, commandDeadline (xiDeadline i) timeoutMS (xiNow i)))) (\<lambda>(over, deadline).
     case over of
       Some e \<Rightarrow> k (cancelledBeforeDispatch e)
     | None \<Rightarrow> Dispatch env t (input\<lparr>ciDeadlineAt := Some deadline\<rparr>) (\<lambda>sent.
         case sent of
           Inl e \<Rightarrow> k (failed_result ''STAGE_DEVICE_DISPATCH_FAILED'' ''dispatch failed'')
         | Inr c \<Rightarrow> if terminalDeviceCommand (dcStatus c) then k (capabilityResultForDeviceCommand env c) else wait_command n env t c k))"

definition fw_Execute :: "nat \<Rightarrow> dx_env \<Rightarrow> nat \<Rightarrow> CapRequest \<Rightarrow> (CapResult \<Rightarrow> dx_prog) \<Rightarrow> dx_prog" where
  "fw_Execute n env t req k =
     act XStep (\<lambda>i s. (s, xiCtx i)) (\<lambda>over.
     case over of Some e \<Rightarrow> k (cancelledBeforeDispatch e) | None \<Rightarrow>
     case crTarget req of
       None \<Rightarrow> k (failed_result ''STAGE_DEVICE_TARGET_INVALID'' ''Stage Device execution requires a stage_device target'')
     | Some target \<Rightarrow>
       if to_lower (trim_space (ctLogicalType target)) \<noteq> StageDeviceLogicalType
       then k (failed_result ''STAGE_DEVICE_TARGET_INVALID'' ''Stage Device execution requires a stage_device target'')
       else if trim_space (crExecutionID req) = [] \<or> trim_space (crRuntimeSnapshotID req) = [] \<or> trim_space (crCapability req) = []
       then k (failed_result ''STAGE_DEVICE_REQUEST_INVALID'' ''execution id, Runtime Snapshot id and capability are required'')
       else case cue_command env req of
         Inl (code, message) \<Rightarrow> k (failed_result code message)
       | Inr (ty, parameters) \<Rightarrow>
         case deTargetDevice env (ctConfiguration target) of
           None \<Rightarrow> k (failed_result ''STAGE_DEVICE_TARGET_INVALID'' ''stage_device target requires device_id'')
         | Some device \<Rightarrow>
           if trim_space device = [] then k (failed_result ''STAGE_DEVICE_TARGET_INVALID'' ''stage_device target requires device_id'')
           else act XStep (\<lambda>i s. (s, xiSnapshot i)) (\<lambda>snapshot.
             case snapshot of
               None \<Rightarrow> k (failed_result ''SNAPSHOT_NOT_PUBLISHED'' ''published Runtime Snapshot is required for Stage Device execution'')
             | Some snap \<Rightarrow>
               let project = or_string (crProjectID req) (rsProjectID snap) in
               if \<not> rsPublished snap
               then k (failed_result ''SNAPSHOT_NOT_PUBLISHED'' ''published Runtime Snapshot is required for Stage Device execution'')
               else if project \<noteq> rsProjectID snap
               then k (failed_result ''PROJECT_MISMATCH'' ''Stage Device action project does not match Runtime Snapshot'')
               else resolve_device_session req project (rsID snap) (\<lambda>session.
                 case session of
                   Inl r \<Rightarrow> k r
                 | Inr sid \<Rightarrow>
                   case (if lighting_command ty then deLighting env (rsManifest snap) (trim_space device) ty (crParameters req) else Inr parameters) of
                     Inl e \<Rightarrow> k (failed_result ''LIGHTING_ALIAS_RESOLUTION_FAILED'' e)
                   | Inr payload \<Rightarrow>
                     dispatch_and_wait n env t (crTimeoutMS req)
                       \<lparr>ciProjectID = project, ciSessionID = sid, ciDeviceID = trim_space device, ciCommandType = ty,
                        ciIssuer = or_string (crIssuer req) ''hub.cue_engine'', ciCorrelationID = trim_space (crCorrelationID req),
                        ciCausationID = or_string (crCausationID req) (trim_space (crExecutionID req)), ciSnapshotID = rsID snap,
                        ciPriority = or_string (crPriority req) ''P1'', ciIdempotencyKey = cue_key (trim_space (crExecutionID req)),
                        ciPayload = payload, ciDeadlineAt = None\<rparr> k)))"

section \<open>The calls\<close>

text \<open>\<open>DxShut\<close> is the monitor of a connection, which closes a revoked or silent one at any time.\<close>

datatype dx_call =
    DxExecute nat CapRequest
  | DxDispatch CreateCommandInput
  | DxServe nat string string "string list"
  | DxAssign TabletAssignmentInput string
  | DxShut nat
  | DxClose

definition dx_run :: "dx_env \<Rightarrow> nat \<Rightarrow> dx_call \<Rightarrow> dx_prog" where
  "dx_run env t call =
     (case call of
        DxExecute n req \<Rightarrow> fw_Execute n env t req (\<lambda>r. act (XReturn (trim_space (crExecutionID req)) r) (\<lambda>i s. (s, ())) (\<lambda>_. Ret (DxResult r)))
      | DxDispatch input \<Rightarrow> Dispatch env t input (\<lambda>a. Ret (DxCommand a))
      | DxServe n dev protocol caps \<Rightarrow>
          serve_device env n t \<lparr>vcServe = t, vcDevice = dev, vcProtocol = protocol, vcCaps = caps, vcGeneration = 0\<rparr>
      | DxAssign x actor \<Rightarrow> ExecuteTabletAssignment env x actor
      | DxShut u \<Rightarrow> act XStep (close_conn u) (\<lambda>_. Ret DxDone)
      | DxClose \<Rightarrow> dx_Close)"

text \<open>At the start there are no commands and no connections; devices may be assigned already.\<close>

definition dx_initial :: "(string \<Rightarrow> AssignmentRecord option) \<Rightarrow> int \<Rightarrow> dx_state" where
  "dx_initial assigned sequence = \<lparr>dxRows = [], dxEver = (\<lambda>_. None), dxEvents = [], dxWriter = None, dxAssign = assigned, dxConns = [],
     dxScope = (\<lambda>_. \<lparr>scProjectID = [], scSnapshotID = [], scEpoch = 0, scEnabled = False\<rparr>), dxInflight = [], dxTransition = (\<lambda>_. False),
     dxPending = (\<lambda>_. None), dxSequence = sequence, dxNext = 0, dxClosed = False, dxShut = (\<lambda>_. False), dxRegistered = (\<lambda>_. None), dxWire = []\<rparr>"

definition dx_reachable :: "dx_env \<Rightarrow> (nat \<Rightarrow> dx_call) \<Rightarrow> dx_state \<times> (nat \<Rightarrow> dx_prog) \<Rightarrow> bool" where
  "dx_reachable env calls c \<longleftrightarrow> (\<exists>assigned sequence. istep\<^sup>*\<^sup>* (dx_initial assigned sequence, \<lambda>t. dx_run env t (calls t)) c)"

end
