(* ===== verification/DeviceSafety.thy ===== *)
theory DeviceSafety
  imports DeviceCommands
begin

text \<open>
  What holds in every interleaving of commands, connections and assignments: a command goes out once, on a
  connection of its device and while the device is assigned to its project; a cue action completes only when the
  device has reported it; and a result that can be read is final.
\<close>

section \<open>The invariant\<close>

definition reported :: "string \<Rightarrow> dx_state \<Rightarrow> bool" where
  "reported cid s \<longleftrightarrow> (\<exists>u. WBound cid u \<in> set (dxWire s) \<and> WReport cid u CommandCompleted \<in> set (dxWire s))"

definition sent_of :: "string \<Rightarrow> wire \<Rightarrow> bool" where
  "sent_of cid w \<longleftrightarrow> (\<exists>u. w = WSent cid u)"

definition is_bound :: "string \<Rightarrow> dx_state \<Rightarrow> bool" where
  "is_bound cid s \<longleftrightarrow> (\<exists>u. WBound cid u \<in> set (dxWire s))"

definition guarded :: "dx_env \<Rightarrow> DeviceCommand \<Rightarrow> dx_state \<Rightarrow> bool" where
  "guarded env r s \<longleftrightarrow> insert_guard env (dcDeviceID r) (ceProjectID (dcEnvelope r)) (ceRuntimeSnapshotID (dcEnvelope r)) s"

definition drow_ok :: "dx_env \<Rightarrow> dx_state \<Rightarrow> DeviceCommand \<Rightarrow> bool" where
  "drow_ok env s r \<longleftrightarrow> dxEver s (command_id r) = Some (dcDeviceID r, dc_key r)
     \<and> (dcTrail r = [] \<longrightarrow> dcStatus r = CommandAccepted \<and> guarded env r s)
     \<and> (dcStatus r \<noteq> CommandAccepted \<longrightarrow> dcStatus r \<in> set (dcTrail r))
     \<and> (CommandCompleted \<in> set (dcTrail r) \<longrightarrow> reported (command_id r) s)"

definition table_ok :: "dx_state \<Rightarrow> bool" where
  "table_ok s \<longleftrightarrow> distinct (map command_id (dxRows s))
     \<and> (\<forall>r \<in> set (dxRows s). \<forall>q \<in> set (dxRows s). dc_key r \<noteq> [] \<longrightarrow> dcDeviceID r = dcDeviceID q \<longrightarrow> dc_key r = dc_key q
          \<longrightarrow> command_id r = command_id q)"

definition wire_ok :: "dx_state \<Rightarrow> bool" where
  "wire_ok s \<longleftrightarrow> (\<forall>c. length (filter (sent_of c) (dxWire s)) \<le> 1)
     \<and> (\<forall>c u. WSent c u \<in> set (dxWire s) \<longrightarrow> WBound c u \<in> set (dxWire s))
     \<and> (\<forall>c u. WBound c u \<in> set (dxWire s) \<longrightarrow>
          (\<exists>r \<in> set (dxRows s). command_id r = c \<and> (\<exists>cn. dxRegistered s u = Some cn \<and> vcDevice cn = dcDeviceID r)))"

definition conns_ok :: "dx_state \<Rightarrow> bool" where
  "conns_ok s \<longleftrightarrow> (\<forall>d cn. map_of (dxConns s) d = Some cn \<longrightarrow> vcDevice cn = d \<and> dxRegistered s (vcServe cn) = Some cn)
     \<and> (\<forall>(c, u) \<in> set (dxInflight s). WBound c u \<in> set (dxWire s))"

definition dx_inv :: "dx_env \<Rightarrow> dx_state \<Rightarrow> bool" where
  "dx_inv env s \<longleftrightarrow> table_ok s \<and> (\<forall>r \<in> set (dxRows s). drow_ok env s r) \<and> wire_ok s \<and> conns_ok s
     \<and> (\<forall>c. dxEver s c \<noteq> None \<longrightarrow> trim_space c = c)"

text \<open>A result that can be read: the row is terminal and nobody is writing it.\<close>

definition settled :: "string \<Rightarrow> CommandStatus \<Rightarrow> string \<Rightarrow> dx_state \<Rightarrow> bool" where
  "settled cid st res s \<longleftrightarrow> st \<noteq> CommandAccepted \<and> (\<exists>r \<in> set (dxRows s). command_id r = cid \<and> dcStatus r = st \<and> dcResult r = res)
     \<and> (\<forall>v. dxWriter s \<noteq> Some (v, Some cid))"

definition persists :: "DeviceCommand \<Rightarrow> dx_state \<Rightarrow> bool" where
  "persists r s \<longleftrightarrow> (\<exists>q \<in> set (dxRows s). dcEnvelope q = dcEnvelope r \<and> dcDeviceID q = dcDeviceID r \<and> dcOwner q = dcOwner r)"

text \<open>
  What goroutine \<open>t\<close> may do: histories grow, only the creator of a command binds and sends it, and it deletes it
  only before; only the holder of the lock writes a result, and not one that can be read.
\<close>

definition dx_moves :: "nat \<Rightarrow> dx_state \<Rightarrow> dx_state \<Rightarrow> bool" where
  "dx_moves t s s' \<longleftrightarrow> prefix (dxWire s) (dxWire s') \<and> dxEver s \<subseteq>\<^sub>m dxEver s' \<and> dxRegistered s \<subseteq>\<^sub>m dxRegistered s'
     \<and> (\<forall>u. u \<noteq> t \<longrightarrow> dxRegistered s' u = dxRegistered s u)
     \<and> (\<forall>r \<in> set (dxRows s). persists r s' \<or> dcOwner r = t \<and> \<not> is_bound (command_id r) s)
     \<and> (\<forall>c u w. w = WSent c u \<or> w = WBound c u \<longrightarrow> w \<in> set (dxWire s')
          \<longrightarrow> w \<in> set (dxWire s) \<or> (\<exists>r \<in> set (dxRows s). command_id r = c \<and> dcOwner r = t))
     \<and> (\<forall>u w. dxWriter s = Some (u, w) \<longrightarrow> u \<noteq> t \<longrightarrow> dxWriter s' = dxWriter s)
     \<and> (\<forall>cid st res. settled cid st res s \<longrightarrow> settled cid st res s')"

definition dx_guar :: "dx_env \<Rightarrow> nat \<Rightarrow> dx_state \<Rightarrow> dx_state \<Rightarrow> bool" where
  "dx_guar env t s s' \<longleftrightarrow> dx_inv env s' \<and> dx_moves t s s'"

definition dx_rely :: "nat \<Rightarrow> dx_state \<Rightarrow> dx_state \<Rightarrow> bool" where
  "dx_rely u s s' \<longleftrightarrow> (\<exists>t. t \<noteq> u \<and> dx_moves t s s')"

definition sendable :: "dx_env \<Rightarrow> nat \<Rightarrow> string \<Rightarrow> nat \<Rightarrow> dx_state \<Rightarrow> bool" where
  "sendable env t c u s \<longleftrightarrow> (\<forall>v. WSent c v \<notin> set (dxWire s)) \<and> WBound c u \<in> set (dxWire s)
     \<and> (\<exists>r \<in> set (dxRows s). command_id r = c \<and> dcOwner r = t \<and> (\<exists>cn. dxRegistered s u = Some cn \<and> vcDevice cn = dcDeviceID r))"

definition done_for :: "string \<Rightarrow> dx_state \<Rightarrow> bool" where
  "done_for x s \<longleftrightarrow> (\<exists>cid dev. dxEver s cid = Some (dev, cue_key x) \<and> reported cid s)"

definition dx_marks :: "dx_env \<Rightarrow> nat \<Rightarrow> dx_label \<Rightarrow> dx_state \<Rightarrow> bool" where
  "dx_marks env t l s \<longleftrightarrow>
     (case l of
        XStep \<Rightarrow> True
      | XSend c u \<Rightarrow> sendable env t c u s
      | XReturn x r \<Rightarrow> cpResult r = ExecutionCompleted \<longrightarrow> done_for x s)"

interpretation dx: rely_guarantee "dx_inv env" dx_rely "dx_guar env" "dx_marks env" for env
  by unfold_locales (auto simp: dx_guar_def dx_rely_def)

section \<open>What every step preserves\<close>

text \<open>A fact is kept when no goroutine can undo it.\<close>

definition lasts :: "dx_env \<Rightarrow> (dx_state \<Rightarrow> bool) \<Rightarrow> bool" where
  "lasts env P \<longleftrightarrow> (\<forall>t s s'. dx_inv env s \<longrightarrow> dx_moves t s s' \<longrightarrow> P s \<longrightarrow> P s')"

definition heard :: "string \<Rightarrow> nat \<Rightarrow> CommandStatus \<Rightarrow> dx_state \<Rightarrow> bool" where
  "heard cid u st s \<longleftrightarrow> WReport cid u st \<in> set (dxWire s)"

definition ever_as :: "DeviceCommand \<Rightarrow> dx_state \<Rightarrow> bool" where
  "ever_as c s \<longleftrightarrow> dxEver s (command_id c) = Some (dcDeviceID c, dc_key c)"

definition true_result :: "DeviceCommand \<Rightarrow> dx_state \<Rightarrow> bool" where
  "true_result c s \<longleftrightarrow> ever_as c s \<and> (dcStatus c = CommandCompleted \<longrightarrow> reported (command_id c) s)"

lemma movesD:
  assumes "dx_moves t s s'"
  shows "prefix (dxWire s) (dxWire s')" and "dxEver s \<subseteq>\<^sub>m dxEver s'" and "dxRegistered s \<subseteq>\<^sub>m dxRegistered s'"
  using assms by (simp_all add: dx_moves_def)

lemma moves_wire: "dx_moves t s s' \<Longrightarrow> w \<in> set (dxWire s) \<Longrightarrow> w \<in> set (dxWire s')"
  using movesD(1) set_mono_prefix by blast

lemma moves_ever: "dx_moves t s s' \<Longrightarrow> dxEver s c = Some x \<Longrightarrow> dxEver s' c = Some x"
  using movesD(2) unfolding map_le_def by (metis domI)

lemma moves_registered: "dx_moves t s s' \<Longrightarrow> dxRegistered s u = Some x \<Longrightarrow> dxRegistered s' u = Some x"
  using movesD(3) unfolding map_le_def by (metis domI)

lemma kept_const [simp]: "lasts env (\<lambda>s. b)"
  by (simp add: lasts_def)

lemma kept_conj [simp]: "lasts env P \<Longrightarrow> lasts env Q \<Longrightarrow> lasts env (\<lambda>s. P s \<and> Q s)"
  unfolding lasts_def by blast

lemma kept_imp [simp]: "lasts env P \<Longrightarrow> lasts env (\<lambda>s. b \<longrightarrow> P s)"
  unfolding lasts_def by blast

lemma kept_reported [simp]: "lasts env (reported c)"
  unfolding lasts_def reported_def using moves_wire by blast

lemma kept_heard [simp]: "lasts env (heard c u st)"
  unfolding lasts_def heard_def using moves_wire by blast

lemma kept_ever_as [simp]: "lasts env (ever_as c)"
  unfolding lasts_def ever_as_def using moves_ever by blast

lemma kept_true_result [simp]: "lasts env (true_result c)"
  unfolding true_result_def by simp

lemma kept_registered [simp]: "lasts env (\<lambda>s. dxRegistered s u = Some cn)"
  unfolding lasts_def using moves_registered by blast

lemma kept_done_for [simp]: "lasts env (done_for x)"
proof -
  have "reported c s'" if "dx_inv env s" "dx_moves t s s'" "reported c s" for c t s s'
    using kept_reported [of env c] that unfolding lasts_def by blast
  then show ?thesis unfolding lasts_def done_for_def using moves_ever by meson
qed

lemma kept_stable: "lasts env P \<Longrightarrow> stable (dx_inv env) (dx_rely t) P"
  unfolding lasts_def stable_def dx_rely_def by blast

abbreviation dx_stable :: "dx_env \<Rightarrow> nat \<Rightarrow> (dx_state \<Rightarrow> bool) \<Rightarrow> bool" where
  "dx_stable env t \<equiv> stable (dx_inv env) (dx_rely t)"

lemma dx_stable_conj: "dx_stable env t P \<Longrightarrow> dx_stable env t Q \<Longrightarrow> dx_stable env t (\<lambda>s. P s \<and> Q s)"
  unfolding stable_def by blast

text \<open>The lock, and a command of one's own that is bound to no connection yet.\<close>

definition holds_lock :: "nat \<Rightarrow> string option \<Rightarrow> dx_state \<Rightarrow> bool" where
  "holds_lock t w s \<longleftrightarrow> dxWriter s = Some (t, w)"

definition mine :: "nat \<Rightarrow> DeviceCommand \<Rightarrow> dx_state \<Rightarrow> bool" where
  "mine t c s \<longleftrightarrow> (\<exists>r \<in> set (dxRows s). dcEnvelope r = dcEnvelope c \<and> dcDeviceID r = dcDeviceID c \<and> dcOwner r = t)
     \<and> \<not> is_bound (command_id c) s"

lemma holds_lock_stable [simp]: "dx_stable env t (holds_lock t w)"
  unfolding stable_def dx_rely_def dx_moves_def holds_lock_def by metis

lemma same_row: "table_ok s \<Longrightarrow> r \<in> set (dxRows s) \<Longrightarrow> q \<in> set (dxRows s) \<Longrightarrow> command_id r = command_id q \<Longrightarrow> r = q"
  by (auto simp: table_ok_def distinct_map inj_on_def)

text \<open>No other goroutine takes a row away from its owner, or binds or sends the command.\<close>

lemma own_row_stays:
  assumes inv: "dx_inv env s" and rely: "dx_rely t s s'" and r: "r \<in> set (dxRows s)" "dcOwner r = t"
  shows "persists r s'" and "w = WSent (command_id r) u \<or> w = WBound (command_id r) u \<Longrightarrow> w \<in> set (dxWire s') \<Longrightarrow> w \<in> set (dxWire s)"
proof -
  from rely obtain v where v: "v \<noteq> t" "dx_moves v s s'" by (auto simp: dx_rely_def)
  have "\<forall>r \<in> set (dxRows s). persists r s' \<or> dcOwner r = v \<and> \<not> is_bound (command_id r) s" using v(2) by (simp add: dx_moves_def)
  with v(1) r show "persists r s'" by auto
  assume w: "w = WSent (command_id r) u \<or> w = WBound (command_id r) u" "w \<in> set (dxWire s')"
  show "w \<in> set (dxWire s)"
  proof (rule ccontr)
    assume "w \<notin> set (dxWire s)"
    then obtain q where "q \<in> set (dxRows s)" "command_id q = command_id r" "dcOwner q = v"
      using v(2) w unfolding dx_moves_def by blast
    with same_row [of s q r] r inv v(1) show False by (simp add: dx_inv_def)
  qed
qed

lemma mine_stable [simp]: "dx_stable env t (mine t c)"
  unfolding stable_def
proof (intro allI impI)
  fix s s' assume inv: "dx_inv env s" and rely: "dx_rely t s s'" and m: "mine t c s"
  from m obtain r where r: "r \<in> set (dxRows s)" "dcEnvelope r = dcEnvelope c" "dcDeviceID r = dcDeviceID c" "dcOwner r = t"
    and unbound: "\<not> is_bound (command_id c) s" by (auto simp: mine_def)
  have "persists r s'" by (rule own_row_stays(1) [OF inv rely r(1,4)])
  then have "\<exists>q \<in> set (dxRows s'). dcEnvelope q = dcEnvelope c \<and> dcDeviceID q = dcDeviceID c \<and> dcOwner q = t"
    using r(2-4) by (auto simp: persists_def)
  moreover have "\<not> is_bound (command_id c) s'"
    using own_row_stays(2) [OF inv rely r(1,4)] r(2) unbound unfolding is_bound_def by metis
  ultimately show "mine t c s'" by (simp add: mine_def)
qed

lemma sendable_stable [simp]: "dx_stable env t (sendable env t c u)"
  unfolding stable_def
proof (intro allI impI)
  fix s s' assume inv: "dx_inv env s" and rely: "dx_rely t s s'" and m: "sendable env t c u s"
  from m obtain r cn where r: "r \<in> set (dxRows s)" "dcOwner r = t" and c: "command_id r = c"
      and cn: "dxRegistered s u = Some cn" "vcDevice cn = dcDeviceID r"
    and unsent: "\<forall>v. WSent c v \<notin> set (dxWire s)" and bound: "WBound c u \<in> set (dxWire s)" by (auto simp: sendable_def)
  have "persists r s'" by (rule own_row_stays(1) [OF inv rely r])
  then obtain q where q: "q \<in> set (dxRows s')" "dcEnvelope q = dcEnvelope r" "dcDeviceID q = dcDeviceID r" "dcOwner q = t"
    using r(2) by (auto simp: persists_def)
  have "\<forall>v. WSent c v \<notin> set (dxWire s')"
    using own_row_stays(2) [OF inv rely r] c unsent by metis
  moreover have "WBound c u \<in> set (dxWire s')" "dxRegistered s' u = Some cn"
    using rely bound cn(1) moves_wire moves_registered by (auto simp: dx_rely_def)
  ultimately show "sendable env t c u s'" using q c cn(2) unfolding sendable_def
    by (intro conjI bexI [of _ q] exI [of _ cn]) simp_all
qed

section \<open>The actions\<close>

lemma dx_guar_refl: "dx_inv env s \<Longrightarrow> dx_guar env t s s"
  by (auto simp: dx_guar_def dx_moves_def persists_def)

lemma invD:
  assumes "dx_inv env s"
  shows "table_ok s" and "r \<in> set (dxRows s) \<Longrightarrow> drow_ok env s r" and "wire_ok s" and "conns_ok s"
    and "dxEver s c \<noteq> None \<Longrightarrow> trim_space c = c"
  using assms by (simp_all add: dx_inv_def)

lemma ever_le: "m \<subseteq>\<^sub>m m' \<Longrightarrow> m x = Some y \<Longrightarrow> m' x = Some y"
  by (metis domI map_le_def)

lemma reported_mono: "prefix (dxWire s) (dxWire s') \<Longrightarrow> reported c s \<Longrightarrow> reported c s'"
  unfolding reported_def using set_mono_prefix by blast

lemma drow_mono:
  assumes "drow_ok env s r" and "dxEver s \<subseteq>\<^sub>m dxEver s'" and "prefix (dxWire s) (dxWire s')"
    and "dcTrail r = [] \<Longrightarrow> guarded env r s \<Longrightarrow> guarded env r s'"
  shows "drow_ok env s' r"
  using assms(1,4) reported_mono [OF assms(3)] ever_le [OF assms(2)] unfolding drow_ok_def by blast

lemma guarded_same: "dxAssign s' = dxAssign s \<Longrightarrow> guarded env r s' = guarded env r s"
  by (simp add: guarded_def insert_guard_def)

lemma persists_same: "dxRows s' = dxRows s \<Longrightarrow> r \<in> set (dxRows s) \<Longrightarrow> persists r s'"
  by (auto simp: persists_def)

lemma table_same: "dxRows s' = dxRows s \<Longrightarrow> table_ok s' = table_ok s"
  unfolding table_ok_def by (erule ssubst) (rule refl)

lemma table_distinct: "table_ok s \<Longrightarrow> distinct (map command_id (dxRows s))"
  by (simp add: table_ok_def)

lemma wire_same: "dxRows s' = dxRows s \<Longrightarrow> dxWire s' = dxWire s \<Longrightarrow> dxRegistered s' = dxRegistered s \<Longrightarrow> wire_ok s' = wire_ok s"
  by (simp add: wire_ok_def)

text \<open>An action that leaves commands, histories and assignments alone and adds no connection.\<close>

lemma guar_frame:
  assumes inv: "dx_inv env s"
    and same: "dxRows s' = dxRows s" "dxEver s' = dxEver s" "dxWire s' = dxWire s" "dxRegistered s' = dxRegistered s"
      "dxAssign s' = dxAssign s" "dxWriter s' = dxWriter s"
    and conns: "\<And>d cn. map_of (dxConns s') d = Some cn \<Longrightarrow> map_of (dxConns s) d = Some cn"
    and inflight: "set (dxInflight s') \<subseteq> set (dxInflight s)"
  shows "dx_guar env t s s'"
proof -
  have "table_ok s'" using invD(1) [OF inv] table_same [OF same(1)] by simp
  moreover have "wire_ok s'" using invD(3) [OF inv] wire_same [OF same(1,3,4)] by simp
  moreover have "conns_ok s'" using invD(4) [OF inv] conns inflight unfolding conns_ok_def same by blast
  moreover have "drow_ok env s' r" if "r \<in> set (dxRows s)" for r
    using drow_mono [OF invD(2) [OF inv that], of s'] guarded_same [OF same(5)] by (simp add: same)
  ultimately have "dx_inv env s'" using inv by (simp add: dx_inv_def same)
  moreover have "dx_moves t s s'"
    by (auto simp: dx_moves_def same settled_def persists_def)
  ultimately show ?thesis by (simp add: dx_guar_def)
qed

lemma guar_event: "dx_inv env s \<Longrightarrow> dx_guar env t s (fst (recordCommandEvent env cid ty i s))"
  by (auto simp: recordCommandEvent_def dx_guar_refl intro!: guar_frame)

lemma delete_subset: "set (AList.delete k al) \<subseteq> set al"
  by (auto simp: AList.delete_eq)

lemma guar_unbind: "dx_inv env s \<Longrightarrow> dx_guar env t s (fst (unbindCommand cid u i s))"
  by (auto simp: unbindCommand_def Let_def dx_guar_refl intro!: guar_frame dest: subsetD [OF delete_subset])

lemma guar_close: "dx_inv env s \<Longrightarrow> dx_guar env t s (fst (close_conn u i s))"
  by (auto simp: close_conn_def intro!: guar_frame)


lemma guar_unregister: "dx_inv env s \<Longrightarrow> dx_guar env t s (fst (unregister_section cn i s))"
  by (auto simp: unregister_section_def Let_def delete_conv' split: if_splits option.splits intro!: guar_frame)

lemma guar_ack: "dx_inv env s \<Longrightarrow> dx_guar env t s (fst (deliverTabletAssignmentAck cn ack i s))"
  by (auto simp: deliverTabletAssignmentAck_def dx_guar_refl split: option.split intro!: guar_frame)

lemma guar_grant: "dx_inv env s \<Longrightarrow> dx_guar env t s (fst (grant_scope cn p n e i s))"
  by (auto simp: grant_scope_def dx_guar_refl intro!: guar_frame)

lemma guar_begin: "dx_inv env s \<Longrightarrow> dx_guar env t s (fst (begin_transition x g aid i s))"
  by (auto simp: begin_transition_def dx_guar_refl split: option.split intro!: guar_frame)

lemma guar_end: "dx_inv env s \<Longrightarrow> dx_guar env t s (fst (end_transition x aid i s))"
  by (auto simp: end_transition_def intro!: guar_frame)

text \<open>The lock.\<close>

lemma inv_writer:
  assumes inv: "dx_inv env s"
  shows "dx_inv env (s\<lparr>dxWriter := w\<rparr>)"
proof -
  have "drow_ok env (s\<lparr>dxWriter := w\<rparr>) r" if "r \<in> set (dxRows s)" for r
    using drow_mono [OF invD(2) [OF inv that], of "s\<lparr>dxWriter := w\<rparr>"] guarded_same [of "s\<lparr>dxWriter := w\<rparr>" s] by simp
  moreover have "table_ok (s\<lparr>dxWriter := w\<rparr>)" using invD(1) [OF inv] table_same [of "s\<lparr>dxWriter := w\<rparr>" s] by simp
  moreover have "wire_ok (s\<lparr>dxWriter := w\<rparr>)" using invD(3) [OF inv] wire_same [of "s\<lparr>dxWriter := w\<rparr>" s] by simp
  ultimately show ?thesis using inv by (simp add: dx_inv_def conns_ok_def)
qed

lemma guar_lock:
  assumes inv: "dx_inv env s" and "lock_results t i s = Some (s', a)"
  shows "dx_guar env t s s'" and "holds_lock t None s'"
proof -
  have s': "s' = s\<lparr>dxWriter := Some (t, None)\<rparr>" "dxWriter s = None"
    using assms(2) by (cases "dxWriter s"; simp add: lock_results_def)+
  have "dx_inv env s'" using inv_writer [OF inv] by (simp add: s')
  moreover have "dx_moves t s s'" using s'(2) by (auto simp: dx_moves_def s' settled_def persists_def)
  ultimately show "dx_guar env t s s'" "holds_lock t None s'" by (simp_all add: dx_guar_def s' holds_lock_def)
qed

lemma guar_unlock:
  assumes inv: "dx_inv env s" and "holds_lock t w s"
  shows "dx_guar env t s (fst (unlock_results i s))"
proof -
  have "dx_inv env (s\<lparr>dxWriter := None\<rparr>)"
    by (rule inv_writer [OF inv])
  moreover have "dx_moves t s (s\<lparr>dxWriter := None\<rparr>)"
    using assms(2) by (auto simp: dx_moves_def settled_def persists_def holds_lock_def)
  ultimately show ?thesis by (simp add: dx_guar_def unlock_results_def)
qed

lemma settled_other:
  assumes "settled cid st res s" and "\<And>r. r \<in> set (dxRows s) \<Longrightarrow> dcStatus r \<noteq> CommandAccepted \<Longrightarrow> command_id r = cid \<Longrightarrow> r \<in> set (dxRows s')"
    and "\<forall>v. dxWriter s' \<noteq> Some (v, Some cid)"
  shows "settled cid st res s'"
  using assms unfolding settled_def by metis

lemma guar_insert_command:
  assumes inv: "dx_inv env s" and c: "c = new_device_command t input cid payload now" "trim_space cid = cid"
    and run: "insert_device_command env c i s = (s', b)"
  shows "dx_guar env t s s'" and "b \<Longrightarrow> mine t c s' \<and> ever_as c s'"
proof -
  have "dx_guar env t s s' \<and> (b \<longrightarrow> mine t c s' \<and> ever_as c s')"
  proof (cases "s' = s")
    case True
    moreover have "\<not> b"
    proof
      assume b
      then have "dxRows s' = dxRows s @ [c]" using run by (auto simp: insert_device_command_def split: if_split_asm)
      with True show False by simp
    qed
    ultimately show ?thesis by (simp add: dx_guar_refl inv)
  next
    case False
    then have s': "s' = s\<lparr>dxRows := dxRows s @ [c], dxEver := (dxEver s)(command_id c \<mapsto> (dcDeviceID c, dc_key c))\<rparr>"
      and new: "dxEver s (command_id c) = None"
      and key: "dc_key c \<noteq> [] \<longrightarrow> \<not> (\<exists>r \<in> set (dxRows s). dcDeviceID r = dcDeviceID c \<and> dc_key r = dc_key c)"
      and g: "insert_guard env (dcDeviceID c) (ceProjectID (dcEnvelope c)) (ceRuntimeSnapshotID (dcEnvelope c)) s"
      using run unfolding insert_device_command_def by (simp_all split: if_split_asm) (cases "dxEver s (command_id c)"; auto)+
    have cs: "dcTrail c = []" "dcStatus c = CommandAccepted" "dcOwner c = t" "command_id c = cid"
      by (simp_all add: c(1) new_device_command_def)
    have ever: "dxEver s \<subseteq>\<^sub>m dxEver s'" using new by (auto simp: s' map_le_def)
    have known: "dxEver s (command_id r) = Some (dcDeviceID r, dc_key r)" if "r \<in> set (dxRows s)" for r
      using invD(2) [OF inv that] by (simp add: drow_ok_def)
    have fresh: "command_id r \<noteq> command_id c" if "r \<in> set (dxRows s)" for r
      using known [OF that] new by auto
    have "table_ok s'"
      unfolding table_ok_def
    proof (intro conjI ballI impI)
      show "distinct (map command_id (dxRows s'))"
      proof -
        have "command_id c \<notin> command_id ` set (dxRows s)" using fresh by (metis imageE)
        then show ?thesis using table_distinct [OF invD(1) [OF inv]] by (simp add: s')
      qed
    next
      fix r q assume "r \<in> set (dxRows s')" "q \<in> set (dxRows s')" "dc_key r \<noteq> []" "dcDeviceID r = dcDeviceID q" "dc_key r = dc_key q"
      then show "command_id r = command_id q"
        using invD(1) [OF inv] key unfolding s' table_ok_def by fastforce
    qed
    moreover have "drow_ok env s' r" if "r \<in> set (dxRows s')" for r
    proof (cases "r = c")
      case True
      then show ?thesis using cs g guarded_same [of s' s env c] by (simp add: drow_ok_def s' guarded_def)
    next
      case False
      then have "r \<in> set (dxRows s)" using that by (simp add: s')
      from drow_mono [OF invD(2) [OF inv this] ever] guarded_same [of s' s] show ?thesis by (simp add: s')
    qed
    moreover have "wire_ok s'" using invD(3) [OF inv] unfolding wire_ok_def s' by simp
    moreover have "conns_ok s'" using invD(4) [OF inv] by (simp add: conns_ok_def s')
    moreover have "trim_space x = x" if "dxEver s' x \<noteq> None" for x
      using that invD(5) [OF inv, of x] c(2) cs(4) by (auto simp: s' split: if_splits)
    ultimately have "dx_inv env s'" by (simp add: dx_inv_def)
    moreover have "dx_moves t s s'"
      using ever by (auto simp: dx_moves_def s' persists_def settled_def)
    moreover have "mine t c s'"
    proof -
      have "\<not> is_bound cid s"
        using invD(3) [OF inv] fresh cs(4) unfolding wire_ok_def is_bound_def by metis
      then show ?thesis using cs by (auto simp: mine_def s' is_bound_def)
    qed
    moreover have "ever_as c s'" by (simp add: ever_as_def s')
    ultimately show ?thesis by (simp add: dx_guar_def)
  qed
  then show "dx_guar env t s s'" "b \<Longrightarrow> mine t c s' \<and> ever_as c s'" by simp_all
qed

text \<open>Rows that change their status: identity and owner stay, and what is written is true.\<close>

lemma guar_command_rows:
  assumes inv: "dx_inv env s"
    and ids: "\<And>r. dcEnvelope (f r) = dcEnvelope r \<and> dcDeviceID (f r) = dcDeviceID r \<and> dcOwner (f r) = dcOwner r"
    and ok: "\<And>r. r \<in> set (dxRows s) \<Longrightarrow> drow_ok env s (f r)"
    and settled: "\<And>cid st res. settled cid st res s \<Longrightarrow> settled cid st res (s\<lparr>dxRows := map f (dxRows s), dxWriter := w\<rparr>)"
    and lock: "\<And>u v. dxWriter s = Some (u, v) \<Longrightarrow> u \<noteq> t \<Longrightarrow> w = dxWriter s"
  shows "dx_guar env t s (s\<lparr>dxRows := map f (dxRows s), dxWriter := w\<rparr>)" (is "dx_guar env t s ?s")
proof -
  have "table_ok ?s"
  proof -
    have same: "map command_id (map f (dxRows s)) = map command_id (dxRows s)" using ids by simp
    have "distinct (map command_id (map f (dxRows s)))" unfolding same by (rule table_distinct [OF invD(1) [OF inv]])
    moreover have rows: "dxRows ?s = map f (dxRows s)" by simp
    moreover have "command_id x = command_id y" if xy: "x \<in> set (map f (dxRows s))" "y \<in> set (map f (dxRows s))" "dc_key x \<noteq> []"
        "dcDeviceID x = dcDeviceID y" "dc_key x = dc_key y" for x y
    proof -
      obtain r q where rq: "r \<in> set (dxRows s)" "q \<in> set (dxRows s)" "x = f r" "y = f q" using xy(1,2) by auto
      then have "dc_key r \<noteq> []" "dcDeviceID r = dcDeviceID q" "dc_key r = dc_key q"
        using xy(3-5) ids [of r] ids [of q] by simp_all
      with rq(1,2) have "command_id r = command_id q" using invD(1) [OF inv] unfolding table_ok_def by blast
      then show ?thesis using rq(3,4) ids [of r] ids [of q] by simp
    qed
    ultimately show ?thesis unfolding table_ok_def rows by blast
  qed
  moreover have "drow_ok env ?s r" if "r \<in> set (dxRows ?s)" for r
  proof -
    from that obtain q where "q \<in> set (dxRows s)" "r = f q" by auto
    with drow_mono [OF ok, of q ?s] guarded_same [of ?s s] show ?thesis by simp
  qed
  moreover have "wire_ok ?s"
  proof -
    have "\<exists>r \<in> set (dxRows ?s). command_id r = c \<and> (\<exists>cn. dxRegistered ?s u = Some cn \<and> vcDevice cn = dcDeviceID r)"
      if w: "WBound c u \<in> set (dxWire s)" for c u
    proof -
      obtain r cn where "r \<in> set (dxRows s)" "command_id r = c" "dxRegistered s u = Some cn" "vcDevice cn = dcDeviceID r"
        using invD(3) [OF inv] w unfolding wire_ok_def by blast
      then show ?thesis using ids [of r] by (intro bexI [of _ "f r"] conjI exI [of _ cn]) simp_all
    qed
    then show ?thesis using invD(3) [OF inv] by (simp add: wire_ok_def)
  qed
  ultimately have "dx_inv env ?s" using inv by (simp add: dx_inv_def conns_ok_def)
  moreover have "dx_moves t s ?s"
  proof -
    have "persists r ?s" if "r \<in> set (dxRows s)" for r
      using that ids [of r] by (auto simp: persists_def)
    then show ?thesis using settled lock unfolding dx_moves_def by simp
  qed
  ultimately show ?thesis by (simp add: dx_guar_def)
qed

lemma guar_write:
  assumes inv: "dx_inv env s" and lock: "holds_lock t None s" and st: "st \<noteq> CommandAccepted"
    and true: "st = CommandCompleted \<Longrightarrow> reported cid s" and run: "write_result t cid st result i s = (s', a)"
  shows "dx_guar env t s s'" and "\<exists>w. holds_lock t w s' \<and> (\<forall>n now. a = Inr (n, now) \<longrightarrow> n \<noteq> 0 \<longrightarrow> w = Some cid)"
proof -
  define now where "now = unix_micro (xiNow i)"
  let ?hit = "\<lambda>r. command_id r = cid \<and> dcStatus r = CommandAccepted"
  define f where "f r = (if ?hit r then r\<lparr>dcStatus := st, dcResult := result, dcCompletedUS := Some now, dcTrail := dcTrail r @ [st]\<rparr> else r)" for r
  define w where "w = (if filter ?hit (dxRows s) = [] then dxWriter s else Some (t, Some cid))"
  have go: "dx_guar env t s (s\<lparr>dxRows := map f (dxRows s), dxWriter := w\<rparr>)"
  proof (rule guar_command_rows [OF inv])
    fix r show "dcEnvelope (f r) = dcEnvelope r \<and> dcDeviceID (f r) = dcDeviceID r \<and> dcOwner (f r) = dcOwner r" by (simp add: f_def)
  next
    fix r assume "r \<in> set (dxRows s)"
    with invD(2) [OF inv] have "drow_ok env s r" by blast
    then show "drow_ok env s (f r)" using true st by (auto simp: f_def drow_ok_def)
  next
    fix c st' res assume set: "settled c st' res s"
    then obtain r where r: "r \<in> set (dxRows s)" "command_id r = c" "dcStatus r \<noteq> CommandAccepted" unfolding settled_def by blast
    have "w \<noteq> Some (v, Some c)" for v
    proof
      assume "w = Some (v, Some c)"
      then have "c = cid" "filter ?hit (dxRows s) \<noteq> []" using set by (auto simp: w_def settled_def split: if_splits)
      then obtain q where "q \<in> set (dxRows s)" "?hit q" by (auto simp: filter_empty_conv)
      with same_row [OF invD(1) [OF inv], of q r] r \<open>c = cid\<close> show False by auto
    qed
    then show "settled c st' res (s\<lparr>dxRows := map f (dxRows s), dxWriter := w\<rparr>)"
      by (intro settled_other [OF set]) (auto simp: f_def image_iff intro!: bexI)
  next
    fix u v assume "dxWriter s = Some (u, v)" "u \<noteq> t"
    then show "w = dxWriter s" using lock by (simp add: holds_lock_def)
  qed
  have cases: "s' = s \<and> a = Inl (ErrOtherDx ''complete stage device command'')
      \<or> s' = s\<lparr>dxRows := map f (dxRows s), dxWriter := w\<rparr> \<and> (\<forall>n now. a = Inr (n, now) \<longrightarrow> n = length (filter ?hit (dxRows s)))"
    using run unfolding write_result_def Let_def f_def w_def now_def by (auto split: if_split_asm)
  then show "dx_guar env t s s'" using go dx_guar_refl [OF inv] by blast
  show "\<exists>w. holds_lock t w s' \<and> (\<forall>n now. a = Inr (n, now) \<longrightarrow> n \<noteq> 0 \<longrightarrow> w = Some cid)"
    using cases
  proof
    assume "s' = s\<lparr>dxRows := map f (dxRows s), dxWriter := w\<rparr> \<and> (\<forall>n now. a = Inr (n, now) \<longrightarrow> n = length (filter ?hit (dxRows s)))"
    then show ?thesis using lock
      by (intro exI [of _ "if filter ?hit (dxRows s) = [] then None else Some cid"]) (auto simp: holds_lock_def w_def)
  next
    assume "s' = s \<and> a = Inl (ErrOtherDx ''complete stage device command'')"
    then show ?thesis using lock by (intro exI [of _ None]) simp
  qed
qed

lemma guar_take_back:
  assumes inv: "dx_inv env s" and lock: "holds_lock t (Some cid) s" and st: "st \<noteq> CommandAccepted"
  shows "dx_guar env t s (fst (take_back cid st now i s))"
proof -
  let ?hit = "\<lambda>r. command_id r = cid \<and> dcStatus r = st \<and> dcCompletedUS r = Some now"
  define f where "f r = (if ?hit r then r\<lparr>dcStatus := CommandAccepted, dcResult := [], dcCompletedUS := None\<rparr> else r)" for r
  have "dx_guar env t s (s\<lparr>dxRows := map f (dxRows s), dxWriter := dxWriter s\<rparr>)"
  proof (rule guar_command_rows [OF inv])
    fix r show "dcEnvelope (f r) = dcEnvelope r \<and> dcDeviceID (f r) = dcDeviceID r \<and> dcOwner (f r) = dcOwner r" by (simp add: f_def)
  next
    fix r assume "r \<in> set (dxRows s)"
    with invD(2) [OF inv] have "drow_ok env s r" by blast
    then show "drow_ok env s (f r)" using st by (auto simp: f_def drow_ok_def guarded_def)
  next
    fix c st' res assume set: "settled c st' res s"
    have "c \<noteq> cid" using lock set by (auto simp: holds_lock_def settled_def)
    then show "settled c st' res (s\<lparr>dxRows := map f (dxRows s), dxWriter := dxWriter s\<rparr>)"
      using set by (intro settled_other [OF set]) (auto simp: f_def image_iff settled_def intro!: bexI)
  qed simp
  then show ?thesis using dx_guar_refl [OF inv] by (simp add: take_back_def f_def [abs_def])
qed

text \<open>A command that is one's own and bound to no connection may be deleted.\<close>

lemma guar_delete:
  assumes inv: "dx_inv env s" and own: "\<And>r. r \<in> set (dxRows s) \<Longrightarrow> command_id r = cid \<Longrightarrow> dcOwner r = t" and unbound: "\<not> is_bound cid s"
  shows "dx_guar env t s (fst (delete_command cid i s))"
proof -
  let ?P = "\<lambda>r. \<not> (command_id r = cid \<and> dcStatus r = CommandAccepted)"
  let ?s = "s\<lparr>dxRows := filter ?P (dxRows s)\<rparr>"
  have rows: "dxRows ?s = filter ?P (dxRows s)" by simp
  have "distinct (map command_id (filter ?P (dxRows s)))" using table_distinct [OF invD(1) [OF inv]] by (rule distinct_map_filter)
  then have "table_ok ?s" using invD(1) [OF inv] unfolding table_ok_def rows by fastforce
  moreover have "drow_ok env ?s r" if "r \<in> set (dxRows ?s)" for r
    using drow_mono [OF invD(2) [OF inv], of r ?s] guarded_same [of ?s s] that by simp
  moreover have "wire_ok ?s"
  proof -
    have "\<exists>r \<in> set (dxRows ?s). command_id r = c \<and> (\<exists>cn. dxRegistered ?s u = Some cn \<and> vcDevice cn = dcDeviceID r)"
      if w: "WBound c u \<in> set (dxWire s)" for c u
    proof -
      obtain r cn where r: "r \<in> set (dxRows s)" "command_id r = c" "dxRegistered s u = Some cn" "vcDevice cn = dcDeviceID r"
        using invD(3) [OF inv] w unfolding wire_ok_def by blast
      moreover have "c \<noteq> cid" using w unbound by (auto simp: is_bound_def)
      ultimately show ?thesis by (intro bexI [of _ r] conjI exI [of _ cn]) simp_all
    qed
    then show ?thesis using invD(3) [OF inv] by (simp add: wire_ok_def)
  qed
  ultimately have "dx_inv env ?s" using inv by (simp add: dx_inv_def conns_ok_def)
  moreover have "dx_moves t s ?s"
  proof -
    have "persists r ?s \<or> dcOwner r = t \<and> \<not> is_bound (command_id r) s" if "r \<in> set (dxRows s)" for r
      using that own [of r] unbound by (auto simp: persists_def)
    then show ?thesis unfolding dx_moves_def by (auto simp: settled_def)
  qed
  ultimately have "dx_guar env t s ?s" by (simp add: dx_guar_def)
  then show ?thesis using dx_guar_refl [OF inv] by (simp add: delete_command_def)
qed

lemma update_subset: "set (AList.update k v al) \<subseteq> insert (k, v) (set al)"
  by (induction al) auto

text \<open>What happens on the sockets only adds to the history.\<close>

lemma guar_wire:
  assumes inv: "dx_inv env s"
    and same: "dxRows s' = dxRows s" "dxEver s' = dxEver s" "dxRegistered s' = dxRegistered s" "dxAssign s' = dxAssign s"
      "dxWriter s' = dxWriter s" "dxConns s' = dxConns s"
    and wire: "dxWire s' = dxWire s @ [w]" and ok: "wire_ok s'" and inflight: "\<forall>(c, u) \<in> set (dxInflight s'). WBound c u \<in> set (dxWire s')"
    and sent: "\<And>c u. w = WSent c u \<or> w = WBound c u \<Longrightarrow> \<exists>r \<in> set (dxRows s). command_id r = c \<and> dcOwner r = t"
  shows "dx_guar env t s s'"
proof -
  have "table_ok s'" using invD(1) [OF inv] table_same [OF same(1)] by simp
  moreover have "conns_ok s'" using invD(4) [OF inv] inflight by (simp add: conns_ok_def same)
  moreover have "drow_ok env s' r" if "r \<in> set (dxRows s)" for r
    using drow_mono [OF invD(2) [OF inv that], of s'] guarded_same [OF same(4)] by (simp add: same wire)
  ultimately have "dx_inv env s'" using inv ok by (simp add: dx_inv_def same)
  moreover have "dx_moves t s s'"
    using sent by (auto simp: dx_moves_def same wire settled_def persists_def)
  ultimately show ?thesis by (simp add: dx_guar_def)
qed

lemma guar_bind:
  assumes inv: "dx_inv env s" and m: "mine t c s" and run: "bind_command c cap i s = (s', a)"
  shows "dx_guar env t s s'" and "a = Inr cn \<Longrightarrow> sendable env t (command_id c) (vcServe cn) s'"
proof -
  obtain r where r: "r \<in> set (dxRows s)" "dcEnvelope r = dcEnvelope c" "dcDeviceID r = dcDeviceID c" "dcOwner r = t"
    and unbound: "\<not> is_bound (command_id c) s" using m by (auto simp: mine_def)
  have unsent: "\<forall>v. WSent (command_id c) v \<notin> set (dxWire s)"
    using unbound invD(3) [OF inv] unfolding is_bound_def wire_ok_def by blast
  have cases: "s' = s \<and> (\<exists>e. a = Inl e) \<or> (\<exists>cn. a = Inr cn \<and> map_of (dxConns s) (dcDeviceID c) = Some cn
      \<and> s' = s\<lparr>dxInflight := AList.update (command_id c) (vcServe cn) (dxInflight s), dxWire := dxWire s @ [WBound (command_id c) (vcServe cn)]\<rparr>)"
    using run unfolding bind_command_def Let_def by (auto split: option.splits if_split_asm)
  have "dx_guar env t s s' \<and> (\<forall>cn. a = Inr cn \<longrightarrow> sendable env t (command_id c) (vcServe cn) s')"
    using cases
  proof
    assume "s' = s \<and> (\<exists>e. a = Inl e)"
    then show ?thesis using dx_guar_refl [OF inv] by auto
  next
    assume "\<exists>cn. a = Inr cn \<and> map_of (dxConns s) (dcDeviceID c) = Some cn
      \<and> s' = s\<lparr>dxInflight := AList.update (command_id c) (vcServe cn) (dxInflight s), dxWire := dxWire s @ [WBound (command_id c) (vcServe cn)]\<rparr>"
    then obtain cn where a: "a = Inr cn" and cn: "map_of (dxConns s) (dcDeviceID c) = Some cn"
      and s': "s' = s\<lparr>dxInflight := AList.update (command_id c) (vcServe cn) (dxInflight s), dxWire := dxWire s @ [WBound (command_id c) (vcServe cn)]\<rparr>"
      by blast
    have reg: "vcDevice cn = dcDeviceID c" "dxRegistered s (vcServe cn) = Some cn" using invD(4) [OF inv] cn by (auto simp: conns_ok_def)
    have "wire_ok s'"
      using invD(3) [OF inv] r(1-3) reg unfolding wire_ok_def by (auto simp: s' sent_of_def intro!: bexI [of _ r])
    moreover have "\<forall>(c, u) \<in> set (dxInflight s'). WBound c u \<in> set (dxWire s')"
    proof -
      have "set (dxInflight s') \<subseteq> insert (command_id c, vcServe cn) (set (dxInflight s))"
        by (simp add: s' update_subset)
      then show ?thesis using invD(4) [OF inv] unfolding conns_ok_def s' by auto
    qed
    ultimately have "dx_guar env t s s'"
      by (intro guar_wire [OF inv, where w = "WBound (command_id c) (vcServe cn)"]) (auto simp: s' r intro!: bexI [of _ r])
    moreover have "sendable env t (command_id c) (vcServe cn) s'"
      using r reg unsent by (auto simp: sendable_def s' intro!: bexI [of _ r])
    ultimately show ?thesis by (simp add: a)
  qed
  then show "dx_guar env t s s'" "a = Inr cn \<Longrightarrow> sendable env t (command_id c) (vcServe cn) s'" by simp_all
qed

lemma guar_send:
  assumes inv: "dx_inv env s" and m: "sendable env t c u s"
  shows "dx_guar env t s (fst (send_command c u i s))"
proof -
  have "dx_guar env t s (s\<lparr>dxWire := dxWire s @ [WSent c u]\<rparr>)"
  proof (rule guar_wire [OF inv])
    have none: "filter (sent_of c) (dxWire s) = []" using m by (auto simp: sendable_def sent_of_def filter_empty_conv)
    have "length (filter (sent_of x) (dxWire s @ [WSent c u])) \<le> 1" for x
      using invD(3) [OF inv] none by (cases "x = c") (auto simp: wire_ok_def sent_of_def)
    then show "wire_ok (s\<lparr>dxWire := dxWire s @ [WSent c u]\<rparr>)"
      using invD(3) [OF inv] m unfolding wire_ok_def sendable_def by auto
    show "\<forall>(c', u') \<in> set (dxInflight (s\<lparr>dxWire := dxWire s @ [WSent c u]\<rparr>)). WBound c' u' \<in> set (dxWire (s\<lparr>dxWire := dxWire s @ [WSent c u]\<rparr>))"
      using invD(4) [OF inv] by (auto simp: conns_ok_def)
    fix c' u' assume "WSent c u = WSent c' u' \<or> WSent c u = WBound c' u'"
    then show "\<exists>r \<in> set (dxRows s). command_id r = c' \<and> dcOwner r = t" using m by (auto simp: sendable_def)
  qed simp_all
  then show ?thesis using dx_guar_refl [OF inv] by (simp add: send_command_def)
qed

lemma guar_receive:
  assumes inv: "dx_inv env s" and run: "receive_message cn i s = (s', m)"
  shows "dx_guar env t s s'" and "m = Some (MsgResult cid (Some st) p) \<Longrightarrow> heard (trim_space cid) (vcServe cn) st s'"
proof -
  have cases: "s' = s \<or> (\<exists>c u st. s' = s\<lparr>dxWire := dxWire s @ [WReport c u st]\<rparr>)"
    using run unfolding receive_message_def by (auto split: option.splits dx_message.splits if_split_asm)
  have go: "dx_guar env t s (s\<lparr>dxWire := dxWire s @ [WReport c u st]\<rparr>)" for c u st
  proof (rule guar_wire [OF inv, where w = "WReport c u st"])
    show "wire_ok (s\<lparr>dxWire := dxWire s @ [WReport c u st]\<rparr>)"
      using invD(3) [OF inv] unfolding wire_ok_def by (simp add: sent_of_def)
    show "\<forall>(c', u') \<in> set (dxInflight (s\<lparr>dxWire := dxWire s @ [WReport c u st]\<rparr>)). WBound c' u' \<in> set (dxWire (s\<lparr>dxWire := dxWire s @ [WReport c u st]\<rparr>))"
      using invD(4) [OF inv] by (auto simp: conns_ok_def)
  qed simp_all
  show "dx_guar env t s s'" using cases go dx_guar_refl [OF inv] by blast
  show "heard (trim_space cid) (vcServe cn) st s'" if "m = Some (MsgResult cid (Some st) p)"
    using run that unfolding receive_message_def by (auto simp: heard_def split: option.splits dx_message.splits if_split_asm)
qed

text \<open>A goroutine serves one connection: it registers it when it starts.\<close>

lemma guar_sequence:
  assumes inv: "dx_inv env s"
  shows "dx_guar env t s (fst (next_generation cn i s))"
  unfolding next_generation_def by (auto simp: dx_guar_refl inv intro!: guar_frame [OF inv])

lemma next_generation_frame:
  "dxRows (fst (next_generation cn i s)) = dxRows s" "dxRegistered (fst (next_generation cn i s)) = dxRegistered s"
  "dxWire (fst (next_generation cn i s)) = dxWire s" "dxEver (fst (next_generation cn i s)) = dxEver s"
  "dxAssign (fst (next_generation cn i s)) = dxAssign s" "dxWriter (fst (next_generation cn i s)) = dxWriter s"
  "dxConns (fst (next_generation cn i s)) = dxConns s" "dxInflight (fst (next_generation cn i s)) = dxInflight s"
  by (simp_all add: next_generation_def)

lemma guar_register_conn:
  assumes inv: "dx_inv env s" and t: "vcServe cn = t" and new: "dxRegistered s t = None" and run: "register_conn cn i s = (s', a)"
  shows "dx_guar env t s s'" and "a = Some (cn', p) \<Longrightarrow> vcServe cn' = t \<and> vcDevice cn' = vcDevice cn \<and> dxRegistered s' t = Some cn'"
proof -
  obtain s1 g where gen: "next_generation cn i s = (s1, g)" by fastforce
  have frame: "dxRows s1 = dxRows s" "dxRegistered s1 = dxRegistered s" "dxWire s1 = dxWire s" "dxEver s1 = dxEver s"
      "dxAssign s1 = dxAssign s" "dxWriter s1 = dxWriter s" "dxConns s1 = dxConns s" "dxInflight s1 = dxInflight s"
    using next_generation_frame [of cn i s] by (simp_all add: gen)
  have cases: "s' = s \<and> a = None \<or> s' = s1 \<and> a = None \<or> (\<exists>sc g p. a = Some (cn\<lparr>vcGeneration := g\<rparr>, p)
      \<and> s' = s1\<lparr>dxConns := AList.update (vcDevice cn) (cn\<lparr>vcGeneration := g\<rparr>) (dxConns s1), dxScope := sc,
               dxRegistered := (dxRegistered s1)(vcServe cn \<mapsto> cn\<lparr>vcGeneration := g\<rparr>)\<rparr>)"
    using run gen unfolding register_conn_def Let_def by (cases g) (auto split: if_split_asm)
  have go: "dx_guar env t s (s1\<lparr>dxConns := AList.update (vcDevice cn) (cn\<lparr>vcGeneration := g\<rparr>) (dxConns s1), dxScope := sc,
               dxRegistered := (dxRegistered s1)(vcServe cn \<mapsto> cn\<lparr>vcGeneration := g\<rparr>)\<rparr>)" (is "dx_guar env t s ?s") for sc g
  proof -
    have table: "table_ok ?s" using invD(1) [OF inv] table_same [of ?s s] by (simp add: frame)
    have row: "drow_ok env ?s r" if "r \<in> set (dxRows s)" for r
      using drow_mono [OF invD(2) [OF inv that], of ?s] guarded_same [of ?s s] by (simp add: frame)
    have "\<exists>r \<in> set (dxRows s). command_id r = c \<and> (\<exists>d. ((dxRegistered s)(t \<mapsto> cn\<lparr>vcGeneration := g\<rparr>)) u = Some d \<and> vcDevice d = dcDeviceID r)"
      if w: "WBound c u \<in> set (dxWire s)" for c u
    proof -
      obtain r d where "r \<in> set (dxRows s)" "command_id r = c" "dxRegistered s u = Some d" "vcDevice d = dcDeviceID r"
        using invD(3) [OF inv] w unfolding wire_ok_def by blast
      then show ?thesis using new by (intro bexI [of _ r] conjI exI [of _ d]) auto
    qed
    then have wire: "wire_ok ?s" using invD(3) [OF inv] t by (simp add: wire_ok_def frame)
    have "vcServe d \<noteq> t" if "map_of (dxConns s) k = Some d" for k d
      using invD(4) [OF inv] new that unfolding conns_ok_def by auto
    then have "conns_ok ?s"
      using invD(4) [OF inv] t by (auto simp: conns_ok_def frame update_conv')
    then have "dx_inv env ?s" using inv table row wire by (simp add: dx_inv_def frame)
    moreover have "dxRegistered s \<subseteq>\<^sub>m dxRegistered ?s" using new t by (auto simp: map_le_def frame)
    moreover have "\<forall>u. u \<noteq> t \<longrightarrow> dxRegistered ?s u = dxRegistered s u" using t by (simp add: frame)
    ultimately show ?thesis by (auto simp: dx_guar_def dx_moves_def frame settled_def persists_def)
  qed
  show "dx_guar env t s s'" using cases go dx_guar_refl [OF inv] guar_sequence [OF inv, of t cn i] by (auto simp: gen)
  show "vcServe cn' = t \<and> vcDevice cn' = vcDevice cn \<and> dxRegistered s' t = Some cn'" if "a = Some (cn', p)"
    using cases that t by auto
qed

text \<open>A device is assigned anew only when no command of it is under way.\<close>

lemma guar_commit:
  assumes inv: "dx_inv env s"
  shows "dx_guar env t s (fst (CommitTabletSafeAssignment env x i s))"
proof (cases "fst (CommitTabletSafeAssignment env x i s) = s")
  case False
  let ?dev = "tiDeviceID (normalizeTabletAssignmentInput x)"
  from False have free: "free_to_assign (normalizeTabletAssignmentInput x) i s"
    unfolding CommitTabletSafeAssignment_def Let_def by (auto split: option.splits if_split_asm)
  from False obtain a where s': "fst (CommitTabletSafeAssignment env x i s) = s\<lparr>dxAssign := (dxAssign s)(?dev \<mapsto> a)\<rparr>"
    unfolding CommitTabletSafeAssignment_def Let_def by (auto split: option.splits if_split_asm)
  let ?s = "s\<lparr>dxAssign := (dxAssign s)(?dev \<mapsto> a)\<rparr>"
  have "drow_ok env ?s r" if r: "r \<in> set (dxRows s)" for r
  proof (rule drow_mono [OF invD(2) [OF inv r]])
    assume "dcTrail r = []"
    then have "dcStatus r = CommandAccepted" using invD(2) [OF inv r] by (simp add: drow_ok_def)
    then have "dcDeviceID r \<noteq> ?dev" using free r by (auto simp: free_to_assign_def)
    then show "guarded env r s \<Longrightarrow> guarded env r ?s" by (simp add: guarded_def insert_guard_def)
  qed simp_all
  moreover have "table_ok ?s" using invD(1) [OF inv] table_same [of ?s s] by simp
  moreover have "wire_ok ?s" using invD(3) [OF inv] wire_same [of ?s s] by simp
  ultimately have "dx_inv env ?s" using inv by (simp add: dx_inv_def conns_ok_def)
  then show ?thesis unfolding s' by (auto simp: dx_guar_def dx_moves_def settled_def persists_def)
qed (simp add: dx_guar_refl inv)

lemma guar_trans: "dx_guar env t s s1 \<Longrightarrow> dxWire s1 = dxWire s \<Longrightarrow> dx_guar env t s1 s2 \<Longrightarrow> dxRows s2 = dxRows s1 \<Longrightarrow> dxWire s2 = dxWire s1
    \<Longrightarrow> dxRows s1 = dxRows s \<Longrightarrow> dxWriter s1 = dxWriter s \<Longrightarrow> dxWriter s2 = dxWriter s1 \<Longrightarrow> dx_guar env t s s2"
  unfolding dx_guar_def dx_moves_def by (auto simp: persists_def settled_def intro: map_le_trans)

lemma guar_commit_assignment:
  assumes inv: "dx_inv env s"
  shows "dx_guar env t s (fst (commit_assignment env x cn i s))"
proof -
  obtain s1 b where run: "CommitTabletSafeAssignment env x i s = (s1, b)" by fastforce
  have g: "dx_guar env t s s1" using guar_commit [OF inv, of t x i] by (simp add: run)
  have same: "dxRows s1 = dxRows s" "dxWire s1 = dxWire s" "dxWriter s1 = dxWriter s"
    using run unfolding CommitTabletSafeAssignment_def Let_def by (auto split: option.splits if_split_asm)
  have "dx_guar env t s1 (s1\<lparr>dxShut := z\<rparr>)" for z
    by (rule guar_frame) (use g in \<open>simp_all add: dx_guar_def\<close>)
  from guar_trans [OF g same(2) this] same have "dx_guar env t s (s1\<lparr>dxShut := z\<rparr>)" for z by simp
  then show ?thesis using g dx_guar_refl [OF inv]
    by (auto simp: commit_assignment_def run split: option.split bool.split)
qed

lemma mine_same: "dxRows s' = dxRows s \<Longrightarrow> dxWire s' = dxWire s \<Longrightarrow> mine t c s' = mine t c s"
  by (simp add: mine_def is_bound_def)

end
