(* ===== verification/DeviceWork.thy ===== *)
theory DeviceWork
  imports DeviceSafety
begin

text \<open>
  Every goroutine of the device commands keeps what the others rely on: the creation and the dispatch of a command,
  its completion, the connections, the assignment of a tablet and the execution of a cue action. From this follow
  the properties of every interleaving.
\<close>

section \<open>The goroutines\<close>

text \<open>An action under a kept fact \<open>P\<close> and a stable one \<open>X\<close>, which teaches \<open>Q\<close>.\<close>

lemma dx_learn:
  assumes "lasts env P" and "dx_stable env t X"
    and "\<And>i s s' a. \<lbrakk>dx_inv env s; P s; X s; f i s = (s', a)\<rbrakk> \<Longrightarrow> dx_guar env t s s' \<and> Q a s'"
    and "\<And>a. dx.ok env t (\<lambda>s. P s \<and> Q a s) (k a)"
  shows "dx.ok env t (\<lambda>s. P s \<and> X s) (act XStep f k)"
proof (rule rg_act)
  show "dx_stable env t (\<lambda>s. P s \<and> X s)" using dx_stable_conj [OF kept_stable] assms(1,2) .
next
  fix i s s' a assume s: "dx_inv env s" "P s \<and> X s" "f i s = (s', a)"
  then have g: "dx_guar env t s s'" and q: "Q a s'" using assms(3) by blast+
  then have "P s'" using assms(1) s(1,2) unfolding lasts_def dx_guar_def by blast
  with g q assms(4) [of a] show "dx_guar env t s s' \<and> (\<exists>P'. P' s' \<and> dx.ok env t P' (k a))"
    by (intro conjI exI [of _ "\<lambda>s. P s \<and> Q a s"]) simp_all
qed (simp add: dx_marks_def)

lemma dx_learn_wait:
  assumes "lasts env P" and "\<And>i s s' a. \<lbrakk>dx_inv env s; P s; f i s = Some (s', a)\<rbrakk> \<Longrightarrow> dx_guar env t s s' \<and> Q a s'"
    and "\<And>a. dx.ok env t (\<lambda>s. P s \<and> Q a s) (k a)"
  shows "dx.ok env t P (await XStep f k)"
proof (rule rg_await)
  show "dx_stable env t P" by (rule kept_stable [OF assms(1)])
next
  fix i s s' a assume s: "dx_inv env s" "P s" "f i s = Some (s', a)"
  then have g: "dx_guar env t s s'" and q: "Q a s'" using assms(2) by blast+
  then have "P s'" using assms(1) s(1,2) unfolding lasts_def dx_guar_def by blast
  with g q assms(3) [of a] show "dx_guar env t s s' \<and> (\<exists>P'. P' s' \<and> dx.ok env t P' (k a))"
    by (intro conjI exI [of _ "\<lambda>s. P s \<and> Q a s"]) simp_all
qed (simp add: dx_marks_def)

lemma dx_stable_True [simp]: "dx_stable env t (\<lambda>s. True)"
  by (simp add: stable_def)

lemma dx_keep:
  assumes "lasts env P" and "\<And>i s. dx_inv env s \<Longrightarrow> P s \<Longrightarrow> dx_guar env t s (fst (f i s))" and "\<And>a. dx.ok env t P (k a)"
  shows "dx.ok env t P (act XStep f k)"
proof -
  have "dx.ok env t (\<lambda>s. P s \<and> True) (act XStep f k)"
  proof (rule dx_learn [where Q = "\<lambda>a s. True"])
    fix i s s' a assume "dx_inv env s" "P s" "f i s = (s', a)"
    then show "dx_guar env t s s' \<and> True" using assms(2) [of s i] by simp
  qed (simp_all add: assms)
  then show ?thesis by simp
qed

lemma dx_read:
  assumes "lasts env P" and "\<And>i s. fst (f i s) = s" and "\<And>a. dx.ok env t P (k a)"
  shows "dx.ok env t P (act XStep f k)"
  by (rule dx_keep) (simp_all add: assms dx_guar_refl)

lemma dx_weaken: "dx.ok env t P p \<Longrightarrow> lasts env Q \<Longrightarrow> (\<And>s. Q s \<Longrightarrow> P s) \<Longrightarrow> dx.ok env t Q p"
  by (rule rg_weaken [OF _ kept_stable])

lemma dx_False: "dx.ok env t (\<lambda>s. False) p"
  by (cases p) (auto intro: rg_Ret rg_Act simp: stable_def)

text \<open>Under a condition that does not depend on the state.\<close>

lemma dx_when:
  assumes "b \<Longrightarrow> dx.ok env t P p" shows "dx.ok env t (\<lambda>s. b \<and> P s) p"
  using assms dx_False by (cases b) simp_all

subsection \<open>Results\<close>

lemma get_command_true:
  assumes "dx_inv env s" and "get_command cid i s = Inr c"
  shows "true_result c s \<and> command_id c = trim_space cid"
proof -
  from assms(2) have c: "c \<in> set (dxRows s)" "command_id c = trim_space cid"
    by (auto simp: get_command_def find_Some_iff split: if_split_asm option.splits)
  from invD(2) [OF assms(1) c(1)] show ?thesis by (auto simp: true_result_def ever_as_def drow_ok_def c(2))
qed

definition answers_for :: "string \<Rightarrow> dx_error + DeviceCommand \<Rightarrow> dx_state \<Rightarrow> bool" where
  "answers_for cid a s \<longleftrightarrow> (case a of Inl e \<Rightarrow> True | Inr c \<Rightarrow> command_id c = cid \<and> true_result c s)"

lemma kept_answers [simp]: "lasts env (answers_for cid a)"
  unfolding answers_for_def by (cases a) simp_all

lemma dx_leave:
  assumes P: "lasts env P" and k: "dx.ok env t P p"
  shows "dx.ok env t (\<lambda>s. P s \<and> holds_lock t w s) (act XStep unlock_results (\<lambda>_. p))"
proof (rule dx_learn [where Q = "\<lambda>a s. True", OF P])
  fix i s s' a assume "dx_inv env s" "P s" "holds_lock t w s" "unlock_results i s = (s', a)"
  then show "dx_guar env t s s' \<and> True" using guar_unlock [of env s t w i] by (metis fst_conv)
qed (use k in simp_all)

text \<open>Where the lock is held, every way out gives it back.\<close>

lemma dx_stay:
  assumes "lasts env P" and "\<And>i s. dx_inv env s \<Longrightarrow> holds_lock t w s \<Longrightarrow> dx_guar env t s (fst (f i s))"
    and "\<And>i s. dxWriter (fst (f i s)) = dxWriter s" and "\<And>a. dx.ok env t (\<lambda>s. P s \<and> holds_lock t w s) (k a)"
  shows "dx.ok env t (\<lambda>s. P s \<and> holds_lock t w s) (act XStep f k)"
proof (rule dx_learn [OF assms(1)])
  fix i s s' a assume "dx_inv env s" "holds_lock t w s" "f i s = (s', a)"
  then show "dx_guar env t s s' \<and> holds_lock t w s'" using assms(2) [of s i] assms(3) [of i s] by (simp add: holds_lock_def)
next
  show "dx.ok env t (\<lambda>s. P s \<and> holds_lock t w s) (k a)" for a by (rule assms(4))
qed simp

lemma writer_same [simp]:
  "dxWriter (fst (take_back cid st now i s)) = dxWriter s" "dxWriter (fst (recordCommandEvent env cid ty i s)) = dxWriter s"
  by (simp_all add: take_back_def recordCommandEvent_def)

lemma ok_complete_tail:
  assumes P: "lasts env P" and st: "st \<noteq> CommandAccepted" and w: "n \<noteq> 0 \<Longrightarrow> w = Some cid"
    and leave: "\<And>a. a = Inr c \<or> (\<exists>e. a = Inl e) \<Longrightarrow> dx.ok env t (\<lambda>s. P s \<and> holds_lock t w s) (leave a)"
  shows "dx.ok env t (\<lambda>s. P s \<and> holds_lock t w s) (complete_tail env cid st n now c leave)"
proof (cases "n = 0")
  case False
  then have g: "dx_inv env s \<Longrightarrow> holds_lock t w s \<Longrightarrow> dx_guar env t s (fst (take_back cid st now i s))" for s i
    using w guar_take_back st by simp
  have x: "dx.ok env t (\<lambda>s. P s \<and> holds_lock t w s) (act XStep (take_back cid st now) (\<lambda>_. leave (Inl e)))" for e
    by (rule dx_stay [OF P g]) (simp_all add: leave)
  have y: "dx.ok env t (\<lambda>s. P s \<and> holds_lock t w s)
      (act XStep (\<lambda>i s. (s, xiErr i)) (\<lambda>e. leave (case e of None \<Rightarrow> Inr c | Some x \<Rightarrow> Inl (ErrOtherDx x))))"
    by (rule dx_stay [OF P]) (auto simp: dx_guar_refl split: option.split intro!: leave)
  show ?thesis unfolding complete_tail_def if_not_P [OF False]
    by (rule dx_stay [OF P]) (simp_all add: guar_event x y leave)
qed (simp add: complete_tail_def leave)

lemma ok_write_result:
  assumes P: "lasts env P" and true: "\<And>s. P s \<Longrightarrow> st = CommandCompleted \<Longrightarrow> reported c s" and st: "st \<noteq> CommandAccepted"
    and k: "\<And>n now w. (n \<noteq> 0 \<longrightarrow> w = Some c) \<Longrightarrow> dx.ok env t (\<lambda>s. P s \<and> holds_lock t w s) (k (Inr (n, now)))"
    and e: "\<And>e w. dx.ok env t (\<lambda>s. P s \<and> holds_lock t w s) (k (Inl e))"
  shows "dx.ok env t (\<lambda>s. P s \<and> holds_lock t None s) (act XStep (write_result t c st result) k)"
proof (rule rg_act)
  show "dx_stable env t (\<lambda>s. P s \<and> holds_lock t None s)" by (rule dx_stable_conj [OF kept_stable [OF P] holds_lock_stable])
next
  fix i s s' a assume s: "dx_inv env s" "P s \<and> holds_lock t None s" "write_result t c st result i s = (s', a)"
  have g: "dx_guar env t s s'" and l: "\<exists>w. holds_lock t w s' \<and> (\<forall>n now. a = Inr (n, now) \<longrightarrow> n \<noteq> 0 \<longrightarrow> w = Some c)"
    using guar_write [OF s(1) _ st _ s(3)] s(2) true by blast+
  then have p: "P s'" using P s(1,2) unfolding lasts_def dx_guar_def by blast
  from l obtain w where w: "holds_lock t w s'" "\<forall>n now. a = Inr (n, now) \<longrightarrow> n \<noteq> 0 \<longrightarrow> w = Some c" by blast
  have "dx.ok env t (\<lambda>s. P s \<and> holds_lock t w s) (k a)"
    using w(2) k [of _ w] e [of w] by (cases a) (auto simp: split_paired_all)
  with g w(1) p show "dx_guar env t s s' \<and> (\<exists>P'. P' s' \<and> dx.ok env t P' (k a))"
    by (intro conjI exI [of _ "\<lambda>s. P s \<and> holds_lock t w s"]) simp_all
qed (simp add: dx_marks_def)

lemma ok_CompleteCommand:
  assumes P: "lasts env P" and true: "\<And>s. P s \<Longrightarrow> st = CommandCompleted \<Longrightarrow> reported (trim_space cid) s"
    and k: "\<And>a. dx.ok env t (\<lambda>s. P s \<and> answers_for (trim_space cid) a s) (k a)"
  shows "dx.ok env t P (CompleteCommand env t cid st result k)"
proof -
  define c where "c = trim_space cid"
  define leave where "leave a = act XStep unlock_results (\<lambda>_. k a)" for a
  have ks: "lasts env (\<lambda>s. P s \<and> answers_for c a s)" for a by (simp add: P)
  have gone: "dx.ok env t P (k (Inl e))" for e
    using k [of "Inl e"] by (simp add: answers_for_def)
  have leave1: "dx.ok env t (\<lambda>s. (P s \<and> answers_for c a s) \<and> holds_lock t w s) (leave a)" for a w
    unfolding leave_def by (rule dx_leave [OF ks]) (simp add: k c_def)
  have leave2: "dx.ok env t (\<lambda>s. P s \<and> holds_lock t w s) (leave (Inl e))" for e w
    unfolding leave_def by (rule dx_leave [OF P gone])
  have leave3: "dx.ok env t (\<lambda>s. (P s \<and> answers_for c (Inr x) s) \<and> holds_lock t w s) (leave a)" if "a = Inr x \<or> (\<exists>e. a = Inl e)" for a x w
    using that leave1 [of "Inr x" w] rg_weaken [OF leave2 [of w] dx_stable_conj [OF kept_stable [OF ks] holds_lock_stable]] by blast
  have read: "dx.ok env t (\<lambda>s. P s \<and> holds_lock t w s) (act XStep (\<lambda>i s. (s, get_command c i s)) (\<lambda>got.
      case got of Inl e \<Rightarrow> leave (Inl e) | Inr x \<Rightarrow> complete_tail env c st n now x leave))"
    if "n \<noteq> 0 \<longrightarrow> w = Some c" "st \<noteq> CommandAccepted" for n now w
  proof (rule dx_learn [OF P, where Q = "\<lambda>a s. answers_for c a s \<and> holds_lock t w s"])
    fix i s s' a assume "dx_inv env s" "holds_lock t w s" "(s, get_command c i s) = (s', a)"
    then show "dx_guar env t s s' \<and> answers_for c a s' \<and> holds_lock t w s'"
      using get_command_true [of env s c i] by (auto simp: dx_guar_refl answers_for_def c_def split: sum.split)
  next
    fix a :: "dx_error + DeviceCommand"
    show "dx.ok env t (\<lambda>s. P s \<and> answers_for c a s \<and> holds_lock t w s)
        (case a of Inl e \<Rightarrow> leave (Inl e) | Inr x \<Rightarrow> complete_tail env c st n now x leave)"
    proof (cases a)
      case (Inl e)
      then show ?thesis using leave1 [of a w] by (simp add: conj_assoc)
    next
      case (Inr x)
      have "dx.ok env t (\<lambda>s. (P s \<and> answers_for c (Inr x) s) \<and> holds_lock t w s) (complete_tail env c st n now x leave)"
        by (rule ok_complete_tail [OF ks that(2)]) (use that(1) leave3 in auto)
      then show ?thesis by (simp add: Inr conj_assoc)
    qed
  qed simp
  have put: "dx.ok env t (\<lambda>s. P s \<and> holds_lock t None s) (act XStep (write_result t c st result) (\<lambda>written.
      case written of Inl e \<Rightarrow> leave (Inl e)
      | Inr (n, now) \<Rightarrow> act XStep (\<lambda>i s. (s, get_command c i s)) (\<lambda>got.
          case got of Inl e \<Rightarrow> leave (Inl e) | Inr x \<Rightarrow> complete_tail env c st n now x leave)))"
    if "st \<noteq> CommandAccepted"
    by (rule ok_write_result [OF P _ that]) (use true read that leave2 in \<open>auto simp: c_def\<close>)
  have "dx.ok env t P (await XStep (lock_results t) (\<lambda>_. act XStep (write_result t c st result) (\<lambda>written.
      case written of Inl e \<Rightarrow> leave (Inl e)
      | Inr (n, now) \<Rightarrow> act XStep (\<lambda>i s. (s, get_command c i s)) (\<lambda>got.
          case got of Inl e \<Rightarrow> leave (Inl e) | Inr x \<Rightarrow> complete_tail env c st n now x leave))))"
    if "st \<noteq> CommandAccepted"
    by (rule dx_learn_wait [OF P, where Q = "\<lambda>a s. holds_lock t None s"]) (auto simp: guar_lock put that)
  then show ?thesis
    by (simp add: CompleteCommand_def Let_def gone terminalDeviceCommand_def flip: c_def leave_def)
qed

subsection \<open>New commands\<close>

text \<open>What \<open>CreateCommand\<close> answers: a command with the key it was asked for, one's own if it is new.\<close>

definition created :: "string \<Rightarrow> nat \<Rightarrow> dx_error + DeviceCommand \<times> bool \<Rightarrow> dx_state \<Rightarrow> bool" where
  "created key t a s \<longleftrightarrow>
     (case a of Inl e \<Rightarrow> True
      | Inr (x, duplicate) \<Rightarrow> dc_key x = key \<and> trim_space (command_id x) = command_id x \<and> true_result x s
          \<and> (duplicate \<or> mine t x s))"

lemma mine_owner:
  assumes "dx_inv env s" and "mine t c s" and "r \<in> set (dxRows s)" and "command_id r = command_id c"
  shows "dcOwner r = t"
proof -
  from assms(2) obtain q where "q \<in> set (dxRows s)" "dcEnvelope q = dcEnvelope c" "dcOwner q = t" by (auto simp: mine_def)
  with same_row [OF invD(1) [OF assms(1)], of r q] assms(3,4) show ?thesis by simp
qed

lemma found_by_key:
  assumes "dx_inv env s" and "getCommandByIdempotency dev key i s = Some (s', Inr x)"
  shows "dc_key x = key \<and> trim_space (command_id x) = command_id x \<and> true_result x s"
proof -
  from assms(2) have "x \<in> set (dxRows s)" "dc_key x = key"
    by (auto simp: getCommandByIdempotency_def find_Some_iff split: if_split_asm option.splits)
  with invD(2) [OF assms(1), of x] invD(5) [OF assms(1), of "command_id x"] show ?thesis
    by (auto simp: true_result_def ever_as_def drow_ok_def)
qed

lemma dx_stronger: "dx.ok env t P p \<Longrightarrow> dx_stable env t Q \<Longrightarrow> (\<And>s. Q s \<Longrightarrow> P s) \<Longrightarrow> dx.ok env t Q p"
  by (rule rg_weaken)

text \<open>The lookup by key; \<open>g\<close> goes on when there was no such row.\<close>

lemma ok_by_key:
  assumes P: "lasts env P" and k: "\<And>a. dx.ok env t (\<lambda>s. P s \<and> created key t a s) (k a)"
    and g: "\<And>e. dx.ok env t P (g e)"
  shows "dx.ok env t P (await XStep (getCommandByIdempotency dev key) (\<lambda>r. case r of Inr x \<Rightarrow> k (Inr (x, True)) | Inl e \<Rightarrow> g e))"
proof (rule dx_learn_wait [OF P, where Q = "\<lambda>a s. case a of Inl e \<Rightarrow> True | Inr x \<Rightarrow> created key t (Inr (x, True)) s"])
  fix i s s' a assume inv: "dx_inv env s" and run: "getCommandByIdempotency dev key i s = Some (s', a)"
  have "s' = s" using run by (auto simp: getCommandByIdempotency_def split: if_split_asm)
  with found_by_key [OF inv, of dev key i s] run dx_guar_refl [OF inv]
  show "dx_guar env t s s' \<and> (case a of Inl e \<Rightarrow> True | Inr x \<Rightarrow> created key t (Inr (x, True)) s')"
    by (simp add: created_def split: sum.split)
next
  fix a :: "dx_error + DeviceCommand"
  show "dx.ok env t (\<lambda>s. P s \<and> (case a of Inl e \<Rightarrow> True | Inr x \<Rightarrow> created key t (Inr (x, True)) s))
      (case a of Inr x \<Rightarrow> k (Inr (x, True)) | Inl e \<Rightarrow> g e)"
    using k g by (cases a) simp_all
qed

lemma ok_inserted:
  assumes P: "lasts env P" and c: "dc_key c = key" "trim_space (command_id c) = command_id c" "dcStatus c = CommandAccepted"
    and k: "\<And>a. dx.ok env t (\<lambda>s. P s \<and> created key t a s) (k a)"
  shows "dx.ok env t (\<lambda>s. (P s \<and> ever_as c s) \<and> mine t c s) (act XStep (recordCommandEvent env (command_id c) ty) (\<lambda>recorded.
      if recorded then k (Inr (c, False)) else act XStep (delete_command (command_id c)) (\<lambda>_. k (Inl e))))"
proof (rule dx_learn [where Q = "\<lambda>a s. mine t c s"])
  fix i s s' a assume "dx_inv env s" "mine t c s" "recordCommandEvent env (command_id c) ty i s = (s', a)"
  moreover have "dxRows (fst (recordCommandEvent env (command_id c) ty i s)) = dxRows s"
    "dxWire (fst (recordCommandEvent env (command_id c) ty i s)) = dxWire s" by (simp_all add: recordCommandEvent_def)
  ultimately show "dx_guar env t s s' \<and> mine t c s'"
    using guar_event [of env s t "command_id c" ty i] mine_same [of s' s t c] by simp
next
  fix recorded
  have st: "dx_stable env t (\<lambda>s. (P s \<and> ever_as c s) \<and> mine t c s)"
    by (rule dx_stable_conj [OF kept_stable]) (simp_all add: P)
  have "dx.ok env t (\<lambda>s. (P s \<and> ever_as c s) \<and> mine t c s) (k (Inr (c, False)))"
    by (rule dx_stronger [OF k st]) (simp add: created_def true_result_def c)
  moreover have "dx.ok env t (\<lambda>s. (P s \<and> ever_as c s) \<and> mine t c s) (act XStep (delete_command (command_id c)) (\<lambda>_. k (Inl e)))"
  proof (rule dx_learn [where Q = "\<lambda>a s. True"])
    fix i s s' a assume s: "dx_inv env s" "mine t c s" "delete_command (command_id c) i s = (s', a)"
    have "dx_guar env t s (fst (delete_command (command_id c) i s))"
      by (rule guar_delete [OF s(1)]) (use s(2) mine_owner [OF s(1,2)] in \<open>auto simp: mine_def\<close>)
    then show "dx_guar env t s s' \<and> True" by (simp add: s(3))
  next
    show "dx.ok env t (\<lambda>s. (P s \<and> ever_as c s) \<and> True) (k (Inl e))" for a :: unit
      by (rule dx_weaken [OF k]) (simp_all add: P created_def)
  qed (simp_all add: P)
  ultimately show "dx.ok env t (\<lambda>s. (P s \<and> ever_as c s) \<and> mine t c s)
      (if recorded then k (Inr (c, False)) else act XStep (delete_command (command_id c)) (\<lambda>_. k (Inl e)))" by simp
qed (simp_all add: P)

lemma ok_store_command:
  assumes P: "lasts env P" and key: "ciIdempotencyKey input = key" and k: "\<And>a. dx.ok env t (\<lambda>s. P s \<and> created key t a s) (k a)"
    and c: "c = new_device_command t input cid payload now" and cid: "trim_space cid = cid"
  shows "dx.ok env t P (store_command env input c k)"
proof -
  have cs: "command_id c = cid" "dc_key c = key" "dcStatus c = CommandAccepted" by (simp_all add: c new_device_command_def key)
  have gone: "dx.ok env t P (k (Inl e))" for e using k [of "Inl e"] by (simp add: created_def)
  have "dx.ok env t (\<lambda>s. P s \<and> True) (store_command env input c k)"
    unfolding store_command_def
  proof (rule dx_learn [OF P, where Q = "\<lambda>b s. b \<longrightarrow> ever_as c s \<and> mine t c s"])
    fix i s s' a assume "dx_inv env s" "insert_device_command env c i s = (s', a)"
    then show "dx_guar env t s s' \<and> (a \<longrightarrow> ever_as c s' \<and> mine t c s')" using guar_insert_command [OF _ c cid] by blast
  next
    fix b
    show "dx.ok env t (\<lambda>s. P s \<and> (b \<longrightarrow> ever_as c s \<and> mine t c s)) (if \<not> b
      then (if ciIdempotencyKey input = [] then k (Inl (ErrOtherDx ''create stage device command''))
            else await XStep (getCommandByIdempotency (ciDeviceID input) (ciIdempotencyKey input)) (\<lambda>r.
              case r of Inr x \<Rightarrow> k (Inr (x, True)) | Inl _ \<Rightarrow> k (Inl (ErrOtherDx ''create stage device command''))))
      else act XStep (recordCommandEvent env (command_id c) ''stage_device.command.accepted'') (\<lambda>recorded.
        if recorded then k (Inr (c, False))
        else act XStep (delete_command (command_id c)) (\<lambda>_. k (Inl (ErrOtherDx ''record stage device command accepted event'')))))"
    proof (cases b)
      case True
      have "dx.ok env t (\<lambda>s. (P s \<and> ever_as c s) \<and> mine t c s)
        (act XStep (recordCommandEvent env (command_id c) ''stage_device.command.accepted'') (\<lambda>recorded.
          if recorded then k (Inr (c, False))
          else act XStep (delete_command (command_id c)) (\<lambda>_. k (Inl (ErrOtherDx ''record stage device command accepted event'')))))"
        by (rule ok_inserted [OF P cs(2) _ cs(3) k]) (simp only: cs(1) cid)
      then show ?thesis by (simp only: True simp_thms if_False conj_assoc)
    qed (simp add: gone ok_by_key [OF P k gone] key)
  qed simp
  then show ?thesis by simp
qed

lemma ok_new_id:
  assumes P: "lasts env P" and k: "\<And>a. (\<forall>cid. a = Some cid \<longrightarrow> trim_space cid = cid) \<Longrightarrow> dx.ok env t P (k a)"
  shows "dx.ok env t P (act XStep (\<lambda>i s. (s, map_option trim_space (xiID i))) k)"
proof -
  have "dx.ok env t (\<lambda>s. P s \<and> True) (act XStep (\<lambda>i s. (s, map_option trim_space (xiID i))) k)"
  proof (rule dx_learn [OF P, where Q = "\<lambda>a s. \<forall>cid. a = Some cid \<longrightarrow> trim_space cid = cid"])
    show "dx.ok env t (\<lambda>s. P s \<and> (\<forall>cid. a = Some cid \<longrightarrow> trim_space cid = cid)) (k a)" for a
      by (subst conj_commute) (rule dx_when [OF k])
  qed (auto simp: dx_guar_refl)
  then show ?thesis by simp
qed

lemma ok_create_fresh:
  assumes P: "lasts env P" and key: "ciIdempotencyKey input = key" and k: "\<And>a. dx.ok env t (\<lambda>s. P s \<and> created key t a s) (k a)"
  shows "dx.ok env t P (create_fresh env t input d now k)"
proof -
  have gone: "dx.ok env t P (k (Inl e))" for e using k [of "Inl e"] by (simp add: created_def)
  show ?thesis
    unfolding create_fresh_def
    by (auto simp: gone validateCommandAuthority_def ok_store_command [OF P key k refl]
        split: option.split intro!: dx_read [OF P] ok_new_id [OF P])
qed

lemma ok_CreateCommand:
  assumes P: "lasts env P" and k: "\<And>a. dx.ok env t (\<lambda>s. P s \<and> created (trim_space (ciIdempotencyKey input)) t a s) (k a)"
  shows "dx.ok env t P (CreateCommand env t input k)"
proof -
  have key: "ciIdempotencyKey (trimmed input) = trim_space (ciIdempotencyKey input)" by (simp add: trimmed_def)
  have gone: "dx.ok env t P (k (Inl e))" for e using k [of "Inl e"] by (simp add: created_def)
  have fresh: "dx.ok env t P (create_fresh env t (trimmed input) d now k)" for d now
    by (rule ok_create_fresh [OF P key k])
  have lookup: "dx.ok env t P (await XStep (getCommandByIdempotency dev (trim_space (ciIdempotencyKey input))) (\<lambda>r.
        case r of Inr x \<Rightarrow> k (Inr (x, True))
        | Inl e \<Rightarrow> if e = ErrNoRows then create_fresh env t (trimmed input) d now k else k (Inl e)))" for dev d now
    by (rule ok_by_key [OF P k]) (simp add: fresh gone)
  show ?thesis
    unfolding CreateCommand_def Let_def key
    by (auto simp: gone fresh lookup dx_GetDevice_def GetAssignmentRecord_def split: sum.split option.split intro!: dx_read [OF P])
qed

subsection \<open>Dispatch\<close>

definition sent_as :: "string \<Rightarrow> dx_error + DeviceCommand \<Rightarrow> dx_state \<Rightarrow> bool" where
  "sent_as key a s \<longleftrightarrow>
     (case a of Inl e \<Rightarrow> True | Inr x \<Rightarrow> dc_key x = key \<and> trim_space (command_id x) = command_id x \<and> true_result x s)"

lemma kept_sent_as [simp]: "lasts env (sent_as key a)"
  unfolding sent_as_def by (cases a) simp_all

text \<open>The row a completion answers with is the command's own.\<close>

lemma answers_sent_as:
  assumes "sent_as key (Inr c) s" and "answers_for (trim_space (command_id c)) a s"
  shows "sent_as key a s"
  using assms by (cases a) (auto simp: sent_as_def answers_for_def true_result_def ever_as_def)

lemma ok_finish_command:
  assumes P: "lasts env P" and c: "\<And>s. P s \<Longrightarrow> sent_as key (Inr c) s" and st: "st \<noteq> CommandCompleted"
    and k: "\<And>a. dx.ok env t (\<lambda>s. P s \<and> sent_as key a s) (k a)"
  shows "dx.ok env t P (CompleteCommand env t (command_id c) st result k)"
proof (rule ok_CompleteCommand [OF P])
  fix a
  show "dx.ok env t (\<lambda>s. P s \<and> answers_for (trim_space (command_id c)) a s) (k a)"
    by (rule dx_weaken [OF k]) (simp add: P, blast intro: c answers_sent_as)
qed (use st in simp)

lemma dx_send:
  assumes P: "lasts env P" and k: "\<And>a. dx.ok env t P (k a)"
  shows "dx.ok env t (\<lambda>s. P s \<and> sendable env t c u s) (act (XSend c u) (send_command c u) k)"
proof (rule rg_act)
  show "dx_stable env t (\<lambda>s. P s \<and> sendable env t c u s)" by (rule dx_stable_conj [OF kept_stable [OF P] sendable_stable])
next
  fix i s s' a assume s: "dx_inv env s" "P s \<and> sendable env t c u s" "send_command c u i s = (s', a)"
  have g: "dx_guar env t s s'" using guar_send [OF s(1), of t c u i] s(2,3) by simp
  then have "P s'" using P s(1,2) unfolding lasts_def dx_guar_def by blast
  with g k [of a] show "dx_guar env t s s' \<and> (\<exists>P'. P' s' \<and> dx.ok env t P' (k a))"
    by (intro conjI exI [of _ P]) simp_all
qed (simp add: dx_marks_def)

lemma ok_unbind_close:
  assumes P: "lasts env P" and k: "dx.ok env t P p"
  shows "dx.ok env t P (act XStep (unbindCommand c u) (\<lambda>_. act XStep (close_conn v) (\<lambda>_. p)))"
  by (intro dx_keep [OF P]) (simp_all add: guar_unbind guar_close k)

lemma ok_Dispatch:
  assumes P: "lasts env P" and k: "\<And>a. dx.ok env t (\<lambda>s. P s \<and> sent_as (trim_space (ciIdempotencyKey input)) a s) (k a)"
  shows "dx.ok env t P (Dispatch env t input k)"
  unfolding Dispatch_def
proof (rule ok_CreateCommand [OF P])
  let ?key = "trim_space (ciIdempotencyKey input)" and ?cap = "RequiredCapability (trim_space (ciCommandType input))"
  fix a :: "dx_error + DeviceCommand \<times> bool"
  let ?after = "\<lambda>c bound. case bound of
      Inl (code, message) \<Rightarrow> failCommand env t c code message k
    | Inr cn \<Rightarrow> act (XSend (command_id c) (vcServe cn)) (send_command (command_id c) (vcServe cn)) (\<lambda>failed.
        case failed of None \<Rightarrow> k (Inr c)
        | Some e \<Rightarrow> act XStep (unbindCommand (command_id c) (vcServe cn)) (\<lambda>_.
            act XStep (close_conn (vcServe cn)) (\<lambda>_. failCommand env t c ''TRANSPORT_SEND_FAILED'' e k)))"
  have new: "dx.ok env t (\<lambda>s. (P s \<and> sent_as ?key (Inr c) s) \<and> mine t c s) (act XStep (bind_command c ?cap) (?after c))" for c
  proof -
    let ?P = "\<lambda>s. P s \<and> sent_as ?key (Inr c) s"
    have kp: "lasts env ?P" by (simp add: P)
    have more: "dx.ok env t (\<lambda>s. ?P s \<and> sent_as ?key a s) (k a)" for a
      by (rule dx_weaken [OF k]) (simp_all add: P)
    have fail: "dx.ok env t ?P (failCommand env t c code message k)" for code message
      unfolding failCommand_def by (rule ok_finish_command [OF kp, where key = ?key]) (simp_all only: more, simp_all)
    have sent: "dx.ok env t ?P (k (Inr c))" by (rule dx_weaken [OF more]) (simp_all add: P)
    show ?thesis
    proof (rule dx_learn [OF kp, where Q = "\<lambda>b s. case b of Inl e \<Rightarrow> True | Inr cn \<Rightarrow> sendable env t (command_id c) (vcServe cn) s"])
      fix i s s' b assume "dx_inv env s" "mine t c s" "bind_command c ?cap i s = (s', b)"
      then show "dx_guar env t s s' \<and> (case b of Inl e \<Rightarrow> True | Inr cn \<Rightarrow> sendable env t (command_id c) (vcServe cn) s')"
        using guar_bind by (auto split: sum.split)
    next
      fix b :: "string \<times> string + DevConn"
      show "dx.ok env t (\<lambda>s. ?P s \<and> (case b of Inl e \<Rightarrow> True | Inr cn \<Rightarrow> sendable env t (command_id c) (vcServe cn) s)) (?after c b)"
      proof (cases b)
        case (Inr cn)
        have "dx.ok env t (\<lambda>s. ?P s \<and> sendable env t (command_id c) (vcServe cn) s) (?after c (Inr cn))"
          unfolding sum.case by (rule dx_send [OF kp]) (auto simp: sent fail split: option.split intro!: ok_unbind_close [OF kp])
        then show ?thesis by (simp only: Inr sum.case)
      qed (simp add: fail split: prod.split)
    qed simp
  qed
  show "dx.ok env t (\<lambda>s. P s \<and> created ?key t a s) (case a of Inl e \<Rightarrow> k (Inl e)
      | Inr (c, duplicate) \<Rightarrow> if duplicate then k (Inr c) else act XStep (bind_command c ?cap) (?after c))"
  proof (cases a)
    case (Inl e)
    then show ?thesis using k [of "Inl e"] by (simp add: created_def sent_as_def)
  next
    case (Inr x)
    obtain c d where x: "x = (c, d)" by (cases x)
    have "(\<lambda>s. P s \<and> created ?key t (Inr (c, True)) s) = (\<lambda>s. P s \<and> sent_as ?key (Inr c) s)"
      "(\<lambda>s. P s \<and> created ?key t (Inr (c, False)) s) = (\<lambda>s. (P s \<and> sent_as ?key (Inr c) s) \<and> mine t c s)"
      by (auto simp: created_def sent_as_def)
    then show ?thesis using k [of "Inr c"] new [of c] by (cases d) (simp_all only: Inr x sum.case prod.case if_True if_False)
  qed
qed

subsection \<open>Cue actions\<close>

definition fits :: "string \<Rightarrow> CapResult \<Rightarrow> dx_state \<Rightarrow> bool" where
  "fits x r s \<longleftrightarrow> (cpResult r = ExecutionCompleted \<longrightarrow> done_for x s)"

lemma kept_fits [simp]: "lasts env (fits x r)"
  unfolding fits_def by simp

lemma fits_unless [simp]: "cpResult r \<noteq> ExecutionCompleted \<Longrightarrow> fits x r s"
  by (simp add: fits_def)

lemma fits_failed [simp]: "fits x (failed_result code message) s" "fits x (cancelledBeforeDispatch e) s"
  by (simp_all add: fits_def failed_result_def cancelledBeforeDispatch_def split: ctx_err.split)

lemma fits_command:
  assumes "sent_as (cue_key x) (Inr c) s"
  shows "fits x (capabilityResultForDeviceCommand env c) s"
proof (cases "dcStatus c = CommandCompleted")
  case True
  then have "dxEver s (command_id c) = Some (dcDeviceID c, cue_key x) \<and> reported (command_id c) s"
    using assms by (auto simp: sent_as_def true_result_def ever_as_def)
  then show ?thesis unfolding fits_def done_for_def by blast
next
  case False
  then have "cpResult (capabilityResultForDeviceCommand env c) \<noteq> ExecutionCompleted"
    by (cases "dcStatus c") (simp_all add: capabilityResultForDeviceCommand_def Let_def)
  then show ?thesis by simp
qed

lemma ok_GetCommand:
  assumes P: "lasts env P" and c: "\<And>s. P s \<Longrightarrow> sent_as key (Inr c) s"
    and k: "\<And>a. dx.ok env t (\<lambda>s. P s \<and> sent_as key a s) (k a)"
  shows "dx.ok env t P (await XStep (GetCommand (command_id c)) k)"
proof (rule dx_learn_wait [OF P])
  fix i s s' a assume s: "dx_inv env s" "P s" "GetCommand (command_id c) i s = Some (s', a)"
  then have a: "s' = s" "a = get_command (command_id c) i s" by (auto simp: GetCommand_def split: if_split_asm)
  have "answers_for (trim_space (command_id c)) a s"
    using get_command_true [OF s(1), of "command_id c" i] a(2) [symmetric] by (cases a) (simp_all add: answers_for_def)
  then have "sent_as key a s" by (rule answers_sent_as [OF c [OF s(2)]])
  then show "dx_guar env t s s' \<and> sent_as key a s'" using dx_guar_refl [OF s(1)] a(1) by simp
qed (rule k)

lemma ok_answer:
  assumes k: "\<And>r. dx.ok env t (fits x r) (k r)" and P: "lasts env P" and c: "\<And>s. P s \<Longrightarrow> sent_as (cue_key x) (Inr c) s"
  shows "dx.ok env t P (k (capabilityResultForDeviceCommand env c))"
  by (rule dx_weaken [OF k P]) (rule fits_command [OF c])

lemma ok_interrupted:
  assumes k: "\<And>r. dx.ok env t (fits x r) (k r)" and P: "lasts env P" and c: "\<And>s. P s \<Longrightarrow> sent_as (cue_key x) (Inr c) s"
  shows "dx.ok env t P (interruptedResult env t c e k)"
proof -
  define st where "st = (if e = CtxDeadlineExceeded then CommandTimedOut else CommandCancelled)"
  have st: "st \<noteq> CommandCompleted" by (simp add: st_def)
  have own: "dx.ok env t (\<lambda>s. P s \<and> b) (k (capabilityResultForDeviceCommand env (c\<lparr>dcStatus := st, dcResult := res\<rparr>)))" for res b
    by (rule ok_answer [OF k]) (use P c st in \<open>auto simp: sent_as_def true_result_def ever_as_def\<close>)
  have read: "dx.ok env t (\<lambda>s. P s \<and> sent_as key a s) (k (capabilityResultForDeviceCommand env y))"
    if "a = Inr y" "key = cue_key x" for a y key
    by (rule ok_answer [OF k]) (simp_all add: P that)
  have second: "dx.ok env t P (await XStep (GetCommand (command_id c)) (\<lambda>got. case got of
      Inr y \<Rightarrow> k (capabilityResultForDeviceCommand env y)
    | Inl _ \<Rightarrow> k (capabilityResultForDeviceCommand env (c\<lparr>dcStatus := st, dcResult := res\<rparr>))))" for res
  proof (rule ok_GetCommand [OF P c])
    fix a :: "dx_error + DeviceCommand"
    show "dx.ok env t (\<lambda>s. P s \<and> sent_as (cue_key x) a s) (case a of Inr y \<Rightarrow> k (capabilityResultForDeviceCommand env y)
        | Inl _ \<Rightarrow> k (capabilityResultForDeviceCommand env (c\<lparr>dcStatus := st, dcResult := res\<rparr>)))"
      using own [of True res] by (cases a) (simp_all add: read, simp add: sent_as_def)
  qed
  show ?thesis
    unfolding interruptedResult_def finishInterrupted_def Let_def case_prod_beta st_def [symmetric]
  proof (rule ok_finish_command [OF P c st])
    fix a :: "dx_error + DeviceCommand"
    show "dx.ok env t (\<lambda>s. P s \<and> sent_as (cue_key x) a s) (case a of Inr y \<Rightarrow> k (capabilityResultForDeviceCommand env y)
      | Inl _ \<Rightarrow> await XStep (GetCommand (command_id c)) (\<lambda>got. case got of Inr y \<Rightarrow> k (capabilityResultForDeviceCommand env y)
        | Inl _ \<Rightarrow> k (capabilityResultForDeviceCommand env (c\<lparr>dcStatus := st, dcResult := command_result env (command_id c) st
            (fst (if st = CommandTimedOut then (''STAGE_DEVICE_COMMAND_TIMED_OUT'', ''TIMEOUT'') else (''STAGE_DEVICE_COMMAND_CANCELLED'', ''CANCELLED'')))
            (snd (if st = CommandTimedOut then (''STAGE_DEVICE_COMMAND_TIMED_OUT'', ''TIMEOUT'') else (''STAGE_DEVICE_COMMAND_CANCELLED'', ''CANCELLED'')))
            (if e = CtxDeadlineExceeded then ''context deadline exceeded'' else ''context canceled'') False (dcDeviceID c)\<rparr>))))"
      by (cases a) (simp_all only: read sum.case, simp only: sent_as_def sum.case simp_thms second)
  qed
qed

lemma ok_wait_command:
  assumes k: "\<And>r. dx.ok env t (fits x r) (k r)" and P: "lasts env P" and c: "\<And>s. P s \<Longrightarrow> sent_as (cue_key x) (Inr c) s"
  shows "dx.ok env t P (wait_command n env t c k)"
proof (induction n)
  case 0
  show ?case by (simp add: ok_interrupted [OF k P c])
next
  case (Suc n)
  let ?Q = "\<lambda>a s. P s \<and> sent_as (cue_key x) a s"
  have kq: "lasts env (?Q a)" for a by (simp add: P)
  have stop: "dx.ok env t (?Q a) (interruptedResult env t c e k)" for a e
    by (rule ok_interrupted [OF k kq]) (simp add: c)
  have lost: "dx.ok env t (?Q a) (k (failed_result u v))" for a u v
    by (rule dx_weaken [OF k kq]) simp
  have answer: "dx.ok env t (?Q (Inr y)) (k (capabilityResultForDeviceCommand env y))" for y
    by (rule ok_answer [OF k kq]) simp
  have again: "dx.ok env t (?Q a) (wait_command n env t c k)" for a
    by (rule dx_weaken [OF Suc kq]) simp
  have look: "dx.ok env t P (await XStep (GetCommand (command_id c)) (\<lambda>got.
         case got of
           Inl _ \<Rightarrow> act XStep (\<lambda>i s. (s, xiCtx i)) (\<lambda>over.
             case over of Some e \<Rightarrow> interruptedResult env t c e k
             | None \<Rightarrow> k (failed_result ''STAGE_DEVICE_RESULT_LOOKUP_FAILED'' ''result lookup failed''))
         | Inr x \<Rightarrow> if terminalDeviceCommand (dcStatus x) then k (capabilityResultForDeviceCommand env x) else wait_command n env t c k))"
    by (rule ok_GetCommand [OF P c])
      (auto simp: stop lost answer again split: sum.split option.split intro!: dx_read [OF kq])
  show ?case unfolding wait_command.simps
    by (auto simp: ok_interrupted [OF k P c] look split: option.split intro!: dx_read [OF P])
qed

lemma ok_dispatch_and_wait:
  assumes k: "\<And>r. dx.ok env t (fits x r) (k r)" and key: "trim_space (ciIdempotencyKey input) = cue_key x"
  shows "dx.ok env t (\<lambda>s. True) (dispatch_and_wait n env t ms input k)"
proof -
  have none: "dx.ok env t (\<lambda>s. True) (k r)" if "cpResult r \<noteq> ExecutionCompleted" for r
    by (rule dx_weaken [OF k]) (simp_all add: that)
  have wait: "dx.ok env t (sent_as (cue_key x) (Inr c)) (wait_command n env t c k)" for c
    by (rule ok_wait_command [OF k]) simp_all
  have answer: "dx.ok env t (sent_as (cue_key x) (Inr c)) (k (capabilityResultForDeviceCommand env c))" for c
    by (rule ok_answer [OF k]) simp_all
  have go: "dx.ok env t (\<lambda>s. True) (Dispatch env t (input\<lparr>ciDeadlineAt := Some d\<rparr>) (\<lambda>sent. case sent of
        Inl e \<Rightarrow> k (failed_result ''STAGE_DEVICE_DISPATCH_FAILED'' ''dispatch failed'')
      | Inr c \<Rightarrow> if terminalDeviceCommand (dcStatus c) then k (capabilityResultForDeviceCommand env c) else wait_command n env t c k))" for d
    by (rule ok_Dispatch) (auto simp: key none failed_result_def sent_as_def [of _ "Inl _"] wait answer split: sum.split)
  show ?thesis
    unfolding dispatch_and_wait_def case_prod_beta
    by (auto simp: go none cancelledBeforeDispatch_def split: option.split ctx_err.split intro!: dx_read)
qed

lemma rspace_len_append: "r \<noteq> [] \<Longrightarrow> rspace_len r = 0 \<Longrightarrow> c \<notin> {CHR 0xC2, CHR 0xE1, CHR 0xE2, CHR 0xE3} \<Longrightarrow>
    d \<notin> {CHR 0xE1, CHR 0xE2, CHR 0xE3} \<Longrightarrow> rspace_len (r @ c # d # cs) = 0"
  by (cases r; cases "tl r"; cases "tl (tl r)") (auto simp: rspace_len_def space2_def space3_def split: if_splits)

lemma trim_cue_key:
  assumes "trim_space x = x" and "x \<noteq> []"
  shows "trim_space (cue_key x) = cue_key x"
proof (rule trim_space_id)
  show "space_len (cue_key x) = 0" by (simp add: cue_key_def trim_eval)
  show "rspace_len (rev (cue_key x)) = 0" using trim_space_ends(2) [of x] assms
    by (simp add: cue_key_def rspace_len_append)
qed

lemma ok_resolve_session:
  assumes "\<And>a. (\<forall>r. a = Inl r \<longrightarrow> cpResult r = ExecutionFailed) \<Longrightarrow> dx.ok env t (\<lambda>s. True) (k a)"
  shows "dx.ok env t (\<lambda>s. True) (resolve_device_session req project snap k)"
  unfolding resolve_device_session_def Let_def case_prod_beta
  by (auto simp: failed_result_def split: option.split intro!: dx_read assms)

lemma ok_fw_Execute:
  assumes k: "\<And>r. dx.ok env t (fits (trim_space (crExecutionID req)) r) (k r)"
  shows "dx.ok env t (\<lambda>s. True) (fw_Execute n env t req k)"
proof -
  have none: "dx.ok env t (\<lambda>s. True) (k (failed_result u v))" for u v
    by (rule dx_weaken [OF k]) simp_all
  have none1: "dx.ok env t (\<lambda>s. True) (k r)" if "cpResult r = ExecutionFailed" for r
    by (rule dx_weaken [OF k]) (simp_all add: that)
  have none2: "dx.ok env t (\<lambda>s. True) (k (cancelledBeforeDispatch e))" for e
    by (rule dx_weaken [OF k]) simp_all
  have go: "dx.ok env t (\<lambda>s. True) (dispatch_and_wait n env t ms input k)"
    if "ciIdempotencyKey input = cue_key (trim_space (crExecutionID req))" "trim_space (crExecutionID req) \<noteq> []" for ms input
    by (rule ok_dispatch_and_wait [OF k]) (simp add: that trim_cue_key)
  show ?thesis
    unfolding fw_Execute_def
    by (auto simp: none none1 none2 go Let_def split: option.split sum.split prod.split intro!: dx_read ok_resolve_session)
qed

subsection \<open>Connections\<close>

lemma bound_reported:
  assumes "dx_inv env s" and "commandBoundTo cid u s" and "heard (trim_space cid) u CommandCompleted s"
  shows "reported (trim_space cid) s"
proof -
  have "(trim_space cid, u) \<in> set (dxInflight s)"
    using assms(2) by (auto simp: commandBoundTo_def Let_def dest: map_of_SomeD)
  then have "WBound (trim_space cid) u \<in> set (dxWire s)" using invD(4) [OF assms(1)] by (auto simp: conns_ok_def)
  then show ?thesis using assms(3) by (auto simp: reported_def heard_def)
qed

lemma ok_finish_report:
  assumes k: "\<And>go. dx.ok env t (\<lambda>s. True) (k go)" and P: "lasts env P"
    and true: "\<And>s. P s \<Longrightarrow> st = Some CommandCompleted \<Longrightarrow> reported (trim_space cid) s"
  shows "dx.ok env t P (finish_report env t cn cid st payload k)"
proof -
  have stop: "dx.ok env t P (k go)" for go by (rule dx_weaken [OF k P]) simp
  have complete: "dx.ok env t P (CompleteCommand env t cid x payload (\<lambda>a.
        case a of Inl e \<Rightarrow> k False | Inr c \<Rightarrow> act XStep (unbindCommand cid (vcServe cn)) (\<lambda>_. k True)))" if "st = Some x" for x
  proof (rule ok_CompleteCommand [OF P])
    fix a :: "dx_error + DeviceCommand"
    have "dx.ok env t (\<lambda>s. True) (case a of Inl e \<Rightarrow> k False | Inr c \<Rightarrow> act XStep (unbindCommand cid (vcServe cn)) (\<lambda>_. k True))"
      by (cases a) (auto simp: k guar_unbind intro!: dx_keep)
    then show "dx.ok env t (\<lambda>s. P s \<and> answers_for (trim_space cid) a s)
        (case a of Inl e \<Rightarrow> k False | Inr c \<Rightarrow> act XStep (unbindCommand cid (vcServe cn)) (\<lambda>_. k True))"
      by (rule dx_weaken) (simp_all add: P)
  qed (use that true in simp_all)
  show ?thesis
    unfolding finish_report_def using stop complete by (auto split: option.split CommandStatus.split)
qed

lemma ok_receive_result:
  assumes k: "\<And>go. dx.ok env t (\<lambda>s. True) (k go)"
  shows "dx.ok env t (\<lambda>s. \<forall>x. st = Some x \<longrightarrow> heard (trim_space cid) (vcServe cn) x s) (receive_result env t cn cid st payload k)"
proof -
  let ?P = "\<lambda>s. \<forall>x. st = Some x \<longrightarrow> heard (trim_space cid) (vcServe cn) x s"
  let ?B = "\<lambda>b s. b \<longrightarrow> st = Some CommandCompleted \<longrightarrow> reported (trim_space cid) s"
  have P: "lasts env ?P" by (cases st) simp_all
  have stop: "dx.ok env t (\<lambda>s. ?P s \<and> b s) (k go)" if "lasts env b" for go b
    by (rule dx_weaken [OF k]) (simp_all add: P that)
  have finish: "dx.ok env t (\<lambda>s. ?P s \<and> ?B True s) (finish_report env t cn cid st payload k)"
    by (rule ok_finish_report [OF k]) (simp_all add: P)
  have bound: "dx.ok env t (\<lambda>s. ?P s \<and> True) (act XStep (\<lambda>i s. (s, commandBoundTo cid (vcServe cn) s)) (\<lambda>bound.
     if \<not> bound then k True else finish_report env t cn cid st payload k))"
  proof (rule dx_learn [OF P, where Q = ?B])
    fix i s s' a assume "dx_inv env s" "?P s" "(s, commandBoundTo cid (vcServe cn) s) = (s', a)"
    then show "dx_guar env t s s' \<and> ?B a s'" using bound_reported by (auto simp: dx_guar_refl)
  next
    show "dx.ok env t (\<lambda>s. ?P s \<and> ?B b s) (if \<not> b then k True else finish_report env t cn cid st payload k)" for b
      using finish stop [of "?B b"] by (cases b) simp_all
  qed simp
  then show ?thesis
    unfolding receive_result_def using stop [of "\<lambda>s. True"] by (auto intro!: dx_read [OF P])
qed

lemma ok_activate:
  assumes k: "\<And>go. dx.ok env t (\<lambda>s. True) (k go)"
  shows "dx.ok env t (\<lambda>s. True) (activateTabletScope env cn project snap epoch g k)"
proof -
  have grant: "dx.ok env t (\<lambda>s. True) (act XStep (grant_scope cn project snap epoch) h)" if "\<And>a. dx.ok env t (\<lambda>s. True) (h a)" for h
    by (rule dx_keep) (simp_all add: guar_grant that)
  have close: "dx.ok env t (\<lambda>s. True) (act XStep (close_conn u) (\<lambda>_. k False))" for u
    by (rule dx_keep) (simp_all add: guar_close k)
  show ?thesis unfolding activateTabletScope_def
    by (auto simp: k close dx_GetDevice_def split: option.split intro!: dx_read grant)
qed

lemma ok_dx_receive:
  assumes k: "dx.ok env t (\<lambda>s. True) k"
  shows "dx.ok env t (\<lambda>s. True) (dx_receive n env t cn k)"
proof (induction n)
  case (Suc n)
  define continue where "continue go = (if go then dx_receive n env t cn k else k)" for go
  have c: "dx.ok env t (\<lambda>s. True) (continue go)" for go by (simp add: continue_def Suc k)
  have ack: "dx.ok env t (\<lambda>s. True) (act XStep (deliverTabletAssignmentAck cn a) continue)" for a
    by (rule dx_keep) (simp_all add: guar_ack c)
  let ?after = "\<lambda>m. case m of
        None \<Rightarrow> k
      | Some MsgIgnored \<Rightarrow> continue True
      | Some (MsgResult cid st payload) \<Rightarrow> receive_result env t cn cid st payload continue
      | Some (MsgTabletAck ack) \<Rightarrow>
        if vcProtocol cn \<noteq> ProtocolVersion2 then k
        else act XStep (\<lambda>i s. (s, xiOk i)) (\<lambda>valid. if \<not> valid then k else act XStep (deliverTabletAssignmentAck cn ack) continue)
      | Some (MsgScopeAck project snap epoch g) \<Rightarrow>
        if vcProtocol cn \<noteq> ProtocolVersion2 then k
        else act XStep (\<lambda>i s. (s, xiOk i)) (\<lambda>valid. if \<not> valid then k else activateTabletScope env cn project snap epoch g continue)"
  let ?Q = "\<lambda>m s. \<forall>cid st p x. m = Some (MsgResult cid st p) \<longrightarrow> st = Some x \<longrightarrow> heard (trim_space cid) (vcServe cn) x s"
  have "dx.ok env t (\<lambda>s. True \<and> True) (act XStep (receive_message cn) ?after)"
  proof (rule dx_learn [where Q = ?Q])
    fix i s s' m assume "dx_inv env s" "receive_message cn i s = (s', m)"
    then show "dx_guar env t s s' \<and> ?Q m s'" using guar_receive by blast
  next
    fix m
    have rest: "dx.ok env t (\<lambda>s. True) (?after m)" if "\<And>cid st p. m \<noteq> Some (MsgResult cid st p)"
      using that by (auto simp: k c ack split: option.split dx_message.split intro!: dx_read ok_activate)
    show "dx.ok env t (\<lambda>s. True \<and> ?Q m s) (?after m)"
    proof (cases "\<exists>cid st p. m = Some (MsgResult cid st p)")
      case True
      then obtain cid st p where m: "m = Some (MsgResult cid st p)" by blast
      show ?thesis using ok_receive_result [OF c, of st cid cn p] by (simp add: m)
    qed (use rest in simp)
  qed simp_all
  then show ?case unfolding dx_receive.simps Let_def by (simp only: continue_def [abs_def] simp_thms)
qed (simp add: k)

lemma ok_unregister_dev: "dx.ok env t (\<lambda>s. True) (unregister_dev env t cn)"
proof -
  have fails: "dx.ok env t (\<lambda>s. True) (foldr (\<lambda>cid k. failInterruptedCommand env t cid (vcDevice cn) k) cids (Ret DxDone))" for cids
  proof (induction cids)
    case (Cons c cids)
    have "dx.ok env t (\<lambda>s. True \<and> answers_for (trim_space c) a s)
        (foldr (\<lambda>cid k. failInterruptedCommand env t cid (vcDevice cn) k) cids (Ret DxDone))" for a
      by (rule dx_weaken [OF Cons]) simp_all
    then show ?case unfolding foldr.simps comp_def failInterruptedCommand_def by (intro ok_CompleteCommand) simp_all
  qed (simp add: rg_Ret)
  show ?thesis unfolding unregister_dev_def
    by (intro dx_keep) (simp_all add: guar_unregister guar_close fails)
qed

lemma ok_close_conn: "dx.ok env t (\<lambda>s. True) p \<Longrightarrow> dx.ok env t (\<lambda>s. True) (act XStep (close_conn u) (\<lambda>_. p))"
  by (rule dx_keep) (simp_all add: guar_close)

lemma unregistered_stable: "dx_stable env t (\<lambda>s. dxRegistered s t = None)"
  by (auto simp: stable_def dx_rely_def dx_moves_def)

lemma ok_serve_device:
  assumes "vcServe cn0 = t"
  shows "dx.ok env t (\<lambda>s. dxRegistered s t = None) (serve_device env n t cn0)"
proof -
  have run: "dx.ok env t (\<lambda>s. True) (act XStep (\<lambda>i s. (s, xiOk i \<and> conn_current cn s \<and> \<not> dxShut s (vcServe cn))) (\<lambda>observed.
             if \<not> observed then unregister_dev env t cn
             else act XStep (\<lambda>i s. (s, xiOk i)) (\<lambda>ready.
               if \<not> ready then act XStep (close_conn (vcServe cn)) (\<lambda>_. unregister_dev env t cn)
               else dx_receive n env t cn (act XStep (close_conn (vcServe cn)) (\<lambda>_. unregister_dev env t cn)))))" for cn
    by (auto simp: ok_unregister_dev intro!: ok_close_conn dx_read ok_dx_receive)
  have "dx.ok env t (\<lambda>s. True \<and> dxRegistered s t = None) (serve_device env n t cn0)"
    unfolding serve_device_def Let_def
  proof (rule dx_learn [where Q = "\<lambda>a s. True", OF _ unregistered_stable])
    fix i s s' a assume "dx_inv env s" "dxRegistered s t = None" "register_conn cn0 i s = (s', a)"
    then show "dx_guar env t s s' \<and> True" using guar_register_conn [OF _ assms] by blast
  qed (auto simp: run ok_close_conn rg_Ret split: option.split prod.split)
  then show ?thesis by simp
qed

lemma ok_Close: "dx.ok env t (\<lambda>s. True) dx_Close"
proof -
  have all: "dx.ok env t (\<lambda>s. True) (foldr (\<lambda>u k. act XStep (close_conn u) (\<lambda>_. k)) us (Ret DxDone))" for us
    by (induction us) (simp_all add: ok_close_conn rg_Ret)
  show ?thesis unfolding dx_Close_def
    by (rule dx_keep) (auto simp: all dx_guar_refl intro!: guar_frame)
qed

subsection \<open>The assignment of a tablet\<close>

lemma ok_preflight:
  assumes k: "\<And>b. dx.ok env t (\<lambda>s. True) (k b)"
  shows "dx.ok env t (\<lambda>s. True) (PreflightTabletAssignment env x k)"
  unfolding PreflightTabletAssignment_def Let_def
  by (auto simp: k dx_GetDevice_def GetAssignmentRecord_def split: sum.split intro!: dx_read)

lemma ok_leave_transition: "dx.ok env t (\<lambda>s. True) (act XStep (end_transition x aid) (\<lambda>_. Ret r))"
  by (rule dx_keep) (simp_all add: guar_end rg_Ret)

lemma ok_assign: "dx.ok env t (\<lambda>s. True) (ExecuteTabletAssignment env x actor)"
proof -
  have start: "dx.ok env t (\<lambda>s. True) (act XStep (begin_transition x g aid) k)" if "\<And>a. dx.ok env t (\<lambda>s. True) (k a)" for g aid k
    by (rule dx_keep) (simp_all add: guar_begin that)
  have commit: "dx.ok env t (\<lambda>s. True) (act XStep (commit_assignment env x cn) k)" if "\<And>a. dx.ok env t (\<lambda>s. True) (k a)" for cn k
    by (rule dx_keep) (simp_all add: guar_commit_assignment that)
  show ?thesis unfolding ExecuteTabletAssignment_def Let_def
    by (auto simp: rg_Ret ok_close_conn ok_leave_transition wait_ack_def split: option.split prod.split
        intro!: dx_read ok_preflight start commit ok_close_conn ok_leave_transition)
qed

section \<open>All interleavings\<close>

definition call_start :: "dx_call \<Rightarrow> nat \<Rightarrow> dx_state \<Rightarrow> bool" where
  "call_start call t s \<longleftrightarrow> (case call of DxServe n dev protocol caps \<Rightarrow> dxRegistered s t = None | _ \<Rightarrow> True)"

lemma ok_call: "dx.ok env t (call_start call t) (dx_run env t call)"
proof (cases call)
  case (DxExecute n req)
  have r: "dx.ok env t (fits x r) (act (XReturn x r) (\<lambda>i s. (s, ())) (\<lambda>_. Ret (DxResult r)))" for x r
    by (rule rg_act) (auto simp: kept_stable dx_marks_def fits_def dx_guar_refl intro!: exI [of _ "\<lambda>s. True"] rg_Ret)
  show ?thesis unfolding DxExecute dx_run_def call_start_def dx_call.case by (rule ok_fw_Execute) (rule r)
next
  case (DxDispatch input)
  then show ?thesis by (simp add: call_start_def [abs_def] dx_run_def ok_Dispatch rg_Ret)
next
  case (DxServe n dev protocol caps)
  then show ?thesis by (simp add: call_start_def [abs_def] dx_run_def ok_serve_device)
next
  case (DxAssign x actor)
  then show ?thesis by (simp add: call_start_def [abs_def] dx_run_def ok_assign)
next
  case (DxShut u)
  then show ?thesis by (simp add: call_start_def [abs_def] dx_run_def ok_close_conn rg_Ret)
next
  case DxClose
  then show ?thesis by (simp add: call_start_def [abs_def] dx_run_def ok_Close)
qed

lemma initial_inv: "dx_inv env (dx_initial assigned sequence)"
  by (simp add: dx_inv_def dx_initial_def table_ok_def wire_ok_def conns_ok_def)

lemma reachable_ok:
  assumes "dx_reachable env calls c"
  shows "dx.all_ok env c"
proof -
  obtain assigned sequence where run: "istep\<^sup>*\<^sup>* (dx_initial assigned sequence, \<lambda>t. dx_run env t (calls t)) c"
    using assms by (auto simp: dx_reachable_def)
  show ?thesis
    by (rule dx.reached_ok [OF run initial_inv, of "\<lambda>t. call_start (calls t) t"])
      (auto simp: ok_call call_start_def dx_initial_def split: dx_call.split)
qed

end
