(* ===== verification/DeviceResults.thy ===== *)
theory DeviceResults
  imports DeviceWork
begin

text \<open>
  The properties of the commands of stage devices, for every interleaving of cue actions, dispatches, connections,
  assignments and shutdowns, and runs in which they say something.
\<close>

section \<open>Properties\<close>

lemma reachable_inv: "dx_reachable env calls (s, ps) \<Longrightarrow> dx_inv env s"
  using reachable_ok by (fastforce simp: dx.all_ok_def)

text \<open>
  C12. Delivery: in every interleaving a device command goes out at most once, and only on a connection that was
  registered for its device and to which it was bound before; no two commands of a device have the same idempotency
  key.
\<close>

theorem device_command_once:
  assumes "dx_reachable env calls (s, ps)"
  shows "length (filter (\<lambda>w. \<exists>u. w = WSent c u) (dxWire s)) \<le> 1
    \<and> (\<forall>u. WSent c u \<in> set (dxWire s) \<longrightarrow> WBound c u \<in> set (dxWire s)
        \<and> (\<exists>r \<in> set (dxRows s). command_id r = c \<and> (\<exists>cn. dxRegistered s u = Some cn \<and> vcDevice cn = dcDeviceID r)))
    \<and> (\<forall>r \<in> set (dxRows s). \<forall>q \<in> set (dxRows s). dcDeviceID r = dcDeviceID q \<longrightarrow> dc_key r = dc_key q
        \<longrightarrow> dc_key r \<noteq> [] \<longrightarrow> r = q)"
proof -
  note inv = reachable_inv [OF assms]
  have "sent_of c = (\<lambda>w. \<exists>u. w = WSent c u)" by (simp add: sent_of_def fun_eq_iff)
  moreover have "length (filter (sent_of c) (dxWire s)) \<le> 1" using invD(3) [OF inv] by (simp add: wire_ok_def)
  moreover have "\<forall>u. WSent c u \<in> set (dxWire s) \<longrightarrow> WBound c u \<in> set (dxWire s)
        \<and> (\<exists>r \<in> set (dxRows s). command_id r = c \<and> (\<exists>cn. dxRegistered s u = Some cn \<and> vcDevice cn = dcDeviceID r))"
    using invD(3) [OF inv] unfolding wire_ok_def by blast
  moreover have "r = q" if "r \<in> set (dxRows s)" "q \<in> set (dxRows s)" "dcDeviceID r = dcDeviceID q" "dc_key r = dc_key q"
      "dc_key r \<noteq> []" for r q
    using same_row [OF invD(1) [OF inv] that(1,2)] invD(1) [OF inv] that unfolding table_ok_def by blast
  ultimately show ?thesis by (metis (no_types, lifting))
qed

lemma guarded_tablet:
  assumes "insert_guard env dev project snap s" and "deDevice env dev = Some d" and "dvProtocol d = ProtocolVersion2"
  shows "\<exists>a. dxAssign s dev = Some a \<and> asState a = ''ACTIVE'' \<and> asProjectID a = project \<and> asSnapshotID a = snap"
  using assms by (auto simp: insert_guard_def ProtocolVersion1_def ProtocolVersion2_def split: option.splits)

text \<open>
  C13. Assignment fence of v2 tablets: where a command is about to go out, it is a command of the sender and its
  connection is one of its device. As long as no result has been written for a command its row is ACCEPTED, and if its
  device is a tablet player of protocol v2, then the device stays ACTIVE and assigned to the project and the runtime
  snapshot the command was created for, whatever assignments of tablets are requested, committed or fail in between.
\<close>

theorem assignment_holds:
  assumes "dx_reachable env calls (s, ps)"
  shows "(label_of (ps t) = Some (XSend c u) \<longrightarrow>
      (\<exists>r \<in> set (dxRows s). command_id r = c \<and> dcOwner r = t \<and> (\<exists>cn. dxRegistered s u = Some cn \<and> vcDevice cn = dcDeviceID r)))
    \<and> (\<forall>r \<in> set (dxRows s). dcTrail r = [] \<longrightarrow> dcStatus r = CommandAccepted
        \<and> (\<forall>d. deDevice env (dcDeviceID r) = Some d \<longrightarrow> dvProtocol d = ProtocolVersion2 \<longrightarrow> dvKind d = DeviceTabletPlayer
             \<longrightarrow> dvProfile d = TabletPlayerProfileID \<longrightarrow>
             (\<exists>a. dxAssign s (dcDeviceID r) = Some a \<and> asState a = ''ACTIVE'' \<and> asProjectID a = ceProjectID (dcEnvelope r)
                \<and> asSnapshotID a = ceRuntimeSnapshotID (dcEnvelope r))))"
proof -
  note inv = reachable_inv [OF assms]
  have "sendable env t c u s" if "label_of (ps t) = Some (XSend c u)"
    using dx.ok_marks [OF reachable_ok [OF assms], of t "XSend c u"] that by (auto simp: label_of_Some dx_marks_def)
  moreover have "dcStatus r = CommandAccepted
      \<and> insert_guard env (dcDeviceID r) (ceProjectID (dcEnvelope r)) (ceRuntimeSnapshotID (dcEnvelope r)) s"
    if "r \<in> set (dxRows s)" "dcTrail r = []" for r
    using invD(2) [OF inv] that unfolding drow_ok_def guarded_def by blast
  ultimately show ?thesis using guarded_tablet unfolding sendable_def by blast
qed

text \<open>
  C11. Truth: a cue action on a stage device returns COMPLETED only if a device reported COMPLETED for the command
  with the idempotency key of this execution, on the connection of the command's device to which it was bound.
\<close>

theorem device_work_is_reported:
  assumes "dx_reachable env calls (s, ps)" and "ps t = Act (XReturn x r) f" and "cpResult r = ExecutionCompleted"
  shows "\<exists>q u cn. q \<in> set (dxRows s) \<and> dc_key q = cue_key x \<and> WBound (command_id q) u \<in> set (dxWire s)
    \<and> WReport (command_id q) u CommandCompleted \<in> set (dxWire s) \<and> dxRegistered s u = Some cn \<and> vcDevice cn = dcDeviceID q"
proof -
  note inv = reachable_inv [OF assms(1)]
  have "done_for x s"
    using dx.ok_marks [OF reachable_ok [OF assms(1)], of t "XReturn x r"] assms(2,3) by (simp add: dx_marks_def)
  then obtain c dev u where e: "dxEver s c = Some (dev, cue_key x)" and w: "WBound c u \<in> set (dxWire s)"
      "WReport c u CommandCompleted \<in> set (dxWire s)" unfolding done_for_def reported_def by blast
  then obtain q cn where q: "q \<in> set (dxRows s)" "command_id q = c" "dxRegistered s u = Some cn" "vcDevice cn = dcDeviceID q"
    using invD(3) [OF inv] unfolding wire_ok_def by blast
  moreover have "dc_key q = cue_key x" using invD(2) [OF inv q(1)] q(2) e by (simp add: drow_ok_def)
  ultimately show ?thesis using w by blast
qed

text \<open>
  C14. Finality: once a terminal result can be read, that is once its row is terminal and nobody is writing it, no
  step of any goroutine changes it.
\<close>

theorem result_is_final:
  assumes "dx_reachable env calls c" and "istep\<^sup>*\<^sup>* c c'"
    and "r \<in> set (dxRows (fst c))" and "dcStatus r \<noteq> CommandAccepted" and "dxWriter (fst c) = None"
  shows "\<exists>q \<in> set (dxRows (fst c')). command_id q = command_id r \<and> dcStatus q = dcStatus r \<and> dcResult q = dcResult r"
proof -
  have "settled (command_id r) (dcStatus r) (dcResult r) (fst c')"
    using assms(2)
  proof (induction rule: rtranclp_induct)
    case base
    show ?case using assms(3-5) by (auto simp: settled_def)
  next
    case (step c1 c2)
    have "dx.all_ok env c1" by (rule dx.ok_run [OF step(1) reachable_ok [OF assms(1)]])
    from dx.ok_guar [OF step(2) this] obtain t where "dx_guar env t (fst c1) (fst c2)" .
    with step(3) show ?case by (simp add: dx_guar_def dx_moves_def)
  qed
  then show ?thesis by (auto simp: settled_def)
qed

section \<open>Runs\<close>

definition dx_demo_env :: dx_env where
  "dx_demo_env = \<lparr>deDevice = (\<lambda>d. if d = ''d'' then Some \<lparr>dvKind = DeviceTabletPlayer, dvProfile = TabletPlayerProfileID,
       dvProtocol = ProtocolVersion2, dvProject = [], dvCapabilities = [''tablet.media.play''], dvEnabled = True\<rparr> else None),
     deEvents = True, dePayload = (\<lambda>ty p now. Some p), deState = (\<lambda>p. None), deTargetDevice = Some, deLighting = (\<lambda>m d ty p. Inr p),
     deEncode = (\<lambda>r. ''result''), deError = (\<lambda>r. None)\<rparr>"

definition dx_demo_request :: CapRequest where
  "dx_demo_request = \<lparr>crExecutionID = ''x'', crProjectID = ''p'', crSessionID = ''s'', crRuntimeSnapshotID = ''n'', crIssuer = [],
     crCausationID = [], crCapability = ''tablet.media.play'',
     crTarget = Some \<lparr>ctAliasID = ''a'', ctRef = ''r'', ctLogicalType = ''stage_device'', ctConfiguration = ''d''\<rparr>, crParameters = ''{}'',
     crPriority = [], crTimeoutMS = 0, crCorrelationID = []\<rparr>"

definition dx_demo_calls :: "nat \<Rightarrow> dx_call" where
  "dx_demo_calls t = (if t = 0 then DxServe 5 ''d'' ProtocolVersion2 [''tablet.media.play''] else if t = 1 then DxExecute 3 dx_demo_request else DxClose)"

definition dx_in :: dx_input where
  "dx_in = \<lparr>xiSql = SqlOk, xiNow = 1000, xiID = Some ''c'', xiAuthority = None, xiErr = None, xiOk = True, xiMessage = None,
     xiSnapshot = Some \<lparr>rsID = ''n'', rsProjectID = ''p'', rsPublished = True, rsManifest = []\<rparr>,
     xiSession = Some \<lparr>sesID = ''s'', sesProjectID = ''p'', sesRuntimeSnapshotID = ''n'', sesType = SessionShow, sesStatus = SessionActive,
       sesCurrentCueID = None\<rparr>,
     xiShow = (\<lambda>p. False), xiCtx = None, xiDeadline = None\<rparr>"

definition dx_demo_start :: dx_state where
  "dx_demo_start = dx_initial (\<lambda>d. if d = ''d'' then Some \<lparr>asProjectID = ''p'', asSnapshotID = ''n'', asEpoch = 1, asState = ''ACTIVE''\<rparr> else None) 0"

definition dx_demo_run :: "(nat \<times> dx_input) list \<Rightarrow> (dx_state \<times> (nat \<Rightarrow> dx_prog)) option" where
  "dx_demo_run tis = irun tis (dx_demo_start, \<lambda>t. dx_run dx_demo_env t (dx_demo_calls t))"

lemma dx_demo_reachable: "dx_demo_run tis = Some c \<Longrightarrow> dx_reachable dx_demo_env dx_demo_calls c"
  unfolding dx_demo_run_def dx_demo_start_def dx_reachable_def by (blast dest: irun_steps intro: order_refl)

text \<open>The device connects and acknowledges its scope; the action creates the command and has it bound.\<close>

definition dx_connected :: "(nat \<times> dx_input) list" where
  "dx_connected = replicate 3 (0, dx_in) @ replicate 6 (0, dx_in\<lparr>xiMessage := Some (MsgScopeAck ''p'' ''n'' 1 1)\<rparr>)"

definition dx_bound :: "(nat \<times> dx_input) list" where
  "dx_bound = dx_connected @ replicate 13 (1, dx_in)"

text \<open>It goes out, and the device reports COMPLETED.\<close>

definition dx_reported :: "(nat \<times> dx_input) list" where
  "dx_reported = (1, dx_in) # replicate 10 (0, dx_in\<lparr>xiMessage := Some (MsgResult ''c'' (Some CommandCompleted) ''done'')\<rparr>)"

text \<open>What is seen at the send, after the report and when the action returns.\<close>

definition dx_seen :: "dx_state \<times> (nat \<Rightarrow> dx_prog) \<Rightarrow> nat \<Rightarrow> bool" where
  "dx_seen c n = (case c of (s, ps) \<Rightarrow>
     if n = 0 then label_of (ps 1) = Some (XSend ''c'' 0) \<and> dxWire s = [WBound ''c'' 0] \<and> map dcTrail (dxRows s) = [[]]
       \<and> map dcDeviceID (dxRows s) = [''d'']
     else if n = 1 then map (\<lambda>r. (command_id r, dcStatus r, dcResult r)) (dxRows s) = [(''c'', CommandCompleted, ''done'')] \<and> dxWriter s = None
       \<and> WSent ''c'' 0 \<in> set (dxWire s) \<and> label_of (ps 1) = Some XStep
     else (case label_of (ps 1) of Some (XReturn x r) \<Rightarrow> x = ''x'' \<and> cpResult r = ExecutionCompleted | _ \<Rightarrow> False))"

lemma dx_demo_seen:
  "case dx_demo_run dx_bound of None \<Rightarrow> False | Some c0 \<Rightarrow> dx_seen c0 0 \<and>
     (case irun dx_reported c0 of None \<Rightarrow> False | Some c1 \<Rightarrow> dx_seen c1 1 \<and>
       (case irun (replicate 2 (1, dx_in)) c1 of None \<Rightarrow> False | Some c2 \<Rightarrow> dx_seen c2 2))"
  by code_simp

lemma dx_demo_steps:
  obtains c0 c1 c2 where "dx_reachable dx_demo_env dx_demo_calls c0" "dx_seen c0 0"
    "dx_reachable dx_demo_env dx_demo_calls c1" "dx_seen c1 1" "istep\<^sup>*\<^sup>* c1 c2" "dx_reachable dx_demo_env dx_demo_calls c2" "dx_seen c2 2"
proof -
  from dx_demo_seen obtain c0 c1 c2 where run: "dx_demo_run dx_bound = Some c0" "irun dx_reported c0 = Some c1"
      "irun (replicate 2 (1, dx_in)) c1 = Some c2" and seen: "dx_seen c0 0" "dx_seen c1 1" "dx_seen c2 2"
    by (auto split: option.splits)
  have more: "dx_demo_run (dx_bound @ dx_reported) = Some c1"
    using run by (simp add: dx_demo_run_def irun_append)
  then have "dx_demo_run ((dx_bound @ dx_reported) @ replicate 2 (1, dx_in)) = Some c2"
    using run(3) by (simp add: dx_demo_run_def irun_append del: append_assoc)
  with run more seen that show ?thesis by (blast intro: dx_demo_reachable irun_steps)
qed

theorem device_command_once_witness:
  "\<exists>s ps r. dx_reachable dx_demo_env dx_demo_calls (s, ps) \<and> WSent ''c'' 0 \<in> set (dxWire s) \<and> r \<in> set (dxRows s) \<and> command_id r = ''c''"
proof -
  obtain s ps where reach: "dx_reachable dx_demo_env dx_demo_calls (s, ps)" and seen: "dx_seen (s, ps) 1"
    using dx_demo_steps by (metis surj_pair)
  then have "WSent ''c'' 0 \<in> set (dxWire s)" by (simp add: dx_seen_def)
  with device_command_once [OF reach, of "''c''"] reach show ?thesis by blast
qed

theorem assignment_holds_witness:
  "\<exists>s ps r a. dx_reachable dx_demo_env dx_demo_calls (s, ps) \<and> label_of (ps 1) = Some (XSend ''c'' 0)
     \<and> r \<in> set (dxRows s) \<and> dcTrail r = [] \<and> dcDeviceID r = ''d'' \<and> dxAssign s ''d'' = Some a \<and> asState a = ''ACTIVE''
     \<and> asProjectID a = ceProjectID (dcEnvelope r) \<and> asSnapshotID a = ceRuntimeSnapshotID (dcEnvelope r)"
proof -
  obtain s ps where reach: "dx_reachable dx_demo_env dx_demo_calls (s, ps)" and seen: "dx_seen (s, ps) 0"
    using dx_demo_steps by (metis surj_pair)
  then have l: "label_of (ps 1) = Some (XSend ''c'' 0)" and rows: "map dcTrail (dxRows s) = [[]]" by (simp_all add: dx_seen_def)
  then obtain r where r: "r \<in> set (dxRows s)" "dcTrail r = []" by (auto simp: map_eq_Cons_conv)
  have d: "dcDeviceID r = ''d''" using r(1) seen by (auto simp: dx_seen_def)
  then obtain e where "deDevice dx_demo_env (dcDeviceID r) = Some e" "dvProtocol e = ProtocolVersion2" "dvKind e = DeviceTabletPlayer"
    "dvProfile e = TabletPlayerProfileID" by (simp add: dx_demo_env_def)
  with assignment_holds [OF reach, of 1 "''c''" 0] r obtain a where "dxAssign s (dcDeviceID r) = Some a" "asState a = ''ACTIVE''"
    "asProjectID a = ceProjectID (dcEnvelope r)" "asSnapshotID a = ceRuntimeSnapshotID (dcEnvelope r)" by blast
  with reach l r d show ?thesis by auto
qed

theorem device_work_is_reported_witness:
  "\<exists>s ps q u. dx_reachable dx_demo_env dx_demo_calls (s, ps) \<and> q \<in> set (dxRows s) \<and> dc_key q = cue_key ''x''
     \<and> WReport (command_id q) u CommandCompleted \<in> set (dxWire s)"
proof -
  obtain s ps where reach: "dx_reachable dx_demo_env dx_demo_calls (s, ps)" and seen: "dx_seen (s, ps) 2"
    using dx_demo_steps by (metis surj_pair)
  then obtain r where l: "label_of (ps 1) = Some (XReturn ''x'' r)" and r: "cpResult r = ExecutionCompleted"
    by (auto simp: dx_seen_def split: option.splits dx_label.splits)
  from l obtain f where "ps 1 = Act (XReturn ''x'' r) f" by (auto simp: label_of_Some)
  from device_work_is_reported [OF reach this r] reach show ?thesis by blast
qed

theorem result_is_final_witness:
  "\<exists>c c' q. dx_reachable dx_demo_env dx_demo_calls c \<and> istep\<^sup>*\<^sup>* c c' \<and> c \<noteq> c' \<and> q \<in> set (dxRows (fst c')) \<and> command_id q = ''c''
     \<and> dcStatus q = CommandCompleted \<and> dcResult q = ''done''"
proof -
  obtain c1 c2 where reach: "dx_reachable dx_demo_env dx_demo_calls c1" and seen: "dx_seen c1 1" "dx_seen c2 2" and run: "istep\<^sup>*\<^sup>* c1 c2"
    using dx_demo_steps by metis
  from seen(1) obtain r where r: "r \<in> set (dxRows (fst c1))" "command_id r = ''c''" "dcStatus r = CommandCompleted" "dcResult r = ''done''"
      and free: "dxWriter (fst c1) = None"
    by (auto simp: dx_seen_def map_eq_Cons_conv split: prod.splits)
  from result_is_final [OF reach run r(1) _ free] r have "\<exists>q \<in> set (dxRows (fst c2)). command_id q = ''c'' \<and> dcStatus q = CommandCompleted
      \<and> dcResult q = ''done''" by simp
  moreover have "c1 \<noteq> c2" using seen by (auto simp: dx_seen_def split: prod.splits)
  ultimately show ?thesis using reach run by blast
qed

section \<open>A command nobody completes\<close>

text \<open>
  Only the goroutine that waits for a command, or the connection it is bound to, writes its result. When the Hub ends
  before, the row stays ACCEPTED, and then its device can never be assigned anew.
\<close>

lemma accepted_blocks_assignment:
  assumes "r \<in> set (dxRows s)" and "dcStatus r = CommandAccepted" and "dcDeviceID r = trim_space (tiDeviceID x)"
  shows "CommitTabletSafeAssignment env x i s = (s, False)"
  using assms by (auto simp: CommitTabletSafeAssignment_def Let_def free_to_assign_def normalizeTabletAssignmentInput_def split: option.split)

end
