(* ===== verification/Spec2Isabelle.thy ===== *)
theory Spec2Isabelle
  imports StageLaser TimecodeSafety HASupervisor HAExclusion Capability CueEngine DependencyPlan RuntimeSafety RoutingSafety Recovery Restart FirmwareSafety TwinSafety DeviceResults
begin

text \<open>
  StageCore: the control logic of a live-show hub, verified.

  StageCore (\<open>src/\<close>, Go) runs a show from one Hub. An operator or a timecode source starts cues; a cue runs actions,
  which capability executors carry out on companions and stage devices; inputs are routed to outputs and cues;
  a stop or an Emergency Blackout must end all of it. Two Hubs may stand by for each other under a lease that a witness
  grants. Extensions are planned and installed in dependency order, devices take firmware over their sockets, and a
  simulation runs the same show on a digital twin. What this development holds is the code in between: the decisions,
  the state machines, the rows and the interleavings, not the transports around them.

  \<^bold>\<open>How the model reads.\<close> A Go struct is a record with the fields the code reads, a string enumeration a datatype (or the
  string itself where other values matter), a map an association list or a function, \<open>int64\<close> an \<open>int\<close> kept in range by
  \<open>wrap64\<close>, a byte an \<open>8 word\<close>, \<open>float64\<close> the exact dyadic rational it stands for. An operation is a definition with
  the branches of the code in order; errors are the left of a sum. A statement on the database is an atomic action whose
  outcome is an input: it works, it fails, or it works and its reply is lost (\<open>sql\<close> in \<open>HALease\<close>). A goroutine is
  either a step relation over the points at which it can be interrupted (\<open>HAAuthority\<close>, \<open>HASupervisor\<close>) or a \<open>prog\<close> of
  theory \<open>Interleave\<close>, a tree of atomic actions; \<open>istep\<close> interleaves any number of them and \<open>irun\<close> follows one schedule. What is
  outside \<open>src/\<close> or pure transport (JSON, hashes, clocks, sockets, other processes) is an argument of the definitions
  that use it, gathered in an environment record per component.

  \<^bold>\<open>Shared.\<close> \<open>Prelude\<close>: Go's library (\<open>strings.TrimSpace\<close> on UTF-8, \<open>ToUpper\<close>, 64-bit wrap-around, truncating division),
  and the locales \<open>invariant_machine\<close> (an invariant of a step function and of its runs), \<open>refined_machine\<close> (it also
  implements an abstract machine) and \<open>command_journal\<close> (a bounded memory of answers). \<open>Interleave\<close>: goroutines and
  the locale \<open>rely_guarantee\<close>, by which a proof of one goroutine under interference holds for every schedule. Every locale
  is interpreted on the code's own definitions: \<open>laser\<close>, \<open>laser_journal\<close>, \<open>lease\<close>, \<open>controller\<close>, \<open>supervisor\<close>, \<open>loops\<close>,
  \<open>registry\<close>, \<open>show_lock\<close>, \<open>semver\<close> (\<open>version_order\<close>), \<open>rc\<close>, \<open>fw\<close> and \<open>dx\<close> (\<open>rely_guarantee\<close>). \<open>Contracts\<close>: commands,
  results and sessions (\<open>contracts/contracts.go\<close>, \<open>domain/runtime.go\<close>).

  \<^bold>\<open>Devices.\<close> \<open>StageLaser\<close>: the contract and state machine of the laser (\<open>stagelaser/contract.go\<close>, \<open>state_machine.go\<close>),
  every command, timer and restart; its lemmas show that the tracked output agrees with the lamp, what SAFE_OFF settles,
  and where it is refused. \<open>Firmware\<close>, \<open>FirmwareSafety\<close>: manifests, the life of an update and the connections it travels
  on (\<open>deviceupdate\<close>, \<open>devicechannel/firmware_maintenance.go\<close>, parts of \<open>runtime.go\<close>); a completed update went through
  every state on one connection, a request leaves the Hub only when its delivery is stored, one update per device.
  \<open>DeviceCommands\<close>, \<open>DeviceSafety\<close>, \<open>DeviceWork\<close>, \<open>DeviceResults\<close>: the commands of stage devices
  (\<open>deviceexperience/command.go\<close>, \<open>types.go\<close>), the connections that carry them (\<open>devicechannel/runtime.go\<close>), the
  assignment of tablets (\<open>tablet_assignment.go\<close> of both) and the executor of cue actions (\<open>forwarder.go\<close>), every call a
  goroutine. \<open>DeviceSafety\<close> has the invariant and what an action may do to it, \<open>DeviceWork\<close> that every goroutine
  keeps to that, \<open>DeviceResults\<close> the properties: a command goes out once and on a connection of its device, no v2 tablet
  is assigned away from a command without a result, a cue action completes only on the device's own report, and a
  result that can be read is final.

  \<^bold>\<open>Timecode.\<close> \<open>Timecode\<close> (values, rates, drop frames), \<open>MTC\<close> (MIDI quarter frames, \<open>mtc.go\<close>, \<open>mtc_input.go\<close>),
  \<open>TimecodeRuntime\<close> and \<open>TimecodeSafety\<close> (generator, health monitor, source coordinator, scheduler, the pipeline from an
  observation to a GO, \<open>timecode/*.go\<close>): round trips of values and frames, exactly the due bindings fire, and a command
  identity is sent once.

  \<^bold>\<open>Cues and commands.\<close> \<open>CueGroup\<close> (policies, validation and resolution of linked cues), \<open>CommandStore\<close> (command records
  with their unique keys, \<open>store/runtime.go\<close>), \<open>Capability\<close> (registry and the authority gate in front of the executors),
  \<open>CueEngine\<close> (\<open>cueengine/engine.go\<close>, \<open>group.go\<close>): validated groups resolve, a command is executed once however calls
  interleave, a cue completes exactly when its actions do, and what can leave its execution running is a statement
  that failed or lost its reply, or a group that reports RUNNING.
  \<open>RuntimeControl\<close>, \<open>RuntimeSafety\<close> (\<open>runtimecontrol/service.go\<close> with the store operations it uses): every operation of the
  service as a goroutine; a confirmed stop leaves no cue that a GO of the service started, and a stopped session reaches no
  device. Cues of a timecode source or a route go to the engine directly, and no stop waits for them. \<open>Routing\<close>, \<open>RoutingSafety\<close>
  (\<open>routing/*.go\<close>): from an input to the dispatch of its routes; an unconfirmed test spares what is critical, the first
  failure ends the injection, the debouncer keeps its window.

  \<^bold>\<open>High availability.\<close> \<open>HALease\<close> (the witness's row, \<open>halease/service.go\<close>), \<open>HAAuthority\<close> (witness server, client, controller;
  \<open>hawitness\<close>, \<open>haauthority/controller.go\<close>), \<open>HAExclusion\<close> (witness and Hubs composed), \<open>HASupervisor\<close> (activation, renewal,
  demotion): the stored row refines an abstract lease; grants of different epochs follow each other unless the first is
  released, and two Hubs are not leaders together but within a microsecond of a new grant or after such a release, while the
  clocks behave (\<open>late_release_two_leaders\<close> shows that the release matters); a demotion fences whatever is in flight.

  \<^bold>\<open>Extensions.\<close> \<open>Semver\<close>, \<open>ExtManifest\<close>, \<open>DependencyOrder\<close>, \<open>DependencySolver\<close>, \<open>DependencyPlan\<close> (\<open>extension/semver.go\<close>,
  \<open>manifest.go\<close>, \<open>dependency_plan.go\<close>, \<open>install_planned.go\<close>): versions are ordered by precedence, a parsed manifest is
  valid, the solver finds a selection exactly when there is one, and the steps of a plan respect every dependency.

  \<^bold>\<open>Recovery.\<close> \<open>Recovery\<close> (bounded retries, \<open>recovery/backoff.go\<close>), \<open>Restart\<close> (\<open>recovery/policy.go\<close> and the reconciliation
  transaction of \<open>store/runtime_recovery.go\<close>): at most five attempts with exact backoffs, and a restart that fails closed.

  \<^bold>\<open>Simulation.\<close> \<open>DigitalTwin\<close>, \<open>TwinSafety\<close> (\<open>simulator/*.go\<close>, \<open>store/simulation_context.go\<close>): simulated work reaches no
  device and live work no twin, faults are taken up as often as configured, checkpoints round-trip, and the sessions a
  restart has closed execute nothing.

  \<^bold>\<open>Composition.\<close> \<open>Capability\<close> puts the executors behind the lease of \<open>HAExclusion\<close>; \<open>TwinSafety\<close> runs the session executor on
  the tables \<open>Restart\<close> leaves; this theory compares the cue the timecode runtime waits for with the cue the engine selects.

  \<^bold>\<open>Bounds and fuel.\<close> Recursions that follow data are structural; the search for cycles and the order of installation end
  by a measure on what is not yet visited. Two searches take fuel: the walk over the links of cues, one more than the
  number of cues (\<open>walk_fuel\<close>: it never runs out), and the solver, twice the number of identifiers a plan can reach and one
  (\<open>plan_fuel_enough\<close>). Waits on other goroutines are actions that block, not fuel; a device socket receives, and a cue action reads the result of its command, any given number of times. Integers keep their 64 bits where a
  product or a sum can leave them; capacities, attempts and windows are the constants of the code.

  \<^bold>\<open>Not modelled.\<close> HTTP handlers, web and operator pages, the SQL driver and its plain reads and writes, sockets, TLS, files,
  processes and operating-system services: they move data, and what they decide is in the parts above. Float and JSON
  codecs, SHA-256, UUIDs and ULIDs are parameters. Reports and summaries that only format state are left out, as are
  the packages whose logic is a validation of stored text (companion, assistant, templates, capsules). The Go memory model
  is not: critical sections and SQL statements are atomic, and so is an observation of the timecode source, whose service
  releases its lock between the monitor, the scheduler and the GOs. SQLite's \<open>length\<close> counts bytes here. The inventory of
  stage devices is fixed, and of the assignments only those of tablets are operations. Of the results of stored commands the
  branch for one that does not decode is left out.
\<close>

section \<open>The timecode runtime and the cue engine\<close>

lemma cues_from_after: "cues_from = cues_after"
  by (rule ext) (simp add: cues_from_def cues_after_def fun_eq_iff)

lemma find_cong_set: "(\<And>x. x \<in> set xs \<Longrightarrow> P x = Q x) \<Longrightarrow> find P xs = find Q xs"
  by (induction xs) auto

text \<open>
  C36. Timecode and operator agree on flat shows: if the links of the snapshot are sound and no enabled cue is
  linked by another, the cue the timecode runtime waits for is the cue an operator's GO would select, and
  there is none exactly when the GO would be rejected.
\<close>

theorem timecode_agrees_when_flat:
  assumes "nestedCueIDs um cues = Inr nested" and "\<forall>c \<in> set cues. cueEnabled c \<longrightarrow> \<not> nested (cueID c)"
    and "RequestedNextCueID payload = None" and "ExpectedCurrentCueID payload = None"
  shows "nextEnabledCueID cues cur
    = (case selectCue um msg cues cur payload of Inr c \<Rightarrow> cueID c | Inl _ \<Rightarrow> [])"
proof -
  let ?cur = "case cur of None \<Rightarrow> [] | Some c \<Rightarrow> c"
  have same: "find (\<lambda>c. cueEnabled c \<and> \<not> nested (cueID c)) rest = find cueEnabled rest"
    if "cues_from ?cur cues = Some rest" for rest
    using assms(2) cues_from_set [OF that] by (intro find_cong_set) auto
  show ?thesis
  proof (cases "cues_from ?cur cues")
    case None
    then show ?thesis using assms
      by (simp add: selectCue_def nextEnabledCueID_def cues_from_after Let_def)
  next
    case (Some rest)
    with same [OF this] assms show ?thesis
      by (cases "find cueEnabled rest")
        (simp_all add: selectCue_def nextEnabledCueID_def cues_from_after Let_def)
  qed
qed

definition flat_cues :: "Cue list" where
  "flat_cues = [demo_cue ''A'' [], demo_cue ''B'' []]"

definition plain_go :: CueGoPayload where
  "plain_go = \<lparr>ExpectedCurrentCueID = None, RequestedNextCueID = None, OperatorNote = None\<rparr>"

theorem timecode_agrees_when_flat_witness:
  "nextEnabledCueID flat_cues (Some ''A'')
    = (case selectCue demo_um (\<lambda>_. []) flat_cues (Some ''A'') plain_go of Inr c \<Rightarrow> cueID c | Inl _ \<Rightarrow> [])"
proof -
  have "case nestedCueIDs demo_um flat_cues of Inl _ \<Rightarrow> False | Inr _ \<Rightarrow> True" by code_simp
  then obtain nested where n: "nestedCueIDs demo_um flat_cues = Inr nested" by (auto split: sum.splits)
  have "\<not> links_to demo_um d i" if "d \<in> set flat_cues" for d i
    using that by (auto simp: flat_cues_def links_to_def demo_cue_def ParsePolicy_def zero_policy_def)
  then have "\<forall>c \<in> set flat_cues. cueEnabled c \<longrightarrow> \<not> nested (cueID c)"
    using nestedCueIDs_Inr(1) [OF n] by blast
  from timecode_agrees_when_flat [OF n this] show ?thesis by (simp add: plain_go_def)
qed

text \<open>
  With a group it is not so: after cue A, which links B, which links C, the operator's GO starts D, but the
  timecode runtime waits for the nested cue B and inhibits a binding to D.
\<close>

lemma timecode_diverges_on_groups:
  "selectCue demo_um (\<lambda>_. []) demo_cues (Some ''A'') plain_go = Inr (demo_cue ''D'' [])
   \<and> nextEnabledCueID demo_cues (Some ''A'') = ''B''"
  by (intro conjI; code_simp)

end
